(* ===== verification/Air_Prelude.thy ===== *)
theory Air_Prelude
  imports Main "HOL-Library.Word"
begin

text \<open>
  What every component theory of this development shares: the values of the Python
  programs under \<^verbatim>\<open>src/\<close> (results that may raise, text as code points, octets), the
  two bit-level helpers \<^verbatim>\<open>bytes([...])\<close> and \<^verbatim>\<open>struct.pack(">H", ...)\<close>, a generic
  reachability interface for the state machines, and the list lemmas that several
  components use.
\<close>

unbundle bit_operations_syntax

named_theorems air_simps "simplification rules the components share"

section \<open>Results that may raise\<close>

text \<open>
  An exception of the source is a value: \<open>Inl\<close> of an error, \<open>Inr\<close> of the returned value.
\<close>

datatype py_error = ValueError | IndexError | KeyError | StructError

type_synonym 'a py = "py_error + 'a"

definition bindR :: "'e + 'a \<Rightarrow> ('a \<Rightarrow> 'e + 'b) \<Rightarrow> 'e + 'b" where
  "bindR m f = (case m of Inl e \<Rightarrow> Inl e | Inr a \<Rightarrow> f a)"

definition guardR :: "bool \<Rightarrow> 'e \<Rightarrow> 'e + 'b \<Rightarrow> 'e + 'b" where
  "guardR ok e k = (if ok then k else Inl e)"

lemma bindR_simps [simp]: "bindR (Inl e) f = Inl e" "bindR (Inr a) f = f a"
  by (simp_all add: bindR_def)

lemma bindR_eq_Inr: "bindR m f = Inr b \<longleftrightarrow> (\<exists>a. m = Inr a \<and> f a = Inr b)"
  by (cases m) auto

lemma bindR_InrE: "bindR m f = Inr b \<Longrightarrow> (\<And>a. m = Inr a \<Longrightarrow> f a = Inr b \<Longrightarrow> thesis) \<Longrightarrow> thesis"
  by (cases m) auto

lemma bindR_eq_Inl: "bindR m f = Inl e \<longleftrightarrow> m = Inl e \<or> (\<exists>a. m = Inr a \<and> f a = Inl e)"
  by (cases m) auto

lemma guardR_eq_Inr: "guardR ok e k = Inr b \<longleftrightarrow> ok \<and> k = Inr b"
  by (simp add: guardR_def)

lemma guardR_eq_Inl: "guardR ok e k = Inl e' \<longleftrightarrow> (\<not> ok \<and> e' = e) \<or> (ok \<and> k = Inl e')"
  by (auto simp: guardR_def)

lemma guardR_True [simp]: "guardR True e k = k"
  by (simp add: guardR_def)

lemma guardR_False [simp]: "guardR False e k = Inl e"
  by (simp add: guardR_def)

lemmas result_simps = bindR_eq_Inr bindR_eq_Inl guardR_eq_Inr guardR_eq_Inl

definition is_ok :: "'e + 'a \<Rightarrow> bool" where
  "is_ok m \<longleftrightarrow> (\<exists>a. m = Inr a)"

lemma is_ok_simps [simp, code]: "is_ok (Inr a) = True" "is_ok (Inl e) = False"
  by (simp_all add: is_ok_def)

text \<open>Evaluating a list of calls from left to right, stopping at the first that raises.\<close>

fun seqR :: "('e + 'a) list \<Rightarrow> 'e + 'a list" where
  "seqR [] = Inr []"
| "seqR (m # ms) = bindR m (\<lambda>a. bindR (seqR ms) (\<lambda>as. Inr (a # as)))"

lemma seqR_eq_Inr: "seqR ms = Inr as \<longleftrightarrow> ms = map Inr as"
  by (induction ms arbitrary: as) (auto simp: bindR_eq_Inr)

lemma seqR_ok_iff: "is_ok (seqR ms) \<longleftrightarrow> list_all is_ok ms"
  by (induction ms) (auto simp: bindR_eq_Inr is_ok_def)

section \<open>Text and octets\<close>

text \<open>
  A Python \<^verbatim>\<open>str\<close> is a list of Unicode code points, so \<^verbatim>\<open>len\<close> and slicing count code
  points; \<open>cps\<close> turns an ASCII literal into that form. A \<^verbatim>\<open>bytes\<close> value is a list of
  8-bit words.
\<close>

type_synonym utext = "nat list"
type_synonym byte = "8 word"

definition cps :: "string \<Rightarrow> utext" where
  "cps s = map of_char s"

lemma cps_inject [simp]: "cps s = cps t \<longleftrightarrow> s = t"
proof
  assume "cps s = cps t"
  then have "map (char_of \<circ> (of_char :: char \<Rightarrow> nat)) s = map (char_of \<circ> (of_char :: char \<Rightarrow> nat)) t"
    unfolding cps_def by (metis map_map)
  then show "s = t" by (simp add: comp_def)
qed simp

lemma length_cps [simp]: "length (cps s) = length s"
  by (simp add: cps_def)

text \<open>\<^verbatim>\<open>bytes([x, ...])\<close> raises ValueError unless every x is in range(256).\<close>

definition mk_bytes :: "int list \<Rightarrow> byte list py" where
  "mk_bytes xs = (if \<forall>x\<in>set xs. 0 \<le> x \<and> x < 256 then Inr (map word_of_int xs) else Inl ValueError)"

text \<open>\<^verbatim>\<open>struct.pack(">H", x)\<close>: two octets, most significant first; struct.error out of range.\<close>

definition pack_be16 :: "int \<Rightarrow> byte list py" where
  "pack_be16 x = (if 0 \<le> x \<and> x < 65536
     then Inr [word_of_int (x div 256), word_of_int (x mod 256)] else Inl StructError)"

lemma mk_bytes_eq_Inr:
  "mk_bytes xs = Inr bs \<longleftrightarrow> (\<forall>x\<in>set xs. 0 \<le> x \<and> x < 256) \<and> bs = map word_of_int xs"
  by (auto simp: mk_bytes_def)

lemma mk_bytes_length: "mk_bytes xs = Inr bs \<Longrightarrow> length bs = length xs"
  by (auto simp: mk_bytes_eq_Inr)

lemma mk_bytes_eq_Inl: "mk_bytes xs = Inl e \<longleftrightarrow> (\<exists>x\<in>set xs. x < 0 \<or> 256 \<le> x) \<and> e = ValueError"
  by (auto simp: mk_bytes_def not_less not_le)

lemma pack_be16_eq_Inr:
  "pack_be16 x = Inr bs \<longleftrightarrow>
     0 \<le> x \<and> x < 65536 \<and> bs = [word_of_int (x div 256), word_of_int (x mod 256)]"
  by (auto simp: pack_be16_def)

lemma uint_byte: "0 \<le> x \<Longrightarrow> x < 256 \<Longrightarrow> uint (word_of_int x :: byte) = x"
  by (simp add: uint_word_of_int)

lemma unat_byte: "0 \<le> x \<Longrightarrow> x < 256 \<Longrightarrow> unat (word_of_int x :: byte) = nat x"
  by (simp add: uint_byte flip: nat_uint_eq)

lemma xor_eq_0_iff_word: "(a :: 'n::len word) XOR b = 0 \<longleftrightarrow> a = b"
proof
  assume "a XOR b = 0"
  then have "(a XOR b) XOR b = 0 XOR b" by simp
  then show "a = b" by (simp add: xor.assoc)
qed simp

lemma xor_right_cancel_word [simp]: "(a :: 'n::len word) XOR c = b XOR c \<longleftrightarrow> a = b"
  by (metis xor_eq_0_iff_word xor.assoc xor.commute)

lemma xor_shuffle_word:
  fixes r :: "'n::len word"
  shows "(r XOR s) XOR b = (r XOR s') XOR b' \<longleftrightarrow> s XOR s' = b XOR b'"
proof -
  have "((r XOR s) XOR b) XOR ((r XOR s') XOR b') = (s XOR s') XOR (b XOR b')"
    by (rule bit_word_eqI) (auto simp: bit_xor_iff)
  then show ?thesis by (metis xor_eq_0_iff_word)
qed

lemma map_uint_bytes:
  "\<forall>x\<in>set xs. 0 \<le> x \<and> x < 256 \<Longrightarrow> map uint (map word_of_int xs :: byte list) = xs"
  by (induction xs) (simp_all add: uint_byte)

text \<open>Bit fields of unbounded integers: masks are remainders, disjoint fields add up.\<close>

lemma and_low_mask: "(x :: int) AND (2 ^ n - 1) = x mod 2 ^ n"
  by (simp add: take_bit_eq_mod flip: mask_eq_exp_minus_1 take_bit_eq_mask)

lemma push_bit_or:
  assumes "0 \<le> b" and "b < 2 ^ n"
  shows "push_bit n (a :: int) OR b = a * 2 ^ n + b"
proof -
  have "take_bit n b = b" using assms by (simp add: take_bit_int_eq_self)
  then have "push_bit n a OR b = concat_bit n b a" by (simp add: concat_bit_def or.commute)
  also have "\<dots> = a * 2 ^ n + b"
    using \<open>take_bit n b = b\<close> by (simp add: concat_bit_eq push_bit_eq_mult)
  finally show ?thesis .
qed

lemmas and_masks =
  and_low_mask [of _ 1, simplified] and_low_mask [of _ 3, simplified] and_low_mask [of _ 4, simplified]
  and_low_mask [of _ 5, simplified] and_low_mask [of _ 6, simplified] and_low_mask [of _ 8, simplified]
  and_low_mask [of _ 10, simplified] and_low_mask [of _ 16, simplified]

section \<open>Reachability\<close>

text \<open>
  A component with state is a start predicate, a step function that takes an event and may
  refuse it, and an invariant. \<open>run\<close> applies a list of events, skipping the refused ones
  (a refused operation leaves the state as it was: the source raises before it writes, or
  its transaction rolls back).
\<close>

definition step_or_skip :: "('e \<Rightarrow> 's \<Rightarrow> 'r + 's) \<Rightarrow> 'e \<Rightarrow> 's \<Rightarrow> 's" where
  "step_or_skip step e s = (case step e s of Inl _ \<Rightarrow> s | Inr s' \<Rightarrow> s')"

definition run :: "('e \<Rightarrow> 's \<Rightarrow> 'r + 's) \<Rightarrow> 'e list \<Rightarrow> 's \<Rightarrow> 's" where
  "run step es s = fold (step_or_skip step) es s"

locale guarded_machine =
  fixes step :: "'e \<Rightarrow> 's \<Rightarrow> 'r + 's"
    and inv :: "'s \<Rightarrow> bool"
  assumes step_inv: "inv s \<Longrightarrow> step e s = Inr s' \<Longrightarrow> inv s'"
begin

lemma skip_inv: "inv s \<Longrightarrow> inv (step_or_skip step e s)"
  by (auto simp: step_or_skip_def step_inv split: sum.splits)

lemma run_inv: "inv s \<Longrightarrow> inv (run step es s)"
proof (induction es arbitrary: s)
  case Nil
  then show ?case by (simp add: run_def)
next
  case (Cons e es)
  then have "inv (run step es (step_or_skip step e s))" by (simp add: skip_inv)
  then show ?case by (simp add: run_def)
qed

end

lemma run_Nil [simp]: "run step [] s = s"
  by (simp add: run_def)

lemma run_Cons [simp]: "run step (e # es) s = run step es (step_or_skip step e s)"
  by (simp add: run_def)

lemma run_append: "run step (es @ fs) s = run step fs (run step es s)"
  by (simp add: run_def)

section \<open>Lists\<close>

text \<open>\<^verbatim>\<open>s.ljust(n)\<close>: pad with spaces on the right up to n characters.\<close>

definition ljust :: "nat \<Rightarrow> utext \<Rightarrow> utext" where
  "ljust n t = t @ replicate (n - length t) 32"

lemma length_ljust [simp]: "length (ljust n t) = max n (length t)"
  by (simp add: ljust_def)

lemma ljust_full [simp]: "n \<le> length t \<Longrightarrow> ljust n t = t"
  by (simp add: ljust_def)

lemma take_ljust: "k \<le> length t \<Longrightarrow> take k (ljust n t) = take k t"
  by (simp add: ljust_def)

lemma dropWhile_decomp:
  "dropWhile P xs = y # ys \<Longrightarrow> xs = takeWhile P xs @ y # ys \<and> \<not> P y"
  by (metis hd_dropWhile list.distinct(1) list.sel(1) takeWhile_dropWhile_id)

lemma takeWhile_append_stop:
  "\<forall>x\<in>set xs. P x \<Longrightarrow> \<not> P y \<Longrightarrow> takeWhile P (xs @ y # ys) = xs \<and> dropWhile P (xs @ y # ys) = y # ys"
  by (induction xs) auto

lemma length_dropWhile_less: "dropWhile P xs = y # ys \<Longrightarrow> length ys < length xs"
  using length_dropWhile_le [of P xs] by simp

end
