(* ===== verification/Rds_Charset.thy ===== *)
theory Rds_Charset
  imports Air_Prelude
begin

text \<open>
  \<^verbatim>\<open>rbds/services/charset.py\<close>: the text normalisation every RDS text field goes through
  before its length is taken, and the G0 character set it is sent in. The decode table is
  the module's own tuple, as code points; the encode dictionary is built from it by the
  module's own loop. Unicode NFC (\<^verbatim>\<open>unicodedata.normalize\<close>, a database of the Python
  runtime) is the parameter \<open>nfc\<close> of \<open>normalize_text\<close>; nothing is assumed of it.
\<close>

section \<open>The G0 table\<close>

definition RDS_G0_DECODE :: "nat list" where
  "RDS_G0_DECODE = [
    32, 32, 32, 32, 32, 32, 32, 32, 32, 32, 10, 32, 32, 13, 32, 32,
    32, 32, 32, 32, 32, 32, 32, 32, 32, 32, 32, 32, 32, 32, 32, 173,
    32, 33, 34, 35, 164, 37, 38, 39, 40, 41, 42, 43, 44, 45, 46, 47,
    48, 49, 50, 51, 52, 53, 54, 55, 56, 57, 58, 59, 60, 61, 62, 63,
    64, 65, 66, 67, 68, 69, 70, 71, 72, 73, 74, 75, 76, 77, 78, 79,
    80, 81, 82, 83, 84, 85, 86, 87, 88, 89, 90, 91, 92, 93, 8213, 95,
    8214, 97, 98, 99, 100, 101, 102, 103, 104, 105, 106, 107, 108, 109, 110, 111,
    112, 113, 114, 115, 116, 117, 118, 119, 120, 121, 122, 123, 124, 125, 175, 32,
    225, 224, 233, 232, 237, 236, 243, 242, 250, 249, 209, 199, 350, 946, 161, 306,
    226, 228, 234, 235, 238, 239, 244, 246, 251, 252, 241, 231, 351, 487, 305, 307,
    170, 945, 169, 8240, 486, 283, 328, 337, 960, 8364, 163, 36, 8592, 8593, 8594, 8595,
    186, 185, 178, 179, 177, 304, 324, 369, 181, 191, 247, 176, 188, 189, 190, 167,
    193, 192, 201, 200, 205, 204, 211, 210, 218, 217, 344, 268, 352, 381, 208, 319,
    194, 196, 202, 203, 206, 207, 212, 214, 219, 220, 345, 269, 353, 382, 273, 320,
    195, 197, 198, 338, 375, 221, 213, 216, 222, 330, 340, 262, 346, 377, 358, 240,
    227, 229, 230, 339, 373, 253, 245, 248, 254, 331, 341, 263, 347, 378, 359, 32]"

definition g0_setdefault :: "nat \<Rightarrow> (nat \<rightharpoonup> nat) \<Rightarrow> (nat \<rightharpoonup> nat)" where
  "g0_setdefault code m =
     (let ch = RDS_G0_DECODE ! code in if m ch = None then m(ch \<mapsto> code) else m)"

definition RDS_G0_ENCODE :: "nat \<rightharpoonup> nat" where
  "RDS_G0_ENCODE = fold g0_setdefault [0x20..<0x100] Map.empty"

section \<open>Normalisation\<close>

definition SMART_PUNCTUATION :: "(nat \<times> utext) list" where
  "SMART_PUNCTUATION =
     [(8216, [39]), (8217, [39]), (8218, [39]), (8219, [39]),
      (8220, [34]), (8221, [34]), (8222, [34]), (8223, [34]),
      (8211, [45]), (8212, [45]), (8213, [45]),
      (8230, [46, 46, 46])]"

text \<open>\<^verbatim>\<open>text.replace(smart, plain)\<close> for a one-character \<^verbatim>\<open>smart\<close>.\<close>

definition replace_char :: "nat \<times> utext \<Rightarrow> utext \<Rightarrow> utext" where
  "replace_char sp t = concat (map (\<lambda>c. if c = fst sp then snd sp else [c]) t)"

definition CONTROL_TRANSLATION :: "nat \<Rightarrow> nat" where
  "CONTROL_TRANSLATION c = (if c < 0x20 \<or> c = 0x7F then 32 else c)"

definition normalize_text :: "(utext \<Rightarrow> utext) \<Rightarrow> utext \<Rightarrow> utext" where
  "normalize_text nfc t =
     (if t = [] then []
      else map CONTROL_TRANSLATION (fold replace_char SMART_PUNCTUATION (nfc t)))"

section \<open>Encoding\<close>

text \<open>
  \<^verbatim>\<open>encode_rds_g0\<close> with its default replacement, the space (no caller passes another one):
  one octet per character.
\<close>

definition encode_char :: "nat \<Rightarrow> nat" where
  "encode_char c = (case RDS_G0_ENCODE c of Some code \<Rightarrow> code | None \<Rightarrow> 32)"

definition encode_rds_g0 :: "utext \<Rightarrow> byte list" where
  "encode_rds_g0 t = map (\<lambda>c. word_of_nat (encode_char c)) t"

text \<open>What a receiver shows for an octet, by the same table.\<close>

definition g0_decode :: "byte list \<Rightarrow> utext" where
  "g0_decode bs = map (\<lambda>b. RDS_G0_DECODE ! unat b) bs"

definition g0_repertoire :: "nat set" where
  "g0_repertoire = set (drop 0x20 RDS_G0_DECODE)"

section \<open>Facts about the table\<close>

lemma length_table: "length RDS_G0_DECODE = 256"
  by (simp add: RDS_G0_DECODE_def)

lemma table_space: "RDS_G0_DECODE ! 32 = 32"
  by (simp add: RDS_G0_DECODE_def)

lemma table_printable: "\<forall>ch\<in>set (drop 32 RDS_G0_DECODE). 32 \<le> ch \<and> ch \<noteq> 127"
  by (simp add: RDS_G0_DECODE_def)

lemma setdefault_fold:
  "fold g0_setdefault codes m ch =
     (case m ch of Some c \<Rightarrow> Some c
      | None \<Rightarrow> find (\<lambda>code. RDS_G0_DECODE ! code = ch) codes)"
proof (induction codes arbitrary: m)
  case Nil
  then show ?case by (simp split: option.splits)
next
  case (Cons c cs)
  have "g0_setdefault c m ch
      = (case m ch of Some x \<Rightarrow> Some x | None \<Rightarrow> if RDS_G0_DECODE ! c = ch then Some c else None)"
    by (auto simp: g0_setdefault_def Let_def split: option.splits)
  then show ?case by (auto simp: Cons.IH split: option.splits)
qed

lemma encode_find: "RDS_G0_ENCODE ch = find (\<lambda>code. RDS_G0_DECODE ! code = ch) [0x20..<0x100]"
  by (simp add: RDS_G0_ENCODE_def setdefault_fold del: upt_rec_numeral)

lemma find_SomeD: "find P xs = Some x \<Longrightarrow> P x \<and> x \<in> set xs"
  by (induction xs) (auto split: if_splits)

lemma encode_Some:
  "RDS_G0_ENCODE ch = Some code \<Longrightarrow> 32 \<le> code \<and> code < 256 \<and> RDS_G0_DECODE ! code = ch"
  unfolding encode_find by (drule find_SomeD) (simp del: upt_rec_numeral)

lemma repertoire_iff: "ch \<in> g0_repertoire \<longleftrightarrow> (\<exists>code. 32 \<le> code \<and> code < 256 \<and> RDS_G0_DECODE ! code = ch)"
proof -
  have "ch \<in> g0_repertoire \<longleftrightarrow> (\<exists>i<224. RDS_G0_DECODE ! (32 + i) = ch)"
    by (simp add: g0_repertoire_def in_set_conv_nth length_table)
  also have "\<dots> \<longleftrightarrow> (\<exists>code. 32 \<le> code \<and> code < 256 \<and> RDS_G0_DECODE ! code = ch)"
  proof
    assume "\<exists>i<224. RDS_G0_DECODE ! (32 + i) = ch"
    then obtain i where "i < 224" and "RDS_G0_DECODE ! (32 + i) = ch" by blast
    then show "\<exists>code. 32 \<le> code \<and> code < 256 \<and> RDS_G0_DECODE ! code = ch"
      by (intro exI [of _ "32 + i"]) simp
  next
    assume "\<exists>code. 32 \<le> code \<and> code < 256 \<and> RDS_G0_DECODE ! code = ch"
    then obtain code where "32 \<le> code" "code < 256" "RDS_G0_DECODE ! code = ch" by blast
    then show "\<exists>i<224. RDS_G0_DECODE ! (32 + i) = ch"
      by (intro exI [of _ "code - 32"]) simp
  qed
  finally show ?thesis .
qed

lemma encode_None_iff: "RDS_G0_ENCODE ch = None \<longleftrightarrow> ch \<notin> g0_repertoire"
  by (auto simp: encode_find find_None_iff repertoire_iff simp del: upt_rec_numeral)

lemma encode_char_range: "32 \<le> encode_char c \<and> encode_char c < 256"
  by (auto simp: encode_char_def dest: encode_Some split: option.splits)

lemma decode_encode_char:
  "RDS_G0_DECODE ! encode_char c = (if c \<in> g0_repertoire then c else 32)"
  using encode_None_iff [of c]
  by (auto simp: encode_char_def table_space dest: encode_Some split: option.splits)

lemma unat_encode_char: "unat (word_of_nat (encode_char c) :: byte) = encode_char c"
  using encode_char_range [of c] by (simp add: unat_of_nat)

lemma length_encode [simp]: "length (encode_rds_g0 t) = length t"
  by (simp add: encode_rds_g0_def)

lemma encode_printable: "b \<in> set (encode_rds_g0 t) \<Longrightarrow> 32 \<le> unat b"
  using encode_char_range by (auto simp: encode_rds_g0_def unat_encode_char)

section \<open>Facts about normalisation\<close>

lemma set_replace_char:
  "set (replace_char sp t) \<subseteq> (set t - {fst sp}) \<union> set (snd sp)"
  by (auto simp: replace_char_def split: if_splits)

lemma fold_replace_removes:
  assumes "\<forall>(s, p)\<in>set sps. \<forall>(s', p')\<in>set sps. s \<notin> set p'"
  shows "set (fold replace_char sps t) \<inter> fst ` set sps = {}
    \<and> set (fold replace_char sps t) \<subseteq> set t \<union> (\<Union>p\<in>snd ` set sps. set p)"
  using assms
proof (induction sps rule: rev_induct)
  case Nil
  then show ?case by simp
next
  case (snoc sp sps)
  from snoc.prems have prems: "\<forall>(s, p)\<in>set sps. \<forall>(s', p')\<in>set sps. s \<notin> set p'"
    by auto
  let ?u = "fold replace_char sps t"
  have ih: "set ?u \<inter> fst ` set sps = {}" "set ?u \<subseteq> set t \<union> (\<Union>p\<in>snd ` set sps. set p)"
    using snoc.IH [OF prems] by auto
  have sub: "set (replace_char sp ?u) \<subseteq> (set ?u - {fst sp}) \<union> set (snd sp)"
    by (rule set_replace_char)
  have own: "set (snd sp) \<inter> fst ` set (sps @ [sp]) = {}"
    using snoc.prems by (cases sp) fastforce
  have "set (replace_char sp ?u) \<inter> fst ` set (sps @ [sp]) = {}"
    using sub ih(1) own by auto
  moreover have "set (replace_char sp ?u) \<subseteq> set t \<union> (\<Union>p\<in>snd ` set (sps @ [sp]). set p)"
    using sub ih(2) by auto
  ultimately show ?case by simp
qed

lemma smart_disjoint:
  "\<forall>(s, p)\<in>set SMART_PUNCTUATION. \<forall>(s', p')\<in>set SMART_PUNCTUATION. s \<notin> set p'"
  by (simp add: SMART_PUNCTUATION_def)

lemma smart_keys_not_control:
  "s \<in> fst ` set SMART_PUNCTUATION \<Longrightarrow> s \<noteq> 32"
  by (auto simp: SMART_PUNCTUATION_def)

lemma normalize_no_control:
  "c \<in> set (normalize_text nfc t) \<Longrightarrow> 32 \<le> c \<and> c \<noteq> 127"
  by (auto simp: normalize_text_def CONTROL_TRANSLATION_def split: if_splits)

lemma normalize_no_smart:
  "set (normalize_text nfc t) \<inter> fst ` set SMART_PUNCTUATION = {}"
proof -
  have "set (fold replace_char SMART_PUNCTUATION (nfc t)) \<inter> fst ` set SMART_PUNCTUATION = {}"
    using fold_replace_removes [OF smart_disjoint] by blast
  then show ?thesis
    using smart_keys_not_control
    by (auto simp: normalize_text_def CONTROL_TRANSLATION_def image_iff split: if_splits)
qed

lemma normalize_Nil [simp]: "normalize_text nfc [] = []"
  by (simp add: normalize_text_def)

text \<open>
  Normalised text is safe to put on the wire: whatever \<^verbatim>\<open>unicodedata\<close> does, the result
  holds no C0 control character, no DEL and none of the twelve typographic characters
  (so no line feed reaches the line-based ASCII transport), and encoding it gives one
  octet per character, each printable, that a receiver with the same table shows as the
  character itself if the G0 repertoire has it and as a space otherwise.
\<close>

theorem normalized_text_on_the_wire:
  "list_all (\<lambda>c. 32 \<le> c \<and> c \<noteq> 127 \<and> c \<notin> fst ` set SMART_PUNCTUATION) (normalize_text nfc t)
   \<and> length (encode_rds_g0 (normalize_text nfc t)) = length (normalize_text nfc t)
   \<and> list_all (\<lambda>b. 32 \<le> unat b) (encode_rds_g0 (normalize_text nfc t))
   \<and> g0_decode (encode_rds_g0 (normalize_text nfc t))
     = map (\<lambda>c. if c \<in> g0_repertoire then c else 32) (normalize_text nfc t)"
  unfolding list_all_iff
proof (intro conjI ballI)
  fix c assume "c \<in> set (normalize_text nfc t)"
  then show "32 \<le> c" and "c \<noteq> 127" and "c \<notin> fst ` set SMART_PUNCTUATION"
    using normalize_no_control normalize_no_smart by blast+
qed (auto simp: encode_printable g0_decode_def encode_rds_g0_def unat_encode_char decode_encode_char)

end
