(* ===== verification/Rds_Uecp.thy ===== *)
theory Rds_Uecp
  imports Rds_Charset
begin

text \<open>
  \<^verbatim>\<open>rbds/services/uecp.py\<close>: the binary UECP link to the RDS encoder. First the frame layer
  (CRC, byte stuffing, \<^verbatim>\<open>build_frame\<close>, \<^verbatim>\<open>split_frames\<close>), then one definition per
  \<^verbatim>\<open>mec_*\<close> message-element builder. Octets are 8-bit words, the CRC register is a 16-bit
  word, and the integers callers pass (addresses, data-set numbers, codes) are \<open>int\<close>, so
  that \<^verbatim>\<open>bytes([...])\<close> raising on an out-of-range value is a branch of the model.
  \<^verbatim>\<open>freq_to_af_code\<close> and \<^verbatim>\<open>mec_af\<close> (binary floating-point frequencies) are not modelled.

  The receiver side (\<open>byte_unstuff\<close>, \<open>decode_frame\<close>, \<open>split_elements\<close>) is the
  specification the sender is checked against; it models no code under \<^verbatim>\<open>src/\<close>.
\<close>

section \<open>CRC-CCITT\<close>

type_synonym crc_reg = "16 word"

definition crc_bit :: "crc_reg \<Rightarrow> crc_reg" where
  "crc_bit crc = (if crc AND 0x8000 \<noteq> 0 then push_bit 1 crc XOR 0x1021 else push_bit 1 crc)"

definition crc_byte :: "byte \<Rightarrow> crc_reg \<Rightarrow> crc_reg" where
  "crc_byte b crc = (crc_bit ^^ 8) (crc XOR push_bit 8 (ucast b))"

definition crc_register :: "byte list \<Rightarrow> crc_reg \<Rightarrow> crc_reg" where
  "crc_register data crc = fold crc_byte data crc"

definition crc_ccitt :: "byte list \<Rightarrow> byte list" where
  "crc_ccitt data =
     (let crc = crc_register data 0xFFFF XOR 0xFFFF in [ucast (drop_bit 8 crc), ucast crc])"

section \<open>Frames\<close>

definition STA :: byte where "STA = 0xFE"
definition STP :: byte where "STP = 0xFF"

definition stuff1 :: "byte \<Rightarrow> byte list" where
  "stuff1 b =
     (if b = 0xFD then [0xFD, 0x00]
      else if b = 0xFE then [0xFD, 0x01]
      else if b = 0xFF then [0xFD, 0x02]
      else [b])"

definition byte_stuff :: "byte list \<Rightarrow> byte list" where
  "byte_stuff data = concat (map stuff1 data)"

definition frame_core :: "int \<Rightarrow> int \<Rightarrow> int \<Rightarrow> byte list \<Rightarrow> byte list py" where
  "frame_core site_address encoder_address sqc msg =
     bindR (pack_be16 (push_bit 6 (site_address AND 0x3FF) OR (encoder_address AND 0x3F))) (\<lambda>add.
     bindR (mk_bytes [int (length msg)]) (\<lambda>mfl.
     bindR (mk_bytes [sqc AND 0xFF]) (\<lambda>sq.
     Inr (add @ sq @ mfl @ msg))))"

definition build_frame :: "int \<Rightarrow> int \<Rightarrow> int \<Rightarrow> byte list \<Rightarrow> byte list py" where
  "build_frame site_address encoder_address sqc msg =
     bindR (frame_core site_address encoder_address sqc msg) (\<lambda>core.
     Inr ([STA] @ byte_stuff (core @ crc_ccitt core) @ [STP]))"

datatype split_error = ExpectedSTA nat byte | NoSTP nat

text \<open>
  The scan of \<^verbatim>\<open>split_frames\<close>: \<open>i\<close> is the offset of the payload's remaining part, which
  the error messages report.
\<close>

function split_frames_from :: "nat \<Rightarrow> byte list \<Rightarrow> split_error + byte list list" where
  "split_frames_from i [] = Inr []"
| "split_frames_from i (b # rest) =
     (if b \<noteq> STA then Inl (ExpectedSTA i b)
      else case dropWhile (\<lambda>x. x \<noteq> STP) rest of
             [] \<Rightarrow> Inl (NoSTP i)
           | stp # rest' \<Rightarrow>
               (let frame = b # takeWhile (\<lambda>x. x \<noteq> STP) rest @ [stp]
                in bindR (split_frames_from (i + length frame) rest') (\<lambda>frames. Inr (frame # frames))))"
  by pat_completeness auto
termination
  by (relation "measure (\<lambda>(i, p). length p)") (auto dest: length_dropWhile_less)

definition split_frames :: "byte list \<Rightarrow> split_error + byte list list" where
  "split_frames payload = split_frames_from 0 payload"

section \<open>Message elements\<close>

definition mec_pi :: "int \<Rightarrow> int \<Rightarrow> int \<Rightarrow> byte list py" where
  "mec_pi pi_code dsn psn =
     bindR (mk_bytes [0x01, dsn, psn]) (\<lambda>h. bindR (pack_be16 (pi_code AND 0xFFFF)) (\<lambda>med. Inr (h @ med)))"

definition mec_slow_labelling :: "int \<Rightarrow> int \<Rightarrow> int \<Rightarrow> byte list py" where
  "mec_slow_labelling variant data dsn =
     guardR (0 \<le> variant \<and> variant \<le> 7) ValueError (
     guardR (0 \<le> data \<and> data \<le> 0xFFF) ValueError (
     let med1 = push_bit 4 (variant AND 0x7) OR (drop_bit 8 data AND 0xF);
         med2 = data AND 0xFF
     in mk_bytes [0x1A, dsn, med1, med2]))"

definition mec_ecc :: "int \<Rightarrow> int \<Rightarrow> byte list py" where
  "mec_ecc ecc dsn = guardR (0 \<le> ecc \<and> ecc \<le> 0xFF) ValueError (mec_slow_labelling 0 ecc dsn)"

definition mec_language_code :: "int \<Rightarrow> int \<Rightarrow> byte list py" where
  "mec_language_code code dsn = guardR (0 \<le> code \<and> code \<le> 0xFF) ValueError (mec_slow_labelling 3 code dsn)"

definition mec_ptyn :: "utext \<Rightarrow> int \<Rightarrow> int \<Rightarrow> byte list py" where
  "mec_ptyn txt dsn psn =
     (let padded = ljust 8 (take 8 txt)
      in bindR (mk_bytes [0x3E, dsn, psn]) (\<lambda>h. Inr (h @ encode_rds_g0 padded)))"

definition mec_ps :: "utext \<Rightarrow> int \<Rightarrow> int \<Rightarrow> byte list py" where
  "mec_ps txt dsn psn =
     (let padded = ljust 8 (take 8 txt)
      in bindR (mk_bytes [0x02, dsn, psn]) (\<lambda>h. Inr (h @ encode_rds_g0 padded)))"

definition mec_ta_tp :: "bool \<Rightarrow> bool \<Rightarrow> int \<Rightarrow> int \<Rightarrow> byte list py" where
  "mec_ta_tp ta tp dsn psn =
     (let v = (if ta then 0x01 else 0x00) OR (if tp then 0x02 else 0x00 :: int)
      in mk_bytes [0x03, dsn, psn, v])"

definition mec_di :: "bool \<Rightarrow> bool \<Rightarrow> bool \<Rightarrow> bool \<Rightarrow> int \<Rightarrow> int \<Rightarrow> byte list py" where
  "mec_di dynamic_pty compressed artificial_head stereo dsn psn =
     (let v = (if stereo then 0x01 else 0x00) OR (if artificial_head then 0x02 else 0x00)
            OR (if compressed then 0x04 else 0x00) OR (if dynamic_pty then 0x08 else 0x00 :: int)
      in mk_bytes [0x04, dsn, psn, v])"

definition mec_ms :: "bool \<Rightarrow> int \<Rightarrow> int \<Rightarrow> byte list py" where
  "mec_ms music dsn psn = mk_bytes [0x05, dsn, psn, if music then 0x01 else 0x00]"

definition mec_pty :: "int \<Rightarrow> int \<Rightarrow> int \<Rightarrow> byte list py" where
  "mec_pty pty dsn psn = mk_bytes [0x07, dsn, psn, pty AND 0x1F]"

definition mec_rt :: "utext \<Rightarrow> bool \<Rightarrow> int \<Rightarrow> int \<Rightarrow> byte list py" where
  "mec_rt txt ab_flag dsn psn =
     (let t = take 64 txt; med0 = (if ab_flag then 0x01 else 0x00); mel = 1 + int (length t)
      in bindR (mk_bytes [0x0A, dsn, psn, mel, med0]) (\<lambda>h. Inr (h @ encode_rds_g0 t)))"

definition mec_long_ps :: "utext option \<Rightarrow> int \<Rightarrow> int \<Rightarrow> byte list py" where
  "mec_long_ps txt dsn psn =
     (if txt = None \<or> txt = Some [] then mk_bytes [0x21, dsn, psn, 0x00]
      else let t = take 32 (the txt); mel = 1 + int (length t)
           in bindR (mk_bytes [0x21, dsn, psn, mel]) (\<lambda>h. Inr (h @ encode_rds_g0 t @ [0x00])))"

definition mec_rt_plus_oda_reg :: "byte list" where
  "mec_rt_plus_oda_reg = [0x24, 0x06, 0x16, 0x00, 0x00, 0x4B, 0xD7]"

definition mec_rt_plus_tags :: "int \<Rightarrow> int \<Rightarrow> byte list py" where
  "mec_rt_plus_tags artist_len title_len0 =
     guardR (\<not> (artist_len < 1 \<or> title_len0 < 1)) ValueError (
     guardR (\<not> artist_len > 32) ValueError (
     let title_start = artist_len + 3 in
     guardR (\<not> title_start > 63) ValueError (
     let title_len = (if title_len0 > 64 then 64 else title_len0);
         byte1 = 0x08;
         byte2 = push_bit 5 1 OR (drop_bit 1 title_start AND 0x1F);
         byte3 = push_bit 7 (title_start AND 1) OR push_bit 1 ((title_len - 1) AND 0x3F);
         byte4 = 0x20;
         byte5 = (artist_len - 1) AND 0x1F
     in mk_bytes [0x24, 0x16, byte1, byte2, byte3, byte4, byte5])))"

definition mec_rt_plus_tags_generic :: "int \<Rightarrow> byte list py" where
  "mec_rt_plus_tags_generic rt_text_len =
     guardR (\<not> rt_text_len < 1) ValueError (
     let len1 = min (rt_text_len - 1) 63; byte3 = push_bit 1 (len1 AND 0x3F)
     in mk_bytes [0x24, 0x16, 0x0B, 0x20, byte3, 0x00, 0x00])"

text \<open>The fields \<^verbatim>\<open>mec_ct\<close> reads of its UTC datetime.\<close>

record utc_datetime =
  dt_year :: int
  dt_month :: int
  dt_day :: int
  dt_hour :: int
  dt_minute :: int
  dt_second :: int
  dt_microsecond :: int

text \<open>\<^verbatim>\<open>round(a / b)\<close> for a positive \<open>b\<close>: to the nearest integer, halves to the even one.\<close>

definition round_div :: "int \<Rightarrow> int \<Rightarrow> int" where
  "round_div a b =
     (let q = a div b; r = a mod b
      in if 2 * r < b then q else if 2 * r > b then q + 1 else if even q then q else q + 1)"

definition mec_ct :: "utc_datetime \<Rightarrow> int \<Rightarrow> byte list py" where
  "mec_ct dt_utc offset_minutes =
     (let year_2digit = dt_year dt_utc mod 100;
          half_hours = round_div offset_minutes 30;
          sign_bit = (if half_hours < 0 then 0x20 else 0x00);
          magnitude = \<bar>half_hours\<bar> AND 0x1F;
          offset_byte = sign_bit OR magnitude
      in mk_bytes [0x0D, year_2digit, dt_month dt_utc, dt_day dt_utc, dt_hour dt_utc, dt_minute dt_utc,
                   dt_second dt_utc, dt_microsecond dt_utc div 10000, offset_byte])"

definition mec_ct_on_off :: "bool \<Rightarrow> byte list py" where
  "mec_ct_on_off enabled = mk_bytes [0x19, if enabled then 0x01 else 0x00]"

section \<open>The receiver's view\<close>

fun byte_unstuff :: "byte list \<Rightarrow> byte list option" where
  "byte_unstuff [] = Some []"
| "byte_unstuff (b # bs) =
     (if b = 0xFD then
        (case bs of [] \<Rightarrow> None
         | c # cs \<Rightarrow> if c \<le> 2 then map_option (Cons (0xFD + c)) (byte_unstuff cs) else None)
      else if b = STA \<or> b = STP then None
      else map_option (Cons b) (byte_unstuff bs))"

definition crc_accepts :: "byte list \<Rightarrow> bool" where
  "crc_accepts span \<longleftrightarrow>
     (let n = length span - 2 in 2 \<le> length span \<and> crc_ccitt (take n span) = drop n span)"

definition decode_frame :: "byte list \<Rightarrow> (int \<times> int \<times> int \<times> byte list) option" where
  "decode_frame f =
     (case f of [] \<Rightarrow> None
      | b # rest \<Rightarrow>
          if b \<noteq> STA \<or> rest = [] \<or> last rest \<noteq> STP then None
          else case byte_unstuff (butlast rest) of None \<Rightarrow> None
               | Some span \<Rightarrow>
                   if \<not> crc_accepts span then None
                   else case take (length span - 2) span of
                          a1 # a2 # sq # mfl # msg \<Rightarrow>
                            if unat mfl = length msg
                            then let add = uint a1 * 256 + uint a2
                                 in Some (add div 64, add mod 64, uint sq, msg)
                            else None
                        | _ \<Rightarrow> None)"

text \<open>The length of the message element at the head of a MSG, from its code (and MEL).\<close>

definition element_length :: "byte list \<Rightarrow> nat option" where
  "element_length m =
     (case m of [] \<Rightarrow> None
      | c # rest \<Rightarrow>
          if c = 0x01 then Some 5
          else if c = 0x02 \<or> c = 0x3E then Some 11
          else if c = 0x03 \<or> c = 0x04 \<or> c = 0x05 \<or> c = 0x07 \<or> c = 0x1A then Some 4
          else if c = 0x0A \<or> c = 0x21
               then (if length rest < 3 then None else Some (4 + unat (rest ! 2)))
          else if c = 0x0D then Some 9
          else if c = 0x19 then Some 2
          else if c = 0x24 then Some 7
          else None)"

fun split_elements :: "nat \<Rightarrow> byte list \<Rightarrow> byte list list option" where
  "split_elements fuel [] = Some []"
| "split_elements 0 (b # bs) = None"
| "split_elements (Suc fuel) (b # bs) =
     (case element_length (b # bs) of None \<Rightarrow> None
      | Some k \<Rightarrow> if k = 0 \<or> length (b # bs) < k then None
                 else map_option (Cons (take k (b # bs))) (split_elements fuel (drop k (b # bs))))"

section \<open>Facts about the CRC\<close>

lemma crc_bit_alt: "crc_bit c = (if bit c 15 then push_bit 1 c XOR 0x1021 else push_bit 1 c)"
proof -
  have "c AND 0x8000 \<noteq> 0 \<longleftrightarrow> bit c 15"
    using and_exp_eq_0_iff_not_bit [of c 15] by simp
  then show ?thesis by (simp add: crc_bit_def)
qed

lemma crc_bit_xor: "crc_bit (a XOR b) = crc_bit a XOR crc_bit b"
  by (auto simp: crc_bit_alt bit_xor_iff push_bit_xor ac_simps)

lemma crc_bit_0 [simp]: "crc_bit 0 = 0"
  by (simp add: crc_bit_alt)

lemma crc_bit_eq_0: "crc_bit e = 0 \<Longrightarrow> e = 0"
proof -
  assume e: "crc_bit e = 0"
  show "e = 0"
  proof (cases "bit e 15")
    case True
    with e have "push_bit 1 e XOR 0x1021 = 0" by (simp add: crc_bit_alt)
    then have "push_bit 1 e = 0x1021" by (simp only: xor_eq_0_iff_word)
    then have "bit (push_bit 1 e) 0 = bit (0x1021 :: crc_reg) 0" by (simp only:)
    then show ?thesis by (simp only: bit_push_bit_iff) simp
  next
    case False
    with e have p: "push_bit 1 e = 0" by (simp add: crc_bit_alt)
    show ?thesis
    proof (rule bit_word_eqI)
      fix n assume n: "n < LENGTH(16)"
      show "bit e n \<longleftrightarrow> bit (0 :: crc_reg) n"
      proof (cases "n = 15")
        case True
        with False show ?thesis by simp
      next
        case n15: False
        with n have "bit (push_bit 1 e) (Suc n) \<longleftrightarrow> bit e n"
          by (simp only: bit_push_bit_iff) simp
        with p show ?thesis by simp
      qed
    qed
  qed
qed

lemma crc_bits_xor: "(crc_bit ^^ n) (a XOR b) = (crc_bit ^^ n) a XOR (crc_bit ^^ n) b"
  by (induction n) (simp_all add: crc_bit_xor)

lemma crc_bits_0 [simp]: "(crc_bit ^^ n) 0 = 0"
  by (induction n) simp_all

lemma crc_bits_eq_0: "(crc_bit ^^ n) e = 0 \<Longrightarrow> e = 0"
  by (induction n) (auto dest: crc_bit_eq_0)

lemma crc_bits_inj: "(crc_bit ^^ n) a = (crc_bit ^^ n) b \<Longrightarrow> a = b"
  using crc_bits_eq_0 [of n "a XOR b"] by (simp add: crc_bits_xor xor_eq_0_iff_word)

text \<open>A register whose high octet is zero is only shifted.\<close>

lemma crc_bits_shift:
  "k \<le> n \<Longrightarrow> n \<le> 8 \<Longrightarrow> (crc_bit ^^ k) (ucast (b :: byte)) = push_bit k (ucast b :: crc_reg)"
proof (induction k)
  case 0
  then show ?case by simp
next
  case (Suc k)
  have "\<not> bit (push_bit k (ucast b :: crc_reg)) 15"
    using Suc.prems by (auto simp: bit_push_bit_iff bit_ucast_iff dest: bit_imp_le_length)
  with Suc show ?case by (simp add: crc_bit_alt)
qed

lemma high_low_disjoint:
  assumes "push_bit 8 (ucast (x :: byte)) = (ucast (y :: byte) :: crc_reg)"
  shows "x = 0 \<and> y = 0"
proof -
  have eq: "bit (push_bit 8 (ucast x) :: crc_reg) n = bit (ucast y :: crc_reg) n" for n
    using assms by simp
  have x: "\<not> bit x n" for n
    using eq [of "n + 8"] bit_imp_le_length [of x n] bit_imp_le_length [of y "n + 8"]
    by (auto simp: bit_push_bit_iff bit_ucast_iff)
  have y: "\<not> bit y n" for n
    using eq [of n] bit_imp_le_length [of y n]
    by (auto simp: bit_push_bit_iff bit_ucast_iff)
  show ?thesis by (simp add: x y bit_eq_iff)
qed

lemma crc_register_append: "crc_register (xs @ ys) r = crc_register ys (crc_register xs r)"
  by (simp add: crc_register_def)

lemma crc_byte_inj: "crc_byte b r = crc_byte b r' \<Longrightarrow> r = r'"
  unfolding crc_byte_def by (drule crc_bits_inj) simp

lemma crc_register_inj: "crc_register xs r = crc_register xs r' \<Longrightarrow> r = r'"
  by (induction xs arbitrary: r r') (auto simp: crc_register_def dest: crc_byte_inj)

text \<open>Two adjacent octets are determined by the register they lead to.\<close>

lemma crc_window_inj:
  assumes "crc_register [a, b] r = crc_register [a', b'] r"
  shows "a = a' \<and> b = b'"
proof -
  let ?A = "push_bit 8 (ucast a) :: crc_reg" and ?A' = "push_bit 8 (ucast a') :: crc_reg"
  let ?B = "push_bit 8 (ucast b) :: crc_reg" and ?B' = "push_bit 8 (ucast b') :: crc_reg"
  let ?S = "crc_bit ^^ 8"
  have "?S (r XOR ?A) XOR ?B = ?S (r XOR ?A') XOR ?B'"
    using assms unfolding crc_register_def crc_byte_def by (auto dest: crc_bits_inj)
  then have "(?S r XOR ?S ?A) XOR ?B = (?S r XOR ?S ?A') XOR ?B'"
    by (simp only: crc_bits_xor)
  then have "?S ?A XOR ?S ?A' = ?B XOR ?B'"
    by (simp only: xor_shuffle_word)
  then have "?S (push_bit 8 (ucast (a XOR a'))) = push_bit 8 (ucast (b XOR b'))"
    by (simp add: crc_bits_xor unsigned_xor_eq push_bit_xor)
  then have "?S (push_bit 8 (ucast (a XOR a'))) = ?S (ucast (b XOR b'))"
    by (simp add: crc_bits_shift [of 8 8])
  then have "push_bit 8 (ucast (a XOR a')) = (ucast (b XOR b') :: crc_reg)"
    by (rule crc_bits_inj)
  then have "a XOR a' = 0 \<and> b XOR b' = 0" by (rule high_low_disjoint)
  then show ?thesis by (simp add: xor_eq_0_iff_word)
qed

text \<open>A span followed by its own CRC always leaves the same residue in the register.\<close>

definition crc_residue :: crc_reg where "crc_residue = 0x1D0F"

lemma bits_FFFF: "bit (0xFFFF :: crc_reg) n \<longleftrightarrow> n < 16"
proof -
  have "(0xFFFF :: crc_reg) = mask 16" by (simp add: mask_eq_exp_minus_1)
  then show ?thesis by (simp only: bit_mask_iff) auto
qed

lemma bits_FF00: "bit (push_bit 8 0xFF :: crc_reg) n \<longleftrightarrow> 8 \<le> n \<and> n < 16"
proof -
  have "(0xFF :: crc_reg) = mask 8" by (simp add: mask_eq_exp_minus_1)
  then show ?thesis by (simp only: bit_mask_iff bit_push_bit_iff) auto
qed

lemmas crc_bits = bit_push_bit_iff bit_ucast_iff bits_FFFF bit_drop_bit_eq bit_xor_iff comp_def

lemma split_register:
  "R XOR push_bit 8 (ucast (ucast (drop_bit 8 (R XOR 0xFFFF)) :: byte))
     = push_bit 8 0xFF XOR ucast (ucast (R :: crc_reg) :: byte)"
  by (rule bit_word_eqI, simp only: bit_xor_iff bits_FF00, auto simp only: crc_bits) simp_all

lemma low_complement:
  "push_bit 8 (ucast (ucast (R :: crc_reg) :: byte))
     XOR push_bit 8 (ucast (ucast (R XOR 0xFFFF) :: byte)) = (push_bit 8 0xFF :: crc_reg)"
  by (rule bit_word_eqI, simp only: bit_xor_iff bits_FF00, auto simp only: crc_bits) simp_all

lemma residue_value:
  "(crc_bit ^^ 8) ((crc_bit ^^ 8) (push_bit 8 0xFF) XOR (push_bit 8 0xFF :: crc_reg)) = crc_residue"
  by code_simp

lemma crc_register_own: "crc_register (crc_ccitt core) (crc_register core 0xFFFF) = crc_residue"
proof -
  define R where "R = crc_register core 0xFFFF"
  let ?S = "crc_bit ^^ 8" and ?lo = "ucast R :: byte"
  let ?hi' = "ucast (drop_bit 8 (R XOR 0xFFFF)) :: byte" and ?lo' = "ucast (R XOR 0xFFFF) :: byte"
  have "crc_register [?hi', ?lo'] R
      = ?S (?S (push_bit 8 0xFF XOR ucast ?lo) XOR push_bit 8 (ucast ?lo'))"
    unfolding crc_register_def crc_byte_def by (simp only: fold.simps comp_def id_apply split_register)
  also have "?S (push_bit 8 0xFF XOR ucast ?lo) = ?S (push_bit 8 0xFF) XOR push_bit 8 (ucast ?lo)"
    by (simp only: crc_bits_xor crc_bits_shift [of 8 8])
  also have "(?S (push_bit 8 0xFF) XOR push_bit 8 (ucast ?lo)) XOR push_bit 8 (ucast ?lo')
      = ?S (push_bit 8 0xFF) XOR (push_bit 8 0xFF :: crc_reg)"
    by (simp only: xor.assoc low_complement)
  finally have "crc_register [?hi', ?lo'] R = crc_residue"
    by (simp only: residue_value)
  then show ?thesis by (simp add: crc_ccitt_def Let_def R_def)
qed

lemma length_crc [simp]: "length (crc_ccitt d) = 2"
  by (simp add: crc_ccitt_def Let_def)

lemma crc_accepts_iff: "crc_accepts span \<longleftrightarrow> 2 \<le> length span \<and> crc_register span 0xFFFF = crc_residue"
proof (cases "2 \<le> length span")
  case True
  define core where "core = take (length span - 2) span"
  define c where "c = drop (length span - 2) span"
  have span: "span = core @ c" and "length c = 2" using True by (simp_all add: core_def c_def)
  then obtain a b where c: "c = [a, b]"
    by (metis (no_types, lifting) One_nat_def Suc_1 length_0_conv length_Suc_conv)
  obtain a' b' where own: "crc_ccitt core = [a', b']"
    by (simp add: crc_ccitt_def Let_def)
  have "crc_register span 0xFFFF = crc_residue \<longleftrightarrow> c = crc_ccitt core"
    using crc_window_inj [of a b "crc_register core 0xFFFF" a' b'] crc_register_own [of core]
    by (auto simp: span crc_register_append c own)
  with True show ?thesis
    by (auto simp: crc_accepts_def Let_def core_def c_def)
qed (simp add: crc_accepts_def Let_def)

lemma crc_accepts_own [simp]: "crc_accepts (core @ crc_ccitt core)"
  by (simp add: crc_accepts_def)

text \<open>
  The frame check detects every error burst that stays inside two adjacent octets of the
  protected span, the CRC's own octets included: the span a sender produces is accepted, and
  the span with those two octets replaced by any other pair is rejected.
\<close>

theorem crc_detects_bursts:
  assumes "core @ crc_ccitt core = p @ [a, b] @ s" and "(a', b') \<noteq> (a, b)"
  shows "crc_accepts (p @ [a, b] @ s) \<and> \<not> crc_accepts (p @ [a', b'] @ s)"
proof
  show ok: "crc_accepts (p @ [a, b] @ s)"
    using crc_accepts_own [of core] by (simp add: assms(1))
  show "\<not> crc_accepts (p @ [a', b'] @ s)"
  proof
    assume "crc_accepts (p @ [a', b'] @ s)"
    with ok have "crc_register (p @ [a', b'] @ s) 0xFFFF = crc_register (p @ [a, b] @ s) 0xFFFF"
      by (simp add: crc_accepts_iff)
    then have "crc_register [a', b'] (crc_register p 0xFFFF) = crc_register [a, b] (crc_register p 0xFFFF)"
      by (metis crc_register_append crc_register_inj)
    then show False using crc_window_inj assms(2) by blast
  qed
qed

theorem crc_detects_bursts_witness:
  "[0x31, 0x32] @ crc_ccitt [0x31, 0x32] = [] @ [0x31, 0x32] @ crc_ccitt [0x31, 0x32]
   \<and> (0x30 :: byte, 0x32 :: byte) \<noteq> (0x31, 0x32)
   \<and> crc_accepts ([] @ [0x31, 0x32] @ crc_ccitt [0x31, 0x32])
   \<and> \<not> crc_accepts ([] @ [0x30, 0x32] @ crc_ccitt [0x31, 0x32])"
proof -
  have c: "[0x31, 0x32] @ crc_ccitt [0x31, 0x32] = [] @ [0x31, 0x32] @ crc_ccitt [0x31, 0x32]" by simp
  have d: "(0x30 :: byte, 0x32 :: byte) \<noteq> (0x31, 0x32)" by simp
  from crc_detects_bursts [OF c d] c d show ?thesis by blast
qed

section \<open>Facts about frames\<close>

lemma stuff1_safe: "x \<in> set (stuff1 b) \<Longrightarrow> x \<noteq> STA \<and> x \<noteq> STP"
  by (auto simp: stuff1_def STA_def STP_def split: if_splits)

lemma byte_stuff_safe: "x \<in> set (byte_stuff d) \<Longrightarrow> x \<noteq> STA \<and> x \<noteq> STP"
  by (auto simp: byte_stuff_def dest: stuff1_safe)

lemma byte_unstuff_stuff: "byte_unstuff (byte_stuff d) = Some d"
  by (induction d) (auto simp: byte_stuff_def stuff1_def STA_def STP_def)

lemma frame_core_Inr:
  "frame_core site enc sqc msg = Inr core \<longleftrightarrow>
     length msg < 256
     \<and> core = [word_of_int ((push_bit 6 (site AND 0x3FF) OR (enc AND 0x3F)) div 256),
               word_of_int ((push_bit 6 (site AND 0x3FF) OR (enc AND 0x3F)) mod 256),
               word_of_int (sqc AND 0xFF), word_of_int (int (length msg))] @ msg"
proof -
  have "0 \<le> push_bit 6 (site AND 0x3FF) OR (enc AND 0x3F)
      \<and> push_bit 6 (site AND 0x3FF) OR (enc AND 0x3F) < 65536"
    by (simp add: and_masks push_bit_or [of _ 6, simplified])
  then show ?thesis
    by (auto simp: frame_core_def result_simps pack_be16_eq_Inr mk_bytes_eq_Inr and_masks)
qed


lemma build_frame_Inr:
  "build_frame site enc sqc msg = Inr f \<longleftrightarrow>
     (\<exists>core. frame_core site enc sqc msg = Inr core \<and> f = STA # byte_stuff (core @ crc_ccitt core) @ [STP])"
  by (auto simp: build_frame_def result_simps)

lemma build_frame_ok_iff: "(\<exists>f. build_frame site enc sqc msg = Inr f) \<longleftrightarrow> length msg < 256"
  by (auto simp: build_frame_Inr frame_core_Inr)

lemma build_frame_shape:
  "build_frame site enc sqc msg = Inr f \<Longrightarrow> \<exists>body. f = STA # body @ [STP] \<and> STA \<notin> set body \<and> STP \<notin> set body"
  by (auto simp: build_frame_Inr dest: byte_stuff_safe)

lemma decode_stuffed:
  assumes "core = a1 # a2 # sq # mfl # msg" and "unat mfl = length msg"
  shows "decode_frame (STA # byte_stuff (core @ crc_ccitt core) @ [STP])
     = Some ((uint a1 * 256 + uint a2) div 64, (uint a1 * 256 + uint a2) mod 64, uint sq, msg)"
  using assms crc_accepts_own [of core] by (simp add: decode_frame_def byte_unstuff_stuff Let_def)

lemma decode_build:
  assumes "build_frame site enc sqc msg = Inr f"
  shows "decode_frame f = Some (site AND 0x3FF, enc AND 0x3F, sqc AND 0xFF, msg)"
proof -
  let ?v = "push_bit 6 (site AND 0x3FF) OR (enc AND 0x3F)"
  have v: "?v = (site mod 1024) * 64 + enc mod 64"
    by (simp add: and_masks push_bit_or [of _ 6, simplified])
  have v_range: "0 \<le> ?v" "?v < 65536"
    unfolding v by simp_all
  obtain core where core: "frame_core site enc sqc msg = Inr core"
    and f: "f = STA # byte_stuff (core @ crc_ccitt core) @ [STP]"
    using assms by (auto simp: build_frame_Inr)
  from core have len: "length msg < 256"
    and c: "core = word_of_int (?v div 256) # word_of_int (?v mod 256)
        # word_of_int (sqc AND 0xFF) # word_of_int (int (length msg)) # msg"
    by (simp_all add: frame_core_Inr)
  have "unat (word_of_int (int (length msg)) :: byte) = length msg"
    using len by (simp add: unat_of_nat)
  from decode_stuffed [OF c this] have "decode_frame f = Some
      ((uint (word_of_int (?v div 256) :: byte) * 256 + uint (word_of_int (?v mod 256) :: byte)) div 64,
       (uint (word_of_int (?v div 256) :: byte) * 256 + uint (word_of_int (?v mod 256) :: byte)) mod 64,
       uint (word_of_int (sqc AND 0xFF) :: byte), msg)"
    by (simp only: f)
  moreover have "uint (word_of_int (?v div 256) :: byte) = ?v div 256"
    by (rule uint_byte) (use v_range in linarith)+
  moreover have "uint (word_of_int (?v mod 256) :: byte) = ?v mod 256"
    by (rule uint_byte) simp_all
  moreover have "uint (word_of_int (sqc AND 0xFF) :: byte) = sqc AND 0xFF"
    by (rule uint_byte) (simp_all add: and_masks)
  moreover have "?v div 256 * 256 + ?v mod 256 = ?v" by simp
  moreover have "?v div 64 = site AND 0x3FF" and "?v mod 64 = enc AND 0x3F"
    unfolding v by (simp_all add: and_masks)
  ultimately show ?thesis by (simp only:)
qed

text \<open>
  C1. A frame carries exactly the message it was built from: \<^verbatim>\<open>build_frame\<close> succeeds iff the
  message fits the one-octet length field, and then a receiver that unstuffs the frame, checks
  its CRC and reads its header gets back the site address (10 bits), the encoder address
  (6 bits), the sequence counter (8 bits) and the message.
\<close>

theorem build_frame_roundtrip:
  "(case build_frame site enc sqc msg of
      Inr f \<Rightarrow> length msg < 256
               \<and> decode_frame f = Some (site mod 1024, enc mod 64, sqc mod 256, msg)
    | Inl e \<Rightarrow> 256 \<le> length msg \<and> e = ValueError)"
proof (cases "build_frame site enc sqc msg")
  case (Inr f)
  have "length msg < 256" using Inr build_frame_ok_iff by blast
  with decode_build [OF Inr] Inr show ?thesis by (simp add: and_masks)
next
  case (Inl e)
  then have "256 \<le> length msg" using build_frame_ok_iff [of site enc sqc msg] by (auto simp: not_less)
  moreover have "0 \<le> push_bit 6 (site AND 0x3FF) OR (enc AND 0x3F)
      \<and> push_bit 6 (site AND 0x3FF) OR (enc AND 0x3F) < 65536"
    by (simp add: and_masks push_bit_or [of _ 6, simplified])
  ultimately show ?thesis using Inl
    by (auto simp: build_frame_def frame_core_def result_simps pack_be16_def mk_bytes_def)
qed

section \<open>Splitting a payload into frames\<close>

text \<open>
  What \<^verbatim>\<open>split_frames\<close> relies on: its docstring names the guarantee of \<^verbatim>\<open>build_frame\<close> that
  an unescaped STP occurs only at the end of a frame.
\<close>

locale delimited_frames =
  fixes is_frame :: "byte list \<Rightarrow> bool"
  assumes frame_shape: "is_frame f \<Longrightarrow> \<exists>body. f = STA # body @ [STP] \<and> STP \<notin> set body"
begin

lemma split_concat_from: "\<forall>f\<in>set fs. is_frame f \<Longrightarrow> split_frames_from i (concat fs) = Inr fs"
proof (induction fs arbitrary: i)
  case Nil
  then show ?case by simp
next
  case (Cons f fs)
  from Cons.prems have "is_frame f" by simp
  from frame_shape [OF this] obtain body where f: "f = STA # body @ [STP]" and body: "STP \<notin> set body"
    by blast
  have "takeWhile (\<lambda>x. x \<noteq> STP) (body @ STP # concat fs) = body
      \<and> dropWhile (\<lambda>x. x \<noteq> STP) (body @ STP # concat fs) = STP # concat fs"
    by (rule takeWhile_append_stop) (use body in auto)
  then show ?case using Cons.IH Cons.prems by (simp add: f)
qed

lemma split_concat: "\<forall>f\<in>set fs. is_frame f \<Longrightarrow> split_frames (concat fs) = Inr fs"
  by (simp add: split_frames_def split_concat_from)

end

interpretation uecp: delimited_frames "\<lambda>f. \<exists>site enc sqc msg. build_frame site enc sqc msg = Inr f"
  by unfold_locales (metis build_frame_shape)

lemma split_frames_from_sound:
  "split_frames_from i p = Inr fs \<Longrightarrow>
     concat fs = p \<and> (\<forall>f\<in>set fs. \<exists>body. f = STA # body @ [STP] \<and> STP \<notin> set body)"
proof (induction i p arbitrary: fs rule: split_frames_from.induct)
  case (1 i)
  then show ?case by simp
next
  case (2 i b rest)
  from "2.prems" have b: "b = STA" by (auto split: if_splits)
  with "2.prems" obtain stp rest' where dw: "dropWhile (\<lambda>x. x \<noteq> STP) rest = stp # rest'"
    by (auto split: list.splits)
  let ?tw = "takeWhile (\<lambda>x. x \<noteq> STP) rest"
  have rest: "rest = ?tw @ stp # rest'" and stp: "stp = STP"
    using dropWhile_decomp [OF dw] by auto
  from "2.prems" b dw obtain fs' where
    rec: "split_frames_from (i + length (b # ?tw @ [stp])) rest' = Inr fs'"
    and fs: "fs = (b # ?tw @ [stp]) # fs'"
    by (auto simp: bindR_eq_Inr)
  from "2.IH" [of stp rest' "b # ?tw @ [stp]" fs'] b dw rec
  have "concat fs' = rest' \<and> (\<forall>f\<in>set fs'. \<exists>body. f = STA # body @ [STP] \<and> STP \<notin> set body)"
    by simp
  moreover have "STP \<notin> set ?tw" by (auto dest: set_takeWhileD)
  ultimately show ?case using rest fs b stp by auto
qed

text \<open>
  Splitting for the datagram transport is exact: the concatenation of any frames
  \<^verbatim>\<open>build_frame\<close> produced is split back into those frames, and whenever the split succeeds
  on any payload the pieces concatenate to the payload and each is one STA..STP frame with no
  STP inside.
\<close>

theorem split_frames_exact:
  "((\<forall>f\<in>set fs. \<exists>site enc sqc msg. build_frame site enc sqc msg = Inr f)
      \<longrightarrow> split_frames (concat fs) = Inr fs)
   \<and> (split_frames p = Inr gs \<longrightarrow> concat gs = p
      \<and> (\<forall>f\<in>set gs. \<exists>body. f = STA # body @ [STP] \<and> STP \<notin> set body))"
  using uecp.split_concat split_frames_from_sound unfolding split_frames_def by blast

theorem split_frames_exact_witness:
  "split_frames ((STA # byte_stuff ([0, 65, 5, 0] @ crc_ccitt [0, 65, 5, 0]) @ [STP]) @
                 (STA # byte_stuff ([0, 65, 6, 1, 0xFF] @ crc_ccitt [0, 65, 6, 1, 0xFF]) @ [STP]))
     = Inr [STA # byte_stuff ([0, 65, 5, 0] @ crc_ccitt [0, 65, 5, 0]) @ [STP],
            STA # byte_stuff ([0, 65, 6, 1, 0xFF] @ crc_ccitt [0, 65, 6, 1, 0xFF]) @ [STP]]
   \<and> (\<exists>body. [STA, 0, STP] = STA # body @ [STP] \<and> STP \<notin> set body)"
proof -
  let ?f = "STA # byte_stuff ([0, 65, 5, 0] @ crc_ccitt [0, 65, 5, 0]) @ [STP]"
  let ?g = "STA # byte_stuff ([0, 65, 6, 1, 0xFF] @ crc_ccitt [0, 65, 6, 1, 0xFF]) @ [STP]"
  have "build_frame 1 1 5 [] = Inr ?f" and "build_frame 1 1 6 [0xFF] = Inr ?g"
    by (simp_all add: build_frame_Inr frame_core_Inr)
  then have "\<forall>f\<in>set [?f, ?g]. \<exists>site enc sqc msg. build_frame site enc sqc msg = Inr f"
    by (metis empty_iff empty_set set_ConsD)
  moreover have "split_frames [STA, 0, STP] = Inr [[STA, 0, STP]]"
    by (simp add: split_frames_def STA_def STP_def)
  ultimately show ?thesis
    using split_frames_exact [of "[?f, ?g]" "[STA, 0, STP]" "[[STA, 0, STP]]"] by simp
qed

section \<open>Facts about message elements\<close>

text \<open>The elements the builders produce; a frame's MSG is a concatenation of them.\<close>

inductive uecp_element :: "byte list \<Rightarrow> bool" where
  "mec_pi pi_code dsn psn = Inr m \<Longrightarrow> uecp_element m"
| "mec_slow_labelling variant data dsn = Inr m \<Longrightarrow> uecp_element m"
| "mec_ecc ecc dsn = Inr m \<Longrightarrow> uecp_element m"
| "mec_language_code code dsn = Inr m \<Longrightarrow> uecp_element m"
| "mec_ptyn txt dsn psn = Inr m \<Longrightarrow> uecp_element m"
| "mec_ps txt dsn psn = Inr m \<Longrightarrow> uecp_element m"
| "mec_ta_tp ta tp dsn psn = Inr m \<Longrightarrow> uecp_element m"
| "mec_di dyn compr ahead stereo dsn psn = Inr m \<Longrightarrow> uecp_element m"
| "mec_ms music dsn psn = Inr m \<Longrightarrow> uecp_element m"
| "mec_pty pty dsn psn = Inr m \<Longrightarrow> uecp_element m"
| "mec_rt txt ab dsn psn = Inr m \<Longrightarrow> uecp_element m"
| "mec_long_ps ltxt dsn psn = Inr m \<Longrightarrow> uecp_element m"
| "uecp_element mec_rt_plus_oda_reg"
| "mec_rt_plus_tags alen tlen = Inr m \<Longrightarrow> uecp_element m"
| "mec_rt_plus_tags_generic len = Inr m \<Longrightarrow> uecp_element m"
| "mec_ct dt off = Inr m \<Longrightarrow> uecp_element m"
| "mec_ct_on_off on = Inr m \<Longrightarrow> uecp_element m"

lemma unat_mel: "n \<le> 64 \<Longrightarrow> unat (1 + word_of_nat n :: byte) = Suc n"
proof -
  assume "n \<le> 64"
  then have "unat (word_of_nat (Suc n) :: byte) = Suc n" by (subst unat_of_nat) simp
  then show ?thesis by simp
qed

lemmas mec_fixed_defs =
  mec_pi_def mec_slow_labelling_def mec_ecc_def mec_language_code_def mec_ta_tp_def mec_di_def
  mec_ms_def mec_pty_def mec_rt_plus_oda_reg_def mec_rt_plus_tags_def mec_rt_plus_tags_generic_def
  mec_ct_def mec_ct_on_off_def Let_def

lemma mec_text_shapes:
  "mec_ptyn txt dsn psn = Inr m \<longleftrightarrow> 0 \<le> dsn \<and> dsn < 256 \<and> 0 \<le> psn \<and> psn < 256
     \<and> m = [0x3E, word_of_int dsn, word_of_int psn] @ encode_rds_g0 (ljust 8 (take 8 txt))"
  "mec_ps txt dsn psn = Inr m \<longleftrightarrow> 0 \<le> dsn \<and> dsn < 256 \<and> 0 \<le> psn \<and> psn < 256
     \<and> m = [0x02, word_of_int dsn, word_of_int psn] @ encode_rds_g0 (ljust 8 (take 8 txt))"
  "mec_rt txt ab dsn psn = Inr m \<longleftrightarrow> 0 \<le> dsn \<and> dsn < 256 \<and> 0 \<le> psn \<and> psn < 256
     \<and> m = [0x0A, word_of_int dsn, word_of_int psn, word_of_int (1 + int (min 64 (length txt))),
            if ab then 1 else 0] @ encode_rds_g0 (take 64 txt)"
  by (auto simp: mec_ptyn_def mec_ps_def mec_rt_def Let_def result_simps mk_bytes_eq_Inr min.commute)

lemma mec_long_ps_shape:
  "mec_long_ps txt dsn psn = Inr m \<longleftrightarrow> 0 \<le> dsn \<and> dsn < 256 \<and> 0 \<le> psn \<and> psn < 256
     \<and> m = [0x21, word_of_int dsn, word_of_int psn]
           @ (if txt = None \<or> txt = Some [] then [0]
              else word_of_int (1 + int (min 32 (length (the txt)))) # encode_rds_g0 (take 32 (the txt)) @ [0])"
  by (auto simp: mec_long_ps_def Let_def result_simps mk_bytes_eq_Inr min.commute)

lemma element_length_text:
  "mec_ptyn txt dsn psn = Inr m \<Longrightarrow> element_length (m @ r) = Some (length m)"
  "mec_ps txt dsn psn = Inr m \<Longrightarrow> element_length (m @ r) = Some (length m)"
  "mec_rt txt ab dsn psn = Inr m \<Longrightarrow> element_length (m @ r) = Some (length m)"
  "mec_long_ps ltxt dsn psn = Inr m \<Longrightarrow> element_length (m @ r) = Some (length m)"
  by (auto simp: mec_text_shapes mec_long_ps_shape element_length_def unat_mel min.commute)

lemma element_length_fixed:
  "mec_pi pi_code dsn psn = Inr m \<Longrightarrow> element_length (m @ r) = Some (length m)"
  "mec_slow_labelling variant data dsn = Inr m \<Longrightarrow> element_length (m @ r) = Some (length m)"
  "mec_ta_tp ta tp dsn psn = Inr m \<Longrightarrow> element_length (m @ r) = Some (length m)"
  "mec_di dyn compr ahead stereo dsn psn = Inr m \<Longrightarrow> element_length (m @ r) = Some (length m)"
  "mec_ms music dsn psn = Inr m \<Longrightarrow> element_length (m @ r) = Some (length m)"
  "mec_pty pty dsn psn = Inr m \<Longrightarrow> element_length (m @ r) = Some (length m)"
  "mec_rt_plus_tags alen tlen = Inr m \<Longrightarrow> element_length (m @ r) = Some (length m)"
  "mec_rt_plus_tags_generic len = Inr m \<Longrightarrow> element_length (m @ r) = Some (length m)"
  "mec_ct dt off = Inr m \<Longrightarrow> element_length (m @ r) = Some (length m)"
  "mec_ct_on_off on = Inr m \<Longrightarrow> element_length (m @ r) = Some (length m)"
  by (auto simp: mec_fixed_defs result_simps mk_bytes_eq_Inr pack_be16_eq_Inr element_length_def)

lemma element_length_pos: "element_length x = Some k \<Longrightarrow> 0 < k"
  by (auto simp: element_length_def split: list.splits if_splits)

lemma element_length_built: "uecp_element m \<Longrightarrow> element_length (m @ r) = Some (length m)"
proof (induction rule: uecp_element.induct)
  case (3 ecc dsn m)
  then show ?case by (auto simp: mec_ecc_def guardR_eq_Inr dest: element_length_fixed(2))
next
  case (4 code dsn m)
  then show ?case by (auto simp: mec_language_code_def guardR_eq_Inr dest: element_length_fixed(2))
next
  case 13
  show ?case by (simp add: mec_rt_plus_oda_reg_def element_length_def)
qed (rule element_length_text element_length_fixed; assumption)+

lemma split_elements_built:
  "\<forall>m\<in>set ms. uecp_element m \<Longrightarrow> length ms \<le> fuel \<Longrightarrow> split_elements fuel (concat ms) = Some ms"
proof (induction ms arbitrary: fuel)
  case Nil
  then show ?case by simp
next
  case (Cons m ms)
  then obtain fuel' where fuel: "fuel = Suc fuel'" by (cases fuel) auto
  have len: "element_length (m @ concat ms) = Some (length m)"
    using Cons.prems(1) element_length_built by simp
  then have "0 < length m" by (rule element_length_pos)
  then obtain b bs where m: "m = b # bs" by (cases m) auto
  have "split_elements fuel' (concat ms) = Some ms" using Cons fuel by simp
  with len show ?case by (simp add: fuel m)
qed

text \<open>
  A message stays in step: however the message elements are combined in one MSG, a
  receiver that takes each element's length from its code (and its MEL octet, where it has
  one) recovers exactly the elements that were concatenated. One unit of fuel per element is
  enough.
\<close>

theorem message_elements_in_step:
  assumes "\<forall>m\<in>set ms. uecp_element m"
  shows "split_elements (length ms) (concat ms) = Some ms"
  using assms by (rule split_elements_built) simp

theorem message_elements_in_step_witness:
  "split_elements 2 (concat [[0x01, 0, 0, 0xC2, 0x01], [0x0A, 0, 0, 3, 1, 0x4F, 0x4B]])
     = Some [[0x01, 0, 0, 0xC2, 0x01], [0x0A, 0, 0, 3, 1, 0x4F, 0x4B]]"
proof -
  have "mec_pi 0xC201 0 0 = Inr [0x01, 0, 0, 0xC2, 0x01]"
    by (simp add: mec_pi_def mk_bytes_def pack_be16_def)
  moreover have "encode_char 0x4F = 0x4F" and "encode_char 0x4B = 0x4B"
    by (simp_all add: encode_char_def encode_find RDS_G0_DECODE_def)
  then have "mec_rt [0x4F, 0x4B] True 0 0 = Inr [0x0A, 0, 0, 3, 1, 0x4F, 0x4B]"
    by (simp add: mec_rt_def mk_bytes_def encode_rds_g0_def)
  ultimately have "\<forall>m\<in>set [[0x01, 0, 0, 0xC2, 0x01], [0x0A, 0, 0, 3, 1, 0x4F, 0x4B]]. uecp_element m"
    using uecp_element.intros(1,11) by simp
  moreover have "length [[0x01, 0, 0, 0xC2, 0x01], [0x0A, 0, 0, 3, 1, 0x4F, 0x4B :: byte]] = 2" by simp
  ultimately show ?thesis using message_elements_in_step by metis
qed

section \<open>RT+ tags and the clock\<close>

text \<open>How a receiver reads the RT+ fields of a song element (7 octets, code 0x24 0x16 0x08).\<close>

definition rtp_start2 :: "byte list \<Rightarrow> int" where
  "rtp_start2 m = uint (m ! 3) mod 32 * 2 + uint (m ! 4) div 128"

definition rtp_len2 :: "byte list \<Rightarrow> int" where
  "rtp_len2 m = uint (m ! 4) div 2 mod 64 + 1"

definition rtp_len1 :: "byte list \<Rightarrow> int" where
  "rtp_len1 m = uint (m ! 6) mod 32 + 1"

lemma rt_plus_ranges:
  assumes "1 \<le> a" "a \<le> 32" "1 \<le> (t :: int)"
  shows "0 \<le> 32 + (a + 3) div 2" "32 + (a + 3) div 2 < 256" "0 \<le> a - 1" "a - 1 < 256"
    "0 \<le> (min t 64 - 1) * 2" "(min t 64 - 1) * 2 < 128" "0 \<le> min t 64 - 1" "min t 64 - 1 < 64"
    "0 \<le> (a + 3) mod 2 * 128 + (min t 64 - 1) * 2" "(a + 3) mod 2 * 128 + (min t 64 - 1) * 2 < 256"
proof -
  have "0 \<le> (a + 3) mod 2" "(a + 3) mod 2 \<le> 1" by presburger+
  then show "0 \<le> 32 + (a + 3) div 2" "32 + (a + 3) div 2 < 256" "0 \<le> a - 1" "a - 1 < 256"
    "0 \<le> (min t 64 - 1) * 2" "(min t 64 - 1) * 2 < 128" "0 \<le> min t 64 - 1" "min t 64 - 1 < 64"
    "0 \<le> (a + 3) mod 2 * 128 + (min t 64 - 1) * 2" "(a + 3) mod 2 * 128 + (min t 64 - 1) * 2 < 256"
    using assms by (auto simp: min_def)
qed

lemma rt_plus_octets:
  assumes "1 \<le> a" "a \<le> 32" "1 \<le> t"
  shows "mec_rt_plus_tags a t = Inr (map word_of_int
     [0x24, 0x16, 0x08, 32 + (a + 3) div 2, (a + 3) mod 2 * 128 + (min t 64 - 1) * 2, 0x20, a - 1])"
proof -
  let ?t = "if t > 64 then 64 else t"
  have t: "?t = min t 64" by simp
  have b2: "push_bit 5 1 OR (drop_bit 1 (a + 3) AND 0x1F) = 32 + (a + 3) div 2"
  proof -
    have "drop_bit 1 (a + 3) AND 0x1F = (a + 3) div 2"
      using assms by (simp add: and_masks drop_bit_eq_div)
    moreover have "push_bit 5 1 OR (a + 3) div 2 = 1 * 2 ^ 5 + (a + 3) div 2"
      using assms by (intro push_bit_or) auto
    ultimately show ?thesis by simp
  qed
  have b3: "push_bit 7 ((a + 3) AND 1) OR push_bit 1 ((min t 64 - 1) AND 0x3F)
      = (a + 3) mod 2 * 128 + (min t 64 - 1) * 2"
  proof -
    have "push_bit 1 ((min t 64 - 1) AND 0x3F) = (min t 64 - 1) * 2"
      using assms by (simp add: and_masks push_bit_eq_mult)
    moreover have "push_bit 7 ((a + 3) AND 1) OR ((min t 64 - 1) * 2)
        = ((a + 3) AND 1) * 2 ^ 7 + (min t 64 - 1) * 2"
      using assms by (intro push_bit_or) auto
    ultimately show ?thesis by (simp add: and_masks)
  qed
  have b5: "(a - 1) AND 0x1F = a - 1" using assms by (simp add: and_masks)
  have range: "0 \<le> 32 + (a + 3) div 2" "32 + (a + 3) div 2 < 256"
    "0 \<le> (a + 3) mod 2 * 128 + (min t 64 - 1) * 2" "(a + 3) mod 2 * 128 + (min t 64 - 1) * 2 < 256"
    using rt_plus_ranges [OF assms] by auto
  have "mk_bytes [0x24, 0x16, 0x08, 32 + (a + 3) div 2, (a + 3) mod 2 * 128 + (min t 64 - 1) * 2, 0x20, a - 1]
      = Inr (map word_of_int
          [0x24, 0x16, 0x08, 32 + (a + 3) div 2, (a + 3) mod 2 * 128 + (min t 64 - 1) * 2, 0x20, a - 1])"
    unfolding mk_bytes_eq_Inr using range assms by simp
  then show ?thesis
    unfolding mec_rt_plus_tags_def Let_def t b2 b3 b5 using assms by (simp add: guardR_def)
qed

lemma rt_plus_fields:
  assumes "1 \<le> a" "a \<le> 32" "1 \<le> t"
    and m: "m = map word_of_int
     [0x24, 0x16, 0x08, 32 + (a + 3) div 2, (a + 3) mod 2 * 128 + (min t 64 - 1) * 2, 0x20, a - 1]"
  shows "rtp_len1 m = a" and "rtp_start2 m = a + 3" and "rtp_len2 m = min t 64"
proof -
  note range = rt_plus_ranges [OF assms(1-3)]
  have nth: "m ! 3 = word_of_int (32 + (a + 3) div 2)"
    "m ! 4 = word_of_int ((a + 3) mod 2 * 128 + (min t 64 - 1) * 2)" "m ! 6 = word_of_int (a - 1)"
    by (simp_all add: m)
  have u3: "uint (m ! 3) = 32 + (a + 3) div 2"
    unfolding nth by (rule uint_byte) (use range in auto)
  have u4: "uint (m ! 4) = (a + 3) mod 2 * 128 + (min t 64 - 1) * 2"
    unfolding nth by (rule uint_byte) (use range in auto)
  have u6: "uint (m ! 6) = a - 1"
    unfolding nth by (rule uint_byte) (use range in auto)
  show "rtp_len1 m = a" using assms(1-3) by (simp add: rtp_len1_def u6)
  have "uint (m ! 4) div 128 = (a + 3) mod 2" using range by (simp add: u4)
  moreover have "(32 + (a + 3) div 2) mod 32 = (a + 3) div 2" using assms(1-3) by simp
  ultimately show "rtp_start2 m = a + 3" by (simp add: rtp_start2_def u3)
  have "((a + 3) mod 2 * 128 + (min t 64 - 1) * 2) div 2 = (min t 64 - 1) + (a + 3) mod 2 * 64" by simp
  then have "uint (m ! 4) div 2 mod 64 = (min t 64 - 1) mod 64" by (simp only: u4 mod_mult_self1)
  then show "rtp_len2 m = min t 64" using range by (simp add: rtp_len2_def)
qed

lemma rt_plus_tags_cut:
  assumes "artist \<noteq> []" "length artist \<le> 32" "title \<noteq> []"
  shows "\<exists>m. mec_rt_plus_tags (int (length artist)) (int (length title)) = Inr m
     \<and> take (nat (rtp_len1 m)) (artist @ cps '' - '' @ title) = artist
     \<and> take (nat (rtp_len2 m)) (drop (nat (rtp_start2 m)) (artist @ cps '' - '' @ title)) = take 64 title"
proof -
  let ?a = "int (length artist)" and ?t = "int (length title)"
  have pos: "1 \<le> ?a" "?a \<le> 32" "1 \<le> ?t" using assms by (auto simp: Suc_le_eq)
  obtain m where "mec_rt_plus_tags ?a ?t = Inr m"
    and "rtp_len1 m = ?a" "rtp_start2 m = ?a + 3" "rtp_len2 m = min ?t 64"
    using rt_plus_octets [OF pos] rt_plus_fields [OF pos refl] by blast
  then show ?thesis by (simp add: nat_add_distrib min_def)
qed

text \<open>
  RT+ tags point at the right characters: for an artist and a title the element exists iff
  the artist has 1 to 32 characters and the title at least one, and then the fields a receiver
  reads cut the artist, and the first 64 characters of the title, out of the text
  \<^verbatim>\<open>artist - title\<close>.
\<close>

theorem rt_plus_tags_locate:
  "(case mec_rt_plus_tags (int (length artist)) (int (length title)) of
      Inl e \<Rightarrow> e = ValueError \<and> (artist = [] \<or> title = [] \<or> 32 < length artist)
    | Inr m \<Rightarrow> artist \<noteq> [] \<and> length artist \<le> 32 \<and> title \<noteq> []
        \<and> take (nat (rtp_len1 m)) (artist @ cps '' - '' @ title) = artist
        \<and> take (nat (rtp_len2 m)) (drop (nat (rtp_start2 m)) (artist @ cps '' - '' @ title))
          = take 64 title)"
proof (cases "artist \<noteq> [] \<and> length artist \<le> 32 \<and> title \<noteq> []")
  case True
  with rt_plus_tags_cut [of artist title] show ?thesis by auto
next
  case False
  then show ?thesis
    by (auto simp: mec_rt_plus_tags_def guardR_def Let_def not_le)
qed

definition ct_offset_minutes :: "byte list \<Rightarrow> int" where
  "ct_offset_minutes m =
     (if uint (m ! 8) div 32 = 1 then - 30 else 30) * (uint (m ! 8) mod 32)"

definition utc_valid :: "utc_datetime \<Rightarrow> bool" where
  "utc_valid dt \<longleftrightarrow> 1 \<le> dt_month dt \<and> dt_month dt \<le> 12 \<and> 1 \<le> dt_day dt \<and> dt_day dt \<le> 31
     \<and> 0 \<le> dt_hour dt \<and> dt_hour dt < 24 \<and> 0 \<le> dt_minute dt \<and> dt_minute dt < 60
     \<and> 0 \<le> dt_second dt \<and> dt_second dt < 60 \<and> 0 \<le> dt_microsecond dt \<and> dt_microsecond dt < 1000000"

lemma round_div_nearest:
  assumes "0 < b"
  shows "2 * \<bar>b * round_div a b - a\<bar> \<le> b"
proof -
  have a: "a = b * (a div b) + a mod b" and r: "0 \<le> a mod b" "a mod b < b" using assms by simp_all
  show ?thesis
  proof (cases "round_div a b = a div b")
    case True
    then have "2 * (a mod b) \<le> b" by (auto simp: round_div_def Let_def split: if_splits)
    moreover have "b * (a div b) - a = - (a mod b)" using a by linarith
    ultimately show ?thesis using r True by simp
  next
    case False
    then have up: "round_div a b = a div b + 1" and "b \<le> 2 * (a mod b)"
      by (auto simp: round_div_def Let_def split: if_splits)
    have "b * (a div b + 1) - a = b - a mod b" using a unfolding distrib_left by linarith
    with up r \<open>b \<le> 2 * (a mod b)\<close> show ?thesis by simp
  qed
qed

lemma sign_magnitude:
  assumes "\<bar>h :: int\<bar> \<le> 31" and "ob = (if h < 0 then 0x20 else 0x00) OR (\<bar>h\<bar> AND 0x1F)"
  shows "0 \<le> ob" and "ob < 256" and "(if ob div 32 = 1 then - 30 else 30) * (ob mod 32) = 30 * h"
proof -
  have "push_bit 5 (1 :: int) OR \<bar>h\<bar> = 1 * 2 ^ 5 + \<bar>h\<bar>" using assms(1) by (intro push_bit_or) auto
  then have "ob = (if h < 0 then 32 + \<bar>h\<bar> else \<bar>h\<bar>)"
    using assms by (cases "h < 0") (simp_all add: and_masks)
  then show "0 \<le> ob" and "ob < 256" and "(if ob div 32 = 1 then - 30 else 30) * (ob mod 32) = 30 * h"
    using assms(1) by (auto split: if_splits)
qed

text \<open>
  The clock element says what time it is: for a valid UTC time and a local offset of at most
  15.5 hours either way, \<^verbatim>\<open>mec_ct\<close> produces nine octets that hold the two-digit year, the other
  fields and the hundredths of a second unchanged, and the offset a receiver reads from the
  sign-and-magnitude octet is within a quarter of an hour of the true one.
\<close>

theorem mec_ct_tells_time:
  assumes "utc_valid dt" and "- 930 \<le> off" and "off \<le> 930"
  shows "\<exists>m. mec_ct dt off = Inr m
     \<and> map uint (take 8 m) = [0x0D, dt_year dt mod 100, dt_month dt, dt_day dt, dt_hour dt,
          dt_minute dt, dt_second dt, dt_microsecond dt div 10000]
     \<and> \<bar>ct_offset_minutes m - off\<bar> \<le> 15"
proof -
  let ?h = "round_div off 30"
  define ob where "ob = (if ?h < 0 then 0x20 else 0x00) OR (\<bar>?h\<bar> AND 0x1F)"
  define xs where "xs = [0x0D, dt_year dt mod 100, dt_month dt, dt_day dt, dt_hour dt, dt_minute dt,
      dt_second dt, dt_microsecond dt div 10000, ob]"
  let ?m = "map word_of_int xs :: byte list"
  have near: "2 * \<bar>30 * ?h - off\<bar> \<le> 30" by (rule round_div_nearest) simp
  then have "\<bar>?h\<bar> \<le> 31" using assms(2,3) by auto
  note ob = sign_magnitude [OF this ob_def]
  have "0 \<le> dt_year dt mod 100 \<and> dt_year dt mod 100 < 100" by simp
  moreover have "0 \<le> dt_microsecond dt div 10000 \<and> dt_microsecond dt div 10000 < 256"
    using assms(1) by (auto simp: utc_valid_def)
  ultimately have all: "\<forall>x\<in>set xs. 0 \<le> x \<and> x < 256"
    using assms(1) ob(1,2) by (auto simp: utc_valid_def xs_def)
  have "mec_ct dt off = mk_bytes xs" by (simp only: mec_ct_def Let_def xs_def ob_def)
  then have m: "mec_ct dt off = Inr ?m" using all by (simp add: mk_bytes_def)
  have u: "map uint ?m = xs" using all by (rule map_uint_bytes)
  have "map uint (take 8 ?m) = take 8 xs" by (simp only: take_map [symmetric] u)
  moreover have "uint (?m ! 8) = ob"
  proof -
    have "uint (?m ! 8) = map uint ?m ! 8" by (rule nth_map [symmetric]) (simp add: xs_def)
    then show ?thesis by (simp only: u) (simp add: xs_def)
  qed
  then have "ct_offset_minutes ?m = 30 * ?h" using ob(3) by (simp only: ct_offset_minutes_def)
  ultimately show ?thesis using near m by (intro exI [of _ ?m]) (simp add: xs_def)
qed

theorem mec_ct_tells_time_witness:
  "\<exists>m. mec_ct \<lparr>dt_year = 1992, dt_month = 9, dt_day = 12, dt_hour = 10, dt_minute = 18,
               dt_second = 33, dt_microsecond = 150000\<rparr> (- 315) = Inr m
     \<and> map uint (take 8 m) = [0x0D, 92, 9, 12, 10, 18, 33, 15]
     \<and> \<bar>ct_offset_minutes m - (- 315)\<bar> \<le> 15"
  using mec_ct_tells_time [of "\<lparr>dt_year = 1992, dt_month = 9, dt_day = 12, dt_hour = 10,
      dt_minute = 18, dt_second = 33, dt_microsecond = 150000\<rparr>" "- 315"]
  by (simp add: utc_valid_def)

end
