(* ===== verification/Air_Text.thy ===== *)
theory Air_Text
  imports Air_Prelude
begin

text \<open>
  The parts of Python's \<^verbatim>\<open>str\<close> and \<^verbatim>\<open>int\<close> that several components call: white space and
  \<^verbatim>\<open>strip\<close>, \<^verbatim>\<open>int(s, 16)\<close> and \<^verbatim>\<open>int(s)\<close> on ASCII digits, \<^verbatim>\<open>str\<close> of an integer, and
  \<^verbatim>\<open>replace\<close> of a substring by nothing.
\<close>

section \<open>White space\<close>

text \<open>\<^verbatim>\<open>str.isspace\<close> of one character: what \<^verbatim>\<open>split()\<close>, \<^verbatim>\<open>strip()\<close> and \<^verbatim>\<open>int()\<close> skip.\<close>

definition py_isspace :: "nat \<Rightarrow> bool" where
  "py_isspace c \<longleftrightarrow> (9 \<le> c \<and> c \<le> 13) \<or> (28 \<le> c \<and> c \<le> 32) \<or> c = 0x85 \<or> c = 0xA0 \<or> c = 0x1680
     \<or> (0x2000 \<le> c \<and> c \<le> 0x200A) \<or> c = 0x2028 \<or> c = 0x2029 \<or> c = 0x202F \<or> c = 0x205F \<or> c = 0x3000"

lemma py_isspace_blank [simp]: "py_isspace 32"
  by (simp add: py_isspace_def)

text \<open>\<^verbatim>\<open>s.strip()\<close>.\<close>

definition py_strip :: "utext \<Rightarrow> utext" where
  "py_strip t = rev (dropWhile py_isspace (rev (dropWhile py_isspace t)))"

section \<open>Numbers\<close>

text \<open>\<^verbatim>\<open>int(s, 16)\<close> for ASCII text: blanks, sign, \<^verbatim>\<open>0x\<close> and single underscores as Python takes them.\<close>

definition hex_val :: "nat \<Rightarrow> int option" where
  "hex_val c =
     (if 48 \<le> c \<and> c \<le> 57 then Some (int c - 48)
      else if 65 \<le> c \<and> c \<le> 70 then Some (int c - 55)
      else if 97 \<le> c \<and> c \<le> 102 then Some (int c - 87)
      else None)"

fun hex_digits :: "bool \<Rightarrow> int \<Rightarrow> utext \<Rightarrow> int py" where
  "hex_digits after_digit acc [] = (if after_digit then Inr acc else Inl ValueError)"
| "hex_digits after_digit acc (c # cs) =
     (if c = 95 then (if after_digit then hex_digits False acc cs else Inl ValueError)
      else case hex_val c of None \<Rightarrow> Inl ValueError | Some d \<Rightarrow> hex_digits True (acc * 16 + d) cs)"

definition hex_body :: "utext \<Rightarrow> int py" where
  "hex_body t =
     (case t of
        z # x # u # rest \<Rightarrow>
          if z = 48 \<and> (x = 120 \<or> x = 88)
          then (if u = 95 then hex_digits False 0 rest else hex_digits False 0 (u # rest))
          else hex_digits False 0 t
      | _ \<Rightarrow> hex_digits False 0 t)"

definition int_base16 :: "utext \<Rightarrow> int py" where
  "int_base16 s =
     (case py_strip s of
        c # rest \<Rightarrow>
          if c = 45 then bindR (hex_body rest) (\<lambda>v. Inr (- v))
          else if c = 43 then hex_body rest
          else hex_body (c # rest)
      | [] \<Rightarrow> Inl ValueError)"

text \<open>\<^verbatim>\<open>int(s)\<close>: the same with decimal digits and no prefix.\<close>

fun dec_digits :: "bool \<Rightarrow> int \<Rightarrow> utext \<Rightarrow> int py" where
  "dec_digits after_digit acc [] = (if after_digit then Inr acc else Inl ValueError)"
| "dec_digits after_digit acc (c # cs) =
     (if c = 95 then (if after_digit then dec_digits False acc cs else Inl ValueError)
      else if 48 \<le> c \<and> c \<le> 57 then dec_digits True (acc * 10 + (int c - 48)) cs
      else Inl ValueError)"

definition int_base10 :: "utext \<Rightarrow> int py" where
  "int_base10 s =
     (case py_strip s of
        c # rest \<Rightarrow>
          if c = 45 then bindR (dec_digits False 0 rest) (\<lambda>v. Inr (- v))
          else if c = 43 then dec_digits False 0 rest
          else dec_digits False 0 (c # rest)
      | [] \<Rightarrow> Inl ValueError)"

fun show_nat :: "nat \<Rightarrow> utext" where
  "show_nat n = (if n < 10 then [48 + n] else show_nat (n div 10) @ [48 + n mod 10])"

declare show_nat.simps [simp del]

definition show_int :: "int \<Rightarrow> utext" where
  "show_int i = (if i < 0 then 45 # show_nat (nat (- i)) else show_nat (nat i))"

section \<open>Substrings\<close>

text \<open>\<^verbatim>\<open>s.replace(pat, "")\<close> for a non-empty pattern.\<close>

function remove_sub :: "utext \<Rightarrow> utext \<Rightarrow> utext" where
  "remove_sub pat t =
     (case t of [] \<Rightarrow> []
      | c # cs \<Rightarrow> if pat \<noteq> [] \<and> take (length pat) t = pat then remove_sub pat (drop (length pat) t)
                  else c # remove_sub pat cs)"
  by pat_completeness auto
termination by (relation "measure (\<lambda>(pat, t). length t)") auto

declare remove_sub.simps [simp del]

end
