(* ===== verification/Rds_Payload.thy ===== *)
theory Rds_Payload
  imports Rds_Uecp Air_Text "HOL-Library.Sublist"
begin

text \<open>
  How the RDS manager turns one tick's content into what goes on the wire:
  \<^verbatim>\<open>rbds/services/ascii_protocol.py\<close> and, of \<^verbatim>\<open>rbds/services/rbds_manager.py\<close>,
  \<^verbatim>\<open>_build_rt_plus_text\<close>, \<^verbatim>\<open>_build_uecp_payload\<close>, \<^verbatim>\<open>_frames_for\<close>,
  \<^verbatim>\<open>_build_ascii_payload\<close> and the write decisions of \<^verbatim>\<open>_transmit\<close>. The configuration
  row is a record with the fields these methods read; the two manager attributes they use
  (the sequence counter and the last language code sent) are arguments. Sockets, the final
  UTF-8 encoding of the ASCII text and the \<^verbatim>\<open>emit_event\<close> call for a blocked AF list are
  outside the model.
\<close>

section \<open>Configuration\<close>

record rbds_config =
  pi_code :: utext
  ecc :: utext
  language_code :: "int option"
  ta :: bool
  tp :: bool
  di_dynamic_pty :: bool
  di_compressed :: bool
  di_artificial_head :: bool
  di_stereo :: bool
  ms :: bool
  pty :: int
  use_rt_plus :: bool
  af_configured :: bool
  uecp_site_address :: int
  uecp_encoder_address :: int
  protocol :: string
  transport :: string

section \<open>RT+ text\<close>

definition RT_PLUS_SEPARATOR :: utext where
  "RT_PLUS_SEPARATOR = cps '' - ''"

definition build_rt_plus_text :: "utext \<Rightarrow> utext \<Rightarrow> utext \<times> utext \<times> utext" where
  "build_rt_plus_text artist title =
     (let full = artist @ RT_PLUS_SEPARATOR @ title;
          txt = take 64 full;
          sep_start = length artist;
          sep_end = sep_start + length RT_PLUS_SEPARATOR;
          surviving_artist = take sep_start txt;
          surviving_title = drop sep_end txt
      in if surviving_artist = [] \<or> surviving_title = [] then (txt, [], [])
         else (txt, surviving_artist, surviving_title))"

section \<open>The UECP payload\<close>

text \<open>
  \<open>artist\<close>/\<open>title\<close> are \<^verbatim>\<open>None\<close> for content that is no song and empty when truncation cut
  the split away, as in the source; \<open>pty_now\<close> and \<open>dynamic_pty\<close> are the optional overrides.
\<close>

definition rt_plus_meds ::
  "utext option \<Rightarrow> utext option \<Rightarrow> utext \<Rightarrow> byte list py list" where
  "rt_plus_meds artist title rt =
     (if artist \<noteq> None \<and> artist \<noteq> Some [] \<and> title \<noteq> None \<and> title \<noteq> Some []
         \<and> length (the artist) \<le> 32
      then [mec_rt_plus_tags (int (length (the artist))) (int (length (the title)))]
      else if artist = None \<and> title = None \<and> rt \<noteq> []
      then [mec_rt_plus_tags_generic (int (length rt))]
      else [])"

definition uecp_meds ::
  "(utext \<Rightarrow> utext) \<Rightarrow> rbds_config \<Rightarrow> int option \<Rightarrow> utext \<Rightarrow> utext \<Rightarrow> utext option \<Rightarrow> utext option
    \<Rightarrow> int option \<Rightarrow> utext \<Rightarrow> bool \<Rightarrow> bool option \<Rightarrow> bool \<Rightarrow> utext option \<Rightarrow> byte list py list" where
  "uecp_meds nfc config last_sent_language_code ps rt artist title pty_now ptyn rt_ab_toggle
       dynamic_pty include_long_ps long_ps_content =
     (if pi_code config \<noteq> [] then [bindR (int_base16 (pi_code config)) (\<lambda>v. mec_pi v 0 0)] else [])
     @ (if ecc config \<noteq> [] then [bindR (int_base16 (ecc config)) (\<lambda>v. mec_ecc v 0)] else [])
     @ (case language_code config of
          Some code \<Rightarrow> [mec_language_code code 0]
        | None \<Rightarrow> if last_sent_language_code \<noteq> None then [mec_language_code 0 0] else [])
     @ [mec_ps ps 0 0]
     @ (if include_long_ps then [mec_long_ps long_ps_content 0 0] else [])
     @ [mec_ta_tp (ta config) (tp config) 0 0,
        mec_di (case dynamic_pty of None \<Rightarrow> di_dynamic_pty config | Some d \<Rightarrow> d)
               (di_compressed config) (di_artificial_head config) (di_stereo config) 0 0,
        mec_ms (ms config) 0 0,
        mec_pty (case pty_now of Some p \<Rightarrow> p | None \<Rightarrow> pty config) 0 0,
        mec_ptyn (normalize_text nfc ptyn) 0 0,
        mec_rt rt rt_ab_toggle 0 0]
     @ (if use_rt_plus config then Inr mec_rt_plus_oda_reg # rt_plus_meds artist title rt else [])"

definition next_sqc :: "int \<Rightarrow> int" where
  "next_sqc sqc = sqc mod 255 + 1"

text \<open>\<^verbatim>\<open>_frames_for\<close>: the sequence counter advances before each frame is built, so it is part of the result.\<close>

fun frames_for :: "rbds_config \<Rightarrow> int \<Rightarrow> byte list list \<Rightarrow> int \<times> byte list py" where
  "frames_for config sqc [] = (sqc, Inr [])"
| "frames_for config sqc (med # meds) =
     (let sqc' = next_sqc sqc in
      case build_frame (uecp_site_address config) (uecp_encoder_address config) sqc' med of
        Inl e \<Rightarrow> (sqc', Inl e)
      | Inr frame \<Rightarrow>
          (case frames_for config sqc' meds of
             (sqc'', out) \<Rightarrow> (sqc'', bindR out (\<lambda>bs. Inr (frame @ bs)))))"

definition build_uecp_payload ::
  "(utext \<Rightarrow> utext) \<Rightarrow> rbds_config \<Rightarrow> int \<Rightarrow> int option \<Rightarrow> utext \<Rightarrow> utext \<Rightarrow> utext option \<Rightarrow> utext option
    \<Rightarrow> int option \<Rightarrow> utext \<Rightarrow> bool \<Rightarrow> bool option \<Rightarrow> bool \<Rightarrow> utext option \<Rightarrow> int \<times> byte list py" where
  "build_uecp_payload nfc config sqc last_lang ps rt artist title pty_now ptyn rt_ab_toggle
       dynamic_pty include_long_ps long_ps_content =
     (case seqR (uecp_meds nfc config last_lang ps rt artist title pty_now ptyn rt_ab_toggle
                  dynamic_pty include_long_ps long_ps_content) of
        Inl e \<Rightarrow> (sqc, Inl e)
      | Inr meds \<Rightarrow> frames_for config sqc meds)"

datatype tx_error = NotConnected | NotFrames split_error

text \<open>\<^verbatim>\<open>_transmit\<close>: the writes it makes, in order (\<open>connected\<close>: the TCP socket is there).\<close>

definition transmit :: "rbds_config \<Rightarrow> bool \<Rightarrow> byte list \<Rightarrow> tx_error + byte list list" where
  "transmit config connected payload =
     (if transport config = ''udp'' then
        (if protocol config = ''uecp'' then
           (case split_frames payload of Inl e \<Rightarrow> Inl (NotFrames e) | Inr frames \<Rightarrow> Inr frames)
         else Inr [payload])
      else if \<not> connected then Inl NotConnected
      else Inr [payload])"

section \<open>The ASCII payload\<close>

text \<open>Python's decimal rendering of an integer.\<close>

definition build_rt_plus_tag :: "int \<Rightarrow> int \<Rightarrow> int \<Rightarrow> utext" where
  "build_rt_plus_tag content_type start len =
     show_int content_type @ [44] @ show_int start @ [44] @ show_int (max (len - 1) 0)"

text \<open>\<^verbatim>\<open>",".join\<close> and \<^verbatim>\<open>"\n".join\<close>.\<close>

fun join :: "nat \<Rightarrow> utext list \<Rightarrow> utext" where
  "join sep [] = []"
| "join sep [t] = t"
| "join sep (t # ts) = t @ sep # join sep ts"

definition build_ascii_commands ::
  "utext \<Rightarrow> utext \<Rightarrow> utext \<Rightarrow> int \<Rightarrow> bool \<Rightarrow> bool \<Rightarrow> bool \<Rightarrow> bool \<Rightarrow> bool \<Rightarrow> utext list \<Rightarrow> utext list" where
  "build_ascii_commands pi ps rt pty_now music dyn compr ahead stereo rt_plus_tags =
     (if ps \<noteq> [] then [cps ''PS='' @ take 8 ps] else [])
     @ (if rt \<noteq> [] then [cps ''RT='' @ take 64 rt] else [])
     @ (if rt_plus_tags \<noteq> [] then [cps ''RT+='' @ join 44 rt_plus_tags] else [])
     @ (if pi \<noteq> [] then [cps ''PI='' @ pi] else [])
     @ [cps ''PTY='' @ show_int pty_now,
        cps ''MS='' @ show_int (if music then 1 else 0),
        cps ''DI='' @ show_int ((if dyn then 0x01 else 0x00) OR (if compr then 0x02 else 0x00)
           OR (if ahead then 0x04 else 0x00) OR (if stereo then 0x08 else 0x00))]"

definition build_ascii_payload ::
  "rbds_config \<Rightarrow> utext \<Rightarrow> utext \<Rightarrow> utext option \<Rightarrow> utext option \<Rightarrow> int option \<Rightarrow> bool option \<Rightarrow> utext" where
  "build_ascii_payload config ps rt artist title pty_now dynamic_pty =
     (let tags =
        (if use_rt_plus config \<and> artist \<noteq> None \<and> artist \<noteq> Some [] \<and> title \<noteq> None \<and> title \<noteq> Some []
         then [build_rt_plus_tag 4 0 (int (length (the artist))),
               build_rt_plus_tag 1 (int (length (the artist) + length RT_PLUS_SEPARATOR))
                 (int (length (the title)))]
         else []);
        commands = build_ascii_commands (pi_code config) ps rt
          (case pty_now of Some p \<Rightarrow> p | None \<Rightarrow> pty config) (ms config)
          (case dynamic_pty of None \<Rightarrow> di_dynamic_pty config | Some d \<Rightarrow> d)
          (di_compressed config) (di_artificial_head config) (di_stereo config) tags
      in join 10 commands @ [10])"

section \<open>Facts about the UECP payload\<close>

lemma next_sqc_range: "1 \<le> next_sqc s \<and> next_sqc s \<le> 255"
  using pos_mod_bound [of 255 s] pos_mod_sign [of 255 s] by (simp add: next_sqc_def)

lemma frames_for_Inr:
  "frames_for config sqc meds = (s, Inr out) \<Longrightarrow>
     \<exists>fs. out = concat fs \<and> length fs = length meds
        \<and> (\<forall>i<length meds. build_frame (uecp_site_address config) (uecp_encoder_address config)
              ((next_sqc ^^ Suc i) sqc) (meds ! i) = Inr (fs ! i))"
proof (induction meds arbitrary: sqc out)
  case Nil
  then show ?case by simp
next
  case (Cons med meds)
  let ?q = "next_sqc sqc"
  from Cons.prems obtain f bs where
    f: "build_frame (uecp_site_address config) (uecp_encoder_address config) ?q med = Inr f"
    and bs: "frames_for config ?q meds = (s, Inr bs)" and out: "out = f @ bs"
    by (auto simp: Let_def bindR_eq_Inr split: sum.splits prod.splits)
  from Cons.IH [OF bs] obtain fs where fs: "bs = concat fs" "length fs = length meds"
    "\<forall>i<length meds. build_frame (uecp_site_address config) (uecp_encoder_address config)
       ((next_sqc ^^ Suc i) ?q) (meds ! i) = Inr (fs ! i)" by blast
  have "build_frame (uecp_site_address config) (uecp_encoder_address config)
      ((next_sqc ^^ Suc i) sqc) ((med # meds) ! i) = Inr ((f # fs) ! i)" if "i < Suc (length meds)" for i
  proof (cases i)
    case 0
    with f show ?thesis by simp
  next
    case (Suc j)
    with that fs(3) show ?thesis by (simp add: funpow_swap1)
  qed
  with out fs show ?case by (intro exI [of _ "f # fs"]) simp
qed

text \<open>
  Over UDP every message element travels in a datagram of its own: when a payload is built,
  \<^verbatim>\<open>_transmit\<close> sends one datagram per element, in the order the elements were assembled, and
  the i-th datagram decodes to the configured addresses, the i-th value of the sequence counter
  (always between 1 and 255, never the reserved 0) and exactly the i-th element.
\<close>

theorem udp_one_datagram_per_element:
  assumes "transport config = ''udp''" and "protocol config = ''uecp''"
    and "build_uecp_payload nfc config sqc last_lang ps rt artist title pty_now ptyn ab dyn incl lps
           = (sqc', Inr payload)"
  shows "\<exists>meds fs. seqR (uecp_meds nfc config last_lang ps rt artist title pty_now ptyn ab dyn incl lps)
             = Inr meds
     \<and> transmit config connected payload = Inr fs \<and> length fs = length meds
     \<and> (\<forall>i<length meds. decode_frame (fs ! i) = Some (uecp_site_address config mod 1024,
           uecp_encoder_address config mod 64, (next_sqc ^^ Suc i) sqc, meds ! i)
         \<and> 1 \<le> (next_sqc ^^ Suc i) sqc \<and> (next_sqc ^^ Suc i) sqc \<le> 255)"
proof -
  from assms(3) obtain meds where
    meds: "seqR (uecp_meds nfc config last_lang ps rt artist title pty_now ptyn ab dyn incl lps) = Inr meds"
    and out: "frames_for config sqc meds = (sqc', Inr payload)"
    by (auto simp: build_uecp_payload_def split: sum.splits)
  from frames_for_Inr [OF out] obtain fs where
    payload: "payload = concat fs" and len: "length fs = length meds"
    and fs: "\<forall>i<length meds. build_frame (uecp_site_address config) (uecp_encoder_address config)
       ((next_sqc ^^ Suc i) sqc) (meds ! i) = Inr (fs ! i)" by blast
  have "\<forall>f\<in>set fs. \<exists>site enc q msg. build_frame site enc q msg = Inr f"
    using fs len by (metis in_set_conv_nth)
  then have "split_frames payload = Inr fs"
    unfolding payload by (rule uecp.split_concat)
  then have "transmit config connected payload = Inr fs"
    using assms(1,2) by (simp add: transmit_def)
  moreover have "decode_frame (fs ! i) = Some (uecp_site_address config mod 1024,
      uecp_encoder_address config mod 64, (next_sqc ^^ Suc i) sqc, meds ! i)
    \<and> 1 \<le> (next_sqc ^^ Suc i) sqc \<and> (next_sqc ^^ Suc i) sqc \<le> 255" if "i < length meds" for i
  proof -
    have q: "1 \<le> (next_sqc ^^ Suc i) sqc" "(next_sqc ^^ Suc i) sqc \<le> 255"
      using next_sqc_range by simp_all
    then have "(next_sqc ^^ Suc i) sqc AND 0xFF = (next_sqc ^^ Suc i) sqc"
      by (simp only: and_masks mod_pos_pos_trivial)
    with decode_build [OF fs [rule_format, OF that]] q show ?thesis by (simp add: and_masks)
  qed
  ultimately show ?thesis using meds len by blast
qed

section \<open>Facts about RT+ text\<close>

lemma build_rt_plus_text_parts:
  assumes "build_rt_plus_text artist title = (txt, a, t)"
  shows "length txt \<le> 64" and "a = [] \<longleftrightarrow> t = []"
    and "a \<noteq> [] \<Longrightarrow> txt = a @ RT_PLUS_SEPARATOR @ t \<and> a = artist \<and> length t \<le> 64"
proof -
  let ?full = "artist @ RT_PLUS_SEPARATOR @ title"
  have w: "txt = take 64 ?full"
    using assms by (auto simp: build_rt_plus_text_def Let_def split: if_splits)
  then show "length txt \<le> 64" by simp
  show "a = [] \<longleftrightarrow> t = []"
    using assms by (auto simp: build_rt_plus_text_def Let_def split: if_splits)
  assume "a \<noteq> []"
  then have a: "a = take (length artist) txt" and t: "t = drop (length artist + length RT_PLUS_SEPARATOR) txt"
    and "t \<noteq> []"
    using assms by (auto simp: build_rt_plus_text_def Let_def split: if_splits)
  then have long: "length artist + length RT_PLUS_SEPARATOR < 64" by (auto simp: w not_le)
  then have "txt = artist @ RT_PLUS_SEPARATOR @ take (64 - (length artist + length RT_PLUS_SEPARATOR)) title"
    by (simp add: w)
  with a t show "txt = a @ RT_PLUS_SEPARATOR @ t \<and> a = artist \<and> length t \<le> 64" by simp
qed

text \<open>
  RT+ tags never point outside what is transmitted: whatever artist and title a song has, the
  RadioText built from them has at most 64 characters, and the element the UECP payload adds for it
  (if it adds one) makes a receiver cut exactly the surviving artist and the surviving title out of
  that text.
\<close>

theorem rt_plus_tags_stay_inside:
  "(case build_rt_plus_text artist title of (txt, a, t) \<Rightarrow>
      length txt \<le> 64
      \<and> (rt_plus_meds (Some a) (Some t) txt = []
         \<or> (\<exists>m. rt_plus_meds (Some a) (Some t) txt = [Inr m]
              \<and> take (nat (rtp_len1 m)) txt = a
              \<and> take (nat (rtp_len2 m)) (drop (nat (rtp_start2 m)) txt) = t)))"
proof (cases "build_rt_plus_text artist title")
  case (fields w a t)
  note parts = build_rt_plus_text_parts [OF fields]
  show ?thesis
  proof (cases "a \<noteq> [] \<and> length a \<le> 32")
    case True
    with parts have w: "w = a @ cps '' - '' @ t" and "t \<noteq> []" "length t \<le> 64"
      by (auto simp: RT_PLUS_SEPARATOR_def)
    with True have "rt_plus_meds (Some a) (Some t) w
        = [mec_rt_plus_tags (int (length a)) (int (length t))]"
      by (simp add: rt_plus_meds_def)
    with rt_plus_tags_cut [of a t] True \<open>t \<noteq> []\<close> \<open>length t \<le> 64\<close> parts(1) fields show ?thesis
      by (auto simp: w)
  next
    case False
    with parts show ?thesis by (auto simp: fields rt_plus_meds_def)
  qed
qed

section \<open>A validated configuration never raises\<close>

text \<open>What \<^verbatim>\<open>RBDSConfig.clean()\<close> lets through (\<^verbatim>\<open>rbds/models.py\<close>): hex fields by regular expression.\<close>

definition config_valid :: "rbds_config \<Rightarrow> bool" where
  "config_valid config \<longleftrightarrow>
     (\<forall>c\<in>set (pi_code config). hex_val c \<noteq> None) \<and> length (pi_code config) \<le> 4
     \<and> (\<forall>c\<in>set (ecc config). hex_val c \<noteq> None) \<and> (ecc config = [] \<or> length (ecc config) = 2)
     \<and> (case language_code config of None \<Rightarrow> True | Some code \<Rightarrow> 0 \<le> code \<and> code \<le> 0xFF)"

lemma hex_val_range: "hex_val c = Some d \<Longrightarrow> 0 \<le> d \<and> d < 16"
  by (auto simp: hex_val_def split: if_splits)

lemma hex_val_chars: "hex_val c \<noteq> None \<Longrightarrow> \<not> py_isspace c \<and> c \<noteq> 95 \<and> c \<noteq> 45 \<and> c \<noteq> 43 \<and> c \<noteq> 120 \<and> c \<noteq> 88"
  by (auto simp: hex_val_def py_isspace_def split: if_splits)

lemma hex_digits_value:
  "\<forall>c\<in>set t. hex_val c \<noteq> None \<Longrightarrow> t \<noteq> [] \<or> ok \<Longrightarrow> 0 \<le> acc \<Longrightarrow>
     \<exists>v. hex_digits ok acc t = Inr v \<and> 0 \<le> v \<and> v < (acc + 1) * 16 ^ length t"
proof (induction t arbitrary: ok acc)
  case Nil
  then show ?case by simp
next
  case (Cons c cs)
  from Cons.prems(1) obtain d where d: "hex_val c = Some d" by auto
  note r = hex_val_range [OF d]
  have "c \<noteq> 95" using Cons.prems(1) hex_val_chars by auto
  moreover obtain v where v: "hex_digits True (acc * 16 + d) cs = Inr v" "0 \<le> v"
    "v < (acc * 16 + d + 1) * 16 ^ length cs"
    using Cons.IH [of True "acc * 16 + d"] Cons.prems r by auto
  moreover have "(acc * 16 + d + 1) * 16 ^ length cs \<le> (acc + 1) * 16 * 16 ^ length cs"
    by (rule mult_right_mono) (use r in auto)
  ultimately show ?case using d by (auto intro: less_le_trans)
qed

lemma int_base16_digits:
  assumes "\<forall>c\<in>set t. hex_val c \<noteq> None" and "t \<noteq> []"
  shows "\<exists>v. int_base16 t = Inr v \<and> 0 \<le> v \<and> v < 16 ^ length t"
proof -
  have nb: "\<not> py_isspace (hd t)" "\<not> py_isspace (last t)"
    using assms hex_val_chars by (meson hd_in_set last_in_set)+
  have "dropWhile py_isspace t = t" using nb(1) assms(2) by (cases t) auto
  moreover have "dropWhile py_isspace (rev t) = rev t"
    using nb(2) assms(2) by (cases t rule: rev_cases) auto
  ultimately have strip: "py_strip t = t" by (simp add: py_strip_def)
  have body: "hex_body t = hex_digits False 0 t"
    using assms(1) hex_val_chars by (auto simp: hex_body_def split: list.splits)
  have "int_base16 t = hex_digits False 0 t"
    using assms hex_val_chars body by (auto simp: int_base16_def strip split: list.splits)
  with hex_digits_value [OF assms(1), of False 0] assms(2) show ?thesis by auto
qed

lemma element_short: "uecp_element m \<Longrightarrow> length m \<le> 69"
proof (induction rule: uecp_element.induct)
  case (12 ltxt dsn psn m)
  then show ?case by (auto simp: mec_long_ps_shape)
qed (auto simp: mec_text_shapes mec_fixed_defs result_simps mk_bytes_eq_Inr pack_be16_eq_Inr)

lemma frames_for_ok:
  "\<forall>m\<in>set meds. length m < 256 \<Longrightarrow> \<exists>s out. frames_for config sqc meds = (s, Inr out)"
proof (induction meds arbitrary: sqc)
  case Nil
  then show ?case by simp
next
  case (Cons m ms)
  then obtain f where "build_frame (uecp_site_address config) (uecp_encoder_address config) (next_sqc sqc) m = Inr f"
    using build_frame_ok_iff by fastforce
  moreover obtain s out where "frames_for config (next_sqc sqc) ms = (s, Inr out)"
    using Cons by fastforce
  ultimately show ?case by (simp add: Let_def)
qed

lemma mec_ok:
  "is_ok (mec_ps t 0 0)" "is_ok (mec_ptyn t 0 0)" "is_ok (mec_rt t ab 0 0)"
  "is_ok (mec_long_ps lt 0 0)" "is_ok (mec_ta_tp b1 b2 0 0)" "is_ok (mec_di b1 b2 b3 b4 0 0)"
  "is_ok (mec_ms b1 0 0)" "is_ok (mec_pty p 0 0)" "is_ok (mec_pi v 0 0)"
  "0 \<le> code \<Longrightarrow> code \<le> 0xFF \<Longrightarrow> is_ok (mec_language_code code 0)"
  "0 \<le> code \<Longrightarrow> code \<le> 0xFF \<Longrightarrow> is_ok (mec_ecc code 0)"
  by (auto simp: is_ok_def mec_text_shapes mec_long_ps_shape mec_fixed_defs mk_bytes_def pack_be16_def
      and_masks guardR_def drop_bit_eq_div)

lemma rt_plus_meds_ok: "list_all is_ok (rt_plus_meds artist title rt)"
proof -
  have gen: "is_ok (mec_rt_plus_tags_generic (int (length rt)))" if "rt \<noteq> []"
  proof -
    have "push_bit 1 (min (int (length rt) - 1) 63 AND 0x3F) = 2 * min (int (length rt) - 1) 63"
      using that by (simp add: and_masks push_bit_eq_mult Suc_le_eq)
    then show ?thesis using that
      by (auto simp: is_ok_def mec_rt_plus_tags_generic_def Let_def mk_bytes_def guardR_def Suc_le_eq)
  qed
  have song: "is_ok (mec_rt_plus_tags (int (length a)) (int (length t)))"
    if "a \<noteq> []" "length a \<le> 32" "t \<noteq> []" for a t :: utext
    using rt_plus_tags_cut [OF that] by (auto simp: is_ok_def)
  show ?thesis by (auto simp: rt_plus_meds_def gen) (use song in blast)+
qed

lemma uecp_meds_ok:
  assumes "config_valid config"
  shows "list_all is_ok (uecp_meds nfc config last_lang ps rt artist title pty_now ptyn ab dyn incl lps)"
proof -
  have pi: "is_ok (bindR (int_base16 (pi_code config)) (\<lambda>v. mec_pi v 0 0))" if "pi_code config \<noteq> []"
    using assms that int_base16_digits [of "pi_code config"] by (auto simp: config_valid_def mec_ok)
  have ecc: "is_ok (bindR (int_base16 (ecc config)) (\<lambda>v. mec_ecc v 0))" if "ecc config \<noteq> []"
    using assms that int_base16_digits [of "ecc config"] by (auto simp: config_valid_def mec_ok)
  have lang: "is_ok (mec_language_code code 0)" if "language_code config = Some code" for code
    using assms that mec_ok(10) by (auto simp: config_valid_def)
  show ?thesis
    by (simp add: uecp_meds_def pi ecc lang mec_ok rt_plus_meds_ok split: option.splits)
qed

definition element_or_raise :: "byte list py \<Rightarrow> bool" where
  "element_or_raise x \<longleftrightarrow> (\<forall>m. x = Inr m \<longrightarrow> uecp_element m)"

lemma element_or_raise_mec:
  "element_or_raise (mec_ps t a b)" "element_or_raise (mec_ptyn t a b)" "element_or_raise (mec_rt t ab a b)"
  "element_or_raise (mec_long_ps lt a b)" "element_or_raise (mec_ta_tp b1 b2 a b)"
  "element_or_raise (mec_di b1 b2 b3 b4 a b)" "element_or_raise (mec_ms b1 a b)"
  "element_or_raise (mec_pty p a b)" "element_or_raise (mec_pi v a b)"
  "element_or_raise (mec_language_code code a)" "element_or_raise (mec_ecc code a)"
  "element_or_raise (mec_rt_plus_tags k l)" "element_or_raise (mec_rt_plus_tags_generic k)"
  "element_or_raise (Inr mec_rt_plus_oda_reg)"
  by (auto simp: element_or_raise_def intro: uecp_element.intros)

lemma element_or_raise_bind: "(\<And>v. element_or_raise (f v)) \<Longrightarrow> element_or_raise (bindR m f)"
  by (auto simp: element_or_raise_def bindR_eq_Inr)

lemma uecp_meds_elements:
  "list_all element_or_raise (uecp_meds nfc config last_lang ps rt artist title pty_now ptyn ab dyn incl lps)"
  by (simp add: uecp_meds_def rt_plus_meds_def element_or_raise_mec element_or_raise_bind split: option.splits)

lemma valid_config_ok:
  assumes "config_valid config"
  shows "\<exists>sqc' payload. build_uecp_payload nfc config sqc last_lang ps rt artist title pty_now ptyn ab dyn
      incl lps = (sqc', Inr payload)"
proof -
  let ?ms = "uecp_meds nfc config last_lang ps rt artist title pty_now ptyn ab dyn incl lps"
  obtain meds where meds: "seqR ?ms = Inr meds"
    using seqR_ok_iff [of ?ms] uecp_meds_ok [OF assms] by (auto simp: is_ok_def)
  then have "?ms = map Inr meds" by (simp add: seqR_eq_Inr)
  with uecp_meds_elements [of nfc config last_lang ps rt artist title pty_now ptyn ab dyn incl lps]
  have "\<forall>m\<in>set meds. uecp_element m"
    by (simp add: list_all_iff element_or_raise_def)
  then have "\<forall>m\<in>set meds. length m < 256"
    using element_short by fastforce
  then show ?thesis
    using frames_for_ok [of meds config sqc] by (simp add: build_uecp_payload_def meds)
qed

text \<open>
  A configuration that passed \<^verbatim>\<open>RBDSConfig.clean()\<close> can always be sent: whatever the
  texts, artist, title and flags of the tick are, building the UECP payload raises nothing.
\<close>

theorem valid_config_payload_builds:
  assumes "config_valid config"
  shows "\<exists>sqc' payload. build_uecp_payload nfc config sqc last_lang ps rt artist title pty_now ptyn ab dyn
      incl lps = (sqc', Inr payload)"
  using assms by (rule valid_config_ok)

theorem udp_one_datagram_per_element_witness:
  "\<exists>config sqc' payload meds fs. transport config = ''udp'' \<and> protocol config = ''uecp''
     \<and> build_uecp_payload id config 254 None (cps ''OGR'') (cps ''A - B'') (Some (cps ''A'')) (Some (cps ''B''))
         None [] True None False None = (sqc', Inr payload)
     \<and> seqR (uecp_meds id config None (cps ''OGR'') (cps ''A - B'') (Some (cps ''A'')) (Some (cps ''B''))
         None [] True None False None) = Inr meds
     \<and> transmit config False payload = Inr fs \<and> length fs = length meds
     \<and> (\<forall>i<length meds. decode_frame (fs ! i) = Some (uecp_site_address config mod 1024,
           uecp_encoder_address config mod 64, (next_sqc ^^ Suc i) 254, meds ! i)
         \<and> 1 \<le> (next_sqc ^^ Suc i) 254 \<and> (next_sqc ^^ Suc i) 254 \<le> 255)"
proof -
  let ?c = "\<lparr>pi_code = cps ''1000'', ecc = cps ''A0'', language_code = Some 9, ta = False, tp = False,
     di_dynamic_pty = False, di_compressed = False, di_artificial_head = False, di_stereo = True,
     ms = True, pty = 10, use_rt_plus = True, af_configured = False, uecp_site_address = 1,
     uecp_encoder_address = 1, protocol = ''uecp'', transport = ''udp''\<rparr>"
  have "config_valid ?c" by (simp add: config_valid_def hex_val_def cps_def)
  from valid_config_ok [OF this] obtain sqc' payload where
    p: "build_uecp_payload id ?c 254 None (cps ''OGR'') (cps ''A - B'') (Some (cps ''A'')) (Some (cps ''B''))
         None [] True None False None = (sqc', Inr payload)" by blast
  have "transport ?c = ''udp''" "protocol ?c = ''uecp''" by simp_all
  from udp_one_datagram_per_element [OF this p, of False] p this show ?thesis by blast
qed

theorem valid_config_payload_builds_witness:
  "\<exists>sqc' payload. build_uecp_payload id
     \<lparr>pi_code = cps ''1000'', ecc = cps ''A0'', language_code = None, ta = True, tp = True,
      di_dynamic_pty = False, di_compressed = False, di_artificial_head = False, di_stereo = True,
      ms = False, pty = 300, use_rt_plus = True, af_configured = True, uecp_site_address = 70000,
      uecp_encoder_address = - 1, protocol = ''uecp'', transport = ''tcp''\<rparr>
     0 (Some 9) (cps ''OGR'') (cps ''Weather'') None None (Some 29) (cps ''WX'') True (Some True) True None
     = (sqc', Inr payload)"
  by (rule valid_config_payload_builds) (simp add: config_valid_def hex_val_def cps_def)

section \<open>Facts about the ASCII payload\<close>

text \<open>How the receiver splits the stream into command lines, and a command's key.\<close>

fun lines_of :: "utext \<Rightarrow> utext list" where
  "lines_of [] = []"
| "lines_of (c # cs) =
     (if c = 10 then [] # lines_of cs
      else case lines_of cs of [] \<Rightarrow> [[c]] | l # ls \<Rightarrow> (c # l) # ls)"

definition command_key :: "utext \<Rightarrow> utext" where
  "command_key l = takeWhile (\<lambda>c. c \<noteq> 61) l"

lemma lines_of_line: "10 \<notin> set l \<Longrightarrow> lines_of (l @ 10 # r) = l # lines_of r"
  by (induction l) auto

lemma lines_of_join: "cs \<noteq> [] \<Longrightarrow> \<forall>l\<in>set cs. 10 \<notin> set l \<Longrightarrow> lines_of (join 10 cs @ [10]) = cs"
  by (induction "10 :: nat" cs rule: join.induct) (simp_all add: lines_of_line)

lemma show_nat_digits: "c \<in> set (show_nat n) \<Longrightarrow> 48 \<le> c \<and> c \<le> 57"
proof (induction n rule: show_nat.induct)
  case (1 n)
  show ?case
  proof (cases "n < 10")
    case True
    then show ?thesis using "1.prems" by (simp add: show_nat.simps [of n])
  next
    case False
    then show ?thesis using "1.prems" "1.IH" by (auto simp: show_nat.simps [of n])
  qed
qed

lemma show_int_chars: "c \<in> set (show_int i) \<Longrightarrow> 45 \<le> c \<and> c \<le> 57"
  by (auto simp: show_int_def dest: show_nat_digits split: if_splits)

lemma set_join: "set (join sep ts) \<subseteq> insert sep (\<Union>t\<in>set ts. set t)"
  by (induction sep ts rule: join.induct) auto

lemma tag_chars: "c \<in> set (build_rt_plus_tag t s l) \<Longrightarrow> 44 \<le> c \<and> c \<le> 57"
  by (auto simp: build_rt_plus_tag_def dest: show_int_chars)

lemma ascii_commands_one_line:
  assumes "10 \<notin> set ps" "10 \<notin> set rt" "10 \<notin> set pi"
    and "\<forall>t\<in>set tags. \<forall>c\<in>set t. 44 \<le> c \<and> c \<le> 57"
  shows "\<forall>l\<in>set (build_ascii_commands pi ps rt p music dyn compr ahead stereo tags). 10 \<notin> set l"
proof -
  have t: "10 \<notin> set (take n ps)" "10 \<notin> set (take n rt)" for n
    using assms(1,2) by (auto dest: in_set_takeD)
  have j: "10 \<notin> set (join 44 tags)"
    using set_join [of 44 tags] assms(4) by fastforce
  have i: "10 \<notin> set (show_int i)" for i
    using show_int_chars [of 10 i] by auto
  have k: "10 \<notin> set (cps ''PS='')" "10 \<notin> set (cps ''RT='')" "10 \<notin> set (cps ''RT+='')" "10 \<notin> set (cps ''PI='')"
    "10 \<notin> set (cps ''PTY='')" "10 \<notin> set (cps ''MS='')" "10 \<notin> set (cps ''DI='')"
    by (simp_all add: cps_def)
  show ?thesis
    using assms(3) by (auto simp: build_ascii_commands_def t j i k)
qed

lemma ascii_command_keys:
  "subseq (map command_key (build_ascii_commands pi ps rt p music dyn compr ahead stereo tags))
     [cps ''PS'', cps ''RT'', cps ''RT+'', cps ''PI'', cps ''PTY'', cps ''MS'', cps ''DI'']"
  by (simp add: build_ascii_commands_def command_key_def cps_def)

text \<open>
  Nothing typed into a text field can inject a command: with a PI code of hex digits and PS and
  RT texts that went through \<^verbatim>\<open>normalize_text\<close>, the lines a receiver sees in the ASCII payload
  are the assembled commands, so their keys are a subsequence of PS, RT, RT+, PI, PTY, MS, DI,
  each at most once and in this order, whatever the texts contain.
\<close>

theorem ascii_payload_no_injection:
  assumes "\<forall>c\<in>set (pi_code config). hex_val c \<noteq> None"
  shows "subseq (map command_key (lines_of (build_ascii_payload config (normalize_text nfc ps)
            (take 64 (normalize_text nfc rt)) artist title pty_now dynamic_pty)))
     [cps ''PS'', cps ''RT'', cps ''RT+'', cps ''PI'', cps ''PTY'', cps ''MS'', cps ''DI'']"
proof -
  let ?ps = "normalize_text nfc ps" and ?rt = "take 64 (normalize_text nfc rt)"
  have ps: "10 \<notin> set ?ps" "10 \<notin> set ?rt"
    using normalize_no_control [of 10] by (auto dest: in_set_takeD)
  have pi: "10 \<notin> set (pi_code config)"
    using assms by (auto simp: hex_val_def)
  have "\<exists>tags p music dyn compr ahead stereo. (\<forall>t\<in>set tags. \<forall>c\<in>set t. 44 \<le> c \<and> c \<le> 57)
      \<and> build_ascii_payload config ?ps ?rt artist title pty_now dynamic_pty
        = join 10 (build_ascii_commands (pi_code config) ?ps ?rt p music dyn compr ahead stereo tags) @ [10]"
    unfolding build_ascii_payload_def Let_def
    by (rule exI)+ (rule conjI [OF _ refl], auto dest: tag_chars)
  then obtain tags p music dyn compr ahead stereo where
    tags: "\<forall>t\<in>set tags. \<forall>c\<in>set t. 44 \<le> c \<and> c \<le> 57"
    and payload: "build_ascii_payload config ?ps ?rt artist title pty_now dynamic_pty
        = join 10 (build_ascii_commands (pi_code config) ?ps ?rt p music dyn compr ahead stereo tags) @ [10]"
    by blast
  let ?cs = "build_ascii_commands (pi_code config) ?ps ?rt p music dyn compr ahead stereo tags"
  have "lines_of (join 10 ?cs @ [10]) = ?cs"
    by (rule lines_of_join) (simp add: build_ascii_commands_def,
      rule ascii_commands_one_line [OF ps pi tags])
  then show ?thesis unfolding payload by (simp only: ascii_command_keys)
qed

theorem ascii_payload_no_injection_witness:
  "subseq (map command_key (lines_of (build_ascii_payload
      \<lparr>pi_code = cps ''1A2b'', ecc = [], language_code = None, ta = False, tp = False,
       di_dynamic_pty = False, di_compressed = False, di_artificial_head = False, di_stereo = True,
       ms = True, pty = 10, use_rt_plus = True, af_configured = False, uecp_site_address = 0,
       uecp_encoder_address = 0, protocol = ''ascii'', transport = ''tcp''\<rparr>
      (normalize_text id [65, 10, 80, 73, 61]) (take 64 (normalize_text id [10, 66]))
      (Some [65]) (Some [66]) None None)))
     [cps ''PS'', cps ''RT'', cps ''RT+'', cps ''PI'', cps ''PTY'', cps ''MS'', cps ''DI'']"
  by (rule ascii_payload_no_injection) (simp add: cps_def hex_val_def)

end
