(* ===== verification/Rds_Rotation.thy ===== *)
theory Rds_Rotation
  imports Air_Prelude Complex_Main
begin

text \<open>
  \<^verbatim>\<open>rbds/services/rotation.py\<close>: the two timing state machines that decide which PS frame
  and which RadioText source is shown. The clock reading is an argument (a rational number of
  seconds); the attributes Python initialises with \<^verbatim>\<open>None\<close> are options, so that indexing out of
  range or subtracting from \<^verbatim>\<open>None\<close> is an error value of the model, and the theorems show
  that no sequence of calls reaches one.
\<close>

datatype rotation_error = IndexOutOfRange | NoneArithmetic

section \<open>PS frames\<close>

record ps_rotation =
  frames_key :: "(utext \<times> rat) list option"
  frame_index :: nat
  frame_started_at :: "rat option"

definition ps_init :: ps_rotation where
  "ps_init = \<lparr>frames_key = None, frame_index = 0, frame_started_at = None\<rparr>"

definition ps_current :: "(utext \<times> rat) list \<Rightarrow> ps_rotation \<Rightarrow> rotation_error + (ps_rotation \<times> utext option)" where
  "ps_current frames s =
     (if frame_index s < length frames then Inr (s, Some (fst (frames ! frame_index s)))
      else Inl IndexOutOfRange)"

definition ps_advance ::
  "(utext \<times> rat) list \<Rightarrow> rat \<Rightarrow> ps_rotation \<Rightarrow> rotation_error + (ps_rotation \<times> utext option)" where
  "ps_advance frames now s =
     (if frames = [] then Inr (s\<lparr>frames_key := None\<rparr>, None)
      else if Some frames \<noteq> frames_key s then
        ps_current frames (s\<lparr>frames_key := Some frames, frame_index := 0, frame_started_at := Some now\<rparr>)
      else case frame_started_at s of
             None \<Rightarrow> Inl NoneArithmetic
           | Some started \<Rightarrow>
               if \<not> frame_index s < length frames then Inl IndexOutOfRange
               else if now - started \<ge> snd (frames ! frame_index s)
               then ps_current frames (s\<lparr>frame_index := (frame_index s + 1) mod length frames,
                                        frame_started_at := Some now\<rparr>)
               else ps_current frames s)"

definition ps_reset :: "ps_rotation \<Rightarrow> ps_rotation" where
  "ps_reset s = s\<lparr>frames_key := None, frame_index := 0, frame_started_at := None\<rparr>"

datatype ps_event = PsAdvance "(utext \<times> rat) list" rat | PsReset

definition ps_step :: "ps_event \<Rightarrow> ps_rotation \<Rightarrow> rotation_error + ps_rotation" where
  "ps_step e s =
     (case e of PsReset \<Rightarrow> Inr (ps_reset s)
      | PsAdvance frames now \<Rightarrow> bindR (ps_advance frames now s) (\<lambda>r. Inr (fst r)))"

section \<open>RadioText sources\<close>

datatype rt_mode = NowPlaying | Promo

record rt_rotation =
  rt_mode :: rt_mode
  mode_started_at :: "rat option"
  promo_index :: nat
  promos_key :: "(utext \<times> rat) list option"

definition rt_init :: rt_rotation where
  "rt_init = \<lparr>rt_mode = NowPlaying, mode_started_at = None, promo_index = 0, promos_key = None\<rparr>"

text \<open>The first part of \<^verbatim>\<open>advance\<close>: the timer's first start and the restart on a changed promo list.\<close>

definition rt_refresh :: "(utext \<times> rat) list \<Rightarrow> rat \<Rightarrow> rt_rotation \<Rightarrow> rt_rotation" where
  "rt_refresh active_promos now s0 =
     (let s1 = (if mode_started_at s0 = None then s0\<lparr>mode_started_at := Some now\<rparr> else s0);
          promos_changed = (Some active_promos \<noteq> promos_key s1);
          s2 = s1\<lparr>promos_key := Some active_promos\<rparr>
      in if rt_mode s2 = Promo \<and> promos_changed
         then s2\<lparr>promo_index := 0, mode_started_at := Some now\<rparr> else s2)"

text \<open>The mode change, with the timer's start \<open>started\<close> already read.\<close>

definition rt_switch ::
  "rat \<Rightarrow> (utext \<times> rat) list \<Rightarrow> rat \<Rightarrow> rat \<Rightarrow> rt_rotation \<Rightarrow> rotation_error + rt_rotation" where
  "rt_switch min_seconds active_promos now started s =
     (if rt_mode s = NowPlaying then
        (if active_promos \<noteq> [] \<and> now - started \<ge> min_seconds
         then Inr (s\<lparr>rt_mode := Promo, promo_index := 0, mode_started_at := Some now\<rparr>)
         else Inr s)
      else if active_promos = [] then Inr (s\<lparr>rt_mode := NowPlaying, mode_started_at := Some now\<rparr>)
      else if \<not> promo_index s < length active_promos then Inl IndexOutOfRange
      else if now - started \<ge> snd (active_promos ! promo_index s) then
        (let s' = s\<lparr>promo_index := promo_index s + 1\<rparr> in
         if promo_index s' \<ge> length active_promos
         then Inr (s'\<lparr>rt_mode := NowPlaying, mode_started_at := Some now\<rparr>)
         else Inr (s'\<lparr>mode_started_at := Some now\<rparr>))
      else Inr s)"

definition rt_advance ::
  "rat \<Rightarrow> (utext \<times> rat) list \<Rightarrow> rat \<Rightarrow> rt_rotation
    \<Rightarrow> rotation_error + (rt_rotation \<times> rt_mode \<times> utext option)" where
  "rt_advance min_seconds active_promos now s0 =
     (let s = rt_refresh active_promos now s0 in
      case mode_started_at s of
        None \<Rightarrow> Inl NoneArithmetic
      | Some started \<Rightarrow>
          bindR (rt_switch min_seconds active_promos now started s) (\<lambda>s'.
          if rt_mode s' = Promo \<and> active_promos \<noteq> [] then
            (if promo_index s' < length active_promos
             then Inr (s', Promo, Some (fst (active_promos ! promo_index s')))
             else Inl IndexOutOfRange)
          else Inr (s', NowPlaying, None)))"

definition rt_step :: "rat \<Rightarrow> (utext \<times> rat) list \<times> rat \<Rightarrow> rt_rotation \<Rightarrow> rotation_error + rt_rotation" where
  "rt_step min_seconds e s = bindR (rt_advance min_seconds (fst e) (snd e) s) (\<lambda>r. Inr (fst r))"

section \<open>No call raises\<close>

text \<open>
  The interface the RDS manager relies on: every call of a machine succeeds in every state its
  calls can reach.
\<close>

locale total_machine = guarded_machine +
  assumes step_total: "inv s \<Longrightarrow> is_ok (step e s)"
begin

lemma run_total: "inv s \<Longrightarrow> is_ok (step e (run step es s))"
  by (rule step_total [OF run_inv])

end

definition ps_inv :: "ps_rotation \<Rightarrow> bool" where
  "ps_inv s \<longleftrightarrow>
     (case frames_key s of None \<Rightarrow> True
      | Some fs \<Rightarrow> frame_index s < length fs \<and> frame_started_at s \<noteq> None)"

lemma ps_advance_total:
  assumes "ps_inv s"
  shows "\<exists>s' r. ps_advance frames now s = Inr (s', r) \<and> ps_inv s'
    \<and> (frames \<noteq> [] \<longrightarrow> frames_key s' = Some frames \<and> frame_index s' < length frames
         \<and> r = Some (fst (frames ! frame_index s')))
    \<and> (frames = [] \<longrightarrow> r = None)"
proof (cases "frames = [] \<or> Some frames \<noteq> frames_key s")
  case True
  then show ?thesis by (auto simp: ps_advance_def ps_current_def ps_inv_def)
next
  case False
  then have key: "frames \<noteq> []" "frames_key s = Some frames" by auto
  with assms obtain started where "frame_started_at s = Some started" and "frame_index s < length frames"
    by (auto simp: ps_inv_def)
  with key show ?thesis
    by (auto simp: ps_advance_def ps_current_def ps_inv_def)
qed

lemma ps_step_total: "ps_inv s \<Longrightarrow> \<exists>s'. ps_step e s = Inr s' \<and> ps_inv s'"
proof (cases e)
  case (PsAdvance frames now)
  assume "ps_inv s"
  then obtain s' r where "ps_advance frames now s = Inr (s', r)" and "ps_inv s'"
    using ps_advance_total [of s frames now] by blast
  with PsAdvance show ?thesis by (simp add: ps_step_def)
qed (simp add: ps_step_def ps_reset_def ps_inv_def)

interpretation ps: total_machine ps_step ps_inv
proof unfold_locales
  show "ps_inv s'" if "ps_inv s" and "ps_step e s = Inr s'" for s e s'
    using ps_step_total [OF that(1), of e] that(2) by auto
  show "is_ok (ps_step e s)" if "ps_inv s" for s e
    using ps_step_total [OF that, of e] by auto
qed

lemma ps_inv_init: "ps_inv ps_init"
  by (simp add: ps_inv_def ps_init_def)

definition rt_inv :: "rt_rotation \<Rightarrow> bool" where
  "rt_inv s \<longleftrightarrow> rt_mode s = Promo \<longrightarrow>
     mode_started_at s \<noteq> None \<and> (\<exists>ps. promos_key s = Some ps \<and> promo_index s < length ps)"

lemma rt_refresh_facts:
  assumes "rt_inv s"
  shows "\<exists>started. mode_started_at (rt_refresh ps now s) = Some started"
    and "promos_key (rt_refresh ps now s) = Some ps"
    and "rt_mode (rt_refresh ps now s) = rt_mode s"
    and "rt_mode s = Promo \<Longrightarrow> ps \<noteq> [] \<Longrightarrow> promo_index (rt_refresh ps now s) < length ps"
    and "rt_mode s = NowPlaying \<Longrightarrow> mode_started_at (rt_refresh ps now s)
           = (case mode_started_at s of None \<Rightarrow> Some now | Some t \<Rightarrow> Some t)"
  using assms by (auto simp: rt_refresh_def rt_inv_def Let_def split: option.splits)

lemma rt_switch_total:
  assumes "promos_key s = Some ps" and "rt_mode s = Promo \<Longrightarrow> ps \<noteq> [] \<Longrightarrow> promo_index s < length ps"
    and "mode_started_at s = Some started"
  shows "\<exists>s'. rt_switch m ps now started s = Inr s' \<and> rt_inv s' \<and> promos_key s' = Some ps
    \<and> (rt_mode s' = Promo \<longrightarrow> ps \<noteq> [] \<and> promo_index s' < length ps)
    \<and> (rt_mode s = NowPlaying \<and> rt_mode s' = Promo \<longrightarrow> m \<le> now - started)"
  using assms by (cases "rt_mode s") (auto simp: rt_switch_def rt_inv_def Let_def)

lemma rt_advance_total:
  assumes "rt_inv s"
  shows "\<exists>s' src name. rt_advance m ps now s = Inr (s', src, name) \<and> rt_inv s'
    \<and> (src = Promo \<longleftrightarrow> rt_mode s' = Promo)
    \<and> (src = Promo \<longrightarrow> promo_index s' < length ps \<and> name = Some (fst (ps ! promo_index s')))
    \<and> (src = NowPlaying \<longrightarrow> name = None)
    \<and> (rt_mode s = NowPlaying \<and> src = Promo \<longrightarrow>
         (case mode_started_at s of None \<Rightarrow> m \<le> 0 | Some t \<Rightarrow> m \<le> now - t))"
proof -
  let ?r = "rt_refresh ps now s"
  note r = rt_refresh_facts [OF assms, of ps now]
  obtain started where st: "mode_started_at ?r = Some started" using r(1) by blast
  obtain s' where s': "rt_switch m ps now started ?r = Inr s'" "rt_inv s'"
    "rt_mode s' = Promo \<longrightarrow> ps \<noteq> [] \<and> promo_index s' < length ps"
    "rt_mode ?r = NowPlaying \<and> rt_mode s' = Promo \<longrightarrow> m \<le> now - started"
    using rt_switch_total [OF r(2) _ st, of m now] r(3,4) by auto
  have "rt_mode s = NowPlaying \<Longrightarrow> Some started = (case mode_started_at s of None \<Rightarrow> Some now | Some t \<Rightarrow> Some t)"
    using r(5) st by simp
  with s' show ?thesis
    by (auto simp: rt_advance_def Let_def st r(3) split: option.splits)
qed

interpretation rt: total_machine "rt_step m" rt_inv for m
proof unfold_locales
  fix s e s'
  assume "rt_inv s" and "rt_step m e s = Inr s'"
  with rt_advance_total [of s m "fst e" "snd e"] show "rt_inv s'"
    by (auto simp: rt_step_def bindR_eq_Inr)
next
  fix s e
  assume "rt_inv s"
  with rt_advance_total [of s m "fst e" "snd e"] show "is_ok (rt_step m e s)"
    by (auto simp: rt_step_def)
qed

lemma rt_inv_init: "rt_inv rt_init"
  by (simp add: rt_inv_def rt_init_def)

section \<open>What is shown, call after call\<close>

text \<open>The values returned by successive calls with one list at the given clock readings.\<close>

fun ps_show :: "(utext \<times> rat) list \<Rightarrow> rat list \<Rightarrow> ps_rotation \<Rightarrow> utext option list" where
  "ps_show frames [] s = []"
| "ps_show frames (now # ts) s =
     (case ps_advance frames now s of Inl _ \<Rightarrow> [] | Inr (s', shown) \<Rightarrow> shown # ps_show frames ts s')"

fun rt_show :: "rat \<Rightarrow> (utext \<times> rat) list \<Rightarrow> rat list \<Rightarrow> rt_rotation \<Rightarrow> (rt_mode \<times> utext option) list" where
  "rt_show m ps [] s = []"
| "rt_show m ps (now # ts) s =
     (case rt_advance m ps now s of Inl _ \<Rightarrow> [] | Inr (s', shown) \<Rightarrow> shown # rt_show m ps ts s')"

text \<open>Clock readings whose gaps are at least as long as every display time of the list.\<close>

fun spaced :: "rat \<Rightarrow> rat \<Rightarrow> rat list \<Rightarrow> bool" where
  "spaced d t [] = True"
| "spaced d t (now # ts) = (d \<le> now - t \<and> spaced d now ts)"

lemma upt_shift_Cons: "[Suc k..<Suc k + length (x # xs)] = Suc k # [Suc (Suc k)..<Suc (Suc k) + length xs]"
  by (simp add: upt_conv_Cons del: upt_Suc)

lemma ps_show_from:
  assumes "frames \<noteq> []" and "\<forall>f\<in>set frames. snd f \<le> d"
  shows "frames_key s = Some frames \<Longrightarrow> frame_index s = k mod length frames \<Longrightarrow>
    frame_started_at s = Some t \<Longrightarrow> spaced d t ts \<Longrightarrow>
    ps_show frames ts s = map (\<lambda>j. Some (fst (frames ! (j mod length frames)))) [Suc k..<Suc k + length ts]"
proof (induction ts arbitrary: s k t)
  case (Cons now ts)
  let ?n = "length frames"
  have lt: "k mod ?n < ?n" using assms(1) by simp
  have "snd (frames ! (k mod ?n)) \<le> d" using assms(2) lt by auto
  with Cons.prems have due: "snd (frames ! (k mod ?n)) \<le> now - t" by simp
  define s' where "s' = s\<lparr>frame_index := Suc k mod ?n, frame_started_at := Some now\<rparr>"
  have adv: "ps_advance frames now s = Inr (s', Some (fst (frames ! (Suc k mod ?n))))"
    using assms(1) Cons.prems due lt
    by (simp add: ps_advance_def ps_current_def s'_def mod_Suc_eq)
  have "ps_show frames ts s'
    = map (\<lambda>j. Some (fst (frames ! (j mod ?n)))) [Suc (Suc k)..<Suc (Suc k) + length ts]"
    using Cons.prems by (intro Cons.IH) (auto simp: s'_def)
  then show ?case unfolding upt_shift_Cons by (simp add: adv del: upt_Suc)
qed simp

lemma rt_show_from:
  assumes "ps \<noteq> []" and "\<forall>p\<in>set ps. snd p \<le> d" and "m \<le> d"
  defines "n \<equiv> Suc (length ps)"
  shows "promos_key s = Some ps \<Longrightarrow> mode_started_at s = Some t \<Longrightarrow>
    (case k mod n of 0 \<Rightarrow> rt_mode s = NowPlaying | Suc i \<Rightarrow> rt_mode s = Promo \<and> promo_index s = i) \<Longrightarrow>
    spaced d t ts \<Longrightarrow>
    rt_show m ps ts s = map (\<lambda>j. case j mod n of 0 \<Rightarrow> (NowPlaying, None)
       | Suc i \<Rightarrow> (Promo, Some (fst (ps ! i)))) [Suc k..<Suc k + length ts]"
proof (induction ts arbitrary: s k t)
  case (Cons now ts)
  let ?f = "\<lambda>j. case j mod n of 0 \<Rightarrow> (NowPlaying, None) | Suc i \<Rightarrow> (Promo, Some (fst (ps ! i)))"
  let ?P = "\<lambda>k s. case k mod n of 0 \<Rightarrow> rt_mode s = NowPlaying
     | Suc i \<Rightarrow> rt_mode s = Promo \<and> promo_index s = i"
  have gap: "d \<le> now - t" "m \<le> now - t" using Cons.prems(4) assms(3) by auto
  have refresh: "rt_refresh ps now s = s"
    using Cons.prems(1,2) by (cases s) (simp add: rt_refresh_def)
  have n: "0 < n" "1 < n" using assms(1) by (simp_all add: n_def)
  have lt: "k mod n < n" using n by simp
  have next_k: "Suc k mod n = (if Suc (k mod n) = n then 0 else Suc (k mod n))"
    by (simp add: mod_Suc)
  have "\<exists>s'. rt_advance m ps now s = Inr (s', ?f (Suc k)) \<and> promos_key s' = Some ps
    \<and> mode_started_at s' = Some now \<and> ?P (Suc k) s'"
  proof (cases "k mod n")
    case 0
    then show ?thesis
      using Cons.prems(1,2,3) gap assms(1) n next_k
      by (simp add: rt_advance_def refresh rt_switch_def)
  next
    case (Suc i)
    have i: "i < length ps" using Suc lt by (simp add: n_def)
    then have "snd (ps ! i) \<le> now - t" using assms(2) gap(1) by (meson nth_mem order_trans)
    then show ?thesis
      using Cons.prems(1,2,3) assms(1) Suc i next_k
      by (auto simp: rt_advance_def refresh rt_switch_def n_def)
  qed
  then obtain s' where s': "rt_advance m ps now s = Inr (s', ?f (Suc k))" "promos_key s' = Some ps"
    "mode_started_at s' = Some now" "?P (Suc k) s'" by blast
  have "rt_show m ps ts s' = map ?f [Suc (Suc k)..<Suc (Suc k) + length ts]"
    using Cons.prems(4) s'(4) by (intro Cons.IH [OF s'(2,3)]) simp_all
  then show ?case unfolding upt_shift_Cons by (simp add: s'(1) del: upt_Suc)
qed simp

section \<open>The properties\<close>

text \<open>After any sequence of calls of \<^verbatim>\<open>PSRotation\<close> (with any lists, at any clock readings,
  with resets in between) a further call raises neither IndexError nor TypeError: with an empty
  list it shows nothing; a changed list starts at its first frame; an unchanged list keeps its
  frame until that frame's hold time has passed since it was first shown, and then moves to the
  cyclically next one. The text returned is always a frame of the list passed in.\<close>

theorem ps_rotation_never_stuck:
  "let s = run ps_step es ps_init;
       due = (\<lambda>i. the (frame_started_at s) + snd (frames ! i) \<le> now)
   in \<exists>s' shown. ps_advance frames now s = Inr (s', shown) \<and>
     (if frames = [] then shown = None
      else shown = Some (fst (frames ! frame_index s')) \<and> frame_index s' < length frames \<and>
        (if frames_key s \<noteq> Some frames then frame_index s' = 0 \<and> frame_started_at s' = Some now
         else if due (frame_index s)
         then frame_index s' = (frame_index s + 1) mod length frames \<and> frame_started_at s' = Some now
         else frame_index s' = frame_index s \<and> frame_started_at s' = frame_started_at s))"
proof -
  define s where "s = run ps_step es ps_init"
  have "ps_inv s" unfolding s_def by (rule ps.run_inv [OF ps_inv_init])
  then have hold: "frame_index s < length frames \<and> (\<exists>t. frame_started_at s = Some t)"
    if "frames_key s = Some frames" using that by (auto simp: ps_inv_def)
  show ?thesis
  proof (cases "frames = [] \<or> frames_key s \<noteq> Some frames")
    case True
    then show ?thesis
      unfolding s_def [symmetric] Let_def by (auto simp: ps_advance_def ps_current_def)
  next
    case False
    with hold obtain t where "frame_index s < length frames" "frame_started_at s = Some t" by blast
    with False show ?thesis
      unfolding s_def [symmetric] Let_def
      by (simp add: ps_advance_def ps_current_def algebra_simps)
  qed
qed



text \<open>After any sequence of calls of \<^verbatim>\<open>RTRotation\<close> a further call raises nothing. It names a
  promo only from the list just passed in (none when that list is empty), and it leaves
  now-playing for a promo only once now-playing has been on for the configured minimum.\<close>

theorem rt_rotation_never_stuck:
  "let s = run (rt_step m) es rt_init in
   \<exists>s' src name. rt_advance m ps now s = Inr (s', src, name) \<and>
     (case src of NowPlaying \<Rightarrow> name = None
      | Promo \<Rightarrow> promo_index s' < length ps \<and> name = Some (fst (ps ! promo_index s')) \<and>
          (rt_mode s = Promo \<or> m \<le> now - (case mode_started_at s of None \<Rightarrow> now | Some t \<Rightarrow> t)))"
proof -
  define s where "s = run (rt_step m) es rt_init"
  have "rt_inv s" unfolding s_def by (rule rt.run_inv [OF rt_inv_init])
  from rt_advance_total [OF this, of m ps now] obtain s' src name where
    adv: "rt_advance m ps now s = Inr (s', src, name)"
    and shown: "src = Promo \<longrightarrow> promo_index s' < length ps \<and> name = Some (fst (ps ! promo_index s'))"
      "src = NowPlaying \<longrightarrow> name = None"
    and floor: "rt_mode s = NowPlaying \<and> src = Promo \<longrightarrow>
         (case mode_started_at s of None \<Rightarrow> m \<le> 0 | Some t \<Rightarrow> m \<le> now - t)" by blast
  show ?thesis
    unfolding s_def [symmetric] Let_def adv
    using shown floor by (cases "rt_mode s") (auto split: rt_mode.split option.splits)
qed

text \<open>RadioText rotation is fair in both directions: polled at intervals no shorter than the
  now-playing minimum and every display time, it shows now-playing, then every promo of the list
  in order, then now-playing again, for ever.\<close>

theorem rt_rotation_cycles:
  assumes "ps \<noteq> []" and "\<forall>p\<in>set ps. snd p \<le> d" and "m \<le> d" and "0 < m" and "spaced d t ts"
  shows "rt_show m ps (t # ts) rt_init
    = map (\<lambda>j. case j mod Suc (length ps) of 0 \<Rightarrow> (NowPlaying, None)
        | Suc i \<Rightarrow> (Promo, Some (fst (ps ! i)))) [0..<Suc (length ts)]"
proof -
  define s' where "s' = rt_init\<lparr>mode_started_at := Some t, promos_key := Some ps\<rparr>"
  have "rt_advance m ps t rt_init = Inr (s', NowPlaying, None)"
    using assms(4) by (simp add: rt_advance_def rt_refresh_def rt_switch_def rt_init_def s'_def)
  moreover have "rt_show m ps ts s' = map (\<lambda>j. case j mod Suc (length ps) of 0 \<Rightarrow> (NowPlaying, None)
        | Suc i \<Rightarrow> (Promo, Some (fst (ps ! i)))) [Suc 0..<Suc 0 + length ts]"
    by (rule rt_show_from [OF assms(1-3) _ _ _ assms(5)]) (simp_all add: s'_def rt_init_def)
  moreover have "[0..<Suc (length ts)] = 0 # [Suc 0..<Suc (length ts)]" by (rule upt_rec [THEN trans]) simp
  ultimately show ?thesis by (simp del: upt_Suc)
qed

theorem rt_rotation_cycles_witness:
  "rt_show 20 [([65], 5)] [0, 20, 40] rt_init
     = [(NowPlaying, None), (Promo, Some [65]), (NowPlaying, None)]"
  using rt_rotation_cycles [of "[([65], 5)]" 20 20 0 "[20, 40]"]
  by (simp add: numeral_2_eq_2)

end
