(* ===== verification/Air_Format.thy ===== *)
theory Air_Format
  imports Air_Text
begin

text \<open>
  Python's format strings as far as the stations' templates use them: \<^verbatim>\<open>string.Formatter().parse\<close>, which reads
  one piece of literal text and at most one replacement field at a time, and \<^verbatim>\<open>str.format\<close> with keyword
  arguments. What \<^verbatim>\<open>str.format\<close> does with a field that is not just the name of an argument (attributes,
  indices, conversions, specifications) is an argument. What an author can write and read back is a list of segments.
\<close>

section \<open>Parsing\<close>

text \<open>Name, specification and conversion; a conversion by the character 0 counts as none.\<close>

type_synonym replacement = "utext \<times> utext \<times> nat option"

record markup =
  literal :: utext
  field :: "replacement option"

text \<open>The name of a field up to its end, which is a closing brace, a colon or an exclamation mark outside brackets.\<close>

fun scan_name :: "bool \<Rightarrow> utext \<Rightarrow> (utext \<times> nat \<times> utext) py" where
  "scan_name inside [] = Inl ValueError"
| "scan_name inside (c # cs) =
     (if inside then bindR (scan_name (c \<noteq> 93) cs) (\<lambda>(n, r). Inr (c # n, r))
      else if c = 123 then Inl ValueError
      else if c = 125 \<or> c = 58 \<or> c = 33 then Inr ([], c, cs)
      else bindR (scan_name (c = 91) cs) (\<lambda>(n, r). Inr (c # n, r)))"

text \<open>The specification up to the brace that closes the field.\<close>

fun scan_spec :: "nat \<Rightarrow> utext \<Rightarrow> (utext \<times> utext) py" where
  "scan_spec depth [] = Inl ValueError"
| "scan_spec depth (c # cs) =
     (if c = 125 \<and> depth \<le> 1 then Inr ([], cs)
      else bindR (scan_spec (if c = 123 then Suc depth else if c = 125 then depth - 1 else depth) cs) (\<lambda>(s, r). Inr (c # s, r)))"

definition with_spec :: "utext \<Rightarrow> nat option \<Rightarrow> utext \<Rightarrow> (replacement \<times> utext) py" where
  "with_spec name conversion rest = bindR (scan_spec 1 rest) (\<lambda>(s, r). Inr ((name, s, conversion), r))"

definition parse_field :: "utext \<Rightarrow> (replacement \<times> utext) py" where
  "parse_field t = bindR (scan_name False t) (\<lambda>(name, c, rest).
     if c = 125 then Inr ((name, [], None), rest)
     else if c = 58 then with_spec name None rest
     else case rest of
       [] \<Rightarrow> Inl ValueError
     | k # after \<Rightarrow>
         let conversion = (if k = 0 then None else Some k) in
         case after of [] \<Rightarrow> Inl ValueError
         | d # left \<Rightarrow> if d = 125 then Inr ((name, [], conversion), left)
                       else if d = 58 then with_spec name conversion left else Inl ValueError)"

definition is_brace :: "nat \<Rightarrow> bool" where "is_brace c \<longleftrightarrow> c = 123 \<or> c = 125"

definition next_markup :: "utext \<Rightarrow> (markup \<times> utext) py" where
  "next_markup t =
     (let text = takeWhile (\<lambda>c. \<not> is_brace c) t in
      case dropWhile (\<lambda>c. \<not> is_brace c) t of
        [] \<Rightarrow> Inr (\<lparr>literal = text, field = None\<rparr>, [])
      | [c] \<Rightarrow> Inl ValueError
      | c # d # rest \<Rightarrow>
          if c = d then Inr (\<lparr>literal = text @ [c], field = None\<rparr>, rest)
          else if c = 125 then Inl ValueError
          else bindR (parse_field (d # rest)) (\<lambda>(f, r). Inr (\<lparr>literal = text, field = Some f\<rparr>, r)))"

lemma scan_name_shorter: "scan_name inside t = Inr (n, c, r) \<Longrightarrow> length r < length t"
  by (induction inside t arbitrary: n rule: scan_name.induct) (force simp: bindR_eq_Inr split: if_splits)+

lemma scan_spec_shorter: "scan_spec k t = Inr (s, r) \<Longrightarrow> length r < length t"
  by (induction k t arbitrary: s rule: scan_spec.induct) (force simp: bindR_eq_Inr split: if_splits)+

lemma parse_field_shorter:
  assumes "parse_field t = Inr (f, r)"
  shows "length r < length t"
proof -
  obtain name c rest where scan: "scan_name False t = Inr (name, c, rest)"
    using assms by (auto simp: parse_field_def bindR_eq_Inr)
  have "length r \<le> length rest"
    using assms scan
    by (auto simp: parse_field_def with_spec_def bindR_eq_Inr Let_def dest!: scan_spec_shorter split: if_splits list.splits)
  then show ?thesis using scan_name_shorter [OF scan] by simp
qed

lemma next_markup_shorter:
  assumes "next_markup t = Inr (m, r)" and "t \<noteq> []"
  shows "length r < length t"
proof -
  have le: "length (dropWhile (\<lambda>c. \<not> is_brace c) t) \<le> length t" by (rule length_dropWhile_le)
  show ?thesis
    using assms le
    by (auto simp: next_markup_def Let_def bindR_eq_Inr dest!: parse_field_shorter split: list.splits if_splits)
qed

text \<open>\<^verbatim>\<open>list(string.Formatter().parse(t))\<close>.\<close>

function parse_template :: "utext \<Rightarrow> markup list py" where
  "parse_template t =
     (if t = [] then Inr []
      else case next_markup t of Inl e \<Rightarrow> Inl e
      | Inr (m, rest) \<Rightarrow> bindR (parse_template rest) (\<lambda>ms. Inr (m # ms)))"
  by pat_completeness auto
termination by (relation "measure length") (auto dest: next_markup_shorter)

declare parse_template.simps [simp del]

section \<open>Formatting\<close>

datatype format_error = Format_Key | Format_Index | Format_Value | Format_Other

definition replaced :: "(replacement \<Rightarrow> format_error + utext) \<Rightarrow> (utext \<Rightarrow> utext option) \<Rightarrow> replacement option \<Rightarrow> format_error + utext" where
  "replaced special vals f =
     (case f of None \<Rightarrow> Inr []
      | Some (name, spec, conversion) \<Rightarrow>
          (case vals name of None \<Rightarrow> special (name, spec, conversion)
           | Some v \<Rightarrow> if spec = [] \<and> conversion = None then Inr v else special (name, spec, conversion)))"

text \<open>\<^verbatim>\<open>t.format(**vals)\<close>, which replaces each field before it reads on.\<close>

function format_template :: "(replacement \<Rightarrow> format_error + utext) \<Rightarrow> (utext \<Rightarrow> utext option) \<Rightarrow> utext \<Rightarrow> format_error + utext" where
  "format_template special vals t =
     (if t = [] then Inr []
      else case next_markup t of Inl e \<Rightarrow> Inl Format_Value
      | Inr (m, rest) \<Rightarrow> bindR (replaced special vals (field m)) (\<lambda>v.
          bindR (format_template special vals rest) (\<lambda>s. Inr (literal m @ v @ s))))"
  by pat_completeness auto
termination by (relation "measure (\<lambda>(special, vals, t). length t)") (auto dest: next_markup_shorter)

declare format_template.simps [simp del]

text \<open>Any field but the bare name of an argument is refused.\<close>

definition plain_field :: "utext set \<Rightarrow> replacement option \<Rightarrow> bool" where
  "plain_field names f = (case f of None \<Rightarrow> True | Some (name, spec, conversion) \<Rightarrow> name \<in> names \<and> spec = [] \<and> conversion = None)"

definition piece :: "(utext \<Rightarrow> utext option) \<Rightarrow> markup \<Rightarrow> utext" where
  "piece vals m = literal m @ (case field m of None \<Rightarrow> [] | Some (name, _) \<Rightarrow> (case vals name of None \<Rightarrow> [] | Some v \<Rightarrow> v))"

lemma parse_NilI [simp]: "parse_template [] = Inr []"
  by (simp add: parse_template.simps)

lemma format_Nil [simp]: "format_template special vals [] = Inr []"
  by (simp add: format_template.simps)

text \<open>A template of plain fields always formats, and what is put in is not read again.\<close>

lemma format_plain:
  assumes "parse_template t = Inr ms" and "list_all (\<lambda>m. plain_field names (field m)) ms" and "names \<subseteq> dom vals"
  shows "format_template special vals t = Inr (concat (map (piece vals) ms))"
  using assms
proof (induction t arbitrary: ms rule: parse_template.induct)
  case (1 t)
  show ?case
  proof (cases "t = []")
    case True
    then show ?thesis using 1 by simp
  next
    case False
    then obtain m rest ms' where step: "next_markup t = Inr (m, rest)" and rest: "parse_template rest = Inr ms'" "ms = m # ms'"
      using "1.prems"(1) by (auto simp: parse_template.simps [of t] bindR_eq_Inr split: sum.splits)
    then have "format_template special vals rest = Inr (concat (map (piece vals) ms'))"
      using 1 False by auto
    moreover have "replaced special vals (field m) = Inr (drop (length (literal m)) (piece vals m))"
      using "1.prems"(2,3) rest(2) by (auto simp: replaced_def piece_def plain_field_def split: option.splits)
    moreover have "literal m @ drop (length (literal m)) (piece vals m) = piece vals m" by (simp add: piece_def)
    ultimately show ?thesis using False step rest(2) by (simp add: format_template.simps [of special vals t])
  qed
qed

section \<open>What an author types\<close>

datatype segment = Words utext | Place utext

fun typed :: "segment \<Rightarrow> utext" where
  "typed (Words w) = concat (map (\<lambda>c. if is_brace c then [c, c] else [c]) w)"
| "typed (Place n) = 123 # n @ [125]"

fun meant :: "(utext \<Rightarrow> utext option) \<Rightarrow> segment \<Rightarrow> utext" where
  "meant vals (Words w) = w"
| "meant vals (Place n) = (case vals n of None \<Rightarrow> [] | Some v \<Rightarrow> v)"

definition simple_name :: "utext \<Rightarrow> bool" where
  "simple_name n \<longleftrightarrow> n \<noteq> [] \<and> list_all (\<lambda>c. c \<notin> {123, 125, 58, 33, 91}) n"

fun well_placed :: "utext set \<Rightarrow> segment \<Rightarrow> bool" where
  "well_placed names (Words w) = True"
| "well_placed names (Place n) = (n \<in> names \<and> simple_name n)"

text \<open>The plain templates, with what they format to, read from the front.\<close>

definition reads_as :: "utext set \<Rightarrow> (utext \<Rightarrow> utext option) \<Rightarrow> utext \<Rightarrow> utext \<Rightarrow> bool" where
  "reads_as names vals t s \<longleftrightarrow> (\<exists>ms. parse_template t = Inr ms \<and> list_all (\<lambda>m. plain_field names (field m)) ms \<and> concat (map (piece vals) ms) = s)"

lemma next_char:
  assumes "\<not> is_brace c"
  shows "next_markup (c # t) = bindR (next_markup t) (\<lambda>(m, r). Inr (m\<lparr>literal := c # literal m\<rparr>, r))"
  using assms by (auto simp: next_markup_def Let_def bindR_def simp del: dropWhile_eq_Nil_conv split: list.split sum.split)

lemma reads_char:
  assumes "reads_as names vals t s" and "\<not> is_brace c"
  shows "reads_as names vals (c # t) (c # s)"
proof (cases "t = []")
  case True
  then have "s = []" using assms(1) by (auto simp: reads_as_def)
  then show ?thesis using True assms(2)
    by (auto simp: reads_as_def parse_template.simps [of "[c]"] next_markup_def plain_field_def piece_def)
next
  case False
  obtain m rest ms where step: "next_markup t = Inr (m, rest)" "parse_template rest = Inr ms"
    "list_all (\<lambda>m. plain_field names (field m)) (m # ms)" "concat (map (piece vals) (m # ms)) = s"
    using assms(1) False by (auto simp: reads_as_def parse_template.simps [of t] bindR_eq_Inr split: sum.splits)
  then have "parse_template (c # t) = Inr (m\<lparr>literal := c # literal m\<rparr> # ms)"
    using assms(2) by (simp add: parse_template.simps [of "c # t"] next_char)
  then show ?thesis using step by (auto simp: reads_as_def piece_def)
qed

lemma reads_brace:
  assumes "reads_as names vals t s" and "is_brace c"
  shows "reads_as names vals (c # c # t) (c # s)"
proof -
  have "next_markup (c # c # t) = Inr (\<lparr>literal = [c], field = None\<rparr>, t)" using assms(2) by (simp add: next_markup_def)
  then have "parse_template (c # c # t) = bindR (parse_template t) (\<lambda>ms. Inr (\<lparr>literal = [c], field = None\<rparr> # ms))"
    by (simp add: parse_template.simps [of "c # c # t"])
  then show ?thesis using assms(1) by (auto simp: reads_as_def plain_field_def piece_def)
qed

lemma scan_simple: "list_all (\<lambda>c. c \<notin> {123, 125, 58, 33, 91}) n \<Longrightarrow> scan_name False (n @ 125 # t) = Inr (n, 125, t)"
  by (induction n) auto

lemma reads_place:
  assumes "reads_as names vals t s" and "n \<in> names" and "simple_name n"
  shows "reads_as names vals (123 # n @ 125 # t) (meant vals (Place n) @ s)"
proof -
  obtain d ds where n: "n = d # ds" using assms(3) by (cases n) (auto simp: simple_name_def)
  then have "d \<noteq> 123" using assms(3) by (simp add: simple_name_def)
  moreover have "parse_field (n @ 125 # t) = Inr ((n, [], None), t)"
    using assms(3) by (simp add: parse_field_def simple_name_def scan_simple)
  ultimately have "next_markup (123 # n @ 125 # t) = Inr (\<lparr>literal = [], field = Some (n, [], None)\<rparr>, t)"
    using n by (simp add: next_markup_def is_brace_def)
  then have "parse_template (123 # n @ 125 # t) = bindR (parse_template t) (\<lambda>ms. Inr (\<lparr>literal = [], field = Some (n, [], None)\<rparr> # ms))"
    by (simp add: parse_template.simps [of "123 # n @ 125 # t"])
  then show ?thesis using assms(1,2) by (auto simp: reads_as_def plain_field_def piece_def)
qed

lemma reads_words:
  "reads_as names vals t s \<Longrightarrow> reads_as names vals (typed (Words w) @ t) (w @ s)"
  by (induction w) (auto simp: reads_char reads_brace)

lemma reads_segments:
  "list_all (well_placed names) segs \<Longrightarrow> reads_as names vals (concat (map typed segs)) (concat (map (meant vals) segs))"
proof (induction segs)
  case Nil
  then show ?case by (simp add: reads_as_def)
next
  case (Cons g segs)
  then show ?case using reads_words reads_place by (cases g) force+
qed

end
