(* ===== verification/Rds_Dynamic_Ps.thy ===== *)
theory Rds_Dynamic_Ps
  imports Rds_Charset Air_Text
begin

text \<open>
  \<^verbatim>\<open>rbds/services/dynamic_ps.py\<close>: the four modes that cut a text into 8-character PS frames.
  The template stage in front of it (\<^verbatim>\<open>compose_dynamic_ps_source\<close>, which rests on
  \<^verbatim>\<open>string.Formatter\<close>) is not modelled; \<open>generate_ps_frames\<close> takes its result.
\<close>

definition PS_FRAME_WIDTH :: nat where
  "PS_FRAME_WIDTH = 8"

definition blank_frame :: utext where
  "blank_frame = replicate PS_FRAME_WIDTH 32"

definition fixed_chunks :: "utext \<Rightarrow> utext list" where
  "fixed_chunks t =
     (if t = [] then [blank_frame]
      else let chunks = map (\<lambda>i. take PS_FRAME_WIDTH (drop (PS_FRAME_WIDTH * i) t))
                          [0..<(length t + PS_FRAME_WIDTH - 1) div PS_FRAME_WIDTH]
           in butlast chunks @ [ljust PS_FRAME_WIDTH (last chunks)])"

definition sliding_window :: "utext \<Rightarrow> utext list" where
  "sliding_window t =
     (if length t \<le> PS_FRAME_WIDTH then [ljust PS_FRAME_WIDTH t]
      else map (\<lambda>i. take PS_FRAME_WIDTH (drop i t)) [0..<length t - PS_FRAME_WIDTH + 1])"

text \<open>\<^verbatim>\<open>text.split()\<close>: the maximal runs of non-space characters.\<close>

function py_split :: "utext \<Rightarrow> utext list" where
  "py_split t =
     (case dropWhile py_isspace t of
        [] \<Rightarrow> []
      | c # cs \<Rightarrow> (c # takeWhile (\<lambda>x. \<not> py_isspace x) cs)
                   # py_split (dropWhile (\<lambda>x. \<not> py_isspace x) cs))"
  by pat_completeness auto
termination
  by (relation "measure length")
     (auto dest!: length_dropWhile_less intro: le_less_trans [OF length_dropWhile_le])

declare py_split.simps [simp del]

text \<open>One turn of the loop of \<^verbatim>\<open>_word_aligned\<close>, over the frames so far and the current line.\<close>

definition word_step :: "utext list \<times> utext \<Rightarrow> utext \<Rightarrow> utext list \<times> utext" where
  "word_step st word =
     (let (frames, current) = st in
      if length word > PS_FRAME_WIDTH then
        ((if current \<noteq> [] then frames @ [ljust PS_FRAME_WIDTH current] else frames) @ fixed_chunks word, [])
      else let candidate = (if current = [] then word else current @ 32 # word) in
        if length candidate \<le> PS_FRAME_WIDTH then (frames, candidate)
        else (frames @ [ljust PS_FRAME_WIDTH current], word))"

definition word_aligned :: "utext \<Rightarrow> utext list" where
  "word_aligned t =
     (let words = py_split t in
      if words = [] then [blank_frame]
      else let (frames, current) = foldl word_step ([], []) words in
           if current \<noteq> [] then frames @ [ljust PS_FRAME_WIDTH current] else frames)"

definition scroll_with_blank :: "utext \<Rightarrow> utext list" where
  "scroll_with_blank t =
     (if t = [] then [blank_frame] else sliding_window (blank_frame @ t @ blank_frame))"

definition generate_ps_frames :: "(utext \<Rightarrow> utext) \<Rightarrow> utext \<Rightarrow> int \<Rightarrow> utext list py" where
  "generate_ps_frames nfc t mode =
     (if mode \<notin> {0, 1, 2, 3} then Inl ValueError
      else let normalized = normalize_text nfc t in
        if mode = 0 then Inr (fixed_chunks normalized)
        else if mode = 1 then Inr (sliding_window normalized)
        else if mode = 2 then Inr (word_aligned normalized)
        else Inr (scroll_with_blank normalized))"

section \<open>Fixed cells and sliding windows\<close>

lemma width_pos [simp]: "0 < PS_FRAME_WIDTH"
  by (simp add: PS_FRAME_WIDTH_def)

lemma length_blank_frame [simp]: "length blank_frame = PS_FRAME_WIDTH"
  by (simp add: blank_frame_def)

lemma ljust_Nil [simp]: "ljust PS_FRAME_WIDTH [] = blank_frame"
  by (simp add: ljust_def blank_frame_def)

lemma fixed_chunks_short:
  assumes "t \<noteq> []" and "length t \<le> PS_FRAME_WIDTH"
  shows "fixed_chunks t = [ljust PS_FRAME_WIDTH t]"
proof -
  have "(7 + length t) div 8 = 1" using assms by (cases "length t") (auto simp: PS_FRAME_WIDTH_def)
  then show ?thesis using assms by (simp add: fixed_chunks_def PS_FRAME_WIDTH_def Let_def)
qed

lemma fixed_chunks_long:
  assumes "PS_FRAME_WIDTH < length t"
  shows "fixed_chunks t = take PS_FRAME_WIDTH t # fixed_chunks (drop PS_FRAME_WIDTH t)"
proof -
  define n where "n = (length t - 8 + 7) div 8"
  have n: "(7 + length t) div 8 = Suc n"
  proof -
    have "7 + length t = length t - 8 + 7 + 8" using assms by (simp add: PS_FRAME_WIDTH_def)
    then show ?thesis unfolding n_def by (metis add.commute div_add_self1 plus_1_eq_Suc zero_neq_numeral)
  qed
  have "0 < n" using assms unfolding n_def PS_FRAME_WIDTH_def by linarith
  let ?f = "\<lambda>i. take 8 (drop (8 * i) (t :: utext))"
  let ?g = "\<lambda>i. take 8 (drop (8 * i) (drop 8 t))"
  have fg: "map ?f [0..<Suc n] = take 8 t # map ?g [0..<n]"
    by (simp add: map_upt_Suc add.commute del: upt_Suc)
  have ne: "t \<noteq> []" "drop 8 t \<noteq> []" using assms by (auto simp: PS_FRAME_WIDTH_def)
  have "fixed_chunks t = butlast (map ?f [0..<Suc n]) @ [ljust 8 (last (map ?f [0..<Suc n]))]"
    using ne n by (simp add: fixed_chunks_def PS_FRAME_WIDTH_def Let_def del: upt_Suc)
  also have "\<dots> = take 8 t # butlast (map ?g [0..<n]) @ [ljust 8 (last (map ?g [0..<n]))]"
    unfolding fg using \<open>0 < n\<close> by simp
  also have "\<dots> = take 8 t # fixed_chunks (drop 8 t)"
    using ne(2) by (simp add: fixed_chunks_def PS_FRAME_WIDTH_def n_def Let_def add.commute)
  finally show ?thesis by (simp add: PS_FRAME_WIDTH_def)
qed

text \<open>Induction on a text in steps of one cell.\<close>

lemma cell_induct [case_names empty short long]:
  assumes "P []"
    and "\<And>t. t \<noteq> [] \<Longrightarrow> length t \<le> PS_FRAME_WIDTH \<Longrightarrow> P t"
    and "\<And>t. PS_FRAME_WIDTH < length t \<Longrightarrow> P (drop PS_FRAME_WIDTH t) \<Longrightarrow> P t"
  shows "P (t :: utext)"
proof (induction t rule: measure_induct_rule [of length])
  case (less t)
  then show ?case
    using assms by (cases "t = []"; cases "length t \<le> PS_FRAME_WIDTH") (auto simp: not_le)
qed

lemma fixed_chunks_Nil [simp]: "fixed_chunks [] = [blank_frame]"
  by (simp add: fixed_chunks_def)

lemma fixed_chunks_width: "f \<in> set (fixed_chunks t) \<Longrightarrow> length f = PS_FRAME_WIDTH"
  by (induction t rule: cell_induct) (auto simp: fixed_chunks_short fixed_chunks_long)

lemma fixed_chunks_nonempty [simp]: "fixed_chunks t \<noteq> []"
  by (induction t rule: cell_induct) (auto simp: fixed_chunks_short fixed_chunks_long)

lemma concat_fixed_chunks:
  "\<exists>k. concat (fixed_chunks t) = t @ replicate k 32 \<and> (t \<noteq> [] \<longrightarrow> k < PS_FRAME_WIDTH)"
proof (induction t rule: cell_induct)
  case empty
  show ?case by (auto simp: blank_frame_def)
next
  case (short t)
  then show ?case by (auto simp: fixed_chunks_short ljust_def intro!: exI [of _ "PS_FRAME_WIDTH - length t"])
next
  case (long t)
  then show ?case by (auto simp: fixed_chunks_long simp flip: append_assoc)
qed

lemma sliding_window_width: "f \<in> set (sliding_window t) \<Longrightarrow> length f = PS_FRAME_WIDTH"
  by (auto simp: sliding_window_def split: if_splits)

lemma sliding_window_nonempty [simp]: "sliding_window t \<noteq> []"
  by (auto simp: sliding_window_def)

text \<open>The text a scrolling display shows: the first character of every frame but the last, then the last.\<close>

definition scrolled :: "utext list \<Rightarrow> utext" where
  "scrolled fs = map hd (butlast fs) @ last fs"

lemma sliding_window_scrolled: "scrolled (sliding_window t) = ljust PS_FRAME_WIDTH t"
proof (cases "length t \<le> PS_FRAME_WIDTH")
  case True
  then show ?thesis by (simp add: sliding_window_def scrolled_def)
next
  case False
  define n where "n = length t - PS_FRAME_WIDTH"
  have n: "n < length t" "length t = n + PS_FRAME_WIDTH" using False by (auto simp: n_def PS_FRAME_WIDTH_def)
  have "scrolled (sliding_window t)
    = map (\<lambda>i. hd (take PS_FRAME_WIDTH (drop i t))) [0..<n] @ take PS_FRAME_WIDTH (drop n t)"
    using False by (simp add: scrolled_def sliding_window_def n_def butlast_append)
  also have "map (\<lambda>i. hd (take PS_FRAME_WIDTH (drop i t))) [0..<n] = map (\<lambda>i. t ! i) [0..<n]"
    using n by (intro map_cong) (simp_all add: hd_drop_conv_nth)
  also have "map (\<lambda>i. t ! i) [0..<n] = take n t"
    using n by (intro nth_equalityI) simp_all
  also have "take PS_FRAME_WIDTH (drop n t) = drop n t" using n by simp
  finally show ?thesis using False by simp
qed

lemma sliding_window_shift:
  "list_all2 (\<lambda>a b. take (PS_FRAME_WIDTH - 1) b = drop 1 a) (butlast (sliding_window t)) (tl (sliding_window t))"
proof (cases "length t \<le> PS_FRAME_WIDTH")
  case True
  then show ?thesis by (simp add: sliding_window_def)
next
  case False
  then show ?thesis
    by (auto simp: list_all2_conv_all_nth sliding_window_def nth_butlast nth_tl drop_take take_take min_def
        simp del: upt_Suc)
qed

section \<open>Words\<close>

lemma dropWhile_all_Nil: "\<forall>x\<in>set t. P x \<Longrightarrow> dropWhile P t = []"
  by simp

lemma py_split_Nil [simp]: "py_split [] = []"
  by (simp add: py_split.simps)

lemma py_split_space [simp]: "py_isspace c \<Longrightarrow> py_split (c # cs) = py_split cs"
  by (subst py_split.simps, subst (2) py_split.simps) simp

lemma py_split_word:
  "\<not> py_isspace c \<Longrightarrow> py_split (c # cs)
    = (c # takeWhile (\<lambda>x. \<not> py_isspace x) cs) # py_split (dropWhile (\<lambda>x. \<not> py_isspace x) cs)"
  by (subst py_split.simps) simp

definition is_word :: "utext \<Rightarrow> bool" where
  "is_word w \<longleftrightarrow> w \<noteq> [] \<and> list_all (\<lambda>c. \<not> py_isspace c) w"

lemma py_split_words: "w \<in> set (py_split t) \<Longrightarrow> is_word w"
proof (induction t rule: py_split.induct)
  case (1 t)
  show ?case
  proof (cases "dropWhile py_isspace t")
    case Nil
    then have "py_split t = []" by (subst py_split.simps) (simp add: dropWhile_all_Nil)
    with 1(2) show ?thesis by simp
  next
    case (Cons c cs)
    then have "\<not> py_isspace c" by (metis dropWhile_decomp)
    have "py_split t = (c # takeWhile (\<lambda>x. \<not> py_isspace x) cs) # py_split (dropWhile (\<lambda>x. \<not> py_isspace x) cs)"
      using Cons by (subst py_split.simps) simp
    with 1(2) consider "w = c # takeWhile (\<lambda>x. \<not> py_isspace x) cs"
      | "w \<in> set (py_split (dropWhile (\<lambda>x. \<not> py_isspace x) cs))" by auto
    then show ?thesis
    proof cases
      case 1
      with \<open>\<not> py_isspace c\<close> show ?thesis by (auto simp: is_word_def list_all_iff dest: set_takeWhileD)
    next
      case 2
      then show ?thesis by (rule 1(1) [OF Cons])
    qed
  qed
qed

lemma py_split_word_only: "is_word w \<Longrightarrow> py_split w = [w]"
proof (cases w)
  case (Cons c cs)
  assume "is_word w"
  then have "takeWhile (\<lambda>x. \<not> py_isspace x) cs = cs" and "\<forall>x\<in>set cs. \<not> py_isspace x"
    and "\<not> py_isspace c"
    using Cons by (auto simp: is_word_def list_all_iff takeWhile_eq_all_conv)
  with Cons show ?thesis by (simp add: py_split_word dropWhile_all_Nil)
qed (simp add: is_word_def)

lemma py_split_append: "py_isspace s \<Longrightarrow> py_split (a @ s # b) = py_split a @ py_split b"
proof (induction a rule: measure_induct_rule [of length])
  case (less a)
  show ?case
  proof (cases a)
    case (Cons c cs)
    show ?thesis
    proof (cases "py_isspace c")
      case True
      then show ?thesis using less Cons by simp
    next
      case word: False
      let ?P = "\<lambda>x. \<not> py_isspace x"
      have split_at: "takeWhile ?P (cs @ s # b) = takeWhile ?P cs"
        using less.prems by (cases "\<forall>x\<in>set cs. ?P x") (auto simp: takeWhile_append1 takeWhile_append2 takeWhile_eq_all_conv [THEN iffD2])
      have "py_split (dropWhile ?P (cs @ s # b)) = py_split (dropWhile ?P cs) @ py_split b"
      proof (cases "\<forall>x\<in>set cs. ?P x")
        case True
        then have "dropWhile ?P (cs @ s # b) = s # b"
          using less.prems by (auto simp: dropWhile_append2)
        then show ?thesis using less.prems True by (simp add: dropWhile_all_Nil)
      next
        case False
        then have "dropWhile ?P (cs @ s # b) = dropWhile ?P cs @ s # b"
          by (auto simp: dropWhile_append1)
        moreover have "length (dropWhile ?P cs) < length a"
          using Cons by (simp add: le_imp_less_Suc length_dropWhile_le)
        ultimately show ?thesis using less by simp
      qed
      with word Cons split_at show ?thesis by (simp add: py_split_word)
    qed
  qed (use less in simp)
qed

lemma py_split_padded: "py_split (t @ replicate k 32) = py_split t"
proof (induction k)
  case (Suc k)
  have "py_split (t @ replicate (Suc k) 32) = py_split ((t @ replicate k 32) @ 32 # [])"
    by (simp add: replicate_append_same)
  also have "\<dots> = py_split t" using Suc by (subst py_split_append) simp_all
  finally show ?case .
qed simp

lemma py_split_ljust [simp]: "py_split (ljust n t) = py_split t"
  by (simp add: ljust_def py_split_padded)

text \<open>A word in the pieces it is shown in: whole if it fits a frame, in cells of eight otherwise.\<close>

function word_pieces :: "utext \<Rightarrow> utext list" where
  "word_pieces w = (if length w \<le> PS_FRAME_WIDTH then [w]
     else take PS_FRAME_WIDTH w # word_pieces (drop PS_FRAME_WIDTH w))"
  by pat_completeness auto
termination by (relation "measure length") (auto simp: PS_FRAME_WIDTH_def)

declare word_pieces.simps [simp del]

lemma fixed_chunks_word: "is_word w \<Longrightarrow> concat (map py_split (fixed_chunks w)) = word_pieces w"
proof (induction w rule: cell_induct)
  case empty
  then show ?case by (simp add: is_word_def)
next
  case (short w)
  then show ?case by (simp add: fixed_chunks_short word_pieces.simps py_split_word_only)
next
  case (long w)
  then have "is_word (take PS_FRAME_WIDTH w)" and "is_word (drop PS_FRAME_WIDTH w)"
    by (auto simp: is_word_def list_all_iff dest: in_set_takeD in_set_dropD)
  with long show ?case by (simp add: fixed_chunks_long word_pieces.simps [of w] py_split_word_only)
qed

lemma word_step_words:
  assumes "is_word w" and "word_step (frames, current) w = (frames', current')"
  shows "concat (map py_split frames') @ py_split current'
    = (concat (map py_split frames) @ py_split current) @ word_pieces w"
  using assms
  by (auto simp: word_step_def Let_def fixed_chunks_word py_split_append py_split_word_only
      word_pieces.simps [of w] split: if_splits)

lemma word_fold_words:
  assumes "list_all is_word ws" and "foldl word_step (frames, current) ws = (frames', current')"
  shows "concat (map py_split frames') @ py_split current'
    = (concat (map py_split frames) @ py_split current) @ concat (map word_pieces ws)"
  using assms
proof (induction ws arbitrary: frames current)
  case (Cons w ws)
  obtain f c where "word_step (frames, current) w = (f, c)" by fastforce
  with Cons word_step_words [of w frames current f c] show ?case by simp
qed simp

lemma word_step_width:
  assumes "list_all (\<lambda>f. length f = PS_FRAME_WIDTH) frames" and "length current \<le> PS_FRAME_WIDTH"
    and "word_step (frames, current) w = (frames', current')"
  shows "list_all (\<lambda>f. length f = PS_FRAME_WIDTH) frames' \<and> length current' \<le> PS_FRAME_WIDTH"
  using assms by (auto simp: word_step_def Let_def list_all_iff fixed_chunks_width split: if_splits)

lemma word_fold_width:
  assumes "list_all (\<lambda>f. length f = PS_FRAME_WIDTH) frames" and "length current \<le> PS_FRAME_WIDTH"
    and "foldl word_step (frames, current) ws = (frames', current')"
  shows "list_all (\<lambda>f. length f = PS_FRAME_WIDTH) frames' \<and> length current' \<le> PS_FRAME_WIDTH"
  using assms
proof (induction ws arbitrary: frames current)
  case (Cons w ws)
  obtain f c where "word_step (frames, current) w = (f, c)" by fastforce
  with word_step_width [OF Cons.prems(1,2), of w f c] Cons.prems(3) show ?case
    by (intro Cons.IH [of f c]) simp_all
qed simp

lemma word_aligned_words: "concat (map py_split (word_aligned t)) = concat (map word_pieces (py_split t))"
proof (cases "py_split t = []")
  case True
  have "py_split blank_frame = []" using py_split_ljust [of PS_FRAME_WIDTH "[]"] by simp
  with True show ?thesis by (simp add: word_aligned_def)
next
  case False
  obtain f c where fc: "foldl word_step ([], []) (py_split t) = (f, c)" by fastforce
  have "list_all is_word (py_split t)" by (simp add: list_all_iff py_split_words)
  from word_fold_words [OF this fc] False fc show ?thesis by (auto simp: word_aligned_def)
qed

lemma word_aligned_width: "list_all (\<lambda>f. length f = PS_FRAME_WIDTH) (word_aligned t)"
proof -
  obtain f c where fc: "foldl word_step ([], []) (py_split t) = (f, c)" by fastforce
  from word_fold_width [OF _ _ fc] show ?thesis by (auto simp: word_aligned_def Let_def fc)
qed

lemma word_aligned_nonempty: "word_aligned t \<noteq> []"
proof (cases "py_split t")
  case (Cons w ws)
  have "word_pieces w \<noteq> []" by (simp add: word_pieces.simps [of w])
  with Cons have "concat (map py_split (word_aligned t)) \<noteq> []" by (simp add: word_aligned_words)
  then show ?thesis by auto
qed (simp add: word_aligned_def)

lemma scroll_with_blank_width: "f \<in> set (scroll_with_blank t) \<Longrightarrow> length f = PS_FRAME_WIDTH"
  by (auto simp: scroll_with_blank_def dest: sliding_window_width split: if_splits)

lemma scroll_with_blank_scrolled:
  "scrolled (scroll_with_blank t) = (if t = [] then blank_frame else blank_frame @ t @ blank_frame)"
  by (auto simp: scroll_with_blank_def sliding_window_scrolled) (simp add: scrolled_def)

lemma scroll_with_blank_shift:
  "list_all2 (\<lambda>a b. take (PS_FRAME_WIDTH - 1) b = drop 1 a) (butlast (scroll_with_blank t)) (tl (scroll_with_blank t))"
  using sliding_window_shift by (auto simp: scroll_with_blank_def)

lemmas frame_widths = fixed_chunks_width sliding_window_width scroll_with_blank_width

section \<open>The properties\<close>

text \<open>\<^verbatim>\<open>generate_ps_frames\<close> raises exactly for an unknown mode; otherwise it returns at least
  one frame, and every frame has exactly 8 characters, so \<^verbatim>\<open>mec_ps\<close> neither cuts nor pads it.\<close>

theorem ps_frames_fit:
  "case generate_ps_frames nfc t mode of
     Inl e \<Rightarrow> e = ValueError \<and> mode \<notin> {0, 1, 2, 3}
   | Inr fs \<Rightarrow> mode \<in> {0, 1, 2, 3} \<and> fs \<noteq> [] \<and> list_all (\<lambda>f. length f = 8) fs"
proof (cases "mode \<in> {0, 1, 2, 3}")
  case True
  have wide: "list_all (\<lambda>f. length f = 8) (word_aligned u)" for u
    using word_aligned_width [of u] by (simp add: PS_FRAME_WIDTH_def)
  from True wide frame_widths show ?thesis
    by (auto simp: generate_ps_frames_def Let_def list_all_iff word_aligned_nonempty
        scroll_with_blank_def PS_FRAME_WIDTH_def)
qed (simp add: generate_ps_frames_def)

text \<open>Modes 0, 1 and 3 lose no character of the normalised text: the cells of mode 0 read one
  after the other are the text, padded with fewer than 8 spaces; in modes 1 and 3 each frame is
  the one before it moved on by one character, and what scrolls past is the padded text (mode 1)
  or the text between two blank cells (mode 3).\<close>

theorem ps_frames_scroll_past:
  "\<exists>fs0 fs1 fs3 k. generate_ps_frames nfc t 0 = Inr fs0 \<and> generate_ps_frames nfc t 1 = Inr fs1
     \<and> generate_ps_frames nfc t 3 = Inr fs3
     \<and> (let n = normalize_text nfc t;
            moves = (\<lambda>fs. list_all2 (\<lambda>a b. take 7 b = drop 1 a) (butlast fs) (tl fs)) in
          concat fs0 = n @ replicate k 32 \<and> k < (if n = [] then 9 else 8)
        \<and> moves fs1 \<and> scrolled fs1 = ljust 8 n
        \<and> moves fs3 \<and> scrolled fs3 = (if n = [] then replicate 8 32
              else replicate 8 32 @ n @ replicate 8 32))"
proof -
  let ?n = "normalize_text nfc t"
  obtain k where k: "concat (fixed_chunks ?n) = ?n @ replicate k 32" "?n \<noteq> [] \<longrightarrow> k < 8"
    using concat_fixed_chunks [of ?n] by (auto simp: PS_FRAME_WIDTH_def)
  have "k < (if ?n = [] then 9 else 8)"
  proof (cases "?n = []")
    case True
    with k(1) have "replicate k (32 :: nat) = replicate 8 32"
      by (simp add: blank_frame_def PS_FRAME_WIDTH_def)
    then have "length (replicate k (32 :: nat)) = length (replicate 8 (32 :: nat))" by (rule arg_cong)
    with True show ?thesis by simp
  qed (use k in simp)
  with k(1) show ?thesis
    using sliding_window_shift [of ?n] scroll_with_blank_shift [of ?n]
    by (intro exI [of _ "fixed_chunks ?n"] exI [of _ "sliding_window ?n"]
          exI [of _ "scroll_with_blank ?n"] exI [of _ k])
       (simp add: generate_ps_frames_def Let_def sliding_window_scrolled scroll_with_blank_scrolled
          PS_FRAME_WIDTH_def blank_frame_def)
qed

text \<open>Mode 2 keeps words together: reading the frames word by word gives the words of the
  normalised text in order, each one whole if it has at most 8 characters and cut into cells of
  8 otherwise; nothing is lost and nothing is added.\<close>

theorem ps_frames_keep_words:
  "\<exists>fs. generate_ps_frames nfc t 2 = Inr fs
     \<and> concat (map py_split fs) = concat (map word_pieces (py_split (normalize_text nfc t)))"
  by (intro exI [of _ "word_aligned (normalize_text nfc t)"])
     (simp add: generate_ps_frames_def word_aligned_words)

end
