(* ===== verification/Rds_Ps_Source.thy ===== *)
theory Rds_Ps_Source
  imports Air_Format Rds_Dynamic_Ps
begin

text \<open>
  The text that is cut into dynamic PS frames: \<^verbatim>\<open>compose_dynamic_ps_source\<close> and \<^verbatim>\<open>validate_dynamic_ps_format\<close> of
  \<^verbatim>\<open>rbds/services/dynamic_ps.py\<close>.
\<close>

definition PS_TEXT :: utext where "PS_TEXT = cps ''text''"
definition PS_NOW_PLAYING :: utext where "PS_NOW_PLAYING = cps ''now_playing''"
definition PS_ARTIST :: utext where "PS_ARTIST = cps ''artist''"
definition PS_TITLE :: utext where "PS_TITLE = cps ''title''"

definition DYNAMIC_PS_FORMAT_FIELDS :: "utext set" where
  "DYNAMIC_PS_FORMAT_FIELDS = {PS_TEXT, PS_NOW_PLAYING, PS_ARTIST, PS_TITLE}"

text \<open>Whether a field of the name comes before the first error of the text, if any.\<close>

function references_field :: "utext \<Rightarrow> utext \<Rightarrow> bool" where
  "references_field t name =
     (if t = [] then False
      else case next_markup t of Inl e \<Rightarrow> False
      | Inr (m, rest) \<Rightarrow> (case field m of None \<Rightarrow> False | Some (n, _) \<Rightarrow> n = name) \<or> references_field rest name)"
  by pat_completeness auto
termination by (relation "measure (\<lambda>(t, name). length t)") (auto dest: next_markup_shorter)

declare references_field.simps [simp del]

definition ps_field_refused :: "replacement option \<Rightarrow> bool" where
  "ps_field_refused f = (case f of None \<Rightarrow> False
     | Some (name, spec, conversion) \<Rightarrow> name = [] \<or> name \<notin> DYNAMIC_PS_FORMAT_FIELDS \<or> conversion \<noteq> None \<or> spec \<noteq> [])"

function validate_dynamic_ps_format :: "utext \<Rightarrow> unit py" where
  "validate_dynamic_ps_format t =
     (if t = [] then Inr ()
      else case next_markup t of Inl e \<Rightarrow> Inl ValueError
      | Inr (m, rest) \<Rightarrow> if ps_field_refused (field m) then Inl ValueError else validate_dynamic_ps_format rest)"
  by pat_completeness auto
termination by (relation "measure length") (auto dest: next_markup_shorter)

declare validate_dynamic_ps_format.simps [simp del]

definition friendly_now_playing :: "utext \<Rightarrow> utext \<Rightarrow> utext" where
  "friendly_now_playing artist title =
     (if py_strip artist \<noteq> [] \<and> py_strip title \<noteq> [] then artist @ cps '' - '' @ title
      else if py_strip title \<noteq> [] then title
      else if py_strip artist \<noteq> [] then artist
      else [])"

definition ps_values :: "utext \<Rightarrow> utext \<Rightarrow> utext \<Rightarrow> utext \<Rightarrow> utext option" where
  "ps_values text artist title = [PS_TEXT \<mapsto> text, PS_NOW_PLAYING \<mapsto> friendly_now_playing artist title, PS_ARTIST \<mapsto> artist, PS_TITLE \<mapsto> title]"

text \<open>None when an error that is not caught escapes; an absent artist or title is empty.\<close>

definition compose_dynamic_ps_source :: "(replacement \<Rightarrow> format_error + utext) \<Rightarrow> utext \<Rightarrow> utext \<Rightarrow> utext \<Rightarrow> utext \<Rightarrow> utext option" where
  "compose_dynamic_ps_source special format dynamic artist title =
     (if py_strip artist = [] \<and> py_strip title = [] \<and> references_field format PS_NOW_PLAYING then Some dynamic
      else case format_template special (ps_values dynamic artist title) format of
        Inl Format_Other \<Rightarrow> None
      | Inl _ \<Rightarrow> Some dynamic
      | Inr s \<Rightarrow> Some s)"

section \<open>Formats that were validated\<close>

lemma ps_field_accepted: "\<not> ps_field_refused f \<longleftrightarrow> plain_field DYNAMIC_PS_FORMAT_FIELDS f"
proof -
  have "[] \<notin> DYNAMIC_PS_FORMAT_FIELDS" by code_simp
  then show ?thesis by (auto simp: ps_field_refused_def plain_field_def split: option.splits)
qed

lemma ps_validate_ok:
  "validate_dynamic_ps_format t = Inr () \<longleftrightarrow> (\<exists>ms. parse_template t = Inr ms \<and> list_all (\<lambda>m. plain_field DYNAMIC_PS_FORMAT_FIELDS (field m)) ms)"
proof (induction t rule: validate_dynamic_ps_format.induct)
  case (1 t)
  show ?case
  proof (cases "t = []")
    case True
    then show ?thesis by (simp add: validate_dynamic_ps_format.simps)
  next
    case False
    show ?thesis
    proof (cases "next_markup t")
      case (Inl e)
      then show ?thesis using False by (simp add: validate_dynamic_ps_format.simps [of t] parse_template.simps [of t])
    next
      case (Inr x)
      obtain m rest where "x = (m, rest)" by (cases x)
      with Inr show ?thesis using False 1 ps_field_accepted [of "field m"]
        by (auto simp: validate_dynamic_ps_format.simps [of t] parse_template.simps [of t] bindR_eq_Inr)
    qed
  qed
qed

lemma references_parsed: "parse_template t = Inr ms \<Longrightarrow> references_field t name \<longleftrightarrow> list_ex (\<lambda>m. \<exists>s c. field m = Some (name, s, c)) ms"
proof (induction t arbitrary: ms rule: parse_template.induct)
  case (1 t)
  then show ?case
    by (auto simp: references_field.simps [of t] parse_template.simps [of t] bindR_eq_Inr split: if_splits sum.splits option.splits prod.splits)
qed

lemma ps_values_total: "DYNAMIC_PS_FORMAT_FIELDS \<subseteq> dom (ps_values text artist title)"
  by (auto simp: DYNAMIC_PS_FORMAT_FIELDS_def ps_values_def)

lemmas ps_field_defs = PS_TEXT_def PS_NOW_PLAYING_def PS_ARTIST_def PS_TITLE_def

text \<open>A validated format never fails: with nothing playing and \<^verbatim>\<open>now_playing\<close> asked for the operator's text stands
  alone; in every other case each placeholder is replaced, and nothing that was put in is read again.\<close>
theorem composed_source_decided:
  assumes "validate_dynamic_ps_format format = Inr ()"
  shows "\<exists>ms. parse_template format = Inr ms \<and>
    compose_dynamic_ps_source special format dynamic artist title =
      Some (if py_strip artist = [] \<and> py_strip title = [] \<and> list_ex (\<lambda>m. \<exists>s c. field m = Some (PS_NOW_PLAYING, s, c)) ms then dynamic
            else concat (map (piece (ps_values dynamic artist title)) ms))"
proof -
  obtain ms where ms: "parse_template format = Inr ms" "list_all (\<lambda>m. plain_field DYNAMIC_PS_FORMAT_FIELDS (field m)) ms"
    using assms by (auto simp: ps_validate_ok)
  then show ?thesis
    using format_plain [OF ms ps_values_total] references_parsed [OF ms(1)] by (auto simp: compose_dynamic_ps_source_def)
qed

theorem composed_source_decided_witness:
  "compose_dynamic_ps_source (\<lambda>_. Inl Format_Other) (cps ''{text} | {now_playing}'') (cps ''Oak'') [] [32] = Some (cps ''Oak'')
   \<and> compose_dynamic_ps_source (\<lambda>_. Inl Format_Other) (cps ''{text} | {now_playing}'') (cps ''Oak'') [65] [66] = Some (cps ''Oak | A - B'')"
proof -
  have ok: "validate_dynamic_ps_format (cps ''{text} | {now_playing}'') = Inr ()" by code_simp
  have parsed: "parse_template (cps ''{text} | {now_playing}'') = Inr [\<lparr>literal = [], field = Some (PS_TEXT, [], None)\<rparr>,
    \<lparr>literal = cps '' | '', field = Some (PS_NOW_PLAYING, [], None)\<rparr>]" by code_simp
  have blank: "py_strip [] = []" "py_strip [32] = []" "py_strip [65] = [65]" "py_strip [66] = [66]" by (simp_all add: py_strip_def py_isspace_def)
  have friendly: "friendly_now_playing [65] [66] = cps ''A - B''" by (simp add: friendly_now_playing_def blank cps_def)
  have names: "PS_TEXT \<noteq> PS_NOW_PLAYING" "PS_TEXT \<noteq> PS_ARTIST" "PS_TEXT \<noteq> PS_TITLE" "PS_NOW_PLAYING \<noteq> PS_ARTIST" "PS_NOW_PLAYING \<noteq> PS_TITLE"
    by (simp_all add: ps_field_defs)
  have "cps ''Oak'' @ cps '' | '' @ cps ''A - B'' = cps ''Oak | A - B''" by (simp add: cps_def)
  then have filled: "concat (map (piece (ps_values (cps ''Oak'') [65] [66])) [\<lparr>literal = [], field = Some (PS_TEXT, [], None)\<rparr>,
    \<lparr>literal = cps '' | '', field = Some (PS_NOW_PLAYING, [], None)\<rparr>]) = cps ''Oak | A - B''"
    by (simp add: piece_def ps_values_def friendly names)
  show ?thesis
    using composed_source_decided [OF ok, of "\<lambda>_. Inl Format_Other" "cps ''Oak''" "[]" "[32]"]
      composed_source_decided [OF ok, of "\<lambda>_. Inl Format_Other" "cps ''Oak''" "[65]" "[66]"] parsed blank filled
    by simp
qed

text \<open>An attribute in a format that was not validated escapes.\<close>
lemma unvalidated_format_raises:
  "compose_dynamic_ps_source (\<lambda>_. Inl Format_Other) (cps ''{text.foo}'') (cps ''Oak'') [65] [66] = None"
proof -
  have "next_markup (cps ''{text.foo}'') = Inr (\<lparr>literal = [], field = Some (cps ''text.foo'', [], None)\<rparr>, [])" by code_simp
  moreover have "py_strip [65] = [65]" by code_simp
  moreover have "cps ''{text.foo}'' \<noteq> []" by (simp add: cps_def)
  moreover have "ps_values t a b (cps ''text.foo'') = None" for t a b by (simp add: ps_values_def ps_field_defs)
  ultimately show ?thesis
    by (simp add: compose_dynamic_ps_source_def format_template.simps [of _ _ "cps ''{text.foo}''"] replaced_def)
qed

end
