(* ===== verification/Air_Number.thy ===== *)
theory Air_Number
  imports Complex_Main
begin

text \<open>Python's \<^verbatim>\<open>round\<close> to an integer, on exact rationals: ties go to the even neighbour; and the airtime of a track.\<close>

definition round_even :: "rat \<Rightarrow> int" where
  "round_even x = (let f = \<lfloor>x\<rfloor>; d = x - of_int f in
     if d < 1 / 2 then f else if d > 1 / 2 then f + 1 else if even f then f else f + 1)"

lemma round_even_bounds: "x - 1 / 2 \<le> of_int (round_even x)" "of_int (round_even x) \<le> x + 1 / 2"
proof -
  have f: "of_int \<lfloor>x\<rfloor> \<le> x" "x < of_int \<lfloor>x\<rfloor> + 1" by linarith+
  show "x - 1 / 2 \<le> of_int (round_even x)" "of_int (round_even x) \<le> x + 1 / 2"
    using f by (auto simp: round_even_def Let_def simp del: of_int_le_iff) linarith+
qed

section \<open>Airtime\<close>

text \<open>Seconds are exact rationals; \<^verbatim>\<open>x or 0.0\<close>.\<close>

type_synonym seconds = rat

definition or_zero :: "seconds option \<Rightarrow> seconds" where
  "or_zero x = (case x of None \<Rightarrow> 0 | Some s \<Rightarrow> s)"

text \<open>\<^verbatim>\<open>_effective_airtime\<close> of \<^verbatim>\<open>log_builder\<close>.\<close>

definition effective_airtime :: "seconds option \<Rightarrow> seconds option \<Rightarrow> seconds option \<Rightarrow> seconds" where
  "effective_airtime next_at dur cue =
     (case (case next_at of None \<Rightarrow> dur | Some n \<Rightarrow> Some n) of None \<Rightarrow> 0 | Some e \<Rightarrow> max 0 (e - or_zero cue))"

end
