(* ===== verification/Rds_Manager.thy ===== *)
theory Rds_Manager
  imports Rds_Payload Rds_Rotation Rds_Ps_Source Air_Number
begin

text \<open>
  One tick of the RDS manager, \<^verbatim>\<open>_tick\<close> of \<^verbatim>\<open>rbds/services/rbds_manager.py\<close>: what is on the air is resolved from the
  configuration, the playing item and the messages, compared with what was sent last, and sent over a connection
  with its backoff. The attributes of the manager are a record; a tick reads the configuration, the files, the
  clocks and the answers of the sockets from another one. An exception that ends the tick leaves the attributes
  as they are at that point, as the loop of \<^verbatim>\<open>start\<close> does. The writes that went through are kept in a log, newest
  first, and so are the attempts to connect. The texts of errors and the state file are left out.
\<close>

section \<open>State and reads\<close>

record manager_config = rbds_config +
  ps_mode :: string
  station_ps :: utext
  dynamic_ps_format :: utext
  dynamic_ps_text :: utext
  dynamic_ps_mode :: int
  dynamic_ps_frame_seconds :: rat
  long_ps_managed :: bool
  long_ps_enabled :: bool
  long_ps_source :: string
  long_ps_static_text :: utext
  now_playing_format :: utext
  nowplaying_min_seconds :: rat
  send_ct :: bool

record message_row =
  msg_id :: int
  msg_name :: utext
  msg_display :: rat
  msg_source_type :: string
  msg_text :: utext
  msg_poll_interval :: seconds
  msg_delimiter :: utext
  msg_start :: "int option"
  msg_end :: "int option"

datatype rds_write =
    Content_Sent (sent_ps: utext) (sent_rt: utext) (sent_toggle: bool) (sent_long_ps: "utext option option") (sent_bytes: "byte list")
  | Tags_Sent "byte list"
  | Ct_State_Sent bool
  | Ct_Sent (sent_minute: int)

record rds_manager =
  ps_rotation_state :: ps_rotation
  rt_rotation_state :: rt_rotation
  content_cache :: "int \<Rightarrow> (seconds \<times> utext) option"
  sock_open :: bool
  sqc :: int
  last_connect_attempt :: seconds
  backoff_index :: nat
  reconnect_delay :: "seconds option"
  last_sent_ps :: "utext option"
  last_sent_rt :: "utext option"
  last_sent_long_ps_enabled :: "bool option"
  last_long_ps_source :: "string option"
  last_sent_long_ps :: "utext option"
  last_ps_mode :: "string option"
  last_sent_language :: "int option"
  last_full_resend :: seconds
  last_rt_plus_resend :: seconds
  is_connected :: bool
  connected_since :: "seconds option"
  last_now_playing :: "utext \<times> utext"
  last_category_state :: "int option \<times> utext"
  last_ct_sent_minute :: "int option"
  last_send_ct_state :: "bool option"
  last_ct_synced :: "seconds option"
  wire :: "rds_write list"
  attempts :: "(seconds \<times> bool) list"

definition manager_init :: rds_manager where
  "manager_init = \<lparr>ps_rotation_state = ps_init, rt_rotation_state = rt_init, content_cache = (\<lambda>_. None), sock_open = False, sqc = 0,
     last_connect_attempt = 0, backoff_index = 0, reconnect_delay = None, last_sent_ps = None, last_sent_rt = None,
     last_sent_long_ps_enabled = None, last_long_ps_source = None, last_sent_long_ps = None, last_ps_mode = None,
     last_sent_language = None, last_full_resend = 0, last_rt_plus_resend = 0, is_connected = False, connected_since = None,
     last_now_playing = ([], []), last_category_state = (None, []), last_ct_sent_minute = None, last_send_ct_state = None,
     last_ct_synced = None, wire = [], attempts = []\<rparr>"

datatype tick_clock = Ps_Clock | Rt_Clock | Cache_Clock | Due_Clock | Up_Clock | Content_Clock | Content_Tags_Clock | Tags_Due_Clock | Tags_Clock
datatype tx_call = Content_Call | Tags_Call | Ct_State_Call | Ct_Call

text \<open>
  The playing item (artist and title) and the category override are None when their file cannot be read; a fetch
  is None when it raises.
\<close>

record tick_reads =
  rd_config :: manager_config
  rd_now_playing :: "(utext \<times> utext) option"
  rd_category :: "(int option \<times> utext) option"
  rd_frames :: "(utext \<times> rat) list"
  rd_messages :: "message_row list"
  rd_today :: int
  rd_fetch :: "int \<Rightarrow> utext option"
  rd_overrides :: bool
  rd_utc :: utc_datetime
  rd_offset :: int
  rd_clock :: "tick_clock \<Rightarrow> seconds"
  rd_mono :: "tx_call \<Rightarrow> seconds"
  rd_connects :: "tx_call \<Rightarrow> bool"
  rd_writes :: "tx_call \<Rightarrow> bool"

record rds_tables =
  tab_nfc :: "utext \<Rightarrow> utext"
  tab_utf8 :: "utext \<Rightarrow> byte list"
  tab_field :: "replacement \<Rightarrow> format_error + utext"

definition FULL_RESEND_SECONDS :: seconds where "FULL_RESEND_SECONDS = 30"
definition RT_PLUS_RESEND_SECONDS :: seconds where "RT_PLUS_RESEND_SECONDS = 2"
definition TCP_RECONNECT_BACKOFF :: "seconds list" where "TCP_RECONNECT_BACKOFF = [1, 2, 5]"

text \<open>A part of a tick: the manager afterwards, and the result unless an exception ended it.\<close>

type_synonym 'a part = "rds_manager \<times> (unit + 'a)"

definition andthen :: "'a part \<Rightarrow> ('a \<Rightarrow> rds_manager \<Rightarrow> 'b part) \<Rightarrow> 'b part" where
  "andthen m f = (case snd m of Inl e \<Rightarrow> (fst m, Inl e) | Inr a \<Rightarrow> f a (fst m))"

definition raised :: "rds_manager \<Rightarrow> 'a part" where "raised s = (s, Inl ())"

definition of_result :: "rds_manager \<Rightarrow> 'e + 'a \<Rightarrow> 'a part" where
  "of_result s r = (case r of Inl e \<Rightarrow> raised s | Inr a \<Rightarrow> (s, Inr a))"

section \<open>What to show\<close>

definition read_now_playing :: "tick_reads \<Rightarrow> rds_manager \<Rightarrow> rds_manager" where
  "read_now_playing e s = (case rd_now_playing e of None \<Rightarrow> s | Some x \<Rightarrow> s\<lparr>last_now_playing := x\<rparr>)"

definition or_station :: "rds_tables \<Rightarrow> manager_config \<Rightarrow> utext option \<Rightarrow> utext" where
  "or_station u c shown = normalize_text (tab_nfc u) (case shown of None \<Rightarrow> station_ps c | Some t \<Rightarrow> if t = [] then station_ps c else t)"

definition rotate_ps :: "rds_tables \<Rightarrow> tick_reads \<Rightarrow> (utext \<times> rat) list \<Rightarrow> rds_manager \<Rightarrow> utext part" where
  "rotate_ps u e frames s =
     (case ps_advance frames (rd_clock e Ps_Clock) (ps_rotation_state s) of Inl err \<Rightarrow> raised s
      | Inr (p, shown) \<Rightarrow> (s\<lparr>ps_rotation_state := p\<rparr>, Inr (or_station u (rd_config e) shown)))"

definition resolve_target_ps :: "rds_tables \<Rightarrow> tick_reads \<Rightarrow> rds_manager \<Rightarrow> utext part" where
  "resolve_target_ps u e s0 =
     (let c = rd_config e;
          s = (if Some (ps_mode c) \<noteq> last_ps_mode s0
               then s0\<lparr>ps_rotation_state := ps_reset (ps_rotation_state s0), last_ps_mode := Some (ps_mode c)\<rparr> else s0)
      in if ps_mode c = ''manual'' then rotate_ps u e (rd_frames e) s
         else if ps_mode c = ''generated'' then
           (case compose_dynamic_ps_source (tab_field u) (dynamic_ps_format c) (dynamic_ps_text c)
                   (fst (last_now_playing s)) (snd (last_now_playing s)) of
              None \<Rightarrow> raised s
            | Some source \<Rightarrow> andthen (of_result s (generate_ps_frames (tab_nfc u) source (dynamic_ps_mode c)))
                (\<lambda>frames. rotate_ps u e (map (\<lambda>f. (f, dynamic_ps_frame_seconds c)) frames)))
         else (s, Inr (or_station u c None)))"

definition is_active_today :: "int \<Rightarrow> message_row \<Rightarrow> bool" where
  "is_active_today today m \<longleftrightarrow>
     \<not> (case msg_start m of None \<Rightarrow> False | Some d \<Rightarrow> today < d) \<and> \<not> (case msg_end m of None \<Rightarrow> False | Some d \<Rightarrow> today > d)"

definition active_messages :: "tick_reads \<Rightarrow> message_row list" where
  "active_messages e = filter (is_active_today (rd_today e)) (rd_messages e)"

definition advance_rt :: "tick_reads \<Rightarrow> rds_manager \<Rightarrow> (rt_mode \<times> utext option) part" where
  "advance_rt e s =
     (case rt_advance (nowplaying_min_seconds (rd_config e)) (map (\<lambda>m. (msg_name m, msg_display m)) (active_messages e))
             (rd_clock e Rt_Clock) (rt_rotation_state s) of Inl err \<Rightarrow> raised s
      | Inr (r, mode, name) \<Rightarrow> (s\<lparr>rt_rotation_state := r\<rparr>, Inr (mode, name)))"

text \<open>\<^verbatim>\<open>ContentFetchCache.get\<close> for the message, and the text of a message.\<close>

definition cached_content :: "tick_reads \<Rightarrow> message_row \<Rightarrow> rds_manager \<Rightarrow> rds_manager \<times> utext" where
  "cached_content e m s =
     (let now = rd_clock e Cache_Clock; cached = content_cache s (msg_id m) in
      case (case cached of None \<Rightarrow> None | Some (t, x) \<Rightarrow> if now - t < msg_poll_interval m then Some x else None) of
        Some x \<Rightarrow> (s, x)
      | None \<Rightarrow>
          (case rd_fetch e (msg_id m) of
             None \<Rightarrow> (s, (case cached of None \<Rightarrow> [] | Some (t, x) \<Rightarrow> x))
           | Some x \<Rightarrow> (s\<lparr>content_cache := (content_cache s)(msg_id m \<mapsto> (now, x))\<rparr>, x)))"

definition resolve_message_text :: "tick_reads \<Rightarrow> message_row \<Rightarrow> rds_manager \<Rightarrow> rds_manager \<times> utext" where
  "resolve_message_text e m s =
     (if msg_source_type m = ''static'' then (s, msg_text m)
      else if msg_source_type m = ''file'' \<or> msg_source_type m = ''url'' then cached_content e m s
      else (s, []))"

text \<open>\<^verbatim>\<open>text.partition(delimiter)\<close>, when the delimiter occurs.\<close>

fun partition_at :: "utext \<Rightarrow> utext \<Rightarrow> (utext \<times> utext) option" where
  "partition_at d [] = None"
| "partition_at d (c # cs) =
     (if take (length d) (c # cs) = d then Some ([], drop (length d) (c # cs))
      else map_option (\<lambda>(a, b). (c # a, b)) (partition_at d cs))"

type_synonym rt_content = "utext \<times> utext option \<times> utext option"

definition song_content :: "rds_tables \<Rightarrow> manager_config \<Rightarrow> rt_mode \<Rightarrow> utext \<Rightarrow> utext \<Rightarrow> unit + rt_content" where
  "song_content u c mode artist title =
     (if artist = [] then Inr (take 64 title, None, None)
      else if use_rt_plus c then (case build_rt_plus_text artist title of (t, a, b) \<Rightarrow> Inr (t, Some a, Some b))
      else if mode = NowPlaying then
        (case format_template (tab_field u) [cps ''title'' \<mapsto> title, cps ''artist'' \<mapsto> artist] (now_playing_format c) of
           Inr t \<Rightarrow> Inr (take 64 (normalize_text (tab_nfc u) t), None, None)
         | Inl Format_Key \<Rightarrow> Inr (take 64 (normalize_text (tab_nfc u) title), None, None)
         | Inl Format_Index \<Rightarrow> Inr (take 64 (normalize_text (tab_nfc u) title), None, None)
         | Inl err \<Rightarrow> Inl ())
      else Inr (take 64 (normalize_text (tab_nfc u) (artist @ RT_PLUS_SEPARATOR @ title)), None, None))"

definition resolve_rt_content :: "rds_tables \<Rightarrow> tick_reads \<Rightarrow> rt_mode \<times> utext option \<Rightarrow> rds_manager \<Rightarrow> rt_content part" where
  "resolve_rt_content u e src s =
     (let c = rd_config e; norm = normalize_text (tab_nfc u) in
      if fst src = NowPlaying then
        of_result s (song_content u c NowPlaying (norm (fst (last_now_playing s))) (norm (snd (last_now_playing s))))
      else case List.find (\<lambda>m. Some (msg_name m) = snd src) (rev (active_messages e)) of
        None \<Rightarrow> (s, Inr ([], None, None))
      | Some m \<Rightarrow>
          (case resolve_message_text e m s of (s', raw) \<Rightarrow>
             let d = norm (msg_delimiter m) in
             case (if d = [] then None else partition_at d (norm raw)) of
               None \<Rightarrow> (s', Inr (take 64 (norm raw), None, None))
             | Some (a, b) \<Rightarrow> of_result s' (song_content u c Promo (py_strip a) (py_strip b))))"

definition resolve_long_ps :: "rds_tables \<Rightarrow> manager_config \<Rightarrow> rds_manager \<Rightarrow> bool \<times> utext" where
  "resolve_long_ps u c s =
     (long_ps_enabled c, normalize_text (tab_nfc u)
       (if long_ps_source c = ''now_playing''
        then (case compose_dynamic_ps_source (tab_field u) (cps ''{now_playing}'') (long_ps_static_text c)
                (fst (last_now_playing s)) (snd (last_now_playing s)) of None \<Rightarrow> [] | Some t \<Rightarrow> t)
        else long_ps_static_text c))"

section \<open>The connection\<close>

text \<open>False when \<^verbatim>\<open>ConnectionError\<close> is raised.\<close>

definition ensure_tcp_connected :: "tick_reads \<Rightarrow> tx_call \<Rightarrow> rds_manager \<Rightarrow> rds_manager \<times> bool" where
  "ensure_tcp_connected e k s =
     (if sock_open s then (s, True)
      else if (case reconnect_delay s of None \<Rightarrow> False | Some d \<Rightarrow> rd_mono e k - last_connect_attempt s < d) then (s, True)
      else let s1 = s\<lparr>last_connect_attempt := rd_mono e k, attempts := (rd_mono e k, rd_connects e k) # attempts s\<rparr> in
        if rd_connects e k then (s1\<lparr>sock_open := True, backoff_index := 0, reconnect_delay := None\<rparr>, True)
        else (s1\<lparr>reconnect_delay := Some (TCP_RECONNECT_BACKOFF ! min (backoff_index s) (length TCP_RECONNECT_BACKOFF - 1)),
                 backoff_index := min (backoff_index s + 1) (length TCP_RECONNECT_BACKOFF - 1)\<rparr>, False))"

definition transmit_now :: "tick_reads \<Rightarrow> tx_call \<Rightarrow> byte list \<Rightarrow> rds_manager \<Rightarrow> rds_manager \<times> bool" where
  "transmit_now e k payload s =
     (let c = rd_config e; tcp = (transport c \<noteq> ''udp'') in
      case (if tcp then ensure_tcp_connected e k s else (s, True)) of (s1, reached) \<Rightarrow>
        (s1, reached \<and> is_ok (transmit (rbds_config.truncate c) (sock_open s1) payload) \<and> rd_writes e k))"

definition mark_down :: "rds_manager \<Rightarrow> rds_manager" where
  "mark_down s = s\<lparr>is_connected := False, sock_open := False\<rparr>"

definition mark_up :: "tick_reads \<Rightarrow> rds_manager \<Rightarrow> rds_manager" where
  "mark_up e s = (if is_connected s then s else s\<lparr>is_connected := True, connected_since := Some (rd_clock e Up_Clock)\<rparr>)"

section \<open>Sending\<close>

record content =
  ct_ps :: utext
  ct_rt :: utext
  ct_artist :: "utext option"
  ct_title :: "utext option"
  ct_pty :: int
  ct_ptyn :: utext
  ct_toggle :: bool
  ct_dynamic_pty :: bool
  ct_long_ps :: "utext option option"

definition build_payload :: "rds_tables \<Rightarrow> manager_config \<Rightarrow> content \<Rightarrow> rds_manager \<Rightarrow> int \<times> byte list py" where
  "build_payload u c x s =
     (if protocol c = ''uecp'' then
        build_uecp_payload (tab_nfc u) (rbds_config.truncate c) (sqc s) (last_sent_language s) (ct_ps x) (ct_rt x) (ct_artist x) (ct_title x)
          (Some (ct_pty x)) (ct_ptyn x) (ct_toggle x) (Some (ct_dynamic_pty x)) (ct_long_ps x \<noteq> None)
          (case ct_long_ps x of None \<Rightarrow> None | Some t \<Rightarrow> t)
      else (sqc s, Inr (tab_utf8 u (build_ascii_payload (rbds_config.truncate c) (ct_ps x) (ct_rt x) (ct_artist x) (ct_title x)
          (Some (ct_pty x)) (Some (ct_dynamic_pty x))))))"

definition send_content :: "rds_tables \<Rightarrow> tick_reads \<Rightarrow> content \<Rightarrow> rds_manager \<Rightarrow> rds_manager \<times> bool" where
  "send_content u e x s =
     (case build_payload u (rd_config e) x s of (q, built) \<Rightarrow>
        case built of Inl err \<Rightarrow> (mark_down (s\<lparr>sqc := q\<rparr>), False)
        | Inr bytes \<Rightarrow>
            (case transmit_now e Content_Call bytes (s\<lparr>sqc := q\<rparr>) of (s1, ok) \<Rightarrow>
               if ok then (mark_up e (s1\<lparr>wire := Content_Sent (ct_ps x) (ct_rt x) (ct_toggle x) (ct_long_ps x) bytes # wire s1\<rparr>), True)
               else (mark_down s1, False)))"

text \<open>A message element of its own, in its own frame.\<close>

definition send_elements :: "tick_reads \<Rightarrow> tx_call \<Rightarrow> byte list list py \<Rightarrow> (byte list \<Rightarrow> rds_write) \<Rightarrow> rds_manager \<Rightarrow> rds_manager \<times> bool" where
  "send_elements e k meds sent s =
     (case meds of Inl err \<Rightarrow> (s, False)
      | Inr elements \<Rightarrow>
          (case frames_for (rbds_config.truncate (rd_config e)) (sqc s) elements of (q, built) \<Rightarrow>
             case built of Inl err \<Rightarrow> (s\<lparr>sqc := q\<rparr>, False)
             | Inr bytes \<Rightarrow>
                 (case transmit_now e k bytes (s\<lparr>sqc := q\<rparr>) of (s1, ok) \<Rightarrow>
                    if ok then (s1\<lparr>wire := sent bytes # wire s1\<rparr>, True) else (s1, False))))"

definition send_rt_plus_only :: "tick_reads \<Rightarrow> rt_content \<Rightarrow> rds_manager \<Rightarrow> rds_manager \<times> bool" where
  "send_rt_plus_only e rt s =
     (case rt of (txt, artist, title) \<Rightarrow>
        if rt_plus_meds artist title txt = [] then (s, True)
        else send_elements e Tags_Call (seqR (Inr mec_rt_plus_oda_reg # rt_plus_meds artist title txt)) Tags_Sent s)"

text \<open>\<^verbatim>\<open>_send_ct\<close> and \<^verbatim>\<open>_send_ct_on_off\<close> count the frame before they build its message.\<close>

definition send_counted :: "tick_reads \<Rightarrow> tx_call \<Rightarrow> byte list py \<Rightarrow> rds_write \<Rightarrow> rds_manager \<Rightarrow> rds_manager \<times> bool" where
  "send_counted e k med sent s =
     (case med of Inl err \<Rightarrow> (s\<lparr>sqc := next_sqc (sqc s)\<rparr>, False)
      | Inr m \<Rightarrow> send_elements e k (Inr [m]) (\<lambda>_. sent) s)"

section \<open>The tick\<close>

definition long_ps_changed :: "manager_config \<Rightarrow> bool \<times> utext \<Rightarrow> rds_manager \<Rightarrow> bool" where
  "long_ps_changed c lp s \<longleftrightarrow> last_sent_long_ps_enabled s \<noteq> Some (fst lp)
     \<or> fst lp \<and> (last_sent_long_ps s \<noteq> Some (snd lp) \<or> last_long_ps_source s \<noteq> Some (long_ps_source c))"

definition forget_long_ps :: "rds_manager \<Rightarrow> rds_manager" where
  "forget_long_ps s = s\<lparr>last_sent_long_ps_enabled := None, last_long_ps_source := None, last_sent_long_ps := None\<rparr>"

definition content_of :: "rds_tables \<Rightarrow> tick_reads \<Rightarrow> utext \<Rightarrow> rt_content \<Rightarrow> rds_manager \<Rightarrow> content" where
  "content_of u e ps rt s =
     (let c = rd_config e; cat = last_category_state s; lp = resolve_long_ps u c s in
      \<lparr>ct_ps = ps, ct_rt = fst rt, ct_artist = fst (snd rt), ct_title = snd (snd rt),
       ct_pty = (case fst cat of Some p \<Rightarrow> p | None \<Rightarrow> pty c), ct_ptyn = snd cat,
       ct_toggle = (last_sent_rt s \<noteq> Some (fst rt)), ct_dynamic_pty = (di_dynamic_pty c \<or> rd_overrides e),
       ct_long_ps = (if long_ps_managed c then Some (if fst lp then Some (snd lp) else None) else None)\<rparr>)"

definition content_changed :: "rds_tables \<Rightarrow> manager_config \<Rightarrow> utext \<Rightarrow> utext \<Rightarrow> rds_manager \<Rightarrow> bool" where
  "content_changed u c ps rt s \<longleftrightarrow> last_sent_ps s \<noteq> Some ps \<or> last_sent_rt s \<noteq> Some rt \<or> last_sent_language s \<noteq> language_code c
     \<or> long_ps_managed c \<and> long_ps_changed c (resolve_long_ps u c s) s"

definition commit_content :: "tick_reads \<Rightarrow> bool \<times> utext \<Rightarrow> content \<Rightarrow> rds_manager \<Rightarrow> rds_manager" where
  "commit_content e lp x s =
     (let c = rd_config e;
          s1 = s\<lparr>last_sent_ps := Some (ct_ps x), last_sent_rt := Some (ct_rt x), last_sent_language := language_code c,
                 last_full_resend := rd_clock e Content_Clock, last_rt_plus_resend := rd_clock e Content_Tags_Clock\<rparr>
      in if long_ps_managed c
         then s1\<lparr>last_sent_long_ps_enabled := Some (fst lp), last_long_ps_source := Some (long_ps_source c),
                 last_sent_long_ps := (if fst lp then Some (snd lp) else None)\<rparr>
         else s1)"

definition due_for_full_resend :: "tick_reads \<Rightarrow> rds_manager \<Rightarrow> bool" where
  "due_for_full_resend e s \<longleftrightarrow> rd_clock e Due_Clock - last_full_resend s \<ge> FULL_RESEND_SECONDS"

definition content_part :: "rds_tables \<Rightarrow> tick_reads \<Rightarrow> utext \<Rightarrow> rt_content \<Rightarrow> rds_manager \<Rightarrow> rds_manager" where
  "content_part u e ps rt s0 =
     (let c = rd_config e;
          s1 = (if long_ps_managed c then s0 else forget_long_ps s0);
          send = (content_changed u c ps (fst rt) s1 \<or> due_for_full_resend e s1 \<or> \<not> is_connected s1);
          s2 = (case rd_category e of None \<Rightarrow> s1 | Some x \<Rightarrow> s1\<lparr>last_category_state := x\<rparr>)
      in if send then
           (case send_content u e (content_of u e ps rt s2) s2 of (s3, ok) \<Rightarrow>
              if ok then commit_content e (resolve_long_ps u c s2) (content_of u e ps rt s2) s3 else s3)
         else s2)"

definition tags_part :: "tick_reads \<Rightarrow> rt_content \<Rightarrow> rds_manager \<Rightarrow> rds_manager" where
  "tags_part e rt s =
     (if use_rt_plus (rd_config e) \<and> protocol (rd_config e) = ''uecp'' \<and> is_connected s
         \<and> rd_clock e Tags_Due_Clock - last_rt_plus_resend s \<ge> RT_PLUS_RESEND_SECONDS
      then (case send_rt_plus_only e rt s of (s1, ok) \<Rightarrow> if ok then s1\<lparr>last_rt_plus_resend := rd_clock e Tags_Clock\<rparr> else s1)
      else s)"

definition ct_state_part :: "tick_reads \<Rightarrow> bool \<Rightarrow> rds_manager \<Rightarrow> rds_manager" where
  "ct_state_part e due s =
     (let c = rd_config e; just_reconnected = (is_connected s \<and> connected_since s \<noteq> last_ct_synced s) in
      if protocol c = ''uecp'' \<and> (last_send_ct_state s \<noteq> Some (send_ct c) \<or> due \<or> just_reconnected) then
        (case send_counted e Ct_State_Call (mec_ct_on_off (send_ct c)) (Ct_State_Sent (send_ct c)) s of (s1, ok) \<Rightarrow>
           if ok then s1\<lparr>last_send_ct_state := Some (send_ct c), last_ct_synced := connected_since s1\<rparr> else s1)
      else s)"

definition ct_part :: "tick_reads \<Rightarrow> rds_manager \<Rightarrow> rds_manager" where
  "ct_part e s =
     (let c = rd_config e; minute = dt_minute (rd_utc e) in
      if protocol c = ''uecp'' \<and> send_ct c \<and> last_ct_sent_minute s \<noteq> Some minute then
        (case send_counted e Ct_Call (mec_ct (rd_utc e) (rd_offset e)) (Ct_Sent minute) s of (s1, ok) \<Rightarrow>
           if ok then s1\<lparr>last_ct_sent_minute := Some minute\<rparr> else s1)
      else s)"

definition send_part :: "rds_tables \<Rightarrow> tick_reads \<Rightarrow> utext \<Rightarrow> rt_content \<Rightarrow> rds_manager \<Rightarrow> rds_manager" where
  "send_part u e ps rt s =
     ct_part e (ct_state_part e (due_for_full_resend e s) (tags_part e rt (content_part u e ps rt s)))"

text \<open>The content of a tick, and the tick, which yields it when nothing was raised.\<close>

definition resolve_part :: "rds_tables \<Rightarrow> tick_reads \<Rightarrow> rds_manager \<Rightarrow> (utext \<times> rt_content) part" where
  "resolve_part u e s =
     andthen (resolve_target_ps u e (read_now_playing e s)) (\<lambda>ps s1.
     andthen (advance_rt e s1) (\<lambda>src s2.
     andthen (resolve_rt_content u e src s2) (\<lambda>rt s3. (s3, Inr (ps, rt)))))"

definition tick :: "rds_tables \<Rightarrow> tick_reads \<Rightarrow> rds_manager \<Rightarrow> rds_manager" where
  "tick u e s =
     (case resolve_part u e s of (s1, r) \<Rightarrow> case r of Inl err \<Rightarrow> s1 | Inr (ps, rt) \<Rightarrow> send_part u e ps rt s1)"

definition ticks :: "rds_tables \<Rightarrow> tick_reads list \<Rightarrow> rds_manager" where
  "ticks u es = fold (tick u) es manager_init"

section \<open>What the parts leave alone\<close>

definition same_sent :: "rds_manager \<Rightarrow> rds_manager \<Rightarrow> bool" where
  "same_sent s s' \<longleftrightarrow> last_sent_ps s' = last_sent_ps s \<and> last_sent_rt s' = last_sent_rt s
     \<and> last_sent_long_ps_enabled s' = last_sent_long_ps_enabled s \<and> last_long_ps_source s' = last_long_ps_source s
     \<and> last_sent_long_ps s' = last_sent_long_ps s \<and> last_ct_sent_minute s' = last_ct_sent_minute s"

definition same_link :: "rds_manager \<Rightarrow> rds_manager \<Rightarrow> bool" where
  "same_link s s' \<longleftrightarrow> sock_open s' = sock_open s \<and> attempts s' = attempts s \<and> last_connect_attempt s' = last_connect_attempt s
     \<and> backoff_index s' = backoff_index s \<and> reconnect_delay s' = reconnect_delay s"

lemma same_refl [simp]: "same_sent s s" "same_link s s"
  by (simp_all add: same_sent_def same_link_def)

lemma same_trans: "same_sent a b \<Longrightarrow> same_sent b c \<Longrightarrow> same_sent a c" "same_link a b \<Longrightarrow> same_link b c \<Longrightarrow> same_link a c"
  by (simp_all add: same_sent_def same_link_def)

lemma ensure_same: "ensure_tcp_connected e k s = (s', ok) \<Longrightarrow> same_sent s s' \<and> wire s' = wire s \<and> is_connected s' = is_connected s \<and> last_category_state s' = last_category_state s"
  by (auto simp: ensure_tcp_connected_def Let_def same_sent_def split: if_splits)

lemma transmit_same:
  assumes "transmit_now e k payload s = (s', ok)"
  shows "same_sent s s' \<and> wire s' = wire s \<and> is_connected s' = is_connected s \<and> last_category_state s' = last_category_state s"
  using assms ensure_same [of e k s]
  by (cases "ensure_tcp_connected e k s") (auto simp: transmit_now_def Let_def split: if_splits)

lemma mark_same [simp]: "same_sent s (mark_down s)" "same_sent s (mark_up e s)" "wire (mark_down s) = wire s" "wire (mark_up e s) = wire s"
  "\<not> is_connected (mark_down s)" "is_connected (mark_up e s)"
  by (simp_all add: same_sent_def mark_down_def mark_up_def)

lemma elements_same:
  assumes "send_elements e k meds sent s = (s', ok)"
  shows "same_sent s s' \<and> is_connected s' = is_connected s \<and> (\<exists>bytes. wire s' = (if ok then sent bytes # wire s else wire s))"
proof (cases meds)
  case (Inr elements)
  obtain q built where frames: "frames_for (rbds_config.truncate (rd_config e)) (sqc s) elements = (q, built)" by fastforce
  show ?thesis
  proof (cases built)
    case (Inr bytes)
    obtain s1 go where call: "transmit_now e k bytes (s\<lparr>sqc := q\<rparr>) = (s1, go)" by fastforce
    show ?thesis
      using assms \<open>meds = Inr elements\<close> frames Inr call transmit_same [OF call] by (cases go) (auto simp: send_elements_def same_sent_def)
  qed (use assms Inr frames in \<open>auto simp: send_elements_def same_sent_def\<close>)
qed (use assms in \<open>auto simp: send_elements_def\<close>)

lemma counted_same:
  assumes "send_counted e k med sent s = (s', ok)"
  shows "same_sent s s' \<and> is_connected s' = is_connected s \<and> wire s' = (if ok then sent # wire s else wire s)"
  using assms elements_same [of e k _ "\<lambda>_. sent" s s' ok]
  by (cases med) (fastforce simp: send_counted_def same_sent_def)+

lemma resolve_ps_same: "resolve_target_ps u e s = (s', r) \<Longrightarrow> same_sent s s' \<and> same_link s s' \<and> wire s' = wire s \<and> is_connected s' = is_connected s"
  by (auto simp: resolve_target_ps_def rotate_ps_def andthen_def of_result_def raised_def same_sent_def same_link_def Let_def
    split: if_splits option.splits sum.splits prod.splits)

lemma advance_rt_same: "advance_rt e s = (s', r) \<Longrightarrow> same_sent s s' \<and> same_link s s' \<and> wire s' = wire s \<and> is_connected s' = is_connected s"
  by (auto simp: advance_rt_def raised_def same_sent_def same_link_def split: sum.splits prod.splits)

lemma message_text_same: "resolve_message_text e m s = (s', r) \<Longrightarrow> same_sent s s' \<and> same_link s s' \<and> wire s' = wire s \<and> is_connected s' = is_connected s"
  by (auto simp: resolve_message_text_def cached_content_def same_sent_def same_link_def Let_def split: if_splits option.splits prod.splits)

lemma rt_content_same:
  assumes "resolve_rt_content u e src s = (s', r)"
  shows "same_sent s s' \<and> same_link s s' \<and> wire s' = wire s \<and> is_connected s' = is_connected s"
proof -
  have of: "of_result s1 x = (s', r) \<Longrightarrow> s' = s1" for s1 and x :: "unit + rt_content"
    by (auto simp: of_result_def raised_def split: sum.splits)
  have "s' = s \<or> (\<exists>m. s' = fst (resolve_message_text e m s))"
  proof (cases "fst src = NowPlaying")
    case True
    then show ?thesis using assms of by (simp add: resolve_rt_content_def Let_def)
  next
    case False
    show ?thesis
    proof (cases "List.find (\<lambda>m. Some (msg_name m) = snd src) (rev (active_messages e))")
      case None
      then show ?thesis using assms False by (simp add: resolve_rt_content_def Let_def)
    next
      case (Some m)
      obtain s1 raw where call: "resolve_message_text e m s = (s1, raw)" by fastforce
      have "s' = s1"
        using assms False Some call of by (auto simp: resolve_rt_content_def Let_def split: option.splits prod.splits)
      then show ?thesis using call by (metis fst_conv)
    qed
  qed
  then show ?thesis using message_text_same by (metis prod.collapse same_refl)
qed

lemma resolve_same:
  assumes "resolve_part u e s = (s', r)"
  shows "same_sent s s' \<and> same_link s s' \<and> wire s' = wire s \<and> is_connected s' = is_connected s"
proof -
  have start: "same_sent s (read_now_playing e s) \<and> same_link s (read_now_playing e s) \<and> wire (read_now_playing e s) = wire s
    \<and> is_connected (read_now_playing e s) = is_connected s"
    by (simp add: read_now_playing_def same_sent_def same_link_def split: option.split)
  obtain s1 r1 where a: "resolve_target_ps u e (read_now_playing e s) = (s1, r1)" by fastforce
  obtain s2 r2 where b: "advance_rt e s1 = (s2, r2)" by fastforce
  obtain src where src: "r2 = Inr src \<or> (\<exists>x. r2 = Inl x)" by (cases r2) auto
  obtain s3 r3 where c: "resolve_rt_content u e src s2 = (s3, r3)" by fastforce
  have "s' \<in> {s1, s2, s3}"
    using assms a b c src by (auto simp: resolve_part_def andthen_def split: sum.splits)
  then show ?thesis
    using start resolve_ps_same [OF a] advance_rt_same [OF b] rt_content_same [OF c] by (auto simp: same_sent_def same_link_def)
qed

end
