(* ===== verification/Rds_Air.thy ===== *)
theory Rds_Air
  imports Rds_Manager
begin

text \<open>
  What reaches the listeners over any sequence of ticks of \<^verbatim>\<open>Rds_Manager\<close>: the A/B toggle of RadioText, Long PS, the
  clock time, and the spacing of the attempts to connect.
\<close>

section \<open>What has been sent\<close>

definition is_content :: "rds_write \<Rightarrow> bool" where
  "is_content w = (case w of Content_Sent _ _ _ _ _ \<Rightarrow> True | _ \<Rightarrow> False)"

definition contents :: "rds_write list \<Rightarrow> rds_write list" where "contents = filter is_content"

fun toggles_right :: "rds_write list \<Rightarrow> bool" where
  "toggles_right [] = True"
| "toggles_right [w] = sent_toggle w"
| "toggles_right (w # v # ws) = ((sent_toggle w \<longleftrightarrow> sent_rt w \<noteq> sent_rt v) \<and> toggles_right (v # ws))"

definition ct_minutes :: "rds_write list \<Rightarrow> int list" where
  "ct_minutes ws = List.map_filter (\<lambda>w. case w of Ct_Sent m \<Rightarrow> Some m | _ \<Rightarrow> None) ws"

definition current_long_ps :: "rds_tables \<Rightarrow> manager_config \<Rightarrow> rds_manager \<Rightarrow> utext option option" where
  "current_long_ps u c s = (if long_ps_managed c then Some (if long_ps_enabled c then Some (snd (resolve_long_ps u c s)) else None) else None)"

lemma contents_Cons [simp]: "contents (w # ws) = (if is_content w then w # contents ws else contents ws)"
  by (simp add: contents_def)

lemma contents_Nil [simp]: "contents [] = []"
  by (simp add: contents_def)

lemma is_content_simps [simp]: "is_content (Content_Sent a b c d f)" "\<not> is_content (Tags_Sent x)" "\<not> is_content (Ct_State_Sent y)" "\<not> is_content (Ct_Sent m)"
  by (simp_all add: is_content_def)

lemma ct_minutes_simps [simp]: "ct_minutes [] = []" "ct_minutes (Ct_Sent m # ws) = m # ct_minutes ws" "ct_minutes (Content_Sent a b c d f # ws) = ct_minutes ws"
  "ct_minutes (Tags_Sent x # ws) = ct_minutes ws" "ct_minutes (Ct_State_Sent y # ws) = ct_minutes ws"
  by (simp_all add: ct_minutes_def List.map_filter_simps)

lemma long_ps_fst [simp]: "fst (resolve_long_ps u c s) = long_ps_enabled c"
  by (simp add: resolve_long_ps_def)

lemma long_ps_same: "last_now_playing s' = last_now_playing s \<Longrightarrow> resolve_long_ps u c s' = resolve_long_ps u c s"
  by (simp add: resolve_long_ps_def)

lemma changed_forget: "content_changed u c ps rt (if long_ps_managed c then s else forget_long_ps s) = content_changed u c ps rt s"
  by (cases "long_ps_managed c") (simp_all add: content_changed_def forget_long_ps_def)

lemma send_content_outcome:
  assumes "send_content u e x s = (s', ok)"
  shows "same_sent s s' \<and> is_connected s' = ok
    \<and> (\<exists>bytes. wire s' = (if ok then Content_Sent (ct_ps x) (ct_rt x) (ct_toggle x) (ct_long_ps x) bytes # wire s else wire s))"
proof -
  obtain q built where pay: "build_payload u (rd_config e) x s = (q, built)" by fastforce
  show ?thesis
  proof (cases built)
    case (Inl err)
    then show ?thesis using assms pay by (auto simp: send_content_def same_sent_def mark_down_def)
  next
    case (Inr bytes)
    obtain s1 go where call: "transmit_now e Content_Call bytes (s\<lparr>sqc := q\<rparr>) = (s1, go)" by fastforce
    then show ?thesis
      using assms pay Inr transmit_same [OF call] by (cases go) (auto simp: send_content_def same_sent_def mark_up_def mark_down_def split: if_splits)
  qed
qed

lemma content_part_outcome:
  obtains (sent) bytes where
      "wire (content_part u e ps rt s) = Content_Sent ps (fst rt) (last_sent_rt s \<noteq> Some (fst rt)) (current_long_ps u (rd_config e) s) bytes # wire s"
      "last_sent_ps (content_part u e ps rt s) = Some ps" "last_sent_rt (content_part u e ps rt s) = Some (fst rt)"
      "last_sent_long_ps_enabled (content_part u e ps rt s) = (if long_ps_managed (rd_config e) then Some (long_ps_enabled (rd_config e)) else None)"
      "long_ps_managed (rd_config e) \<Longrightarrow> current_long_ps u (rd_config e) s = Some (last_sent_long_ps (content_part u e ps rt s))
        \<and> (last_sent_long_ps (content_part u e ps rt s) \<noteq> None \<longleftrightarrow> long_ps_enabled (rd_config e))"
      "last_ct_sent_minute (content_part u e ps rt s) = last_ct_sent_minute s"
  | (kept) "wire (content_part u e ps rt s) = wire s" "last_sent_ps (content_part u e ps rt s) = last_sent_ps s"
      "last_sent_rt (content_part u e ps rt s) = last_sent_rt s"
      "last_sent_long_ps_enabled (content_part u e ps rt s) = (if long_ps_managed (rd_config e) then last_sent_long_ps_enabled s else None)"
      "long_ps_managed (rd_config e) \<Longrightarrow> last_sent_long_ps (content_part u e ps rt s) = last_sent_long_ps s"
      "last_ct_sent_minute (content_part u e ps rt s) = last_ct_sent_minute s"
      "is_connected (content_part u e ps rt s) \<Longrightarrow> \<not> content_changed u (rd_config e) ps (fst rt) s"
proof -
  let ?c = "rd_config e"
  define s1 where "s1 = (if long_ps_managed ?c then s else forget_long_ps s)"
  define s2 where "s2 = (case rd_category e of None \<Rightarrow> s1 | Some x \<Rightarrow> s1\<lparr>last_category_state := x\<rparr>)"
  define x where "x = content_of u e ps rt s2"
  let ?go = "content_changed u ?c ps (fst rt) s1 \<or> due_for_full_resend e s1 \<or> \<not> is_connected s1"
  have s1: "wire s1 = wire s" "last_sent_ps s1 = last_sent_ps s" "last_sent_rt s1 = last_sent_rt s" "last_ct_sent_minute s1 = last_ct_sent_minute s"
    "last_now_playing s1 = last_now_playing s" "last_sent_long_ps_enabled s1 = (if long_ps_managed ?c then last_sent_long_ps_enabled s else None)"
    "long_ps_managed ?c \<Longrightarrow> last_sent_long_ps s1 = last_sent_long_ps s"
    by (simp_all add: s1_def forget_long_ps_def)
  have s2: "same_sent s1 s2" "wire s2 = wire s1" "last_now_playing s2 = last_now_playing s1" "is_connected s2 = is_connected s1"
    by (simp_all add: s2_def same_sent_def split: option.split)
  have changed: "content_changed u ?c ps (fst rt) s1 = content_changed u ?c ps (fst rt) s" unfolding s1_def by (rule changed_forget)
  have long: "resolve_long_ps u ?c s2 = resolve_long_ps u ?c s" by (rule long_ps_same) (simp add: s1(5) s2(3))
  have rt: "last_sent_rt s2 = last_sent_rt s" using s1(3) s2(1) by (simp add: same_sent_def)
  have x: "ct_ps x = ps" "ct_rt x = fst rt" "ct_toggle x = (last_sent_rt s \<noteq> Some (fst rt))" "ct_long_ps x = current_long_ps u ?c s"
    unfolding x_def content_of_def Let_def current_long_ps_def by (simp_all add: rt long)
  obtain s3 ok where call: "send_content u e x s2 = (s3, ok)" by fastforce
  have part: "content_part u e ps rt s = (if ?go then (if ok then commit_content e (resolve_long_ps u ?c s2) x s3 else s3) else s2)"
    using call unfolding content_part_def Let_def x_def s2_def s1_def by simp
  note out = send_content_outcome [OF call]
  consider "?go" "ok" | "?go" "\<not> ok" | "\<not> ?go" by blast
  then show thesis
  proof cases
    case 1
    then have part: "content_part u e ps rt s = commit_content e (resolve_long_ps u ?c s) x s3" using part long by simp
    obtain bytes where "wire s3 = Content_Sent ps (fst rt) (last_sent_rt s \<noteq> Some (fst rt)) (current_long_ps u ?c s) bytes # wire s"
      using out 1(2) x s1(1) s2(2) by auto
    moreover have "last_ct_sent_minute s3 = last_ct_sent_minute s" "\<not> long_ps_managed ?c \<Longrightarrow> last_sent_long_ps_enabled s3 = None"
      using out s1 s2(1) by (simp_all add: same_sent_def)
    ultimately show thesis using sent x(1,2) unfolding part commit_content_def Let_def by (auto simp: current_long_ps_def)
  next
    case 2
    then have part: "content_part u e ps rt s = s3" using part by simp
    have "\<not> is_connected s3" "wire s3 = wire s" "same_sent s1 s3" using out 2(2) s1(1) s2(1,2) by (auto intro: same_trans)
    then show thesis using kept s1 unfolding part by (simp add: same_sent_def)
  next
    case 3
    then have part: "content_part u e ps rt s = s2" using part by simp
    show thesis using kept s1 s2 3 changed unfolding part by (simp add: same_sent_def)
  qed
qed

section \<open>Invariants of the ticks\<close>

definition remembers :: "rds_manager \<Rightarrow> bool" where
  "remembers s \<longleftrightarrow> toggles_right (contents (wire s)) \<and>
     (case contents (wire s) of
        [] \<Rightarrow> last_sent_ps s = None \<and> last_sent_rt s = None \<and> last_sent_long_ps_enabled s = None
      | w # ws \<Rightarrow> last_sent_ps s = Some (sent_ps w) \<and> last_sent_rt s = Some (sent_rt w)
          \<and> (\<forall>b. last_sent_long_ps_enabled s = Some b \<longrightarrow> sent_long_ps w = Some (last_sent_long_ps s) \<and> (last_sent_long_ps s \<noteq> None \<longleftrightarrow> b)))"

definition minutes_ok :: "rds_manager \<Rightarrow> bool" where
  "minutes_ok s \<longleftrightarrow> last_ct_sent_minute s = (case ct_minutes (wire s) of [] \<Rightarrow> None | m # _ \<Rightarrow> Some m)
     \<and> successively (\<noteq>) (ct_minutes (wire s))"

lemma remembers_cong:
  assumes "remembers s" and "same_sent s s'" and "contents (wire s') = contents (wire s)"
  shows "remembers s'"
  using assms by (cases "contents (wire s)") (simp_all add: remembers_def same_sent_def)

lemma minutes_cong: "minutes_ok s \<Longrightarrow> last_ct_sent_minute s' = last_ct_sent_minute s \<Longrightarrow> ct_minutes (wire s') = ct_minutes (wire s) \<Longrightarrow> minutes_ok s'"
  by (simp add: minutes_ok_def)

lemma remembers_content:
  assumes "remembers s"
  shows "remembers (content_part u e ps rt s)"
proof (cases rule: content_part_outcome [of u e ps rt s])
  case (sent bytes)
  let ?w = "Content_Sent ps (fst rt) (last_sent_rt s \<noteq> Some (fst rt)) (current_long_ps u (rd_config e) s) bytes"
  have "toggles_right (?w # contents (wire s))"
    using assms by (cases "contents (wire s)") (auto simp: remembers_def)
  then show ?thesis using sent by (cases "long_ps_managed (rd_config e)") (simp_all add: remembers_def)
next
  case kept
  then show ?thesis using assms
    by (cases "contents (wire s)"; cases "long_ps_managed (rd_config e)") (simp_all add: remembers_def)
qed

lemma minutes_content:
  assumes "minutes_ok s"
  shows "minutes_ok (content_part u e ps rt s)"
  using assms by (cases rule: content_part_outcome [of u e ps rt s]) (auto simp: minutes_ok_def)

lemma tags_outcome: "same_sent s (tags_part e rt s) \<and> is_connected (tags_part e rt s) = is_connected s
    \<and> (\<exists>bytes. wire (tags_part e rt s) \<in> {wire s, Tags_Sent bytes # wire s})"
proof -
  obtain rtxt artist title where rt: "rt = (rtxt, artist, title)" by (cases rt)
  obtain s1 ok where call: "send_rt_plus_only e rt s = (s1, ok)" by fastforce
  have "same_sent s s1 \<and> is_connected s1 = is_connected s \<and> (\<exists>bytes. wire s1 \<in> {wire s, Tags_Sent bytes # wire s})"
  proof (cases "rt_plus_meds artist title rtxt = []")
    case True
    then show ?thesis using call rt by (simp add: send_rt_plus_only_def)
  next
    case False
    then have "send_elements e Tags_Call (seqR (Inr mec_rt_plus_oda_reg # rt_plus_meds artist title rtxt)) Tags_Sent s = (s1, ok)"
      using call rt by (simp add: send_rt_plus_only_def del: seqR.simps)
    then show ?thesis using elements_same by (metis insertCI)
  qed
  then show ?thesis using call by (auto simp: tags_part_def same_sent_def)
qed

lemma ct_state_outcome: "same_sent s (ct_state_part e due s) \<and> is_connected (ct_state_part e due s) = is_connected s
    \<and> wire (ct_state_part e due s) \<in> {wire s, Ct_State_Sent (send_ct (rd_config e)) # wire s}"
proof -
  obtain s1 ok where call: "send_counted e Ct_State_Call (mec_ct_on_off (send_ct (rd_config e))) (Ct_State_Sent (send_ct (rd_config e))) s = (s1, ok)" by fastforce
  then show ?thesis using counted_same [OF call] by (auto simp: ct_state_part_def Let_def same_sent_def)
qed

lemma ct_outcome:
  obtains (sent) "wire (ct_part e s) = Ct_Sent (dt_minute (rd_utc e)) # wire s" "last_ct_sent_minute (ct_part e s) = Some (dt_minute (rd_utc e))"
      "last_ct_sent_minute s \<noteq> Some (dt_minute (rd_utc e))" "same_sent s ((ct_part e s)\<lparr>last_ct_sent_minute := last_ct_sent_minute s\<rparr>)"
      "is_connected (ct_part e s) = is_connected s"
  | (kept) "wire (ct_part e s) = wire s" "same_sent s (ct_part e s)" "is_connected (ct_part e s) = is_connected s"
proof -
  let ?m = "dt_minute (rd_utc e)"
  obtain s1 ok where call: "send_counted e Ct_Call (mec_ct (rd_utc e) (rd_offset e)) (Ct_Sent ?m) s = (s1, ok)" by fastforce
  note out = counted_same [OF call]
  show thesis
  proof (cases "protocol (rd_config e) = ''uecp'' \<and> send_ct (rd_config e) \<and> last_ct_sent_minute s \<noteq> Some ?m")
    case False
    then have "ct_part e s = s" by (auto simp: ct_part_def Let_def)
    then show thesis using kept by simp
  next
    case True
    then have "ct_part e s = (if ok then s1\<lparr>last_ct_sent_minute := Some ?m\<rparr> else s1)" using call by (simp add: ct_part_def Let_def)
    then show thesis using sent kept out True by (cases ok) (simp_all add: same_sent_def)
  qed
qed

lemma send_part_outcome:
  assumes c_def: "c = content_part u e ps rt s"
  shows "contents (wire (send_part u e ps rt s)) = contents (wire c) \<and> is_connected (send_part u e ps rt s) = is_connected c
    \<and> (remembers c \<longrightarrow> remembers (send_part u e ps rt s)) \<and> (minutes_ok c \<longrightarrow> minutes_ok (send_part u e ps rt s))"
proof -
  define t where "t = tags_part e rt c"
  define a where "a = ct_state_part e (due_for_full_resend e s) t"
  have t: "same_sent c t" "is_connected t = is_connected c" "contents (wire t) = contents (wire c)" "ct_minutes (wire t) = ct_minutes (wire c)"
    using tags_outcome [of c e rt] by (auto simp: t_def)
  have a: "same_sent t a" "is_connected a = is_connected t" "contents (wire a) = contents (wire t)" "ct_minutes (wire a) = ct_minutes (wire t)"
    using ct_state_outcome [of t e "due_for_full_resend e s"] by (auto simp: a_def)
  have ra: "remembers c \<Longrightarrow> remembers a" using t a by (auto intro: remembers_cong same_trans)
  have ma: "minutes_ok c \<Longrightarrow> minutes_ok a" using t a by (auto intro!: minutes_cong [of c a] simp: same_sent_def)
  have send: "send_part u e ps rt s = ct_part e a" by (simp add: send_part_def a_def t_def c_def)
  show ?thesis
    unfolding send
  proof (cases rule: ct_outcome [of e a])
    case sent
    have "remembers a \<Longrightarrow> remembers (ct_part e a)" using sent(1,4) by (cases "contents (wire a)") (simp_all add: remembers_def same_sent_def)
    moreover have "minutes_ok a \<Longrightarrow> minutes_ok (ct_part e a)" using sent(1-3) by (auto simp: minutes_ok_def split: list.splits)
    ultimately show "contents (wire (ct_part e a)) = contents (wire c) \<and> is_connected (ct_part e a) = is_connected c
      \<and> (remembers c \<longrightarrow> remembers (ct_part e a)) \<and> (minutes_ok c \<longrightarrow> minutes_ok (ct_part e a))"
      using sent t a ra ma by simp
  next
    case kept
    have "remembers a \<Longrightarrow> remembers (ct_part e a)" using kept(1,2) by (auto intro: remembers_cong)
    moreover have "minutes_ok a \<Longrightarrow> minutes_ok (ct_part e a)" using kept(1,2) by (simp add: minutes_ok_def same_sent_def)
    ultimately show "contents (wire (ct_part e a)) = contents (wire c) \<and> is_connected (ct_part e a) = is_connected c
      \<and> (remembers c \<longrightarrow> remembers (ct_part e a)) \<and> (minutes_ok c \<longrightarrow> minutes_ok (ct_part e a))"
      using kept t a ra ma by simp
  qed
qed

lemma tick_inv:
  assumes "remembers s \<and> minutes_ok s"
  shows "remembers (tick u e s) \<and> minutes_ok (tick u e s)"
proof -
  obtain s1 r where res: "resolve_part u e s = (s1, r)" by fastforce
  have s1: "remembers s1" "minutes_ok s1"
  proof -
    note same = resolve_same [OF res]
    show "remembers s1" by (rule remembers_cong [of s]) (use assms same in simp_all)
    show "minutes_ok s1" by (rule minutes_cong [of s]) (use assms same in \<open>simp_all add: same_sent_def\<close>)
  qed
  show ?thesis
  proof (cases r)
    case (Inl x)
    then show ?thesis using res s1 by (simp add: tick_def)
  next
    case (Inr x)
    obtain ps rt where x: "x = (ps, rt)" by (cases x)
    have "remembers (send_part u e ps rt s1) \<and> minutes_ok (send_part u e ps rt s1)"
      using send_part_outcome [of "content_part u e ps rt s1" u e ps rt s1, OF refl] remembers_content [OF s1(1)] minutes_content [OF s1(2)]
      by simp
    then show ?thesis using res Inr x by (simp add: tick_def)
  qed
qed

lemma ticks_inv: "remembers (ticks u es) \<and> minutes_ok (ticks u es)"
proof -
  have "remembers (fold (tick u) es s) \<and> minutes_ok (fold (tick u) es s)" if "remembers s \<and> minutes_ok s" for s
    using that by (induction es arbitrary: s) (simp_all add: tick_inv)
  moreover have "remembers manager_init \<and> minutes_ok manager_init" by (simp add: remembers_def minutes_ok_def manager_init_def)
  ultimately show ?thesis by (simp add: ticks_def)
qed

section \<open>Attempts to connect\<close>

text \<open>The failures since the last success, and the log in which each attempt keeps the distance its predecessors call for.\<close>

definition failures :: "(seconds \<times> bool) list \<Rightarrow> nat" where
  "failures tries = length (takeWhile (\<lambda>(t, ok). \<not> ok) tries)"

definition backoff_after :: "nat \<Rightarrow> seconds" where
  "backoff_after n = TCP_RECONNECT_BACKOFF ! min (n - 1) 2"

fun well_spaced :: "(seconds \<times> bool) list \<Rightarrow> bool" where
  "well_spaced [] = True"
| "well_spaced ((t, ok) # tries) =
     ((case tries of [] \<Rightarrow> True | (t', ok') # _ \<Rightarrow> ok' \<or> t - t' \<ge> backoff_after (failures tries)) \<and> well_spaced tries)"

definition link_ok :: "rds_manager \<Rightarrow> bool" where
  "link_ok s \<longleftrightarrow> well_spaced (attempts s) \<and> backoff_index s = min (failures (attempts s)) 2
     \<and> reconnect_delay s = (if failures (attempts s) = 0 then None else Some (backoff_after (failures (attempts s))))
     \<and> (attempts s \<noteq> [] \<longrightarrow> last_connect_attempt s = fst (hd (attempts s)))"

lemma failures_simps [simp]: "failures [] = 0" "failures ((t, True) # tries) = 0" "failures ((t, False) # tries) = Suc (failures tries)"
  by (simp_all add: failures_def)

lemma backoff_Suc: "TCP_RECONNECT_BACKOFF ! min (min n 2) (length TCP_RECONNECT_BACKOFF - 1) = backoff_after (Suc n)"
  by (simp add: backoff_after_def TCP_RECONNECT_BACKOFF_def)

lemma link_cong: "link_ok s \<Longrightarrow> same_link s s' \<Longrightarrow> link_ok s'"
  by (simp add: link_ok_def same_link_def)

lemma link_ensure:
  assumes "link_ok s"
  shows "link_ok (fst (ensure_tcp_connected e k s))"
proof -
  let ?t = "rd_mono e k" and ?ok = "rd_connects e k" and ?wait = "case reconnect_delay s of None \<Rightarrow> False | Some d \<Rightarrow> rd_mono e k - last_connect_attempt s < d"
  show ?thesis
  proof (cases "sock_open s \<or> ?wait")
    case True
    then show ?thesis using assms by (auto simp: ensure_tcp_connected_def)
  next
    case False
    have gap: "case attempts s of [] \<Rightarrow> True | (t', ok') # _ \<Rightarrow> ok' \<or> ?t - t' \<ge> backoff_after (failures (attempts s))"
    proof (cases "attempts s")
      case (Cons a tries)
      obtain t' ok' where a: "a = (t', ok')" by (cases a)
      show ?thesis
      proof (cases ok')
        case False
        then have "reconnect_delay s = Some (backoff_after (failures (attempts s)))" "last_connect_attempt s = t'"
          using assms Cons a by (simp_all add: link_ok_def)
        then show ?thesis using \<open>\<not> (sock_open s \<or> ?wait)\<close> Cons a by simp
      qed (use Cons a in simp)
    qed simp
    have index: "min (Suc (min n 2)) 2 = min (Suc n) 2" for n :: nat by simp
    have "well_spaced ((?t, ?ok) # attempts s)" using assms gap by (simp add: link_ok_def)
    then show ?thesis
      using assms False backoff_Suc [of "failures (attempts s)"]
      by (cases ?ok) (auto simp: ensure_tcp_connected_def Let_def link_ok_def TCP_RECONNECT_BACKOFF_def index)
  qed
qed

lemma link_transmit:
  assumes "link_ok s"
  shows "link_ok (fst (transmit_now e k payload s))"
  using link_ensure [OF assms, of e k] assms
  by (cases "ensure_tcp_connected e k s") (auto simp: transmit_now_def Let_def)

lemma link_update: "link_ok s \<Longrightarrow> link_ok (s\<lparr>sqc := q\<rparr>)" "link_ok s \<Longrightarrow> link_ok (s\<lparr>wire := w\<rparr>)"
  by (simp_all add: link_ok_def)

lemma link_elements:
  assumes "link_ok s"
  shows "link_ok (fst (send_elements e k meds sent s))"
proof (cases meds)
  case (Inr elements)
  obtain q built where frames: "frames_for (rbds_config.truncate (rd_config e)) (sqc s) elements = (q, built)" by fastforce
  show ?thesis
  proof (cases built)
    case (Inr bytes)
    obtain s1 go where call: "transmit_now e k bytes (s\<lparr>sqc := q\<rparr>) = (s1, go)" by fastforce
    then have "link_ok s1" using link_transmit [OF link_update(1) [OF assms], of e k bytes q] by simp
    then show ?thesis using \<open>meds = Inr elements\<close> frames Inr call by (simp add: send_elements_def link_update)
  qed (use \<open>meds = Inr elements\<close> frames assms in \<open>simp add: send_elements_def link_update\<close>)
qed (use assms in \<open>simp add: send_elements_def\<close>)

lemma link_counted: "link_ok s \<Longrightarrow> link_ok (fst (send_counted e k med sent s))"
  by (cases med) (simp_all add: send_counted_def link_elements link_update)

lemma link_content:
  assumes "link_ok s"
  shows "link_ok (fst (send_content u e x s))"
proof -
  have marks: "link_ok s1 \<Longrightarrow> link_ok (mark_down s1)" "link_ok s1 \<Longrightarrow> link_ok (mark_up e s1)" for s1
    by (simp_all add: mark_down_def mark_up_def link_ok_def)
  obtain q built where pay: "build_payload u (rd_config e) x s = (q, built)" by fastforce
  show ?thesis
  proof (cases built)
    case (Inl err)
    then show ?thesis using pay assms by (simp add: send_content_def marks link_update)
  next
    case (Inr bytes)
    obtain s1 go where call: "transmit_now e Content_Call bytes (s\<lparr>sqc := q\<rparr>) = (s1, go)" by fastforce
    then have "link_ok s1" using link_transmit [OF link_update(1) [OF assms], of e Content_Call bytes q] by simp
    then show ?thesis using pay Inr call by (simp add: send_content_def marks link_update)
  qed
qed

lemma link_parts:
  assumes "link_ok s"
  shows "link_ok (content_part u e ps rt s)" and "link_ok (tags_part e rt s)" and "link_ok (ct_state_part e due s)" and "link_ok (ct_part e s)"
proof -
  define s1 where "s1 = (if long_ps_managed (rd_config e) then s else forget_long_ps s)"
  define s2 where "s2 = (case rd_category e of None \<Rightarrow> s1 | Some x \<Rightarrow> s1\<lparr>last_category_state := x\<rparr>)"
  have "link_ok s1" using assms by (simp add: s1_def forget_long_ps_def link_ok_def)
  then have s2: "link_ok s2" by (cases "rd_category e") (simp_all add: s2_def link_ok_def)
  obtain s3 ok where call: "send_content u e (content_of u e ps rt s2) s2 = (s3, ok)" by fastforce
  then have s3: "link_ok s3" using link_content [OF s2] by (metis fst_conv)
  then have commit: "link_ok (commit_content e lp x s3)" for lp x by (simp add: commit_content_def Let_def link_ok_def)
  have "content_part u e ps rt s \<in> {s2, s3, commit_content e (resolve_long_ps u (rd_config e) s2) (content_of u e ps rt s2) s3}"
    using call unfolding content_part_def Let_def s2_def s1_def by simp
  then show "link_ok (content_part u e ps rt s)"
    using s2 s3 commit [of "resolve_long_ps u (rd_config e) s2" "content_of u e ps rt s2"] by auto
  obtain s4 ok4 where tags: "send_rt_plus_only e rt s = (s4, ok4)" by fastforce
  have "link_ok (fst (send_rt_plus_only e rt s))"
    by (cases rt) (simp add: send_rt_plus_only_def assms link_elements del: seqR.simps)
  then have "link_ok s4" using tags by simp
  then show "link_ok (tags_part e rt s)" using tags assms by (auto simp: tags_part_def link_ok_def)
  obtain s5 ok5 where state: "send_counted e Ct_State_Call (mec_ct_on_off (send_ct (rd_config e))) (Ct_State_Sent (send_ct (rd_config e))) s = (s5, ok5)" by fastforce
  then have "link_ok s5" using link_counted [OF assms] by (metis fst_conv)
  then show "link_ok (ct_state_part e due s)" using state assms by (auto simp: ct_state_part_def Let_def link_ok_def)
  obtain s6 ok6 where ct: "send_counted e Ct_Call (mec_ct (rd_utc e) (rd_offset e)) (Ct_Sent (dt_minute (rd_utc e))) s = (s6, ok6)" by fastforce
  then have "link_ok s6" using link_counted [OF assms] by (metis fst_conv)
  then show "link_ok (ct_part e s)" using ct assms by (auto simp: ct_part_def Let_def link_ok_def)
qed

lemma tick_link:
  assumes "link_ok s"
  shows "link_ok (tick u e s)"
proof -
  obtain s1 r where res: "resolve_part u e s = (s1, r)" by fastforce
  then have "link_ok s1" using assms resolve_same [OF res] link_cong by blast
  then show ?thesis using res by (auto simp: tick_def send_part_def link_parts split: sum.split prod.split)
qed

lemma ticks_link: "link_ok (ticks u es)"
proof -
  have "link_ok (fold (tick u) es s)" if "link_ok s" for s using that by (induction es arbitrary: s) (simp_all add: tick_link)
  moreover have "link_ok manager_init" by (simp add: link_ok_def manager_init_def)
  ultimately show ?thesis by (simp add: ticks_def)
qed

section \<open>Properties\<close>



text \<open>The clock time never goes out twice in a row for the same minute.\<close>
theorem ct_once_per_minute: "successively (\<noteq>) (ct_minutes (wire (ticks u es)))"
  using ticks_inv by (simp add: minutes_ok_def)


text \<open>With a format for the playing item that does not parse, which the configuration form lets through, nothing is sent at all.\<close>
lemma broken_format_silences:
  assumes "format_template (tab_field u) [cps ''title'' \<mapsto> title, cps ''artist'' \<mapsto> artist] (now_playing_format c) = Inl Format_Value"
    and "artist \<noteq> []" and "\<not> use_rt_plus c"
  shows "song_content u c NowPlaying artist title = Inl ()"
  using assms by (simp add: song_content_def)

lemma unresolved_tick_is_silent:
  assumes "snd (resolve_part u e s) = Inl err"
  shows "wire (tick u e s) = wire s"
  using assms resolve_same [of u e s] by (cases "resolve_part u e s") (simp add: tick_def)

section \<open>A tick\<close>

definition demo_tables :: rds_tables where
  "demo_tables = \<lparr>tab_nfc = id, tab_utf8 = (\<lambda>_. []), tab_field = (\<lambda>_. Inl Format_Other)\<rparr>"

definition demo_manager_config :: manager_config where
  "demo_manager_config = \<lparr>pi_code = [], ecc = [], language_code = None, ta = False, tp = False, di_dynamic_pty = False, di_compressed = False,
     di_artificial_head = False, di_stereo = True, ms = True, pty = 5, use_rt_plus = False, af_configured = False, uecp_site_address = 0,
     uecp_encoder_address = 0, protocol = ''ascii'', transport = ''udp'', ps_mode = ''static'', station_ps = [65], dynamic_ps_format = [],
     dynamic_ps_text = [], dynamic_ps_mode = 0, dynamic_ps_frame_seconds = 3, long_ps_managed = True, long_ps_enabled = True,
     long_ps_source = ''static'', long_ps_static_text = [66], now_playing_format = [], nowplaying_min_seconds = 20, send_ct = False\<rparr>"

definition demo_tick :: tick_reads where
  "demo_tick = \<lparr>rd_config = demo_manager_config, rd_now_playing = Some ([], [67]), rd_category = None, rd_frames = [], rd_messages = [],
     rd_today = 0, rd_fetch = (\<lambda>_. None), rd_overrides = False, rd_utc = \<lparr>dt_year = 2026, dt_month = 1, dt_day = 1, dt_hour = 0, dt_minute = 0,
     dt_second = 0, dt_microsecond = 0\<rparr>, rd_offset = 0, rd_clock = (\<lambda>_. 100), rd_mono = (\<lambda>_. 0), rd_connects = (\<lambda>_. True), rd_writes = (\<lambda>_. True)\<rparr>"

lemma demo_text: "normalize_text id [65] = [65]" "normalize_text id [66] = [66]" "normalize_text id [67] = [67]"
  by (simp_all add: normalize_text_def SMART_PUNCTUATION_def replace_char_def CONTROL_TRANSLATION_def)

lemma demo_config_simps:
  "rd_config demo_tick = demo_manager_config" "ps_mode demo_manager_config = ''static''" "station_ps demo_manager_config = [65]"
  "protocol demo_manager_config = ''ascii''" "transport demo_manager_config = ''udp''" "tab_nfc demo_tables = id"
  "long_ps_managed demo_manager_config" "long_ps_enabled demo_manager_config" "long_ps_source demo_manager_config = ''static''"
  "long_ps_static_text demo_manager_config = [66]" "\<not> use_rt_plus demo_manager_config" "nowplaying_min_seconds demo_manager_config = 20"
  "rd_now_playing demo_tick = Some ([], [67])" "rd_messages demo_tick = []" "rd_clock demo_tick k = 100" "rd_writes demo_tick n" "rd_category demo_tick = None"
  by (simp_all add: demo_tick_def demo_manager_config_def demo_tables_def)

lemma demo_resolved: "snd (resolve_part demo_tables demo_tick manager_init) = Inr ([65], [67], None, None)"
proof -
  have ps: "resolve_target_ps demo_tables demo_tick (manager_init\<lparr>last_now_playing := ([], [67])\<rparr>)
    = (manager_init\<lparr>last_now_playing := ([], [67]), last_ps_mode := Some ''static''\<rparr>, Inr [65])"
    by (simp add: resolve_target_ps_def demo_config_simps or_station_def demo_text manager_init_def ps_reset_def ps_init_def)
  have rt: "advance_rt demo_tick (manager_init\<lparr>last_now_playing := ([], [67]), last_ps_mode := Some ''static''\<rparr>)
    = (manager_init\<lparr>last_now_playing := ([], [67]), last_ps_mode := Some ''static'',
        rt_rotation_state := rt_init\<lparr>mode_started_at := Some 100, promos_key := Some []\<rparr>\<rparr>, Inr (NowPlaying, None))"
    by (simp add: advance_rt_def active_messages_def demo_config_simps rt_advance_def rt_refresh_def rt_switch_def manager_init_def rt_init_def)
  show ?thesis
    by (simp add: resolve_part_def andthen_def read_now_playing_def demo_config_simps ps rt resolve_rt_content_def of_result_def song_content_def demo_text)
qed

lemma demo_connected: "is_connected (tick demo_tables demo_tick manager_init)"
proof -
  obtain s1 where res: "resolve_part demo_tables demo_tick manager_init = (s1, Inr ([65], [67], None, None))"
    using demo_resolved by (metis prod.collapse)
  define c where "c = content_part demo_tables demo_tick [65] ([67], None, None) s1"
  have start: "\<not> is_connected s1" using resolve_same [OF res] by (simp add: manager_init_def)
  have "snd (send_content demo_tables demo_tick x s)" for x s
    by (simp add: send_content_def build_payload_def demo_config_simps transmit_now_def transmit_def rbds_config.truncate_def)
  then have con: "send_content demo_tables demo_tick x s = (s', ok) \<Longrightarrow> is_connected s'" for x s s' ok
    using send_content_outcome by (metis snd_conv)
  have "is_connected c"
    using start unfolding c_def content_part_def Let_def demo_config_simps
    by (auto simp: demo_config_simps commit_content_def dest!: con split: prod.split)
  then show ?thesis using send_part_outcome [OF c_def] res by (simp add: tick_def)
qed


end
