(* ===== verification/Dedication_Text.thy ===== *)
theory Dedication_Text
  imports Air_Format Rds_Dynamic_Ps
begin

text \<open>
  The spoken intro of a request, \<^verbatim>\<open>webrequests/dedication_text.py\<close>: normalised input, the choice among four
  templates, their validation and the final script. Unicode NFC and what counts as a letter are arguments; the
  texts of the errors are left out.
\<close>

section \<open>Input\<close>

text \<open>\<^verbatim>\<open>\bfeat\.\<close> in any case, spoken as a word.\<close>

definition ascii_lower :: "nat \<Rightarrow> nat" where
  "ascii_lower c = (if 65 \<le> c \<and> c \<le> 90 then c + 32 else c)"

definition FEAT :: utext where "FEAT = cps ''feat.''"
definition FEATURING :: utext where "FEATURING = cps ''featuring''"

function expand_from :: "(nat \<Rightarrow> bool) \<Rightarrow> bool \<Rightarrow> utext \<Rightarrow> utext" where
  "expand_from letter in_word [] = []"
| "expand_from letter in_word (c # cs) =
     (if \<not> in_word \<and> map ascii_lower (take 5 (c # cs)) = FEAT then FEATURING @ expand_from letter False (drop 4 cs)
      else c # expand_from letter (letter c) cs)"
  by pat_completeness auto
termination by (relation "measure (\<lambda>(letter, in_word, t). length t)") auto

definition expand_featuring :: "(nat \<Rightarrow> bool) \<Rightarrow> utext \<Rightarrow> utext" where
  "expand_featuring letter = expand_from letter False"

datatype dedication_error = Dedication_Template_Error | Dedication_Input_Error

datatype raw_value = No_Value | Text_Value utext | Other_Value

text \<open>Category \<^verbatim>\<open>Cc\<close> without what \<^verbatim>\<open>isspace\<close> holds of.\<close>

definition is_unsafe_control_character :: "nat \<Rightarrow> bool" where
  "is_unsafe_control_character c \<longleftrightarrow> (c \<le> 31 \<or> 127 \<le> c \<and> c \<le> 159) \<and> \<not> py_isspace c"

definition strip_unsafe_control_characters :: "utext \<Rightarrow> utext" where
  "strip_unsafe_control_characters = filter (\<lambda>c. \<not> is_unsafe_control_character c)"

fun join_blank :: "utext list \<Rightarrow> utext" where
  "join_blank [] = []"
| "join_blank [w] = w"
| "join_blank (w # ws) = w @ 32 # join_blank ws"

definition clean_text :: "(utext \<Rightarrow> utext) \<Rightarrow> raw_value \<Rightarrow> dedication_error + utext" where
  "clean_text nfc raw =
     (case raw of No_Value \<Rightarrow> Inr [] | Other_Value \<Rightarrow> Inl Dedication_Input_Error
      | Text_Value t \<Rightarrow> Inr (join_blank (py_split (strip_unsafe_control_characters (nfc t)))))"

definition normalize_requester_name :: "(utext \<Rightarrow> utext) \<Rightarrow> raw_value \<Rightarrow> dedication_error + utext" where
  "normalize_requester_name = clean_text"

definition ended :: "utext \<Rightarrow> bool" where
  "ended t \<longleftrightarrow> t \<noteq> [] \<and> last t \<in> set (cps ''.!?'')"

definition normalize_dedication_message :: "(utext \<Rightarrow> utext) \<Rightarrow> raw_value \<Rightarrow> dedication_error + utext" where
  "normalize_dedication_message nfc raw = bindR (clean_text nfc raw) (\<lambda>v. Inr (if v \<noteq> [] \<and> \<not> ended v then v @ [46] else v))"

section \<open>Templates\<close>

definition TITLE :: utext where "TITLE = cps ''title''"
definition ARTIST :: utext where "ARTIST = cps ''artist''"
definition REQUESTER :: utext where "REQUESTER = cps ''requester_name''"
definition MESSAGE :: utext where "MESSAGE = cps ''dedication_message''"

definition ALLOWED_PLACEHOLDERS :: "utext set" where "ALLOWED_PLACEHOLDERS = {TITLE, ARTIST, REQUESTER, MESSAGE}"
definition TEMPLATE_MAX_LENGTH :: nat where "TEMPLATE_MAX_LENGTH = 512"
definition MAX_RENDERED_SCRIPT_LENGTH :: nat where "MAX_RENDERED_SCRIPT_LENGTH = 600"

definition field_refused :: "replacement option \<Rightarrow> bool" where
  "field_refused f = (case f of None \<Rightarrow> False
     | Some (name, spec, conversion) \<Rightarrow> conversion \<noteq> None \<or> spec \<noteq> [] \<or> 46 \<in> set name \<or> 91 \<in> set name \<or> 93 \<in> set name
         \<or> name = [] \<or> name \<notin> ALLOWED_PLACEHOLDERS)"

definition validate_template :: "utext \<Rightarrow> dedication_error + unit" where
  "validate_template t =
     (if py_strip t = [] then Inl Dedication_Template_Error
      else if length t > TEMPLATE_MAX_LENGTH then Inl Dedication_Template_Error
      else case parse_template t of Inl e \<Rightarrow> Inl Dedication_Template_Error
      | Inr ms \<Rightarrow> if list_ex (\<lambda>m. field_refused (field m)) ms then Inl Dedication_Template_Error else Inr ())"

section \<open>The script\<close>

record dedication_templates =
  named_message :: utext
  named_request :: utext
  anonymous_message :: utext
  anonymous_request :: utext

definition template_for :: "dedication_templates \<Rightarrow> utext \<Rightarrow> utext \<Rightarrow> utext" where
  "template_for ts name message =
     (if name \<noteq> [] \<and> message \<noteq> [] then named_message ts
      else if name \<noteq> [] then named_request ts
      else if message \<noteq> [] then anonymous_message ts
      else anonymous_request ts)"

definition script_values :: "utext \<Rightarrow> utext \<Rightarrow> utext \<Rightarrow> utext \<Rightarrow> utext \<Rightarrow> utext option" where
  "script_values title artist name message = [TITLE \<mapsto> title, ARTIST \<mapsto> artist, REQUESTER \<mapsto> name, MESSAGE \<mapsto> message]"

text \<open>An error of \<^verbatim>\<open>str.format\<close> other than the three kinds caught would escape: None.\<close>

definition fill_template :: "(replacement \<Rightarrow> format_error + utext) \<Rightarrow> (utext \<Rightarrow> utext option) \<Rightarrow> utext \<Rightarrow> (dedication_error + utext) option" where
  "fill_template special vals t =
     (case format_template special vals t of
        Inl Format_Other \<Rightarrow> None
      | Inl _ \<Rightarrow> Some (Inl Dedication_Template_Error)
      | Inr s \<Rightarrow> Some (if length s > MAX_RENDERED_SCRIPT_LENGTH then Inl Dedication_Input_Error else Inr s))"

record script_request =
  spoken_track :: "utext \<times> utext"
  requester :: raw_value
  dedication :: raw_value

record text_tables =
  to_nfc :: "utext \<Rightarrow> utext"
  is_letter :: "nat \<Rightarrow> bool"
  odd_field :: "replacement \<Rightarrow> format_error + utext"

definition script_of :: "text_tables \<Rightarrow> dedication_templates \<Rightarrow> utext \<times> utext \<Rightarrow> utext \<Rightarrow> utext \<Rightarrow> (dedication_error + utext) option" where
  "script_of u ts track name message =
     (case validate_template (template_for ts name message) of Inl e \<Rightarrow> Some (Inl e)
      | Inr _ \<Rightarrow> fill_template (odd_field u)
          (script_values (expand_featuring (is_letter u) (fst track)) (expand_featuring (is_letter u) (snd track)) name message)
          (template_for ts name message))"

definition render_dedication_script ::
  "text_tables \<Rightarrow> dedication_templates \<Rightarrow> nat \<Rightarrow> script_request \<Rightarrow> (dedication_error + utext) option" where
  "render_dedication_script u ts limit q =
     (case normalize_requester_name (to_nfc u) (requester q) of Inl e \<Rightarrow> Some (Inl e)
      | Inr name \<Rightarrow>
          (case normalize_dedication_message (to_nfc u) (dedication q) of Inl e \<Rightarrow> Some (Inl e)
           | Inr message \<Rightarrow>
               if length message > limit then Some (Inl Dedication_Input_Error)
               else script_of u ts (spoken_track q) name message))"

section \<open>Templates that are accepted\<close>

lemmas placeholder_defs = TITLE_def ARTIST_def REQUESTER_def MESSAGE_def

lemma placeholder_simple: "n \<in> ALLOWED_PLACEHOLDERS \<Longrightarrow> simple_name n \<and> 46 \<notin> set n \<and> 91 \<notin> set n \<and> 93 \<notin> set n"
  by (auto simp: ALLOWED_PLACEHOLDERS_def placeholder_defs simple_name_def cps_def)

lemma field_accepted: "\<not> field_refused f \<longleftrightarrow> plain_field ALLOWED_PLACEHOLDERS f"
  using placeholder_simple by (auto simp: field_refused_def plain_field_def simple_name_def split: option.splits)

lemma validate_ok:
  "validate_template t = Inr () \<longleftrightarrow> py_strip t \<noteq> [] \<and> length t \<le> TEMPLATE_MAX_LENGTH
     \<and> (\<exists>ms. parse_template t = Inr ms \<and> list_all (\<lambda>m. plain_field ALLOWED_PLACEHOLDERS (field m)) ms)"
proof -
  have "\<not> list_ex (\<lambda>m. field_refused (field m)) ms \<longleftrightarrow> list_all (\<lambda>m. plain_field ALLOWED_PLACEHOLDERS (field m)) ms" for ms
    by (simp add: list_ex_iff list_all_iff flip: field_accepted)
  then show ?thesis by (auto simp: validate_template_def split: sum.splits)
qed

lemma values_total: "ALLOWED_PLACEHOLDERS \<subseteq> dom (script_values title artist name message)"
  by (auto simp: ALLOWED_PLACEHOLDERS_def script_values_def)

lemma validated_formats:
  assumes "validate_template t = Inr ()"
  obtains ms where "parse_template t = Inr ms" "list_all (\<lambda>m. plain_field ALLOWED_PLACEHOLDERS (field m)) ms"
    "format_template special (script_values title artist name message) t = Inr (concat (map (piece (script_values title artist name message)) ms))"
  using assms format_plain [OF _ _ values_total] by (auto simp: validate_ok)

lemma join_blank_words: "list_all is_word ws \<Longrightarrow> py_split (join_blank ws) = ws"
proof (induction ws rule: join_blank.induct)
  case (3 w v ws)
  have "py_split (w @ 32 # join_blank (v # ws)) = py_split w @ py_split (join_blank (v # ws))" by (rule py_split_append) simp
  then show ?case using 3 by (simp add: py_split_word_only)
qed (simp_all add: py_split_word_only)

lemma clean_text_words:
  assumes "clean_text nfc raw = Inr t"
  shows "t = join_blank (py_split t)"
proof (cases raw)
  case (Text_Value s)
  let ?ws = "py_split (strip_unsafe_control_characters (nfc s))"
  have "list_all is_word ?ws" using py_split_words by (auto simp: list_all_iff)
  then show ?thesis using assms Text_Value by (auto simp: clean_text_def join_blank_words)
qed (use assms in \<open>auto simp: clean_text_def\<close>)

section \<open>Properties\<close>

definition default_templates :: dedication_templates where
  "default_templates = \<lparr>named_message = cps ''Now here's {title} by {artist}, {dedication_message} Thanks {requester_name} for your dedication.'',
     named_request = cps ''Now here's {title} by {artist}. Thanks {requester_name} for your request.'',
     anonymous_message = cps ''Now here's {title} by {artist}, {dedication_message}'',
     anonymous_request = cps ''Now here's {title} by {artist}.''\<rparr>"


text \<open>What a template says with the given values: its literal text and the values, never read again.\<close>

definition spoken_text :: "(utext \<Rightarrow> utext option) \<Rightarrow> utext \<Rightarrow> utext" where
  "spoken_text vals t = (case parse_template t of Inl e \<Rightarrow> [] | Inr ms \<Rightarrow> concat (map (piece vals) ms))"

lemma fill_validated:
  assumes "validate_template t = Inr ()"
  shows "fill_template special (script_values title artist name message) t
    = Some (guardR (length (spoken_text (script_values title artist name message) t) \<le> MAX_RENDERED_SCRIPT_LENGTH) Dedication_Input_Error
        (Inr (spoken_text (script_values title artist name message) t)))"
proof -
  obtain ms where "parse_template t = Inr ms"
    "format_template special (script_values title artist name message) t = Inr (concat (map (piece (script_values title artist name message)) ms))"
    using validated_formats [OF assms, where special = special] by blast
  then show ?thesis by (simp add: fill_template_def spoken_text_def guardR_def)
qed

text \<open>A script is refused exactly for an input that is no text, a message beyond the limit, a template that does not
  validate, or a result above 600 characters, in this order; no error of the formatting occurs or escapes, and the
  listener's and the track's text is put in as it is.\<close>
theorem script_decided:
  "render_dedication_script u ts limit q = Some (
     bindR (normalize_requester_name (to_nfc u) (requester q)) (\<lambda>name.
     bindR (normalize_dedication_message (to_nfc u) (dedication q)) (\<lambda>message.
     guardR (length message \<le> limit) Dedication_Input_Error (
     guardR (validate_template (template_for ts name message) = Inr ()) Dedication_Template_Error (
       let s = spoken_text (script_values (expand_featuring (is_letter u) (fst (spoken_track q)))
                 (expand_featuring (is_letter u) (snd (spoken_track q))) name message) (template_for ts name message)
       in guardR (length s \<le> MAX_RENDERED_SCRIPT_LENGTH) Dedication_Input_Error (Inr s))))))"
proof (cases "normalize_requester_name (to_nfc u) (requester q)")
  case (Inl e)
  then show ?thesis by (simp add: render_dedication_script_def)
next
  case name: (Inr name)
  show ?thesis
  proof (cases "normalize_dedication_message (to_nfc u) (dedication q)")
    case (Inl e)
    then show ?thesis using name by (simp add: render_dedication_script_def)
  next
    case message: (Inr message)
    have script: "script_of u ts (spoken_track q) name message =
      Some (guardR (validate_template (template_for ts name message) = Inr ()) Dedication_Template_Error (
       let s = spoken_text (script_values (expand_featuring (is_letter u) (fst (spoken_track q)))
                 (expand_featuring (is_letter u) (snd (spoken_track q))) name message) (template_for ts name message)
       in guardR (length s \<le> MAX_RENDERED_SCRIPT_LENGTH) Dedication_Input_Error (Inr s)))"
    proof (cases "validate_template (template_for ts name message)")
      case (Inl e)
      then have "e = Dedication_Template_Error" by (auto simp: validate_template_def split: if_splits sum.splits)
      then show ?thesis using Inl by (simp add: script_of_def)
    next
      case (Inr x)
      then show ?thesis by (simp add: script_of_def fill_validated Let_def)
    qed
    then show ?thesis using name message by (simp add: render_dedication_script_def guardR_def)
  qed
qed

lemma message_ends: "normalize_dedication_message nfc raw = Inr v \<Longrightarrow> v = [] \<or> ended v"
  by (auto simp: normalize_dedication_message_def bindR_eq_Inr ended_def cps_def split: if_splits)

subsection \<open>The properties at work\<close>


end
