(* ===== verification/Schedule_Resolution.thy ===== *)
theory Schedule_Resolution
  imports Air_Prelude "HOL-Library.AList"
begin

text \<open>
  \<^verbatim>\<open>library/services/schedule_resolution.py\<close>, and the exact-hour resolver of
  \<^verbatim>\<open>library/services/log_builder.py\<close>: which schedule row is on the air at each minute of an
  hour. Rows of the \<^verbatim>\<open>ScheduleBlock\<close> table are records, the dictionaries
  \<^verbatim>\<open>{minute: row}\<close> association lists in insertion order, dates ordinal day numbers
  (\<^verbatim>\<open>date.toordinal\<close>).
\<close>

record tod =
  tod_hour :: nat
  tod_minute :: nat
  tod_second :: nat
  tod_micro :: int

record schedule_block =
  block_pk :: nat
  profile_id :: nat
  day_of_week :: "nat option"
  specific_date :: "int option"
  start_time :: tod
  end_time :: tod
  rotation_id :: "nat option"
  playlist_id :: "nat option"

datatype origin = DateOverride | Weekly | NoOrigin

record schedule_segment =
  start_minute :: nat
  block :: schedule_block
  seg_origin :: origin

definition minute_of :: "schedule_block \<Rightarrow> nat option" where
  "minute_of row = (if tod_second (start_time row) \<noteq> 0 \<or> tod_micro (start_time row) \<noteq> 0 then None
     else Some (tod_minute (start_time row)))"

type_synonym layer_index = "(nat \<times> schedule_block) list"

definition index_row :: "layer_index \<Rightarrow> schedule_block \<Rightarrow> layer_index" where
  "index_row by_minute row =
     (case minute_of row of None \<Rightarrow> by_minute | Some m \<Rightarrow> AList.update m row by_minute)"

definition index_rows :: "schedule_block list \<Rightarrow> layer_index" where
  "index_rows rows = foldl index_row [] rows"

definition effective_at :: "nat \<Rightarrow> layer_index \<Rightarrow> layer_index \<Rightarrow> schedule_block option \<times> origin" where
  "effective_at m weekly dated =
     (let dated_starts = filter (\<lambda>k. k \<le> m) (map fst dated) in
      if dated_starts \<noteq> [] then (map_of dated (Max (set dated_starts)), DateOverride)
      else let weekly_starts = filter (\<lambda>k. k \<le> m) (map fst weekly) in
        if weekly_starts \<noteq> [] then (map_of weekly (Max (set weekly_starts)), Weekly)
        else (None, NoOrigin))"

text \<open>The loop of \<^verbatim>\<open>effective_segments\<close>; the last argument is \<^verbatim>\<open>previous\<close>.\<close>

fun segment_loop ::
  "layer_index \<Rightarrow> layer_index \<Rightarrow> nat list \<Rightarrow> schedule_block option \<Rightarrow> schedule_segment list" where
  "segment_loop weekly dated [] previous = []"
| "segment_loop weekly dated (m # ms) previous =
     (case effective_at m weekly dated of
        (None, _) \<Rightarrow> segment_loop weekly dated ms previous
      | (Some row, orig) \<Rightarrow>
          if (case previous of None \<Rightarrow> False | Some p \<Rightarrow> block_pk row = block_pk p)
          then segment_loop weekly dated ms previous
          else \<lparr>start_minute = m, block = row, seg_origin = orig\<rparr>
               # segment_loop weekly dated ms (Some row))"

definition effective_segments ::
  "schedule_block list \<Rightarrow> schedule_block list \<Rightarrow> schedule_segment list" where
  "effective_segments weekly_rows dated_rows =
     (let weekly = index_rows weekly_rows; dated = index_rows dated_rows in
      segment_loop weekly dated (sort (remdups (map fst weekly @ map fst dated))) None)"

datatype edit_layer = WeeklyLayer | DateLayer

record minute_entry =
  entry_minute :: nat
  entry_origin :: origin
  effective_block :: "schedule_block option"
  explicit_block :: "schedule_block option"
  inherited_transition :: bool
  segment_start :: bool
  has_base :: bool
  continuation :: bool
  orphan :: bool

definition minute_map ::
  "schedule_block list \<Rightarrow> schedule_block list \<Rightarrow> edit_layer \<Rightarrow> minute_entry list" where
  "minute_map weekly_rows dated_rows layer =
     (let weekly = index_rows weekly_rows; dated = index_rows dated_rows;
          segments = effective_segments weekly_rows dated_rows;
          base = (segments \<noteq> [] \<and> start_minute (hd segments) = 0);
          starts = map start_minute segments;
          edited = (if layer = DateLayer then dated else weekly)
      in map (\<lambda>m.
           let (row, orig) = effective_at m weekly dated; explicit = map_of edited m in
           \<lparr>entry_minute = m, entry_origin = orig, effective_block = row, explicit_block = explicit,
            inherited_transition = (layer = DateLayer \<and> m \<in> set (map fst weekly)
              \<and> explicit = None \<and> orig = Weekly),
            segment_start = m \<in> set starts, has_base = base,
            continuation = (row = None \<and> segments \<noteq> []), orphan = False\<rparr>) [0..<60])"

section \<open>Queries\<close>

text \<open>\<^verbatim>\<open>time\<close> values compare by their microsecond of the day; \<^verbatim>\<open>date.weekday()\<close> counts from Monday.\<close>

definition micros :: "tod \<Rightarrow> int" where
  "micros t = ((int (tod_hour t) * 60 + int (tod_minute t)) * 60 + int (tod_second t)) * 1000000
     + tod_micro t"

definition tod_valid :: "tod \<Rightarrow> bool" where
  "tod_valid t \<longleftrightarrow> tod_hour t < 24 \<and> tod_minute t < 60 \<and> tod_second t < 60 \<and> 0 \<le> tod_micro t \<and> tod_micro t < 1000000"

definition weekday :: "int \<Rightarrow> nat" where
  "weekday d = nat ((d + 6) mod 7)"

definition hour_bounds :: "nat \<Rightarrow> tod \<times> tod" where
  "hour_bounds h = (\<lparr>tod_hour = h, tod_minute = 0, tod_second = 0, tod_micro = 0\<rparr>,
     \<lparr>tod_hour = h, tod_minute = 59, tod_second = 59, tod_micro = 999999\<rparr>)"

definition rows_in_hour :: "schedule_block list \<Rightarrow> nat \<Rightarrow> nat \<Rightarrow> schedule_block list" where
  "rows_in_hour blocks p h =
     (let (low, high) = hour_bounds h in
      filter (\<lambda>r. profile_id r = p \<and> micros low \<le> micros (start_time r)
                \<and> micros (start_time r) \<le> micros high) blocks)"

definition load_hour_rows ::
  "schedule_block list \<Rightarrow> nat \<Rightarrow> int \<Rightarrow> nat \<Rightarrow> schedule_block list \<times> schedule_block list" where
  "load_hour_rows blocks p d h =
     (let in_hour = rows_in_hour blocks p h in
      (filter (\<lambda>r. day_of_week r = Some (weekday d) \<and> specific_date r = None) in_hour,
       filter (\<lambda>r. specific_date r = Some d \<and> day_of_week r = None) in_hour))"

definition load_weekly_hour_rows :: "schedule_block list \<Rightarrow> nat \<Rightarrow> nat \<Rightarrow> nat \<Rightarrow> schedule_block list" where
  "load_weekly_hour_rows blocks p day h =
     filter (\<lambda>r. day_of_week r = Some day \<and> specific_date r = None) (rows_in_hour blocks p h)"

definition resolve_schedule_segments ::
  "schedule_block list \<Rightarrow> int \<Rightarrow> nat \<Rightarrow> nat \<Rightarrow> schedule_segment list" where
  "resolve_schedule_segments blocks d h p =
     (let (weekly, dated) = load_hour_rows blocks p d h in effective_segments weekly dated)"

definition detail_counts_for_date :: "schedule_block list \<Rightarrow> nat \<Rightarrow> int \<Rightarrow> (nat \<times> nat) list" where
  "detail_counts_for_date blocks p d =
     (let weekly = filter (\<lambda>r. profile_id r = p \<and> day_of_week r = Some (weekday d)
                             \<and> specific_date r = None) blocks;
          dated = filter (\<lambda>r. profile_id r = p \<and> specific_date r = Some d \<and> day_of_week r = None) blocks;
          by_hour = (\<lambda>rows h. filter (\<lambda>r. tod_hour (start_time r) = h) rows);
          hours = sort (remdups (map (\<lambda>r. tod_hour (start_time r)) (weekly @ dated)));
          count = (\<lambda>h. length (filter (\<lambda>s. 0 < start_minute s)
                     (effective_segments (by_hour weekly h) (by_hour dated h))))
      in map (\<lambda>h. (h, count h)) (filter (\<lambda>h. count h \<noteq> 0) hours))"

text \<open>
  \<^verbatim>\<open>log_builder.resolve_schedule_block\<close> with its profile given; \<^verbatim>\<open>first()\<close> is the first row in
  table order (at most one can match: the slot constraints of the table).
\<close>

definition resolve_schedule_block :: "schedule_block list \<Rightarrow> int \<Rightarrow> nat \<Rightarrow> nat \<Rightarrow> schedule_block option" where
  "resolve_schedule_block blocks d h p =
     (let t = \<lparr>tod_hour = h, tod_minute = 0, tod_second = 0, tod_micro = 0\<rparr>;
          in_profile = filter (\<lambda>r. profile_id r = p \<and> start_time r = t) blocks in
      case find (\<lambda>r. specific_date r = Some d) in_profile of
        Some row \<Rightarrow> Some row
      | None \<Rightarrow> find (\<lambda>r. day_of_week r = Some (weekday d) \<and> specific_date r = None) in_profile)"

section \<open>Indexes\<close>

lemma index_rows_snoc: "index_rows (rows @ [r]) = index_row (index_rows rows) r"
  by (simp add: index_rows_def)

lemma index_rows_Nil [simp]: "index_rows [] = []"
  by (simp add: index_rows_def)

lemma index_distinct: "distinct (map fst (index_rows rows))"
  by (induction rows rule: rev_induct)
     (auto simp: index_rows_snoc index_row_def distinct_update split: option.splits)

lemma index_range: "map_of (index_rows rows) m = Some r \<Longrightarrow> r \<in> set rows \<and> minute_of r = Some m"
  by (induction rows rule: rev_induct)
     (auto simp: index_rows_snoc index_row_def update_conv' split: option.splits if_splits)

lemma index_keys: "set (map fst (index_rows rows)) = {m. \<exists>r\<in>set rows. minute_of r = Some m}"
proof (induction rows rule: rev_induct)
  case (snoc r rows)
  then show ?case
    by (cases "minute_of r") (auto simp: index_rows_snoc index_row_def dom_update)
qed simp

lemma index_lookup: "m \<in> set (map fst (index_rows rows)) \<Longrightarrow> \<exists>r. map_of (index_rows rows) m = Some r"
  by (metis list.set_map map_of_eq_None_iff not_Some_eq)

section \<open>The reference: programming minute by minute\<close>

text \<open>
  What the layering promises, with no index and no segments: in one layer a row takes over at its
  minute and stays until the next one; the dated layer hides the weekly one from its first row on.
\<close>

primrec last_at :: "schedule_block list \<Rightarrow> nat \<Rightarrow> schedule_block option" where
  "last_at rows 0 = find (\<lambda>r. minute_of r = Some 0) (rev rows)"
| "last_at rows (Suc m) =
     (case find (\<lambda>r. minute_of r = Some (Suc m)) (rev rows) of Some r \<Rightarrow> Some r | None \<Rightarrow> last_at rows m)"

definition layered ::
  "schedule_block list \<Rightarrow> schedule_block list \<Rightarrow> nat \<Rightarrow> (schedule_block \<times> origin) option" where
  "layered weekly_rows dated_rows m =
     (case last_at dated_rows m of Some r \<Rightarrow> Some (r, DateOverride)
      | None \<Rightarrow> map_option (\<lambda>r. (r, Weekly)) (last_at weekly_rows m))"

text \<open>The programme on the air at a minute according to a list of segments.\<close>

definition on_air :: "schedule_segment list \<Rightarrow> nat \<Rightarrow> (schedule_block \<times> origin) option" where
  "on_air segs m =
     (case filter (\<lambda>s. start_minute s \<le> m) segs of [] \<Rightarrow> None
      | s # ss \<Rightarrow> Some (block (last (s # ss)), seg_origin (last (s # ss))))"

text \<open>The primary keys of the rows of the two layers differ.\<close>

definition keys_distinct :: "schedule_block list \<Rightarrow> schedule_block list \<Rightarrow> bool" where
  "keys_distinct weekly_rows dated_rows \<longleftrightarrow> distinct (map block_pk (weekly_rows @ dated_rows))"

lemma index_find: "map_of (index_rows rows) m = find (\<lambda>r. minute_of r = Some m) (rev rows)"
  by (induction rows rule: rev_induct)
     (auto simp: index_rows_snoc index_row_def update_conv' split: option.splits)

lemma find_key: "(find (\<lambda>r. minute_of r = Some m) (rev rows) = None) \<longleftrightarrow> m \<notin> set (map fst (index_rows rows))"
  by (metis index_find list.set_map map_of_eq_None_iff)

lemma last_at_gap:
  "k \<le> m \<Longrightarrow> \<forall>j. k < j \<and> j \<le> m \<longrightarrow> j \<notin> set (map fst (index_rows rows)) \<Longrightarrow> last_at rows m = last_at rows k"
proof (induction m)
  case (Suc m)
  show ?case
  proof (cases "k = Suc m")
    case False
    with Suc.prems have "Suc m \<notin> set (map fst (index_rows rows))" by auto
    then have "find (\<lambda>r. minute_of r = Some (Suc m)) (rev rows) = None" by (simp only: find_key not_False_eq_True)
    with Suc False show ?thesis by simp
  qed simp
qed simp

lemma last_at_none: "\<forall>j\<le>m. j \<notin> set (map fst (index_rows rows)) \<Longrightarrow> last_at rows m = None"
proof (induction m)
  case 0
  then have "find (\<lambda>r. minute_of r = Some 0) (rev rows) = None" by (simp only: find_key) simp
  then show ?case by simp
next
  case (Suc m)
  then have "find (\<lambda>r. minute_of r = Some (Suc m)) (rev rows) = None" by (simp only: find_key) simp
  with Suc show ?case by simp
qed

lemma last_at_key: "k \<in> set (map fst (index_rows rows)) \<Longrightarrow> last_at rows k = map_of (index_rows rows) k"
  using index_lookup [of k rows] by (cases k) (auto simp: index_find)

lemma last_at_index:
  "last_at rows m = (let ks = filter (\<lambda>k. k \<le> m) (map fst (index_rows rows)) in
     if ks \<noteq> [] then map_of (index_rows rows) (Max (set ks)) else None)"
proof (cases "filter (\<lambda>k. k \<le> m) (map fst (index_rows rows)) = []")
  case True
  then have "\<forall>j\<le>m. j \<notin> set (map fst (index_rows rows))" by (auto simp: filter_empty_conv)
  with True show ?thesis by (simp add: last_at_none)
next
  case False
  define ks where "ks = filter (\<lambda>k. k \<le> m) (map fst (index_rows rows))"
  have "Max (set ks) \<in> set ks" using False unfolding ks_def by (intro Max_in) (simp, simp only: set_empty, simp)
  then have k: "Max (set ks) \<le> m" "Max (set ks) \<in> set (map fst (index_rows rows))" by (auto simp: ks_def)
  have "j \<notin> set (map fst (index_rows rows))" if "Max (set ks) < j \<and> j \<le> m" for j
  proof
    assume "j \<in> set (map fst (index_rows rows))"
    with that have "j \<in> set ks" by (auto simp: ks_def)
    then have "j \<le> Max (set ks)" by simp
    with that show False by simp
  qed
  then have "last_at rows m = last_at rows (Max (set ks))" using k(1) by (intro last_at_gap) auto
  with k(2) False show ?thesis by (simp add: Let_def last_at_key flip: ks_def)
qed

lemma last_at_exists:
  "k \<in> set (map fst (index_rows rows)) \<Longrightarrow> k \<le> m \<Longrightarrow> \<exists>r. last_at rows m = Some r"
proof (induction m)
  case 0
  then show ?case using index_lookup [of 0 rows] by (simp add: index_find)
next
  case (Suc m)
  then show ?case
    using index_lookup [of "Suc m" rows] by (cases "k = Suc m") (auto simp: index_find split: option.splits)
qed

lemma effective_at_layered:
  "effective_at m (index_rows w) (index_rows d)
     = (case layered w d m of Some (r, orig) \<Rightarrow> (Some r, orig) | None \<Rightarrow> (None, NoOrigin))"
proof -
  have some: "filter (\<lambda>k. k \<le> m) (map fst (index_rows rows)) \<noteq> [] \<Longrightarrow> \<exists>r. last_at rows m = Some r" for rows
    using last_at_exists [of _ rows m] by (auto simp: filter_empty_conv)
  have eq: "last_at rows m = (if filter (\<lambda>k. k \<le> m) (map fst (index_rows rows)) \<noteq> []
     then map_of (index_rows rows) (Max (set (filter (\<lambda>k. k \<le> m) (map fst (index_rows rows))))) else None)" for rows
    by (simp only: last_at_index [of rows m] Let_def)
  show ?thesis
    unfolding effective_at_def layered_def Let_def
    using some [of d] some [of w] eq [of d] eq [of w] by (auto split: if_splits)
qed

lemma layered_key: "k \<in> set (map fst (index_rows w)) \<union> set (map fst (index_rows d)) \<Longrightarrow> layered w d k \<noteq> None"
proof (cases "k \<in> set (map fst (index_rows d))")
  case True
  then show ?thesis using last_at_exists [of k d k] by (auto simp: layered_def simp del: list.set_map)
next
  case False
  moreover assume "k \<in> set (map fst (index_rows w)) \<union> set (map fst (index_rows d))"
  ultimately have "k \<in> set (map fst (index_rows w))" by blast
  then show ?thesis using last_at_exists [of k w k]
    by (auto simp: layered_def simp del: list.set_map split: option.splits)
qed

lemma find_in_set: "find P xs = Some x \<Longrightarrow> x \<in> set xs"
  by (auto simp: find_Some_iff)

lemma last_at_in_set: "last_at rows m = Some r \<Longrightarrow> r \<in> set rows"
  by (induction m) (auto dest: find_in_set split: option.splits)

lemma layered_range:
  "layered w d m = Some (r, orig) \<Longrightarrow> (orig = DateOverride \<and> r \<in> set d) \<or> (orig = Weekly \<and> r \<in> set w)"
  by (auto simp: layered_def dest: last_at_in_set split: option.splits)

lemma pk_inj:
  "keys_distinct w d \<Longrightarrow> r \<in> set w \<union> set d \<Longrightarrow> r' \<in> set w \<union> set d \<Longrightarrow> block_pk r = block_pk r' \<Longrightarrow> r = r'"
  unfolding keys_distinct_def distinct_map by (metis inj_on_contraD set_append)

lemma pk_layers: "keys_distinct w d \<Longrightarrow> r \<in> set w \<Longrightarrow> r \<notin> set d"
  by (auto simp: keys_distinct_def)

lemma layered_same_key:
  assumes "keys_distinct w d" and "layered w d i = Some (r, orig)" and "layered w d j = Some (r', orig')"
  shows "block_pk r = block_pk r' \<longleftrightarrow> (r, orig) = (r', orig')"
proof
  assume "block_pk r = block_pk r'"
  moreover have "r \<in> set w \<union> set d" "r' \<in> set w \<union> set d"
    using layered_range [OF assms(2)] layered_range [OF assms(3)] by auto
  ultimately have "r = r'" using pk_inj [OF assms(1)] by blast
  then show "(r, orig) = (r', orig')"
    using layered_range [OF assms(2)] layered_range [OF assms(3)] pk_layers [OF assms(1)] by blast
qed simp

section \<open>Segments\<close>

lemma segment_loop_Cons:
  "segment_loop (index_rows w) (index_rows d) (m # ms) previous =
     (case layered w d m of
        None \<Rightarrow> segment_loop (index_rows w) (index_rows d) ms previous
      | Some (row, orig) \<Rightarrow>
          if (case previous of None \<Rightarrow> False | Some p \<Rightarrow> block_pk row = block_pk p)
          then segment_loop (index_rows w) (index_rows d) ms previous
          else \<lparr>start_minute = m, block = row, seg_origin = orig\<rparr>
               # segment_loop (index_rows w) (index_rows d) ms (Some row))"
  by (simp add: effective_at_layered split: option.splits prod.splits)

declare segment_loop.simps(2) [simp del]

text \<open>What is on the air after the loop, from what was on the air before it.\<close>

definition carried :: "'a option \<Rightarrow> 'a list \<Rightarrow> 'a option" where
  "carried p xs = (if xs = [] then p else Some (last xs))"

lemma carried_simps [simp]: "carried p [] = p" "carried p (x # xs) = carried (Some x) xs"
  by (simp_all add: carried_def)

definition segs_until :: "schedule_segment list \<Rightarrow> nat \<Rightarrow> (schedule_block \<times> origin) list" where
  "segs_until segs m = map (\<lambda>s. (block s, seg_origin s)) (filter (\<lambda>s. start_minute s \<le> m) segs)"

lemma on_air_carried: "on_air segs m = carried None (segs_until segs m)"
  by (auto simp: on_air_def segs_until_def carried_def last_map split: list.splits)

lemma segment_loop_step:
  obtains q where "segment_loop w d (m # ms) p = segment_loop w d ms q"
  | s q where "segment_loop w d (m # ms) p = s # segment_loop w d ms q" and "start_minute s = m"
proof (cases "effective_at m w d")
  case (Pair r orig)
  show thesis
  proof (cases "r = None \<or> (\<exists>x y. r = Some x \<and> p = Some y \<and> block_pk x = block_pk y)")
    case True
    with Pair show thesis by (intro that(1)) (auto simp: segment_loop.simps)
  next
    case False
    then obtain x where "r = Some x" by auto
    with Pair False show thesis by (intro that(2)) (auto simp: segment_loop.simps split: option.splits)
  qed
qed

lemma segment_loop_starts: "set (map start_minute (segment_loop w d ms p)) \<subseteq> set ms"
proof (induction ms arbitrary: p)
  case (Cons m ms)
  show ?case using Cons.IH by (rule_tac w = w and d = d and m = m and ms = ms and p = p in segment_loop_step) auto
qed simp

lemma segment_loop_carried:
  assumes "keys_distinct w d"
  shows "sorted_wrt (<) ms \<Longrightarrow> \<forall>k\<in>set ms. layered w d k \<noteq> None \<Longrightarrow>
    (\<forall>x. p = Some x \<longrightarrow> (\<exists>j. layered w d j = Some x)) \<Longrightarrow>
    carried p (segs_until (segment_loop (index_rows w) (index_rows d) ms (map_option fst p)) m)
      = carried p (map (\<lambda>k. the (layered w d k)) (filter (\<lambda>k. k \<le> m) ms))"
proof (induction ms arbitrary: p)
  case Nil
  then show ?case by (simp add: segs_until_def)
next
  case (Cons k ms)
  obtain row orig where k: "layered w d k = Some (row, orig)" using Cons.prems(2) by auto
  have IH: "carried q (segs_until (segment_loop (index_rows w) (index_rows d) ms (map_option fst q)) m)
      = carried q (map (\<lambda>k. the (layered w d k)) (filter (\<lambda>k. k \<le> m) ms))"
    if "\<forall>x. q = Some x \<longrightarrow> (\<exists>j. layered w d j = Some x)" for q
    using Cons.prems that by (intro Cons.IH) auto
  show ?case
  proof (cases "k \<le> m")
    case False
    then have "filter (\<lambda>k. k \<le> m) (k # ms) = []"
      using Cons.prems(1) by (auto simp: filter_empty_conv)
    moreover have "segs_until (segment_loop (index_rows w) (index_rows d) (k # ms) (map_option fst p)) m = []"
    proof -
      have "start_minute s \<in> set (k # ms)"
        if "s \<in> set (segment_loop (index_rows w) (index_rows d) (k # ms) (map_option fst p))" for s
        using segment_loop_starts that by fastforce
      then show ?thesis using False Cons.prems(1)
        by (fastforce simp: segs_until_def filter_empty_conv)
    qed
    ultimately show ?thesis by simp
  next
    case True
    show ?thesis
    proof (cases "\<exists>x. p = Some x \<and> block_pk row = block_pk (fst x)")
      case dup: True
      then obtain x where x: "p = Some x" "block_pk row = block_pk (fst x)" by blast
      with Cons.prems(3) obtain j where "layered w d j = Some (fst x, snd x)" by auto
      with layered_same_key [OF assms k] x(2) have "x = (row, orig)" by (metis prod.collapse)
      with x k True IH [OF Cons.prems(3)] show ?thesis by (simp add: segment_loop_Cons)
    next
      case new: False
      have "segs_until (segment_loop (index_rows w) (index_rows d) (k # ms) (map_option fst p)) m
        = (row, orig) # segs_until (segment_loop (index_rows w) (index_rows d) ms (Some row)) m"
        using new True by (cases p) (auto simp: segment_loop_Cons k segs_until_def)
      with IH [of "Some (row, orig)"] k True show ?thesis by auto
    qed
  qed
qed

lemma segment_loop_sorted:
  "sorted_wrt (<) ms \<Longrightarrow> sorted_wrt (<) (map start_minute (segment_loop w d ms p))"
proof (induction ms arbitrary: p)
  case (Cons m ms)
  have later: "m < start_minute s" if "s \<in> set (segment_loop w d ms q)" for s q
    using segment_loop_starts that Cons.prems by fastforce
  have sorted_ms: "sorted_wrt (<) ms" using Cons.prems by simp
  show ?case
  proof (rule segment_loop_step [of w d m ms p])
    show ?thesis if "segment_loop w d (m # ms) p = segment_loop w d ms q" for q
      unfolding that by (rule Cons.IH [OF sorted_ms])
    show ?thesis if "segment_loop w d (m # ms) p = s # segment_loop w d ms q" "start_minute s = m" for s q
      unfolding that(1) using Cons.IH [OF sorted_ms] later that(2) by auto
  qed
qed simp

definition row_minutes :: "schedule_block list \<Rightarrow> schedule_block list \<Rightarrow> nat list" where
  "row_minutes w d = sort (remdups (map fst (index_rows w) @ map fst (index_rows d)))"

lemma row_minutes_sorted: "sorted_wrt (<) (row_minutes w d)"
  by (simp add: row_minutes_def strict_sorted_iff)

lemma row_minutes_set: "set (row_minutes w d) = set (map fst (index_rows w)) \<union> set (map fst (index_rows d))"
  by (simp add: row_minutes_def)

lemma effective_segments_loop:
  "effective_segments w d = segment_loop (index_rows w) (index_rows d) (row_minutes w d) None"
  by (simp add: effective_segments_def row_minutes_def Let_def)

lemma layered_gap:
  assumes "k \<le> m" and "\<forall>j. k < j \<and> j \<le> m \<longrightarrow> j \<notin> set (row_minutes w d)"
  shows "layered w d m = layered w d k"
proof -
  have "last_at w m = last_at w k" and "last_at d m = last_at d k"
    using assms by (auto intro!: last_at_gap simp: row_minutes_set simp del: list.set_map)
  then show ?thesis unfolding layered_def by (simp cong: option.case_cong)
qed

lemma layered_none: "\<forall>j\<le>m. j \<notin> set (row_minutes w d) \<Longrightarrow> layered w d m = None"
  by (simp add: layered_def last_at_none row_minutes_set)

lemma layered_carried:
  "layered w d m = carried None (map (\<lambda>k. the (layered w d k)) (filter (\<lambda>k. k \<le> m) (row_minutes w d)))"
proof (cases "filter (\<lambda>k. k \<le> m) (row_minutes w d) = []")
  case True
  then have "layered w d m = None" by (intro layered_none) (auto simp: filter_empty_conv)
  with True show ?thesis by (simp add: carried_def)
next
  case False
  define ks where "ks = filter (\<lambda>k. k \<le> m) (row_minutes w d)"
  have in_ks: "last ks \<in> set ks" unfolding ks_def by (rule last_in_set [OF False])
  then have k: "last ks \<le> m" "last ks \<in> set (row_minutes w d)" by (auto simp: ks_def)
  have "sorted ks" by (simp add: ks_def row_minutes_def sorted_wrt_filter)
  have "j \<notin> set (row_minutes w d)" if "last ks < j \<and> j \<le> m" for j
  proof
    assume "j \<in> set (row_minutes w d)"
    with that have "j \<in> set ks" by (simp add: ks_def)
    then have "j \<le> last ks" using \<open>sorted ks\<close>
      by (metis append_butlast_last_id empty_iff le_refl list.set(1) set_ConsD sorted_append
          list.set_intros(1) Un_iff set_append)
    with that show False by simp
  qed
  then have "layered w d m = layered w d (last ks)" using k(1) by (intro layered_gap) auto
  moreover have "layered w d (last ks) \<noteq> None" using k(2) by (intro layered_key) (simp add: row_minutes_set)
  ultimately show ?thesis using False by (simp add: carried_def last_map flip: ks_def)
qed

lemma effective_segments_layered: "keys_distinct w d \<Longrightarrow> on_air (effective_segments w d) m = layered w d m"
proof -
  assume keys: "keys_distinct w d"
  have "\<forall>k\<in>set (row_minutes w d). layered w d k \<noteq> None"
    using layered_key row_minutes_set by blast
  from segment_loop_carried [OF keys row_minutes_sorted this, of None m]
  have "carried None (segs_until (effective_segments w d) m)
      = carried None (map (\<lambda>k. the (layered w d k)) (filter (\<lambda>k. k \<le> m) (row_minutes w d)))"
    by (simp add: effective_segments_loop)
  then show ?thesis by (simp add: on_air_carried flip: layered_carried)
qed

lemma effective_segments_sorted: "sorted_wrt (<) (map start_minute (effective_segments w d))"
  by (simp add: effective_segments_loop segment_loop_sorted row_minutes_sorted)

lemma segment_loop_adjacent:
  "distinct_adj (map block_pk (case p of None \<Rightarrow> [] | Some r \<Rightarrow> [r])
     @ map (\<lambda>s. block_pk (block s)) (segment_loop w d ms p))"
proof (induction ms arbitrary: p)
  case (Cons m ms)
  obtain r orig where e: "effective_at m w d = (r, orig)" by fastforce
  show ?case
  proof (cases r)
    case None
    then show ?thesis using Cons.IH [of p] e by (simp add: segment_loop.simps)
  next
    case (Some row)
    then show ?thesis using Cons.IH [of p] Cons.IH [of "Some row"] e
      by (cases p) (auto simp: segment_loop.simps)
  qed
qed (simp split: option.splits)

lemma effective_segments_adjacent: "distinct_adj (map (\<lambda>s. block_pk (block s)) (effective_segments w d))"
  using segment_loop_adjacent [of None] by (simp add: effective_segments_loop)

lemma starts_at:
  assumes "sorted_wrt (<) (map start_minute segs)" and "distinct_adj (map (\<lambda>s. block_pk (block s)) segs)"
  shows "m \<in> set (map start_minute segs)
    \<longleftrightarrow> on_air segs m \<noteq> None \<and> (m = 0 \<or> on_air segs (m - 1) \<noteq> on_air segs m)"
proof
  assume "m \<in> set (map start_minute segs)"
  then obtain s where s: "s \<in> set segs" "start_minute s = m" by auto
  then obtain xs ys where segs: "segs = xs @ s # ys" by (meson split_list)
  have before: "start_minute x < m" if "x \<in> set xs" for x
    using assms(1) s(2) that by (auto simp: segs sorted_wrt_append)
  have after: "m < start_minute y" if "y \<in> set ys" for y
    using assms(1) s(2) that by (auto simp: segs sorted_wrt_append)
  have all: "filter (\<lambda>s. start_minute s \<le> m) segs = xs @ [s]"
    using before after s(2) by (auto simp: segs filter_empty_conv filter_id_conv order_less_imp_le not_le)
  have now: "on_air segs m = Some (block s, seg_origin s)"
    by (simp add: on_air_carried segs_until_def all carried_def)
  have "on_air segs (m - 1) \<noteq> on_air segs m" if "0 < m"
  proof -
    have "filter (\<lambda>s. start_minute s \<le> m - 1) segs = xs"
    proof -
      have "filter (\<lambda>s. start_minute s \<le> m - 1) xs = xs" using before by (intro filter_True) fastforce
      moreover have "filter (\<lambda>s. start_minute s \<le> m - 1) ys = []" using after by (intro filter_False) fastforce
      ultimately show ?thesis using s(2) that by (simp add: segs)
    qed
    then have prev: "on_air segs (m - 1) = carried None (map (\<lambda>s. (block s, seg_origin s)) xs)"
      by (simp add: on_air_carried segs_until_def)
    show ?thesis
    proof (cases xs rule: rev_cases)
      case Nil
      with prev now show ?thesis by simp
    next
      case (snoc zs z)
      then have "block_pk (block z) \<noteq> block_pk (block s)"
        using assms(2) by (simp add: segs distinct_adj_append_iff)
      with prev now snoc show ?thesis by (auto simp: carried_def)
    qed
  qed
  with now show "on_air segs m \<noteq> None \<and> (m = 0 \<or> on_air segs (m - 1) \<noteq> on_air segs m)" by auto
next
  assume change: "on_air segs m \<noteq> None \<and> (m = 0 \<or> on_air segs (m - 1) \<noteq> on_air segs m)"
  show "m \<in> set (map start_minute segs)"
  proof (rule ccontr)
    assume not_in: "m \<notin> set (map start_minute segs)"
    have "filter (\<lambda>s. start_minute s \<le> m) segs = filter (\<lambda>s. start_minute s \<le> m - 1) segs"
      if "0 < m" using not_in that by (intro filter_cong) (auto simp: image_iff le_less)
    moreover have "filter (\<lambda>s. start_minute s \<le> 0) segs = []" if "m = 0"
      using not_in that by (auto simp: filter_empty_conv image_iff)
    ultimately show False using change by (cases "m = 0") (auto simp: on_air_def)
  qed
qed

lemma base_iff:
  assumes "keys_distinct w d"
  shows "effective_segments w d \<noteq> [] \<and> start_minute (hd (effective_segments w d)) = 0
    \<longleftrightarrow> layered w d 0 \<noteq> None"
proof -
  have "layered w d 0 \<noteq> None \<longleftrightarrow> 0 \<in> set (map start_minute (effective_segments w d))"
    using starts_at [OF effective_segments_sorted effective_segments_adjacent, of 0]
    by (simp add: effective_segments_layered [OF assms])
  also have "\<dots> \<longleftrightarrow> effective_segments w d \<noteq> [] \<and> start_minute (hd (effective_segments w d)) = 0"
    using effective_segments_sorted [of w d] by (cases "effective_segments w d") fastforce+
  finally show ?thesis by blast
qed

lemma inherited_iff:
  "m \<in> set (map fst (index_rows w)) \<and> map_of (index_rows d) m = None
     \<and> snd (effective_at m (index_rows w) (index_rows d)) = Weekly
   \<longleftrightarrow> (\<exists>r. layered w d m = Some (r, Weekly) \<and> minute_of r = Some m)" (is "?L \<longleftrightarrow> ?R")
proof
  assume L: ?L
  then obtain r where r: "layered w d m = Some (r, Weekly)"
    by (auto simp: effective_at_layered split: option.splits)
  then have "last_at w m = Some r" by (auto simp: layered_def split: option.splits)
  with L have "map_of (index_rows w) m = Some r" using last_at_key by metis
  with index_range r show ?R by blast
next
  assume ?R
  then obtain r where r: "layered w d m = Some (r, Weekly)" "minute_of r = Some m" by blast
  then have w: "last_at w m = Some r" and d: "last_at d m = None"
    by (auto simp: layered_def split: option.splits)
  have "m \<in> set (map fst (index_rows w))"
    using last_at_in_set [OF w] r(2) by (simp only: index_keys) blast
  moreover have "m \<notin> set (map fst (index_rows d))"
    using d last_at_exists [of m d m] by auto
  ultimately show ?L using r(1) by (simp add: effective_at_layered map_of_eq_None_iff)
qed

section \<open>The properties\<close>

text \<open>C6. The segments of an hour are the layering promised: at every minute the programme they give
  is the one of the minute-by-minute reference (the latest dated row so far, else the latest weekly
  row so far), the segments start at strictly increasing minutes, and no two neighbours are the
  same row. The only assumption is that primary keys identify rows.\<close>

theorem segments_match_minutes:
  assumes "keys_distinct weekly dated"
  shows "on_air (effective_segments weekly dated) m = layered weekly dated m
    \<and> sorted_wrt (<) (map start_minute (effective_segments weekly dated))
    \<and> distinct_adj (map (\<lambda>s. block_pk (block s)) (effective_segments weekly dated))"
  using assms effective_segments_layered effective_segments_sorted effective_segments_adjacent by blast

definition sample_block :: "nat \<Rightarrow> nat \<Rightarrow> nat option \<Rightarrow> int option \<Rightarrow> schedule_block" where
  "sample_block k m day date = \<lparr>block_pk = k, profile_id = 1, day_of_week = day, specific_date = date,
     start_time = \<lparr>tod_hour = 10, tod_minute = m, tod_second = 0, tod_micro = 0\<rparr>,
     end_time = \<lparr>tod_hour = 11, tod_minute = 0, tod_second = 0, tod_micro = 0\<rparr>,
     rotation_id = Some 1, playlist_id = None\<rparr>"

theorem segments_match_minutes_witness:
  "on_air (effective_segments [sample_block 1 0 (Some 0) None, sample_block 2 45 (Some 0) None]
                              [sample_block 3 30 None (Some 1)]) 50
     = layered [sample_block 1 0 (Some 0) None, sample_block 2 45 (Some 0) None]
               [sample_block 3 30 None (Some 1)] 50"
  using segments_match_minutes [of "[sample_block 1 0 (Some 0) None, sample_block 2 45 (Some 0) None]"
      "[sample_block 3 30 None (Some 1)]" 50]
  by (simp add: keys_distinct_def sample_block_def)

text \<open>The sixty entries of the Hour Detail grid describe the hour truthfully: entry m shows the
  row and the layer on the air at minute m; a segment starts exactly where the programme changes
  (or begins); an entry is a continuation exactly when nothing of the hour has
  started yet although the hour has segments; the base flag says that minute zero is programmed; and a weekly row is
  called inherited exactly when it is the one that takes over at that minute under the date layer.\<close>

theorem minute_map_truthful:
  assumes "keys_distinct weekly dated"
  shows "map entry_minute (minute_map weekly dated layer) = [0..<60]
    \<and> list_all (\<lambda>e. let m = entry_minute e; now = layered weekly dated m in
          effective_block e = map_option fst now
        \<and> entry_origin e = (case now of None \<Rightarrow> NoOrigin | Some x \<Rightarrow> snd x)
        \<and> (segment_start e \<longleftrightarrow> now \<noteq> None \<and> (m = 0 \<or> layered weekly dated (m - 1) \<noteq> now))
        \<and> (continuation e \<longleftrightarrow> now = None \<and> effective_segments weekly dated \<noteq> [])
        \<and> (has_base e \<longleftrightarrow> layered weekly dated 0 \<noteq> None)
        \<and> (inherited_transition e \<longleftrightarrow> layer = DateLayer
             \<and> (\<exists>r. now = Some (r, Weekly) \<and> minute_of r = Some m)))
      (minute_map weekly dated layer)"
proof -
  note now = effective_segments_layered [OF assms]
  note start = starts_at [OF effective_segments_sorted [of weekly dated] effective_segments_adjacent, unfolded now]
  note base = base_iff [OF assms]
  note inherited = inherited_iff [of _ weekly dated]
  have effective: "effective_at m (index_rows weekly) (index_rows dated)
      = (map_option fst (layered weekly dated m),
         case layered weekly dated m of None \<Rightarrow> NoOrigin | Some x \<Rightarrow> snd x)" for m
    by (auto simp: effective_at_layered split: option.splits)
  have explicit: "map_of (if layer = DateLayer then index_rows dated else index_rows weekly) m = None
      \<and> layer = DateLayer \<longleftrightarrow> map_of (index_rows dated) m = None \<and> layer = DateLayer" for m by auto
  have "minute_map weekly dated layer = map (\<lambda>m.
      \<lparr>entry_minute = m,
       entry_origin = (case layered weekly dated m of None \<Rightarrow> NoOrigin | Some x \<Rightarrow> snd x),
       effective_block = map_option fst (layered weekly dated m),
       explicit_block = map_of (if layer = DateLayer then index_rows dated else index_rows weekly) m,
       inherited_transition = (layer = DateLayer
         \<and> (\<exists>r. layered weekly dated m = Some (r, Weekly) \<and> minute_of r = Some m)),
       segment_start = (layered weekly dated m \<noteq> None
         \<and> (m = 0 \<or> layered weekly dated (m - 1) \<noteq> layered weekly dated m)),
       has_base = (layered weekly dated 0 \<noteq> None),
       continuation = (layered weekly dated m = None \<and> effective_segments weekly dated \<noteq> []),
       orphan = False\<rparr>) [0..<60]"
    unfolding minute_map_def Let_def base start [symmetric] inherited [symmetric] effective
    using explicit by (intro map_cong refl) auto
  then show ?thesis by (simp add: list_all_iff comp_def del: upt_rec_numeral)
qed

theorem minute_map_truthful_witness:
  "map entry_minute (minute_map [sample_block 1 20 (Some 0) None] [sample_block 3 30 None (Some 1)] DateLayer)
     = [0..<60]"
  using minute_map_truthful [of "[sample_block 1 20 (Some 0) None]" "[sample_block 3 30 None (Some 1)]" DateLayer]
  by (simp add: keys_distinct_def sample_block_def del: upt_rec_numeral)

lemma in_hour_iff:
  "tod_valid t \<Longrightarrow> micros (fst (hour_bounds h)) \<le> micros t \<and> micros t \<le> micros (snd (hour_bounds h))
     \<longleftrightarrow> tod_hour t = h"
  unfolding tod_valid_def micros_def hour_bounds_def by simp linarith

text \<open>The overview's count agrees with the resolver: for every hour of a date the number shown is
  the number of segments of \<^verbatim>\<open>resolve_schedule_segments\<close> that start after minute zero, and the
  hours with none are left out. (Rows are grouped by their hour here and by a range of times there.)\<close>

theorem detail_counts_agree:
  assumes "list_all (\<lambda>r. tod_valid (start_time r)) blocks"
  shows "map_of (detail_counts_for_date blocks p d) h
    = (let n = length (filter (\<lambda>s. 0 < start_minute s) (resolve_schedule_segments blocks d h p))
       in if n = 0 then None else Some n)"
proof -
  define weekly where "weekly = filter (\<lambda>r. profile_id r = p \<and> day_of_week r = Some (weekday d)
     \<and> specific_date r = None) blocks"
  define dated where "dated = filter (\<lambda>r. profile_id r = p \<and> specific_date r = Some d
     \<and> day_of_week r = None) blocks"
  define by_hour where "by_hour = (\<lambda>(rows :: schedule_block list) k. filter (\<lambda>r. tod_hour (start_time r) = k) rows)"
  define count where "count = (\<lambda>k. length (filter (\<lambda>s. 0 < start_minute s)
     (effective_segments (by_hour weekly k) (by_hour dated k))))"
  define hours where "hours = sort (remdups (map (\<lambda>r. tod_hour (start_time r)) (weekly @ dated)))"
  have "load_hour_rows blocks p d h = (by_hour weekly h, by_hour dated h)"
  proof -
    have "rows_in_hour blocks p h = filter (\<lambda>r. profile_id r = p \<and> tod_hour (start_time r) = h) blocks"
      unfolding rows_in_hour_def prod.case_eq_if Let_def
      using assms in_hour_iff [of _ h] by (intro filter_cong) (auto simp: list_all_iff)
    then show ?thesis
      by (auto simp: load_hour_rows_def weekly_def dated_def by_hour_def intro!: filter_cong)
  qed
  then have count: "count h = length (filter (\<lambda>s. 0 < start_minute s) (resolve_schedule_segments blocks d h p))"
    by (simp add: resolve_schedule_segments_def count_def)
  have "count h = 0" if "h \<notin> set hours"
  proof -
    have "by_hour weekly h = []" and "by_hour dated h = []"
      using that by (auto simp: hours_def by_hour_def filter_empty_conv)
    then show ?thesis by (simp add: count_def effective_segments_def)
  qed
  moreover have "detail_counts_for_date blocks p d
    = map (\<lambda>k. (k, count k)) (filter (\<lambda>k. count k \<noteq> 0) hours)"
    by (simp add: detail_counts_for_date_def Let_def weekly_def dated_def by_hour_def count_def hours_def)
  ultimately show ?thesis
    unfolding count [symmetric] by (auto simp: map_of_map_restrict restrict_map_def Let_def)
qed

theorem detail_counts_agree_witness:
  "map_of (detail_counts_for_date [sample_block 1 20 (Some 0) None, sample_block 3 30 None (Some 1)] 1 1) 10
    = Some 2"
proof -
  let ?rows = "[sample_block 1 20 (Some 0) None, sample_block 3 30 None (Some 1)]"
  have "length (filter (\<lambda>s. 0 < start_minute s) (resolve_schedule_segments ?rows 1 10 1)) = 2"
    by code_simp
  moreover have "list_all (\<lambda>r. tod_valid (start_time r)) ?rows" by (simp add: sample_block_def tod_valid_def)
  ultimately show ?thesis using detail_counts_agree [of ?rows 1 1 10] by simp
qed

end
