(* ===== verification/Schedule_Profiles.thy ===== *)
theory Schedule_Profiles
  imports Schedule_Resolution Air_Text "HOL-Library.List_Lexorder"
begin

text \<open>
  \<^verbatim>\<open>library/services/schedule_profiles.py\<close> over an explicit database: the profile table, the
  schedule rows, the profile column of the playlist logs and the singleton
  \<^verbatim>\<open>ScheduleProfileState\<close> row. Every operation is one transaction: it returns the new database
  or an error, and an error leaves the database as it was. The constraints of the tables
  (unique name and uuid, unique slots, protected foreign keys) are the model's own checks.
  A \<^verbatim>\<open>UUID\<close> is its 128-bit number (its canonical text is one-to-one with it); new ones are
  arguments. The two writing endpoints of \<^verbatim>\<open>library/views.py\<close> that edit rows are the
  operations \<open>schedule_put\<close> and \<open>schedule_delete\<close>.
\<close>

section \<open>The database\<close>

record profile_row =
  profile_pk :: nat
  uuid :: nat
  profile_name :: utext
  description :: utext
  sort_order :: int
  is_archived :: bool

record schedule_db =
  db_profiles :: "profile_row list"
  db_blocks :: "schedule_block list"
  db_logs :: "nat option list"
  db_state :: "(nat \<times> nat) option"
  db_rotations :: "nat list"
  db_playlists :: "nat list"
  profile_seq :: nat
  block_seq :: nat

text \<open>A value of a request body, as far as the operations take one.\<close>

datatype json = JNull | JText utext | JInt int

datatype blocker = ProfileIsActive | ProfileIsDefault | HasBlocks nat | HasLogs nat

datatype lifecycle_error =
    NameRequired | NameTooLong | NameTaken
  | UuidImmutable | UnsupportedFields "utext list" | SortOrderNotInteger
  | ExpectedUuidRequired | ExpectedUuidInvalid | StaleActivation nat
  | ArchivedReadOnly | ArchivedNotActivated | ArchivedNotDefault
  | CannotArchive "blocker list" | CannotDelete "blocker list"
  | StateMissing | DoesNotExist | IntegrityError | ProtectedError | NotAnInteger | MultipleObjects
  | BadRequest | ContentNotFound

type_synonym 'a op = "lifecycle_error + schedule_db \<times> 'a"

definition find_profile :: "schedule_db \<Rightarrow> nat \<Rightarrow> profile_row option" where
  "find_profile db pk = find (\<lambda>p. profile_pk p = pk) (db_profiles db)"

definition get_profile :: "schedule_db \<Rightarrow> nat \<Rightarrow> lifecycle_error + profile_row" where
  "get_profile db pk = (case find_profile db pk of None \<Rightarrow> Inl DoesNotExist | Some p \<Rightarrow> Inr p)"

definition put_profile :: "schedule_db \<Rightarrow> profile_row \<Rightarrow> schedule_db" where
  "put_profile db row =
     db\<lparr>db_profiles := map (\<lambda>p. if profile_pk p = profile_pk row then row else p) (db_profiles db)\<rparr>"

definition name_exists :: "schedule_db \<Rightarrow> utext \<Rightarrow> bool" where
  "name_exists db n \<longleftrightarrow> n \<in> set (map profile_name (db_profiles db))"

definition insert_profile ::
  "schedule_db \<Rightarrow> utext \<Rightarrow> utext \<Rightarrow> int \<Rightarrow> nat \<Rightarrow> nat op" where
  "insert_profile db n desc so new_uuid =
     (if name_exists db n \<or> new_uuid \<in> set (map uuid (db_profiles db)) then Inl IntegrityError
      else Inr (db\<lparr>db_profiles := db_profiles db @ [\<lparr>profile_pk = profile_seq db, uuid = new_uuid,
                     profile_name = n, description = desc, sort_order = so, is_archived = False\<rparr>],
                   profile_seq := Suc (profile_seq db)\<rparr>, profile_seq db))"

text \<open>What makes two rows the same slot: the two partial unique constraints of \<^verbatim>\<open>ScheduleBlock\<close>.\<close>

definition slot_of :: "schedule_block \<Rightarrow> nat \<times> nat option \<times> int option \<times> tod" where
  "slot_of b = (profile_id b, day_of_week b, specific_date b, start_time b)"

section \<open>Shared steps\<close>

definition str_or_empty :: "json \<Rightarrow> utext" where
  "str_or_empty v = (case v of JNull \<Rightarrow> [] | JText t \<Rightarrow> t | JInt i \<Rightarrow> if i = 0 then [] else show_int i)"

definition clean_name :: "json \<Rightarrow> lifecycle_error + utext" where
  "clean_name v =
     (let value = py_strip (str_or_empty v) in
      if value = [] then Inl NameRequired
      else if length value > 100 then Inl NameTooLong
      else Inr value)"

definition json_int :: "json \<Rightarrow> int option" where
  "json_int v = (case v of JNull \<Rightarrow> None | JInt i \<Rightarrow> Some i
     | JText t \<Rightarrow> (case int_base10 t of Inr i \<Rightarrow> Some i | Inl _ \<Rightarrow> None))"

definition next_sort_order :: "schedule_db \<Rightarrow> int" where
  "next_sort_order db =
     (if db_profiles db = [] then 0 else Max (set (map sort_order (db_profiles db)))) + 10"

text \<open>\<^verbatim>\<open>ScheduleProfileState.load\<close> of \<^verbatim>\<open>library/models.py\<close>.\<close>

definition load_state :: "schedule_db \<Rightarrow> (nat \<times> nat) op" where
  "load_state db =
     (case db_state db of
        Some s \<Rightarrow> Inr (db, s)
      | None \<Rightarrow> (case db_profiles db of
            [p] \<Rightarrow> Inr (db\<lparr>db_state := Some (profile_pk p, profile_pk p)\<rparr>, (profile_pk p, profile_pk p))
          | _ \<Rightarrow> Inl StateMissing))"

definition strip_braces :: "utext \<Rightarrow> utext" where
  "strip_braces t = (let brace = (\<lambda>c. c = 123 \<or> c = 125) in rev (dropWhile brace (rev (dropWhile brace t))))"

text \<open>\<^verbatim>\<open>uuid.UUID(text)\<close>.\<close>

definition uuid_of_text :: "utext \<Rightarrow> nat option" where
  "uuid_of_text t =
     (let hex = filter (\<lambda>c. c \<noteq> 45) (strip_braces (remove_sub (cps ''uuid:'') (remove_sub (cps ''urn:'') t))) in
      if length hex \<noteq> 32 then None
      else case int_base16 hex of
             Inl _ \<Rightarrow> None
           | Inr v \<Rightarrow> if 0 \<le> v \<and> v < 2 ^ 128 then Some (nat v) else None)"

section \<open>The operations\<close>

text \<open>An IntegrityError is reported as a name clash if the name is in the table after the rollback.\<close>

definition report_name :: "schedule_db \<Rightarrow> utext \<Rightarrow> 'a op \<Rightarrow> 'a op" where
  "report_name db n r =
     (case r of Inl IntegrityError \<Rightarrow> if name_exists db n then Inl NameTaken else Inl IntegrityError
      | _ \<Rightarrow> r)"

definition create_profile :: "json \<Rightarrow> json \<Rightarrow> int option \<Rightarrow> nat \<Rightarrow> schedule_db \<Rightarrow> nat op" where
  "create_profile n desc so new_uuid db =
     bindR (clean_name n) (\<lambda>cleaned.
     let order = (case so of None \<Rightarrow> next_sort_order db | Some i \<Rightarrow> i) in
     report_name db cleaned (bindR (load_state db) (\<lambda>(db', _).
       insert_profile db' cleaned (str_or_empty desc) order new_uuid)))"

definition field_name :: utext where "field_name = cps ''name''"
definition field_description :: utext where "field_description = cps ''description''"
definition field_sort_order :: utext where "field_sort_order = cps ''sort_order''"

definition edit_profile :: "nat \<Rightarrow> (utext \<times> json) list \<Rightarrow> schedule_db \<Rightarrow> unit op" where
  "edit_profile pk changes db =
     bindR (get_profile db pk) (\<lambda>p.
     if is_archived p then Inl ArchivedReadOnly
     else if cps ''uuid'' \<in> set (map fst changes) then Inl UuidImmutable
     else let unknown = filter (\<lambda>f. f \<notin> {field_name, field_description, field_sort_order}) (map fst changes) in
     if unknown \<noteq> [] then Inl (UnsupportedFields (sort (remdups unknown)))
     else bindR (case map_of changes field_name of None \<Rightarrow> Inr (profile_name p) | Some v \<Rightarrow> clean_name v) (\<lambda>n.
     let desc = (case map_of changes field_description of None \<Rightarrow> description p | Some v \<Rightarrow> str_or_empty v) in
     bindR (case map_of changes field_sort_order of None \<Rightarrow> Inr (sort_order p)
            | Some v \<Rightarrow> (case json_int v of None \<Rightarrow> Inl SortOrderNotInteger | Some i \<Rightarrow> Inr i)) (\<lambda>so.
     let p' = p\<lparr>profile_name := n, description := desc, sort_order := so\<rparr> in
     if p' = p then Inr (db, ())
     else if n \<in> set (map profile_name (filter (\<lambda>q. profile_pk q \<noteq> pk) (db_profiles db))) then Inl NameTaken
     else Inr (put_profile db p', ()))))"

definition clone_block :: "nat \<Rightarrow> nat \<Rightarrow> schedule_block \<Rightarrow> schedule_block" where
  "clone_block clone pk row = row\<lparr>block_pk := pk, profile_id := clone\<rparr>"

definition bulk_create :: "nat \<Rightarrow> schedule_block list \<Rightarrow> schedule_db \<Rightarrow> unit op" where
  "bulk_create clone rows db =
     (let new = map2 (clone_block clone) [block_seq db..<block_seq db + length rows] rows;
          blocks = db_blocks db @ new in
      if distinct (map slot_of blocks)
      then Inr (db\<lparr>db_blocks := blocks, block_seq := block_seq db + length rows\<rparr>, ())
      else Inl IntegrityError)"

text \<open>The rows copied, the transaction, and the operation.\<close>

definition source_rows :: "profile_row \<Rightarrow> bool \<Rightarrow> schedule_db \<Rightarrow> schedule_block list" where
  "source_rows source include_dates db =
     filter (\<lambda>r. profile_id r = profile_pk source \<and> (include_dates \<or> specific_date r = None)) (db_blocks db)"

definition clone_order :: "json \<Rightarrow> schedule_db \<Rightarrow> lifecycle_error + int" where
  "clone_order so db =
     (if so = JNull then Inr (next_sort_order db)
      else case json_int so of None \<Rightarrow> Inl NotAnInteger | Some i \<Rightarrow> Inr i)"

definition clone_tx ::
  "profile_row \<Rightarrow> utext \<Rightarrow> json \<Rightarrow> json \<Rightarrow> bool \<Rightarrow> nat \<Rightarrow> schedule_db \<Rightarrow> nat op" where
  "clone_tx source cleaned desc so include_dates new_uuid db =
     bindR (clone_order so db) (\<lambda>order.
     bindR (insert_profile db cleaned (if desc = JNull then description source else str_or_empty desc)
              order new_uuid) (\<lambda>(db1, clone).
     bindR (bulk_create clone (source_rows source include_dates db1) db1) (\<lambda>(db2, _).
     Inr (db2, clone))))"

definition clone_profile ::
  "profile_row \<Rightarrow> json \<Rightarrow> json \<Rightarrow> json \<Rightarrow> bool \<Rightarrow> nat \<Rightarrow> schedule_db \<Rightarrow> nat op" where
  "clone_profile source n desc so include_dates new_uuid db =
     bindR (clean_name n) (\<lambda>cleaned.
     report_name db cleaned (clone_tx source cleaned desc so include_dates new_uuid db))"

definition activate_profile :: "nat \<Rightarrow> utext \<Rightarrow> schedule_db \<Rightarrow> bool op" where
  "activate_profile pk expected db =
     (if expected = [] then Inl ExpectedUuidRequired
      else case uuid_of_text expected of None \<Rightarrow> Inl ExpectedUuidInvalid | Some expected_uuid \<Rightarrow>
      bindR (load_state db) (\<lambda>(db, (active, default)).
      bindR (get_profile db pk) (\<lambda>p.
      if is_archived p then Inl ArchivedNotActivated
      else bindR (get_profile db active) (\<lambda>previous.
      if uuid previous \<noteq> expected_uuid then Inl (StaleActivation (uuid previous))
      else if active = pk then Inr (db, False)
      else Inr (db\<lparr>db_state := Some (pk, default)\<rparr>, True)))))"

definition set_default_profile :: "nat \<Rightarrow> schedule_db \<Rightarrow> bool op" where
  "set_default_profile pk db =
     bindR (load_state db) (\<lambda>(db, (active, default)).
     bindR (get_profile db pk) (\<lambda>p.
     if is_archived p then Inl ArchivedNotDefault
     else if default = pk then Inr (db, False)
     else Inr (db\<lparr>db_state := Some (active, pk)\<rparr>, True)))"

definition state_blockers :: "nat \<times> nat \<Rightarrow> nat \<Rightarrow> blocker list" where
  "state_blockers st pk = (if fst st = pk then [ProfileIsActive] else [])
     @ (if snd st = pk then [ProfileIsDefault] else [])"

definition archive_profile :: "nat \<Rightarrow> schedule_db \<Rightarrow> bool op" where
  "archive_profile pk db =
     bindR (load_state db) (\<lambda>(db, st).
     bindR (get_profile db pk) (\<lambda>p.
     if state_blockers st pk \<noteq> [] then Inl (CannotArchive (state_blockers st pk))
     else if is_archived p then Inr (db, False)
     else Inr (put_profile db (p\<lparr>is_archived := True\<rparr>), True)))"

definition restore_profile :: "nat \<Rightarrow> schedule_db \<Rightarrow> bool op" where
  "restore_profile pk db =
     bindR (get_profile db pk) (\<lambda>p.
     if \<not> is_archived p then Inr (db, False)
     else Inr (put_profile db (p\<lparr>is_archived := False\<rparr>), True))"

definition block_count :: "schedule_db \<Rightarrow> nat \<Rightarrow> nat" where
  "block_count db pk = length (filter (\<lambda>b. profile_id b = pk) (db_blocks db))"

definition log_count :: "schedule_db \<Rightarrow> nat \<Rightarrow> nat" where
  "log_count db pk = length (filter (\<lambda>l. l = Some pk) (db_logs db))"

text \<open>\<^verbatim>\<open>profile.delete()\<close>: every foreign key to a profile is \<^verbatim>\<open>on_delete=PROTECT\<close>.\<close>

definition remove_profile :: "nat \<Rightarrow> schedule_db \<Rightarrow> unit op" where
  "remove_profile pk db =
     (if block_count db pk \<noteq> 0 \<or> log_count db pk \<noteq> 0
         \<or> (case db_state db of None \<Rightarrow> False | Some (a, d) \<Rightarrow> a = pk \<or> d = pk)
      then Inl ProtectedError
      else Inr (db\<lparr>db_profiles := filter (\<lambda>p. profile_pk p \<noteq> pk) (db_profiles db)\<rparr>, ()))"

definition delete_profile :: "nat \<Rightarrow> schedule_db \<Rightarrow> unit op" where
  "delete_profile pk db =
     bindR (load_state db) (\<lambda>(db, st).
     bindR (get_profile db pk) (\<lambda>p.
     let blockers = state_blockers st pk
           @ (if block_count db pk \<noteq> 0 then [HasBlocks (block_count db pk)] else [])
           @ (if log_count db pk \<noteq> 0 then [HasLogs (log_count db pk)] else [])
     in if blockers \<noteq> [] then Inl (CannotDelete blockers) else remove_profile pk db))"

text \<open>
  The row endpoints of \<^verbatim>\<open>library/views.py\<close>, from the parsed request on: the profile selected, the
  weekday or the date, hour and minute, and the rotation or the playlist.
\<close>

definition schedule_put ::
  "nat \<Rightarrow> int option \<Rightarrow> int option \<Rightarrow> int \<Rightarrow> int \<Rightarrow> nat option \<Rightarrow> nat option \<Rightarrow> schedule_db \<Rightarrow> bool op" where
  "schedule_put pk day date h m rotation playlist db =
     (if \<not> (0 \<le> h \<and> h \<le> 23) \<or> \<not> (0 \<le> m \<and> m \<le> 59) then Inl BadRequest
      else if day = None \<and> date = None then Inl BadRequest
      else if day \<noteq> None \<and> date \<noteq> None then Inl BadRequest
      else if (rotation = None) = (playlist = None) then Inl BadRequest
      else if (case day of None \<Rightarrow> False | Some d \<Rightarrow> \<not> (0 \<le> d \<and> d \<le> 6)) then Inl BadRequest
      else if (case rotation of None \<Rightarrow> False | Some r \<Rightarrow> r \<notin> set (db_rotations db)) then Inl ContentNotFound
      else if (case playlist of None \<Rightarrow> False | Some q \<Rightarrow> q \<notin> set (db_playlists db)) then Inl ContentNotFound
      else bindR (get_profile db pk) (\<lambda>p.
      if is_archived p then Inl ArchivedReadOnly
      else let start = \<lparr>tod_hour = nat h, tod_minute = nat m, tod_second = 0, tod_micro = 0\<rparr>;
               finish = \<lparr>tod_hour = (nat h + 1) mod 24, tod_minute = 0, tod_second = 0, tod_micro = 0\<rparr>;
               slot = (pk, map_option nat day, date, start);
               matching = filter (\<lambda>b. slot_of b = slot) (db_blocks db) in
      if length matching > 1 then Inl MultipleObjects
      else if matching \<noteq> [] then
        Inr (db\<lparr>db_blocks := map (\<lambda>b. if slot_of b = slot
               then b\<lparr>end_time := finish, rotation_id := rotation, playlist_id := playlist\<rparr> else b)
             (db_blocks db)\<rparr>, False)
      else Inr (db\<lparr>db_blocks := db_blocks db @ [\<lparr>block_pk = block_seq db, profile_id = pk,
               day_of_week = map_option nat day, specific_date = date, start_time = start, end_time = finish,
               rotation_id = rotation, playlist_id = playlist\<rparr>], block_seq := Suc (block_seq db)\<rparr>, True)))"

definition schedule_delete :: "nat \<Rightarrow> nat \<Rightarrow> int option \<Rightarrow> schedule_db \<Rightarrow> bool op" where
  "schedule_delete pk row_pk date db =
     bindR (get_profile db pk) (\<lambda>p.
     if is_archived p then Inl ArchivedReadOnly
     else case find (\<lambda>b. block_pk b = row_pk \<and> profile_id b = pk
                       \<and> (date = None \<or> specific_date b = date)) (db_blocks db) of
            None \<Rightarrow> Inr (db, False)
          | Some row \<Rightarrow> Inr (db\<lparr>db_blocks := filter (\<lambda>b. \<not> (block_pk b = block_pk row \<and> profile_id b = pk))
                                (db_blocks db)\<rparr>, True))"

text \<open>Building an hour: the log keeps the profile that \<^verbatim>\<open>get_active_schedule_profile\<close> gave.\<close>

definition record_log :: "schedule_db \<Rightarrow> nat op" where
  "record_log db = bindR (load_state db) (\<lambda>(db, (active, _)).
     Inr (db\<lparr>db_logs := db_logs db @ [Some active]\<rparr>, active))"

section \<open>The invariant\<close>

definition profile_pks :: "schedule_db \<Rightarrow> nat set" where
  "profile_pks db = set (map profile_pk (db_profiles db))"

definition profiles_ok :: "schedule_db \<Rightarrow> bool" where
  "profiles_ok db \<longleftrightarrow> distinct (map profile_pk (db_profiles db)) \<and> distinct (map profile_name (db_profiles db))
     \<and> distinct (map uuid (db_profiles db))
     \<and> list_all (\<lambda>p. profile_pk p < profile_seq db \<and> profile_name p \<noteq> [] \<and> length (profile_name p) \<le> 100)
         (db_profiles db)"

definition block_ok :: "schedule_block \<Rightarrow> bool" where
  "block_ok b \<longleftrightarrow> (day_of_week b = None) \<noteq> (specific_date b = None) \<and> (rotation_id b = None) \<noteq> (playlist_id b = None)
     \<and> tod_valid (start_time b)"

definition blocks_ok :: "schedule_db \<Rightarrow> bool" where
  "blocks_ok db \<longleftrightarrow> distinct (map block_pk (db_blocks db)) \<and> distinct (map slot_of (db_blocks db))
     \<and> list_all (\<lambda>b. block_pk b < block_seq db \<and> profile_id b \<in> profile_pks db \<and> block_ok b) (db_blocks db)"

definition logs_ok :: "schedule_db \<Rightarrow> bool" where
  "logs_ok db \<longleftrightarrow> (\<forall>p. Some p \<in> set (db_logs db) \<longrightarrow> p \<in> profile_pks db)"

definition usable :: "schedule_db \<Rightarrow> nat \<Rightarrow> bool" where
  "usable db pk \<longleftrightarrow> (\<exists>p. find_profile db pk = Some p \<and> \<not> is_archived p)"

definition state_ok :: "schedule_db \<Rightarrow> bool" where
  "state_ok db \<longleftrightarrow> (case db_state db of None \<Rightarrow> False | Some (a, d) \<Rightarrow> usable db a \<and> usable db d)"

definition db_ok :: "schedule_db \<Rightarrow> bool" where
  "db_ok db \<longleftrightarrow> profiles_ok db \<and> blocks_ok db \<and> logs_ok db \<and> state_ok db"

lemma find_profile_iff:
  "distinct (map profile_pk (db_profiles db)) \<Longrightarrow>
     find_profile db pk = Some p \<longleftrightarrow> p \<in> set (db_profiles db) \<and> profile_pk p = pk"
proof -
  have "distinct (map profile_pk ps) \<Longrightarrow>
     find (\<lambda>p. profile_pk p = pk) ps = Some p \<longleftrightarrow> p \<in> set ps \<and> profile_pk p = pk" for ps
    by (induction ps) auto
  then show "distinct (map profile_pk (db_profiles db)) \<Longrightarrow> ?thesis" by (simp add: find_profile_def)
qed

lemma find_profile_Some: "find_profile db pk = Some p \<Longrightarrow> p \<in> set (db_profiles db) \<and> profile_pk p = pk"
  by (auto simp: find_profile_def find_Some_iff)

lemma get_profile_eq_Inr [simp]: "get_profile db pk = Inr p \<longleftrightarrow> find_profile db pk = Some p"
  by (simp add: get_profile_def split: option.split)

lemma get_profile_eq_Inl [simp]: "get_profile db pk = Inl e \<longleftrightarrow> find_profile db pk = None \<and> e = DoesNotExist"
  by (auto simp: get_profile_def split: option.split)

lemma load_state_ok: "db_ok db \<Longrightarrow> \<exists>a d. db_state db = Some (a, d) \<and> load_state db = Inr (db, (a, d))"
  by (auto simp: db_ok_def state_ok_def load_state_def split: option.splits)

lemma load_state_some [simp]: "db_state db = Some s \<Longrightarrow> load_state db = Inr (db, s)"
  by (simp add: load_state_def)

lemma put_profile_split:
  assumes "distinct (map profile_pk (db_profiles db))" and "p \<in> set (db_profiles db)"
    and "profile_pk p' = profile_pk p"
  obtains xs ys where "db_profiles db = xs @ p # ys" and "db_profiles (put_profile db p') = xs @ p' # ys"
    and "\<forall>q\<in>set xs \<union> set ys. profile_pk q \<noteq> profile_pk p"
proof -
  obtain xs ys where split: "db_profiles db = xs @ p # ys" using assms(2) by (meson split_list)
  with assms(1) have others: "\<forall>q\<in>set xs \<union> set ys. profile_pk q \<noteq> profile_pk p" by (auto simp: image_iff)
  then have "map (\<lambda>q. if profile_pk q = profile_pk p' then p' else q) zs = zs" if "set zs \<subseteq> set xs \<union> set ys" for zs
    using that assms(3) by (induction zs) auto
  then have "db_profiles (put_profile db p') = xs @ p' # ys"
    using assms(3) by (simp add: put_profile_def split)
  with split others that show thesis by blast
qed

lemma put_profile_simps [simp]:
  "db_blocks (put_profile db p) = db_blocks db" "db_logs (put_profile db p) = db_logs db"
  "db_state (put_profile db p) = db_state db" "profile_seq (put_profile db p) = profile_seq db"
  "block_seq (put_profile db p) = block_seq db"
  by (simp_all add: put_profile_def)

lemma put_profile_ok:
  assumes ok: "db_ok db" and p: "find_profile db pk = Some p"
    and same: "profile_pk p' = pk" "uuid p' = uuid p"
    and name: "profile_name p' \<notin> set (map profile_name (filter (\<lambda>q. profile_pk q \<noteq> pk) (db_profiles db)))"
      "profile_name p' \<noteq> []" "length (profile_name p') \<le> 100"
    and arch: "is_archived p' \<Longrightarrow> \<not> is_archived p \<Longrightarrow> \<forall>a d. db_state db = Some (a, d) \<longrightarrow> a \<noteq> pk \<and> d \<noteq> pk"
  shows "db_ok (put_profile db p')"
proof -
  note pk = find_profile_Some [OF p]
  have dist: "distinct (map profile_pk (db_profiles db))" using ok by (simp add: db_ok_def profiles_ok_def)
  obtain xs ys where old: "db_profiles db = xs @ p # ys" and new: "db_profiles (put_profile db p') = xs @ p' # ys"
    and others: "\<forall>q\<in>set xs \<union> set ys. profile_pk q \<noteq> profile_pk p"
    using put_profile_split [OF dist, of p p'] pk same(1) by metis
  have pks: "profile_pks (put_profile db p') = profile_pks db"
    using pk same(1) by (simp add: profile_pks_def old new)
  have fresh: "profile_name p' \<notin> profile_name ` (set xs \<union> set ys)"
    using name(1) others pk by (auto simp: old)
  have profs: "profiles_ok (put_profile db p')"
    using ok pk same name fresh by (auto simp: db_ok_def profiles_ok_def old new)
  then have dist': "distinct (map profile_pk (db_profiles (put_profile db p')))" by (simp add: profiles_ok_def)
  have keep: "usable (put_profile db p') k" if "usable db k" "k = pk \<Longrightarrow> \<not> is_archived p'" for k
  proof (cases "k = pk")
    case True
    with that have "\<not> is_archived p'" by simp
    with True show ?thesis using same(1) by (auto simp: usable_def find_profile_iff [OF dist'] new)
  next
    case False
    with that(1) pk show ?thesis
      by (auto simp: usable_def find_profile_iff [OF dist] find_profile_iff [OF dist'] old new)
  qed
  have "state_ok (put_profile db p')"
  proof -
    obtain a d where st: "db_state db = Some (a, d)" "usable db a" "usable db d"
      using ok by (auto simp: db_ok_def state_ok_def split: option.splits)
    have "\<not> is_archived p'" if "pk = a \<or> pk = d"
    proof -
      have "\<not> is_archived p" using that st p by (auto simp: usable_def)
      with arch st(1) that show ?thesis by auto
    qed
    with keep st show ?thesis by (auto simp: state_ok_def)
  qed
  with profs ok show ?thesis by (simp add: db_ok_def blocks_ok_def logs_ok_def pks)
qed

text \<open>A change of the other tables keeps what is known of the profiles.\<close>

lemma same_profiles:
  assumes "db_profiles db' = db_profiles db"
  shows "profile_pks db' = profile_pks db" and "find_profile db' = find_profile db" and "usable db' = usable db"
  using assms by (auto simp: profile_pks_def find_profile_def usable_def fun_eq_iff)

lemma same_state_ok: "db_profiles db' = db_profiles db \<Longrightarrow> db_state db' = db_state db \<Longrightarrow> state_ok db' = state_ok db"
  by (cases "db_state db") (simp_all add: state_ok_def same_profiles(3) [of db' db] split: prod.split)

lemma same_logs_ok: "db_profiles db' = db_profiles db \<Longrightarrow> db_logs db' = db_logs db \<Longrightarrow> logs_ok db' = logs_ok db"
  by (simp add: logs_ok_def same_profiles(1) [of db' db])

lemma db_okD: "db_ok db \<Longrightarrow> profiles_ok db" "db_ok db \<Longrightarrow> blocks_ok db" "db_ok db \<Longrightarrow> logs_ok db"
    "db_ok db \<Longrightarrow> state_ok db"
  by (simp_all add: db_ok_def)

lemma same_profiles_ok:
  assumes "db_ok db" and "db_profiles db' = db_profiles db" and "profile_seq db' = profile_seq db"
    and "blocks_ok db'" and "logs_ok db'" and "state_ok db'"
  shows "db_ok db'"
proof -
  have "profiles_ok db'" using db_okD(1) [OF assms(1)] unfolding profiles_ok_def assms(2,3) .
  then show ?thesis using assms(4-6) unfolding db_ok_def by blast
qed

lemma clean_name_ok: "clean_name v = Inr n \<Longrightarrow> n \<noteq> [] \<and> length n \<le> 100"
  by (auto simp: clean_name_def Let_def split: if_splits)

lemma insert_profile_ok:
  assumes ok: "db_ok db" and ins: "insert_profile db n desc so u = Inr (db', k)"
    and n: "n \<noteq> []" "length n \<le> 100"
  shows "db_ok db'" and "k = profile_seq db" and "profile_pks db' = insert k (profile_pks db)"
    and "k \<notin> profile_pks db" and "db_blocks db' = db_blocks db" and "block_seq db' = block_seq db"
    and "db_state db' = db_state db" and "db_logs db' = db_logs db"
proof -
  let ?new = "\<lparr>profile_pk = profile_seq db, uuid = u, profile_name = n, description = desc,
     sort_order = so, is_archived = False\<rparr>"
  have db': "db' = db\<lparr>db_profiles := db_profiles db @ [?new], profile_seq := Suc (profile_seq db)\<rparr>"
    and k: "k = profile_seq db" and fresh: "n \<notin> set (map profile_name (db_profiles db))"
      "u \<notin> set (map uuid (db_profiles db))"
    using ins by (auto simp: insert_profile_def name_exists_def split: if_splits)
  show "k = profile_seq db" by (rule k)
  have below: "\<forall>p\<in>set (db_profiles db). profile_pk p < profile_seq db"
    using ok by (simp add: db_ok_def profiles_ok_def list_all_iff)
  then show "k \<notin> profile_pks db" by (auto simp: k profile_pks_def)
  show pks: "profile_pks db' = insert k (profile_pks db)" by (simp add: db' k profile_pks_def)
  show rest: "db_blocks db' = db_blocks db" "block_seq db' = block_seq db"
    "db_state db' = db_state db" "db_logs db' = db_logs db" by (simp_all add: db')
  have "profiles_ok db'" using ok below fresh n
    by (auto simp: db_ok_def profiles_ok_def db' list_all_iff less_SucI)
  moreover have "usable db' a" if "usable db a" for a
    using that below by (auto simp: usable_def find_profile_def db' find_Some_iff nth_append)
  ultimately show "db_ok db'" using ok
    by (auto simp: db_ok_def blocks_ok_def logs_ok_def state_ok_def pks rest list_all_iff split: option.splits)
qed

lemma report_name_Inr: "report_name db n r = Inr x \<Longrightarrow> r = Inr x"
  by (auto simp: report_name_def split: sum.splits lifecycle_error.splits if_splits)

lemma create_profile_ok:
  "db_ok db \<Longrightarrow> create_profile n desc so u db = Inr (db', k) \<Longrightarrow> db_ok db'"
  using load_state_ok [of db] insert_profile_ok(1) [of db]
  by (auto simp: create_profile_def bindR_eq_Inr Let_def dest!: clean_name_ok report_name_Inr)

lemma edit_profile_ok:
  assumes ok: "db_ok db" and edit: "edit_profile pk changes db = Inr (db', r)"
  shows "db_ok db'"
proof -
  from edit obtain p n so where p: "find_profile db pk = Some p"
    and n: "(case map_of changes field_name of None \<Rightarrow> Inr (profile_name p) | Some v \<Rightarrow> clean_name v) = Inr n"
    and cases: "db' = db \<or> (n \<notin> set (map profile_name (filter (\<lambda>q. profile_pk q \<noteq> pk) (db_profiles db)))
        \<and> (\<exists>desc. db' = put_profile db (p\<lparr>profile_name := n, description := desc, sort_order := so\<rparr>)))"
    by (auto simp: edit_profile_def bindR_eq_Inr Let_def split: if_splits)
  have "n \<noteq> [] \<and> length n \<le> 100"
    using n clean_name_ok find_profile_Some [OF p] ok
    by (auto simp: db_ok_def profiles_ok_def list_all_iff split: option.splits)
  with cases p ok find_profile_Some [OF p] show ?thesis by (auto intro!: put_profile_ok)
qed

lemma bulk_create_ok:
  assumes ok: "db_ok db" and bulk: "bulk_create clone rows db = Inr (db', r)"
    and rows: "set rows \<subseteq> set (db_blocks db)" and clone: "clone \<in> profile_pks db"
  shows "db_ok db'"
proof -
  let ?pks = "[block_seq db..<block_seq db + length rows]"
  let ?new = "map2 (clone_block clone) ?pks rows"
  have db': "db' = db\<lparr>db_blocks := db_blocks db @ ?new, block_seq := block_seq db + length rows\<rparr>"
    and slots: "distinct (map slot_of (db_blocks db @ ?new))"
    using bulk by (auto simp: bulk_create_def Let_def split: if_splits)
  have b: "\<forall>b\<in>set (db_blocks db). block_pk b < block_seq db \<and> profile_id b \<in> profile_pks db \<and> block_ok b"
    using ok by (simp add: db_ok_def blocks_ok_def list_all_iff)
  have pks: "map block_pk ?new = ?pks"
    by (simp add: clone_block_def comp_def case_prod_beta' map_fst_zip_take)
  have new: "\<forall>b\<in>set ?new. block_pk b \<in> set ?pks \<and> profile_id b = clone \<and> block_ok b"
    using b rows by (auto simp: clone_block_def block_ok_def set_zip) (metis nth_mem subset_iff)+
  have "distinct (map block_pk (db_blocks db @ ?new))"
    unfolding map_append pks using ok b
    by (fastforce simp: db_ok_def blocks_ok_def)
  moreover have "list_all (\<lambda>b. block_pk b < block_seq db' \<and> profile_id b \<in> profile_pks db \<and> block_ok b)
      (db_blocks db @ ?new)"
    using b new clone by (auto simp: list_all_iff db' intro: less_le_trans)
  ultimately have "blocks_ok db'"
    using slots same_profiles(1) [of db' db] unfolding blocks_ok_def by (simp add: db' del: map_append)
  moreover have same: "db_profiles db' = db_profiles db" "db_state db' = db_state db" "db_logs db' = db_logs db"
    "profile_seq db' = profile_seq db" by (simp_all add: db')
  ultimately show ?thesis
    using db_okD [OF ok] same_state_ok [OF same(1,2)] same_logs_ok [OF same(1,3)]
    by (intro same_profiles_ok [OF ok]) (simp_all add: same)
qed

lemma clone_tx_cases:
  assumes "clone_tx source cleaned desc so dates u db = Inr (db', k)"
  obtains desc' order db1 where "insert_profile db cleaned desc' order u = Inr (db1, k)"
    and "bulk_create k (source_rows source dates db1) db1 = Inr (db', ())"
  using assms unfolding clone_tx_def by (auto simp: bindR_eq_Inr)

lemma clone_profile_cases:
  assumes "clone_profile source n desc so dates u db = Inr (db', k)"
  obtains cleaned desc' order db1 where "clean_name n = Inr cleaned"
    and "insert_profile db cleaned desc' order u = Inr (db1, k)"
    and "bulk_create k (source_rows source dates db1) db1 = Inr (db', ())"
  using assms unfolding clone_profile_def
  by (auto simp: bindR_eq_Inr dest!: report_name_Inr elim!: clone_tx_cases)

lemma clone_profile_ok:
  assumes ok: "db_ok db" and clone: "clone_profile source n desc so dates u db = Inr (db', k)"
  shows "db_ok db'"
proof -
  obtain cleaned desc' order db1 where n: "clean_name n = Inr cleaned"
    and ins: "insert_profile db cleaned desc' order u = Inr (db1, k)"
    and bulk: "bulk_create k (source_rows source dates db1) db1 = Inr (db', ())"
    by (rule clone_profile_cases [OF clone])
  from n have "cleaned \<noteq> []" "length cleaned \<le> 100" using clean_name_ok by auto
  note i = insert_profile_ok [OF ok ins this]
  show ?thesis using i(3) by (intro bulk_create_ok [OF i(1) bulk]) (auto simp: source_rows_def)
qed

lemma state_change_ok:
  assumes "db_ok db" and "usable db a" and "usable db d"
  shows "db_ok (db\<lparr>db_state := Some (a, d)\<rparr>)"
proof -
  let ?db = "db\<lparr>db_state := Some (a, d)\<rparr>"
  note same = same_profiles [of ?db db]
  show ?thesis
    using db_okD [OF assms(1)] assms(2,3) same
    by (simp add: db_ok_def profiles_ok_def blocks_ok_def logs_ok_def state_ok_def)
qed

lemma activate_profile_ok: "db_ok db \<Longrightarrow> activate_profile pk ex db = Inr (db', r) \<Longrightarrow> db_ok db'"
  using load_state_ok [of db] db_okD(4) [of db]
  by (auto simp: activate_profile_def bindR_eq_Inr usable_def state_ok_def split: if_splits option.splits
      intro!: state_change_ok)

lemma set_default_profile_ok: "db_ok db \<Longrightarrow> set_default_profile pk db = Inr (db', r) \<Longrightarrow> db_ok db'"
  using load_state_ok [of db] db_okD(4) [of db]
  by (auto simp: set_default_profile_def bindR_eq_Inr usable_def state_ok_def split: if_splits
      intro!: state_change_ok)

lemma flag_change_ok:
  assumes "db_ok db" and "find_profile db pk = Some p"
    and "f \<Longrightarrow> \<not> is_archived p \<Longrightarrow> \<forall>a d. db_state db = Some (a, d) \<longrightarrow> a \<noteq> pk \<and> d \<noteq> pk"
  shows "db_ok (put_profile db (p\<lparr>is_archived := f\<rparr>))"
proof -
  have "distinct (map profile_name (db_profiles db))" "distinct (map profile_pk (db_profiles db))"
    and "\<forall>p\<in>set (db_profiles db). profile_name p \<noteq> [] \<and> length (profile_name p) \<le> 100"
    using db_okD(1) [OF assms(1)] by (auto simp: profiles_ok_def list_all_iff)
  with find_profile_Some [OF assms(2)] assms show ?thesis
    by (intro put_profile_ok) (auto dest: inj_onD simp: distinct_map)
qed

lemma archive_profile_ok: "db_ok db \<Longrightarrow> archive_profile pk db = Inr (db', r) \<Longrightarrow> db_ok db'"
  using load_state_ok [of db]
  by (auto simp: archive_profile_def bindR_eq_Inr state_blockers_def split: if_splits intro!: flag_change_ok)

lemma restore_profile_ok: "db_ok db \<Longrightarrow> restore_profile pk db = Inr (db', r) \<Longrightarrow> db_ok db'"
  by (auto simp: restore_profile_def bindR_eq_Inr split: if_splits intro!: flag_change_ok)

lemma remove_profile_ok:
  assumes ok: "db_ok db" and rm: "remove_profile pk db = Inr (db', r)"
  shows "db_ok db'"
proof -
  have none: "block_count db pk = 0" "log_count db pk = 0"
    and st: "\<And>a d. db_state db = Some (a, d) \<Longrightarrow> a \<noteq> pk \<and> d \<noteq> pk"
    and db': "db' = db\<lparr>db_profiles := filter (\<lambda>p. profile_pk p \<noteq> pk) (db_profiles db)\<rparr>"
    using rm by (auto simp: remove_profile_def split: if_splits option.splits)
  have pks: "profile_pks db' = profile_pks db - {pk}" by (auto simp: db' profile_pks_def)
  have dist: "distinct (map profile_pk (db_profiles db))" and dist': "distinct (map profile_pk (db_profiles db'))"
    using db_okD(1) [OF ok] by (auto simp: profiles_ok_def db' distinct_map_filter)
  have "profiles_ok db'"
    using db_okD(1) [OF ok] by (auto simp: profiles_ok_def db' distinct_map_filter list_all_iff)
  moreover have "blocks_ok db'"
    using db_okD(2) [OF ok] none(1)
    by (auto simp: blocks_ok_def pks list_all_iff block_count_def filter_empty_conv) (auto simp: db')
  moreover have "logs_ok db'"
    using db_okD(3) [OF ok] none(2) by (auto simp: logs_ok_def pks log_count_def filter_empty_conv) (auto simp: db')
  moreover have "usable db' a" if "usable db a" "a \<noteq> pk" for a
    using that by (auto simp: usable_def find_profile_iff [OF dist] find_profile_iff [OF dist']) (auto simp: db')
  then have "state_ok db'" using db_okD(4) [OF ok] st by (auto simp: state_ok_def db' split: option.splits)
  ultimately show ?thesis by (simp add: db_ok_def)
qed

lemma delete_profile_ok: "db_ok db \<Longrightarrow> delete_profile pk db = Inr (db', r) \<Longrightarrow> db_ok db'"
  using load_state_ok [of db]
  by (auto simp: delete_profile_def bindR_eq_Inr Let_def split: if_splits intro: remove_profile_ok)

lemma record_log_ok: "db_ok db \<Longrightarrow> record_log db = Inr (db', r) \<Longrightarrow> db_ok db'"
proof -
  assume ok: "db_ok db" and rec: "record_log db = Inr (db', r)"
  obtain a d where st: "db_state db = Some (a, d)" using load_state_ok [OF ok] by blast
  with rec have db': "db' = db\<lparr>db_logs := db_logs db @ [Some a]\<rparr>" by (auto simp: record_log_def)
  have "a \<in> profile_pks db" using st db_okD(4) [OF ok] find_profile_Some [of db a]
    by (auto simp: state_ok_def usable_def profile_pks_def)
  then show "db_ok db'"
    using db_okD [OF ok] same_profiles [of db' db] same_state_ok [of db' db]
    by (intro same_profiles_ok [OF ok]) (auto simp: db' blocks_ok_def logs_ok_def)
qed

lemma blocks_change_ok:
  assumes ok: "db_ok db" and db': "db' = db\<lparr>db_blocks := bs, block_seq := k\<rparr>"
    and bs: "distinct (map block_pk bs)" "distinct (map slot_of bs)"
      "\<forall>b\<in>set bs. block_pk b < k \<and> profile_id b \<in> profile_pks db \<and> block_ok b"
  shows "db_ok db'"
proof -
  have same: "db_profiles db' = db_profiles db" "db_state db' = db_state db" "db_logs db' = db_logs db"
    "profile_seq db' = profile_seq db" by (simp_all add: db')
  have "blocks_ok db'" using bs same_profiles(1) [OF same(1)] by (simp add: blocks_ok_def db' list_all_iff)
  then show ?thesis
    using db_okD [OF ok] same_state_ok [OF same(1,2)] same_logs_ok [OF same(1,3)]
    by (intro same_profiles_ok [OF ok]) (simp_all add: same)
qed

lemma schedule_put_ok:
  assumes ok: "db_ok db" and put: "schedule_put pk day date h m rot pl db = Inr (db', r)"
  shows "db_ok db'"
proof -
  define start where "start = \<lparr>tod_hour = nat h, tod_minute = nat m, tod_second = 0, tod_micro = 0\<rparr>"
  define finish where "finish = \<lparr>tod_hour = (nat h + 1) mod 24, tod_minute = 0, tod_second = 0, tod_micro = 0\<rparr>"
  define slot where "slot = (pk, map_option nat day, date, start)"
  define new where "new = \<lparr>block_pk = block_seq db, profile_id = pk,
               day_of_week = map_option nat day, specific_date = date, start_time = start, end_time = finish,
               rotation_id = rot, playlist_id = pl\<rparr>"
  define upd where "upd = (\<lambda>b. if slot_of b = slot
               then b\<lparr>end_time := finish, rotation_id := rot, playlist_id := pl\<rparr> else b)"
  from put have range: "0 \<le> h" "h \<le> 23" "0 \<le> m" "m \<le> 59"
    and one: "(day = None) \<noteq> (date = None)" "(rot = None) \<noteq> (pl = None)"
    by (auto simp: schedule_put_def split: if_splits)
  from put range obtain p where p: "find_profile db pk = Some p"
    and cases: "db' = db\<lparr>db_blocks := map upd (db_blocks db)\<rparr>
      \<or> (filter (\<lambda>b. slot_of b = slot) (db_blocks db) = []
          \<and> db' = db\<lparr>db_blocks := db_blocks db @ [new], block_seq := Suc (block_seq db)\<rparr>)"
    unfolding schedule_put_def Let_def bindR_eq_Inr upd_def new_def slot_def finish_def start_def
    by (auto simp: bindR_eq_Inr split: if_splits)
  have pk: "pk \<in> profile_pks db" using find_profile_Some [OF p] by (auto simp: profile_pks_def)
  have valid: "tod_valid start" using range by (simp add: tod_valid_def start_def nat_less_iff)
  have upd: "block_pk (upd b) = block_pk b" "slot_of (upd b) = slot_of b" "profile_id (upd b) = profile_id b"
      "block_ok b \<Longrightarrow> block_ok (upd b)" for b
    using one(2) by (auto simp: upd_def slot_of_def block_ok_def)
  have old: "distinct (map block_pk (db_blocks db))" "distinct (map slot_of (db_blocks db))"
    "\<forall>b\<in>set (db_blocks db). block_pk b < block_seq db \<and> profile_id b \<in> profile_pks db \<and> block_ok b"
    using db_okD(2) [OF ok] by (auto simp: blocks_ok_def list_all_iff)
  have new: "block_ok new" "slot_of new = slot" "block_pk new = block_seq db" "profile_id new = pk"
    using valid one by (auto simp: block_ok_def new_def slot_of_def slot_def)
  from cases show ?thesis
  proof (elim disjE conjE)
    assume "db' = db\<lparr>db_blocks := map upd (db_blocks db)\<rparr>"
    then have "db' = db\<lparr>db_blocks := map upd (db_blocks db), block_seq := block_seq db\<rparr>" by simp
    then show ?thesis by (rule blocks_change_ok [OF ok]) (use old upd in \<open>auto simp: comp_def\<close>)
  next
    assume "filter (\<lambda>b. slot_of b = slot) (db_blocks db) = []"
      and db': "db' = db\<lparr>db_blocks := db_blocks db @ [new], block_seq := Suc (block_seq db)\<rparr>"
    then have "slot \<notin> set (map slot_of (db_blocks db))" by (auto simp: filter_empty_conv)
    with old new pk show ?thesis by (intro blocks_change_ok [OF ok db']) (auto simp: less_SucI)
  qed
qed

lemma schedule_delete_ok: "db_ok db \<Longrightarrow> schedule_delete pk row date db = Inr (db', r) \<Longrightarrow> db_ok db'"
proof -
  assume ok: "db_ok db" and del: "schedule_delete pk row date db = Inr (db', r)"
  then obtain P where "db' = db \<or> db' = db\<lparr>db_blocks := filter P (db_blocks db)\<rparr>"
    by (auto simp: schedule_delete_def bindR_eq_Inr split: if_splits option.splits)
  moreover have "db_ok db'" if "db' = db\<lparr>db_blocks := filter P (db_blocks db)\<rparr>"
  proof -
    have "db' = db\<lparr>db_blocks := filter P (db_blocks db), block_seq := block_seq db\<rparr>" using that by simp
    from blocks_change_ok [OF ok this] db_okD(2) [OF ok] show ?thesis
      by (auto simp: blocks_ok_def distinct_map_filter list_all_iff)
  qed
  ultimately show "db_ok db'" using ok by blast
qed

section \<open>The machine\<close>

datatype profile_event =
    Create json json "int option" nat
  | Edit nat "(utext \<times> json) list"
  | Clone profile_row json json json bool nat
  | Activate nat utext
  | SetDefault nat
  | Archive nat
  | Restore nat
  | Delete nat
  | SchedulePut nat "int option" "int option" int int "nat option" "nat option"
  | ScheduleDelete nat nat "int option"
  | BuildLog

definition only_db :: "'a op \<Rightarrow> lifecycle_error + schedule_db" where
  "only_db r = bindR r (\<lambda>(db, _). Inr db)"

definition profile_step :: "profile_event \<Rightarrow> schedule_db \<Rightarrow> lifecycle_error + schedule_db" where
  "profile_step e db =
     (case e of
        Create n d so u \<Rightarrow> only_db (create_profile n d so u db)
      | Edit pk ch \<Rightarrow> only_db (edit_profile pk ch db)
      | Clone src n d so dates u \<Rightarrow> only_db (clone_profile src n d so dates u db)
      | Activate pk ex \<Rightarrow> only_db (activate_profile pk ex db)
      | SetDefault pk \<Rightarrow> only_db (set_default_profile pk db)
      | Archive pk \<Rightarrow> only_db (archive_profile pk db)
      | Restore pk \<Rightarrow> only_db (restore_profile pk db)
      | Delete pk \<Rightarrow> only_db (delete_profile pk db)
      | SchedulePut pk day date h m r q \<Rightarrow> only_db (schedule_put pk day date h m r q db)
      | ScheduleDelete pk row date \<Rightarrow> only_db (schedule_delete pk row date db)
      | BuildLog \<Rightarrow> only_db (record_log db))"

lemmas profile_ops_ok = create_profile_ok edit_profile_ok clone_profile_ok activate_profile_ok
  set_default_profile_ok archive_profile_ok restore_profile_ok delete_profile_ok schedule_put_ok
  schedule_delete_ok record_log_ok

lemma only_db_eq_Inr: "only_db r = Inr db \<longleftrightarrow> (\<exists>x. r = Inr (db, x))"
  by (auto simp: only_db_def bindR_eq_Inr)

interpretation schedule: guarded_machine profile_step db_ok
  by unfold_locales
     (auto simp: profile_step_def only_db_eq_Inr intro: profile_ops_ok split: profile_event.splits)

text \<open>The database the migrations leave: one profile, active and default, with content to schedule.\<close>

definition initial_db :: "utext \<Rightarrow> nat \<Rightarrow> nat list \<Rightarrow> nat list \<Rightarrow> schedule_db" where
  "initial_db n u rots pls =
     \<lparr>db_profiles = [\<lparr>profile_pk = 1, uuid = u, profile_name = n, description = [], sort_order = 0,
                      is_archived = False\<rparr>],
      db_blocks = [], db_logs = [], db_state = Some (1, 1), db_rotations = rots, db_playlists = pls,
      profile_seq = 2, block_seq = 1\<rparr>"

lemma initial_db_ok: "n \<noteq> [] \<Longrightarrow> length n \<le> 100 \<Longrightarrow> db_ok (initial_db n u rots pls)"
  by (simp add: initial_db_def db_ok_def profiles_ok_def blocks_ok_def logs_ok_def state_ok_def usable_def
      find_profile_def)

section \<open>Resolution in a database\<close>

text \<open>What is programmed at a minute: the content and the layer it comes from.\<close>

definition programme ::
  "schedule_block list \<Rightarrow> int \<Rightarrow> nat \<Rightarrow> nat \<Rightarrow> nat \<Rightarrow> (nat option \<times> nat option \<times> origin) option" where
  "programme blocks d h p m =
     map_option (\<lambda>(b, orig). (rotation_id b, playlist_id b, orig))
       (on_air (resolve_schedule_segments blocks d h p) m)"

lemma load_keys_distinct:
  assumes "distinct (map block_pk blocks)"
  shows "keys_distinct (fst (load_hour_rows blocks p d h)) (snd (load_hour_rows blocks p d h))"
proof -
  have "inj_on block_pk (set blocks)" "distinct blocks" using assms by (simp_all add: distinct_map)
  then show ?thesis
    unfolding keys_distinct_def distinct_map
    by (auto simp: load_hour_rows_def rows_in_hour_def case_prod_beta' Let_def intro: inj_on_subset)
qed

lemma on_air_resolve:
  "distinct (map block_pk blocks) \<Longrightarrow> on_air (resolve_schedule_segments blocks d h p) m
     = layered (fst (load_hour_rows blocks p d h)) (snd (load_hour_rows blocks p d h)) m"
  by (simp add: resolve_schedule_segments_def case_prod_beta' Let_def effective_segments_layered load_keys_distinct)

text \<open>A row without its identity.\<close>

definition anonymous :: "schedule_block \<Rightarrow> schedule_block" where
  "anonymous b = b\<lparr>block_pk := 0, profile_id := 0\<rparr>"

lemma anonymous_simps [simp]: "minute_of (anonymous b) = minute_of b" "rotation_id (anonymous b) = rotation_id b"
  "playlist_id (anonymous b) = playlist_id b" "specific_date (anonymous b) = specific_date b"
  "day_of_week (anonymous b) = day_of_week b" "start_time (anonymous b) = start_time b"
  by (simp_all add: anonymous_def minute_of_def)

lemma find_map_option: "find P (map f xs) = map_option f (find (\<lambda>x. P (f x)) xs)"
  by (induction xs) auto

lemma last_at_anonymous: "last_at (map anonymous rows) m = map_option anonymous (last_at rows m)"
  by (induction m) (auto simp: find_map_option rev_map split: option.splits)

lemma layered_anonymous:
  assumes "map anonymous w = map anonymous w'" and "map anonymous d = map anonymous d'"
  shows "map_option (\<lambda>(b, orig). (rotation_id b, playlist_id b, orig)) (layered w d m)
    = map_option (\<lambda>(b, orig). (rotation_id b, playlist_id b, orig)) (layered w' d' m)"
proof -
  have content: "map_option (\<lambda>(b, orig). (rotation_id b, playlist_id b, orig)) (layered w d m)
    = map_option (\<lambda>(b, orig). (rotation_id b, playlist_id b, orig)) (layered (map anonymous w) (map anonymous d) m)"
    for w d
    by (cases "last_at d m"; cases "last_at w m") (simp_all add: layered_def last_at_anonymous)
  show ?thesis by (simp only: content [of w d] content [of w' d'] assms)
qed

lemma filter_anonymous:
  "(\<And>b. P (anonymous b) = P b) \<Longrightarrow> map anonymous (filter P rows) = filter P (map anonymous rows)"
  by (simp add: filter_map comp_def)

lemma load_hour_rows_anonymous:
  assumes "map anonymous (filter (\<lambda>r. profile_id r = p) blocks)
         = map anonymous (filter (\<lambda>r. profile_id r = p') blocks')"
  shows "map anonymous (fst (load_hour_rows blocks p d h)) = map anonymous (fst (load_hour_rows blocks' p' d h))"
    and "map anonymous (snd (load_hour_rows blocks p d h)) = map anonymous (snd (load_hour_rows blocks' p' d h))"
proof -
  define w where "w = (\<lambda>r :: schedule_block. (day_of_week r = Some (weekday d) \<and> specific_date r = None)
     \<and> micros (fst (hour_bounds h)) \<le> micros (start_time r) \<and> micros (start_time r) \<le> micros (snd (hour_bounds h)))"
  define s where "s = (\<lambda>r :: schedule_block. (specific_date r = Some d \<and> day_of_week r = None)
     \<and> micros (fst (hour_bounds h)) \<le> micros (start_time r) \<and> micros (start_time r) \<le> micros (snd (hour_bounds h)))"
  have load: "fst (load_hour_rows blocks p d h) = filter w (filter (\<lambda>r. profile_id r = p) blocks)"
    "snd (load_hour_rows blocks p d h) = filter s (filter (\<lambda>r. profile_id r = p) blocks)" for blocks p
    by (auto simp: load_hour_rows_def rows_in_hour_def w_def s_def case_prod_beta' Let_def intro!: filter_cong)
  have "w (anonymous b) = w b" "s (anonymous b) = s b" for b by (simp_all add: w_def s_def)
  then show "map anonymous (fst (load_hour_rows blocks p d h)) = map anonymous (fst (load_hour_rows blocks' p' d h))"
    and "map anonymous (snd (load_hour_rows blocks p d h)) = map anonymous (snd (load_hour_rows blocks' p' d h))"
    unfolding load by (simp_all only: filter_anonymous assms)
qed

lemma programme_anonymous:
  assumes "distinct (map block_pk blocks)" and "distinct (map block_pk blocks')"
    and "map anonymous (filter (\<lambda>r. profile_id r = p) blocks)
         = map anonymous (filter (\<lambda>r. profile_id r = p') blocks')"
  shows "programme blocks d h p m = programme blocks' d h p' m"
  unfolding programme_def on_air_resolve [OF assms(1)] on_air_resolve [OF assms(2)]
  by (rule layered_anonymous) (rule load_hour_rows_anonymous [OF assms(3)])+

lemma clone_blocks_anonymous:
  "length ks = length rows \<Longrightarrow> map anonymous (map2 (clone_block clone) ks rows) = map anonymous rows"
  by (induction ks rows rule: list_induct2) (simp_all add: clone_block_def anonymous_def)

lemma clone_blocks_profile:
  "filter (\<lambda>r. profile_id r = p) (map2 (clone_block clone) ks rows)
     = (if p = clone then map2 (clone_block clone) ks rows else [])"
  by (auto simp: filter_empty_conv filter_id_conv clone_block_def)

lemma find_rev_unique:
  "(\<And>x y. x \<in> set xs \<Longrightarrow> y \<in> set xs \<Longrightarrow> P x \<Longrightarrow> P y \<Longrightarrow> x = y) \<Longrightarrow> find P (rev xs) = find P xs"
proof (induction xs)
  case (Cons x xs)
  have append: "find P (ys @ [x]) = (case find P ys of None \<Rightarrow> if P x then Some x else None | Some y \<Rightarrow> Some y)" for ys
    by (induction ys) auto
  have IH: "find P (rev xs) = find P xs" using Cons by (intro Cons.IH) auto
  show ?case
  proof (cases "find P xs")
    case None
    then show ?thesis by (simp add: append IH)
  next
    case (Some y)
    then have "y \<in> set xs" "P y" by (auto simp: find_Some_iff)
    with Cons.prems [of x y] Some show ?thesis by (auto simp: append IH)
  qed
qed simp

lemma find_filter: "find P (filter Q xs) = find (\<lambda>x. Q x \<and> P x) xs"
  by (induction xs) auto

lemma tod_eq_iff: "t = \<lparr>tod_hour = h, tod_minute = m, tod_second = s, tod_micro = us\<rparr>
    \<longleftrightarrow> tod_hour t = h \<and> tod_minute t = m \<and> tod_second t = s \<and> tod_micro t = us"
  by (cases t) auto

lemma exact_hour_resolver:
  assumes "blocks_ok db"
  shows "resolve_schedule_block (db_blocks db) d h p
    = map_option fst (on_air (resolve_schedule_segments (db_blocks db) d h p) 0)"
proof -
  define w where "w = fst (load_hour_rows (db_blocks db) p d h)"
  define s where "s = snd (load_hour_rows (db_blocks db) p d h)"
  let ?t = "\<lparr>tod_hour = h, tod_minute = 0, tod_second = 0, tod_micro = 0\<rparr>"
  have ok: "distinct (map block_pk (db_blocks db))" "distinct (map slot_of (db_blocks db))"
    "\<And>b. b \<in> set (db_blocks db) \<Longrightarrow> tod_valid (start_time b) \<and> (day_of_week b = None) \<noteq> (specific_date b = None)"
    using assms by (auto simp: blocks_ok_def list_all_iff block_ok_def)
  have hour: "profile_id b = p \<and> micros (fst (hour_bounds h)) \<le> micros (start_time b)
      \<and> micros (start_time b) \<le> micros (snd (hour_bounds h)) \<and> minute_of b = Some 0
    \<longleftrightarrow> profile_id b = p \<and> start_time b = ?t" if "b \<in> set (db_blocks db)" for b
    using in_hour_iff [of "start_time b" h] ok(3) [OF that]
    by (auto simp: minute_of_def tod_eq_iff split: if_splits)
  have unique: "x = y" if "x \<in> set (db_blocks db)" "y \<in> set (db_blocks db)" "slot_of x = slot_of y" for x y
    using that ok(2) by (auto simp: distinct_map dest: inj_onD)
  have weekly: "find (\<lambda>r. minute_of r = Some 0) (rev w)
    = find (\<lambda>r. (profile_id r = p \<and> start_time r = ?t) \<and> day_of_week r = Some (weekday d) \<and> specific_date r = None)
        (db_blocks db)"
  proof -
    have "find (\<lambda>r. minute_of r = Some 0) (rev w) = find (\<lambda>r. minute_of r = Some 0) w"
    proof (rule find_rev_unique)
      have slot: "x \<in> set (db_blocks db) \<and> profile_id x = p \<and> start_time x = ?t
          \<and> day_of_week x = Some (weekday d) \<and> specific_date x = None" if "x \<in> set w" "minute_of x = Some 0" for x
        using that hour [of x]
        by (auto simp: w_def load_hour_rows_def rows_in_hour_def Let_def case_prod_beta')
      show "x = y" if "x \<in> set w" "y \<in> set w" "minute_of x = Some 0" "minute_of y = Some 0" for x y
        using slot [OF that(1,3)] slot [OF that(2,4)] by (intro unique) (auto simp: slot_of_def)
    qed
    also have "\<dots> = find (\<lambda>r. (profile_id r = p \<and> start_time r = ?t) \<and> day_of_week r = Some (weekday d)
        \<and> specific_date r = None) (db_blocks db)"
      using hour by (auto simp: w_def load_hour_rows_def rows_in_hour_def Let_def case_prod_beta' find_filter
          intro!: find_cong)
    finally show ?thesis .
  qed
  have dated: "find (\<lambda>r. minute_of r = Some 0) (rev s)
    = find (\<lambda>r. (profile_id r = p \<and> start_time r = ?t) \<and> specific_date r = Some d) (db_blocks db)"
  proof -
    have "find (\<lambda>r. minute_of r = Some 0) (rev s) = find (\<lambda>r. minute_of r = Some 0) s"
    proof (rule find_rev_unique)
      have slot: "x \<in> set (db_blocks db) \<and> profile_id x = p \<and> start_time x = ?t
          \<and> day_of_week x = None \<and> specific_date x = Some d" if "x \<in> set s" "minute_of x = Some 0" for x
        using that hour [of x]
        by (auto simp: s_def load_hour_rows_def rows_in_hour_def Let_def case_prod_beta')
      show "x = y" if "x \<in> set s" "y \<in> set s" "minute_of x = Some 0" "minute_of y = Some 0" for x y
        using slot [OF that(1,3)] slot [OF that(2,4)] by (intro unique) (auto simp: slot_of_def)
    qed
    also have "\<dots> = find (\<lambda>r. (profile_id r = p \<and> start_time r = ?t) \<and> specific_date r = Some d) (db_blocks db)"
      using hour ok(3) by (auto simp: s_def load_hour_rows_def rows_in_hour_def Let_def case_prod_beta' find_filter
          intro!: find_cong)
    finally show ?thesis .
  qed
  have "on_air (resolve_schedule_segments (db_blocks db) d h p) 0 = layered w s 0"
    using on_air_resolve [OF ok(1)] by (simp add: w_def s_def)
  then show ?thesis
    by (simp add: resolve_schedule_block_def Let_def find_filter layered_def weekly dated option.map_comp comp_def option.map_ident
        split: option.splits)
qed

text \<open>A small database for the concrete instances: two profiles, one weekly row of the first.\<close>

definition sample_db :: schedule_db where
  "sample_db =
     \<lparr>db_profiles = [\<lparr>profile_pk = 1, uuid = 5, profile_name = cps ''Main'', description = [], sort_order = 0,
                      is_archived = False\<rparr>,
                     \<lparr>profile_pk = 2, uuid = 6, profile_name = cps ''Summer'', description = [], sort_order = 10,
                      is_archived = False\<rparr>],
      db_blocks = [sample_block 1 15 (Some 0) None], db_logs = [Some 1], db_state = Some (1, 1),
      db_rotations = [1], db_playlists = [], profile_seq = 3, block_seq = 2\<rparr>"

definition main_profile :: profile_row where
  "main_profile = \<lparr>profile_pk = 1, uuid = 5, profile_name = cps ''Main'', description = [], sort_order = 0,
     is_archived = False\<rparr>"

lemma sample_db_ok: "db_ok sample_db"
  by (simp add: sample_db_def db_ok_def profiles_ok_def blocks_ok_def logs_ok_def state_ok_def usable_def
      find_profile_def profile_pks_def block_ok_def sample_block_def tod_valid_def cps_def)

definition uuid_five :: utext where
  "uuid_five = cps ''00000000-0000-0000-0000-000000000005''"

section \<open>The properties\<close>

text \<open>C7. From the database the migrations leave, no sequence of lifecycle operations, schedule edits
  and log builds (refused ones included) breaks the station's schedule configuration: the state row
  points to an active and a default profile that both exist and are not archived; profile keys, names
  and uuids stay unique; every schedule row belongs to an existing profile, is weekly or dated but not
  both, carries exactly one content, and no two rows claim one slot; every log's profile exists.\<close>

theorem profiles_stay_consistent:
  "let db = run profile_step es (initial_db (cps ''Default Schedule'') u rots pls) in
   (\<exists>a d p q. db_state db = Some (a, d) \<and> find_profile db a = Some p \<and> \<not> is_archived p
       \<and> find_profile db d = Some q \<and> \<not> is_archived q)
   \<and> distinct (map profile_pk (db_profiles db)) \<and> distinct (map profile_name (db_profiles db))
   \<and> distinct (map uuid (db_profiles db))
   \<and> list_all (\<lambda>b. profile_id b \<in> profile_pks db \<and> block_ok b) (db_blocks db)
   \<and> distinct (map slot_of (db_blocks db))
   \<and> {p. Some p \<in> set (db_logs db)} \<subseteq> profile_pks db"
proof -
  define db where "db = run profile_step es (initial_db (cps ''Default Schedule'') u rots pls)"
  have "db_ok (initial_db (cps ''Default Schedule'') u rots pls)"
    by (rule initial_db_ok) (simp_all add: cps_def)
  then have "db_ok db" unfolding db_def by (rule schedule.run_inv)
  then show ?thesis
    unfolding db_def [symmetric] Let_def
    by (auto simp: db_ok_def profiles_ok_def blocks_ok_def logs_ok_def state_ok_def usable_def list_all_iff
        split: option.splits)
qed

text \<open>Activation is a compare-and-set. It succeeds exactly when the caller's expected uuid is
  that of the profile now active and the target exists unarchived; then it moves the active pointer
  and nothing else, and reports a change exactly when the target was not active already. A caller
  whose expectation is out of date gets the current uuid back.\<close>

theorem activate_compare_and_set:
  assumes "db_ok db" and "db_state db = Some (a, d)" and "find_profile db a = Some cur"
  shows "(case activate_profile pk expected db of
       Inr (db', changed) \<Rightarrow> expected \<noteq> [] \<and> uuid_of_text expected = Some (uuid cur) \<and> usable db pk
         \<and> db' = db\<lparr>db_state := Some (pk, d)\<rparr> \<and> changed = (pk \<noteq> a)
     | Inl e \<Rightarrow> \<not> (expected \<noteq> [] \<and> uuid_of_text expected = Some (uuid cur) \<and> usable db pk)
         \<and> (case e of StaleActivation u \<Rightarrow> u = uuid cur | _ \<Rightarrow> True))"
  using assms by (auto simp: activate_profile_def usable_def get_profile_def split: option.splits)

theorem activate_compare_and_set_witness:
  "case activate_profile 2 uuid_five sample_db of
     Inr (db', changed) \<Rightarrow> db' = sample_db\<lparr>db_state := Some (2, 1)\<rparr> \<and> changed
   | Inl e \<Rightarrow> False"
proof -
  have "is_ok (activate_profile 2 uuid_five sample_db)" by code_simp
  moreover have "db_state sample_db = Some (1, 1)" "find_profile sample_db 1 = Some main_profile"
    by (simp_all add: sample_db_def find_profile_def main_profile_def)
  ultimately show ?thesis
    using activate_compare_and_set [OF sample_db_ok, where pk = 2 and expected = uuid_five and a = 1 and d = 1 and cur = main_profile]
    by (auto simp: is_ok_def)
qed

text \<open>Of two operators who both saw the same active profile, only the first can switch it: after an
  activation that changed the pointer, any activation with the same expectation is refused.\<close>

theorem second_activation_refused:
  assumes "db_ok db" and "activate_profile pk expected db = Inr (db', True)"
  shows "\<exists>e. activate_profile other expected db' = Inl e"
proof -
  obtain a d where st: "db_state db = Some (a, d)" using load_state_ok [OF assms(1)] by blast
  with assms(2) obtain p cur where p: "find_profile db pk = Some p" and cur: "find_profile db a = Some cur"
    and ex: "expected \<noteq> []" "uuid_of_text expected = Some (uuid cur)" and "pk \<noteq> a"
    and db': "db' = db\<lparr>db_state := Some (pk, d)\<rparr>"
    by (auto simp: activate_profile_def bindR_eq_Inr split: if_splits option.splits)
  have "uuid p \<noteq> uuid cur"
    using find_profile_Some [OF p] find_profile_Some [OF cur] \<open>pk \<noteq> a\<close> db_okD(1) [OF assms(1)]
    by (auto simp: profiles_ok_def distinct_map dest: inj_onD)
  moreover have "find_profile db' = find_profile db" by (rule same_profiles) (simp add: db')
  ultimately have "activate_profile other expected db' \<noteq> Inr x" for x
    using ex p by (auto simp: activate_profile_def bindR_eq_Inr db')
  then show ?thesis by (cases "activate_profile other expected db'") auto
qed

theorem second_activation_refused_witness:
  "\<exists>e. activate_profile 1 uuid_five (sample_db\<lparr>db_state := Some (2, 1)\<rparr>) = Inl e"
proof -
  have "activate_profile 2 uuid_five sample_db = Inr (sample_db\<lparr>db_state := Some (2, 1)\<rparr>, True)" by code_simp
  from second_activation_refused [OF sample_db_ok this, of 1] show ?thesis .
qed

text \<open>A profile is deleted only when nothing refers to it: the operation ends without reaching the
  database's own protection error, it is refused with the list of all blockers exactly when the
  profile is active, default, has rows or has logs, and otherwise removes this profile only.\<close>

theorem delete_profile_exact:
  assumes "db_ok db" and "db_state db = Some (a, d)"
  shows "delete_profile pk db =
    (case find_profile db pk of
       None \<Rightarrow> Inl DoesNotExist
     | Some p \<Rightarrow>
         if pk = a \<or> pk = d \<or> block_count db pk \<noteq> 0 \<or> log_count db pk \<noteq> 0
         then Inl (CannotDelete ((if a = pk then [ProfileIsActive] else [])
           @ (if d = pk then [ProfileIsDefault] else [])
           @ (if block_count db pk \<noteq> 0 then [HasBlocks (block_count db pk)] else [])
           @ (if log_count db pk \<noteq> 0 then [HasLogs (log_count db pk)] else [])))
         else Inr (db\<lparr>db_profiles := filter (\<lambda>p. profile_pk p \<noteq> pk) (db_profiles db)\<rparr>, ()))"
  using assms(2)
  by (auto simp: delete_profile_def state_blockers_def remove_profile_def get_profile_def Let_def
      split: option.splits)

theorem delete_profile_exact_witness:
  "delete_profile 2 sample_db = Inr (sample_db\<lparr>db_profiles := [main_profile]\<rparr>, ())"
  using delete_profile_exact [OF sample_db_ok, of 1 1 2]
  by (simp add: sample_db_def find_profile_def block_count_def log_count_def sample_block_def main_profile_def)

text \<open>C8. A clone plays what its source plays: for every date, hour and minute the programme resolved
  for the new profile is the one resolved for the source (for its weekly rows only, if the date
  overrides are left out), and the resolution of every other profile is unchanged.\<close>

theorem clone_plays_the_same:
  assumes "db_ok db" and "clone_profile source n desc so dates u db = Inr (db', clone)"
  shows "programme (db_blocks db') d h p m =
    (if p = clone
     then programme (filter (\<lambda>r. dates \<or> specific_date r = None) (db_blocks db)) d h (profile_pk source) m
     else programme (db_blocks db) d h p m)"
proof -
  obtain cleaned desc' order db1 where n: "clean_name n = Inr cleaned"
    and ins: "insert_profile db cleaned desc' order u = Inr (db1, clone)"
    and bulk: "bulk_create clone (source_rows source dates db1) db1 = Inr (db', ())"
    by (rule clone_profile_cases [OF assms(2)])
  from n have "cleaned \<noteq> []" "length cleaned \<le> 100" using clean_name_ok by auto
  note i = insert_profile_ok [OF assms(1) ins this]
  define rows where "rows = source_rows source dates db1"
  define new where "new = map2 (clone_block clone) [block_seq db1..<block_seq db1 + length rows] rows"
  have blocks: "db_blocks db' = db_blocks db @ new"
    using bulk i(5) by (auto simp: bulk_create_def rows_def new_def Let_def split: if_splits)
  have pks: "distinct (map block_pk (db_blocks db))" "distinct (map block_pk (db_blocks db'))"
    using db_okD(2) [OF assms(1)] db_okD(2) [OF clone_profile_ok [OF assms]] by (simp_all add: blocks_ok_def)
  then have pks_f: "distinct (map block_pk (filter P (db_blocks db)))" for P
    by (simp add: distinct_map_filter)
  have old: "filter (\<lambda>r. profile_id r = clone) (db_blocks db) = []"
    using db_okD(2) [OF assms(1)] i(4) by (auto simp: blocks_ok_def list_all_iff filter_empty_conv)
  have new: "filter (\<lambda>r. profile_id r = p) new = (if p = clone then new else [])"
    by (simp add: new_def clone_blocks_profile)
  show ?thesis
  proof (cases "p = clone")
    case True
    have "map anonymous new = map anonymous rows" unfolding new_def by (rule clone_blocks_anonymous) simp
    then have "map anonymous (filter (\<lambda>r. profile_id r = p) (db_blocks db'))
      = map anonymous (filter (\<lambda>r. profile_id r = profile_pk source)
          (filter (\<lambda>r. dates \<or> specific_date r = None) (db_blocks db)))"
      using True old new by (simp add: blocks rows_def source_rows_def i(5) conj_commute)
    from programme_anonymous [OF pks(2) pks_f this] True show ?thesis by simp
  next
    case False
    then have "map anonymous (filter (\<lambda>r. profile_id r = p) (db_blocks db'))
      = map anonymous (filter (\<lambda>r. profile_id r = p) (db_blocks db))" using new by (simp add: blocks)
    from programme_anonymous [OF pks(2,1) this] False show ?thesis by simp
  qed
qed

theorem clone_plays_the_same_witness:
  "case clone_profile main_profile (JText (cps ''Copy'')) JNull JNull True 7 sample_db of
     Inr (db', clone) \<Rightarrow> clone = 3 \<and> programme (db_blocks db') 1 10 3 20 = Some (Some 1, None, Weekly)
   | Inl e \<Rightarrow> False"
proof -
  obtain db' where clone: "clone_profile main_profile (JText (cps ''Copy'')) JNull JNull True 7 sample_db = Inr (db', 3)"
  proof -
    have "(case clone_profile main_profile (JText (cps ''Copy'')) JNull JNull True 7 sample_db of
       Inr (db', k) \<Rightarrow> k = 3 | Inl e \<Rightarrow> False)" by code_simp
    then show thesis using that by (auto split: sum.splits)
  qed
  have "programme (filter (\<lambda>r. True) (db_blocks sample_db)) 1 10 1 20 = Some (Some 1, None, Weekly)"
    by code_simp
  then have "programme (db_blocks db') 1 10 3 20 = Some (Some 1, None, Weekly)"
    using clone_plays_the_same [OF sample_db_ok clone, of 1 10 3 20] by (simp add: main_profile_def)
  with clone show ?thesis by simp
qed

text \<open>A recorded gap: \<^verbatim>\<open>clone_profile\<close> does not load the state row first, as \<^verbatim>\<open>create_profile\<close>
  does. In a database with one profile and a missing state row, where \<^verbatim>\<open>load\<close> would still recover,
  a successful create leaves the state recovered, while a successful clone leaves two profiles and a
  state that no later \<^verbatim>\<open>load\<close> can recover.\<close>

theorem clone_loses_recovery:
  assumes "db_state db = None" and "db_profiles db = [p]"
  shows "is_ok (load_state db)
    \<and> (case create_profile n' desc' i u' db of Inr (db', k) \<Rightarrow> is_ok (load_state db') | Inl e \<Rightarrow> True)
    \<and> (case clone_profile p n desc so dates u db of
         Inr (db', k) \<Rightarrow> load_state db' = Inl StateMissing | Inl e \<Rightarrow> True)"
proof (intro conjI)
  show "is_ok (load_state db)" using assms by (simp add: load_state_def)
  show "case create_profile n' desc' i u' db of Inr (db', k) \<Rightarrow> is_ok (load_state db') | Inl e \<Rightarrow> True"
  proof (cases "create_profile n' desc' i u' db")
    case (Inr x)
    then obtain cleaned order where "bindR (load_state db) (\<lambda>(db', _).
       insert_profile db' cleaned (str_or_empty desc') order u') = Inr x"
      by (auto simp: create_profile_def bindR_eq_Inr Let_def dest!: report_name_Inr)
    then have "db_state (fst x) \<noteq> None"
      using assms by (auto simp: load_state_def insert_profile_def split: if_splits)
    with Inr show ?thesis by (auto simp: load_state_def split: prod.split)
  qed simp
  show "case clone_profile p n desc so dates u db of
         Inr (db', k) \<Rightarrow> load_state db' = Inl StateMissing | Inl e \<Rightarrow> True"
  proof (cases "clone_profile p n desc so dates u db")
    case (Inr x)
    then obtain db' k where x: "clone_profile p n desc so dates u db = Inr (db', k)" "x = (db', k)"
      by (cases x) auto
    obtain cleaned text' order db1 where ins: "insert_profile db cleaned text' order u = Inr (db1, k)"
      and bulk: "bulk_create k (source_rows p dates db1) db1 = Inr (db', ())"
      by (rule clone_profile_cases [OF x(1)])
    from ins assms have "db_state db1 = None" "length (db_profiles db1) = 2"
      by (auto simp: insert_profile_def split: if_splits)
    with bulk have "db_state db' = None" "length (db_profiles db') = 2"
      by (auto simp: bulk_create_def Let_def split: if_splits)
    then have "load_state db' = Inl StateMissing" by (auto simp: load_state_def split: list.splits)
    with x show ?thesis by simp
  qed simp
qed

theorem clone_loses_recovery_witness:
  "case clone_profile main_profile (JText (cps ''Copy'')) JNull JNull True 7
          (sample_db\<lparr>db_profiles := [main_profile], db_state := None\<rparr>) of
     Inr (db', k) \<Rightarrow> load_state db' = Inl StateMissing | Inl e \<Rightarrow> False"
proof -
  let ?db = "sample_db\<lparr>db_profiles := [main_profile], db_state := None\<rparr>"
  have "is_ok (clone_profile main_profile (JText (cps ''Copy'')) JNull JNull True 7 ?db)" by code_simp
  moreover have "case clone_profile main_profile (JText (cps ''Copy'')) JNull JNull True 7 ?db of
         Inr (db', k) \<Rightarrow> load_state db' = Inl StateMissing | Inl e \<Rightarrow> True"
    by (rule clone_loses_recovery [where db = ?db and p = main_profile, THEN conjunct2, THEN conjunct2]) simp_all
  ultimately show ?thesis by (auto simp: is_ok_def)
qed

text \<open>The exact-hour resolver that older callers use agrees with the segments at minute zero of the
  hour, in every reachable database.\<close>

theorem exact_hour_resolver_agrees:
  "let blocks = db_blocks (run profile_step es (initial_db (cps ''Default Schedule'') u rots pls)) in
   resolve_schedule_block blocks d h p = map_option fst (on_air (resolve_schedule_segments blocks d h p) 0)"
proof -
  define db where "db = run profile_step es (initial_db (cps ''Default Schedule'') u rots pls)"
  have "db_ok (initial_db (cps ''Default Schedule'') u rots pls)"
    by (rule initial_db_ok) (simp_all add: cps_def)
  then have "db_ok db" unfolding db_def by (rule schedule.run_inv)
  then have "blocks_ok db" by (rule db_okD)
  then show ?thesis unfolding db_def [symmetric] Let_def by (rule exact_hour_resolver)
qed

end
