(* ===== verification/Spoken_Lifecycle.thy ===== *)
theory Spoken_Lifecycle
  imports Air_Prelude
begin

text \<open>
  The spoken-item lifecycle: the fixed transition table of \<^verbatim>\<open>spoken/lifecycle.py\<close> and the
  transition service of \<^verbatim>\<open>spoken/transitions.py\<close>, over an explicit database (items, their
  append-only events, content types and production media). Each operation is one transaction under
  the item's row lock: it returns the new database, or an error and nothing is written. Times are
  microseconds, durations too; tokens and new keys are arguments. The projection service
  (\<^verbatim>\<open>spoken/delivery.py\<close>) is represented by its one lifecycle write, \<open>item_move\<close>. Two things the
  service asks of other parts are parameters: \<open>expected\<close> (what
  \<^verbatim>\<open>production.services.render.expected\<close> computes for a recipe and its parameters, \<open>None\<close> when it
  raises) and \<open>authority\<close> (the registered recall authorities).
\<close>

section \<open>The table\<close>

datatype item_state = Draft | Submitted | Validated | Processing | Processed | AwaitingReview
  | Delivered | Superseded | Recalled | Expired | Invalid | Failed | Rejected

definition terminal_states :: "item_state set" where
  "terminal_states = {Recalled, Expired, Invalid, Rejected}"

datatype column = C_state | C_state_changed_at | C_terminal_at | C_lease_token | C_lease_expires_at
  | C_failure_code | C_failure_detail | C_recalled_by_id | C_recalled_by_username | C_recalled_at
  | C_recall_reason | C_delivered_at | C_expires_at | C_reviewed_by_id | C_reviewed_by_username
  | C_reviewed_at | C_review_note | C_submission_media_id | C_submitted_at | C_validated_at
  | C_processing_attempts | C_processing_started_at | C_rendition_media_id | C_processed_at

record rule =
  rule_event :: string
  rule_c2 :: bool
  rule_columns :: "column list"

definition ALWAYS :: "column list" where "ALWAYS = [C_state, C_state_changed_at]"
definition TERMINAL :: "column list" where "TERMINAL = [C_terminal_at]"
definition LEASE :: "column list" where "LEASE = [C_lease_token, C_lease_expires_at]"
definition FAILURE :: "column list" where "FAILURE = [C_failure_code, C_failure_detail]"
definition RECALL :: "column list" where
  "RECALL = [C_recalled_by_id, C_recalled_by_username, C_recalled_at, C_recall_reason]"
definition DELIVERY :: "column list" where "DELIVERY = [C_delivered_at, C_expires_at]"
definition REVIEW :: "column list" where
  "REVIEW = [C_reviewed_by_id, C_reviewed_by_username, C_reviewed_at, C_review_note]"

definition plain_rule :: "string \<Rightarrow> column list \<Rightarrow> rule" where
  "plain_rule e cs = \<lparr>rule_event = e, rule_c2 = False, rule_columns = cs\<rparr>"

definition c2_rule :: "string \<Rightarrow> column list \<Rightarrow> rule" where
  "c2_rule e cs = \<lparr>rule_event = e, rule_c2 = True, rule_columns = cs\<rparr>"

definition TRANSITIONS :: "((item_state option \<times> item_state) \<times> rule) list" where
  "TRANSITIONS = [
    ((None, Draft), plain_rule ''created'' []),
    ((Some Draft, Submitted), plain_rule ''submitted'' [C_submission_media_id, C_submitted_at]),
    ((Some Submitted, Validated), plain_rule ''validated'' [C_validated_at]),
    ((Some Submitted, Invalid), plain_rule ''invalid'' FAILURE),
    ((Some Validated, Processing), plain_rule ''processing_started''
        (LEASE @ FAILURE @ [C_processing_attempts, C_processing_started_at])),
    ((Some Processing, Processing), plain_rule ''processing_reclaimed''
        (LEASE @ FAILURE @ [C_processing_attempts, C_processing_started_at])),
    ((Some Processing, Processed), plain_rule ''processed'' (LEASE @ [C_rendition_media_id, C_processed_at])),
    ((Some Processing, Failed), plain_rule ''failed'' (LEASE @ FAILURE)),
    ((Some Failed, Validated), plain_rule ''retried'' FAILURE),
    ((Some Processed, AwaitingReview), plain_rule ''review_requested'' []),
    ((Some AwaitingReview, Rejected), plain_rule ''rejected'' REVIEW),
    ((Some Draft, Recalled), plain_rule ''recalled'' RECALL),
    ((Some Submitted, Recalled), plain_rule ''recalled'' RECALL),
    ((Some Validated, Recalled), plain_rule ''recalled'' RECALL),
    ((Some Processed, Recalled), plain_rule ''recalled'' RECALL),
    ((Some AwaitingReview, Recalled), plain_rule ''recalled'' RECALL),
    ((Some Failed, Recalled), plain_rule ''recalled'' RECALL),
    ((Some Processed, Delivered), c2_rule ''delivered'' DELIVERY),
    ((Some AwaitingReview, Delivered), c2_rule ''approved_delivered'' (DELIVERY @ REVIEW)),
    ((Some Delivered, Superseded), c2_rule ''superseded'' []),
    ((Some Superseded, Delivered), c2_rule ''repromoted'' []),
    ((Some Delivered, Recalled), c2_rule ''recalled'' RECALL),
    ((Some Delivered, Expired), c2_rule ''expired'' []),
    ((Some Superseded, Recalled), c2_rule ''recalled'' RECALL),
    ((Some Superseded, Expired), c2_rule ''expired'' [])]"

definition transition_rule :: "item_state option \<Rightarrow> item_state \<Rightarrow> rule option" where
  "transition_rule from to = map_of TRANSITIONS (from, to)"

definition C2B_PERFORMABLE :: "(item_state \<times> item_state) list" where
  "C2B_PERFORMABLE = [(Processed, Delivered), (AwaitingReview, Delivered), (Delivered, Superseded),
     (Delivered, Recalled), (Delivered, Expired), (Superseded, Recalled), (Superseded, Expired)]"

definition writable_columns :: "rule \<Rightarrow> item_state \<Rightarrow> column set" where
  "writable_columns r to =
     set ALWAYS \<union> set (rule_columns r) \<union> (if to \<in> terminal_states then set TERMINAL else {})"

section \<open>The database\<close>

type_synonym instant = int

datatype recall_policy = OwnerUntilDelivered | OwnerAnytime | ManagersOnly

record spoken_type =
  type_enabled :: bool
  type_max_bytes :: "nat option"
  type_min_duration :: "int option"
  type_max_duration :: "int option"
  requires_review :: bool
  recall_policy :: recall_policy
  recipe_key :: utext
  recipe_params :: utext

datatype media_kind = Recording | Upload | EditedAudio | Rendition | OtherKind
datatype validation = Unvalidated | Valid | NotValid

record production_media =
  media_kind :: media_kind
  byte_size :: nat
  media_validation :: validation
  validation_code :: utext
  decoded_duration :: int
  bytes_present :: bool
  airing_prohibited :: bool
  derived_from :: "nat option"
  media_recipe_key :: utext
  media_recipe_version :: int
  media_digest :: utext
  by_executor :: bool

record spoken_item =
  content_type :: nat
  submitted_by :: "nat option"
  submission_media :: "nat option"
  rendition_media :: "nat option"
  item_state :: item_state
  state_changed_at :: "instant option"
  submitted_at :: "instant option"
  validated_at :: "instant option"
  processing_started_at :: "instant option"
  processed_at :: "instant option"
  delivered_at :: "instant option"
  terminal_at :: "instant option"
  expires_at :: "instant option"
  failure_code :: utext
  failure_detail :: utext
  reviewed_by :: "nat option"
  reviewed_by_username :: utext
  reviewed_at :: "instant option"
  review_note :: utext
  recalled_by :: "nat option"
  recalled_by_username :: utext
  recalled_at :: "instant option"
  recall_reason :: utext
  processing_attempts :: nat
  lease_token :: "nat option"
  lease_expires_at :: "instant option"

datatype actor_kind = User | System | Worker | Import

record user =
  user_pk :: nat
  username :: utext
  is_authenticated :: bool
  is_staff :: bool
  is_superuser :: bool

datatype detail = DText utext | DInt int | DObject "(utext \<times> detail) list"

record spoken_event =
  ev_item :: nat
  ev_name :: string
  ev_from :: "item_state option"
  ev_to :: item_state
  ev_kind :: actor_kind
  ev_actor :: "nat option"
  ev_username :: utext
  ev_media :: "nat option"
  ev_detail :: detail

record spoken_db =
  items :: "nat \<Rightarrow> spoken_item option"
  events :: "spoken_event list"
  types :: "nat \<Rightarrow> spoken_type option"
  media :: "nat \<Rightarrow> production_media option"
  item_keys :: "nat list"

datatype spoken_error =
    InvalidTransition string | NotPermitted string | EvidenceRefused string | ProjectionRequired
  | InvalidEventDetail | DoesNotExist | LeaseLengthError | SpokenIntegrityError | IntegrityError
  | DeliveryService | NoSuchRule

section \<open>Writes\<close>

datatype change = Set_state item_state | Set_state_changed_at instant | Set_terminal_at instant
  | Set_lease_token "nat option" | Set_lease_expires_at "instant option"
  | Set_failure_code utext | Set_failure_detail utext
  | Set_recalled_by "nat option" | Set_recalled_by_username utext | Set_recalled_at instant | Set_recall_reason utext
  | Set_delivered_at instant | Set_expires_at "instant option"
  | Set_reviewed_by "nat option" | Set_reviewed_by_username utext | Set_reviewed_at instant | Set_review_note utext
  | Set_submission_media nat | Set_submitted_at instant | Set_validated_at instant
  | Set_processing_attempts nat | Set_processing_started_at instant
  | Set_rendition_media nat | Set_processed_at instant

primrec column_of :: "change \<Rightarrow> column" where
  "column_of (Set_state x) = C_state"
| "column_of (Set_state_changed_at x) = C_state_changed_at"
| "column_of (Set_terminal_at x) = C_terminal_at"
| "column_of (Set_lease_token x) = C_lease_token"
| "column_of (Set_lease_expires_at x) = C_lease_expires_at"
| "column_of (Set_failure_code x) = C_failure_code"
| "column_of (Set_failure_detail x) = C_failure_detail"
| "column_of (Set_recalled_by x) = C_recalled_by_id"
| "column_of (Set_recalled_by_username x) = C_recalled_by_username"
| "column_of (Set_recalled_at x) = C_recalled_at"
| "column_of (Set_recall_reason x) = C_recall_reason"
| "column_of (Set_delivered_at x) = C_delivered_at"
| "column_of (Set_expires_at x) = C_expires_at"
| "column_of (Set_reviewed_by x) = C_reviewed_by_id"
| "column_of (Set_reviewed_by_username x) = C_reviewed_by_username"
| "column_of (Set_reviewed_at x) = C_reviewed_at"
| "column_of (Set_review_note x) = C_review_note"
| "column_of (Set_submission_media x) = C_submission_media_id"
| "column_of (Set_submitted_at x) = C_submitted_at"
| "column_of (Set_validated_at x) = C_validated_at"
| "column_of (Set_processing_attempts x) = C_processing_attempts"
| "column_of (Set_processing_started_at x) = C_processing_started_at"
| "column_of (Set_rendition_media x) = C_rendition_media_id"
| "column_of (Set_processed_at x) = C_processed_at"

primrec apply_change :: "change \<Rightarrow> spoken_item \<Rightarrow> spoken_item" where
  "apply_change (Set_state x) i = i\<lparr>item_state := x\<rparr>"
| "apply_change (Set_state_changed_at x) i = i\<lparr>state_changed_at := Some x\<rparr>"
| "apply_change (Set_terminal_at x) i = i\<lparr>terminal_at := Some x\<rparr>"
| "apply_change (Set_lease_token x) i = i\<lparr>lease_token := x\<rparr>"
| "apply_change (Set_lease_expires_at x) i = i\<lparr>lease_expires_at := x\<rparr>"
| "apply_change (Set_failure_code x) i = i\<lparr>failure_code := x\<rparr>"
| "apply_change (Set_failure_detail x) i = i\<lparr>failure_detail := x\<rparr>"
| "apply_change (Set_recalled_by x) i = i\<lparr>recalled_by := x\<rparr>"
| "apply_change (Set_recalled_by_username x) i = i\<lparr>recalled_by_username := x\<rparr>"
| "apply_change (Set_recalled_at x) i = i\<lparr>recalled_at := Some x\<rparr>"
| "apply_change (Set_recall_reason x) i = i\<lparr>recall_reason := x\<rparr>"
| "apply_change (Set_delivered_at x) i = i\<lparr>delivered_at := Some x\<rparr>"
| "apply_change (Set_expires_at x) i = i\<lparr>expires_at := x\<rparr>"
| "apply_change (Set_reviewed_by x) i = i\<lparr>reviewed_by := x\<rparr>"
| "apply_change (Set_reviewed_by_username x) i = i\<lparr>reviewed_by_username := x\<rparr>"
| "apply_change (Set_reviewed_at x) i = i\<lparr>reviewed_at := Some x\<rparr>"
| "apply_change (Set_review_note x) i = i\<lparr>review_note := x\<rparr>"
| "apply_change (Set_submission_media x) i = i\<lparr>submission_media := Some x\<rparr>"
| "apply_change (Set_submitted_at x) i = i\<lparr>submitted_at := Some x\<rparr>"
| "apply_change (Set_validated_at x) i = i\<lparr>validated_at := Some x\<rparr>"
| "apply_change (Set_processing_attempts x) i = i\<lparr>processing_attempts := x\<rparr>"
| "apply_change (Set_processing_started_at x) i = i\<lparr>processing_started_at := Some x\<rparr>"
| "apply_change (Set_rendition_media x) i = i\<lparr>rendition_media := Some x\<rparr>"
| "apply_change (Set_processed_at x) i = i\<lparr>processed_at := Some x\<rparr>"

section \<open>Actors and details\<close>

definition is_manager :: "user option \<Rightarrow> bool" where
  "is_manager u = (case u of None \<Rightarrow> False | Some u \<Rightarrow> is_authenticated u \<and> (is_staff u \<or> is_superuser u))"

definition may_recall_as_manager :: "(nat \<Rightarrow> nat \<Rightarrow> bool) \<Rightarrow> user option \<Rightarrow> spoken_item \<Rightarrow> bool" where
  "may_recall_as_manager authority u row =
     (is_manager u \<or> (case u of None \<Rightarrow> False | Some u \<Rightarrow> authority (user_pk u) (content_type row)))"

definition actor_columns :: "user option \<Rightarrow> actor_kind \<Rightarrow> spoken_error + (nat option \<times> utext)" where
  "actor_columns actor kind =
     (case actor of
        None \<Rightarrow> if kind = User then Inl (NotPermitted ''not_permitted'') else Inr (None, [])
      | Some u \<Rightarrow> Inr (Some (user_pk u), take 150 (username u)))"

definition owner_or_manager :: "spoken_item \<Rightarrow> user option \<Rightarrow> spoken_error + unit" where
  "owner_or_manager row u =
     (if is_manager u then Inr ()
      else if submitted_by row = None \<or> submitted_by row \<noteq> map_option user_pk u
      then Inl (NotPermitted ''not_permitted'') else Inr ())"

text \<open>The length of the canonical JSON text of a detail: compact, ASCII only.\<close>

definition json_char_length :: "nat \<Rightarrow> nat" where
  "json_char_length c =
     (if c = 34 \<or> c = 92 \<or> c = 8 \<or> c = 9 \<or> c = 10 \<or> c = 12 \<or> c = 13 then 2
      else if 32 \<le> c \<and> c \<le> 126 then 1
      else if c < 0x10000 then 6 else 12)"

definition json_text_length :: "utext \<Rightarrow> nat" where
  "json_text_length t = 2 + sum_list (map json_char_length t)"

fun decimal_length :: "nat \<Rightarrow> nat" where
  "decimal_length n = (if n < 10 then 1 else 1 + decimal_length (n div 10))"

declare decimal_length.simps [simp del]

fun json_length :: "detail \<Rightarrow> nat" where
  "json_length (DText t) = json_text_length t"
| "json_length (DInt i) = (if i < 0 then 1 else 0) + decimal_length (nat \<bar>i\<bar>)"
| "json_length (DObject kvs) =
     2 + (length kvs - 1) + sum_list (map (\<lambda>(k, v). json_text_length k + 1 + json_length v) kvs)"

definition DETAIL_LIMIT_BYTES :: nat where "DETAIL_LIMIT_BYTES = 8 * 1024"

definition bounded :: "detail \<Rightarrow> spoken_error + detail" where
  "bounded d = (if json_length d > DETAIL_LIMIT_BYTES then Inl InvalidEventDetail else Inr d)"

section \<open>The core\<close>

text \<open>\<^verbatim>\<open>retention.lock_for_binding\<close> as \<^verbatim>\<open>_apply\<close> reports its refusals.\<close>

definition lock_for_binding :: "spoken_db \<Rightarrow> nat \<Rightarrow> bool \<Rightarrow> spoken_error + nat" where
  "lock_for_binding db m require_valid =
     (case media db m of
        None \<Rightarrow> Inl (EvidenceRefused ''media_unusable'')
      | Some row \<Rightarrow>
          if \<not> bytes_present row then Inl (EvidenceRefused ''media_unusable'')
          else if require_valid \<and> media_validation row \<noteq> Valid then Inl (EvidenceRefused ''media_unusable'')
          else if airing_prohibited row then Inl (EvidenceRefused ''airing_prohibited'')
          else Inr m)"

definition require_lease :: "spoken_item \<Rightarrow> nat option \<Rightarrow> instant \<Rightarrow> spoken_error + unit" where
  "require_lease row token now =
     (if lease_token row = None \<or> token = None \<or> lease_token row \<noteq> token
      then Inl (EvidenceRefused ''stale_lease'')
      else case lease_expires_at row of
             None \<Rightarrow> Inl (EvidenceRefused ''lease_expired'')
           | Some t \<Rightarrow> if \<not> now < t then Inl (EvidenceRefused ''lease_expired'') else Inr ())"

text \<open>The arguments of \<^verbatim>\<open>_apply\<close>; \<open>lease\<close> is \<open>None\<close> for \<^verbatim>\<open>_NO_LEASE\<close>.\<close>

record transition_call =
  to_state :: item_state
  call_actor :: "user option"
  call_kind :: actor_kind
  expected_from :: "item_state list option"
  call_detail :: detail
  call_check :: "spoken_item \<Rightarrow> instant \<Rightarrow> spoken_error + unit"
  call_changes :: "instant \<Rightarrow> spoken_item \<Rightarrow> change list"
  call_media :: "nat option"
  require_valid_media :: bool
  call_verify :: "spoken_item \<Rightarrow> spoken_error + unit"
  call_lease :: "nat option option"

definition no_check :: "spoken_item \<Rightarrow> instant \<Rightarrow> spoken_error + unit" where
  "no_check row now = Inr ()"

definition base_call :: "item_state \<Rightarrow> user option \<Rightarrow> actor_kind \<Rightarrow> transition_call" where
  "base_call to actor kind = \<lparr>to_state = to, call_actor = actor, call_kind = kind, expected_from = None,
     call_detail = DObject [], call_check = no_check, call_changes = (\<lambda>now row. []), call_media = None,
     require_valid_media = True, call_verify = (\<lambda>row. Inr ()), call_lease = None\<rparr>"

text \<open>\<^verbatim>\<open>_plan\<close> and \<^verbatim>\<open>_commit\<close>: the columns are checked, the detail bounded, then the item is
  written and the event appended.\<close>

definition plan_and_commit ::
  "nat \<Rightarrow> spoken_item \<Rightarrow> item_state \<Rightarrow> rule \<Rightarrow> change list \<Rightarrow> actor_kind \<Rightarrow> nat option \<Rightarrow> utext
    \<Rightarrow> nat option \<Rightarrow> detail \<Rightarrow> spoken_db \<Rightarrow> spoken_error + spoken_db" where
  "plan_and_commit pk row to r planned kind user_id user_name bound d db =
     (if \<not> set (map column_of planned) \<subseteq> writable_columns r to then Inl (InvalidTransition ''invalid_transition'')
      else bindR (bounded d) (\<lambda>d'.
        Inr (db\<lparr>items := (items db)(pk \<mapsto> fold apply_change planned row),
                events := events db @ [\<lparr>ev_item = pk, ev_name = rule_event r, ev_from = Some (item_state row),
                  ev_to = to, ev_kind = kind, ev_actor = user_id, ev_username = user_name, ev_media = bound,
                  ev_detail = d'\<rparr>]\<rparr>)))"

definition with_stamps :: "change list \<Rightarrow> item_state \<Rightarrow> instant \<Rightarrow> change list" where
  "with_stamps planned to now = planned @ [Set_state to, Set_state_changed_at now]
     @ (if to \<in> terminal_states then [Set_terminal_at now] else [])"

definition apply_call :: "transition_call \<Rightarrow> nat \<Rightarrow> instant \<Rightarrow> spoken_db \<Rightarrow> spoken_error + spoken_db" where
  "apply_call c pk now db =
     (case items db pk of
        None \<Rightarrow> Inl DoesNotExist
      | Some row \<Rightarrow>
      (case transition_rule (Some (item_state row)) (to_state c) of
         None \<Rightarrow> Inl (InvalidTransition ''invalid_transition'')
       | Some r \<Rightarrow>
       if (case expected_from c of None \<Rightarrow> False | Some froms \<Rightarrow> item_state row \<notin> set froms)
       then Inl (InvalidTransition ''invalid_transition'')
       else if rule_c2 r then Inl ProjectionRequired
       else bindR (actor_columns (call_actor c) (call_kind c)) (\<lambda>(user_id, user_name).
       bindR (case call_lease c of None \<Rightarrow> Inr () | Some token \<Rightarrow> require_lease row token now) (\<lambda>_.
       bindR (call_check c row now) (\<lambda>_.
       bindR (case call_media c of None \<Rightarrow> Inr None
              | Some m \<Rightarrow> bindR (lock_for_binding db m (require_valid_media c)) (\<lambda>b. Inr (Some b))) (\<lambda>bound.
       bindR (call_verify c row) (\<lambda>_.
       plan_and_commit pk row (to_state c) r (with_stamps (call_changes c now row) (to_state c) now)
         (call_kind c) user_id user_name bound (call_detail c) db)))))))"

section \<open>The operations\<close>

datatype origin = OriginSubmitted | OriginAssigned | OriginImported

definition new_item :: "nat \<Rightarrow> nat option \<Rightarrow> instant \<Rightarrow> spoken_item" where
  "new_item type_pk user_id now =
     \<lparr>content_type = type_pk, submitted_by = user_id, submission_media = None, rendition_media = None,
      item_state = Draft, state_changed_at = Some now, submitted_at = None, validated_at = None,
      processing_started_at = None, processed_at = None, delivered_at = None, terminal_at = None,
      expires_at = None, failure_code = [], failure_detail = [], reviewed_by = None,
      reviewed_by_username = [], reviewed_at = None, review_note = [], recalled_by = None,
      recalled_by_username = [], recalled_at = None, recall_reason = [], processing_attempts = 0,
      lease_token = None, lease_expires_at = None\<rparr>"

definition created_event :: "nat \<Rightarrow> nat option \<Rightarrow> utext \<Rightarrow> detail \<Rightarrow> spoken_event" where
  "created_event new_pk user_id user_name d =
     \<lparr>ev_item = new_pk, ev_name = ''created'', ev_from = None, ev_to = Draft, ev_kind = User,
      ev_actor = user_id, ev_username = user_name, ev_media = None, ev_detail = d\<rparr>"

definition create_row ::
  "nat \<Rightarrow> origin \<Rightarrow> detail \<Rightarrow> nat \<Rightarrow> nat option \<Rightarrow> utext \<Rightarrow> instant \<Rightarrow> spoken_db \<Rightarrow> spoken_error + spoken_db" where
  "create_row type_pk orig d new_pk user_id user_name now db =
     (case types db type_pk of
        None \<Rightarrow> Inl DoesNotExist
      | Some t \<Rightarrow>
          if \<not> type_enabled t then Inl (NotPermitted ''type_disabled'')
          else bindR (bounded d) (\<lambda>d'.
          if items db new_pk \<noteq> None then Inl IntegrityError
          else Inr (db\<lparr>items := (items db)(new_pk \<mapsto> new_item type_pk user_id now),
             events := events db @ [created_event new_pk user_id user_name d'],
             item_keys := item_keys db @ [new_pk]\<rparr>)))"

definition create_item ::
  "nat \<Rightarrow> user option \<Rightarrow> origin \<Rightarrow> detail \<Rightarrow> nat \<Rightarrow> instant \<Rightarrow> spoken_db \<Rightarrow> spoken_error + spoken_db" where
  "create_item type_pk actor orig d new_pk now db =
     (if orig = OriginImported then Inl (NotPermitted ''not_permitted'')
      else bindR (actor_columns actor User) (\<lambda>(user_id, user_name).
        create_row type_pk orig d new_pk user_id user_name now db))"

definition submit_check ::
  "spoken_db \<Rightarrow> nat \<Rightarrow> user option \<Rightarrow> spoken_item \<Rightarrow> instant \<Rightarrow> spoken_error + unit" where
  "submit_check db m u row now =
     bindR (owner_or_manager row u) (\<lambda>_.
     case types db (content_type row) of
       None \<Rightarrow> Inl (NotPermitted ''type_disabled'')
     | Some t \<Rightarrow>
         if \<not> type_enabled t then Inl (NotPermitted ''type_disabled'')
         else case media db m of
                None \<Rightarrow> Inl (EvidenceRefused ''media_kind'')
              | Some cand \<Rightarrow>
                  if media_kind cand \<notin> {Recording, Upload, EditedAudio} then Inl (EvidenceRefused ''media_kind'')
                  else case type_max_bytes t of
                         None \<Rightarrow> Inr ()
                       | Some limit \<Rightarrow> if byte_size cand > limit then Inl (EvidenceRefused ''too_large'') else Inr ())"

definition submit_call :: "spoken_db \<Rightarrow> nat \<Rightarrow> user option \<Rightarrow> utext \<Rightarrow> transition_call" where
  "submit_call db m actor media_text = (base_call Submitted actor User)\<lparr>
     call_detail := DObject [(cps ''media'', DText media_text)],
     call_check := submit_check db m actor,
     call_changes := (\<lambda>now row. [Set_submission_media m, Set_submitted_at now]),
     call_media := Some m, require_valid_media := False\<rparr>"

definition submit ::
  "nat \<Rightarrow> nat \<Rightarrow> user option \<Rightarrow> utext \<Rightarrow> instant \<Rightarrow> spoken_db \<Rightarrow> spoken_error + spoken_db" where
  "submit pk m actor media_text now db = apply_call (submit_call db m actor media_text) pk now db"

definition policy_duration_code :: "int \<Rightarrow> spoken_type \<Rightarrow> utext option" where
  "policy_duration_code d t =
     (if (case type_min_duration t of None \<Rightarrow> False | Some lo \<Rightarrow> d < lo) then Some (cps ''too_short'')
      else if (case type_max_duration t of None \<Rightarrow> False | Some hi \<Rightarrow> hi < d) then Some (cps ''too_long'')
      else None)"

definition invalid_call :: "utext \<Rightarrow> actor_kind \<Rightarrow> transition_call" where
  "invalid_call code kind = (base_call Invalid None kind)\<lparr>
     expected_from := Some [Submitted],
     call_changes := (\<lambda>now row. [Set_failure_code (take 64 code), Set_failure_detail []]),
     call_detail := DObject [(cps ''code'', DText code)]\<rparr>"

definition validated_call :: "nat \<Rightarrow> utext \<Rightarrow> actor_kind \<Rightarrow> transition_call" where
  "validated_call m duration_text kind = (base_call Validated None kind)\<lparr>
     expected_from := Some [Submitted],
     call_changes := (\<lambda>now row. [Set_validated_at now]), call_media := Some m,
     call_detail := DObject [(cps ''duration_seconds'', DText duration_text)]\<rparr>"

definition record_validation ::
  "nat \<Rightarrow> actor_kind \<Rightarrow> utext \<Rightarrow> instant \<Rightarrow> spoken_db \<Rightarrow> spoken_error + spoken_db" where
  "record_validation pk kind duration_text now db =
     (case items db pk of None \<Rightarrow> Inl DoesNotExist | Some row \<Rightarrow>
      (case submission_media row of None \<Rightarrow> Inl (EvidenceRefused ''no_media'') | Some m \<Rightarrow>
      (case (media db m, types db (content_type row)) of
         (Some med, Some t) \<Rightarrow>
           if media_validation med = Unvalidated then Inl (EvidenceRefused ''not_validated_yet'')
           else (case (if media_validation med \<noteq> Valid
                       then Some (if validation_code med = [] then cps ''invalid_media'' else validation_code med)
                       else policy_duration_code (decoded_duration med) t) of
                   Some code \<Rightarrow> apply_call (invalid_call code kind) pk now db
                 | None \<Rightarrow> apply_call (validated_call m duration_text kind) pk now db)
       | _ \<Rightarrow> Inl DoesNotExist)))"

definition LEASE_MIN_SECONDS :: int where "LEASE_MIN_SECONDS = 30"
definition LEASE_MAX_SECONDS :: int where "LEASE_MAX_SECONDS = 3600"

definition lease_free :: "spoken_item \<Rightarrow> instant \<Rightarrow> spoken_error + unit" where
  "lease_free row now =
     (if item_state row = Processing
         \<and> (case lease_expires_at row of None \<Rightarrow> True | Some t \<Rightarrow> now < t)
      then Inl (InvalidTransition ''lease_held'') else Inr ())"

definition processing_call :: "int \<Rightarrow> nat \<Rightarrow> actor_kind \<Rightarrow> transition_call" where
  "processing_call lease_seconds token kind = (base_call Processing None kind)\<lparr>
     expected_from := Some [Validated, Processing], call_check := lease_free,
     call_changes := (\<lambda>now row. [Set_lease_token (Some token),
       Set_lease_expires_at (Some (now + lease_seconds * 1000000)),
       Set_processing_attempts (min (processing_attempts row + 1) 1000), Set_processing_started_at now,
       Set_failure_code [], Set_failure_detail []]),
     call_detail := DObject [(cps ''lease_seconds'', DInt lease_seconds)]\<rparr>"

definition start_processing ::
  "nat \<Rightarrow> int \<Rightarrow> nat \<Rightarrow> actor_kind \<Rightarrow> instant \<Rightarrow> spoken_db \<Rightarrow> spoken_error + spoken_db" where
  "start_processing pk lease_seconds token kind now db =
     (if \<not> (LEASE_MIN_SECONDS \<le> lease_seconds \<and> lease_seconds \<le> LEASE_MAX_SECONDS) then Inl LeaseLengthError
      else apply_call (processing_call lease_seconds token kind) pk now db)"

record evidence =
  ev_rendition :: nat
  ev_source :: nat
  ev_recipe_key :: utext
  ev_recipe_version :: int
  ev_digest :: utext

definition verify_render ::
  "(utext \<Rightarrow> utext \<Rightarrow> (int \<times> utext) option) \<Rightarrow> spoken_db \<Rightarrow> nat \<Rightarrow> evidence \<Rightarrow> spoken_item
    \<Rightarrow> spoken_error + unit" where
  "verify_render expected db pk evid row =
     (case (media db (ev_rendition evid), types db (content_type row)) of
        (Some b, Some t) \<Rightarrow>
          if media_kind b \<noteq> Rendition \<or> submission_media row = None \<or> derived_from b \<noteq> submission_media row
             \<or> Some (ev_source evid) \<noteq> submission_media row \<or> media_recipe_key b \<noteq> recipe_key t
          then Inl (EvidenceRefused ''rendition_mismatch'')
          else if (media_recipe_key b, media_recipe_version b, media_digest b)
               \<noteq> (ev_recipe_key evid, ev_recipe_version evid, ev_digest evid)
          then Inl (EvidenceRefused ''rendition_mismatch'')
          else if \<not> by_executor b then Inl (EvidenceRefused ''rendition_mismatch'')
          else (case expected (recipe_key t) (recipe_params t) of
                  None \<Rightarrow> Inl (EvidenceRefused ''render_outdated'')
                | Some (version, digest) \<Rightarrow>
                    if (media_recipe_version b, media_digest b) \<noteq> (version, digest)
                    then Inl (EvidenceRefused ''render_outdated'')
                    else if list_ex (\<lambda>k. k \<noteq> pk \<and> (case items db k of None \<Rightarrow> False
                              | Some i \<Rightarrow> rendition_media i = Some (ev_rendition evid))) (item_keys db)
                    then Inl (EvidenceRefused ''rendition_already_bound'')
                    else Inr ())
      | _ \<Rightarrow> Inl DoesNotExist)"

definition complete_call ::
  "(utext \<Rightarrow> utext \<Rightarrow> (int \<times> utext) option) \<Rightarrow> spoken_db \<Rightarrow> nat \<Rightarrow> nat option \<Rightarrow> evidence \<Rightarrow> detail
    \<Rightarrow> actor_kind \<Rightarrow> transition_call" where
  "complete_call expected db pk token evid d kind = (base_call Processed None kind)\<lparr>
     expected_from := Some [Processing], call_lease := Some token,
     call_changes := (\<lambda>now row. [Set_rendition_media (ev_rendition evid), Set_processed_at now,
       Set_lease_token None, Set_lease_expires_at None]),
     call_media := Some (ev_rendition evid), call_detail := d,
     call_verify := verify_render expected db pk evid\<rparr>"

definition complete_processing ::
  "(utext \<Rightarrow> utext \<Rightarrow> (int \<times> utext) option) \<Rightarrow> nat \<Rightarrow> nat option \<Rightarrow> evidence \<Rightarrow> detail \<Rightarrow> actor_kind
    \<Rightarrow> instant \<Rightarrow> spoken_db \<Rightarrow> spoken_error + spoken_db" where
  "complete_processing expected pk token evid d kind now db =
     apply_call (complete_call expected db pk token evid d kind) pk now db"

definition fail_call :: "nat option \<Rightarrow> utext \<Rightarrow> utext \<Rightarrow> actor_kind \<Rightarrow> transition_call" where
  "fail_call token code d kind = (base_call Failed None kind)\<lparr>
     expected_from := Some [Processing], call_lease := Some token,
     call_changes := (\<lambda>now row. [Set_failure_code (take 64 code), Set_failure_detail (take 500 d),
       Set_lease_token None, Set_lease_expires_at None]),
     call_detail := DObject [(cps ''code'', DText (take 64 code))]\<rparr>"

definition fail_processing ::
  "nat \<Rightarrow> nat option \<Rightarrow> utext \<Rightarrow> utext \<Rightarrow> actor_kind \<Rightarrow> instant \<Rightarrow> spoken_db \<Rightarrow> spoken_error + spoken_db" where
  "fail_processing pk token code d kind now db =
     apply_call (fail_call token code d kind) pk now db"

definition manager_check :: "user option \<Rightarrow> spoken_item \<Rightarrow> instant \<Rightarrow> spoken_error + unit" where
  "manager_check u row now = (if is_manager u then Inr () else Inl (NotPermitted ''not_permitted''))"

definition retry_call :: "user option \<Rightarrow> transition_call" where
  "retry_call actor = (base_call Validated actor User)\<lparr>
     expected_from := Some [Failed], call_check := manager_check actor,
     call_changes := (\<lambda>now row. [Set_failure_code [], Set_failure_detail []])\<rparr>"

definition retry :: "nat \<Rightarrow> user option \<Rightarrow> instant \<Rightarrow> spoken_db \<Rightarrow> spoken_error + spoken_db" where
  "retry pk actor now db = apply_call (retry_call actor) pk now db"

definition review_check :: "spoken_db \<Rightarrow> spoken_item \<Rightarrow> instant \<Rightarrow> spoken_error + unit" where
  "review_check db row now =
     (case types db (content_type row) of None \<Rightarrow> Inl DoesNotExist
      | Some t \<Rightarrow> if requires_review t then Inr () else Inl (InvalidTransition ''review_not_required''))"

definition review_call :: "spoken_db \<Rightarrow> actor_kind \<Rightarrow> transition_call" where
  "review_call db kind = (base_call AwaitingReview None kind)\<lparr>
     expected_from := Some [Processed], call_check := review_check db\<rparr>"

definition request_review :: "nat \<Rightarrow> actor_kind \<Rightarrow> instant \<Rightarrow> spoken_db \<Rightarrow> spoken_error + spoken_db" where
  "request_review pk kind now db = apply_call (review_call db kind) pk now db"

definition reject_call :: "user option \<Rightarrow> utext \<Rightarrow> transition_call" where
  "reject_call actor note = (base_call Rejected actor User)\<lparr>
     expected_from := Some [AwaitingReview], call_check := manager_check actor,
     call_changes := (\<lambda>now row. [Set_reviewed_by (map_option user_pk actor), Set_reviewed_at now,
       Set_reviewed_by_username (case actor of None \<Rightarrow> [] | Some u \<Rightarrow> take 150 (username u)),
       Set_review_note (take 1000 note)]),
     call_detail := DObject [(cps ''note'', DText (take 1000 note))]\<rparr>"

definition reject :: "nat \<Rightarrow> user option \<Rightarrow> utext \<Rightarrow> instant \<Rightarrow> spoken_db \<Rightarrow> spoken_error + spoken_db" where
  "reject pk actor note now db = apply_call (reject_call actor note) pk now db"

definition recall_check ::
  "(nat \<Rightarrow> nat \<Rightarrow> bool) \<Rightarrow> spoken_db \<Rightarrow> item_state option \<Rightarrow> user option \<Rightarrow> spoken_item \<Rightarrow> instant
    \<Rightarrow> spoken_error + unit" where
  "recall_check authority db expected_state u row now =
     (if expected_state \<noteq> None \<and> expected_state \<noteq> Some (item_state row)
      then Inl (InvalidTransition ''state_changed'')
      else if may_recall_as_manager authority u row then Inr ()
      else case types db (content_type row) of None \<Rightarrow> Inl DoesNotExist
           | Some t \<Rightarrow> if recall_policy t = ManagersOnly then Inl (NotPermitted ''not_permitted'')
                       else owner_or_manager row u)"

definition recall_call ::
  "(nat \<Rightarrow> nat \<Rightarrow> bool) \<Rightarrow> spoken_db \<Rightarrow> user option \<Rightarrow> utext \<Rightarrow> item_state option \<Rightarrow> transition_call" where
  "recall_call authority db actor reason expected_state = (base_call Recalled actor User)\<lparr>
     call_check := recall_check authority db expected_state actor,
     call_changes := (\<lambda>now row. [Set_recalled_by (map_option user_pk actor), Set_recalled_at now,
       Set_recalled_by_username (case actor of None \<Rightarrow> [] | Some u \<Rightarrow> take 150 (username u)),
       Set_recall_reason (take 500 reason)]),
     call_detail := DObject [(cps ''reason'', DText (take 500 reason))]\<rparr>"

text \<open>Items that were delivered are handed to the projection service.\<close>

definition recall ::
  "(nat \<Rightarrow> nat \<Rightarrow> bool) \<Rightarrow> nat \<Rightarrow> user option \<Rightarrow> utext \<Rightarrow> item_state option \<Rightarrow> instant \<Rightarrow> spoken_db
    \<Rightarrow> spoken_error + spoken_db" where
  "recall authority pk actor reason expected_state now db =
     (if (case items db pk of None \<Rightarrow> False | Some row \<Rightarrow> item_state row \<in> {Delivered, Superseded})
      then Inl DeliveryService
      else apply_call (recall_call authority db actor reason expected_state) pk now db)"

lemmas call_defs = submit_call_def invalid_call_def validated_call_def processing_call_def complete_call_def
  fail_call_def retry_call_def review_call_def reject_call_def recall_call_def base_call_def

lemma to_state_calls [simp]:
  "to_state (submit_call db m u t) = Submitted" "to_state (invalid_call code k) = Invalid"
  "to_state (validated_call m t k) = Validated" "to_state (processing_call n token k) = Processing"
  "to_state (complete_call expected db pk ltok evid d k) = Processed" "to_state (fail_call ltok code t k) = Failed"
  "to_state (retry_call u) = Validated" "to_state (review_call db k) = AwaitingReview"
  "to_state (reject_call u t) = Rejected" "to_state (recall_call authority db u t st) = Recalled"
  by (simp_all add: call_defs)

text \<open>The projection service's lifecycle write (\<^verbatim>\<open>delivery._item_move\<close>). The guard refuses the
  write of a rule that is not performable, and the transaction rolls back.\<close>

definition item_move ::
  "nat \<Rightarrow> item_state \<Rightarrow> change list \<Rightarrow> user option \<Rightarrow> actor_kind \<Rightarrow> nat option \<Rightarrow> detail \<Rightarrow> instant \<Rightarrow> spoken_db
    \<Rightarrow> spoken_error + spoken_db" where
  "item_move pk to changes actor kind m d now db =
     (case items db pk of None \<Rightarrow> Inl DoesNotExist | Some row \<Rightarrow>
      (case transition_rule (Some (item_state row)) to of
         None \<Rightarrow> Inl NoSuchRule
       | Some r \<Rightarrow>
           bindR (actor_columns actor kind) (\<lambda>(user_id, user_name).
           bindR (plan_and_commit pk row to r
             (changes @ [Set_state to, Set_state_changed_at now]
               @ (if to \<in> {Recalled, Expired} then [Set_terminal_at now] else []))
             kind user_id user_name m d db) (\<lambda>db'.
           if (item_state row, to) \<notin> set C2B_PERFORMABLE then Inl SpokenIntegrityError else Inr db'))))"

section \<open>The machine\<close>

datatype spoken_op =
    CreateItem nat "user option" origin detail nat
  | Submit nat nat "user option" utext
  | RecordValidation nat actor_kind utext
  | StartProcessing nat int nat actor_kind
  | CompleteProcessing nat "nat option" evidence detail actor_kind
  | FailProcessing nat "nat option" utext utext actor_kind
  | Retry nat "user option"
  | RequestReview nat actor_kind
  | Reject nat "user option" utext
  | RecallItem nat "user option" utext "item_state option"
  | ItemMove nat item_state "change list" "user option" actor_kind "nat option" detail

definition spoken_step ::
  "(utext \<Rightarrow> utext \<Rightarrow> (int \<times> utext) option) \<Rightarrow> (nat \<Rightarrow> nat \<Rightarrow> bool) \<Rightarrow> instant \<times> spoken_op \<Rightarrow> spoken_db
    \<Rightarrow> spoken_error + spoken_db" where
  "spoken_step expected authority e db =
     (let now = fst e in
      case snd e of
        CreateItem t u orig d k \<Rightarrow> create_item t u orig d k now db
      | Submit pk m u body \<Rightarrow> submit pk m u body now db
      | RecordValidation pk kind body \<Rightarrow> record_validation pk kind body now db
      | StartProcessing pk secs token kind \<Rightarrow> start_processing pk secs token kind now db
      | CompleteProcessing pk token evid d kind \<Rightarrow> complete_processing expected pk token evid d kind now db
      | FailProcessing pk token code d kind \<Rightarrow> fail_processing pk token code d kind now db
      | Retry pk u \<Rightarrow> retry pk u now db
      | RequestReview pk kind \<Rightarrow> request_review pk kind now db
      | Reject pk u note \<Rightarrow> reject pk u note now db
      | RecallItem pk u reason st \<Rightarrow> recall authority pk u reason st now db
      | ItemMove pk to changes u kind m d \<Rightarrow> item_move pk to changes u kind m d now db)"

end
