(* ===== verification/Spoken_Invariant.thy ===== *)
theory Spoken_Invariant
  imports Spoken_Lifecycle
begin

text \<open>
  The invariant of the spoken-item lifecycle, and that every operation keeps it: the facts a row
  states about itself (its terminal stamp, its lease, its rendition) agree with its state, its
  history is a path of the transition table, and no two items carry the same rendition.
\<close>

section \<open>The invariant\<close>

definition rendered_states :: "item_state set" where
  "rendered_states = {Processed, AwaitingReview, Delivered, Superseded, Expired, Rejected}"

text \<open>The media an item carries as its rendition is an executor's render of its own submission.\<close>

definition true_rendition :: "spoken_db \<Rightarrow> spoken_item \<Rightarrow> nat \<Rightarrow> bool" where
  "true_rendition db i m \<longleftrightarrow> (\<exists>med. media db m = Some med \<and> media_kind med = Rendition \<and> by_executor med
     \<and> derived_from med = submission_media i)"

definition item_ok :: "spoken_db \<Rightarrow> spoken_item \<Rightarrow> bool" where
  "item_ok db i \<longleftrightarrow>
     (terminal_at i \<noteq> None \<longleftrightarrow> item_state i \<in> terminal_states)
   \<and> (lease_token i \<noteq> None \<longleftrightarrow> item_state i = Processing)
   \<and> (lease_expires_at i \<noteq> None \<longleftrightarrow> lease_token i \<noteq> None)
   \<and> processing_attempts i \<le> 1000
   \<and> (submission_media i = None \<longrightarrow> item_state i \<in> {Draft, Recalled})
   \<and> (item_state i \<in> rendered_states \<longrightarrow> rendition_media i \<noteq> None)
   \<and> (case rendition_media i of None \<Rightarrow> True
       | Some m \<Rightarrow> item_state i \<in> insert Recalled rendered_states \<and> true_rendition db i m)"

text \<open>The history of an item is a path of the table that ends in its state.\<close>

fun legal_log :: "item_state option \<Rightarrow> spoken_event list \<Rightarrow> bool" where
  "legal_log s [] = True"
| "legal_log s (e # es) =
     (ev_from e = s \<and> (case transition_rule s (ev_to e) of None \<Rightarrow> False | Some r \<Rightarrow> ev_name e = rule_event r)
      \<and> legal_log (Some (ev_to e)) es)"

definition log_end :: "item_state option \<Rightarrow> spoken_event list \<Rightarrow> item_state option" where
  "log_end s es = (if es = [] then s else Some (ev_to (last es)))"

definition log_of :: "spoken_db \<Rightarrow> nat \<Rightarrow> spoken_event list" where
  "log_of db pk = filter (\<lambda>e. ev_item e = pk) (events db)"

definition history_ok :: "spoken_db \<Rightarrow> nat \<Rightarrow> bool" where
  "history_ok db pk \<longleftrightarrow> legal_log None (log_of db pk)
     \<and> log_end None (log_of db pk) = map_option item_state (items db pk)"

definition renditions_unique :: "spoken_db \<Rightarrow> bool" where
  "renditions_unique db \<longleftrightarrow> (\<forall>j k i i' m. items db j = Some i \<and> items db k = Some i'
     \<and> rendition_media i = Some m \<and> rendition_media i' = Some m \<longrightarrow> j = k)"

definition spoken_ok :: "spoken_db \<Rightarrow> bool" where
  "spoken_ok db \<longleftrightarrow> (\<forall>pk i. items db pk = Some i \<longrightarrow> item_ok db i \<and> pk \<in> set (item_keys db))
     \<and> (\<forall>pk. history_ok db pk) \<and> renditions_unique db"

lemma legal_log_append: "legal_log s (es @ fs) \<longleftrightarrow> legal_log s es \<and> legal_log (log_end s es) fs"
  by (induction es arbitrary: s) (auto simp: log_end_def)

lemma log_end_snoc [simp]: "log_end s (es @ [e]) = Some (ev_to e)"
  by (simp add: log_end_def)

lemma fold_untouched:
  "C_lease_token \<notin> set (map column_of cs) \<Longrightarrow> lease_token (fold apply_change cs i) = lease_token i"
  "C_lease_expires_at \<notin> set (map column_of cs) \<Longrightarrow> lease_expires_at (fold apply_change cs i) = lease_expires_at i"
  "C_terminal_at \<notin> set (map column_of cs) \<Longrightarrow> terminal_at (fold apply_change cs i) = terminal_at i"
  "C_processing_attempts \<notin> set (map column_of cs)
     \<Longrightarrow> processing_attempts (fold apply_change cs i) = processing_attempts i"
  "C_submission_media_id \<notin> set (map column_of cs) \<Longrightarrow> submission_media (fold apply_change cs i) = submission_media i"
  "C_rendition_media_id \<notin> set (map column_of cs) \<Longrightarrow> rendition_media (fold apply_change cs i) = rendition_media i"
proof -
  have lease: "C_lease_token \<noteq> column_of c \<Longrightarrow> lease_token (apply_change c i) = lease_token i"
    and expires: "C_lease_expires_at \<noteq> column_of c \<Longrightarrow> lease_expires_at (apply_change c i) = lease_expires_at i"
    and terminal: "C_terminal_at \<noteq> column_of c \<Longrightarrow> terminal_at (apply_change c i) = terminal_at i"
    and attempts: "C_processing_attempts \<noteq> column_of c \<Longrightarrow> processing_attempts (apply_change c i) = processing_attempts i"
    and submission: "C_submission_media_id \<noteq> column_of c \<Longrightarrow> submission_media (apply_change c i) = submission_media i"
    and rendition: "C_rendition_media_id \<noteq> column_of c \<Longrightarrow> rendition_media (apply_change c i) = rendition_media i"
    for c i by (cases c; simp)+
  show "C_lease_token \<notin> set (map column_of cs) \<Longrightarrow> lease_token (fold apply_change cs i) = lease_token i"
    by (induction cs arbitrary: i) (auto simp: lease)
  show "C_lease_expires_at \<notin> set (map column_of cs) \<Longrightarrow> lease_expires_at (fold apply_change cs i) = lease_expires_at i"
    by (induction cs arbitrary: i) (auto simp: expires)
  show "C_terminal_at \<notin> set (map column_of cs) \<Longrightarrow> terminal_at (fold apply_change cs i) = terminal_at i"
    by (induction cs arbitrary: i) (auto simp: terminal)
  show "C_processing_attempts \<notin> set (map column_of cs)
     \<Longrightarrow> processing_attempts (fold apply_change cs i) = processing_attempts i"
    by (induction cs arbitrary: i) (auto simp: attempts)
  show "C_submission_media_id \<notin> set (map column_of cs) \<Longrightarrow> submission_media (fold apply_change cs i) = submission_media i"
    by (induction cs arbitrary: i) (auto simp: submission)
  show "C_rendition_media_id \<notin> set (map column_of cs) \<Longrightarrow> rendition_media (fold apply_change cs i) = rendition_media i"
    by (induction cs arbitrary: i) (auto simp: rendition)
qed

lemma commit_ok:
  assumes ok: "spoken_ok db" and row: "items db pk = Some row"
    and rule: "transition_rule (Some (item_state row)) to = Some r"
    and db': "db' = db\<lparr>items := (items db)(pk \<mapsto> new), events := events db @ [e]\<rparr>"
    and e: "ev_item e = pk" "ev_name e = rule_event r" "ev_from e = Some (item_state row)" "ev_to e = to"
    and new: "item_state new = to" "item_ok db new"
    and bound: "rendition_media new = rendition_media row
      \<or> (\<forall>k i. k \<noteq> pk \<and> items db k = Some i \<longrightarrow> rendition_media i \<noteq> rendition_media new)"
  shows "spoken_ok db'"
proof -
  have same: "item_ok db' i = item_ok db i" for i
    by (cases "rendition_media i") (simp_all add: item_ok_def true_rendition_def db')
  have "history_ok db' k" for k
  proof (cases "k = pk")
    case True
    have "log_of db' pk = log_of db pk @ [e]" by (simp add: log_of_def db' e)
    moreover have "history_ok db pk" using ok by (simp add: spoken_ok_def)
    ultimately show ?thesis
      using True rule e new(1) row by (simp add: history_ok_def legal_log_append db')
  next
    case False
    then have "log_of db' k = log_of db k" "items db' k = items db k" using e(1) by (simp_all add: log_of_def db')
    moreover have "history_ok db k" using ok by (simp add: spoken_ok_def)
    ultimately show ?thesis by (simp add: history_ok_def)
  qed
  moreover have "renditions_unique db'"
    using ok row bound unfolding spoken_ok_def renditions_unique_def db'
    by (auto split: if_splits) metis+
  moreover have "item_ok db' i \<and> k \<in> set (item_keys db')" if "items db' k = Some i" for k i
    using that ok new(2) row unfolding spoken_ok_def same by (auto simp: db' split: if_splits)
  ultimately show ?thesis unfolding spoken_ok_def by blast
qed

lemma plan_and_commit_cases:
  assumes "plan_and_commit pk row to r planned kind u n b d db = Inr db'"
  obtains e where "db' = db\<lparr>items := (items db)(pk \<mapsto> fold apply_change planned row), events := events db @ [e]\<rparr>"
    and "ev_item e = pk" "ev_name e = rule_event r" "ev_from e = Some (item_state row)" "ev_to e = to"
    and "set (map column_of planned) \<subseteq> writable_columns r to"
  using assms by (auto simp: plan_and_commit_def bindR_eq_Inr split: if_splits)

lemma apply_call_cases:
  assumes "apply_call c pk now db = Inr db'"
  obtains row r e where "items db pk = Some row"
    and "transition_rule (Some (item_state row)) (to_state c) = Some r" and "\<not> rule_c2 r"
    and "case expected_from c of None \<Rightarrow> True | Some froms \<Rightarrow> item_state row \<in> set froms"
    and "case call_lease c of None \<Rightarrow> True | Some token \<Rightarrow> require_lease row token now = Inr ()"
    and "call_check c row now = Inr ()" and "call_verify c row = Inr ()"
    and "case call_media c of None \<Rightarrow> True | Some m \<Rightarrow> lock_for_binding db m (require_valid_media c) = Inr m"
    and "db' = db\<lparr>items := (items db)(pk \<mapsto>
           fold apply_change (with_stamps (call_changes c now row) (to_state c) now) row), events := events db @ [e]\<rparr>"
    and "ev_item e = pk" "ev_name e = rule_event r" "ev_from e = Some (item_state row)" "ev_to e = to_state c"
proof -
  obtain row where row: "items db pk = Some row"
    using assms by (auto simp: apply_call_def split: option.splits)
  obtain r where r: "transition_rule (Some (item_state row)) (to_state c) = Some r"
    using assms row by (auto simp: apply_call_def split: option.splits)
  have froms: "case expected_from c of None \<Rightarrow> True | Some froms \<Rightarrow> item_state row \<in> set froms"
    and "\<not> rule_c2 r"
    using assms row r by (auto simp: apply_call_def split: option.splits if_splits)
  with assms row r have "bindR (actor_columns (call_actor c) (call_kind c)) (\<lambda>(user_id, user_name).
       bindR (case call_lease c of None \<Rightarrow> Inr () | Some token \<Rightarrow> require_lease row token now) (\<lambda>_.
       bindR (call_check c row now) (\<lambda>_.
       bindR (case call_media c of None \<Rightarrow> Inr None
              | Some m \<Rightarrow> bindR (lock_for_binding db m (require_valid_media c)) (\<lambda>b. Inr (Some b))) (\<lambda>bound.
       bindR (call_verify c row) (\<lambda>_.
       plan_and_commit pk row (to_state c) r (with_stamps (call_changes c now row) (to_state c) now)
         (call_kind c) user_id user_name bound (call_detail c) db))))) = Inr db'"
    by (simp add: apply_call_def split: option.splits if_splits)
  then obtain u n where "bindR (case call_lease c of None \<Rightarrow> Inr () | Some token \<Rightarrow> require_lease row token now) (\<lambda>_.
       bindR (call_check c row now) (\<lambda>_.
       bindR (case call_media c of None \<Rightarrow> Inr None
              | Some m \<Rightarrow> bindR (lock_for_binding db m (require_valid_media c)) (\<lambda>b. Inr (Some b))) (\<lambda>bound.
       bindR (call_verify c row) (\<lambda>_.
       plan_and_commit pk row (to_state c) r (with_stamps (call_changes c now row) (to_state c) now)
         (call_kind c) u n bound (call_detail c) db)))) = Inr db'"
    by (rule bindR_InrE) (simp split: prod.splits)
  then obtain a1 a2 a3 bound where
    lease: "(case call_lease c of None \<Rightarrow> Inr () | Some token \<Rightarrow> require_lease row token now) = Inr a1"
    and check: "call_check c row now = Inr a2" and verify: "call_verify c row = Inr a3"
    and media: "(case call_media c of None \<Rightarrow> Inr None
              | Some m \<Rightarrow> bindR (lock_for_binding db m (require_valid_media c)) (\<lambda>b. Inr (Some b))) = Inr bound"
    and plan: "plan_and_commit pk row (to_state c) r (with_stamps (call_changes c now row) (to_state c) now)
         (call_kind c) u n bound (call_detail c) db = Inr db'"
    by (elim bindR_InrE) blast
  have lock: "case call_media c of None \<Rightarrow> True | Some m \<Rightarrow> lock_for_binding db m (require_valid_media c) = Inr m"
    using media by (auto simp: bindR_eq_Inr lock_for_binding_def split: option.splits if_splits)
  have check': "call_check c row now = Inr ()" "call_verify c row = Inr ()" using check verify by simp_all
  have lease': "case call_lease c of None \<Rightarrow> True | Some token \<Rightarrow> require_lease row token now = Inr ()"
    using lease by (auto split: option.splits)
  show thesis
    by (rule plan_and_commit_cases [OF plan])
       (rule that [OF row r \<open>\<not> rule_c2 r\<close> froms lease' check' lock])
qed

lemma rule_sources:
  "transition_rule (Some s) Submitted = Some r \<Longrightarrow> s = Draft"
  "transition_rule (Some s) Invalid = Some r \<Longrightarrow> s = Submitted"
  "transition_rule (Some s) Validated = Some r \<Longrightarrow> s \<in> {Submitted, Failed}"
  "transition_rule (Some s) Processing = Some r \<Longrightarrow> s \<in> {Validated, Processing}"
  "transition_rule (Some s) Processed = Some r \<Longrightarrow> s = Processing"
  "transition_rule (Some s) Failed = Some r \<Longrightarrow> s = Processing"
  "transition_rule (Some s) AwaitingReview = Some r \<Longrightarrow> s = Processed"
  "transition_rule (Some s) Rejected = Some r \<Longrightarrow> s = AwaitingReview"
  "transition_rule (Some s) Recalled = Some r
     \<Longrightarrow> s \<in> {Draft, Submitted, Validated, Processed, AwaitingReview, Failed, Delivered, Superseded}"
  by (cases s; simp add: transition_rule_def TRANSITIONS_def)+

lemma c2_moves:
  "(s, t) \<in> set C2B_PERFORMABLE \<Longrightarrow> transition_rule (Some s) t = Some r
     \<Longrightarrow> set (rule_columns r) \<subseteq> set (DELIVERY @ REVIEW @ RECALL)
       \<and> s \<in> {Processed, AwaitingReview, Delivered, Superseded} \<and> t \<in> {Delivered, Superseded, Recalled, Expired}"
  by (auto simp: C2B_PERFORMABLE_def transition_rule_def TRANSITIONS_def plain_rule_def c2_rule_def)

lemma with_stamps_state [simp]: "item_state (fold apply_change (with_stamps cs to now) row) = to"
  by (simp add: with_stamps_def)

lemma spoken_ok_item: "spoken_ok db \<Longrightarrow> items db pk = Some i \<Longrightarrow> item_ok db i"
  by (simp add: spoken_ok_def)

text \<open>What one operation has to show: the row it writes is well formed and claims no other item's media.\<close>

lemma call_ok:
  assumes ok: "spoken_ok db" and call: "apply_call c pk now db = Inr db'"
    and step: "\<And>row r new. \<lbrakk>items db pk = Some row; item_ok db row;
      transition_rule (Some (item_state row)) (to_state c) = Some r;
      call_check c row now = Inr (); call_verify c row = Inr ();
      new = fold apply_change (with_stamps (call_changes c now row) (to_state c) now) row\<rbrakk>
      \<Longrightarrow> item_ok db new \<and> (rendition_media new = rendition_media row
            \<or> (\<forall>k i. k \<noteq> pk \<and> items db k = Some i \<longrightarrow> rendition_media i \<noteq> rendition_media new))"
  shows "spoken_ok db'"
proof (rule apply_call_cases [OF call])
  fix row r e
  assume row: "items db pk = Some row"
    and r: "transition_rule (Some (item_state row)) (to_state c) = Some r"
    and check: "call_check c row now = Inr ()" "call_verify c row = Inr ()"
    and db': "db' = db\<lparr>items := (items db)(pk \<mapsto>
           fold apply_change (with_stamps (call_changes c now row) (to_state c) now) row), events := events db @ [e]\<rparr>"
    and e: "ev_item e = pk" "ev_name e = rule_event r" "ev_from e = Some (item_state row)" "ev_to e = to_state c"
  from step [OF row spoken_ok_item [OF ok row] r check refl]
  show "spoken_ok db'" by (intro commit_ok [OF ok row r db' e]) simp_all
qed

text \<open>The row each operation writes.\<close>

definition written :: "transition_call \<Rightarrow> instant \<Rightarrow> spoken_item \<Rightarrow> spoken_item" where
  "written c now row = fold apply_change (with_stamps (call_changes c now row) (to_state c) now) row"

lemma written_calls:
  "written (submit_call db m u t) now row = row\<lparr>submission_media := Some m, submitted_at := Some now,
     item_state := Submitted, state_changed_at := Some now\<rparr>"
  "written (invalid_call code k) now row = row\<lparr>failure_code := take 64 code, failure_detail := [],
     item_state := Invalid, state_changed_at := Some now, terminal_at := Some now\<rparr>"
  "written (validated_call m t k) now row = row\<lparr>validated_at := Some now,
     item_state := Validated, state_changed_at := Some now\<rparr>"
  "written (processing_call n token k) now row = row\<lparr>lease_token := Some token,
     lease_expires_at := Some (now + n * 1000000), processing_attempts := min (processing_attempts row + 1) 1000,
     processing_started_at := Some now, failure_code := [], failure_detail := [],
     item_state := Processing, state_changed_at := Some now\<rparr>"
  "written (complete_call expected db pk ltok evid d k) now row = row\<lparr>rendition_media := Some (ev_rendition evid),
     processed_at := Some now, lease_token := None, lease_expires_at := None,
     item_state := Processed, state_changed_at := Some now\<rparr>"
  "written (fail_call ltok code t k) now row = row\<lparr>failure_code := take 64 code, failure_detail := take 500 t,
     lease_token := None, lease_expires_at := None, item_state := Failed, state_changed_at := Some now\<rparr>"
  "written (retry_call u) now row = row\<lparr>failure_code := [], failure_detail := [],
     item_state := Validated, state_changed_at := Some now\<rparr>"
  "written (review_call db k) now row = row\<lparr>item_state := AwaitingReview, state_changed_at := Some now\<rparr>"
  "written (reject_call u t) now row = row\<lparr>reviewed_by := map_option user_pk u, reviewed_at := Some now,
     reviewed_by_username := (case u of None \<Rightarrow> [] | Some x \<Rightarrow> take 150 (username x)),
     review_note := take 1000 t, item_state := Rejected, state_changed_at := Some now, terminal_at := Some now\<rparr>"
  "written (recall_call authority db u t st) now row = row\<lparr>recalled_by := map_option user_pk u,
     recalled_at := Some now,
     recalled_by_username := (case u of None \<Rightarrow> [] | Some x \<Rightarrow> take 150 (username x)),
     recall_reason := take 500 t, item_state := Recalled, state_changed_at := Some now, terminal_at := Some now\<rparr>"
  by (simp_all add: written_def with_stamps_def terminal_states_def call_defs)

text \<open>Well-formedness of a row depends on seven of its columns only.\<close>

lemma item_ok_change:
  assumes ok: "item_ok db row"
    and attempts: "processing_attempts new \<le> 1000"
    and terminal: "terminal_at new \<noteq> None \<longleftrightarrow> item_state new \<in> terminal_states"
    and lease: "lease_token new \<noteq> None \<longleftrightarrow> item_state new = Processing"
      "lease_expires_at new \<noteq> None \<longleftrightarrow> lease_token new \<noteq> None"
    and submission: "submission_media new = submission_media row \<or> rendition_media row = None"
      "submission_media new = None \<Longrightarrow> item_state new \<in> {Draft, Recalled}"
    and rendition: "rendition_media new = rendition_media row"
      "rendition_media row = None \<Longrightarrow> item_state new \<notin> rendered_states"
      "rendition_media row \<noteq> None \<Longrightarrow> item_state new \<in> insert Recalled rendered_states"
  shows "item_ok db new"
proof (cases "rendition_media row")
  case None
  with assms show ?thesis by (auto simp: item_ok_def)
next
  case (Some m)
  with assms show ?thesis by (auto simp: item_ok_def true_rendition_def)
qed

lemma item_okD:
  assumes "item_ok db row"
  shows "terminal_at row \<noteq> None \<longleftrightarrow> item_state row \<in> terminal_states"
    and "lease_token row \<noteq> None \<longleftrightarrow> item_state row = Processing"
    and "lease_expires_at row \<noteq> None \<longleftrightarrow> lease_token row \<noteq> None"
    and "processing_attempts row \<le> 1000"
    and "submission_media row = None \<Longrightarrow> item_state row \<in> {Draft, Recalled}"
    and "item_state row \<in> rendered_states \<Longrightarrow> rendition_media row \<noteq> None"
    and "rendition_media row \<noteq> None \<Longrightarrow> item_state row \<in> insert Recalled rendered_states"
  using assms by (auto simp: item_ok_def split: option.splits)

lemma unrendered: "item_ok db row \<Longrightarrow> item_state row \<in> {Draft, Submitted, Validated, Processing, Failed}
    \<Longrightarrow> rendition_media row = None"
  using item_okD(7) [of db row] by (cases "rendition_media row") (auto simp: rendered_states_def)

lemma call_ok':
  assumes ok: "spoken_ok db" and call: "apply_call c pk now db = Inr db'"
    and step: "\<And>row r. \<lbrakk>items db pk = Some row; item_ok db row;
      transition_rule (Some (item_state row)) (to_state c) = Some r;
      call_check c row now = Inr (); call_verify c row = Inr ()\<rbrakk>
      \<Longrightarrow> item_ok db (written c now row) \<and> rendition_media (written c now row) = rendition_media row"
  shows "spoken_ok db'"
  by (rule call_ok [OF ok call]) (use step in \<open>auto simp: written_def\<close>)

lemma submit_ok:
  assumes "spoken_ok db" and "submit pk m u t now db = Inr db'" shows "spoken_ok db'"
proof (rule call_ok' [OF assms(1) assms(2) [unfolded submit_def]])
  fix row r
  assume row: "item_ok db row" and "transition_rule (Some (item_state row)) (to_state (submit_call db m u t)) = Some r"
  then have st: "item_state row = Draft" using rule_sources(1) by simp
  with unrendered [OF row] item_okD [OF row] show "item_ok db (written (submit_call db m u t) now row)
      \<and> rendition_media (written (submit_call db m u t) now row) = rendition_media row"
    by (intro conjI item_ok_change [OF row]) (simp_all add: written_calls terminal_states_def rendered_states_def)
qed

lemma record_validation_call:
  assumes "record_validation pk kind t now db = Inr db'"
  obtains code where "apply_call (invalid_call code kind) pk now db = Inr db'"
  | m where "apply_call (validated_call m t kind) pk now db = Inr db'"
  using assms by (auto simp: record_validation_def split: option.splits if_splits)

lemma record_validation_ok:
  assumes "spoken_ok db" and "record_validation pk kind t now db = Inr db'" shows "spoken_ok db'"
proof (rule record_validation_call [OF assms(2)])
  fix code
  assume call: "apply_call (invalid_call code kind) pk now db = Inr db'"
  show "spoken_ok db'"
  proof (rule call_ok' [OF assms(1) call])
    fix row r
    assume row: "item_ok db row" and "transition_rule (Some (item_state row)) (to_state (invalid_call code kind)) = Some r"
    then have st: "item_state row = Submitted" using rule_sources(2) by simp
    with unrendered [OF row] item_okD [OF row] show "item_ok db (written (invalid_call code kind) now row)
        \<and> rendition_media (written (invalid_call code kind) now row) = rendition_media row"
      by (intro conjI item_ok_change [OF row]) (simp_all add: written_calls terminal_states_def rendered_states_def)
  qed
next
  fix m
  assume call: "apply_call (validated_call m t kind) pk now db = Inr db'"
  show "spoken_ok db'"
  proof (rule call_ok' [OF assms(1) call])
    fix row r
    assume row: "item_ok db row" and "transition_rule (Some (item_state row)) (to_state (validated_call m t kind)) = Some r"
    then have st: "item_state row \<in> {Submitted, Failed}" using rule_sources(3) by simp
    with unrendered [OF row] item_okD [OF row] show "item_ok db (written (validated_call m t kind) now row)
        \<and> rendition_media (written (validated_call m t kind) now row) = rendition_media row"
      by (intro conjI item_ok_change [OF row]) (auto simp: written_calls terminal_states_def rendered_states_def)
  qed
qed

lemma start_processing_ok:
  assumes ok: "spoken_ok db" and op: "start_processing pk n token kind now db = Inr db'" shows "spoken_ok db'"
proof -
  have call: "apply_call (processing_call n token kind) pk now db = Inr db'" using op by (simp add: start_processing_def split: if_splits)
  show ?thesis
  proof (rule call_ok' [OF ok call])
    fix row r
    assume row: "item_ok db row" and "transition_rule (Some (item_state row)) (to_state (processing_call n token kind)) = Some r"
    then have st: "item_state row \<in> {Validated, Processing}" using rule_sources(4) by simp
    with unrendered [OF row] item_okD [OF row] show "item_ok db (written (processing_call n token kind) now row)
        \<and> rendition_media (written (processing_call n token kind) now row) = rendition_media row"
      by (intro conjI item_ok_change [OF row]) (auto simp: written_calls terminal_states_def rendered_states_def)
  qed
qed

lemma fail_processing_ok:
  assumes ok: "spoken_ok db" and op: "fail_processing pk token code d kind now db = Inr db'" shows "spoken_ok db'"
proof (rule call_ok' [OF ok op [unfolded fail_processing_def]])
  fix row r
  assume row: "item_ok db row" and "transition_rule (Some (item_state row)) (to_state (fail_call token code d kind)) = Some r"
  then have st: "item_state row = Processing" using rule_sources(6) by simp
  with unrendered [OF row] item_okD [OF row] show "item_ok db (written (fail_call token code d kind) now row)
      \<and> rendition_media (written (fail_call token code d kind) now row) = rendition_media row"
    by (intro conjI item_ok_change [OF row]) (auto simp: written_calls terminal_states_def rendered_states_def)
qed

lemma retry_ok:
  assumes ok: "spoken_ok db" and op: "retry pk u now db = Inr db'" shows "spoken_ok db'"
proof (rule call_ok' [OF ok op [unfolded retry_def]])
  fix row r
  assume row: "item_ok db row" and "transition_rule (Some (item_state row)) (to_state (retry_call u)) = Some r"
  then have st: "item_state row \<in> {Submitted, Failed}" using rule_sources(3) by simp
  with unrendered [OF row] item_okD [OF row] show "item_ok db (written (retry_call u) now row)
      \<and> rendition_media (written (retry_call u) now row) = rendition_media row"
    by (intro conjI item_ok_change [OF row]) (auto simp: written_calls terminal_states_def rendered_states_def)
qed

lemma request_review_ok:
  assumes ok: "spoken_ok db" and op: "request_review pk kind now db = Inr db'" shows "spoken_ok db'"
proof (rule call_ok' [OF ok op [unfolded request_review_def]])
  fix row r
  assume row: "item_ok db row" and "transition_rule (Some (item_state row)) (to_state (review_call db kind)) = Some r"
  then have st: "item_state row = Processed" using rule_sources(7) by simp
  with item_okD [OF row] show "item_ok db (written (review_call db kind) now row)
      \<and> rendition_media (written (review_call db kind) now row) = rendition_media row"
    by (intro conjI item_ok_change [OF row]) (auto simp: written_calls terminal_states_def rendered_states_def)
qed

lemma reject_ok:
  assumes ok: "spoken_ok db" and op: "reject pk u note now db = Inr db'" shows "spoken_ok db'"
proof (rule call_ok' [OF ok op [unfolded reject_def]])
  fix row r
  assume row: "item_ok db row" and "transition_rule (Some (item_state row)) (to_state (reject_call u note)) = Some r"
  then have st: "item_state row = AwaitingReview" using rule_sources(8) by simp
  with item_okD [OF row] show "item_ok db (written (reject_call u note) now row)
      \<and> rendition_media (written (reject_call u note) now row) = rendition_media row"
    by (intro conjI item_ok_change [OF row]) (auto simp: written_calls terminal_states_def rendered_states_def)
qed

lemma recall_ok:
  assumes ok: "spoken_ok db" and op: "recall authority pk u reason st now db = Inr db'" shows "spoken_ok db'"
proof -
  have call: "apply_call (recall_call authority db u reason st) pk now db = Inr db'" using op by (simp add: recall_def split: if_splits)
  show ?thesis
  proof (rule call_ok' [OF ok call])
    fix row r
    assume row: "item_ok db row" and "transition_rule (Some (item_state row)) (to_state (recall_call authority db u reason st)) = Some r"
    then have st: "item_state row \<in> {Draft, Submitted, Validated, Processed, AwaitingReview, Failed, Delivered, Superseded}" using rule_sources(9) by simp
    with item_okD [OF row] show "item_ok db (written (recall_call authority db u reason st) now row)
        \<and> rendition_media (written (recall_call authority db u reason st) now row) = rendition_media row"
      by (intro conjI item_ok_change [OF row]) (auto simp: written_calls terminal_states_def rendered_states_def)
  qed
qed

lemma verify_render_true:
  assumes "verify_render expected db pk evid row = Inr ()"
  shows "true_rendition db row (ev_rendition evid)" and "submission_media row \<noteq> None"
    and "\<And>k i. k \<in> set (item_keys db) \<Longrightarrow> k \<noteq> pk \<Longrightarrow> items db k = Some i
           \<Longrightarrow> rendition_media i \<noteq> Some (ev_rendition evid)"
proof -
  from assms obtain b t where b: "media db (ev_rendition evid) = Some b" "types db (content_type row) = Some t"
    and r: "media_kind b = Rendition" "submission_media row \<noteq> None" "derived_from b = submission_media row"
      "by_executor b"
    and free: "\<not> list_ex (\<lambda>k. k \<noteq> pk \<and> (case items db k of None \<Rightarrow> False
                              | Some i \<Rightarrow> rendition_media i = Some (ev_rendition evid))) (item_keys db)"
    by (auto simp: verify_render_def split: option.splits if_splits prod.splits)
  show "true_rendition db row (ev_rendition evid)" using b r by (auto simp: true_rendition_def)
  show "submission_media row \<noteq> None" by (rule r)
  show "rendition_media i \<noteq> Some (ev_rendition evid)"
    if "k \<in> set (item_keys db)" "k \<noteq> pk" "items db k = Some i" for k i
    using free that by (auto simp: list_ex_iff)
qed

lemma complete_processing_ok:
  assumes ok: "spoken_ok db" and op: "complete_processing expected pk token evid d kind now db = Inr db'"
  shows "spoken_ok db'"
proof (rule call_ok [OF ok op [unfolded complete_processing_def], folded written_def])
  fix row r new
  let ?c = "complete_call expected db pk token evid d kind"
  assume row: "items db pk = Some row" "item_ok db row"
    and rule: "transition_rule (Some (item_state row)) (to_state ?c) = Some r"
    and v: "call_verify ?c row = Inr ()" and new: "new = written ?c now row"
  have "verify_render expected db pk evid row = Inr ()" using v by (simp add: call_defs)
  note vr = verify_render_true [OF this]
  have st: "item_state row = Processing" using rule rule_sources(5) by simp
  note row_facts = item_okD [OF row(2)] unrendered [OF row(2)]
  have "item_ok db new"
    using row_facts(1-4) vr(1,2) st
    by (simp add: new written_calls item_ok_def terminal_states_def rendered_states_def true_rendition_def)
  moreover have "rendition_media i \<noteq> rendition_media new" if "k \<noteq> pk" "items db k = Some i" for k i
    using that vr(3) [of k i] ok by (simp add: new written_calls spoken_ok_def)
  ultimately show "item_ok db new \<and> (rendition_media new = rendition_media row
            \<or> (\<forall>k i. k \<noteq> pk \<and> items db k = Some i \<longrightarrow> rendition_media i \<noteq> rendition_media new))" by blast
qed

text \<open>A row that a C2 rule moves, with only the delivery, review and recall columns written.\<close>

lemma moved_row_ok:
  assumes row: "item_ok db row" and s: "item_state row \<in> {Processed, AwaitingReview, Delivered, Superseded}"
    and to: "to \<in> {Delivered, Superseded, Recalled, Expired}"
    and new: "item_state new = to" "lease_token new = lease_token row" "lease_expires_at new = lease_expires_at row"
      "processing_attempts new = processing_attempts row" "submission_media new = submission_media row"
      "rendition_media new = rendition_media row"
      "terminal_at new = (if to \<in> {Recalled, Expired} then Some now else terminal_at row)"
  shows "item_ok db new"
proof (rule item_ok_change [OF row])
  note facts = item_okD [OF row]
  have rendered: "item_state row \<in> rendered_states" using s by (auto simp: rendered_states_def)
  have idle: "lease_token row = None" using facts(2) s by auto
  have "terminal_at row = None" using facts(1) s by (auto simp: terminal_states_def)
  then show "(terminal_at new \<noteq> None) = (item_state new \<in> terminal_states)"
    unfolding new using to by (auto simp: terminal_states_def)
  show "(lease_token new \<noteq> None) = (item_state new = Processing)" unfolding new using idle to by auto
  show "(lease_expires_at new \<noteq> None) = (lease_token new \<noteq> None)" unfolding new by (rule facts(3))
  show "processing_attempts new \<le> 1000" unfolding new by (rule facts(4))
  show "item_state new \<in> {Draft, Recalled}" if "submission_media new = None"
    using facts(5) s that new(5) by auto
  show "item_state new \<notin> rendered_states" if "rendition_media row = None"
    using that facts(6) rendered by blast
  show "item_state new \<in> insert Recalled rendered_states"
    unfolding new using to by (auto simp: rendered_states_def)
qed (simp_all add: new)

lemma item_move_cases:
  assumes "item_move pk to changes actor kind m d now db = Inr db'"
  obtains row r u n where "items db pk = Some row" and "transition_rule (Some (item_state row)) to = Some r"
    and "(item_state row, to) \<in> set C2B_PERFORMABLE"
    and "plan_and_commit pk row to r (changes @ [Set_state to, Set_state_changed_at now]
               @ (if to \<in> {Recalled, Expired} then [Set_terminal_at now] else [])) kind u n m d db = Inr db'"
  using assms by (auto simp: item_move_def elim!: bindR_InrE split: option.splits if_splits prod.splits)

lemma item_move_ok:
  assumes ok: "spoken_ok db" and op: "item_move pk to changes actor kind m d now db = Inr db'"
  shows "spoken_ok db'"
proof -
  obtain row r u n where row: "items db pk = Some row"
    and r: "transition_rule (Some (item_state row)) to = Some r"
    and c2: "(item_state row, to) \<in> set C2B_PERFORMABLE"
    and plan: "plan_and_commit pk row to r (changes @ [Set_state to, Set_state_changed_at now]
               @ (if to \<in> {Recalled, Expired} then [Set_terminal_at now] else [])) kind u n m d db = Inr db'"
    by (rule item_move_cases [OF op])
  note move = c2_moves [OF c2 r]
  let ?planned = "changes @ [Set_state to, Set_state_changed_at now]
     @ (if to \<in> {Recalled, Expired} then [Set_terminal_at now] else [])"
  obtain e where db': "db' = db\<lparr>items := (items db)(pk \<mapsto> fold apply_change ?planned row), events := events db @ [e]\<rparr>"
    and e: "ev_item e = pk" "ev_name e = rule_event r" "ev_from e = Some (item_state row)" "ev_to e = to"
    and cols: "set (map column_of ?planned) \<subseteq> writable_columns r to"
    by (rule plan_and_commit_cases [OF plan])
  let ?mid = "fold apply_change changes row"
  let ?new = "fold apply_change ?planned row"
  have sub: "set (map column_of changes)
      \<subseteq> set ALWAYS \<union> set (DELIVERY @ REVIEW @ RECALL) \<union> (if to \<in> terminal_states then set TERMINAL else {})"
  proof -
    have "set (map column_of changes) \<subseteq> set (map column_of ?planned)" by (simp only: map_append set_append Un_upper1)
    then have "set (map column_of changes) \<subseteq> writable_columns r to" using cols by (rule order_trans)
    moreover have "set (rule_columns r) \<subseteq> set (DELIVERY @ REVIEW @ RECALL)" using move by blast
    ultimately show ?thesis unfolding writable_columns_def by blast
  qed
  have "(set ALWAYS \<union> set (DELIVERY @ REVIEW @ RECALL) \<union> set TERMINAL)
      \<inter> {C_lease_token, C_lease_expires_at, C_processing_attempts, C_submission_media_id, C_rendition_media_id} = {}"
    by (simp add: ALWAYS_def TERMINAL_def DELIVERY_def REVIEW_def RECALL_def)
  moreover have "set (map column_of changes) \<subseteq> set ALWAYS \<union> set (DELIVERY @ REVIEW @ RECALL) \<union> set TERMINAL"
    using sub by (cases "to \<in> terminal_states") auto
  ultimately have free: "C \<notin> set (map column_of changes)"
    if "C \<in> {C_lease_token, C_lease_expires_at, C_processing_attempts, C_submission_media_id, C_rendition_media_id}" for C
    using that by blast
  have mid: "lease_token ?mid = lease_token row" "lease_expires_at ?mid = lease_expires_at row"
    "processing_attempts ?mid = processing_attempts row" "submission_media ?mid = submission_media row"
    "rendition_media ?mid = rendition_media row"
    by (rule fold_untouched; rule free; simp)+
  have no_terminal: "terminal_at ?mid = terminal_at row" if "to \<notin> {Recalled, Expired}"
  proof (rule fold_untouched)
    have "to \<notin> terminal_states" using move that by (auto simp: terminal_states_def)
    moreover have "C_terminal_at \<notin> set ALWAYS \<union> set (DELIVERY @ REVIEW @ RECALL)"
      by (simp add: ALWAYS_def DELIVERY_def REVIEW_def RECALL_def)
    ultimately show "C_terminal_at \<notin> set (map column_of changes)" using sub by auto
  qed
  have new: "item_state ?new = to" "lease_token ?new = lease_token row" "lease_expires_at ?new = lease_expires_at row"
    "processing_attempts ?new = processing_attempts row" "submission_media ?new = submission_media row"
    "rendition_media ?new = rendition_media row"
    "terminal_at ?new = (if to \<in> {Recalled, Expired} then Some now else terminal_at row)"
    using mid no_terminal by simp_all
  have row_ok: "item_ok db row" by (rule spoken_ok_item [OF ok row])
  have "item_ok db ?new" by (rule moved_row_ok [OF row_ok _ _ new]) (use move in simp_all)
  with new show ?thesis by (intro commit_ok [OF ok row r db' e]) simp_all
qed

lemma create_item_cases:
  assumes op: "create_item t u orig d k now db = Inr db'"
  obtains user_id user_name d' where "items db k = None"
    and "db' = db\<lparr>items := (items db)(k \<mapsto> new_item t user_id now),
      events := events db @ [created_event k user_id user_name d'], item_keys := item_keys db @ [k]\<rparr>"
proof -
  from op have "bindR (actor_columns u User) (\<lambda>(user_id, user_name). create_row t orig d k user_id user_name now db) = Inr db'"
    by (simp add: create_item_def split: if_splits)
  then obtain user_id user_name where row: "create_row t orig d k user_id user_name now db = Inr db'"
    by (rule bindR_InrE) (simp split: prod.splits)
  from row show thesis by (auto simp: create_row_def elim!: bindR_InrE split: if_splits option.splits intro: that)
qed

lemma create_item_ok:
  assumes ok: "spoken_ok db" and op: "create_item t u orig d k now db = Inr db'"
  shows "spoken_ok db'"
proof -
  obtain user_id user_name d' where fresh: "items db k = None"
    and db0: "db' = db\<lparr>items := (items db)(k \<mapsto> new_item t user_id now),
      events := events db @ [created_event k user_id user_name d'], item_keys := item_keys db @ [k]\<rparr>"
    by (rule create_item_cases [OF op])
  define new where "new = new_item t user_id now"
  define e where "e = created_event k user_id user_name d'"
  have new: "item_state new = Draft" "item_ok db new" "rendition_media new = None"
    by (simp_all add: new_def new_item_def item_ok_def terminal_states_def rendered_states_def)
  have e: "ev_item e = k" "ev_from e = None" "ev_to e = Draft" "ev_name e = ''created''"
    by (simp_all add: e_def created_event_def)
  have db': "db' = db\<lparr>items := (items db)(k \<mapsto> new), events := events db @ [e], item_keys := item_keys db @ [k]\<rparr>"
    by (simp add: db0 new_def e_def)
  have log_k: "log_of db k = []"
  proof (rule ccontr)
    assume "log_of db k \<noteq> []"
    moreover have "history_ok db k" using ok by (simp add: spoken_ok_def)
    ultimately show False using fresh by (simp add: history_ok_def log_end_def)
  qed
  have same: "item_ok db' i = item_ok db i" for i
    by (cases "rendition_media i") (simp_all add: item_ok_def true_rendition_def db')
  have "history_ok db' j" for j
  proof (cases "j = k")
    case True
    have "log_of db' k = [e]" using log_k by (simp add: log_of_def db' e)
    then show ?thesis using True new(1) e
      by (simp add: history_ok_def db' log_end_def transition_rule_def TRANSITIONS_def plain_rule_def)
  next
    case False
    then have "log_of db' j = log_of db j" "items db' j = items db j" using e(1) by (simp_all add: log_of_def db')
    moreover have "history_ok db j" using ok by (simp add: spoken_ok_def)
    ultimately show ?thesis by (simp add: history_ok_def)
  qed
  moreover have "renditions_unique db'"
    using ok new(3) unfolding spoken_ok_def renditions_unique_def db' by (auto split: if_splits)
  moreover have "item_ok db' i \<and> j \<in> set (item_keys db')" if "items db' j = Some i" for j i
    using that ok new(2) unfolding spoken_ok_def same by (auto simp: db' split: if_splits)
  ultimately show ?thesis unfolding spoken_ok_def by blast
qed

end
