(* ===== verification/Spoken_Machine.thy ===== *)
theory Spoken_Machine
  imports Spoken_Invariant
begin

text \<open>
  The spoken-item machine as a whole: what any sequence of operations keeps, which rows it can
  never touch again, and who may touch a row while it is leased.
\<close>

interpretation spoken: guarded_machine "spoken_step expected authority" spoken_ok for expected authority
proof unfold_locales
  fix s e s'
  assume "spoken_ok s" and "spoken_step expected authority e s = Inr s'"
  then show "spoken_ok s'"
    by (cases "snd e"; simp add: spoken_step_def)
       (erule (1) create_item_ok submit_ok record_validation_ok start_processing_ok complete_processing_ok
          fail_processing_ok retry_ok request_review_ok reject_ok recall_ok item_move_ok)+
qed

section \<open>The shape of a step\<close>

text \<open>Every accepted operation writes one row and appends one event, along a rule of the table.\<close>

definition one_write :: "spoken_db \<Rightarrow> nat \<Rightarrow> spoken_item \<Rightarrow> spoken_event \<Rightarrow> spoken_db \<Rightarrow> bool" where
  "one_write db pk new e db' \<longleftrightarrow> items db' = (items db)(pk \<mapsto> new) \<and> events db' = events db @ [e]
     \<and> ev_item e = pk \<and> transition_rule (map_option item_state (items db pk)) (ev_to e) \<noteq> None"

lemma apply_call_one_write: "apply_call c pk now db = Inr db' \<Longrightarrow> \<exists>new e. one_write db pk new e db'"
  by (erule apply_call_cases) (auto simp: one_write_def)

lemma item_move_one_write:
  assumes "item_move pk to changes actor kind m d now db = Inr db'" shows "\<exists>new e. one_write db pk new e db'"
  using assms by (elim item_move_cases plan_and_commit_cases) (auto simp: one_write_def)

lemma create_item_one_write:
  "create_item t u orig d k now db = Inr db' \<Longrightarrow> \<exists>new e. one_write db k new e db'"
proof (erule create_item_cases)
  fix user_id user_name d'
  assume "items db k = None" and db': "db' = db\<lparr>items := (items db)(k \<mapsto> new_item t user_id now),
      events := events db @ [created_event k user_id user_name d'], item_keys := item_keys db @ [k]\<rparr>"
  moreover have "transition_rule None Draft \<noteq> None" by (simp add: transition_rule_def TRANSITIONS_def)
  ultimately have "one_write db k (new_item t user_id now) (created_event k user_id user_name d') db'"
    by (simp add: one_write_def created_event_def)
  then show ?thesis by blast
qed

lemma record_validation_one_write:
  "record_validation pk kind t now db = Inr db' \<Longrightarrow> \<exists>new e. one_write db pk new e db'"
  by (erule record_validation_call) (rule apply_call_one_write; assumption)+

lemma start_processing_one_write:
  assumes "start_processing pk n token kind now db = Inr db'" shows "\<exists>new e. one_write db pk new e db'"
  by (rule apply_call_one_write [of "processing_call n token kind"])
     (use assms in \<open>simp add: start_processing_def split: if_splits\<close>)

lemma recall_one_write:
  assumes "recall authority pk u reason st now db = Inr db'" shows "\<exists>new e. one_write db pk new e db'"
  by (rule apply_call_one_write [of "recall_call authority db u reason st"])
     (use assms in \<open>simp add: recall_def split: if_splits\<close>)

text \<open>The item an operation is about.\<close>

primrec op_item :: "spoken_op \<Rightarrow> nat" where
  "op_item (CreateItem t u orig d k) = k"
| "op_item (Submit pk m u body) = pk"
| "op_item (RecordValidation pk kind body) = pk"
| "op_item (StartProcessing pk secs token kind) = pk"
| "op_item (CompleteProcessing pk token evid d kind) = pk"
| "op_item (FailProcessing pk token code d kind) = pk"
| "op_item (Retry pk u) = pk"
| "op_item (RequestReview pk kind) = pk"
| "op_item (Reject pk u remark) = pk"
| "op_item (RecallItem pk u reason st) = pk"
| "op_item (ItemMove pk to changes u kind m d) = pk"

lemma spoken_step_one_write:
  assumes "spoken_step expected authority e db = Inr db'"
  shows "\<exists>new ev. one_write db (op_item (snd e)) new ev db'"
proof (cases "snd e")
  case (CreateItem t u orig d k)
  with assms show ?thesis by (intro create_item_one_write) (simp add: spoken_step_def)
next
  case (Submit pk m u body)
  with assms show ?thesis by (intro apply_call_one_write) (simp add: spoken_step_def submit_def)
next
  case (RecordValidation pk kind body)
  with assms show ?thesis by (intro record_validation_one_write) (simp add: spoken_step_def)
next
  case (StartProcessing pk secs token kind)
  with assms show ?thesis by (intro start_processing_one_write) (simp add: spoken_step_def)
next
  case (CompleteProcessing pk token evid d kind)
  with assms show ?thesis by (intro apply_call_one_write) (simp add: spoken_step_def complete_processing_def)
next
  case (FailProcessing pk token code d kind)
  with assms show ?thesis by (intro apply_call_one_write) (simp add: spoken_step_def fail_processing_def)
next
  case (Retry pk u)
  with assms show ?thesis by (intro apply_call_one_write) (simp add: spoken_step_def retry_def)
next
  case (RequestReview pk kind)
  with assms show ?thesis by (intro apply_call_one_write) (simp add: spoken_step_def request_review_def)
next
  case (Reject pk u remark)
  with assms show ?thesis by (intro apply_call_one_write) (simp add: spoken_step_def reject_def)
next
  case (RecallItem pk u reason st)
  with assms show ?thesis by (intro recall_one_write) (simp add: spoken_step_def)
next
  case (ItemMove pk to changes u kind m d)
  with assms show ?thesis by (intro item_move_one_write) (simp add: spoken_step_def)
qed

lemma one_write_other:
  "one_write db pk new e db' \<Longrightarrow> j \<noteq> pk \<Longrightarrow> items db' j = items db j \<and> log_of db' j = log_of db j"
  by (simp add: one_write_def log_of_def)

lemma no_rule_from_terminal: "s \<in> terminal_states \<Longrightarrow> transition_rule (Some s) to = None"
  unfolding transition_rule_def by (rule map_of_eq_None_iff [THEN iffD2]) (auto simp: TRANSITIONS_def terminal_states_def)

text \<open>A row in a terminal state, and its history, are never written again.\<close>

definition frozen :: "nat \<Rightarrow> spoken_item \<Rightarrow> spoken_event list \<Rightarrow> spoken_db \<Rightarrow> bool" where
  "frozen pk row log db \<longleftrightarrow> items db pk = Some row \<and> log_of db pk = log"

lemma frozen_step:
  assumes "item_state row \<in> terminal_states" and f: "frozen pk row log db"
    and "spoken_step expected authority e db = Inr db'"
  shows "frozen pk row log db'"
proof -
  obtain new ev where w: "one_write db (op_item (snd e)) new ev db'" using spoken_step_one_write [OF assms(3)] by blast
  have "op_item (snd e) \<noteq> pk"
    using w f no_rule_from_terminal [OF assms(1)] by (auto simp: one_write_def frozen_def)
  then show ?thesis using one_write_other [OF w, of pk] f by (simp add: frozen_def)
qed

lemma frozen_run:
  assumes "item_state row \<in> terminal_states" and "frozen pk row log db"
  shows "frozen pk row log (run (spoken_step expected authority) es db)"
  using assms(2)
proof (induction es arbitrary: db)
  case (Cons e es)
  then have "frozen pk row log (step_or_skip (spoken_step expected authority) e db)"
    by (auto simp: step_or_skip_def split: sum.splits intro: frozen_step [OF assms(1)])
  then show ?case by (simp add: Cons.IH)
qed simp

section \<open>Leases\<close>

lemma processing_targets:
  "transition_rule (Some Processing) to = Some r \<Longrightarrow> to \<in> {Processing, Processed, Failed}"
  using map_of_SomeD [of TRANSITIONS "(Some Processing, to)" r]
  by (simp add: transition_rule_def) (auto simp: TRANSITIONS_def)

definition presents :: "nat \<Rightarrow> spoken_op \<Rightarrow> bool" where
  "presents token op = (case op of
     CompleteProcessing pk tok evid d kind \<Rightarrow> tok = Some token
   | FailProcessing pk tok code d kind \<Rightarrow> tok = Some token
   | _ \<Rightarrow> False)"

definition leased :: "spoken_item \<Rightarrow> nat \<Rightarrow> instant \<Rightarrow> bool" where
  "leased row token until \<longleftrightarrow> item_state row = Processing \<and> lease_token row = Some token
     \<and> lease_expires_at row = Some until"

lemma leased_call:
  assumes row: "items db pk = Some row" "leased row token until" and now: "now < until"
    and call: "apply_call c pk now db = Inr db'"
  shows "to_state c \<in> {Processing, Processed, Failed}" "call_check c row now = Inr ()"
    and "case call_lease c of None \<Rightarrow> True | Some tok \<Rightarrow> tok = Some token"
proof -
  obtain row' r where r: "items db pk = Some row'" "transition_rule (Some (item_state row')) (to_state c) = Some r"
    and lease: "case call_lease c of None \<Rightarrow> True | Some tok \<Rightarrow> require_lease row' tok now = Inr ()"
    and check: "call_check c row' now = Inr ()"
    by (rule apply_call_cases [OF call])
  have "row' = row" using r(1) row(1) by simp
  then show "to_state c \<in> {Processing, Processed, Failed}"
    using processing_targets r(2) row(2) by (simp add: leased_def)
  show "call_check c row now = Inr ()" using check \<open>row' = row\<close> by simp
  show "case call_lease c of None \<Rightarrow> True | Some tok \<Rightarrow> tok = Some token"
    using lease row(2) \<open>row' = row\<close> by (auto simp: require_lease_def leased_def split: option.splits if_splits)
qed

lemma leased_refused:
  assumes row: "items db pk = Some row" "leased row token until" and now: "now < until"
  shows "to_state c \<notin> {Processing, Processed, Failed} \<Longrightarrow> apply_call c pk now db \<noteq> Inr db'"
    and "call_check c = lease_free \<Longrightarrow> apply_call c pk now db \<noteq> Inr db'"
    and "call_lease c = Some tok \<Longrightarrow> tok \<noteq> Some token \<Longrightarrow> apply_call c pk now db \<noteq> Inr db'"
  using leased_call [OF row now, of c db'] row(2) now by (auto simp: lease_free_def leased_def)

lemma leased_step:
  assumes row: "items db pk = Some row" "leased row token until" and e: "fst e < until" "\<not> presents token (snd e)"
    and step: "spoken_step expected authority e db = Inr db'"
  shows "items db' pk = Some row"
proof (cases "op_item (snd e) = pk")
  case False
  obtain new ev where "one_write db (op_item (snd e)) new ev db'" using spoken_step_one_write [OF step] by blast
  from one_write_other [OF this] False show ?thesis using row by simp
next
  case True
  note refused = leased_refused [OF row e(1)]
  have st: "item_state row = Processing" using row(2) by (simp add: leased_def)
  have False
  proof (cases "snd e")
    case (CreateItem t u orig d k)
    with step True have "create_item t u orig d pk (fst e) db = Inr db'" by (simp add: spoken_step_def)
    then show ?thesis by (rule create_item_cases) (use row in simp)
  next
    case (Submit i m u body)
    with step True show ?thesis using refused(1) [of "submit_call db m u body" db'] by (simp add: spoken_step_def submit_def)
  next
    case (RecordValidation i kind body)
    with step True have "record_validation pk kind body (fst e) db = Inr db'" by (simp add: spoken_step_def)
    then show ?thesis by (rule record_validation_call) (use refused(1) in auto)
  next
    case (StartProcessing i secs tok kind)
    with step True show ?thesis using refused(2) [of "processing_call secs tok kind" db']
      by (simp add: spoken_step_def start_processing_def processing_call_def split: if_splits)
  next
    case (CompleteProcessing i tok evid d kind)
    with step True e(2) show ?thesis using refused(3) [of "complete_call expected db pk tok evid d kind" tok db']
      by (simp add: spoken_step_def complete_processing_def complete_call_def presents_def)
  next
    case (FailProcessing i tok code d kind)
    with step True e(2) show ?thesis using refused(3) [of "fail_call tok code d kind" tok db']
      by (simp add: spoken_step_def fail_processing_def fail_call_def presents_def)
  next
    case (Retry i u)
    with step True show ?thesis using refused(1) [of "retry_call u" db'] by (simp add: spoken_step_def retry_def)
  next
    case (RequestReview i kind)
    with step True show ?thesis using refused(1) [of "review_call db kind" db'] by (simp add: spoken_step_def request_review_def)
  next
    case (Reject i u remark)
    with step True show ?thesis using refused(1) [of "reject_call u remark" db'] by (simp add: spoken_step_def reject_def)
  next
    case (RecallItem i u reason s)
    with step True show ?thesis using refused(1) [of "recall_call authority db u reason s" db']
      by (simp add: spoken_step_def recall_def split: if_splits)
  next
    case (ItemMove i dest changes u kind m d)
    with step True have "item_move pk dest changes u kind m d (fst e) db = Inr db'" by (simp add: spoken_step_def)
    then show ?thesis by (rule item_move_cases) (use row st c2_moves in force)
  qed
  then show ?thesis ..
qed

lemma leased_run:
  assumes "leased row token until" and "items db pk = Some row"
    and "list_all (\<lambda>e. fst e < until \<and> \<not> presents token (snd e)) es"
  shows "items (run (spoken_step expected authority) es db) pk = Some row"
  using assms(2,3)
proof (induction es arbitrary: db)
  case (Cons e es)
  then have "items (step_or_skip (spoken_step expected authority) e db) pk = Some row"
    by (auto simp: step_or_skip_def split: sum.splits intro: leased_step [OF _ assms(1)])
  with Cons show ?case by simp
qed simp

section \<open>Who may recall and reject\<close>

lemma json_char_length_bound: "json_char_length c \<le> 12"
  by (simp add: json_char_length_def)

lemma json_text_length_bound: "json_text_length t \<le> 2 + 12 * length t"
  by (induction t) (use json_char_length_bound in \<open>auto simp: json_text_length_def intro: add_le_mono\<close>)

lemma one_text_fits:
  "bounded (DObject [(k, DText t)]) = (if json_text_length k + json_text_length t + 3 \<le> 8192
     then Inr (DObject [(k, DText t)]) else Inl InvalidEventDetail)"
  by (simp add: bounded_def DETAIL_LIMIT_BYTES_def)

lemma plan_decided:
  assumes "set (map column_of planned) \<subseteq> writable_columns r dest"
  shows "is_ok (plan_and_commit pk row dest r planned kind u n b d db) \<longleftrightarrow> json_length d \<le> DETAIL_LIMIT_BYTES"
  using assms by (simp add: plan_and_commit_def bounded_def)

lemma recall_rule:
  "transition_rule (Some s) Recalled =
     (if s \<in> {Draft, Submitted, Validated, Processed, AwaitingReview, Failed} then Some (plain_rule ''recalled'' RECALL)
      else if s \<in> {Delivered, Superseded} then Some (c2_rule ''recalled'' RECALL) else None)"
  by (cases s) (simp_all add: transition_rule_def TRANSITIONS_def)

lemma reject_rule:
  "transition_rule (Some s) Rejected = (if s = AwaitingReview then Some (plain_rule ''rejected'' REVIEW) else None)"
  by (cases s) (simp_all add: transition_rule_def TRANSITIONS_def)

text \<open>
  An item is recalled before its delivery exactly when it has not left those states, the caller's
  expected state (if given) is the row's, and the caller is a manager, a recall authority of its type,
  or its own submitter under a policy that lets submitters recall. No length of reason is refused.
\<close>

theorem recall_decided:
  "is_ok (recall authority pk u reason st now db) \<longleftrightarrow>
     (case (items db pk, u) of
        (Some row, Some usr) \<Rightarrow>
            item_state row \<in> {Draft, Submitted, Validated, Processed, AwaitingReview, Failed}
          \<and> st \<in> {None, Some (item_state row)}
          \<and> (is_manager u \<or> authority (user_pk usr) (content_type row)
             \<or> (case types db (content_type row) of None \<Rightarrow> False
                 | Some t \<Rightarrow> recall_policy t \<in> {OwnerUntilDelivered, OwnerAnytime} \<and> submitted_by row = Some (user_pk usr)))
      | _ \<Rightarrow> False)"
proof (cases "items db pk")
  case None
  then show ?thesis by (simp add: recall_def apply_call_def)
next
  case row: (Some row)
  let ?c = "recall_call authority db u reason st"
  have cols: "set (map column_of (with_stamps (call_changes ?c now row) Recalled now)) \<subseteq> writable_columns (plain_rule ''recalled'' RECALL) Recalled"
    by (simp add: recall_call_def with_stamps_def writable_columns_def plain_rule_def RECALL_def ALWAYS_def TERMINAL_def
        terminal_states_def)
  have fits: "json_length (call_detail ?c) \<le> DETAIL_LIMIT_BYTES"
    using json_text_length_bound [of "cps ''reason''"] json_text_length_bound [of "take 500 reason"]
    by (simp add: recall_call_def DETAIL_LIMIT_BYTES_def)
  have check: "is_ok (recall_check authority db st u row now) \<longleftrightarrow> st \<in> {None, Some (item_state row)}
     \<and> (case u of None \<Rightarrow> False | Some usr \<Rightarrow> is_manager u \<or> authority (user_pk usr) (content_type row)
             \<or> (case types db (content_type row) of None \<Rightarrow> False
                 | Some t \<Rightarrow> recall_policy t \<in> {OwnerUntilDelivered, OwnerAnytime} \<and> submitted_by row = Some (user_pk usr)))" 
    if "u \<noteq> None"
    using that recall_policy.exhaust
    by (auto simp: recall_check_def may_recall_as_manager_def owner_or_manager_def split: option.splits)
  show ?thesis
  proof (cases u)
    case None
    then show ?thesis using row
      by (simp add: recall_def apply_call_def recall_rule recall_call_def base_call_def actor_columns_def)
  next
    case (Some usr)
    have "is_ok (apply_call ?c pk now db) \<longleftrightarrow> item_state row \<in> {Draft, Submitted, Validated, Processed, AwaitingReview, Failed}
        \<and> is_ok (recall_check authority db st u row now)"
      using row Some cols fits
      by (cases "recall_check authority db st u row now")
         (simp_all add: apply_call_def recall_rule recall_call_def base_call_def actor_columns_def
           plan_decided plain_rule_def c2_rule_def)
    then show ?thesis using check row Some by (simp add: recall_def)
  qed
qed

lemma reject_ok_iff:
  "is_ok (reject pk u note now db) \<longleftrightarrow>
     (case items db pk of None \<Rightarrow> False
      | Some row \<Rightarrow> item_state row = AwaitingReview \<and> is_manager u
          \<and> sum_list (map json_char_length (take 1000 note)) \<le> 8181)"
proof (cases "items db pk")
  case None
  then show ?thesis by (simp add: reject_def apply_call_def)
next
  case row: (Some row)
  let ?c = "reject_call u note"
  have cols: "set (map column_of (with_stamps (call_changes ?c now row) Rejected now)) \<subseteq> writable_columns (plain_rule ''rejected'' REVIEW) Rejected"
    by (simp add: reject_call_def with_stamps_def writable_columns_def plain_rule_def REVIEW_def ALWAYS_def TERMINAL_def
        terminal_states_def)
  have fits: "json_length (call_detail ?c) \<le> DETAIL_LIMIT_BYTES \<longleftrightarrow> sum_list (map json_char_length (take 1000 note)) \<le> 8181"
    by (simp add: reject_call_def DETAIL_LIMIT_BYTES_def json_text_length_def json_char_length_def [of 110]
        json_char_length_def [of 111] json_char_length_def [of 116] json_char_length_def [of 101] cps_def)
  show ?thesis
  proof (cases u)
    case None
    then show ?thesis using row
      by (simp add: reject_def apply_call_def reject_rule reject_call_def base_call_def actor_columns_def is_manager_def)
  next
    case (Some usr)
    then show ?thesis using row cols fits
      by (simp add: reject_def apply_call_def reject_rule reject_call_def base_call_def actor_columns_def
           manager_check_def plan_decided plain_rule_def)
  qed
qed

text \<open>
  A rejection goes through exactly for an item awaiting review, by a manager, when the note (its
  first 1000 characters) takes at most 8181 octets as JSON text with every non-ASCII character
  escaped: a note of 700 characters outside the Basic Multilingual Plane is refused.
\<close>

theorem reject_decided:
  "(is_ok (reject pk u note now db) \<longleftrightarrow>
     (case items db pk of None \<Rightarrow> False
      | Some row \<Rightarrow> item_state row = AwaitingReview \<and> is_manager u
          \<and> sum_list (map json_char_length (take 1000 note)) \<le> 8181))
   \<and> \<not> is_ok (reject pk u (replicate 700 0x1F399) now db)"
  by (simp add: reject_ok_iff map_replicate sum_list_replicate json_char_length_def split: option.split)

section \<open>Every run\<close>

definition spoken_start :: "(nat \<Rightarrow> spoken_type option) \<Rightarrow> (nat \<Rightarrow> production_media option) \<Rightarrow> spoken_db" where
  "spoken_start ts ms = \<lparr>items = (\<lambda>_. None), events = [], types = ts, media = ms, item_keys = []\<rparr>"

lemma spoken_start_ok: "spoken_ok (spoken_start ts ms)"
  by (simp add: spoken_start_def spoken_ok_def history_ok_def log_of_def log_end_def renditions_unique_def)

lemma spoken_reachable: "spoken_ok (run (spoken_step expected authority) es (spoken_start ts ms))"
  by (rule spoken.run_inv [OF spoken_start_ok])

text \<open>
  C9. Whatever is requested, in any order and at any times, every item row is well formed: it has a
  terminal stamp exactly in a terminal state, a lease with an expiry exactly while it is processing, a
  submission once it left the draft state, and from Processed on a rendition that an executor made
  from that very submission; and no two items carry the same rendition.
\<close>

theorem spoken_rows_well_formed:
  "let db = run (spoken_step expected authority) es (spoken_start ts ms)
   in (case items db pk of None \<Rightarrow> True | Some row \<Rightarrow> item_ok db row) \<and> renditions_unique db"
  using spoken_reachable [of expected authority es ts ms]
  by (auto simp: spoken_ok_def Let_def split: option.split)

text \<open>
  C10. The events of an item, in the order they were written, are a path of the transition table from
  nothing to its present state, each named as its rule names it; an item that does not exist has none.
\<close>

theorem spoken_history_is_a_path:
  "let db = run (spoken_step expected authority) es (spoken_start ts ms)
   in legal_log None (log_of db pk) \<and> log_end None (log_of db pk) = map_option item_state (items db pk)"
  using spoken_reachable [of expected authority es ts ms]
  by (simp add: spoken_ok_def history_ok_def Let_def)

text \<open>
  Recalled, expired, invalid and rejected items are final: no later operation whatsoever changes
  the row or adds to its history.
\<close>

theorem terminal_is_final:
  assumes "items db pk = Some row" and "item_state row \<in> terminal_states"
  shows "items (run (spoken_step expected authority) es db) pk = Some row
    \<and> log_of (run (spoken_step expected authority) es db) pk = log_of db pk"
  using frozen_run [OF assms(2), of pk "log_of db pk" db] assms(1) by (simp add: frozen_def)

definition sample_spoken :: "spoken_item \<Rightarrow> spoken_db" where
  "sample_spoken row = (spoken_start (\<lambda>_. None) (\<lambda>_. None))\<lparr>items := (\<lambda>_. None)(1 \<mapsto> row), item_keys := [1]\<rparr>"

theorem terminal_is_final_witness:
  "items (run (spoken_step (\<lambda>_ _. None) (\<lambda>_ _. True)) [(9, Submit 1 1 None []), (10, RequestReview 1 System)]
     (sample_spoken ((new_item 1 None 0)\<lparr>item_state := Recalled, terminal_at := Some 5\<rparr>))) 1
     = Some ((new_item 1 None 0)\<lparr>item_state := Recalled, terminal_at := Some 5\<rparr>)"
  by (rule terminal_is_final [THEN conjunct1]) (simp_all add: sample_spoken_def terminal_states_def)

text \<open>
  C11. A processing lease is exclusive: until it expires, nobody who does not present its token can
  change the item in any way, not a second worker, not its owner, not a manager.
\<close>

theorem lease_is_exclusive:
  assumes "items db pk = Some row" and "item_state row = Processing"
    and "lease_token row = Some token" and "lease_expires_at row = Some until"
    and "list_all (\<lambda>e. fst e < until \<and> \<not> presents token (snd e)) es"
  shows "items (run (spoken_step expected authority) es db) pk = Some row"
  by (rule leased_run [OF _ assms(1) assms(5)]) (simp add: leased_def assms)

theorem lease_is_exclusive_witness:
  "items (run (spoken_step (\<lambda>_ _. None) (\<lambda>_ _. True)) [(9, StartProcessing 1 60 8 Worker),
       (10, FailProcessing 1 (Some 8) [] [] Worker), (11, RecallItem 1 None [] None)]
     (sample_spoken ((new_item 1 None 0)\<lparr>item_state := Processing, lease_token := Some 7, lease_expires_at := Some 60\<rparr>))) 1
     = Some ((new_item 1 None 0)\<lparr>item_state := Processing, lease_token := Some 7, lease_expires_at := Some 60\<rparr>)"
  by (rule lease_is_exclusive [where token = 7 and until = 60])
     (simp_all add: sample_spoken_def presents_def)

end
