(* ===== verification/Authz_Evaluator.thy ===== *)
theory Authz_Evaluator
  imports Air_Prelude
begin

text \<open>
  The authorization evaluator (\<^verbatim>\<open>authz/evaluator.py\<close>): the ordered decision of
  \<^verbatim>\<open>authorize\<close>, the process-local cache of what each group may do, the schedule windows of
  \<^verbatim>\<open>_assignment_covers\<close> and the activation check. An instant is the station's wall clock in
  microseconds, day 1 being 1 January of year 1 (\<^verbatim>\<open>date.toordinal\<close>): the source compares datetimes
  that share one \<^verbatim>\<open>tzinfo\<close> object, which Python compares by their wall clock. The conversion of the
  real instant to that clock is an argument. The texts of the reasons are left out.
\<close>

section \<open>Data\<close>

type_synonym wall = int

definition DAY :: int where "DAY = 86400000000"
definition MINUTE :: int where "MINUTE = 60000000"

datatype authz_code = CODE_ALLOWED | CODE_UNAUTHENTICATED | CODE_DISABLED_ACCOUNT | CODE_CAPABILITY_MISSING
  | CODE_NO_ASSIGNMENT | CODE_OUTSIDE_SCHEDULE_WINDOW | CODE_INACTIVE_ASSIGNMENT

record authz_result =
  allowed :: bool
  code :: authz_code

definition allowed_result :: authz_result where
  "allowed_result = \<lparr>allowed = True, code = CODE_ALLOWED\<rparr>"

definition denied :: "authz_code \<Rightarrow> authz_result" where
  "denied c = \<lparr>allowed = False, code = c\<rparr>"

record talent_assignment =
  for_user :: nat
  on_weekday :: "int option"
  on_date :: "int option"
  start_time :: int
  end_time :: int
  active :: bool

record access_config =
  pre_allowance :: nat
  post_allowance :: nat
  enforcement_enabled :: bool

record account =
  user_id :: nat
  authenticated :: bool
  is_active :: bool
  staff :: bool
  superuser :: bool
  groups :: "string list"

text \<open>
  The tables the evaluator reads, and the process's own cache: a capability is its slug and whether it
  requires a schedule; a group is bound to at most one role.
\<close>

type_synonym capability_map = "string \<Rightarrow> string set option"

record authz_state =
  capabilities :: "(string \<times> bool) list"
  group_roles :: "(string \<times> nat) list"
  role_capabilities :: "(nat \<times> string) list"
  assignments :: "talent_assignment list"
  accounts :: "account list"
  access_config :: "access_config option"
  cache :: "capability_map option"

section \<open>The capability map\<close>

definition load_group_capability_map :: "authz_state \<Rightarrow> capability_map" where
  "load_group_capability_map st = map_of (rev (map (\<lambda>(g, r).
     (g, set (map snd (filter (\<lambda>(r', s). r' = r) (role_capabilities st))))) (group_roles st)))"

definition get_group_capability_map :: "authz_state \<Rightarrow> capability_map \<times> authz_state" where
  "get_group_capability_map st =
     (case cache st of
        Some m \<Rightarrow> (m, st)
      | None \<Rightarrow> let m = load_group_capability_map st in (m, st\<lparr>cache := Some m\<rparr>))"

definition invalidate_cache :: "authz_state \<Rightarrow> authz_state" where
  "invalidate_cache st = st\<lparr>cache := None\<rparr>"

definition granted_by :: "capability_map \<Rightarrow> string list \<Rightarrow> string set" where
  "granted_by m gs = (\<Union>g\<in>set gs. case m g of None \<Rightarrow> {} | Some s \<Rightarrow> s)"

section \<open>Schedule windows\<close>

definition weekday :: "int \<Rightarrow> int" where
  "weekday d = (d + 6) mod 7"

definition crosses_midnight :: "talent_assignment \<Rightarrow> bool" where
  "crosses_midnight a = (end_time a \<le> start_time a)"

definition recurs_on :: "talent_assignment \<Rightarrow> int \<Rightarrow> bool" where
  "recurs_on a d = (case on_date a of Some sd \<Rightarrow> sd = d | None \<Rightarrow> on_weekday a = Some (weekday d))"

definition effective_window :: "talent_assignment \<Rightarrow> int \<Rightarrow> nat \<Rightarrow> nat \<Rightarrow> wall \<times> wall" where
  "effective_window a d pre post =
     (let start = d * DAY + start_time a;
          end_day = (if crosses_midnight a then d + 1 else d);
          end' = end_day * DAY + end_time a
      in (start - int pre * MINUTE, end' + int post * MINUTE))"

definition in_window :: "wall \<Rightarrow> wall \<times> wall \<Rightarrow> bool" where
  "in_window t w \<longleftrightarrow> fst w \<le> t \<and> t < snd w"

definition assignment_covers :: "talent_assignment \<Rightarrow> wall \<Rightarrow> nat \<Rightarrow> nat \<Rightarrow> bool" where
  "assignment_covers a now pre post =
     list_ex (\<lambda>delta. let d = now div DAY + delta in recurs_on a d \<and> in_window now (effective_window a d pre post))
       [- 1, 0, 1]"

section \<open>The evaluator\<close>

definition STAFF_ROLE_REQUIRED :: "string set" where
  "STAFF_ROLE_REQUIRED = {''remote_dj.emergency_mute'', ''remote_dj.force_disconnect''}"

definition load_config :: "authz_state \<Rightarrow> access_config \<times> authz_state" where
  "load_config st =
     (case access_config st of
        Some c \<Rightarrow> (c, st)
      | None \<Rightarrow> let c = \<lparr>pre_allowance = 10, post_allowance = 15, enforcement_enabled = False\<rparr>
                in (c, st\<lparr>access_config := Some c\<rparr>))"

definition check_schedule :: "account \<Rightarrow> wall \<Rightarrow> authz_state \<Rightarrow> authz_result \<times> authz_state" where
  "check_schedule u now st =
     (let (cfg, st1) = load_config st;
          rows = filter (\<lambda>a. for_user a = user_id u) (assignments st1);
          covers = (\<lambda>a. assignment_covers a now (pre_allowance cfg) (post_allowance cfg))
      in (if rows = [] then denied CODE_NO_ASSIGNMENT
          else if list_ex (\<lambda>a. active a \<and> covers a) rows then allowed_result
          else if list_ex (\<lambda>a. \<not> active a \<and> covers a) rows then denied CODE_INACTIVE_ASSIGNMENT
          else denied CODE_OUTSIDE_SCHEDULE_WINDOW, st1))"

definition role_decision ::
  "account \<Rightarrow> string \<Rightarrow> bool \<Rightarrow> wall \<Rightarrow> string \<Rightarrow> capability_map \<times> authz_state \<Rightarrow> authz_result \<times> authz_state" where
  "role_decision u slug scheduled now policy ms =
     (let (m, st) = ms in
      if slug \<notin> granted_by m (groups u) then (denied CODE_CAPABILITY_MISSING, st)
      else if \<not> scheduled then (allowed_result, st)
      else if policy = ''ignore'' then (allowed_result, st)
      else if policy = ''enforce''
        then (let (cfg, st1) = load_config st in
              if \<not> enforcement_enabled cfg then (allowed_result, st1) else check_schedule u now st1)
      else check_schedule u now st)"

definition authorize ::
  "account option \<Rightarrow> string \<Rightarrow> wall \<Rightarrow> string \<Rightarrow> bool \<Rightarrow> authz_state \<Rightarrow> (authz_result \<times> authz_state) py" where
  "authorize user slug now policy bypass_cache st =
     (case map_of (capabilities st) slug of
        None \<Rightarrow> Inl ValueError
      | Some scheduled \<Rightarrow> Inr
          (case user of
             None \<Rightarrow> (denied CODE_UNAUTHENTICATED, st)
           | Some u \<Rightarrow>
               if \<not> authenticated u then (denied CODE_UNAUTHENTICATED, st)
               else if \<not> is_active u then (denied CODE_DISABLED_ACCOUNT, st)
               else if superuser u then (allowed_result, st)
               else if staff u \<and> slug \<notin> STAFF_ROLE_REQUIRED then (allowed_result, st)
               else role_decision u slug scheduled now policy
                 (if bypass_cache \<or> slug \<in> STAFF_ROLE_REQUIRED
                  then (load_group_capability_map st, st) else get_group_capability_map st)))"

definition users_missing_talent_assignments :: "authz_state \<Rightarrow> account list" where
  "users_missing_talent_assignments st =
     (let scheduled_slugs = set (map fst (filter snd (capabilities st))) in
      if scheduled_slugs = {} then []
      else let m = load_group_capability_map st;
               with_active = set (map for_user (filter active (assignments st)))
           in filter (\<lambda>u. is_active u \<and> \<not> staff u \<and> \<not> superuser u
                 \<and> granted_by m (groups u) \<inter> scheduled_slugs \<noteq> {} \<and> user_id u \<notin> with_active) (accounts st))"

section \<open>One process\<close>

text \<open>
  What one process does: it authorizes, and it edits the role tables through the ORM, whose signals
  drop the cache. Saving assignments and the configuration sends no signal the evaluator listens to.
\<close>

datatype authz_event =
    Authorize "account option" string wall string bool
  | EditRoles "(string \<times> bool) list" "(string \<times> nat) list" "(nat \<times> string) list"
  | EditSchedule "talent_assignment list" "access_config option"
  | EditAccounts "account list"

definition authz_step :: "authz_event \<Rightarrow> authz_state \<Rightarrow> py_error + authz_state" where
  "authz_step e st =
     (case e of
        Authorize u slug now policy bypass \<Rightarrow> bindR (authorize u slug now policy bypass st) (\<lambda>(r, st'). Inr st')
      | EditRoles cs grs rcs \<Rightarrow>
          Inr (invalidate_cache (st\<lparr>capabilities := cs, group_roles := grs, role_capabilities := rcs\<rparr>))
      | EditSchedule as cfg \<Rightarrow> Inr (st\<lparr>assignments := as, access_config := cfg\<rparr>)
      | EditAccounts us \<Rightarrow> Inr (st\<lparr>accounts := us\<rparr>))"

text \<open>The cache, when there is one, is the map the tables give now.\<close>

definition cache_fresh :: "authz_state \<Rightarrow> bool" where
  "cache_fresh st \<longleftrightarrow> (case cache st of None \<Rightarrow> True | Some m \<Rightarrow> m = load_group_capability_map st)"

text \<open>What \<^verbatim>\<open>load\<close> of the configuration does to a state leaves every table the decision reads alone.\<close>

lemma load_config_state [simp]:
  "cache (snd (load_config st)) = cache st"
  "capabilities (snd (load_config st)) = capabilities st"
  "group_roles (snd (load_config st)) = group_roles st"
  "role_capabilities (snd (load_config st)) = role_capabilities st"
  "assignments (snd (load_config st)) = assignments st"
  "fst (load_config (snd (load_config st))) = fst (load_config st)"
  by (simp_all add: load_config_def Let_def split: option.split)

lemma load_map_cong:
  "group_roles st' = group_roles st \<Longrightarrow> role_capabilities st' = role_capabilities st
     \<Longrightarrow> load_group_capability_map st' = load_group_capability_map st"
  by (simp add: load_group_capability_map_def)

lemma check_schedule_state [simp]: "snd (check_schedule u now st) = snd (load_config st)"
  by (simp add: check_schedule_def case_prod_beta Let_def)

lemma role_decision_state:
  "cache (snd (role_decision u slug s now policy (m, st))) = cache st"
  "group_roles (snd (role_decision u slug s now policy (m, st))) = group_roles st"
  "role_capabilities (snd (role_decision u slug s now policy (m, st))) = role_capabilities st"
  by (simp_all add: role_decision_def case_prod_beta Let_def)

lemma get_map_fresh:
  assumes "cache_fresh st"
  shows "fst (get_group_capability_map st) = load_group_capability_map st"
    and "cache_fresh (snd (get_group_capability_map st))"
    and "group_roles (snd (get_group_capability_map st)) = group_roles st"
    and "role_capabilities (snd (get_group_capability_map st)) = role_capabilities st"
    and "assignments (snd (get_group_capability_map st)) = assignments st"
    and "access_config (snd (get_group_capability_map st)) = access_config st"
  using assms load_map_cong [of "st\<lparr>cache := Some (load_group_capability_map st)\<rparr>" st]
  by (auto simp: get_group_capability_map_def cache_fresh_def Let_def split: option.splits)

lemma cache_fresh_cong:
  "cache st' = cache st \<Longrightarrow> group_roles st' = group_roles st \<Longrightarrow> role_capabilities st' = role_capabilities st
     \<Longrightarrow> cache_fresh st' = cache_fresh st"
  using load_map_cong [of st' st] by (simp add: cache_fresh_def split: option.split)

lemma role_decision_fresh: "cache_fresh st \<Longrightarrow> cache_fresh (snd (role_decision u slug s now policy (m, st)))"
  using cache_fresh_cong [OF role_decision_state] by blast

lemma authorize_fresh:
  assumes "cache_fresh st" and "authorize u slug now policy b st = Inr (r, st')"
  shows "cache_fresh st'"
proof -
  have "cache_fresh (snd (role_decision a slug s now policy (get_group_capability_map st)))" for a s
    using role_decision_fresh [OF get_map_fresh(2) [OF assms(1)], of a slug s now policy "fst (get_group_capability_map st)"]
    by simp
  moreover have "cache_fresh (snd (role_decision a slug s now policy (load_group_capability_map st, st)))" for a s
    by (rule role_decision_fresh [OF assms(1)])
  ultimately show ?thesis
    using assms unfolding authorize_def by (auto split: option.splits if_splits) (metis snd_conv)+
qed

interpretation authz: guarded_machine authz_step cache_fresh
proof unfold_locales
  fix s e s'
  assume fresh: "cache_fresh s" and step: "authz_step e s = Inr s'"
  show "cache_fresh s'"
  proof (cases e)
    case (Authorize u slug now policy b)
    with step obtain r where "authorize u slug now policy b s = Inr (r, s')" by (auto simp: authz_step_def result_simps)
    then show ?thesis by (rule authorize_fresh [OF fresh])
  next
    case (EditRoles cs grs rcs)
    then show ?thesis using step by (auto simp: authz_step_def invalidate_cache_def cache_fresh_def)
  next
    case (EditSchedule as cfg)
    then show ?thesis using step fresh cache_fresh_cong [of s' s] by (auto simp: authz_step_def)
  next
    case (EditAccounts us)
    then show ?thesis using step fresh cache_fresh_cong [of s' s] by (auto simp: authz_step_def)
  qed
qed

section \<open>What is decided\<close>

definition schedule_satisfied :: "authz_state \<Rightarrow> account \<Rightarrow> string \<Rightarrow> wall \<Rightarrow> string \<Rightarrow> bool" where
  "schedule_satisfied st u slug now policy =
     (let cfg = fst (load_config st) in
      map_of (capabilities st) slug = Some False \<or> policy = ''ignore''
      \<or> (policy = ''enforce'' \<and> \<not> enforcement_enabled cfg)
      \<or> list_ex (\<lambda>a. for_user a = user_id u \<and> active a
            \<and> assignment_covers a now (pre_allowance cfg) (post_allowance cfg)) (assignments st))"

lemma allowed_simps [simp]: "allowed allowed_result" "code allowed_result = CODE_ALLOWED"
  "\<not> allowed (denied c)" "code (denied c) = c"
  by (simp_all add: allowed_result_def denied_def)

lemma check_schedule_allowed:
  "allowed (fst (check_schedule u now st)) \<longleftrightarrow> list_ex (\<lambda>a. for_user a = user_id u \<and> active a
     \<and> assignment_covers a now (pre_allowance (fst (load_config st))) (post_allowance (fst (load_config st)))) (assignments st)"
proof -
  have "list_ex P (filter Q xs) \<longleftrightarrow> list_ex (\<lambda>a. Q a \<and> P a) xs" for P Q and xs :: "talent_assignment list"
    by (induction xs) auto
  moreover have "filter Q xs = [] \<Longrightarrow> \<not> list_ex (\<lambda>a. Q a \<and> P a) xs" for P Q and xs :: "talent_assignment list"
    by (induction xs) (auto split: if_splits)
  ultimately show ?thesis by (simp add: check_schedule_def case_prod_beta Let_def)
qed

lemma check_schedule_code: "code (fst (check_schedule u now st)) = CODE_ALLOWED \<longleftrightarrow> allowed (fst (check_schedule u now st))"
  by (simp add: check_schedule_def case_prod_beta Let_def)

lemma check_schedule_loaded:
  "fst (check_schedule u now (snd (load_config st))) = fst (check_schedule u now st)"
  by (simp add: check_schedule_def case_prod_beta Let_def)

lemma role_decision_result:
  assumes "map_of (capabilities st) slug = Some scheduled"
  shows "allowed (fst (role_decision u slug scheduled now policy (m, st))) \<longleftrightarrow>
      slug \<in> granted_by m (groups u) \<and> schedule_satisfied st u slug now policy"
    and "code (fst (role_decision u slug scheduled now policy (m, st))) = CODE_ALLOWED
      \<longleftrightarrow> allowed (fst (role_decision u slug scheduled now policy (m, st)))"
  using assms
  by (cases scheduled; simp add: role_decision_def schedule_satisfied_def case_prod_beta Let_def check_schedule_loaded
      check_schedule_allowed check_schedule_code)+

lemma get_map_fields [simp]:
  "capabilities (snd (get_group_capability_map st)) = capabilities st"
  "assignments (snd (get_group_capability_map st)) = assignments st"
  "access_config (snd (get_group_capability_map st)) = access_config st"
  by (simp_all add: get_group_capability_map_def Let_def split: option.split)

lemma schedule_satisfied_cong:
  assumes "capabilities st' = capabilities st" "assignments st' = assignments st" "access_config st' = access_config st"
  shows "schedule_satisfied st' u slug now policy = schedule_satisfied st u slug now policy"
proof -
  have "fst (load_config st') = fst (load_config st)"
    using assms(3) by (simp add: load_config_def Let_def split: option.split)
  then show ?thesis using assms(1,2) by (simp add: schedule_satisfied_def Let_def)
qed

lemma role_decision_cached:
  assumes "cache_fresh st" and "map_of (capabilities st) slug = Some scheduled"
  shows "allowed (fst (role_decision u slug scheduled now policy (get_group_capability_map st))) \<longleftrightarrow>
      slug \<in> granted_by (load_group_capability_map st) (groups u) \<and> schedule_satisfied st u slug now policy"
    and "code (fst (role_decision u slug scheduled now policy (get_group_capability_map st))) = CODE_ALLOWED
      \<longleftrightarrow> allowed (fst (role_decision u slug scheduled now policy (get_group_capability_map st)))"
proof -
  let ?st = "snd (get_group_capability_map st)"
  have pair: "get_group_capability_map st = (load_group_capability_map st, ?st)"
    using get_map_fresh(1) [OF assms(1)] by (metis prod.collapse)
  have caps: "map_of (capabilities ?st) slug = Some scheduled" using assms(2) by simp
  have same: "schedule_satisfied ?st u slug now policy = schedule_satisfied st u slug now policy"
    by (rule schedule_satisfied_cong) simp_all
  show "allowed (fst (role_decision u slug scheduled now policy (get_group_capability_map st))) \<longleftrightarrow>
      slug \<in> granted_by (load_group_capability_map st) (groups u) \<and> schedule_satisfied st u slug now policy"
    by (subst pair) (simp only: role_decision_result(1) [OF caps] same)
  show "code (fst (role_decision u slug scheduled now policy (get_group_capability_map st))) = CODE_ALLOWED
      \<longleftrightarrow> allowed (fst (role_decision u slug scheduled now policy (get_group_capability_map st)))"
    by (subst (1 2) pair) (rule role_decision_result(2) [OF caps])
qed

lemma authorize_fresh_decided:
  assumes "cache_fresh st"
  shows "case authorize (Some u) slug now policy bypass st of
      Inl e \<Rightarrow> map_of (capabilities st) slug = None
    | Inr (r, st') \<Rightarrow> allowed r = (code r = CODE_ALLOWED)
        \<and> allowed r = (authenticated u \<and> is_active u
            \<and> (superuser u \<or> (staff u \<and> slug \<notin> STAFF_ROLE_REQUIRED)
               \<or> (slug \<in> granted_by (load_group_capability_map st) (groups u) \<and> schedule_satisfied st u slug now policy)))"
proof (cases "map_of (capabilities st) slug")
  case None
  then show ?thesis by (simp add: authorize_def)
next
  case (Some scheduled)
  show ?thesis
    using role_decision_result [OF Some, of u now policy "load_group_capability_map st"]
      role_decision_cached [OF assms Some, of u now policy]
    by (auto simp: authorize_def Some case_prod_beta)
qed


text \<open>
  The two emergency capabilities, and every lookup that bypasses the cache, are decided by the
  tables alone: whatever an earlier request left in this process's cache, a revoked grant is gone.
\<close>

theorem emergency_grants_are_fresh:
  assumes "slug \<in> STAFF_ROLE_REQUIRED \<or> bypass"
  shows "map_sum id fst (authorize user slug now policy bypass (st\<lparr>cache := stale\<rparr>))
       = map_sum id fst (authorize user slug now policy bypass st)"
proof -
  have map: "load_group_capability_map (st\<lparr>cache := stale\<rparr>) = load_group_capability_map st"
    by (rule load_map_cong) simp_all
  have config: "fst (load_config (st\<lparr>cache := stale\<rparr>)) = fst (load_config st)"
    by (simp add: load_config_def Let_def split: option.split)
  have schedule: "fst (check_schedule u now (st\<lparr>cache := stale\<rparr>)) = fst (check_schedule u now st)" for u
    using config by (simp add: check_schedule_def case_prod_beta Let_def)
  have "fst (role_decision u slug s now policy (m, st\<lparr>cache := stale\<rparr>)) = fst (role_decision u slug s now policy (m, st))" for u s m
    using config schedule by (simp add: role_decision_def case_prod_beta Let_def check_schedule_loaded)
  then show ?thesis
    using assms by (auto simp: authorize_def map split: option.split)
qed

definition sample_authz :: authz_state where
  "sample_authz = \<lparr>capabilities = [(''remote_dj.emergency_mute'', False), (''remote_dj.connect'', True)],
     group_roles = [(''Hosts'', 1)], role_capabilities = [(1, ''remote_dj.connect'')],
     assignments = [], accounts = [], access_config = None, cache = None\<rparr>"

definition sample_staff :: account where
  "sample_staff = \<lparr>user_id = 1, authenticated = True, is_active = True, staff = True, superuser = False, groups = [''Hosts'']\<rparr>"

theorem emergency_grants_are_fresh_witness:
  "map_sum id fst (authorize (Some sample_staff) ''remote_dj.emergency_mute'' 0 ''enforce'' False
     (sample_authz\<lparr>cache := Some (\<lambda>g. Some {''remote_dj.emergency_mute''})\<rparr>)) = Inr (denied CODE_CAPABILITY_MISSING)"
proof -
  have "map_sum id fst (authorize (Some sample_staff) ''remote_dj.emergency_mute'' 0 ''enforce'' False sample_authz)
      = Inr (denied CODE_CAPABILITY_MISSING)"
    by (simp add: authorize_def sample_authz_def sample_staff_def STAFF_ROLE_REQUIRED_def role_decision_def
        granted_by_def load_group_capability_map_def)
  then show ?thesis
    by (subst emergency_grants_are_fresh) (simp_all add: STAFF_ROLE_REQUIRED_def)
qed

section \<open>Windows\<close>

text \<open>The window an assignment is documented to have: any day it recurs on, with both allowances.\<close>

definition window_covers :: "talent_assignment \<Rightarrow> wall \<Rightarrow> nat \<Rightarrow> nat \<Rightarrow> bool" where
  "window_covers a now pre post \<longleftrightarrow> (\<exists>d. recurs_on a d \<and> in_window now (effective_window a d pre post))"

definition clock_ok :: "talent_assignment \<Rightarrow> bool" where
  "clock_ok a \<longleftrightarrow> 0 \<le> start_time a \<and> start_time a < DAY \<and> 0 \<le> end_time a \<and> end_time a < DAY"

lemma window_days:
  assumes "clock_ok a" and "in_window now (effective_window a d pre post)"
    and "int pre * MINUTE \<le> DAY" and "int post * MINUTE \<le> DAY"
    and "crosses_midnight a \<Longrightarrow> end_time a + int post * MINUTE \<le> DAY"
  shows "d - now div DAY \<in> {- 1, 0, 1}"
proof -
  define t where "t = now mod DAY"
  have now: "now = now div DAY * DAY + t" by (simp add: t_def)
  have t: "0 \<le> t" "t < DAY" by (simp_all add: t_def DAY_def)
  have lo: "d * DAY + start_time a - int pre * MINUTE \<le> now"
    using assms(2) by (simp add: in_window_def effective_window_def Let_def)
  have "d * DAY < (now div DAY + 2) * DAY"
    using lo now t assms(1,3) unfolding clock_ok_def by (simp add: distrib_right)
  then have "d < now div DAY + 2" by (simp add: DAY_def)
  moreover have "now < (d + 2) * DAY"
  proof (cases "crosses_midnight a")
    case True
    then have "now < (d + 1) * DAY + end_time a + int post * MINUTE"
      using assms(2) by (simp add: in_window_def effective_window_def Let_def)
    then show ?thesis using assms(5) [OF True] by (simp add: distrib_right)
  next
    case False
    then have "now < d * DAY + end_time a + int post * MINUTE"
      using assms(2) by (simp add: in_window_def effective_window_def Let_def)
    then show ?thesis using assms(1,4) unfolding clock_ok_def by (simp add: distrib_right)
  qed
  then have "now div DAY * DAY < (d + 2) * DAY" using now t by linarith
  then have "now div DAY < d + 2" by (simp add: DAY_def)
  ultimately show ?thesis by auto
qed


definition late_show :: talent_assignment where
  "late_show = \<lparr>for_user = 1, on_weekday = None, on_date = Some 100, start_time = 79200000000,
     end_time = 7200000000, active = True\<rparr>"


text \<open>
  They are not enough in general: a show that runs overnight until five minutes before the next
  midnight has, with the default allowance of fifteen minutes, a window that reaches into a third day,
  where the evaluator no longer sees it.
\<close>

theorem third_day_is_lost:
  "let a = \<lparr>for_user = 1, on_weekday = None, on_date = Some 100, start_time = 86100000000,
            end_time = 86100000000, active = True\<rparr>;
       now = 102 * DAY + 3 * MINUTE
   in window_covers a now 10 15 \<and> \<not> assignment_covers a now 10 15"
  by (simp add: Let_def window_covers_def assignment_covers_def recurs_on_def in_window_def effective_window_def
      crosses_midnight_def DAY_def MINUTE_def)

section \<open>Activating the schedule\<close>

lemma check_schedule_no_assignment:
  "code (fst (check_schedule u now st)) = CODE_NO_ASSIGNMENT \<Longrightarrow> list_all (\<lambda>a. for_user a \<noteq> user_id u) (assignments st)"
  by (auto simp: check_schedule_def case_prod_beta Let_def filter_empty_conv list_all_iff split: if_splits)

lemma role_decision_no_assignment:
  "code (fst (role_decision u slug s now policy (m, st))) = CODE_NO_ASSIGNMENT
     \<Longrightarrow> slug \<in> granted_by m (groups u) \<and> s \<and> list_all (\<lambda>a. for_user a \<noteq> user_id u) (assignments st)"
  using check_schedule_no_assignment [of u now st] check_schedule_no_assignment [of u now "snd (load_config st)"]
  by (auto simp: role_decision_def case_prod_beta Let_def split: if_splits)

lemma authorize_no_assignment:
  assumes fresh: "cache_fresh st" and auth: "authorize (Some u) slug now policy bypass st = Inr (r, st')"
    and no: "code r = CODE_NO_ASSIGNMENT"
  shows "is_active u" "\<not> superuser u" "map_of (capabilities st) slug = Some True"
    and "slug \<in> granted_by (load_group_capability_map st) (groups u)"
    and "list_all (\<lambda>a. for_user a \<noteq> user_id u) (assignments st)"
proof -
  obtain s where known: "map_of (capabilities st) slug = Some s"
    using auth by (auto simp: authorize_def split: option.splits)
  let ?m = "load_group_capability_map st"
  have pair: "get_group_capability_map st = (?m, snd (get_group_capability_map st))"
    using get_map_fresh(1) [OF fresh] by (metis prod.collapse)
  have r: "is_active u \<and> \<not> superuser u \<and> (r = fst (role_decision u slug s now policy (?m, st))
      \<or> r = fst (role_decision u slug s now policy (?m, snd (get_group_capability_map st))))"
    using auth no pair by (auto simp: authorize_def known split: if_splits)
  then show "is_active u" "\<not> superuser u" by simp_all
  have "slug \<in> granted_by ?m (groups u) \<and> s \<and> list_all (\<lambda>a. for_user a \<noteq> user_id u) (assignments st)"
    using r no role_decision_no_assignment [of u slug s now policy ?m st]
      role_decision_no_assignment [of u slug s now policy ?m "snd (get_group_capability_map st)"] by auto
  then show "map_of (capabilities st) slug = Some True" "slug \<in> granted_by ?m (groups u)"
    "list_all (\<lambda>a. for_user a \<noteq> user_id u) (assignments st)" using known by simp_all
qed


definition sample_show_host :: account where
  "sample_show_host = \<lparr>user_id = 2, authenticated = True, is_active = True, staff = False, superuser = False, groups = [''Hosts'']\<rparr>"


end
