(* ===== verification/Release_Manifest.thy ===== *)
theory Release_Manifest
  imports Air_Prelude
begin

text \<open>
  The structural validation of one release manifest (\<^verbatim>\<open>updatecenter/manifest.py\<close>): from the
  object that \<^verbatim>\<open>json.loads\<close> returned to an immutable \<open>release_manifest\<close>, every check in the
  order of the source. Text is a list of code points; a Python \<^verbatim>\<open>$\<close> also matches before one final
  newline, which \<open>dollar\<close> states.
\<close>

section \<open>JSON values\<close>

datatype json = JNull | JBool bool | JInt int | JFloat | JStr utext | JList "json list" | JObj "(utext \<times> json) list"

datatype manifest_error = ManifestError string | UnhashableError

definition get_field :: "(utext \<times> json) list \<Rightarrow> string \<Rightarrow> json" where
  "get_field d k = (case map_of d (cps k) of None \<Rightarrow> JNull | Some v \<Rightarrow> v)"

definition get_default :: "(utext \<times> json) list \<Rightarrow> string \<Rightarrow> json \<Rightarrow> json" where
  "get_default d k v = (case map_of d (cps k) of None \<Rightarrow> v | Some w \<Rightarrow> w)"

section \<open>Patterns\<close>

definition digit :: "nat \<Rightarrow> bool" where "digit c \<longleftrightarrow> 48 \<le> c \<and> c \<le> 57"
definition lower :: "nat \<Rightarrow> bool" where "lower c \<longleftrightarrow> 97 \<le> c \<and> c \<le> 122"
definition upper :: "nat \<Rightarrow> bool" where "upper c \<longleftrightarrow> 65 \<le> c \<and> c \<le> 90"
definition hexdigit :: "nat \<Rightarrow> bool" where "hexdigit c \<longleftrightarrow> digit c \<or> (97 \<le> c \<and> c \<le> 102)"

definition dollar :: "(utext \<Rightarrow> bool) \<Rightarrow> utext \<Rightarrow> bool" where
  "dollar p s \<longleftrightarrow> p s \<or> (s \<noteq> [] \<and> last s = 10 \<and> p (butlast s))"

text \<open>\<^verbatim>\<open>^r[0-9]{4,}$\<close>\<close>

definition RELEASE_ID_PATTERN :: "utext \<Rightarrow> bool" where
  "RELEASE_ID_PATTERN = dollar (\<lambda>s. case s of [] \<Rightarrow> False | c # ds \<Rightarrow> c = 114 \<and> 4 \<le> length ds \<and> list_all digit ds)"

text \<open>\<^verbatim>\<open>^[a-z][a-z0-9_]*\.[0-9]{4}_[a-z0-9_]+$\<close>\<close>

definition slug_char :: "nat \<Rightarrow> bool" where "slug_char c \<longleftrightarrow> lower c \<or> digit c \<or> c = 95"

definition migration_ref :: "utext \<Rightarrow> bool" where
  "migration_ref s =
     (let app = takeWhile (\<lambda>c. c \<noteq> 46) s; rest = dropWhile (\<lambda>c. c \<noteq> 46) s in
      app \<noteq> [] \<and> lower (hd app) \<and> list_all slug_char app \<and> rest \<noteq> []
      \<and> (let name = tl rest in 6 \<le> length name \<and> list_all digit (take 4 name) \<and> name ! 4 = 95
         \<and> list_all slug_char (drop 5 name)))"

definition MIGRATION_REF_PATTERN :: "utext \<Rightarrow> bool" where
  "MIGRATION_REF_PATTERN = dollar migration_ref"

text \<open>\<^verbatim>\<open>^[a-z0-9][a-z0-9.+-]*$\<close>\<close>

definition APT_PACKAGE_PATTERN :: "utext \<Rightarrow> bool" where
  "APT_PACKAGE_PATTERN = dollar (\<lambda>s. case s of [] \<Rightarrow> False
     | c # cs \<Rightarrow> (lower c \<or> digit c) \<and> list_all (\<lambda>c. lower c \<or> digit c \<or> c \<in> {46, 43, 45}) cs)"

text \<open>\<^verbatim>\<open>^[a-zA-Z0-9][a-zA-Z0-9_.-]*\.(service|timer)$\<close>\<close>

definition unit_stem :: "utext \<Rightarrow> bool" where
  "unit_stem s = (case s of [] \<Rightarrow> False
     | c # cs \<Rightarrow> (lower c \<or> upper c \<or> digit c) \<and> list_all (\<lambda>c. lower c \<or> upper c \<or> digit c \<or> c \<in> {95, 46, 45}) cs)"

definition has_stem :: "utext \<Rightarrow> utext \<Rightarrow> bool" where
  "has_stem suffix s \<longleftrightarrow> length suffix < length s \<and> drop (length s - length suffix) s = suffix
     \<and> unit_stem (take (length s - length suffix) s)"

definition UNIT_NAME_PATTERN :: "utext \<Rightarrow> bool" where
  "UNIT_NAME_PATTERN = dollar (\<lambda>s. has_stem (cps ''.service'') s \<or> has_stem (cps ''.timer'') s)"

text \<open>\<^verbatim>\<open>[0-9a-f]{n}\<close>\<close>

definition hex_of_length :: "nat \<Rightarrow> utext \<Rightarrow> bool" where
  "hex_of_length n s \<longleftrightarrow> length s = n \<and> list_all hexdigit s"

definition PROTECTED_RUNTIME_SHA256_RE :: "utext \<Rightarrow> bool" where
  "PROTECTED_RUNTIME_SHA256_RE = dollar (hex_of_length 64)"

text \<open>\<^verbatim>\<open>^[A-Za-z0-9_][A-Za-z0-9_.-]*$\<close>\<close>

definition PROTECTED_RUNTIME_PATH_SEGMENT_RE :: "utext \<Rightarrow> bool" where
  "PROTECTED_RUNTIME_PATH_SEGMENT_RE = dollar (\<lambda>s. case s of [] \<Rightarrow> False
     | c # cs \<Rightarrow> (lower c \<or> upper c \<or> digit c \<or> c = 95)
         \<and> list_all (\<lambda>c. lower c \<or> upper c \<or> digit c \<or> c \<in> {95, 46, 45}) cs)"

section \<open>Constants\<close>

definition SCHEMA_VERSION :: int where "SCHEMA_VERSION = 1"
definition UPDATER_PROTOCOL_VERSION :: int where "UPDATER_PROTOCOL_VERSION = 5"
definition SUMMARY_MAX_LEN :: nat where "SUMMARY_MAX_LEN = 500"

definition MIGRATION_COMPATIBILITY_VALUES :: "utext list" where
  "MIGRATION_COMPATIBILITY_VALUES = map cps [''additive'', ''destructive'']"

definition CORE_RESTARTABLE_SERVICES :: "utext list" where
  "CORE_RESTARTABLE_SERVICES = map cps [''isadoraair-gunicorn'', ''isadoraair-engine'',
     ''isadoraair-spoken-render-worker'', ''isadoraair-active-message-worker'', ''isadoraair-encoders'',
     ''isadoraair-monitoring'', ''isadoraair-rbds'']"

definition FORBIDDEN_FIELDS :: "utext list" where
  "FORBIDDEN_FIELDS = map cps [''pre_update_hooks'', ''post_update_hooks'', ''hooks'', ''commands'', ''shell'',
     ''script'', ''exec'', ''release_commit'', ''commit'', ''sha'', ''git_sha'']"

definition KNOWN_FIELDS :: "utext list" where
  "KNOWN_FIELDS = map cps [''schema_version'', ''release_id'', ''previous_release_id'', ''bootstrap_commit'',
     ''minimum_updater_protocol_version'', ''summary'', ''migrations_required'', ''migration_compatibility'',
     ''python_requirements_changed'', ''requirements_sha256'', ''apt_packages_new'', ''systemd_units_changed'',
     ''systemd_units_new_required'', ''systemd_units_new_optional'', ''systemd_units_removed_or_renamed'',
     ''collectstatic_required'', ''services_requiring_restart'', ''nginx_changed'',
     ''runtime_components_changed'', ''minimum_supported_release_id'', ''manual_bootstrap_required'',
     ''protected_runtime'']"

definition REQUIRED_FIELDS :: "utext list" where
  "REQUIRED_FIELDS = map cps [''schema_version'', ''release_id'', ''previous_release_id'',
     ''minimum_updater_protocol_version'', ''migrations_required'', ''python_requirements_changed'',
     ''apt_packages_new'', ''systemd_units_changed'', ''systemd_units_new_required'',
     ''systemd_units_new_optional'', ''collectstatic_required'', ''services_requiring_restart'',
     ''nginx_changed'', ''runtime_components_changed'']"

section \<open>The protected runtime\<close>

record protected_runtime =
  generation :: int
  descriptor_path :: utext
  descriptor_sha256 :: utext
  minimum_bootstrap_protocol_version :: int
  runtime_version :: int
  manifest_protocol_version :: int
  supported_wire_protocols :: "int list"
  attestations :: "utext list"

fun split_on :: "nat \<Rightarrow> utext \<Rightarrow> utext list" where
  "split_on c [] = [[]]"
| "split_on c (x # xs) = (if x = c then [] # split_on c xs
     else case split_on c xs of [] \<Rightarrow> [[x]] | w # ws \<Rightarrow> (x # w) # ws)"

definition path_ok :: "utext \<Rightarrow> utext \<Rightarrow> bool" where
  "path_ok prefix s \<longleftrightarrow> s \<noteq> [] \<and> length s \<le> 255
     \<and> \<not> (92 \<in> set s \<or> list_ex (\<lambda>c. c < 32 \<or> c = 127) s)
     \<and> \<not> (hd s = 47 \<or> last s = 47)
     \<and> list_all (\<lambda>w. w \<notin> {[], cps ''.'', cps ''..''}) (split_on 47 s)
     \<and> list_all PROTECTED_RUNTIME_PATH_SEGMENT_RE (split_on 47 s)
     \<and> take (length prefix) s = prefix"

definition relative_path :: "json \<Rightarrow> utext \<Rightarrow> manifest_error + utext" where
  "relative_path v prefix =
     (case v of JStr s \<Rightarrow> if path_ok prefix s then Inr s else Inl (ManifestError ''path'')
      | _ \<Rightarrow> Inl (ManifestError ''path''))"

definition positive_int :: "json \<Rightarrow> int option \<Rightarrow> manifest_error + int" where
  "positive_int v maximum =
     (case v of JInt i \<Rightarrow> if i < 1 then Inl (ManifestError ''positive_int'')
        else if (case maximum of None \<Rightarrow> False | Some m \<Rightarrow> m < i) then Inl (ManifestError ''maximum'') else Inr i
      | _ \<Rightarrow> Inl (ManifestError ''positive_int''))"

definition RUNTIME_FIELDS :: "utext list" where
  "RUNTIME_FIELDS = map cps [''generation'', ''descriptor_path'', ''descriptor_sha256'',
     ''minimum_bootstrap_protocol_version'', ''runtime_version'', ''manifest_protocol_version'',
     ''supported_wire_protocols'', ''attestations'']"

definition wire_protocols :: "json \<Rightarrow> manifest_error + int list" where
  "wire_protocols v =
     (case v of
        JList xs \<Rightarrow>
          if xs = [] \<or> length xs > 8 \<or> \<not> list_all (\<lambda>x. case x of JInt i \<Rightarrow> 1 \<le> i | _ \<Rightarrow> False) xs
          then Inl (ManifestError ''supported_wire_protocols'')
          else let is = map (\<lambda>x. case x of JInt i \<Rightarrow> i | _ \<Rightarrow> 0) xs in
               if \<not> distinct is \<or> \<not> sorted is then Inl (ManifestError ''supported_wire_protocols'') else Inr is
      | _ \<Rightarrow> Inl (ManifestError ''supported_wire_protocols''))"

definition ATTESTATION_PREFIX :: utext where "ATTESTATION_PREFIX = cps ''deploy/updater_attestations/''"
definition DESCRIPTOR_PREFIX :: utext where "DESCRIPTOR_PREFIX = cps ''deploy/updater_runtime/''"

definition attestation_list :: "json \<Rightarrow> manifest_error + utext list" where
  "attestation_list v =
     (case v of
        JList xs \<Rightarrow>
          if xs = [] \<or> length xs > 16 then Inl (ManifestError ''attestations'')
          else bindR (seqR (map (\<lambda>x. relative_path x ATTESTATION_PREFIX) xs)) (\<lambda>ps.
               if \<not> distinct ps then Inl (ManifestError ''attestations'') else Inr ps)
      | _ \<Rightarrow> Inl (ManifestError ''attestations''))"

definition require_sha256 :: "json \<Rightarrow> manifest_error + utext" where
  "require_sha256 v =
     (case v of JStr s \<Rightarrow> if PROTECTED_RUNTIME_SHA256_RE s then Inr s else Inl (ManifestError ''descriptor_sha256'')
      | _ \<Rightarrow> Inl (ManifestError ''descriptor_sha256''))"

definition validate_runtime_object :: "(utext \<times> json) list \<Rightarrow> manifest_error + protected_runtime" where
  "validate_runtime_object d =
     (if \<not> set (map fst d) \<subseteq> set RUNTIME_FIELDS then Inl (ManifestError ''unrecognized'')
      else if \<not> set RUNTIME_FIELDS \<subseteq> set (map fst d) then Inl (ManifestError ''missing'')
      else
        bindR (positive_int (get_field d ''generation'') (Some 1000000)) (\<lambda>gen.
        bindR (positive_int (get_field d ''minimum_bootstrap_protocol_version'') None) (\<lambda>boot.
        bindR (positive_int (get_field d ''runtime_version'') None) (\<lambda>rv.
        bindR (positive_int (get_field d ''manifest_protocol_version'') None) (\<lambda>mp.
        bindR (relative_path (get_field d ''descriptor_path'') DESCRIPTOR_PREFIX) (\<lambda>path.
        bindR (require_sha256 (get_field d ''descriptor_sha256'')) (\<lambda>sha.
        bindR (wire_protocols (get_field d ''supported_wire_protocols'')) (\<lambda>wire.
        bindR (attestation_list (get_field d ''attestations'')) (\<lambda>atts.
        Inr \<lparr>generation = gen, descriptor_path = path, descriptor_sha256 = sha,
          minimum_bootstrap_protocol_version = boot, runtime_version = rv, manifest_protocol_version = mp,
          supported_wire_protocols = wire, attestations = atts\<rparr>)))))))))"

definition validate_protected_runtime :: "json \<Rightarrow> manifest_error + protected_runtime option" where
  "validate_protected_runtime v =
     (case v of
        JNull \<Rightarrow> Inr None
      | JObj d \<Rightarrow> bindR (validate_runtime_object d) (\<lambda>r. Inr (Some r))
      | _ \<Rightarrow> Inl (ManifestError ''protected_runtime''))"

section \<open>The manifest\<close>

record release_manifest =
  schema_version :: int
  release_id :: utext
  previous_release_id :: "utext option"
  bootstrap_commit :: "utext option"
  minimum_updater_protocol_version :: int
  summary :: utext
  migrations_required :: "utext list"
  migration_compatibility :: "utext option"
  python_requirements_changed :: bool
  requirements_sha256 :: "utext option"
  apt_packages_new :: "utext list"
  systemd_units_changed :: "utext list"
  systemd_units_new_required :: "utext list"
  systemd_units_new_optional :: "utext list"
  systemd_units_removed_or_renamed :: "utext list"
  collectstatic_required :: bool
  services_requiring_restart :: "utext list"
  nginx_changed :: bool
  runtime_components_changed :: bool
  minimum_supported_release_id :: "utext option"
  manual_bootstrap_required :: bool
  protected_runtime :: "protected_runtime option"

definition is_bootstrap :: "release_manifest \<Rightarrow> bool" where
  "is_bootstrap m = (previous_release_id m = None)"

definition require_int :: "json \<Rightarrow> string \<Rightarrow> manifest_error + int" where
  "require_int v f = (case v of JInt i \<Rightarrow> Inr i | _ \<Rightarrow> Inl (ManifestError f))"

definition require_bool :: "json \<Rightarrow> string \<Rightarrow> manifest_error + bool" where
  "require_bool v f = (case v of JBool b \<Rightarrow> Inr b | _ \<Rightarrow> Inl (ManifestError f))"

definition require_str :: "json \<Rightarrow> string \<Rightarrow> manifest_error + utext" where
  "require_str v f = (case v of JStr s \<Rightarrow> Inr s | _ \<Rightarrow> Inl (ManifestError f))"

definition require_str_list :: "json \<Rightarrow> string \<Rightarrow> (utext \<Rightarrow> bool) \<Rightarrow> manifest_error + utext list" where
  "require_str_list v f pattern =
     (case v of
        JList xs \<Rightarrow>
          if \<not> list_all (\<lambda>x. case x of JStr s \<Rightarrow> True | _ \<Rightarrow> False) xs then Inl (ManifestError f)
          else let ss = map (\<lambda>x. case x of JStr s \<Rightarrow> s | _ \<Rightarrow> []) xs in
               if \<not> distinct ss then Inl (ManifestError f)
               else if \<not> list_all pattern ss then Inl (ManifestError f) else Inr ss
      | _ \<Rightarrow> Inl (ManifestError f))"

text \<open>An optional release id: null, or a string of the required shape.\<close>

definition optional_release_id :: "json \<Rightarrow> string \<Rightarrow> manifest_error + utext option" where
  "optional_release_id v f =
     (if v = JNull then Inr None
      else bindR (require_str v f) (\<lambda>s.
        if RELEASE_ID_PATTERN s then Inr (Some s) else Inl (ManifestError f)))"

definition validate_keys :: "(utext \<times> json) list \<Rightarrow> manifest_error + unit" where
  "validate_keys d =
     (if list_ex (\<lambda>k. k \<notin> set KNOWN_FIELDS \<and> k \<in> set FORBIDDEN_FIELDS) (map fst d) then Inl (ManifestError ''forbidden'')
      else if \<not> set (map fst d) \<subseteq> set KNOWN_FIELDS then Inl (ManifestError ''unrecognized'')
      else if \<not> set REQUIRED_FIELDS \<subseteq> set (map fst d) then Inl (ManifestError ''missing'')
      else Inr ())"

definition validate_version :: "(utext \<times> json) list \<Rightarrow> manifest_error + int \<times> int" where
  "validate_version d =
     bindR (require_int (get_field d ''schema_version'') ''schema_version'') (\<lambda>v.
     if v \<noteq> SCHEMA_VERSION then Inl (ManifestError ''schema_version'')
     else bindR (require_int (get_field d ''minimum_updater_protocol_version'') ''minimum_updater_protocol_version'') (\<lambda>p.
     if p > UPDATER_PROTOCOL_VERSION then Inl (ManifestError ''requires updater protocol'')
     else if p < 1 then Inl (ManifestError ''minimum_updater_protocol_version'')
     else Inr (v, p)))"

definition validate_bootstrap :: "(utext \<times> json) list \<Rightarrow> utext option \<Rightarrow> manifest_error + utext option" where
  "validate_bootstrap d previous =
     (let c = get_field d ''bootstrap_commit'' in
      if previous = None
      then if c = JNull then Inl (ManifestError ''no bootstrap_commit'')
           else bindR (require_str c ''bootstrap_commit'') (\<lambda>s.
             if hex_of_length 40 s then Inr (Some s) else Inl (ManifestError ''bootstrap_commit''))
      else if c \<noteq> JNull then Inl (ManifestError ''bootstrap_commit is only valid on the bootstrap'') else Inr None)"

definition validate_identity ::
  "(utext \<times> json) list \<Rightarrow> manifest_error + utext \<times> utext option \<times> utext option \<times> utext" where
  "validate_identity d =
     bindR (require_str (get_field d ''release_id'') ''release_id'') (\<lambda>rid.
     if \<not> RELEASE_ID_PATTERN rid then Inl (ManifestError ''release_id'')
     else bindR (optional_release_id (get_field d ''previous_release_id'') ''previous_release_id'') (\<lambda>previous.
     if previous = Some rid then Inl (ManifestError ''self-predecessor'')
     else bindR (validate_bootstrap d previous) (\<lambda>boot.
     bindR (require_str (get_default d ''summary'' (JStr [])) ''summary'') (\<lambda>summ.
     if length summ > SUMMARY_MAX_LEN then Inl (ManifestError ''summary exceeds'')
     else Inr (rid, previous, boot, summ)))))"

definition validate_compatibility :: "json \<Rightarrow> utext list \<Rightarrow> manifest_error + utext option" where
  "validate_compatibility v migrations =
     (if migrations \<noteq> [] then
        (case v of
           JStr s \<Rightarrow> if s \<in> set MIGRATION_COMPATIBILITY_VALUES then Inr (Some s)
                    else Inl (ManifestError ''migration_compatibility'')
         | JList xs \<Rightarrow> Inl UnhashableError
         | JObj kvs \<Rightarrow> Inl UnhashableError
         | _ \<Rightarrow> Inl (ManifestError ''migration_compatibility''))
      else if v \<noteq> JNull then Inl (ManifestError ''migration_compatibility'') else Inr None)"

definition validate_requirements :: "(utext \<times> json) list \<Rightarrow> manifest_error + bool \<times> utext option" where
  "validate_requirements d =
     bindR (require_bool (get_field d ''python_requirements_changed'') ''python_requirements_changed'') (\<lambda>changed.
     let v = get_field d ''requirements_sha256'' in
     if changed
     then (case v of JStr s \<Rightarrow> if hex_of_length 64 s then Inr (True, Some s) else Inl (ManifestError ''requirements_sha256'')
           | _ \<Rightarrow> Inl (ManifestError ''requirements_sha256''))
     else if v \<noteq> JNull then Inl (ManifestError ''requirements_sha256'') else Inr (False, None))"

definition validate_units ::
  "(utext \<times> json) list \<Rightarrow> manifest_error + utext list \<times> utext list \<times> utext list \<times> utext list" where
  "validate_units d =
     bindR (require_str_list (get_field d ''systemd_units_changed'') ''systemd_units_changed'' UNIT_NAME_PATTERN) (\<lambda>a.
     bindR (require_str_list (get_field d ''systemd_units_new_required'') ''systemd_units_new_required'' UNIT_NAME_PATTERN) (\<lambda>b.
     bindR (require_str_list (get_field d ''systemd_units_new_optional'') ''systemd_units_new_optional'' UNIT_NAME_PATTERN) (\<lambda>c.
     bindR (require_str_list (get_default d ''systemd_units_removed_or_renamed'' (JList []))
              ''systemd_units_removed_or_renamed'' UNIT_NAME_PATTERN) (\<lambda>r.
     if length (remdups (a @ b @ c @ r)) \<noteq> length a + length b + length c + length r
     then Inl (ManifestError ''the same unit name appears in more than one systemd_units_* list'')
     else Inr (a, b, c, r)))))"

definition validate_services :: "json \<Rightarrow> manifest_error + utext list" where
  "validate_services v =
     bindR (require_str_list v ''services_requiring_restart'' (\<lambda>_. True)) (\<lambda>ss.
     if \<not> set ss \<subseteq> set CORE_RESTARTABLE_SERVICES then Inl (ManifestError ''unknown service'') else Inr ss)"

definition validate_object :: "(utext \<times> json) list \<Rightarrow> manifest_error + release_manifest" where
  "validate_object d =
     bindR (validate_keys d) (\<lambda>_.
     bindR (validate_version d) (\<lambda>(version, protocol).
     bindR (validate_identity d) (\<lambda>(rid, previous, boot, summ).
     bindR (require_str_list (get_field d ''migrations_required'') ''migrations_required'' MIGRATION_REF_PATTERN) (\<lambda>migrations.
     bindR (validate_compatibility (get_field d ''migration_compatibility'') migrations) (\<lambda>compat.
     bindR (validate_requirements d) (\<lambda>(changed, sha).
     bindR (require_str_list (get_field d ''apt_packages_new'') ''apt_packages_new'' APT_PACKAGE_PATTERN) (\<lambda>apt.
     bindR (validate_units d) (\<lambda>(units, required, optional, removed).
     bindR (require_bool (get_field d ''collectstatic_required'') ''collectstatic_required'') (\<lambda>static.
     bindR (validate_services (get_field d ''services_requiring_restart'')) (\<lambda>services.
     bindR (require_bool (get_field d ''nginx_changed'') ''nginx_changed'') (\<lambda>nginx.
     bindR (require_bool (get_field d ''runtime_components_changed'') ''runtime_components_changed'') (\<lambda>comps.
     bindR (optional_release_id (get_field d ''minimum_supported_release_id'') ''minimum_supported_release_id'') (\<lambda>minimum.
     bindR (require_bool (get_default d ''manual_bootstrap_required'' (JBool False)) ''manual_bootstrap_required'') (\<lambda>manual.
     bindR (validate_protected_runtime (get_field d ''protected_runtime'')) (\<lambda>runtime.
     Inr \<lparr>schema_version = version, release_id = rid, previous_release_id = previous, bootstrap_commit = boot,
       minimum_updater_protocol_version = protocol, summary = summ, migrations_required = migrations,
       migration_compatibility = compat, python_requirements_changed = changed, requirements_sha256 = sha,
       apt_packages_new = apt, systemd_units_changed = units, systemd_units_new_required = required,
       systemd_units_new_optional = optional, systemd_units_removed_or_renamed = removed,
       collectstatic_required = static, services_requiring_restart = services, nginx_changed = nginx,
       runtime_components_changed = comps, minimum_supported_release_id = minimum,
       manual_bootstrap_required = manual, protected_runtime = runtime\<rparr>)))))))))))))))"

definition validate_manifest_dict :: "json \<Rightarrow> manifest_error + release_manifest" where
  "validate_manifest_dict v =
     (case v of JObj d \<Rightarrow> validate_object d | _ \<Rightarrow> Inl (ManifestError ''manifest must be a JSON object''))"

section \<open>What a validated manifest is\<close>

definition runtime_ok :: "protected_runtime \<Rightarrow> bool" where
  "runtime_ok r \<longleftrightarrow> 1 \<le> generation r \<and> generation r \<le> 1000000 \<and> path_ok DESCRIPTOR_PREFIX (descriptor_path r)
     \<and> PROTECTED_RUNTIME_SHA256_RE (descriptor_sha256 r) \<and> 1 \<le> minimum_bootstrap_protocol_version r
     \<and> 1 \<le> runtime_version r \<and> 1 \<le> manifest_protocol_version r
     \<and> (let w = supported_wire_protocols r in w \<noteq> [] \<and> length w \<le> 8 \<and> list_all (\<lambda>i. 1 \<le> i) w \<and> distinct w \<and> sorted w)
     \<and> (let a = attestations r in a \<noteq> [] \<and> length a \<le> 16 \<and> list_all (path_ok ATTESTATION_PREFIX) a \<and> distinct a)"

definition manifest_ok :: "release_manifest \<Rightarrow> bool" where
  "manifest_ok m \<longleftrightarrow>
     schema_version m = SCHEMA_VERSION
   \<and> 1 \<le> minimum_updater_protocol_version m \<and> minimum_updater_protocol_version m \<le> UPDATER_PROTOCOL_VERSION
   \<and> RELEASE_ID_PATTERN (release_id m)
   \<and> (case previous_release_id m of
        None \<Rightarrow> (case bootstrap_commit m of None \<Rightarrow> False | Some c \<Rightarrow> hex_of_length 40 c)
      | Some p \<Rightarrow> RELEASE_ID_PATTERN p \<and> p \<noteq> release_id m \<and> bootstrap_commit m = None)
   \<and> length (summary m) \<le> SUMMARY_MAX_LEN
   \<and> distinct (migrations_required m) \<and> list_all MIGRATION_REF_PATTERN (migrations_required m)
   \<and> (case migration_compatibility m of None \<Rightarrow> migrations_required m = []
      | Some c \<Rightarrow> migrations_required m \<noteq> [] \<and> c \<in> set MIGRATION_COMPATIBILITY_VALUES)
   \<and> (case requirements_sha256 m of None \<Rightarrow> \<not> python_requirements_changed m
      | Some h \<Rightarrow> python_requirements_changed m \<and> hex_of_length 64 h)
   \<and> distinct (apt_packages_new m) \<and> list_all APT_PACKAGE_PATTERN (apt_packages_new m)
   \<and> (let us = systemd_units_changed m @ systemd_units_new_required m @ systemd_units_new_optional m
             @ systemd_units_removed_or_renamed m
      in distinct us \<and> list_all UNIT_NAME_PATTERN us)
   \<and> distinct (services_requiring_restart m) \<and> set (services_requiring_restart m) \<subseteq> set CORE_RESTARTABLE_SERVICES
   \<and> (case minimum_supported_release_id m of None \<Rightarrow> True | Some s \<Rightarrow> RELEASE_ID_PATTERN s)
   \<and> (case protected_runtime m of None \<Rightarrow> True | Some r \<Rightarrow> runtime_ok r)"

section \<open>What each check accepts\<close>

definition opt_json :: "utext option \<Rightarrow> json" where
  "opt_json x = (case x of None \<Rightarrow> JNull | Some s \<Rightarrow> JStr s)"

definition str_list :: "utext list \<Rightarrow> json" where
  "str_list xs = JList (map JStr xs)"

lemma opt_json_simps [simp]: "opt_json None = JNull" "opt_json (Some s) = JStr s"
  by (simp_all add: opt_json_def)

lemma opt_json_eq [simp]:
  "opt_json a = opt_json b \<longleftrightarrow> a = b" "opt_json a = JNull \<longleftrightarrow> a = None" "opt_json a = JStr s \<longleftrightarrow> a = Some s"
  "JNull = opt_json a \<longleftrightarrow> a = None" "JStr s = opt_json a \<longleftrightarrow> a = Some s"
  by (cases a; cases b; auto)+

lemma str_list_eq [simp]: "str_list a = str_list b \<longleftrightarrow> a = b"
  using inj_map_eq_map [of JStr a b] by (simp add: str_list_def inj_def)

lemma refused_unless [simp]:
  "(if c then Inl e else m) = Inr b \<longleftrightarrow> \<not> c \<and> m = Inr b"
  "(if c then m else Inl e) = Inr b \<longleftrightarrow> c \<and> m = Inr b"
  by simp_all

lemma require_simps [simp]:
  "require_int v f = Inr i \<longleftrightarrow> v = JInt i" "require_bool v f = Inr b \<longleftrightarrow> v = JBool b"
  "require_str v f = Inr s \<longleftrightarrow> v = JStr s"
  by (cases v; simp add: require_int_def require_bool_def require_str_def)+

lemma all_strings:
  "list_all (\<lambda>x. case x of JStr s \<Rightarrow> True | _ \<Rightarrow> False) xs
     \<longleftrightarrow> xs = map JStr (map (\<lambda>x. case x of JStr s \<Rightarrow> s | _ \<Rightarrow> []) xs)"
  by (induction xs) (auto split: json.splits)

lemma require_str_list_iff [simp]:
  "require_str_list v f pattern = Inr ss \<longleftrightarrow> v = str_list ss \<and> distinct ss \<and> list_all pattern ss"
proof (cases v)
  case (JList xs)
  let ?ss = "map (\<lambda>x. case x of JStr s \<Rightarrow> s | _ \<Rightarrow> []) xs"
  show ?thesis
  proof (cases "list_all (\<lambda>x. case x of JStr s \<Rightarrow> True | _ \<Rightarrow> False) xs")
    case True
    then have xs: "xs = map JStr ?ss" by (simp only: all_strings)
    then have "v = str_list ss \<longleftrightarrow> ?ss = ss" unfolding str_list_def JList
      by (metis inj_map_eq_map injI json.inject(3,4))
    then show ?thesis using True by (auto simp: require_str_list_def JList Let_def)
  next
    case False
    then have "v \<noteq> str_list ss" by (auto simp: JList str_list_def list_all_iff)
    then show ?thesis using False by (simp add: require_str_list_def JList)
  qed
qed (simp_all add: require_str_list_def str_list_def)

lemma optional_release_id_iff [simp]:
  "optional_release_id v f = Inr r \<longleftrightarrow> v = opt_json r \<and> (case r of None \<Rightarrow> True | Some s \<Rightarrow> RELEASE_ID_PATTERN s)"
  by (cases r) (auto simp: optional_release_id_def result_simps split: if_splits)

lemma validate_version_iff [simp]:
  "validate_version d = Inr (v, p) \<longleftrightarrow> get_field d ''schema_version'' = JInt v \<and> v = SCHEMA_VERSION
     \<and> get_field d ''minimum_updater_protocol_version'' = JInt p \<and> 1 \<le> p \<and> p \<le> UPDATER_PROTOCOL_VERSION"
  by (auto simp: validate_version_def result_simps)

lemma validate_bootstrap_iff:
  "validate_bootstrap d previous = Inr c \<longleftrightarrow> get_field d ''bootstrap_commit'' = opt_json c
     \<and> (case previous of None \<Rightarrow> (case c of None \<Rightarrow> False | Some s \<Rightarrow> hex_of_length 40 s) | Some p \<Rightarrow> c = None)"
  by (cases previous; cases c) (auto simp: validate_bootstrap_def Let_def result_simps)

lemma validate_identity_iff [simp]:
  "validate_identity d = Inr (rid, previous, boot, summ) \<longleftrightarrow>
     get_field d ''release_id'' = JStr rid \<and> RELEASE_ID_PATTERN rid
   \<and> get_field d ''previous_release_id'' = opt_json previous
   \<and> get_field d ''bootstrap_commit'' = opt_json boot
   \<and> (case previous of None \<Rightarrow> (case boot of None \<Rightarrow> False | Some c \<Rightarrow> hex_of_length 40 c)
      | Some p \<Rightarrow> RELEASE_ID_PATTERN p \<and> p \<noteq> rid \<and> boot = None)
   \<and> get_default d ''summary'' (JStr []) = JStr summ \<and> length summ \<le> SUMMARY_MAX_LEN"
  by (cases previous) (auto simp: validate_identity_def validate_bootstrap_iff result_simps)

lemma validate_compatibility_iff [simp]:
  "validate_compatibility v ms = Inr c \<longleftrightarrow> v = opt_json c
     \<and> (case c of None \<Rightarrow> ms = [] | Some s \<Rightarrow> ms \<noteq> [] \<and> s \<in> set MIGRATION_COMPATIBILITY_VALUES)"
  by (cases c; cases v) (auto simp: validate_compatibility_def)

lemma validate_requirements_iff [simp]:
  "validate_requirements d = Inr (changed, sha) \<longleftrightarrow> get_field d ''python_requirements_changed'' = JBool changed
     \<and> get_field d ''requirements_sha256'' = opt_json sha
     \<and> (case sha of None \<Rightarrow> \<not> changed | Some h \<Rightarrow> changed \<and> hex_of_length 64 h)"
proof (cases "get_field d ''python_requirements_changed''")
  case (JBool b)
  show ?thesis
    by (cases "get_field d ''requirements_sha256''"; cases b; cases sha)
       (auto simp: validate_requirements_def require_bool_def JBool Let_def)
qed (simp_all add: validate_requirements_def require_bool_def)

lemma remdups_length_iff: "length (remdups xs) = length xs \<longleftrightarrow> distinct xs"
  using length_remdups_eq [of xs] remdups_id_iff_distinct [of xs] by blast

lemma validate_units_iff [simp]:
  "validate_units d = Inr (a, b, c, r) \<longleftrightarrow>
     get_field d ''systemd_units_changed'' = str_list a \<and> get_field d ''systemd_units_new_required'' = str_list b
   \<and> get_field d ''systemd_units_new_optional'' = str_list c
   \<and> get_default d ''systemd_units_removed_or_renamed'' (JList []) = str_list r
   \<and> distinct (a @ b @ c @ r) \<and> list_all UNIT_NAME_PATTERN (a @ b @ c @ r)"
proof -
  have units: "length (remdups (a @ b @ c @ r)) = length a + length b + length c + length r \<longleftrightarrow> distinct (a @ b @ c @ r)"
    for a b c r :: "utext list"
    using remdups_length_iff [of "a @ b @ c @ r"] by (simp only: length_append add.assoc)
  show ?thesis
  proof
    assume "validate_units d = Inr (a, b, c, r)"
    then show "get_field d ''systemd_units_changed'' = str_list a \<and> get_field d ''systemd_units_new_required'' = str_list b
      \<and> get_field d ''systemd_units_new_optional'' = str_list c
      \<and> get_default d ''systemd_units_removed_or_renamed'' (JList []) = str_list r
      \<and> distinct (a @ b @ c @ r) \<and> list_all UNIT_NAME_PATTERN (a @ b @ c @ r)"
      unfolding validate_units_def
      by (elim bindR_InrE) (auto simp: units simp del: distinct_append)
  next
    assume f: "get_field d ''systemd_units_changed'' = str_list a \<and> get_field d ''systemd_units_new_required'' = str_list b
      \<and> get_field d ''systemd_units_new_optional'' = str_list c
      \<and> get_default d ''systemd_units_removed_or_renamed'' (JList []) = str_list r
      \<and> distinct (a @ b @ c @ r) \<and> list_all UNIT_NAME_PATTERN (a @ b @ c @ r)"
    then have "distinct a" "distinct b" "distinct c" "distinct r" by (simp_all only: distinct_append)
    then have "require_str_list (get_field d ''systemd_units_changed'') ''systemd_units_changed'' UNIT_NAME_PATTERN = Inr a"
      "require_str_list (get_field d ''systemd_units_new_required'') ''systemd_units_new_required'' UNIT_NAME_PATTERN = Inr b"
      "require_str_list (get_field d ''systemd_units_new_optional'') ''systemd_units_new_optional'' UNIT_NAME_PATTERN = Inr c"
      "require_str_list (get_default d ''systemd_units_removed_or_renamed'' (JList []))
         ''systemd_units_removed_or_renamed'' UNIT_NAME_PATTERN = Inr r"
      using f by (simp_all only: require_str_list_iff list_all_append simp_thms)
    then show "validate_units d = Inr (a, b, c, r)"
      unfolding validate_units_def
      by (simp only: bindR_simps units) (use f in \<open>simp only: simp_thms if_False\<close>)
  qed
qed

lemma validate_services_iff [simp]:
  "validate_services v = Inr ss \<longleftrightarrow> v = str_list ss \<and> distinct ss \<and> set ss \<subseteq> set CORE_RESTARTABLE_SERVICES"
  by (auto simp: validate_services_def result_simps list_all_iff)

lemma positive_int_iff [simp]:
  "positive_int v m = Inr i \<longleftrightarrow> v = JInt i \<and> 1 \<le> i \<and> (case m of None \<Rightarrow> True | Some k \<Rightarrow> i \<le> k)"
  by (cases v) (auto simp: positive_int_def split: option.splits)

lemma relative_path_iff [simp]: "relative_path v prefix = Inr s \<longleftrightarrow> v = JStr s \<and> path_ok prefix s"
  by (cases v) (auto simp: relative_path_def)

lemma all_ints:
  "list_all (\<lambda>x. case x of JInt i \<Rightarrow> 1 \<le> i | _ \<Rightarrow> False) xs
     \<longleftrightarrow> xs = map JInt (map (\<lambda>x. case x of JInt i \<Rightarrow> i | _ \<Rightarrow> 0) xs)
        \<and> list_all (\<lambda>i. 1 \<le> i) (map (\<lambda>x. case x of JInt i \<Rightarrow> i | _ \<Rightarrow> 0) xs)"
  by (induction xs) (auto split: json.splits)

lemma wire_protocols_iff [simp]:
  "wire_protocols v = Inr w \<longleftrightarrow> v = JList (map JInt w) \<and> w \<noteq> [] \<and> length w \<le> 8 \<and> list_all (\<lambda>i. 1 \<le> i) w
     \<and> distinct w \<and> sorted w"
proof (cases v)
  case (JList xs)
  let ?w = "map (\<lambda>x. case x of JInt i \<Rightarrow> i | _ \<Rightarrow> 0) xs"
  show ?thesis
  proof (cases "list_all (\<lambda>x. case x of JInt i \<Rightarrow> 1 \<le> i | _ \<Rightarrow> False) xs")
    case True
    then have xs: "xs = map JInt ?w" and pos: "list_all (\<lambda>i. 1 \<le> i) ?w" by (simp_all only: all_ints)
    have "v = JList (map JInt w) \<longleftrightarrow> ?w = w" unfolding JList
      using xs by (metis inj_map_eq_map injI json.inject(2,4))
    then show ?thesis using True pos by (auto simp: wire_protocols_def JList Let_def)
  next
    case False
    then have "\<not> (v = JList (map JInt w) \<and> list_all (\<lambda>i. 1 \<le> i) w)"
      by (auto simp: JList list.pred_map comp_def)
    moreover have "wire_protocols v \<noteq> Inr w" using False by (simp add: wire_protocols_def JList)
    ultimately show ?thesis by blast
  qed
qed (simp_all add: wire_protocols_def)

lemma attestation_list_iff [simp]:
  "attestation_list v = Inr ps \<longleftrightarrow> v = str_list ps \<and> ps \<noteq> [] \<and> length ps \<le> 16
     \<and> list_all (path_ok ATTESTATION_PREFIX) ps \<and> distinct ps"
proof (cases v)
  case (JList xs)
  have "relative_path x ATTESTATION_PREFIX = Inr p \<longleftrightarrow> x = JStr p \<and> path_ok ATTESTATION_PREFIX p" for x p by simp
  then have seq: "map (\<lambda>x. relative_path x ATTESTATION_PREFIX) xs = map Inr ps \<longleftrightarrow>
      xs = map JStr ps \<and> list_all (path_ok ATTESTATION_PREFIX) ps" for ps
    by (induction ps arbitrary: xs) (auto simp: map_eq_Cons_conv)
  have "attestation_list v = Inr ps \<longleftrightarrow> (xs \<noteq> [] \<and> length xs \<le> 16) \<and> xs = map JStr ps
      \<and> list_all (path_ok ATTESTATION_PREFIX) ps \<and> distinct ps"
    unfolding attestation_list_def JList json.case bindR_eq_Inr seqR_eq_Inr seq refused_unless by auto
  then show ?thesis unfolding JList str_list_def json.inject by auto
qed (simp_all add: attestation_list_def str_list_def)

text \<open>The dictionary of a protected runtime, and of a manifest: the inverse of validation.\<close>

definition runtime_json :: "protected_runtime option \<Rightarrow> json" where
  "runtime_json x = (case x of None \<Rightarrow> JNull | Some r \<Rightarrow> JObj
     [(cps ''generation'', JInt (generation r)), (cps ''descriptor_path'', JStr (descriptor_path r)),
      (cps ''descriptor_sha256'', JStr (descriptor_sha256 r)),
      (cps ''minimum_bootstrap_protocol_version'', JInt (minimum_bootstrap_protocol_version r)),
      (cps ''runtime_version'', JInt (runtime_version r)),
      (cps ''manifest_protocol_version'', JInt (manifest_protocol_version r)),
      (cps ''supported_wire_protocols'', JList (map JInt (supported_wire_protocols r))),
      (cps ''attestations'', str_list (attestations r))])"

definition manifest_dict :: "release_manifest \<Rightarrow> (utext \<times> json) list" where
  "manifest_dict m =
     [(cps ''schema_version'', JInt (schema_version m)), (cps ''release_id'', JStr (release_id m)),
      (cps ''previous_release_id'', opt_json (previous_release_id m)),
      (cps ''bootstrap_commit'', opt_json (bootstrap_commit m)),
      (cps ''minimum_updater_protocol_version'', JInt (minimum_updater_protocol_version m)),
      (cps ''summary'', JStr (summary m)), (cps ''migrations_required'', str_list (migrations_required m)),
      (cps ''migration_compatibility'', opt_json (migration_compatibility m)),
      (cps ''python_requirements_changed'', JBool (python_requirements_changed m)),
      (cps ''requirements_sha256'', opt_json (requirements_sha256 m)),
      (cps ''apt_packages_new'', str_list (apt_packages_new m)),
      (cps ''systemd_units_changed'', str_list (systemd_units_changed m)),
      (cps ''systemd_units_new_required'', str_list (systemd_units_new_required m)),
      (cps ''systemd_units_new_optional'', str_list (systemd_units_new_optional m)),
      (cps ''systemd_units_removed_or_renamed'', str_list (systemd_units_removed_or_renamed m)),
      (cps ''collectstatic_required'', JBool (collectstatic_required m)),
      (cps ''services_requiring_restart'', str_list (services_requiring_restart m)),
      (cps ''nginx_changed'', JBool (nginx_changed m)),
      (cps ''runtime_components_changed'', JBool (runtime_components_changed m)),
      (cps ''minimum_supported_release_id'', opt_json (minimum_supported_release_id m)),
      (cps ''manual_bootstrap_required'', JBool (manual_bootstrap_required m)),
      (cps ''protected_runtime'', runtime_json (protected_runtime m))]"

definition manifest_json :: "release_manifest \<Rightarrow> json" where
  "manifest_json m = JObj (manifest_dict m)"

lemma require_sha256_iff [simp]: "require_sha256 v = Inr s \<longleftrightarrow> v = JStr s \<and> PROTECTED_RUNTIME_SHA256_RE s"
  by (cases v) (auto simp: require_sha256_def)

lemma validate_runtime_object_ok: "validate_runtime_object d = Inr r \<Longrightarrow> runtime_ok r"
  unfolding validate_runtime_object_def refused_unless
  by (elim conjE bindR_InrE) (auto simp: runtime_ok_def Let_def)

lemma validate_protected_runtime_ok:
  "validate_protected_runtime v = Inr x \<Longrightarrow> case x of None \<Rightarrow> True | Some r \<Rightarrow> runtime_ok r"
  by (cases v) (auto simp: validate_protected_runtime_def bindR_eq_Inr validate_runtime_object_ok)

lemma validate_runtime_json:
  assumes "case x of None \<Rightarrow> True | Some r \<Rightarrow> runtime_ok r"
  shows "validate_protected_runtime (runtime_json x) = Inr x"
proof (cases x)
  case (Some r)
  then have ok: "runtime_ok r" using assms by simp
  have accepted: "wire_protocols (JList (map JInt (supported_wire_protocols r))) = Inr (supported_wire_protocols r)"
    "attestation_list (str_list (attestations r)) = Inr (attestations r)"
    "relative_path (JStr (descriptor_path r)) DESCRIPTOR_PREFIX = Inr (descriptor_path r)"
    "positive_int (JInt (generation r)) (Some 1000000) = Inr (generation r)"
    "positive_int (JInt (minimum_bootstrap_protocol_version r)) None = Inr (minimum_bootstrap_protocol_version r)"
    "positive_int (JInt (runtime_version r)) None = Inr (runtime_version r)"
    "positive_int (JInt (manifest_protocol_version r)) None = Inr (manifest_protocol_version r)"
    "require_sha256 (JStr (descriptor_sha256 r)) = Inr (descriptor_sha256 r)"
    using ok unfolding runtime_ok_def Let_def
    by (simp_all only: wire_protocols_iff attestation_list_iff relative_path_iff positive_int_iff require_sha256_iff
        option.case simp_thms)
  show ?thesis
    using Some by (simp add: accepted runtime_json_def validate_protected_runtime_def validate_runtime_object_def
        get_field_def RUNTIME_FIELDS_def)
qed (simp add: runtime_json_def validate_protected_runtime_def)

lemma bindR_pairE: "bindR m (case_prod f) = Inr b \<Longrightarrow> (\<And>x y. m = Inr (x, y) \<Longrightarrow> f x y = Inr b \<Longrightarrow> thesis) \<Longrightarrow> thesis"
  by (cases m) auto

lemma bindR_quadE: "bindR m (\<lambda>(x, y, z, w). f x y z w) = Inr b
    \<Longrightarrow> (\<And>x y z w. m = Inr (x, y, z, w) \<Longrightarrow> f x y z w = Inr b \<Longrightarrow> thesis) \<Longrightarrow> thesis"
  by (cases m) auto

lemma validate_object_ok: "validate_object d = Inr m \<Longrightarrow> manifest_ok m"
  unfolding validate_object_def
  by (elim bindR_quadE bindR_pairE bindR_InrE, frule validate_protected_runtime_ok, drule Inr_inject, hypsubst,
      simp add: manifest_ok_def Let_def cong: option.case_cong)

lemma validate_manifest_json:
  assumes ok: "manifest_ok m"
  shows "validate_manifest_dict (manifest_json m) = Inr m"
proof -
  define d where "d = manifest_dict m"
  have names: "map fst d = KNOWN_FIELDS" by (simp add: d_def manifest_dict_def KNOWN_FIELDS_def)
  have "set REQUIRED_FIELDS \<subseteq> set KNOWN_FIELDS" by (simp add: REQUIRED_FIELDS_def KNOWN_FIELDS_def)
  then have keys: "validate_keys d = Inr ()" unfolding validate_keys_def names by (simp add: list_ex_iff)
  have f: "get_field d ''schema_version'' = JInt (schema_version m)"
    "get_field d ''minimum_updater_protocol_version'' = JInt (minimum_updater_protocol_version m)"
    "get_field d ''release_id'' = JStr (release_id m)"
    "get_field d ''previous_release_id'' = opt_json (previous_release_id m)"
    "get_field d ''bootstrap_commit'' = opt_json (bootstrap_commit m)"
    "get_default d ''summary'' (JStr []) = JStr (summary m)"
    "get_field d ''migrations_required'' = str_list (migrations_required m)"
    "get_field d ''migration_compatibility'' = opt_json (migration_compatibility m)"
    "get_field d ''python_requirements_changed'' = JBool (python_requirements_changed m)"
    "get_field d ''requirements_sha256'' = opt_json (requirements_sha256 m)"
    "get_field d ''apt_packages_new'' = str_list (apt_packages_new m)"
    "get_field d ''systemd_units_changed'' = str_list (systemd_units_changed m)"
    "get_field d ''systemd_units_new_required'' = str_list (systemd_units_new_required m)"
    "get_field d ''systemd_units_new_optional'' = str_list (systemd_units_new_optional m)"
    "get_default d ''systemd_units_removed_or_renamed'' (JList []) = str_list (systemd_units_removed_or_renamed m)"
    "get_field d ''collectstatic_required'' = JBool (collectstatic_required m)"
    "get_field d ''services_requiring_restart'' = str_list (services_requiring_restart m)"
    "get_field d ''nginx_changed'' = JBool (nginx_changed m)"
    "get_field d ''runtime_components_changed'' = JBool (runtime_components_changed m)"
    "get_field d ''minimum_supported_release_id'' = opt_json (minimum_supported_release_id m)"
    "get_default d ''manual_bootstrap_required'' (JBool False) = JBool (manual_bootstrap_required m)"
    "get_field d ''protected_runtime'' = runtime_json (protected_runtime m)"
    by (simp_all add: d_def manifest_dict_def get_field_def get_default_def)
  have steps: "validate_version d = Inr (schema_version m, minimum_updater_protocol_version m)"
    "validate_identity d = Inr (release_id m, previous_release_id m, bootstrap_commit m, summary m)"
    "validate_compatibility (opt_json (migration_compatibility m)) (migrations_required m) = Inr (migration_compatibility m)"
    "validate_requirements d = Inr (python_requirements_changed m, requirements_sha256 m)"
    "validate_units d = Inr (systemd_units_changed m, systemd_units_new_required m, systemd_units_new_optional m,
       systemd_units_removed_or_renamed m)"
    "validate_services (str_list (services_requiring_restart m)) = Inr (services_requiring_restart m)"
    "optional_release_id (opt_json (minimum_supported_release_id m)) ''minimum_supported_release_id''
       = Inr (minimum_supported_release_id m)"
    "require_str_list (str_list (migrations_required m)) ''migrations_required'' MIGRATION_REF_PATTERN = Inr (migrations_required m)"
    "require_str_list (str_list (apt_packages_new m)) ''apt_packages_new'' APT_PACKAGE_PATTERN = Inr (apt_packages_new m)"
    using ok unfolding manifest_ok_def Let_def by (simp_all add: f)
  have runtime: "validate_protected_runtime (runtime_json (protected_runtime m)) = Inr (protected_runtime m)"
    using ok by (intro validate_runtime_json) (simp add: manifest_ok_def)
  have bools: "require_bool (JBool b) k = Inr b" for b k by simp
  show ?thesis
    unfolding manifest_json_def validate_manifest_dict_def json.case validate_object_def
    by (simp add: keys steps f runtime bools flip: d_def)
qed

section \<open>The contract\<close>

text \<open>
  Holding a validated manifest is proof of every structural rule: the one schema version, a protocol
  this updater understands, release ids of the required shape, a bootstrap commit exactly on the release
  without a predecessor, a compatibility exactly when there are migrations, a requirements digest exactly
  when they changed, units named once over all four lists, and restarts of the known services only.
\<close>

theorem validated_manifest_well_formed:
  "case validate_manifest_dict v of Inl e \<Rightarrow> True | Inr m \<Rightarrow> manifest_ok m"
  by (cases v) (auto simp: validate_manifest_dict_def validate_object_ok split: sum.split)

text \<open>
  C15. The rules are exactly those: a well-formed manifest written out as a dictionary validates to
  itself, and one that is not well formed never does.
\<close>

theorem manifest_roundtrip:
  "validate_manifest_dict (manifest_json m) = Inr m \<longleftrightarrow> manifest_ok m"
proof
  assume "validate_manifest_dict (manifest_json m) = Inr m"
  then show "manifest_ok m" by (simp add: manifest_json_def validate_manifest_dict_def validate_object_ok)
qed (rule validate_manifest_json)

text \<open>
  Nothing but the declared fields is ever accepted: a manifest with any other key, an executable
  hook or a commit of its own among them, is refused whatever the rest of it says.
\<close>

theorem undeclared_field_refused:
  "\<not> (is_ok (validate_manifest_dict (JObj ((k, v) # d))) \<and> k \<notin> set KNOWN_FIELDS)"
  by (auto simp: validate_manifest_dict_def validate_object_def validate_keys_def)

definition sample_manifest :: release_manifest where
  "sample_manifest = \<lparr>schema_version = 1, release_id = cps ''r0092'', previous_release_id = Some (cps ''r0091''),
     bootstrap_commit = None, minimum_updater_protocol_version = 5, summary = [],
     migrations_required = [cps ''tts.0002_voice''], migration_compatibility = Some (cps ''additive''),
     python_requirements_changed = False, requirements_sha256 = None, apt_packages_new = [],
     systemd_units_changed = [cps ''isadoraair-engine.service''], systemd_units_new_required = [],
     systemd_units_new_optional = [], systemd_units_removed_or_renamed = [], collectstatic_required = False,
     services_requiring_restart = [cps ''isadoraair-engine''], nginx_changed = False,
     runtime_components_changed = False, minimum_supported_release_id = None,
     manual_bootstrap_required = False, protected_runtime = None\<rparr>"

lemma sample_manifest_ok: "manifest_ok sample_manifest"
  by code_simp

text \<open>
  Two gaps. The digest of a protected runtime may carry a final newline, since \<^verbatim>\<open>$\<close> matches before
  one; and a compatibility that is a JSON array raises a TypeError, which is no ManifestError.
\<close>

lemma digest_with_newline_accepted:
  "require_sha256 (JStr (replicate 64 97 @ [10])) = Inr (replicate 64 97 @ [10])"
  by code_simp

lemma release_id_with_newline_accepted: "RELEASE_ID_PATTERN (cps ''r0092'' @ [10])"
  by code_simp

lemma array_compatibility_raises:
  "validate_compatibility (JList []) [cps ''tts.0002_voice''] = Inl UnhashableError"
  by (simp add: validate_compatibility_def)

end
