(* ===== verification/Release_Chain.thy ===== *)
theory Release_Chain
  imports Release_Manifest "HOL-Library.List_Lexorder"
begin

text \<open>
  The release set (\<^verbatim>\<open>updatecenter/release_chain.py\<close>): loading the manifests at a commit, checking that
  they form one line from the bootstrap release, and resolving each release to its commit. Reading
  git objects and parsing JSON text are arguments. A Python dict is an association list in insertion
  order.
\<close>

datatype chain_error = ChainError string | BadManifest manifest_error | RefError

type_synonym manifests = "(utext \<times> release_manifest) list"

record chained_release =
  rel :: release_manifest
  index :: nat

section \<open>Loading\<close>

definition JSON_SUFFIX :: utext where "JSON_SUFFIX = cps ''.json''"

definition ends_with :: "utext \<Rightarrow> utext \<Rightarrow> bool" where
  "ends_with s suffix \<longleftrightarrow> length suffix \<le> length s \<and> drop (length s - length suffix) s = suffix"

text \<open>\<^verbatim>\<open>Path(name).stem\<close> of a name that ends with the suffix.\<close>

definition stem_of :: "utext \<Rightarrow> utext" where
  "stem_of name = (if name = JSON_SUFFIX then name else take (length name - 5) name)"

fun load_loop :: "(utext \<Rightarrow> 'raw option) \<Rightarrow> ('raw \<Rightarrow> json option) \<Rightarrow> utext list \<Rightarrow> manifests \<Rightarrow> chain_error + manifests" where
  "load_loop read parse [] result = Inr result"
| "load_loop read parse (name # names) result =
     (if \<not> ends_with name JSON_SUFFIX then load_loop read parse names result
      else case read name of
             None \<Rightarrow> Inl (ChainError ''could not be read'')
           | Some raw \<Rightarrow>
               (case parse raw of
                  None \<Rightarrow> Inl (ChainError ''could not read/parse as JSON'')
                | Some v \<Rightarrow>
                    (case validate_manifest_dict v of
                       Inl e \<Rightarrow> Inl (BadManifest e)
                     | Inr m \<Rightarrow>
                         if stem_of name \<noteq> release_id m then Inl (ChainError ''file name does not match'')
                         else if release_id m \<in> set (map fst result) then Inl (ChainError ''duplicate release_id'')
                         else load_loop read parse names (result @ [(release_id m, m)]))))"

definition load_manifest_files_at_ref ::
  "(utext \<Rightarrow> utext option) \<Rightarrow> (utext \<Rightarrow> utext list option) \<Rightarrow> (utext \<Rightarrow> utext \<Rightarrow> 'raw option) \<Rightarrow> ('raw \<Rightarrow> json option)
     \<Rightarrow> utext \<Rightarrow> chain_error + manifests" where
  "load_manifest_files_at_ref rev_parse list_files read parse ref =
     (case rev_parse ref of
        None \<Rightarrow> Inl (ChainError ''could not resolve ref'')
      | Some sha \<Rightarrow>
          (case list_files sha of
             None \<Rightarrow> Inl (ChainError ''does not exist at ref'')
           | Some names \<Rightarrow> load_loop (read sha) parse (sort names) []))"

definition load_manifest_files ::
  "utext list option \<Rightarrow> (utext \<Rightarrow> 'raw option) \<Rightarrow> ('raw \<Rightarrow> json option) \<Rightarrow> chain_error + manifests" where
  "load_manifest_files directory read parse =
     (case directory of
        None \<Rightarrow> Inl (ChainError ''releases directory does not exist'')
      | Some names \<Rightarrow> load_loop read parse (sort (filter (\<lambda>n. ends_with n JSON_SUFFIX) names)) [])"

section \<open>One line\<close>

fun successor_loop :: "manifests \<Rightarrow> release_manifest list \<Rightarrow> manifests \<Rightarrow> chain_error + manifests" where
  "successor_loop ms [] succ = Inr succ"
| "successor_loop ms (m # rest) succ =
     (case previous_release_id m of
        None \<Rightarrow> successor_loop ms rest succ
      | Some p \<Rightarrow>
          if p \<notin> set (map fst ms) then Inl (ChainError ''missing predecessor'')
          else if p \<in> set (map fst succ) then Inl (ChainError ''two successors'')
          else successor_loop ms rest (succ @ [(p, m)]))"

text \<open>
  The walk: \<open>ordered\<close> is the reversed list so far, \<open>seen\<close> the ids in it. Every step adds an unseen id
  of a successor, so it ends.
\<close>

function walk :: "manifests \<Rightarrow> nat \<Rightarrow> utext set \<Rightarrow> release_manifest \<Rightarrow> release_manifest list
    \<Rightarrow> chain_error + release_manifest list" where
  "walk succ limit seen current ordered =
     (case map_of succ (release_id current) of
        None \<Rightarrow> Inr (rev ordered)
      | Some nxt \<Rightarrow>
          if release_id nxt \<in> seen then Inl (ChainError ''cycle detected'')
          else if length ordered + 1 > limit then Inl (ChainError ''walk exceeded total release count'')
          else walk succ limit (insert (release_id nxt) seen) nxt (nxt # ordered))"
  by pat_completeness auto
termination
proof (relation "measure (\<lambda>(succ, limit, seen, current, ordered). card (set (map (release_id \<circ> snd) succ) - seen))")
  fix succ :: manifests and limit :: nat and seen and current :: release_manifest and ordered :: "release_manifest list" and nxt
  assume "map_of succ (release_id current) = Some nxt" and new: "release_id nxt \<notin> seen"
  then have "release_id nxt \<in> set (map (release_id \<circ> snd) succ)" by (force dest: map_of_SomeD)
  then have "card (set (map (release_id \<circ> snd) succ) - insert (release_id nxt) seen)
      < card (set (map (release_id \<circ> snd) succ) - seen)"
    using new by (intro psubset_card_mono) auto
  then show "((succ, limit, insert (release_id nxt) seen, nxt, nxt # ordered), succ, limit, seen, current, ordered)
      \<in> measure (\<lambda>(succ, limit, seen, current, ordered). card (set (map (release_id \<circ> snd) succ) - seen))"
    by simp
qed simp

declare walk.simps [simp del]

definition enumerated :: "release_manifest list \<Rightarrow> chained_release list" where
  "enumerated ms = map (\<lambda>i. \<lparr>rel = ms ! i, index = i\<rparr>) [0..<length ms]"

text \<open>The position a release id has in the ordered list (\<^verbatim>\<open>index_by_id\<close>).\<close>

definition index_by_id :: "chained_release list \<Rightarrow> utext \<Rightarrow> nat option" where
  "index_by_id chain rid = map_of (rev (map (\<lambda>c. (release_id (rel c), index c)) chain)) rid"

definition minimum_error :: "chained_release list \<Rightarrow> chained_release \<Rightarrow> chain_error option" where
  "minimum_error chain c =
     (case minimum_supported_release_id (rel c) of
        None \<Rightarrow> None
      | Some minimum \<Rightarrow>
          if is_bootstrap (rel c) then Some (ChainError ''bootstrap release cannot declare minimum_supported_release_id'')
          else (case index_by_id chain minimum of
                  None \<Rightarrow> Some (ChainError ''unknown minimum_supported_release_id'')
                | Some i \<Rightarrow> if i \<ge> index c then Some (ChainError ''must be an earlier release'') else None))"

definition check_minimums :: "chained_release list \<Rightarrow> chain_error + chained_release list" where
  "check_minimums chain =
     (case List.map_filter (minimum_error chain) chain of [] \<Rightarrow> Inr chain | e # es \<Rightarrow> Inl e)"

definition build_chain :: "manifests \<Rightarrow> chain_error + chained_release list" where
  "build_chain ms =
     (if ms = [] then Inl (ChainError ''no release manifests found'')
      else case filter is_bootstrap (map snd ms) of
             [] \<Rightarrow> Inl (ChainError ''no bootstrap release found'')
           | b # bs \<Rightarrow>
               if bs \<noteq> [] then Inl (ChainError ''more than one bootstrap release found'')
               else bindR (successor_loop ms (map snd ms) []) (\<lambda>succ.
                    bindR (walk succ (length ms) {release_id b} b [b]) (\<lambda>ordered.
                    if length ordered \<noteq> length ms then Inl (ChainError ''disconnected chain'')
                    else check_minimums (enumerated ordered))))"

section \<open>Commits\<close>

definition resolve_release_commit :: "(utext \<Rightarrow> utext option) \<Rightarrow> chained_release \<Rightarrow> utext option" where
  "resolve_release_commit introducing c =
     (if is_bootstrap (rel c) then bootstrap_commit (rel c) else introducing (release_id (rel c)))"

fun resolve_loop ::
  "(utext \<Rightarrow> utext option) \<Rightarrow> (utext \<Rightarrow> bool) \<Rightarrow> chained_release list \<Rightarrow> (utext \<times> utext) list
     \<Rightarrow> chain_error + (utext \<times> utext) list" where
  "resolve_loop introducing exists [] resolved = Inr resolved"
| "resolve_loop introducing exists (c # cs) resolved =
     (case resolve_release_commit introducing c of
        None \<Rightarrow> Inl (ChainError ''no unique, immutable, reachable commit identity'')
      | Some commit \<Rightarrow>
          if \<not> exists commit then Inl (ChainError ''no unique, immutable, reachable commit identity'')
          else if commit \<in> set (map snd resolved) then Inl (ChainError ''resolve to the same commit'')
          else resolve_loop introducing exists cs (resolved @ [(release_id (rel c), commit)]))"

definition resolve_unique_release_commits ::
  "(utext \<Rightarrow> utext option) \<Rightarrow> (utext \<Rightarrow> bool) \<Rightarrow> chained_release list \<Rightarrow> chain_error + (utext \<times> utext) list" where
  "resolve_unique_release_commits introducing exists chain = resolve_loop introducing exists chain []"

definition resolve_installed_release ::
  "(utext \<Rightarrow> utext \<Rightarrow> bool option) \<Rightarrow> chained_release list \<Rightarrow> utext \<Rightarrow> (utext \<times> utext) list
     \<Rightarrow> chain_error + chained_release option" where
  "resolve_installed_release is_ancestor chain head commits =
     (if list_ex (\<lambda>c. map_of commits (release_id (rel c)) = None) chain
      then Inl (ChainError ''resolved release commit mapping is incomplete'')
      else Inr (List.find (\<lambda>c. case map_of commits (release_id (rel c)) of None \<Rightarrow> False
                  | Some commit \<Rightarrow> commit = head \<or> is_ancestor commit head = Some True) (rev chain)))"

text \<open>
  \<^verbatim>\<open>git_adapter.find_introducing_commits\<close>: from the two histories git reports for the whole path set, a
  path has an identity when both consist of one and the same commit.
\<close>

definition sha_ok :: "utext \<Rightarrow> bool" where
  "sha_ok s \<longleftrightarrow> length s = 40 \<and> list_all hexdigit s"

definition fromkeys :: "utext list \<Rightarrow> utext list" where
  "fromkeys xs = rev (remdups (rev xs))"

definition find_introducing_commits ::
  "(utext \<Rightarrow> bool) \<Rightarrow> (bool \<Rightarrow> utext list \<Rightarrow> (utext \<Rightarrow> utext list) option) \<Rightarrow> utext list \<Rightarrow> utext \<Rightarrow> utext \<Rightarrow> utext option" where
  "find_introducing_commits exists path_history paths tip path =
     (if \<not> sha_ok tip \<or> \<not> exists tip \<or> path \<notin> set paths then None
      else case (path_history True (fromkeys paths), path_history False (fromkeys paths)) of
             (Some additions, Some history) \<Rightarrow>
               (case additions path of [sha] \<Rightarrow> if history path = [sha] then Some sha else None | _ \<Rightarrow> None)
           | _ \<Rightarrow> None)"

section \<open>The successor map\<close>

lemma enumerated_simps [simp]:
  "length (enumerated ms) = length ms" "map rel (enumerated ms) = ms"
  "i < length ms \<Longrightarrow> enumerated ms ! i = \<lparr>rel = ms ! i, index = i\<rparr>"
  by (simp_all add: enumerated_def comp_def map_nth)

definition links :: "release_manifest list \<Rightarrow> manifests" where
  "links vs = concat (map (\<lambda>m. case previous_release_id m of None \<Rightarrow> [] | Some p \<Rightarrow> [(p, m)]) vs)"

lemma set_links: "(p, m) \<in> set (links vs) \<longleftrightarrow> m \<in> set vs \<and> previous_release_id m = Some p"
  by (induction vs) (auto simp: links_def split: option.splits)

lemma successor_loop_iff:
  assumes "distinct (map fst succ)"
  shows "successor_loop ms vs succ = Inr succ' \<longleftrightarrow>
     succ' = succ @ links vs \<and> set (map fst (links vs)) \<subseteq> set (map fst ms) \<and> distinct (map fst (succ @ links vs))"
  using assms
proof (induction vs arbitrary: succ)
  case Nil
  then show ?case by (auto simp: links_def)
next
  case (Cons m vs)
  show ?case
  proof (cases "previous_release_id m")
    case None
    then show ?thesis using Cons by (simp add: links_def)
  next
    case (Some p)
    show ?thesis
    proof (cases "p \<in> set (map fst ms) \<and> p \<notin> set (map fst succ)")
      case True
      then have "distinct (map fst (succ @ [(p, m)]))" using Cons.prems by simp
      from Cons.IH [OF this] True Some show ?thesis by (simp add: links_def)
    next
      case False
      then show ?thesis using Some by (auto simp: links_def)
    qed
  qed
qed

section \<open>The walk\<close>

definition linked :: "release_manifest list \<Rightarrow> bool" where
  "linked L \<longleftrightarrow> L \<noteq> [] \<and> previous_release_id (hd L) = None
     \<and> (\<forall>i < length L - 1. previous_release_id (L ! Suc i) = Some (release_id (L ! i)))"

lemma linked_nth:
  "linked L \<Longrightarrow> i < length L \<Longrightarrow> previous_release_id (L ! i) = (if i = 0 then None else Some (release_id (L ! (i - 1))))"
  by (cases i) (auto simp: linked_def hd_conv_nth)

lemma linked_snoc:
  assumes "linked L" and "previous_release_id m = Some (release_id (last L))"
  shows "linked (L @ [m])"
  unfolding linked_def
proof (intro conjI allI impI)
  fix i assume i: "i < length (L @ [m]) - 1"
  show "previous_release_id ((L @ [m]) ! Suc i) = Some (release_id ((L @ [m]) ! i))"
  proof (cases "Suc i < length L")
    case True
    then show ?thesis using linked_nth [OF assms(1), of "Suc i"] by (simp add: nth_append)
  next
    case False
    with i have "Suc i = length L" by simp
    moreover have "L \<noteq> []" using assms(1) by (simp add: linked_def)
    then have "last L = L ! i" by (simp add: last_conv_nth flip: \<open>Suc i = length L\<close>)
    ultimately show ?thesis using assms by (simp add: nth_append)
  qed
qed (use assms(1) in \<open>simp_all add: linked_def\<close>)

lemma ids_nth_inj:
  "distinct (map release_id L) \<Longrightarrow> i < length L \<Longrightarrow> j < length L \<Longrightarrow> release_id (L ! i) = release_id (L ! j) \<Longrightarrow> i = j"
  using nth_eq_iff_index_eq [of "map release_id L" i j] by simp

text \<open>No release of a line can have the last one as its predecessor.\<close>

lemma linked_last:
  assumes L: "linked L" "distinct (map release_id L)" and m: "m \<in> set L"
  shows "previous_release_id m \<noteq> Some (release_id (last L))"
proof
  assume prev: "previous_release_id m = Some (release_id (last L))"
  obtain i where i: "i < length L" "m = L ! i" using m by (auto simp: in_set_conv_nth)
  then have "i \<noteq> 0" "release_id (L ! (i - 1)) = release_id (L ! (length L - 1))"
    using prev linked_nth [OF L(1) i(1)] L(1) by (auto simp: linked_def last_conv_nth split: if_splits)
  moreover have "i - 1 < length L" "length L - 1 < length L" using i by auto
  ultimately have "i - 1 = length L - 1" using L(2) i(1) by (metis distinct_conv_nth length_map nth_map)
  then show False using i \<open>i \<noteq> 0\<close> by simp
qed

definition walk_inv :: "release_manifest list \<Rightarrow> release_manifest list \<Rightarrow> bool" where
  "walk_inv vs L \<longleftrightarrow> linked L \<and> distinct (map release_id L) \<and> set L \<subseteq> set vs"

definition successors :: "manifests \<Rightarrow> release_manifest list \<Rightarrow> bool" where
  "successors succ vs \<longleftrightarrow> (\<forall>p m. map_of succ p = Some m \<longrightarrow> m \<in> set vs \<and> previous_release_id m = Some p)
     \<and> (\<forall>m p. m \<in> set vs \<and> previous_release_id m = Some p \<longrightarrow> map_of succ p \<noteq> None)"

lemma successors_links: "successors (links vs) vs"
  using set_links [of _ _ vs] by (auto simp: successors_def map_of_eq_None_iff dest: map_of_SomeD) (metis fst_conv image_eqI)

lemma inj_ids: "distinct (map release_id vs) \<Longrightarrow> m \<in> set vs \<Longrightarrow> n \<in> set vs \<Longrightarrow> release_id m = release_id n \<Longrightarrow> m = n"
  by (auto simp: distinct_map dest: inj_onD)

lemma walk_step:
  assumes inv: "walk_inv vs L" and succ: "successors succ vs" and ids: "distinct (map release_id vs)"
    and nxt: "map_of succ (release_id (last L)) = Some nxt"
  shows "release_id nxt \<notin> set (map release_id L)" and "walk_inv vs (L @ [nxt])" and "Suc (length L) \<le> length vs"
proof -
  have facts: "nxt \<in> set vs" "previous_release_id nxt = Some (release_id (last L))"
    using succ nxt by (auto simp: successors_def)
  have "nxt \<notin> set L" using linked_last [of L nxt] inv facts(2) by (auto simp: walk_inv_def)
  then show new: "release_id nxt \<notin> set (map release_id L)"
    using inj_ids [OF ids facts(1)] inv by (auto simp: walk_inv_def)
  show inv': "walk_inv vs (L @ [nxt])"
    using inv linked_snoc [of L nxt] facts new by (simp add: walk_inv_def)
  have "distinct (map release_id (L @ [nxt]))" using inv' by (simp only: walk_inv_def)
  then have "distinct (L @ [nxt])" by (rule distinct_map [THEN iffD1, THEN conjunct1])
  then have "length (L @ [nxt]) = card (set (L @ [nxt]))" by (simp only: distinct_card)
  also have "\<dots> \<le> card (set vs)" using inv' by (intro card_mono) (simp_all add: walk_inv_def)
  also have "\<dots> \<le> length vs" by (rule card_length)
  finally show "Suc (length L) \<le> length vs" by simp
qed

lemma walk_total:
  assumes "walk_inv vs (rev ordered)" and "current = hd ordered" and "ordered \<noteq> []" and "seen = set (map release_id ordered)"
    and "successors succ vs" and "distinct (map release_id vs)" and "limit = length vs"
  shows "\<exists>L. walk succ limit seen current ordered = Inr L \<and> walk_inv vs L \<and> hd L = last ordered
    \<and> map_of succ (release_id (last L)) = None"
  using assms
proof (induction succ limit seen current ordered rule: walk.induct)
  case (1 succ limit seen current ordered)
  have last: "last (rev ordered) = current" using "1.prems" by (simp add: last_rev)
  show ?case
  proof (cases "map_of succ (release_id current)")
    case None
    then show ?thesis using "1.prems" last by (auto simp: walk.simps [of succ] hd_rev)
  next
    case (Some nxt)
    note step = walk_step [OF "1.prems"(1,5,6), unfolded last, OF Some]
    have new: "release_id nxt \<notin> seen" "\<not> length ordered + 1 > limit"
      using step(1,3) "1.prems"(4,7) by simp_all
    have "\<exists>L. walk succ limit (insert (release_id nxt) seen) nxt (nxt # ordered) = Inr L \<and> walk_inv vs L
        \<and> hd L = last (nxt # ordered) \<and> map_of succ (release_id (last L)) = None"
      using "1.prems" step(2) by (intro "1.IH" [OF Some new]) simp_all
    then show ?thesis using Some new "1.prems"(3) by (simp add: walk.simps [of succ])
  qed
qed

section \<open>Exactly the lines\<close>

definition dict_ok :: "manifests \<Rightarrow> bool" where
  "dict_ok ms \<longleftrightarrow> distinct (map fst ms) \<and> list_all (\<lambda>(k, m). k = release_id m) ms"

definition minimum_ok :: "chained_release list \<Rightarrow> chained_release \<Rightarrow> bool" where
  "minimum_ok chain c \<longleftrightarrow> (case minimum_supported_release_id (rel c) of None \<Rightarrow> True
     | Some k \<Rightarrow> k \<in> set (map (release_id \<circ> rel) (take (index c) chain)))"

definition is_line :: "release_manifest list \<Rightarrow> chained_release list \<Rightarrow> bool" where
  "is_line vs chain \<longleftrightarrow> chain = enumerated (map rel chain) \<and> linked (map rel chain)
     \<and> set (map rel chain) = set vs \<and> length chain = length vs \<and> list_all (minimum_ok chain) chain"

lemma dict_okD:
  assumes "dict_ok ms"
  shows "map fst ms = map release_id (map snd ms)" and "distinct (map release_id (map snd ms))"
proof -
  show "map fst ms = map release_id (map snd ms)" using assms by (auto simp: dict_ok_def list_all_iff)
  then show "distinct (map release_id (map snd ms))" using assms by (simp only: dict_ok_def)
qed

lemma index_by_id_enumerated:
  assumes "distinct (map release_id L)"
  shows "index_by_id (enumerated L) k = Some i \<longleftrightarrow> i < length L \<and> release_id (L ! i) = k"
    and "index_by_id (enumerated L) k = None \<longleftrightarrow> k \<notin> set (map release_id L)"
proof -
  define pairs where "pairs = map (\<lambda>i. (release_id (L ! i), i)) [0..<length L]"
  have lookup: "index_by_id (enumerated L) k = map_of (rev pairs) k"
    by (simp add: index_by_id_def enumerated_def pairs_def comp_def)
  have names: "map fst pairs = map release_id L"
    by (rule nth_equalityI) (simp_all add: pairs_def)
  then have "distinct (map fst (rev pairs))" using assms by (simp only: rev_map [symmetric] distinct_rev)
  then have "index_by_id (enumerated L) k = Some i \<longleftrightarrow> (k, i) \<in> set pairs"
    by (simp only: lookup map_of_eq_Some_iff set_rev)
  then show "index_by_id (enumerated L) k = Some i \<longleftrightarrow> i < length L \<and> release_id (L ! i) = k"
    by (auto simp: pairs_def)
  show "index_by_id (enumerated L) k = None \<longleftrightarrow> k \<notin> set (map release_id L)"
    by (simp only: lookup map_of_eq_None_iff set_rev names [symmetric] set_map)
qed

lemma minimum_error_None:
  assumes "linked L" and "distinct (map release_id L)" and "i < length L"
  shows "minimum_error (enumerated L) (enumerated L ! i) = None \<longleftrightarrow> minimum_ok (enumerated L) (enumerated L ! i)"
proof (cases "minimum_supported_release_id (L ! i)")
  case None
  then show ?thesis using assms(3) by (simp add: minimum_error_def minimum_ok_def)
next
  case (Some k)
  have boot: "is_bootstrap (L ! i) \<longleftrightarrow> i = 0" using linked_nth [OF assms(1,3)] by (simp add: is_bootstrap_def)
  have "take i (enumerated L) = map (\<lambda>i. \<lparr>rel = L ! i, index = i\<rparr>) [0..<i]"
    using assms(3) by (simp add: enumerated_def take_map)
  then have ok: "minimum_ok (enumerated L) (enumerated L ! i) \<longleftrightarrow> (\<exists>j < i. release_id (L ! j) = k)"
    using Some assms(3) by (auto simp: minimum_ok_def image_iff)
  show ?thesis
  proof (cases "index_by_id (enumerated L) k")
    case None
    then have "k \<notin> set (map release_id L)" by (rule index_by_id_enumerated(2) [OF assms(2), THEN iffD1])
    moreover have "release_id (L ! j) \<in> set (map release_id L)" if "j < i" for j
      using that assms(3) by simp
    ultimately have "\<not> (\<exists>j < i. release_id (L ! j) = k)" by blast
    then show ?thesis using ok Some None assms(3) by (simp add: minimum_error_def)
  next
    case (Some j)
    then have j: "j < length L" "release_id (L ! j) = k" using index_by_id_enumerated(1) [OF assms(2)] by auto
    have "(\<exists>j < i. release_id (L ! j) = k) \<longleftrightarrow> j < i"
    proof
      assume "\<exists>j' < i. release_id (L ! j') = k"
      then obtain j' where "j' < i" "release_id (L ! j') = release_id (L ! j)" using j by auto
      then show "j < i" using ids_nth_inj [OF assms(2), of j' j] j(1) assms(3) by simp
    qed (use j in blast)
    then show ?thesis
      using ok boot Some \<open>minimum_supported_release_id (L ! i) = Some k\<close> assms(3)
      by (auto simp: minimum_error_def)
  qed
qed

lemma check_minimums_iff:
  assumes "linked L" and "distinct (map release_id L)"
  shows "check_minimums (enumerated L) = Inr chain \<longleftrightarrow> chain = enumerated L \<and> list_all (minimum_ok (enumerated L)) (enumerated L)"
proof -
  have "List.map_filter f xs = [] \<longleftrightarrow> list_all (\<lambda>x. f x = None) xs" for f :: "chained_release \<Rightarrow> chain_error option" and xs
    by (induction xs) (auto simp: List.map_filter_simps split: option.split)
  moreover have "list_all (\<lambda>x. minimum_error (enumerated L) x = None) (enumerated L)
      \<longleftrightarrow> list_all (minimum_ok (enumerated L)) (enumerated L)"
    using minimum_error_None [OF assms] by (simp add: list_all_length)
  ultimately have "List.map_filter (minimum_error (enumerated L)) (enumerated L) = []
      \<longleftrightarrow> list_all (minimum_ok (enumerated L)) (enumerated L)" by (simp only:)
  then show ?thesis
    by (cases "List.map_filter (minimum_error (enumerated L)) (enumerated L)") (auto simp: check_minimums_def)
qed

text \<open>A walk that starts where a line starts follows it to its end.\<close>

lemma walk_is_line:
  assumes line: "linked L" "distinct (map release_id L)" "set L = set vs" and hd: "hd L = b"
    and ids: "distinct (map release_id vs)" and succ: "successors succ vs"
    and walk: "walk_inv vs W" "hd W = b" "map_of succ (release_id (last W)) = None"
  shows "W = L"
proof -
  have W: "linked W" "distinct (map release_id W)" "set W \<subseteq> set L" using walk(1) line(3) by (auto simp: walk_inv_def)
  have agree: "i < length W \<Longrightarrow> i < length L \<and> W ! i = L ! i" for i
  proof (induction i)
    case 0
    then show ?case using W(1) line(1) hd walk(2) by (auto simp: linked_def hd_conv_nth)
  next
    case (Suc i)
    then have IH: "i < length L" "W ! i = L ! i" by auto
    have "W ! Suc i \<in> set L" using W(3) Suc.prems by auto
    then obtain j where j: "j < length L" "W ! Suc i = L ! j" by (auto simp: in_set_conv_nth)
    then have "j \<noteq> 0" "release_id (L ! (j - 1)) = release_id (L ! i)"
      using linked_nth [OF W(1) Suc.prems] linked_nth [OF line(1) j(1)] IH by (auto split: if_splits)
    then have "j - 1 = i" using ids_nth_inj [OF line(2), of "j - 1" i] j(1) IH(1) by simp
    then show ?case using j \<open>j \<noteq> 0\<close> by auto
  qed
  have "length L \<le> length W"
  proof (rule ccontr)
    assume "\<not> length L \<le> length W"
    then have lt: "length W < length L" by simp
    have ne: "W \<noteq> []" using W(1) by (simp add: linked_def)
    have "last W = L ! (length W - 1)" using agree [of "length W - 1"] ne by (simp add: last_conv_nth)
    then have "previous_release_id (L ! length W) = Some (release_id (last W))"
      using linked_nth [OF line(1) lt] ne by simp
    moreover have "L ! length W \<in> set vs" using nth_mem [OF lt] by (simp only: line(3))
    ultimately have "map_of succ (release_id (last W)) \<noteq> None" using succ [unfolded successors_def, THEN conjunct2] by blast
    then show False using walk(3) by simp
  qed
  moreover have "length W \<le> length L" using agree [of "length W - 1"] by (cases "length W") auto
  ultimately show ?thesis using agree by (intro nth_equalityI) auto
qed

lemma singleton_list: "distinct xs \<Longrightarrow> set xs = {x} \<Longrightarrow> xs = [x]"
  by (cases xs; cases "tl xs") auto

lemma distinct_releases: "distinct (map release_id vs) \<Longrightarrow> distinct vs"
  by (simp add: distinct_map)

lemma filter_bootstrap_line:
  assumes "linked L" "distinct (map release_id L)" "set L = set vs" "distinct (map release_id vs)"
  shows "filter is_bootstrap vs = [hd L]"
proof -
  have L: "L \<noteq> []" using assms(1) by (simp add: linked_def)
  have boot: "is_bootstrap m \<longleftrightarrow> m = hd L" if "m \<in> set L" for m
  proof -
    obtain i where i: "i < length L" "m = L ! i" using \<open>m \<in> set L\<close> by (auto simp: in_set_conv_nth)
    have "m = hd L \<longleftrightarrow> i = 0"
      using ids_nth_inj [OF assms(2) i(1), of 0] i L by (auto simp: hd_conv_nth)
    then show ?thesis using linked_nth [OF assms(1) i(1)] i(2) by (simp add: is_bootstrap_def)
  qed
  have "hd L \<in> set L" using L by simp
  then have "set (filter is_bootstrap vs) = {hd L}" using boot unfolding set_filter assms(3) by blast
  moreover have "distinct (filter is_bootstrap vs)" using distinct_releases [OF assms(4)] by simp
  ultimately show ?thesis by (intro singleton_list)
qed

lemma successor_loop_line:
  assumes "linked L" "distinct (map release_id L)" "set L = set vs" "distinct (map release_id vs)"
    and "set (map fst ms) = set (map release_id vs)"
  shows "successor_loop ms vs [] = Inr (links vs)"
proof -
  have prev: "\<exists>i. Suc i < length L \<and> m = L ! Suc i \<and> p = release_id (L ! i)"
    if "m \<in> set vs" "previous_release_id m = Some p" for m p
  proof -
    have "m \<in> set L" using that(1) by (simp only: assms(3))
    then obtain i where "i < length L" "m = L ! i" by (auto simp: in_set_conv_nth)
    then show ?thesis using linked_nth [OF assms(1), of i] that(2) by (cases i) auto
  qed
  have "set (map fst (links vs)) \<subseteq> set (map fst ms)"
  proof
    fix p assume "p \<in> set (map fst (links vs))"
    then obtain m where "m \<in> set vs" "previous_release_id m = Some p" by (auto simp: set_links)
    then obtain i where i: "Suc i < length L" "p = release_id (L ! i)" using prev by blast
    then have "L ! i \<in> set vs" unfolding assms(3) [symmetric] by (intro nth_mem) simp
    then show "p \<in> set (map fst ms)" unfolding assms(5) i(2) by simp
  qed
  moreover have "distinct (map fst (links us))" if "set us \<subseteq> set vs" "distinct us" for us
    using that
  proof (induction us)
    case (Cons m us)
    show ?case
    proof (cases "previous_release_id m")
      case (Some p)
      have "p \<notin> set (map fst (links us))"
      proof
        assume "p \<in> set (map fst (links us))"
        then obtain n where n: "n \<in> set us" "previous_release_id n = Some p" by (auto simp: set_links)
        have "m \<in> set vs" "n \<in> set vs" using n(1) Cons.prems(1) by auto
        obtain i where "Suc i < length L" "m = L ! Suc i" "p = release_id (L ! i)"
          using prev [OF \<open>m \<in> set vs\<close> Some] by blast
        moreover obtain j where "Suc j < length L" "n = L ! Suc j" "p = release_id (L ! j)"
          using prev [OF \<open>n \<in> set vs\<close> n(2)] by blast
        ultimately have "m = n" using ids_nth_inj [OF assms(2), of i j] by simp
        then show False using n(1) Cons.prems(2) by simp
      qed
      then show ?thesis using Cons Some by (simp add: links_def)
    qed (use Cons in \<open>simp add: links_def\<close>)
  qed (simp add: links_def)
  moreover have "distinct vs" by (rule distinct_releases [OF assms(4)])
  ultimately show ?thesis by (simp add: successor_loop_iff)
qed

lemma build_chain_walks:
  assumes "dict_ok ms" and "filter is_bootstrap (map snd ms) = [b]"
    and "successor_loop ms (map snd ms) [] = Inr succ"
  obtains W where "walk succ (length ms) {release_id b} b [b] = Inr W" and "walk_inv (map snd ms) W" and "hd W = b"
    and "map_of succ (release_id (last W)) = None" and "successors succ (map snd ms)"
proof -
  have succ: "succ = links (map snd ms)" using assms(3) by (simp add: successor_loop_iff)
  have "b \<in> set (filter is_bootstrap (map snd ms))" using assms(2) by simp
  then have b: "b \<in> set (map snd ms)" "previous_release_id b = None" by (auto simp: is_bootstrap_def)
  have "\<exists>L. walk succ (length ms) {release_id b} b [b] = Inr L \<and> walk_inv (map snd ms) L \<and> hd L = last [b]
    \<and> map_of succ (release_id (last L)) = None"
    using b successors_links dict_okD(2) [OF assms(1)] unfolding succ
    by (intro walk_total) (simp_all add: walk_inv_def linked_def)
  then show thesis using that successors_links succ by auto
qed

lemma build_chain_line:
  assumes ok: "dict_ok ms" and chain: "build_chain ms = Inr chain"
  shows "is_line (map snd ms) chain"
proof -
  obtain b where b: "filter is_bootstrap (map snd ms) = [b]"
    using chain by (auto simp: build_chain_def split: list.splits if_splits)
  obtain succ where succ: "successor_loop ms (map snd ms) [] = Inr succ"
    using chain b by (auto simp: build_chain_def elim!: bindR_InrE split: if_splits)
  obtain W where W: "walk succ (length ms) {release_id b} b [b] = Inr W" "walk_inv (map snd ms) W"
    by (rule build_chain_walks [OF ok b succ])
  have len: "length W = length ms" and check: "check_minimums (enumerated W) = Inr chain"
    using chain b succ W(1) by (auto simp: build_chain_def split: if_splits)
  have line: "linked W" "distinct (map release_id W)" "set W \<subseteq> set (map snd ms)" using W(2) by (simp_all add: walk_inv_def)
  then have "distinct W" by (intro distinct_releases)
  then have "card (set W) = length ms" using len distinct_card by metis
  moreover have "card (set (map snd ms)) \<le> length ms" using card_length [of "map snd ms"] by simp
  ultimately have "set W = set (map snd ms)" using line(3) by (intro card_seteq) auto
  moreover have "chain = enumerated W" "list_all (minimum_ok chain) chain"
    using check check_minimums_iff [OF line(1,2)] by auto
  ultimately show ?thesis using line len by (simp add: is_line_def)
qed

lemma line_distinct:
  assumes "dict_ok ms" and "is_line (map snd ms) chain"
  shows "distinct (map release_id (map rel chain))"
proof -
  let ?L = "map rel chain" and ?vs = "map snd ms"
  have ids: "distinct (map release_id ?vs)" by (rule dict_okD(2) [OF assms(1)])
  have L: "set ?L = set ?vs" "length ?L = length ?vs" using assms(2) by (simp_all add: is_line_def)
  have "distinct ?vs" by (rule distinct_releases [OF ids])
  then have "card (set ?L) = length ?L" by (simp only: L distinct_card)
  then have "distinct ?L" by (rule card_distinct)
  moreover have "inj_on release_id (set ?L)" using ids unfolding L(1) distinct_map by blast
  ultimately show ?thesis by (simp only: distinct_map simp_thms)
qed

lemma line_build_chain:
  assumes ok: "dict_ok ms" and line: "is_line (map snd ms) chain"
  shows "build_chain ms = Inr chain"
proof -
  let ?L = "map rel chain" and ?vs = "map snd ms"
  have ids: "distinct (map release_id ?vs)" by (rule dict_okD(2) [OF ok])
  have L: "chain = enumerated ?L" "linked ?L" "set ?L = set ?vs" "length ?L = length ?vs" "list_all (minimum_ok chain) chain"
    using line by (simp_all add: is_line_def)
  have dL: "distinct (map release_id ?L)" by (rule line_distinct [OF ok line])
  have ne: "ms \<noteq> []" using L(2,4) by (auto simp: linked_def)
  have b: "filter is_bootstrap ?vs = [hd ?L]" by (rule filter_bootstrap_line [OF L(2) dL L(3) ids])
  have keys: "set (map fst ms) = set (map release_id ?vs)" by (simp only: dict_okD(1) [OF ok])
  have succ: "successor_loop ms ?vs [] = Inr (links ?vs)" by (rule successor_loop_line [OF L(2) dL L(3) ids keys])
  obtain W where W: "walk (links ?vs) (length ms) {release_id (hd ?L)} (hd ?L) [hd ?L] = Inr W" "walk_inv ?vs W"
    "hd W = hd ?L" "map_of (links ?vs) (release_id (last W)) = None" "successors (links ?vs) ?vs"
    by (rule build_chain_walks [OF ok b succ])
  have "W = ?L" by (rule walk_is_line [OF L(2) dL L(3) refl ids W(5,2,3,4)])
  moreover have "check_minimums (enumerated ?L) = Inr chain"
    unfolding check_minimums_iff [OF L(2) dL] using L(1,5) by (simp flip: L(1))
  ultimately show ?thesis using ne b succ W(1) L(4) by (simp add: build_chain_def)
qed

text \<open>
  C13. A release set is accepted exactly when its manifests can be laid out in one line: the first has no
  predecessor, each further one names the one before it, all of them are in it once, and every minimum
  supported release comes earlier. The result is that line, numbered from zero.
\<close>

theorem build_chain_exact:
  assumes "dict_ok ms"
  shows "build_chain ms = Inr chain \<longleftrightarrow> is_line (map snd ms) chain"
  using build_chain_line [OF assms] line_build_chain [OF assms] by blast

definition sample_release :: "string \<Rightarrow> string option \<Rightarrow> string option \<Rightarrow> release_manifest" where
  "sample_release rid previous minimum = sample_manifest\<lparr>release_id := cps rid, previous_release_id := map_option cps previous,
     minimum_supported_release_id := map_option cps minimum\<rparr>"

definition sample_set :: manifests where
  "sample_set = map (\<lambda>m. (release_id m, m)) [sample_release ''r0003'' (Some ''r0002'') (Some ''r0001''),
     sample_release ''r0001'' None None, sample_release ''r0002'' (Some ''r0001'') None]"

theorem build_chain_exact_witness:
  "is_line (map snd sample_set) (enumerated [sample_release ''r0001'' None None,
     sample_release ''r0002'' (Some ''r0001'') None, sample_release ''r0003'' (Some ''r0002'') (Some ''r0001'')])"
  by (rule build_chain_exact [THEN iffD1]) code_simp+

lemma successor_loop_errors:
  "successor_loop ms vs succ = Inl e \<Longrightarrow> e \<in> {ChainError ''missing predecessor'', ChainError ''two successors''}"
  by (induction vs arbitrary: succ) (auto split: option.splits if_splits)

lemma check_minimums_errors:
  assumes "check_minimums chain = Inl e"
  shows "e \<in> {ChainError ''bootstrap release cannot declare minimum_supported_release_id'',
    ChainError ''unknown minimum_supported_release_id'', ChainError ''must be an earlier release''}"
proof -
  have "e \<in> set (List.map_filter (minimum_error chain) chain)"
    using assms by (auto simp: check_minimums_def split: list.splits)
  then obtain c where "minimum_error chain c = Some e" by (auto simp: List.map_filter_def)
  then show ?thesis by (auto simp: minimum_error_def split: option.splits if_splits)
qed

text \<open>
  C14. The walk always runs off the end of a line: neither of its two cycle guards ever fires. A cycle
  among the releases is always reported earlier or as a disconnected chain.
\<close>

theorem cycle_guards_never_fire:
  assumes "dict_ok ms"
  shows "build_chain ms \<noteq> Inl (ChainError ''cycle detected'')
    \<and> build_chain ms \<noteq> Inl (ChainError ''walk exceeded total release count'')"
proof (cases "\<exists>b succ. filter is_bootstrap (map snd ms) = [b] \<and> successor_loop ms (map snd ms) [] = Inr succ")
  case True
  then obtain b succ where b: "filter is_bootstrap (map snd ms) = [b]" and succ: "successor_loop ms (map snd ms) [] = Inr succ"
    by blast
  obtain W where "walk succ (length ms) {release_id b} b [b] = Inr W" by (rule build_chain_walks [OF assms b succ])
  then have "build_chain ms = (if ms = [] then Inl (ChainError ''no release manifests found'')
      else if length W \<noteq> length ms then Inl (ChainError ''disconnected chain'') else check_minimums (enumerated W))"
    using b succ by (simp add: build_chain_def)
  then show ?thesis using check_minimums_errors [of "enumerated W"] by auto
next
  case False
  show ?thesis
  proof (cases "filter is_bootstrap (map snd ms)")
    case (Cons b bs)
    then show ?thesis
      using False successor_loop_errors [of ms "map snd ms" "[]"]
      by (cases "successor_loop ms (map snd ms) []") (auto simp: build_chain_def)
  qed (simp add: build_chain_def)
qed

theorem cycle_guards_never_fire_witness:
  "build_chain [(cps ''r0001'', sample_release ''r0001'' None None), (cps ''r0002'', sample_release ''r0002'' (Some ''r0003'') None),
     (cps ''r0003'', sample_release ''r0003'' (Some ''r0002'') None)] \<noteq> Inl (ChainError ''cycle detected'')"
  by (rule cycle_guards_never_fire [THEN conjunct1]) code_simp

text \<open>A cycle beside the line is a disconnected chain, although the guard for cycles exists.\<close>

lemma cycle_reported_as_disconnected:
  "build_chain [(cps ''r0001'', sample_release ''r0001'' None None), (cps ''r0002'', sample_release ''r0002'' (Some ''r0003'') None),
     (cps ''r0003'', sample_release ''r0003'' (Some ''r0002'') None)] = Inl (ChainError ''disconnected chain'')"
  by code_simp

end
