(* ===== verification/Release_Planner.thy ===== *)
theory Release_Planner
  imports Release_Chain Air_Text "HOL-Library.Product_Lexorder"
begin

text \<open>
  Cross-checking the manifests against the repository (\<^verbatim>\<open>updatecenter/cross_check.py\<close>), the state of
  the database schema (\<^verbatim>\<open>schema_health.py\<close>) and the planner (\<^verbatim>\<open>planner.py\<close>). What the git adapter answers
  is a record of functions, \<open>git_view\<close>; Django's migration loader and SHA-256 are arguments. The plan's
  texts and its fingerprint are left out.
\<close>

section \<open>The repository and the database as the planner sees them\<close>

record git_view =
  worktree_dirty :: "bool option"
  detached_head :: "bool option"
  origin_url :: "utext option"
  current_branch :: "utext option"
  rev_parse :: "utext \<Rightarrow> utext option"
  ahead_behind :: "utext \<Rightarrow> utext \<Rightarrow> (int \<times> int) option"
  commit_exists :: "utext \<Rightarrow> bool"
  is_ancestor :: "utext \<Rightarrow> utext \<Rightarrow> bool option"
  list_files :: "utext \<Rightarrow> utext list option"
  read_bytes :: "utext \<Rightarrow> utext \<Rightarrow> nat list option"
  path_exists :: "utext \<Rightarrow> utext \<Rightarrow> bool option"
  changed_paths :: "utext \<Rightarrow> utext \<Rightarrow> utext \<Rightarrow> utext list option"
  introducing_commits :: "utext list \<Rightarrow> utext \<Rightarrow> utext \<Rightarrow> utext option"

text \<open>Django's migration machinery: the plan against the loaded source, its graph, and what is applied.\<close>

record migration_view =
  migration_plan_of :: "(utext \<times> bool) list option"
  graph_nodes :: "(utext \<times> utext) list"
  forwards_plan :: "utext \<times> utext \<Rightarrow> (utext \<times> utext) list"
  applied_migrations :: "(utext \<times> utext) list"

record host_view =
  git :: git_view
  django :: migration_view
  parse_json :: "nat list \<Rightarrow> json option"
  sha256 :: "nat list \<Rightarrow> utext"
  app_configs :: "(utext \<times> utext option) list"

datatype schema_status = SCHEMA_CURRENT | UNAPPLIED_MIGRATIONS_DETECTED | MIGRATION_STATE_INDETERMINATE

record schema_health =
  schema_status :: schema_status
  pending_migrations :: "utext list"

definition check_schema_health :: "migration_view \<Rightarrow> schema_health" where
  "check_schema_health dj =
     (case migration_plan_of dj of
        None \<Rightarrow> \<lparr>schema_status = MIGRATION_STATE_INDETERMINATE, pending_migrations = []\<rparr>
      | Some entries \<Rightarrow>
          let pending = map fst (filter (\<lambda>(m, backwards). \<not> backwards) entries) in
          if pending = [] then \<lparr>schema_status = SCHEMA_CURRENT, pending_migrations = []\<rparr>
          else \<lparr>schema_status = UNAPPLIED_MIGRATIONS_DETECTED, pending_migrations = pending\<rparr>)"

section \<open>Cross-checks\<close>

datatype finding_field = F_migrations_required | F_python_requirements_changed | F_requirements_sha256
  | F_systemd_units | F_systemd_units_removed_or_renamed | F_manual_bootstrap_required

text \<open>
  \<^verbatim>\<open>planner.app_label_paths_for_checkout\<close>: of the installed apps, each with its label and its directory
  in the checkout (none when it lives outside), those whose directory is not their label.
\<close>

definition app_label_paths_for_checkout :: "(utext \<times> utext option) list \<Rightarrow> (utext \<times> utext) list" where
  "app_label_paths_for_checkout configs =
     concat (map (\<lambda>(label, dir). case dir of None \<Rightarrow> [] | Some d \<Rightarrow> if d \<noteq> label then [(label, d)] else []) configs)"

text \<open>A finding: the field it is about, and the text it is about.\<close>

type_synonym finding = "finding_field \<times> utext"

definition partition_dot :: "utext \<Rightarrow> utext \<times> utext" where
  "partition_dot ref = (takeWhile (\<lambda>c. c \<noteq> 46) ref, tl (dropWhile (\<lambda>c. c \<noteq> 46) ref))"

definition migration_ref_to_path :: "utext \<Rightarrow> (utext \<times> utext) list \<Rightarrow> utext" where
  "migration_ref_to_path ref paths =
     (let (app, name) = partition_dot ref;
          dir = (case map_of paths app of None \<Rightarrow> app | Some d \<Rightarrow> d)
      in dir @ cps ''/migrations/'' @ name @ cps ''.py'')"

definition check_migrations :: "git_view \<Rightarrow> release_manifest \<Rightarrow> utext \<Rightarrow> (utext \<times> utext) list \<Rightarrow> finding list" where
  "check_migrations g m target paths =
     map (Pair F_migrations_required)
       (filter (\<lambda>ref. path_exists g target (migration_ref_to_path ref paths) \<noteq> Some True) (migrations_required m))"

definition check_requirements :: "git_view \<Rightarrow> (nat list \<Rightarrow> utext) \<Rightarrow> release_manifest \<Rightarrow> utext \<Rightarrow> finding list" where
  "check_requirements g hash m target =
     (if \<not> python_requirements_changed m then []
      else case read_bytes g target (cps ''requirements.txt'') of
             None \<Rightarrow> [(F_python_requirements_changed, [])]
           | Some content \<Rightarrow>
               if requirements_sha256 m \<noteq> None \<and> Some (hash content) \<noteq> requirements_sha256 m
               then [(F_requirements_sha256, hash content)] else [])"

definition check_units :: "git_view \<Rightarrow> release_manifest \<Rightarrow> utext \<Rightarrow> finding list" where
  "check_units g m target =
     map (Pair F_systemd_units)
       (filter (\<lambda>u. path_exists g target (cps ''deploy/'' @ u) \<noteq> Some True)
         (systemd_units_changed m @ systemd_units_new_required m @ systemd_units_new_optional m))
   @ map (Pair F_systemd_units_removed_or_renamed)
       (filter (\<lambda>u. path_exists g target (cps ''deploy/'' @ u) = Some True) (systemd_units_removed_or_renamed m))"

text \<open>\<^verbatim>\<open>Path(path).name\<close>, and the migration name of \<^verbatim>\<open>[0-9]{4}_[a-z0-9_]+\.py\<close>.\<close>

definition file_name :: "utext \<Rightarrow> utext" where
  "file_name path = last (split_on 47 path)"

definition migration_file :: "utext \<Rightarrow> utext option" where
  "migration_file f =
     (let name = take (length f - 3) f in
      if 3 \<le> length f \<and> drop (length f - 3) f = cps ''.py'' \<and> 6 \<le> length name \<and> list_all digit (take 4 name)
         \<and> name ! 4 = 95 \<and> list_all slug_char (drop 5 name)
      then Some name else None)"

definition undeclared_migration ::
  "git_view \<Rightarrow> release_manifest \<Rightarrow> utext \<Rightarrow> utext \<Rightarrow> utext \<Rightarrow> utext \<Rightarrow> finding list" where
  "undeclared_migration g m previous target app path =
     (case migration_file (file_name path) of
        None \<Rightarrow> []
      | Some name \<Rightarrow>
          if path_exists g previous path = Some False \<and> path_exists g target path = Some True
             \<and> app @ [46] @ name \<notin> set (migrations_required m)
          then [(F_migrations_required, path)] else [])"

text \<open>\<^verbatim>\<open>int(rel.release_id[1:])\<close>; the comparison with the first release the rule applies to.\<close>

definition MIGRATION_COMPLETENESS_START :: int where "MIGRATION_COMPLETENESS_START = 92"

definition check_new_migrations_declared ::
  "git_view \<Rightarrow> release_manifest \<Rightarrow> utext \<Rightarrow> utext \<Rightarrow> (utext \<times> utext) list \<Rightarrow> finding list" where
  "check_new_migrations_declared g m previous target paths =
     (case int_base10 (drop 1 (release_id m)) of
        Inl e \<Rightarrow> []
      | Inr n \<Rightarrow>
          if n < MIGRATION_COMPLETENESS_START then []
          else concat (map (\<lambda>(app, dir).
                 case changed_paths g previous target (dir @ cps ''/migrations'') of
                   None \<Rightarrow> [(F_migrations_required, dir)]
                 | Some changed \<Rightarrow> concat (map (undeclared_migration g m previous target app) changed))
               (sort paths)))"

definition PRE_GUARD_RELEASES :: "utext list" where
  "PRE_GUARD_RELEASES = map cps [''r0001'', ''r0002'', ''r0003'', ''r0004'', ''r0005'']"

definition check_protected_runtime_intent ::
  "git_view \<Rightarrow> release_manifest \<Rightarrow> utext \<Rightarrow> utext \<Rightarrow> finding list" where
  "check_protected_runtime_intent g m previous target =
     (if release_id m \<in> set PRE_GUARD_RELEASES then []
      else case changed_paths g previous target (cps ''deploy/updater_runtime'') of
             None \<Rightarrow> [(F_manual_bootstrap_required, [])]
           | Some paths \<Rightarrow>
               if paths \<noteq> [] \<and> \<not> (manual_bootstrap_required m \<or> protected_runtime m \<noteq> None)
               then [(F_manual_bootstrap_required, [])] else [])"

definition cross_check_release ::
  "host_view \<Rightarrow> release_manifest \<Rightarrow> utext \<Rightarrow> utext option \<Rightarrow> finding list py" where
  "cross_check_release h m target previous =
     (let g = git h; paths = app_label_paths_for_checkout (app_configs h) in
      if \<not> commit_exists g target then Inl ValueError
      else Inr (check_migrations g m target paths @ check_requirements g (sha256 h) m target @ check_units g m target
        @ (case previous of
             None \<Rightarrow> []
           | Some p \<Rightarrow> check_new_migrations_declared g m p target paths @ check_protected_runtime_intent g m p target)))"

section \<open>The plan\<close>

datatype safety_status = READY_TO_PLAN | UP_TO_DATE | DIRTY_CHECKOUT | DETACHED_HEAD | NO_ORIGIN_REMOTE
  | LOCAL_COMMITS_NOT_ON_ORIGIN | DIVERGED_FROM_ORIGIN | INVALID_RELEASE_MANIFEST | INSTALLED_RELEASE_UNKNOWN
  | TARGET_COMMIT_UNKNOWN | INSTALLED_RELEASE_TOO_OLD | CROSS_CHECK_FAILED | MANUAL_SYSTEM_PACKAGE_ACTION_REQUIRED
  | MIGRATION_MANUAL_GATE_REQUIRED | MANUAL_BOOTSTRAP_REQUIRED | SCHEMA_DRIFT_DETECTED
  | CHECKOUT_NOT_AT_RELEASE_COMMIT

definition RESTART_ORDER :: "utext list" where
  "RESTART_ORDER = map cps [''isadoraair-gunicorn'', ''isadoraair-engine'', ''isadoraair-monitoring'',
     ''isadoraair-spoken-render-worker'', ''isadoraair-active-message-worker'', ''isadoraair-encoders'',
     ''isadoraair-rbds'']"

record migration_summary =
  explicitly_required :: "utext list"
  dependency_preview :: "utext list"
  unknown_to_current_graph :: "utext list"
  already_applied :: "utext list"
  expected_unapplied :: "utext list"
  compatibility :: "utext option"

record plan =
  safety_status :: safety_status
  installed_release_id :: "utext option"
  installed_commit :: "utext option"
  target_release_id :: "utext option"
  target_commit :: "utext option"
  releases_in_plan :: "utext list"
  plan_migrations :: "migration_summary option"
  requirements_change :: bool
  apt_new :: "utext list"
  units_changed :: "utext list"
  units_new_required :: "utext list"
  units_new_optional :: "utext list"
  units_removed :: "utext list"
  collectstatic :: bool
  restarts :: "utext list"
  nginx_change :: bool
  runtime_components_change :: bool
  minimum_protocol :: int
  bootstrap_required :: bool
  cross_check_findings :: "finding list"
  plan_schema :: schema_health

definition safe :: "safety_status \<Rightarrow> schema_health \<Rightarrow> plan" where
  "safe st health = \<lparr>safety_status = st, installed_release_id = None, installed_commit = None,
     target_release_id = None, target_commit = None, releases_in_plan = [], plan_migrations = None,
     requirements_change = False, apt_new = [], units_changed = [], units_new_required = [],
     units_new_optional = [], units_removed = [], collectstatic = False, restarts = [], nginx_change = False,
     runtime_components_change = False, minimum_protocol = UPDATER_PROTOCOL_VERSION, bootstrap_required = False,
     cross_check_findings = [], plan_schema = health\<rparr>"

text \<open>Collecting the lists of the releases in order, each entry once.\<close>

definition append_new :: "'a list \<Rightarrow> 'a list \<Rightarrow> 'a list" where
  "append_new acc xs = fold (\<lambda>x acc. if x \<in> set acc then acc else acc @ [x]) xs acc"

definition collect :: "(release_manifest \<Rightarrow> utext list) \<Rightarrow> chained_release list \<Rightarrow> utext list" where
  "collect f cs = fold (\<lambda>c acc. append_new acc (f (rel c))) cs []"

definition overall_compatibility :: "chained_release list \<Rightarrow> utext option" where
  "overall_compatibility cs =
     (let seen = map (\<lambda>c. migration_compatibility (rel c)) (filter (\<lambda>c. migrations_required (rel c) \<noteq> []) cs) in
      if seen = [] then None
      else if Some (cps ''destructive'') \<in> set seen then Some (cps ''destructive'') else Some (cps ''additive''))"

definition ref_of :: "utext \<times> utext \<Rightarrow> utext" where
  "ref_of k = fst k @ [46] @ snd k"

definition preview_current_graph_migrations ::
  "migration_view \<Rightarrow> utext list \<Rightarrow> utext list \<times> utext list \<times> utext list" where
  "preview_current_graph_migrations dj refs =
     (let keys = map partition_dot refs;
          known = filter (\<lambda>k. k \<in> set (graph_nodes dj)) keys;
          closure = append_new [] (concat (map (forwards_plan dj) known))
      in (map ref_of keys, map ref_of (filter (\<lambda>k. k \<notin> set keys) closure),
          map ref_of (filter (\<lambda>k. k \<notin> set (graph_nodes dj)) keys)))"

definition migration_summary_for :: "migration_view \<Rightarrow> chained_release list \<Rightarrow> migration_summary option" where
  "migration_summary_for dj cs =
     (let refs = collect migrations_required cs in
      if refs = [] then None
      else let (explicit, extra, unknown) = preview_current_graph_migrations dj refs;
               all_refs = explicit @ extra;
               unapplied = filter (\<lambda>r. partition_dot r \<notin> set (applied_migrations dj)) all_refs
           in Some \<lparr>explicitly_required = explicit, dependency_preview = extra, unknown_to_current_graph = unknown,
                already_applied = filter (\<lambda>r. r \<notin> set unapplied) all_refs, expected_unapplied = unapplied,
                compatibility = overall_compatibility cs\<rparr>)"

definition ordered_restart :: "chained_release list \<Rightarrow> utext list" where
  "ordered_restart cs =
     filter (\<lambda>s. list_ex (\<lambda>c. s \<in> set (services_requiring_restart (rel c))) cs) RESTART_ORDER"

definition final_status :: "bool \<Rightarrow> utext list \<Rightarrow> migration_summary option \<Rightarrow> safety_status" where
  "final_status manual apt migrations =
     (if manual then MANUAL_BOOTSTRAP_REQUIRED
      else if apt \<noteq> [] then MANUAL_SYSTEM_PACKAGE_ACTION_REQUIRED
      else if (case migrations of None \<Rightarrow> False | Some s \<Rightarrow> compatibility s = Some (cps ''destructive''))
      then MIGRATION_MANUAL_GATE_REQUIRED else READY_TO_PLAN)"

definition assemble_plan ::
  "host_view \<Rightarrow> schema_health \<Rightarrow> chained_release \<Rightarrow> utext \<Rightarrow> chained_release \<Rightarrow> utext \<Rightarrow> chained_release list \<Rightarrow> plan" where
  "assemble_plan h health installed ic latest tc cs =
     (let apt = collect apt_packages_new cs;
          manual = list_ex (\<lambda>c. manual_bootstrap_required (rel c)) cs;
          migrations = migration_summary_for (django h) cs
      in \<lparr>safety_status = final_status manual apt migrations,
          installed_release_id = Some (release_id (rel installed)), installed_commit = Some ic,
          target_release_id = Some (release_id (rel latest)), target_commit = Some tc,
          releases_in_plan = map (\<lambda>c. release_id (rel c)) cs, plan_migrations = migrations,
          requirements_change = list_ex (\<lambda>c. python_requirements_changed (rel c)) cs, apt_new = apt,
          units_changed = collect systemd_units_changed cs,
          units_new_required = collect systemd_units_new_required cs,
          units_new_optional = collect systemd_units_new_optional cs,
          units_removed = collect systemd_units_removed_or_renamed cs,
          collectstatic = list_ex (\<lambda>c. collectstatic_required (rel c)) cs, restarts = ordered_restart cs,
          nginx_change = list_ex (\<lambda>c. nginx_changed (rel c)) cs,
          runtime_components_change = list_ex (\<lambda>c. runtime_components_changed (rel c)) cs,
          minimum_protocol = fold (\<lambda>c p. max p (minimum_updater_protocol_version (rel c))) cs 1,
          bootstrap_required = manual, cross_check_findings = [], plan_schema = health\<rparr>)"

section \<open>Building it\<close>

text \<open>What can escape \<^verbatim>\<open>build_plan\<close> as an exception, if anything does.\<close>

datatype plan_error = RaisedTypeError | RaisedValueError | RaisedKeyError | RaisedChainError

definition RELEASES_DIR :: utext where "RELEASES_DIR = cps ''deploy/releases''"

definition release_path :: "utext \<Rightarrow> utext" where
  "release_path rid = RELEASES_DIR @ [47] @ rid @ JSON_SUFFIX"

text \<open>The checks of the checkout itself: the commit it is at, or the refusal.\<close>

definition checkout_position :: "git_view \<Rightarrow> safety_status + utext" where
  "checkout_position g =
     (if worktree_dirty g = Some True then Inl DIRTY_CHECKOUT
      else if detached_head g = Some True then Inl DETACHED_HEAD
      else if origin_url g = None then Inl NO_ORIGIN_REMOTE
      else case rev_parse g (cps ''HEAD'') of None \<Rightarrow> Inl INSTALLED_RELEASE_UNKNOWN | Some head \<Rightarrow> Inr head)"

definition remote_ref :: "git_view \<Rightarrow> utext option" where
  "remote_ref g = map_option (\<lambda>b. cps ''origin/'' @ b) (current_branch g)"

definition remote_refusal :: "git_view \<Rightarrow> safety_status option" where
  "remote_refusal g =
     (case remote_ref g of
        None \<Rightarrow> None
      | Some r \<Rightarrow>
          (case ahead_behind g (cps ''HEAD'') r of
             None \<Rightarrow> None
           | Some (ahead, behind) \<Rightarrow>
               if ahead > 0 \<and> behind > 0 then Some DIVERGED_FROM_ORIGIN
               else if ahead > 0 then Some LOCAL_COMMITS_NOT_ON_ORIGIN else None))"

definition canonical_tip :: "git_view \<Rightarrow> utext option" where
  "canonical_tip g =
     rev_parse g (case remote_ref g of None \<Rightarrow> cps ''HEAD''
                  | Some r \<Rightarrow> if rev_parse g r \<noteq> None then r else cps ''HEAD'')"

definition load_releases :: "host_view \<Rightarrow> utext \<Rightarrow> chain_error + manifests" where
  "load_releases h tip =
     load_manifest_files_at_ref (rev_parse (git h)) (list_files (git h))
       (\<lambda>sha name. read_bytes (git h) sha (RELEASES_DIR @ [47] @ name)) (parse_json h) tip"

definition release_commits_of :: "git_view \<Rightarrow> chained_release list \<Rightarrow> utext \<Rightarrow> chain_error + (utext \<times> utext) list" where
  "release_commits_of g chain tip =
     (let paths = map (\<lambda>c. release_path (release_id (rel c))) (filter (\<lambda>c. \<not> is_bootstrap (rel c)) chain) in
      resolve_unique_release_commits (\<lambda>rid. introducing_commits g paths tip (release_path rid)) (commit_exists g) chain)"

fun too_old :: "chained_release list \<Rightarrow> nat \<Rightarrow> chained_release list \<Rightarrow> plan_error + bool" where
  "too_old chain i [] = Inr False"
| "too_old chain i (c # cs) =
     (case minimum_supported_release_id (rel c) of
        None \<Rightarrow> too_old chain i cs
      | Some k \<Rightarrow>
          (case index_by_id chain k of
             None \<Rightarrow> Inl RaisedKeyError
           | Some j \<Rightarrow> if i < j then Inr True else too_old chain i cs))"

definition commit_of :: "(utext \<times> utext) list \<Rightarrow> chained_release \<Rightarrow> plan_error + utext" where
  "commit_of commits c = (case map_of commits (release_id (rel c)) of None \<Rightarrow> Inl RaisedKeyError | Some s \<Rightarrow> Inr s)"

definition cross_check_one ::
  "host_view \<Rightarrow> chained_release list \<Rightarrow> (utext \<times> utext) list \<Rightarrow> chained_release \<Rightarrow> plan_error + finding list" where
  "cross_check_one h chain commits c =
     bindR (commit_of commits c) (\<lambda>target.
     bindR (commit_of commits (chain ! (index c - 1))) (\<lambda>previous.
     case cross_check_release h (rel c) target (Some previous) of
       Inl e \<Rightarrow> Inl RaisedValueError | Inr fs \<Rightarrow> Inr fs))"

definition plan_transition ::
  "host_view \<Rightarrow> schema_health \<Rightarrow> chained_release list \<Rightarrow> (utext \<times> utext) list \<Rightarrow> chained_release \<Rightarrow> utext
     \<Rightarrow> plan_error + plan" where
  "plan_transition h health chain commits installed ic =
     (let latest = last chain; cs = drop (index installed + 1) chain;
          here = (\<lambda>st. (safe st health)\<lparr>installed_release_id := Some (release_id (rel installed)), installed_commit := Some ic\<rparr>) in
      if release_id (rel latest) = release_id (rel installed)
      then Inr ((here UP_TO_DATE)\<lparr>target_release_id := Some (release_id (rel installed)), target_commit := Some ic\<rparr>)
      else
        bindR (commit_of commits latest) (\<lambda>tc.
        let there = (\<lambda>st. (here st)\<lparr>target_release_id := Some (release_id (rel latest)), target_commit := Some tc\<rparr>) in
        bindR (too_old chain (index installed) cs) (\<lambda>old.
        if old then Inr (there INSTALLED_RELEASE_TOO_OLD)
        else
          bindR (seqR (map (cross_check_one h chain commits) cs)) (\<lambda>found.
          if concat found \<noteq> [] then Inr ((there CROSS_CHECK_FAILED)\<lparr>cross_check_findings := concat found\<rparr>)
          else Inr (assemble_plan h health installed ic latest tc cs)))))"

definition plan_from_chain ::
  "host_view \<Rightarrow> schema_health \<Rightarrow> utext \<Rightarrow> utext \<Rightarrow> chained_release list \<Rightarrow> plan_error + plan" where
  "plan_from_chain h health head tip chain =
     (case release_commits_of (git h) chain tip of
        Inl e \<Rightarrow> Inr (safe TARGET_COMMIT_UNKNOWN health)
      | Inr commits \<Rightarrow>
          (case resolve_installed_release (is_ancestor (git h)) chain head commits of
             Inl e \<Rightarrow> Inl RaisedChainError
           | Inr None \<Rightarrow> Inr ((safe INSTALLED_RELEASE_UNKNOWN health)\<lparr>installed_commit := Some head\<rparr>)
           | Inr (Some installed) \<Rightarrow>
               bindR (commit_of commits installed) (\<lambda>ic.
               let here = (\<lambda>st. (safe st health)\<lparr>installed_release_id := Some (release_id (rel installed)),
                                 installed_commit := Some ic\<rparr>) in
               if schema_status health \<noteq> SCHEMA_CURRENT then Inr (here SCHEMA_DRIFT_DETECTED)
               else if head \<noteq> ic then Inr (here CHECKOUT_NOT_AT_RELEASE_COMMIT)
               else plan_transition h health chain commits installed ic)))"

definition build_plan :: "host_view \<Rightarrow> plan_error + plan" where
  "build_plan h =
     (let g = git h; health = check_schema_health (django h) in
      case checkout_position g of
        Inl st \<Rightarrow> Inr (safe st health)
      | Inr head \<Rightarrow>
          let at_head = (\<lambda>st. (safe st health)\<lparr>installed_commit := Some head\<rparr>) in
          (case remote_refusal g of
             Some st \<Rightarrow> Inr (at_head st)
           | None \<Rightarrow>
               (case canonical_tip g of
                  None \<Rightarrow> Inr (at_head TARGET_COMMIT_UNKNOWN)
                | Some tip \<Rightarrow>
                    (case bindR (load_releases h tip) build_chain of
                       Inl (BadManifest UnhashableError) \<Rightarrow> Inl RaisedTypeError
                     | Inl e \<Rightarrow> Inr (safe INVALID_RELEASE_MANIFEST health)
                     | Inr chain \<Rightarrow> plan_from_chain h health head tip chain))))"

section \<open>Loaded sets are dictionaries of validated manifests\<close>

definition loaded_ok :: "manifests \<Rightarrow> bool" where
  "loaded_ok ms \<longleftrightarrow> dict_ok ms \<and> list_all (\<lambda>(k, m). manifest_ok m) ms"

lemma load_loop_ok:
  assumes "load_loop read parse names result = Inr ms" and "loaded_ok result"
  shows "loaded_ok ms"
  using assms
proof (induction names arbitrary: result)
  case (Cons name names)
  show ?case
  proof (cases "ends_with name JSON_SUFFIX")
    case True
    with Cons.prems(1) obtain raw v m where m: "validate_manifest_dict v = Inr m"
      and new: "release_id m \<notin> set (map fst result)"
      and rest: "load_loop read parse names (result @ [(release_id m, m)]) = Inr ms"
      by (auto split: option.splits sum.splits if_splits)
    have "manifest_ok m" using m by (cases v) (auto simp: validate_manifest_dict_def validate_object_ok)
    then have "loaded_ok (result @ [(release_id m, m)])"
      using new Cons.prems(2) by (auto simp: loaded_ok_def dict_ok_def)
    then show ?thesis by (rule Cons.IH [OF rest])
  qed (use Cons in simp)
qed simp

lemma loaded_ok_Nil: "loaded_ok []"
  by (simp add: loaded_ok_def dict_ok_def)

lemma load_releases_ok: "load_releases h tip = Inr ms \<Longrightarrow> loaded_ok ms"
  by (auto simp: load_releases_def load_manifest_files_at_ref_def
      split: option.splits intro: load_loop_ok [OF _ loaded_ok_Nil])

lemma loaded_chain:
  assumes "bindR (load_releases h tip) build_chain = Inr chain"
  shows "linked (map rel chain)" "distinct (map (release_id \<circ> rel) chain)" "list_all (\<lambda>c. manifest_ok (rel c)) chain"
    and "chain = enumerated (map rel chain)" "chain \<noteq> []"
proof -
  obtain ms where ms: "load_releases h tip = Inr ms" and chain: "build_chain ms = Inr chain"
    using assms by (rule bindR_InrE)
  have ok: "dict_ok ms" "list_all (\<lambda>(k, m). manifest_ok m) ms" using load_releases_ok [OF ms] by (simp_all add: loaded_ok_def)
  have line: "is_line (map snd ms) chain" by (rule build_chain_line [OF ok(1) chain])
  then show "linked (map rel chain)" "chain = enumerated (map rel chain)" by (simp_all add: is_line_def)
  then show "chain \<noteq> []" by (auto simp: linked_def)
  have "distinct (map release_id (map rel chain))" by (rule line_distinct [OF ok(1) line])
  then show "distinct (map (release_id \<circ> rel) chain)" by simp
  show "list_all (\<lambda>c. manifest_ok (rel c)) chain"
  proof (unfold list_all_iff, intro ballI)
    fix c assume "c \<in> set chain"
    then have "rel c \<in> set (map snd ms)" using line by (auto simp: is_line_def)
    then show "manifest_ok (rel c)" using ok(2) by (auto simp: list_all_iff)
  qed
qed

section \<open>An actionable plan\<close>

lemma set_append_new [simp]: "set (append_new acc xs) = set acc \<union> set xs"
proof -
  have "set (fold (\<lambda>x acc. if x \<in> set acc then acc else acc @ [x]) xs acc) = set acc \<union> set xs" for acc
    by (induction xs arbitrary: acc) auto
  then show ?thesis by (simp add: append_new_def)
qed

lemma set_collect: "set (collect f cs) = (\<Union>c\<in>set cs. set (f (rel c)))"
proof -
  have "set (fold (\<lambda>c acc. append_new acc (f (rel c))) cs acc) = set acc \<union> (\<Union>c\<in>set cs. set (f (rel c)))" for acc
    by (induction cs arbitrary: acc) auto
  then show ?thesis by (simp add: collect_def)
qed

lemma collect_Nil_iff: "collect f cs = [] \<longleftrightarrow> list_all (\<lambda>c. f (rel c) = []) cs"
proof -
  have "collect f cs = [] \<longleftrightarrow> set (collect f cs) = {}" by simp
  then show ?thesis unfolding set_collect by (auto simp: list_all_iff)
qed

text \<open>What the releases of an actionable plan are allowed to ask for.\<close>

definition unattended :: "release_manifest \<Rightarrow> bool" where
  "unattended m \<longleftrightarrow> \<not> manual_bootstrap_required m \<and> apt_packages_new m = []
     \<and> migration_compatibility m \<noteq> Some (cps ''destructive'')"

definition baseline_ok :: "chained_release list \<Rightarrow> nat \<Rightarrow> chained_release \<Rightarrow> bool" where
  "baseline_ok chain i c \<longleftrightarrow> (case minimum_supported_release_id (rel c) of None \<Rightarrow> True
     | Some k \<Rightarrow> (case index_by_id chain k of None \<Rightarrow> False | Some j \<Rightarrow> j \<le> i))"

lemma too_old_False: "too_old chain i cs = Inr False \<longleftrightarrow> list_all (baseline_ok chain i) cs"
  by (induction cs) (auto simp: baseline_ok_def split: option.splits)

lemma unattended_releases:
  assumes "final_status (list_ex (\<lambda>c. manual_bootstrap_required (rel c)) cs) (collect apt_packages_new cs)
      (migration_summary_for dj cs) = READY_TO_PLAN"
    and "list_all (\<lambda>c. manifest_ok (rel c)) cs"
  shows "list_all (\<lambda>c. unattended (rel c)) cs"
proof -
  have calm: "\<not> list_ex (\<lambda>c. manual_bootstrap_required (rel c)) cs" "collect apt_packages_new cs = []"
    and mild: "case migration_summary_for dj cs of None \<Rightarrow> True | Some s \<Rightarrow> compatibility s \<noteq> Some (cps ''destructive'')"
    using assms(1) by (auto simp: final_status_def split: if_splits option.splits)
  have "migration_compatibility (rel c) \<noteq> Some (cps ''destructive'')" if c: "c \<in> set cs" for c
  proof
    assume destructive: "migration_compatibility (rel c) = Some (cps ''destructive'')"
    have "manifest_ok (rel c)" using assms(2) c by (simp add: list_all_iff)
    then have migrations: "migrations_required (rel c) \<noteq> []" using destructive by (simp add: manifest_ok_def)
    then have "collect migrations_required cs \<noteq> []" using c by (auto simp: collect_Nil_iff list_all_iff)
    moreover have "overall_compatibility cs = Some (cps ''destructive'')"
      using c migrations destructive by (auto simp: overall_compatibility_def Let_def filter_empty_conv image_iff)
    ultimately show False using mild by (simp add: migration_summary_for_def Let_def split: prod.splits)
  qed
  then show ?thesis using calm by (auto simp: unattended_def list_all_iff list_ex_iff collect_Nil_iff)
qed

text \<open>
  What makes a plan executable: \<open>chain\<close> is the line of validated releases at the canonical tip, the checkout
  is exactly at the commit of its release number \<open>i\<close>, the plan lists all later releases, each of them can
  be applied unattended from here, and its claims agree with the repository.
\<close>

definition executable_from ::
  "host_view \<Rightarrow> plan \<Rightarrow> utext \<Rightarrow> utext \<Rightarrow> chained_release list \<Rightarrow> (utext \<times> utext) list \<Rightarrow> nat \<Rightarrow> bool" where
  "executable_from h p head tip chain commits i \<longleftrightarrow>
     bindR (load_releases h tip) build_chain = Inr chain
   \<and> release_commits_of (git h) chain tip = Inr commits
   \<and> i + 1 < length chain
   \<and> map_of commits (release_id (rel (chain ! i))) = Some head
   \<and> installed_release_id p = Some (release_id (rel (chain ! i))) \<and> installed_commit p = Some head
   \<and> target_release_id p = Some (release_id (rel (last chain)))
   \<and> target_commit p = map_of commits (release_id (rel (last chain)))
   \<and> releases_in_plan p = map (release_id \<circ> rel) (drop (i + 1) chain)
   \<and> list_all (\<lambda>c. unattended (rel c) \<and> baseline_ok chain i c
        \<and> cross_check_one h chain commits c = Inr []) (drop (i + 1) chain)"

lemma plan_transition_ready:
  assumes "plan_transition h health chain commits installed ic = Inr p" and "safety_status p = READY_TO_PLAN"
    and chain: "list_all (\<lambda>c. manifest_ok (rel c)) chain"
  shows "release_id (rel (last chain)) \<noteq> release_id (rel installed)"
    and "installed_release_id p = Some (release_id (rel installed))" and "installed_commit p = Some ic"
    and "target_release_id p = Some (release_id (rel (last chain)))"
    and "target_commit p = map_of commits (release_id (rel (last chain)))"
    and "releases_in_plan p = map (release_id \<circ> rel) (drop (index installed + 1) chain)"
    and "list_all (\<lambda>c. unattended (rel c) \<and> baseline_ok chain (index installed) c
        \<and> cross_check_one h chain commits c = Inr []) (drop (index installed + 1) chain)"
proof -
  let ?cs = "drop (index installed + 1) chain"
  show newer: "release_id (rel (last chain)) \<noteq> release_id (rel installed)"
    using assms(1,2) by (auto simp: plan_transition_def Let_def safe_def)
  with assms(1) obtain tc old found where tc: "commit_of commits (last chain) = Inr tc"
    and old: "too_old chain (index installed) ?cs = Inr old"
    and p: "(if old then Inr ((safe INSTALLED_RELEASE_TOO_OLD health)\<lparr>installed_release_id := Some (release_id (rel installed)),
          installed_commit := Some ic, target_release_id := Some (release_id (rel (last chain))), target_commit := Some tc\<rparr>)
        else bindR (seqR (map (cross_check_one h chain commits) ?cs)) (\<lambda>found.
          if concat found \<noteq> [] then Inr ((safe CROSS_CHECK_FAILED health)\<lparr>installed_release_id := Some (release_id (rel installed)),
            installed_commit := Some ic, target_release_id := Some (release_id (rel (last chain))), target_commit := Some tc,
            cross_check_findings := concat found\<rparr>)
          else Inr (assemble_plan h health installed ic (last chain) tc ?cs))) = Inr p"
    unfolding plan_transition_def Let_def by (simp del: refused_unless) (elim bindR_InrE, blast)
  have "\<not> old" using p assms(2) by (auto simp: safe_def)
  with p obtain found where found: "seqR (map (cross_check_one h chain commits) ?cs) = Inr found"
    and p2: "(if concat found \<noteq> [] then Inr ((safe CROSS_CHECK_FAILED health)\<lparr>installed_release_id := Some (release_id (rel installed)),
            installed_commit := Some ic, target_release_id := Some (release_id (rel (last chain))), target_commit := Some tc,
            cross_check_findings := concat found\<rparr>)
          else Inr (assemble_plan h health installed ic (last chain) tc ?cs)) = (Inr p :: plan_error + plan)"
    by (simp del: refused_unless concat_eq_Nil_conv) (elim bindR_InrE, blast)
  have empty: "concat found = []"
    using p2 assms(2) by (cases "concat found = []") (auto simp: safe_def simp del: concat_eq_Nil_conv)
  then have p3: "p = assemble_plan h health installed ic (last chain) tc ?cs" using p2 by simp
  then show "installed_release_id p = Some (release_id (rel installed))" "installed_commit p = Some ic"
    "target_release_id p = Some (release_id (rel (last chain)))"
    "releases_in_plan p = map (release_id \<circ> rel) ?cs"
    by (simp_all add: assemble_plan_def Let_def comp_def)
  show "target_commit p = map_of commits (release_id (rel (last chain)))"
    using p3 tc by (auto simp: assemble_plan_def Let_def commit_of_def split: option.splits)
  have "list_all (\<lambda>c. manifest_ok (rel c)) ?cs" using chain by (auto simp: list_all_iff dest: in_set_dropD)
  then have "list_all (\<lambda>c. unattended (rel c)) ?cs"
    using p3 assms(2) by (intro unattended_releases) (simp_all add: assemble_plan_def Let_def)
  moreover have "list_all (baseline_ok chain (index installed)) ?cs" using old \<open>\<not> old\<close> too_old_False by simp
  moreover have "map (cross_check_one h chain commits) ?cs = map Inr found" using found by (simp only: seqR_eq_Inr)
  then have checked: "cross_check_one h chain commits ` set ?cs = Inr ` set found" by (simp only: set_map [symmetric])
  have "cross_check_one h chain commits c = Inr []" if "c \<in> set ?cs" for c
  proof -
    have "cross_check_one h chain commits c \<in> Inr ` set found" unfolding checked [symmetric] using that by (rule imageI)
    then show ?thesis using empty by auto
  qed
  then have "list_all (\<lambda>c. cross_check_one h chain commits c = Inr []) ?cs" by (simp only: list_all_iff) blast
  ultimately show "list_all (\<lambda>c. unattended (rel c) \<and> baseline_ok chain (index installed) c
        \<and> cross_check_one h chain commits c = Inr []) ?cs"
    by (simp add: list_all_iff)
qed

lemma resolve_loop_line:
  assumes "resolve_loop introducing exists cs resolved = Inr commits"
    and "distinct (map snd resolved)" and "list_all (\<lambda>(rid, s). exists s) resolved"
  shows "map fst commits = map fst resolved @ map (release_id \<circ> rel) cs \<and> distinct (map snd commits)
    \<and> list_all (\<lambda>(rid, s). exists s) commits"
  using assms
proof (induction cs arbitrary: resolved)
  case (Cons c cs)
  then obtain commit where c: "exists commit" "commit \<notin> set (map snd resolved)"
    and rest: "resolve_loop introducing exists cs (resolved @ [(release_id (rel c), commit)]) = Inr commits"
    by (auto split: option.splits if_splits)
  from Cons.IH [OF rest] c Cons.prems(2,3) show ?case by simp
qed simp

lemma plan_from_chain_ready:
  assumes plan: "plan_from_chain h health head tip chain = Inr p" and ready: "safety_status p = READY_TO_PLAN"
    and chain: "bindR (load_releases h tip) build_chain = Inr chain"
  shows "schema_status health = SCHEMA_CURRENT" and "\<exists>commits i. executable_from h p head tip chain commits i"
proof -
  note loaded = loaded_chain [OF chain]
  obtain commits where commits: "release_commits_of (git h) chain tip = Inr commits"
    using plan ready by (auto simp: plan_from_chain_def safe_def split: sum.splits)
  obtain found where found: "resolve_installed_release (is_ancestor (git h)) chain head commits = Inr found"
    using plan commits by (auto simp: plan_from_chain_def split: sum.splits)
  obtain installed where installed: "found = Some installed"
    using plan commits found ready by (cases found) (auto simp: plan_from_chain_def safe_def)
  obtain ic where ic: "commit_of commits installed = Inr ic"
    using plan commits found installed by (auto simp: plan_from_chain_def elim: bindR_InrE)
  show current: "schema_status health = SCHEMA_CURRENT"
    using plan commits found installed ic ready by (auto simp: plan_from_chain_def safe_def split: if_splits)
  have here: "head = ic" and trans: "plan_transition h health chain commits installed ic = Inr p"
    using plan commits found installed ic ready current by (auto simp: plan_from_chain_def safe_def split: if_splits)
  have "installed \<in> set chain"
    using found installed nth_mem [of _ "rev chain"]
    by (auto simp: resolve_installed_release_def find_Some_iff split: if_splits)
  then obtain i where i: "i < length chain" "chain ! i = installed" by (auto simp: in_set_conv_nth)
  then have index: "index installed = i" by (metis enumerated_simps(3) chained_release.select_convs(2) length_map loaded(4))
  note ready_facts = plan_transition_ready [OF trans ready loaded(3), unfolded index]
  have "i \<noteq> length chain - 1" using ready_facts(1) i loaded(5) by (auto simp: last_conv_nth)
  then have "i + 1 < length chain" using i(1) by simp
  moreover have "map_of commits (release_id (rel (chain ! i))) = Some head"
    using ic here i(2) by (auto simp: commit_of_def split: option.splits)
  ultimately have "executable_from h p head tip chain commits i"
    using chain commits ready_facts i(2) here by (simp add: executable_from_def)
  then show "\<exists>commits i. executable_from h p head tip chain commits i" by blast
qed


section \<open>A station one release behind\<close>

definition base_release :: release_manifest where
  "base_release = sample_manifest\<lparr>release_id := cps ''r0091'', previous_release_id := None,
     bootstrap_commit := Some (replicate 40 97)\<rparr>"

definition sample_git :: "bool option \<Rightarrow> bool option \<Rightarrow> git_view" where
  "sample_git dirty detached = \<lparr>worktree_dirty = dirty, detached_head = detached, origin_url = Some (cps ''o''),
     current_branch = Some (cps ''main''),
     rev_parse = (\<lambda>r. if r = cps ''HEAD'' then Some (replicate 40 97) else Some [98]),
     ahead_behind = (\<lambda>_ _. Some (0, 1)), commit_exists = (\<lambda>_. True), is_ancestor = (\<lambda>a b. Some (a = b)),
     list_files = (\<lambda>_. Some [cps ''r0092.json'', cps ''r0091.json'']),
     read_bytes = (\<lambda>_ path. Some path), path_exists = (\<lambda>_ _. Some True), changed_paths = (\<lambda>_ _ _. Some []),
     introducing_commits = (\<lambda>_ _ _. Some [98])\<rparr>"

definition sample_host :: "bool option \<Rightarrow> bool option \<Rightarrow> host_view" where
  "sample_host dirty detached = \<lparr>git = sample_git dirty detached,
     django = \<lparr>migration_plan_of = Some [], graph_nodes = [], forwards_plan = (\<lambda>_. []), applied_migrations = []\<rparr>,
     parse_json = (\<lambda>raw. Some (manifest_json (if raw = release_path (cps ''r0091'') then base_release else sample_manifest))),
     sha256 = (\<lambda>_. []), app_configs = []\<rparr>"

definition sample_chain :: "chained_release list" where
  "sample_chain = [\<lparr>rel = base_release, index = 0\<rparr>, \<lparr>rel = sample_manifest, index = 1\<rparr>]"

lemma base_release_ok: "manifest_ok base_release"
  by code_simp

lemma sample_releases: "load_releases (sample_host dirty detached) [98] = Inr [(cps ''r0091'', base_release), (cps ''r0092'', sample_manifest)]"
proof -
  have order: "\<not> cps ''r0092.json'' \<le> cps ''r0091.json''"
    by (simp add: cps_def)
  have names: "ends_with (cps ''r0091.json'') JSON_SUFFIX" "ends_with (cps ''r0092.json'') JSON_SUFFIX"
    "stem_of (cps ''r0091.json'') = cps ''r0091''" "stem_of (cps ''r0092.json'') = cps ''r0092''"
    "RELEASES_DIR @ 47 # cps ''r0091.json'' = release_path (cps ''r0091'')"
    "(RELEASES_DIR @ 47 # cps ''r0092.json'' = release_path (cps ''r0091'')) = False"
    "release_id base_release = cps ''r0091''" "release_id sample_manifest = cps ''r0092''"
    "(cps ''HEAD'' = [98]) = False"
    by code_simp+
  show ?thesis
    by (simp add: load_releases_def load_manifest_files_at_ref_def sample_host_def sample_git_def order names
        validate_manifest_json base_release_ok sample_manifest_ok)
qed

lemma sample_build: "build_chain [(cps ''r0091'', base_release), (cps ''r0092'', sample_manifest)] = Inr sample_chain"
  by code_simp

lemma sample_cross_check:
  "cross_check_release (sample_host dirty detached) sample_manifest target (Some previous) = Inr []"
  by (simp add: cross_check_release_def check_migrations_def check_requirements_def check_units_def Let_def
      check_new_migrations_declared_def check_protected_runtime_intent_def app_label_paths_for_checkout_def
      sample_host_def sample_git_def sample_manifest_def split: sum.splits)

lemma sample_plan_ready:
  assumes "dirty \<noteq> Some True" and "detached \<noteq> Some True"
  shows "map_sum id safety_status (build_plan (sample_host dirty detached)) = Inr READY_TO_PLAN"
proof -
  let ?h = "sample_host dirty detached"
  have pos: "checkout_position (git ?h) = Inr (replicate 40 97)" "remote_refusal (git ?h) = None" "canonical_tip (git ?h) = Some [98]"
    using assms by (simp_all add: checkout_position_def remote_refusal_def remote_ref_def canonical_tip_def
        sample_host_def sample_git_def cps_def)
  have health: "check_schema_health (django ?h) = \<lparr>schema_status = SCHEMA_CURRENT, pending_migrations = []\<rparr>"
    by (simp add: sample_host_def check_schema_health_def)
  let ?commits = "[(cps ''r0091'', replicate 40 97), (cps ''r0092'', [98])]"
  have commits: "release_commits_of (git ?h) sample_chain [98] = Inr ?commits"
    by code_simp
  have installed: "resolve_installed_release (is_ancestor (git ?h)) sample_chain (replicate 40 97) ?commits
      = Inr (Some \<lparr>rel = base_release, index = 0\<rparr>)"
    by code_simp
  let ?last = "\<lparr>rel = sample_manifest, index = 1\<rparr>"
  have newer: "release_id (rel (last sample_chain)) \<noteq> release_id (rel \<lparr>rel = base_release, index = 0\<rparr>)"
    "last sample_chain = ?last" "drop (index \<lparr>rel = base_release, index = 0\<rparr> + 1) sample_chain = [?last]"
    by (simp_all add: sample_chain_def base_release_def sample_manifest_def cps_def)
  have fit: "commit_of ?commits ?last = Inr [98]" "too_old sample_chain (index \<lparr>rel = base_release, index = 0\<rparr>) [?last] = Inr False"
    by code_simp+
  have "commit_of ?commits (sample_chain ! (index ?last - 1)) = Inr (replicate 40 97)"
    by code_simp
  then have checked: "cross_check_one ?h sample_chain ?commits ?last = Inr []"
    unfolding cross_check_one_def fit(1) bindR_simps
    by (simp add: sample_cross_check)
  have status: "final_status (list_ex (\<lambda>c. manual_bootstrap_required (rel c)) [?last]) (collect apt_packages_new [?last])
      (migration_summary_for (django ?h) [?last]) = READY_TO_PLAN"
    by code_simp
  have trans: "map_sum id safety_status (plan_transition ?h \<lparr>schema_status = SCHEMA_CURRENT, pending_migrations = []\<rparr> sample_chain
      ?commits \<lparr>rel = base_release, index = 0\<rparr> (replicate 40 97)) = Inr READY_TO_PLAN"
    using newer(1) status
    unfolding plan_transition_def Let_def newer fit bindR_simps list.map seqR.simps checked
    by (simp add: assemble_plan_def Let_def)
  have here: "commit_of ?commits \<lparr>rel = base_release, index = 0\<rparr> = Inr (replicate 40 97)"
    by code_simp
  show ?thesis
    unfolding build_plan_def Let_def pos sum.case option.case sample_releases bindR_simps sample_build health
      plan_from_chain_def commits installed here
    using trans by simp
qed


text \<open>
  The git adapter answers None when git itself failed, and its documentation says that None must never be
  read as a clean checkout. The planner tests the answers for truth, so a checkout whose state is unknown
  is planned like a clean one.
\<close>

theorem unknown_checkout_is_planned:
  "map_sum id safety_status (build_plan (sample_host None None)) = Inr READY_TO_PLAN"
  by (rule sample_plan_ready) simp_all

text \<open>
  The applications whose directory is their label, which is how Django lays out an application that lives
  at the top of the repository, are never looked at for undeclared migrations.
\<close>

lemma ordinary_apps_have_no_path:
  assumes "list_all (\<lambda>(label, dir). dir = Some label) configs"
  shows "app_label_paths_for_checkout configs = []"
  using assms by (induction configs) (auto simp: app_label_paths_for_checkout_def)

theorem undeclared_migrations_unseen:
  assumes "list_all (\<lambda>(label, dir). dir = Some label) configs"
  shows "check_new_migrations_declared g m previous target (app_label_paths_for_checkout configs) = []"
  by (simp add: ordinary_apps_have_no_path [OF assms] check_new_migrations_declared_def split: sum.splits)

end
