(* ===== verification/Release_Outcomes.thy ===== *)
theory Release_Outcomes
  imports Release_Planner
begin

text \<open>
  How \<^verbatim>\<open>updatecenter/planner.py\<close> ends: the refusals are values of the plan, and of the exceptions its
  helpers can raise only one is left; and what an actionable plan restarts.
\<close>

section \<open>No lookup of the planner fails\<close>

lemma loaded_minimums:
  assumes "bindR (load_releases h tip) build_chain = Inr chain"
  shows "list_all (minimum_ok chain) chain"
proof -
  obtain ms where ms: "load_releases h tip = Inr ms" and chain: "build_chain ms = Inr chain"
    using assms by (rule bindR_InrE)
  have "dict_ok ms" using load_releases_ok [OF ms] by (simp add: loaded_ok_def)
  then have "is_line (map snd ms) chain" using chain by (rule build_chain_line)
  then show ?thesis by (simp add: is_line_def)
qed

lemma commit_of_ok: "release_id (rel c) \<in> set (map fst commits) \<Longrightarrow> is_ok (commit_of commits c)"
  by (auto simp: commit_of_def is_ok_def map_of_eq_None_iff image_iff split: option.splits)

lemma too_old_ok:
  assumes "list_all (\<lambda>c. case minimum_supported_release_id (rel c) of None \<Rightarrow> True | Some k \<Rightarrow> index_by_id chain k \<noteq> None) cs"
  shows "is_ok (too_old chain i cs)"
  using assms by (induction cs) (auto split: option.splits)

lemma known_minimums:
  assumes "bindR (load_releases h tip) build_chain = Inr chain"
  shows "list_all (\<lambda>c. case minimum_supported_release_id (rel c) of None \<Rightarrow> True | Some k \<Rightarrow> index_by_id chain k \<noteq> None) chain"
proof (unfold list_all_iff, intro ballI)
  fix c assume c: "c \<in> set chain"
  note loaded = loaded_chain [OF assms]
  show "case minimum_supported_release_id (rel c) of None \<Rightarrow> True | Some k \<Rightarrow> index_by_id chain k \<noteq> None"
  proof (cases "minimum_supported_release_id (rel c)")
    case (Some k)
    have "minimum_ok chain c" using loaded_minimums [OF assms] c by (simp add: list_all_iff)
    then have "k \<in> set (map release_id (map rel chain))" using Some by (auto simp: minimum_ok_def dest: in_set_takeD)
    moreover have "distinct (map release_id (map rel chain))" using loaded(2) by simp
    ultimately have "index_by_id (enumerated (map rel chain)) k \<noteq> None" using index_by_id_enumerated(2) by blast
    then show ?thesis using Some loaded(4) by simp
  qed simp
qed

lemma resolved_commits:
  assumes "release_commits_of g chain tip = Inr commits"
  shows "map fst commits = map (release_id \<circ> rel) chain" and "list_all (\<lambda>(rid, s). commit_exists g s) commits"
  using resolve_loop_line [OF assms [unfolded release_commits_of_def resolve_unique_release_commits_def Let_def]] by simp_all

lemma cross_check_one_ok:
  assumes commits: "release_commits_of g chain tip = Inr commits" and c: "c \<in> set chain"
    and g: "g = git h" and small: "index c < length chain"
  shows "is_ok (cross_check_one h chain commits c)"
proof -
  have known: "release_id (rel d) \<in> set (map fst commits)" if "d \<in> set chain" for d
    using that by (simp add: resolved_commits(1) [OF commits])
  have "chain ! (index c - 1) \<in> set chain" using small by (intro nth_mem) simp
  with known c obtain target previous where t: "commit_of commits c = Inr target"
    and p: "commit_of commits (chain ! (index c - 1)) = Inr previous"
    using commit_of_ok unfolding is_ok_def by metis
  have "(release_id (rel c), target) \<in> set commits"
    using t by (auto simp: commit_of_def split: option.splits dest: map_of_SomeD)
  then have "commit_exists (git h) target" using resolved_commits(2) [OF commits] g by (auto simp: list_all_iff)
  then show ?thesis by (simp add: cross_check_one_def t p [simplified] cross_check_release_def Let_def is_ok_def)
qed

lemma plan_from_chain_ok:
  assumes chain: "bindR (load_releases h tip) build_chain = Inr chain"
  shows "is_ok (plan_from_chain h health head tip chain)"
proof (cases "release_commits_of (git h) chain tip")
  case (Inl e)
  then show ?thesis by (simp add: plan_from_chain_def is_ok_def)
next
  case (Inr commits)
  note loaded = loaded_chain [OF chain]
  have names: "set (map fst commits) = set (map (release_id \<circ> rel) chain)"
    by (simp only: resolved_commits(1) [OF Inr])
  have known: "is_ok (commit_of commits d)" if "d \<in> set chain" for d
    using that names by (intro commit_of_ok) auto
  have whole: "\<not> list_ex (\<lambda>c. map_of commits (release_id (rel c)) = None) chain"
  proof -
    have "map_of commits (release_id (rel c)) \<noteq> None" if "c \<in> set chain" for c
      using known [OF that] by (auto simp: commit_of_def split: option.splits)
    then show ?thesis by (auto simp: list_ex_iff)
  qed
  have place: "index c < length chain" if "c \<in> set chain" for c
    using that loaded(4) by (metis enumerated_simps(3) chained_release.select_convs(2) in_set_conv_nth length_map)
  have move: "is_ok (plan_transition h health chain commits installed ic)" for installed ic
  proof -
    let ?cs = "drop (index installed + 1) chain"
    obtain tc where tc: "commit_of commits (last chain) = Inr tc"
      using known [of "last chain"] loaded(5) by (auto simp: is_ok_def)
    have "list_all (\<lambda>c. case minimum_supported_release_id (rel c) of None \<Rightarrow> True | Some k \<Rightarrow> index_by_id chain k \<noteq> None) ?cs"
      using known_minimums [OF chain] by (auto simp: list_all_iff dest: in_set_dropD)
    then obtain old where old: "too_old chain (index installed) ?cs = Inr old"
      using too_old_ok [of chain ?cs "index installed"] by (auto simp: is_ok_def)
    have "list_all is_ok (map (cross_check_one h chain commits) ?cs)"
      by (auto simp: list_all_iff dest!: in_set_dropD intro!: cross_check_one_ok [OF Inr] place)
    then obtain found where found: "seqR (map (cross_check_one h chain commits) ?cs) = Inr found"
      unfolding seqR_ok_iff [symmetric] by (auto simp: is_ok_def)
    show ?thesis unfolding plan_transition_def Let_def tc old found bindR_simps by simp
  qed
  show ?thesis
  proof (cases "List.find (\<lambda>c. case map_of commits (release_id (rel c)) of None \<Rightarrow> False
                  | Some commit \<Rightarrow> commit = head \<or> is_ancestor (git h) commit head = Some True) (rev chain)")
    case None
    then have "resolve_installed_release (is_ancestor (git h)) chain head commits = Inr None"
      using whole by (simp add: resolve_installed_release_def)
    then show ?thesis by (simp add: plan_from_chain_def Inr)
  next
    case (Some installed)
    then have "installed \<in> set (rev chain)" unfolding find_Some_iff by (auto simp only: nth_mem)
    then obtain ic where ic: "commit_of commits installed = Inr ic" using known [of installed] by (auto simp: is_ok_def)
    have "resolve_installed_release (is_ancestor (git h)) chain head commits = Inr (Some installed)"
      using whole Some by (simp add: resolve_installed_release_def)
    then show ?thesis using move [of installed ic] ic by (simp add: plan_from_chain_def Inr Let_def)
  qed
qed

text \<open>
  Every unsafe or unknown state of the checkout, the history or the database ends in a plan that says so,
  never in an exception: no lookup of a release, a commit or a baseline can fail. The one exception left
  is the TypeError of a manifest whose compatibility is not a string.
\<close>

theorem build_plan_raises_exactly:
  "build_plan h = Inl e \<longleftrightarrow> e = RaisedTypeError
     \<and> (\<exists>head tip. checkout_position (git h) = Inr head \<and> remote_refusal (git h) = None
          \<and> canonical_tip (git h) = Some tip \<and> bindR (load_releases h tip) build_chain = Inl (BadManifest UnhashableError))"
proof (cases "checkout_position (git h)")
  case (Inl st)
  then show ?thesis by (simp add: build_plan_def Let_def)
next
  case (Inr head)
  show ?thesis
  proof (cases "remote_refusal (git h) = None \<and> canonical_tip (git h) \<noteq> None")
    case False
    then show ?thesis by (auto simp: build_plan_def Let_def Inr split: option.splits)
  next
    case True
    then obtain tip where tip: "remote_refusal (git h) = None" "canonical_tip (git h) = Some tip" by blast
    show ?thesis
    proof (cases "bindR (load_releases h tip) build_chain")
      case (Inl err)
      then show ?thesis
        by (auto simp: build_plan_def Let_def Inr tip split: chain_error.splits manifest_error.splits)
    next
      case chain: (Inr chain)
      then obtain p where "plan_from_chain h (check_schema_health (django h)) head tip chain = Inr p"
        using plan_from_chain_ok [OF chain] unfolding is_ok_def by blast
      then show ?thesis by (simp add: build_plan_def Let_def Inr tip chain)
    qed
  qed
qed

section \<open>The services an actionable plan restarts\<close>

text \<open>
  The plan restarts each service that some release of the plan asks for, once, and no other, always in
  the one safe order.
\<close>

theorem restarts_complete:
  assumes "list_all (\<lambda>c. manifest_ok (rel c)) cs"
  shows "set (ordered_restart cs) = (\<Union>c\<in>set cs. set (services_requiring_restart (rel c)))
    \<and> distinct (ordered_restart cs) \<and> (\<exists>keep. ordered_restart cs = filter keep RESTART_ORDER)"
proof -
  have order: "set CORE_RESTARTABLE_SERVICES \<subseteq> set RESTART_ORDER" "distinct RESTART_ORDER"
    by (simp_all add: CORE_RESTARTABLE_SERVICES_def RESTART_ORDER_def cps_def)
  have "set (services_requiring_restart (rel c)) \<subseteq> set RESTART_ORDER" if "c \<in> set cs" for c
  proof -
    have "manifest_ok (rel c)" using assms that by (simp add: list_all_iff)
    then have "set (services_requiring_restart (rel c)) \<subseteq> set CORE_RESTARTABLE_SERVICES" by (simp add: manifest_ok_def)
    then show ?thesis using order(1) by (rule subset_trans)
  qed
  then have "set (ordered_restart cs) = (\<Union>c\<in>set cs. set (services_requiring_restart (rel c)))"
    by (auto simp: ordered_restart_def list_ex_iff)
  then show ?thesis using order(2) by (auto simp: ordered_restart_def)
qed

theorem restarts_complete_witness:
  "set (ordered_restart sample_chain) = {cps ''isadoraair-engine''}"
proof -
  have "list_all (\<lambda>c. manifest_ok (rel c)) sample_chain"
    by (simp add: sample_chain_def base_release_ok sample_manifest_ok)
  from restarts_complete [OF this] show ?thesis by (simp add: sample_chain_def base_release_def sample_manifest_def)
qed

end
