(* ===== verification/Refill_Projection.thy ===== *)
theory Refill_Projection
  imports Air_Number Air_Prelude "HOL-Library.Product_Lexorder" "HOL-Library.List_Lexorder" "HOL-Library.Multiset"
begin

text \<open>
  The hour-refill projection of \<^verbatim>\<open>library/services/hour_refill_projection.py\<close>: whether the material
  that is committed for the running hour really ends before the next programming takeover. Seconds of
  audio are exact rationals (the source uses binary floating point), instants are microseconds, and the
  station's time zone and SHA-256 are arguments.
\<close>

section \<open>The snapshot\<close>

record item_timing =
  log_item_id :: int
  playlist_log_id :: "int option"
  item_position :: "int option"
  track_id :: "int option"
  category_id :: "int option"
  category_kind :: "string option"
  cue_in :: "seconds option"
  next_start :: "seconds option"
  duration :: "seconds option"
  claimed :: bool
  played :: bool

definition end_point :: "item_timing \<Rightarrow> seconds option" where
  "end_point it = (case next_start it of None \<Rightarrow> duration it | Some s \<Rightarrow> Some s)"

definition effective_seconds :: "item_timing \<Rightarrow> seconds option" where
  "effective_seconds it = map_option (\<lambda>e. max 0 (e - or_zero (cue_in it))) (end_point it)"

record deck_state =
  slot :: string
  generation :: "int option"
  deck_item :: "item_timing option"
  position_seconds :: "seconds option"
  live :: bool
  paused :: bool

record snapshot =
  captured_at :: int
  captured_naive :: bool
  engine_instance :: utext
  active_log_id :: "int option"
  active_log_date :: "int option"
  active_log_hour :: "int option"
  cursor :: int
  queue :: "item_timing list"
  forced :: "item_timing list"
  decks :: "deck_state list"
  poison_skip :: "(int \<times> int) set"
  manual_mode :: bool
  remote_dj :: bool
  mic_live :: bool
  vt_phase :: string
  start_next_active :: bool
  next_triggered :: bool
  resume_pending :: bool
  live_fill_in_progress :: bool
  capture_errors :: "string list"

text \<open>
  The content of the digest: \<^verbatim>\<open>PlaybackWindowSnapshot.digest\<close> hashes its JSON, in which the poisoned
  pairs are sorted, so that the set is what counts.
\<close>

definition item_payload where
  "item_payload it = (log_item_id it, playlist_log_id it, item_position it, track_id it, category_id it, claimed it, played it)"

definition deck_payload where
  "deck_payload d = (slot d, generation d, map_option log_item_id (deck_item d), Option.bind (deck_item d) track_id)"

definition digest_payload where
  "digest_payload s = (engine_instance s, (active_log_id s, active_log_date s, active_log_hour s), cursor s,
     map item_payload (queue s), map item_payload (forced s), map deck_payload (decks s), poison_skip s)"

section \<open>Timing\<close>

definition TRIGGER_CLAMP_SECONDS :: seconds where "TRIGGER_CLAMP_SECONDS = 10"
definition POLL_MIN_POSITION_SECONDS :: seconds where "POLL_MIN_POSITION_SECONDS = 5"
definition TRANSITION_ALLOWANCE_SECONDS :: seconds where "TRANSITION_ALLOWANCE_SECONDS = 1 / 4"
definition POSITION_SANITY_SECONDS :: seconds where "POSITION_SANITY_SECONDS = 10"
definition MIN_WINDOW_SECONDS :: seconds where "MIN_WINDOW_SECONDS = 60"
definition MAX_WINDOW_SECONDS :: seconds where "MAX_WINDOW_SECONDS = 2 * 3600"

text \<open>\<^verbatim>\<open>_ms\<close>: three decimals, ties to even.\<close>

definition ms :: "rat \<Rightarrow> rat" where
  "ms x = of_int (round_even (x * 1000)) / 1000"

definition element_span ::
  "seconds \<Rightarrow> seconds \<Rightarrow> seconds option \<Rightarrow> seconds option \<Rightarrow> seconds \<Rightarrow> seconds" where
  "element_span cue end_at successor_cue_in position allowance =
     (let succ = or_zero successor_cue_in;
          trigger0 = end_at - succ;
          trigger1 = (if trigger0 < TRIGGER_CLAMP_SECONDS then end_at else trigger0);
          trigger2 = max trigger1 POLL_MIN_POSITION_SECONDS;
          trigger = (case position of None \<Rightarrow> trigger2 | Some p \<Rightarrow> max trigger2 p);
          next_audible = trigger + succ;
          start = (case position of None \<Rightarrow> cue | Some p \<Rightarrow> p)
      in max 0 (next_audible - start) + allowance)"

datatype timing_fault = NoDuration | NonpositiveTiming | NonpositiveDuration | NonpositiveAirtime

definition timing_problem :: "item_timing \<Rightarrow> timing_fault option" where
  "timing_problem it =
     (case end_point it of
        None \<Rightarrow> Some NoDuration
      | Some e \<Rightarrow>
          if e \<le> 0 \<or> or_zero (cue_in it) < 0 then Some NonpositiveTiming
          else if (case duration it of None \<Rightarrow> False | Some d \<Rightarrow> d \<le> 0) then Some NonpositiveDuration
          else if e - or_zero (cue_in it) \<le> 0 then Some NonpositiveAirtime
          else None)"

datatype role = RoleDeck | RoleForced | RoleQueue

record element =
  el_id :: int
  el_cue :: seconds
  el_end :: seconds
  el_position :: "seconds option"
  el_role :: role

fun sequence_runway :: "element list \<Rightarrow> seconds option \<Rightarrow> seconds \<Rightarrow> seconds list" where
  "sequence_runway [] tail_cue allowance = []"
| "sequence_runway (e # es) tail_cue allowance =
     element_span (el_cue e) (el_end e) (case es of [] \<Rightarrow> tail_cue | e' # _ \<Rightarrow> Some (el_cue e')) (el_position e) allowance
     # sequence_runway es tail_cue allowance"

text \<open>
  \<^verbatim>\<open>committed_sequence\<close>. A deck without an item is the AttributeError, one without an end point
  the TypeError, which Python raises when the first span is computed.
\<close>

datatype refill_error = AttributeError | TypeError | UnpackError | BadHour

datatype skip_reason = PoisonGuarded | TrackDeleted

fun collect_future :: "(int \<times> int) set \<Rightarrow> int set \<Rightarrow> (item_timing \<times> role) list
    \<Rightarrow> element list \<times> (int \<times> skip_reason) list \<times> (int \<times> timing_fault) list" where
  "collect_future poison seen [] = ([], [], [])"
| "collect_future poison seen ((it, r) # rest) =
     (if log_item_id it \<in> seen then collect_future poison seen rest
      else
        let (els, skipped, problems) = collect_future poison (insert (log_item_id it) seen) rest in
        if (case playlist_log_id it of None \<Rightarrow> False | Some l \<Rightarrow> (l, log_item_id it) \<in> poison)
        then (els, (log_item_id it, PoisonGuarded) # skipped, problems)
        else if track_id it = None then (els, (log_item_id it, TrackDeleted) # skipped, problems)
        else case timing_problem it of
               Some f \<Rightarrow> (els, skipped, (log_item_id it, f) # problems)
             | None \<Rightarrow> (\<lparr>el_id = log_item_id it, el_cue = or_zero (cue_in it), el_end = or_zero (end_point it),
                         el_position = None, el_role = r\<rparr> # els, skipped, problems))"

text \<open>\<^verbatim>\<open>xs[i:]\<close>\<close>

definition slice_from :: "int \<Rightarrow> 'a list \<Rightarrow> 'a list" where
  "slice_from i xs = (if i < 0 then drop (length xs - nat (- i)) xs else drop (nat i) xs)"

definition pending_rows :: "snapshot \<Rightarrow> item_timing list" where
  "pending_rows s = slice_from (cursor s) (queue s)"

definition future_rows :: "snapshot \<Rightarrow> (item_timing \<times> role) list" where
  "future_rows s = map (\<lambda>it. (it, RoleForced)) (forced s)
     @ map (\<lambda>it. (it, RoleQueue)) (filter (\<lambda>it. log_item_id it \<notin> log_item_id ` set (forced s)) (pending_rows s))"

definition committed_sequence :: "snapshot \<Rightarrow> deck_state
    \<Rightarrow> refill_error + element list \<times> (int \<times> skip_reason) list \<times> (int \<times> timing_fault) list" where
  "committed_sequence s d =
     (case deck_item d of
        None \<Rightarrow> Inl AttributeError
      | Some it \<Rightarrow>
          (case end_point it of
             None \<Rightarrow> Inl TypeError
           | Some e \<Rightarrow>
               let (els, skipped, problems) = collect_future (poison_skip s) {log_item_id it} (future_rows s) in
               Inr (\<lparr>el_id = log_item_id it, el_cue = or_zero (cue_in it), el_end = e,
                     el_position = position_seconds d, el_role = RoleDeck\<rparr> # els, skipped, problems)))"

section \<open>The boundary\<close>

datatype boundary_kind = BOUNDARY_ORDINARY | BOUNDARY_PARTIAL | BOUNDARY_UNKNOWN

record boundary =
  kind :: boundary_kind
  instant :: "int option"
  proof_source :: string
  next_log_id :: "int option"
  reason :: string

text \<open>
  A time zone: the offset at an instant, and the offset Python gives a wall-clock time (with \<^verbatim>\<open>fold=0\<close>).
  Wall-clock times count microseconds from midnight of day 0.
\<close>

record zone =
  offset_at :: "int \<Rightarrow> int"
  offset_of_wall :: "int \<Rightarrow> int"

definition HOUR :: int where "HOUR = 3600000000"

definition hour_key_of :: "int \<Rightarrow> int \<times> int" where
  "hour_key_of wall = (wall div (24 * HOUR), wall div HOUR mod 24)"

definition wall_at :: "zone \<Rightarrow> int \<Rightarrow> int" where
  "wall_at z i = i + offset_at z i"

definition next_hour_key :: "int \<Rightarrow> int \<Rightarrow> refill_error + int \<times> int" where
  "next_hour_key d h =
     (if 0 \<le> h \<and> h < 24 then Inr (hour_key_of ((d * 24 + h) * HOUR + HOUR)) else Inl BadHour)"

definition hour_wall :: "int \<times> int \<Rightarrow> int" where
  "hour_wall k = (fst k * 24 + snd k) * HOUR"

definition hour_start :: "zone \<Rightarrow> int \<times> int \<Rightarrow> int" where
  "hour_start z k = hour_wall k - offset_of_wall z (hour_wall k)"

definition dst_problem :: "zone \<Rightarrow> snapshot \<Rightarrow> boundary \<Rightarrow> int \<Rightarrow> int \<Rightarrow> refill_error + string option" where
  "dst_problem z s b a_date a_hour =
     bindR (next_hour_key a_date a_hour) (\<lambda>n.
     let keys = [(a_date, a_hour), n] in
     if list_ex (\<lambda>k. hour_key_of (wall_at z (hour_start z k)) \<noteq> k) keys then Inr (Some ''hour_does_not_exist'')
     else
       let offsets = map (\<lambda>k. offset_of_wall z (hour_wall k)) keys @ [offset_at z (captured_at s)]
             @ (case instant b of None \<Rightarrow> [] | Some i \<Rightarrow> [offset_at z i])
       in if length (remdups offsets) \<noteq> 1 then Inr (Some ''utc_offset_change'') else Inr None)"

section \<open>The causes\<close>

definition CAUSE_REQUEST_SUBSTITUTION :: string where "CAUSE_REQUEST_SUBSTITUTION = ''request_substitution''"
definition CAUSE_OPERATOR_EJECT :: string where "CAUSE_OPERATOR_EJECT = ''operator_eject''"
definition CAUSE_START_NEXT :: string where "CAUSE_START_NEXT = ''start_next''"
definition CAUSE_AUTOMATIC_SKIP :: string where "CAUSE_AUTOMATIC_SKIP = ''automatic_skip''"
definition CAUSE_MEDIA_FAILURE :: string where "CAUSE_MEDIA_FAILURE = ''media_failure''"

definition TERMINATION_CAUSES :: "string list" where
  "TERMINATION_CAUSES = [CAUSE_OPERATOR_EJECT, CAUSE_START_NEXT, CAUSE_AUTOMATIC_SKIP, CAUSE_MEDIA_FAILURE]"

record cause_record =
  cause_pk :: "int option"
  source_key :: utext
  cause_type :: string
  occurred_at :: int
  cause_log_id :: int
  cause_log_date :: int
  cause_log_hour :: int
  cause_item_id :: int
  scheduled_category_id :: "int option"
  scheduled_category_code :: utext
  scheduled_kind_code :: string
  original_track_id :: "int option"
  replacement_track_id :: "int option"
  observed_shortening :: seconds
  failure_phase :: string

definition causal_order :: "cause_record \<Rightarrow> int \<times> int \<times> utext" where
  "causal_order r = (occurred_at r, (case cause_pk r of None \<Rightarrow> 0 | Some i \<Rightarrow> i), source_key r)"

definition occurrence_family :: "string \<Rightarrow> string" where
  "occurrence_family t = (if t \<in> set TERMINATION_CAUSES then ''termination'' else t)"

definition qualification_problem ::
  "cause_record \<Rightarrow> snapshot \<Rightarrow> (int \<rightharpoonup> item_timing) \<Rightarrow> int set \<Rightarrow> int set \<Rightarrow> string option" where
  "qualification_problem r s by_id pending_ids deck_ids =
     (if Some (cause_log_id r) \<noteq> active_log_id s then Some ''stale_log''
      else if scheduled_kind_code r \<noteq> ''music'' \<or> scheduled_category_id r = None then Some ''not_music_slot''
      else case by_id (cause_item_id r) of
        None \<Rightarrow> Some ''missing_occurrence''
      | Some occ \<Rightarrow>
          let t = cause_type r; pending = cause_item_id r \<in> pending_ids \<or> cause_item_id r \<in> deck_ids;
              superseded = original_track_id r = None \<or> track_id occ \<noteq> original_track_id r in
          if t = CAUSE_REQUEST_SUBSTITUTION
          then (if track_id occ \<noteq> replacement_track_id r then Some ''superseded'' else None)
          else if t = CAUSE_OPERATOR_EJECT then (if pending then Some ''occurrence_still_pending'' else None)
          else if t = CAUSE_START_NEXT
          then (if pending then Some ''occurrence_still_pending'' else if superseded then Some ''superseded'' else None)
          else if t = CAUSE_AUTOMATIC_SKIP \<or> t = CAUSE_MEDIA_FAILURE
          then (if pending then Some ''occurrence_still_pending''
                else if superseded then Some ''superseded''
                else if t = CAUSE_AUTOMATIC_SKIP \<and> (claimed occ \<or> played occ) then Some ''occurrence_aired''
                else if failure_phase r = ''pre_air'' \<and> played occ then Some ''occurrence_aired'' else None)
          else Some ''unknown_cause_type'')"

text \<open>The two passes of \<^verbatim>\<open>partition_causes\<close>: each gives the records kept and those excluded, with the reason.\<close>

fun qualify_pass :: "(cause_record \<Rightarrow> string option) \<Rightarrow> utext set \<Rightarrow> cause_record list
    \<Rightarrow> cause_record list \<times> (utext \<times> string) list" where
  "qualify_pass problem seen [] = ([], [])"
| "qualify_pass problem seen (r # rs) =
     (if source_key r \<in> seen
      then (let (kept, out) = qualify_pass problem seen rs in (kept, (source_key r, ''duplicate_source_key'') # out))
      else let (kept, out) = qualify_pass problem (insert (source_key r) seen) rs in
        case problem r of Some p \<Rightarrow> (kept, (source_key r, p) # out) | None \<Rightarrow> (r # kept, out))"

definition occurrence :: "cause_record \<Rightarrow> string \<times> int" where
  "occurrence r = (occurrence_family (cause_type r), cause_item_id r)"

fun family_pass :: "(string \<times> int) set \<Rightarrow> cause_record list \<Rightarrow> cause_record list \<times> (utext \<times> string) list" where
  "family_pass seen [] = ([], [])"
| "family_pass seen (r # rs) =
     (if occurrence r \<in> seen
      then (let (kept, out) = family_pass seen rs in (kept, (source_key r, ''duplicate_occurrence_cause'') # out))
      else let (kept, out) = family_pass (insert (occurrence r) seen) rs in (r # kept, out))"

definition deck_ids :: "snapshot \<Rightarrow> int set" where
  "deck_ids s = set (List.map_filter (\<lambda>d. map_option log_item_id (deck_item d)) (decks s))"

definition pending_ids :: "snapshot \<Rightarrow> int set" where
  "pending_ids s = log_item_id ` set (forced s) \<union> log_item_id ` set (pending_rows s)"

definition rows_by_id :: "snapshot \<Rightarrow> int \<rightharpoonup> item_timing" where
  "rows_by_id s = map_of (rev (map (\<lambda>it. (log_item_id it, it)) (queue s @ forced s)))"

definition cause_problem :: "snapshot \<Rightarrow> cause_record \<Rightarrow> string option" where
  "cause_problem s r =
     (if (Some (cause_log_date r), Some (cause_log_hour r)) \<noteq> (active_log_date s, active_log_hour s) then Some ''other_hour''
      else qualification_problem r s (rows_by_id s) (pending_ids s) (deck_ids s))"

definition partition_causes :: "snapshot \<Rightarrow> cause_record list \<Rightarrow> cause_record list \<times> (utext \<times> string) list" where
  "partition_causes s records =
     (let (candidates, excluded) = qualify_pass (cause_problem s) {} (sort_key causal_order records);
          (qualified, duplicates) = family_pass {} candidates
      in (qualified, excluded @ duplicates))"

definition CUT_THRESHOLDS :: "(string \<times> seconds) list" where
  "CUT_THRESHOLDS = [(CAUSE_OPERATOR_EJECT, 30), (CAUSE_START_NEXT, 30), (CAUSE_AUTOMATIC_SKIP, 60), (CAUSE_MEDIA_FAILURE, 60)]"

definition REQUEST_MUSIC_TRIGGER_THRESHOLD_SECONDS :: seconds where
  "REQUEST_MUSIC_TRIGGER_THRESHOLD_SECONDS = 60"

definition threshold_for :: "cause_record list \<Rightarrow> seconds \<times> string" where
  "threshold_for qualified =
     (let types = set (map cause_type qualified) in
      if CAUSE_REQUEST_SUBSTITUTION \<in> types then (REQUEST_MUSIC_TRIGGER_THRESHOLD_SECONDS, ''request_substitution_present'')
      else if types \<subseteq> {CAUSE_OPERATOR_EJECT} then (30, ''operator_eject_only_provisional'')
      else if \<not> types \<subseteq> set (map fst CUT_THRESHOLDS)
      then (Max (insert REQUEST_MUSIC_TRIGGER_THRESHOLD_SECONDS (snd ` set CUT_THRESHOLDS)), ''unknown_cause_strictest'')
      else
        let threshold = Max ((\<lambda>t. or_zero (map_of CUT_THRESHOLDS t)) ` types) in
        if types = {CAUSE_START_NEXT} then (threshold, ''start_next_only_provisional'')
        else if CAUSE_AUTOMATIC_SKIP \<in> types \<or> CAUSE_MEDIA_FAILURE \<in> types then (threshold, ''automatic_failure_proposed'')
        else (threshold, ''operator_cuts_provisional''))"

section \<open>The projection\<close>

datatype refill_outcome = OUTCOME_OFF | OUTCOME_INVALID_SNAPSHOT | OUTCOME_WRONG_HOUR | OUTCOME_BLOCKED_TRANSPORT
  | OUTCOME_UNSAFE_WINDOW | OUTCOME_NO_SAFE_BOUNDARY | OUTCOME_NO_QUALIFYING_CAUSE | OUTCOME_ALREADY_SATISFIED
  | OUTCOME_BELOW_THRESHOLD | OUTCOME_ELIGIBLE

datatype refill_reason = Because string | DeckProblem timing_fault | ItemProblem int timing_fault | DstProblem string
  | NotGreaterThan seconds

definition live_decks :: "snapshot \<Rightarrow> deck_state list" where
  "live_decks s = filter live (decks s)"

definition transport_block :: "snapshot \<Rightarrow> (refill_outcome \<times> string) option" where
  "transport_block s =
     (case filter fst
        [(manual_mode s, ''manual_mode''), (remote_dj s, ''remote_dj''), (mic_live s, ''mic_live''),
         (vt_phase s \<noteq> ''idle'', ''voice_track''), (start_next_active s, ''start_next''),
         (next_triggered s, ''transition_pending''), (resume_pending s, ''resume_pending''),
         (live_fill_in_progress s, ''live_fill_pending''), (list_ex paused (decks s), ''paused_deck'')] of
        (c, r) # _ \<Rightarrow> Some (OUTCOME_BLOCKED_TRANSPORT, r)
      | [] \<Rightarrow>
          if length (live_decks s) > 1 then Some (OUTCOME_BLOCKED_TRANSPORT, ''overlap'')
          else if live_decks s = [] then Some (OUTCOME_UNSAFE_WINDOW, ''no_live_deck'') else None)"

definition hour_relation :: "zone \<Rightarrow> snapshot \<Rightarrow> boundary option \<Rightarrow> int \<Rightarrow> int \<Rightarrow> refill_error + string option" where
  "hour_relation z s b d h =
     (let wall = hour_key_of (wall_at z (captured_at s)) in
      if wall = (d, h) then Inr None
      else bindR (next_hour_key d h) (\<lambda>n.
        if wall = n \<and> (case b of None \<Rightarrow> False | Some b \<Rightarrow> kind b = BOUNDARY_PARTIAL
             \<and> (case instant b of None \<Rightarrow> False | Some i \<Rightarrow> i > captured_at s))
        then Inr None else Inr (Some ''active_log_not_current_hour'')))"

record runway =
  elements :: "(int \<times> role \<times> seconds) list"
  total_seconds :: seconds
  deck_remaining :: seconds
  allowance_seconds :: seconds
  skipped_rows :: "(int \<times> skip_reason) list"

record projection =
  outcome :: refill_outcome
  reasons :: "refill_reason list"
  snapshot_digest :: utext
  projected_at :: int
  projected_engine :: utext
  projected_log :: "int option"
  proof_of_boundary :: "boundary option"
  window_seconds :: "seconds option"
  runway_of :: "runway option"
  net_shortage :: "seconds option"
  overfill :: "seconds option"
  threshold_seconds :: "seconds option"
  threshold_basis :: "string option"
  qualified_causes :: "cause_record list"
  excluded_causes :: "(utext \<times> string) list"
  observed_total :: seconds

definition result_of :: "(_ \<Rightarrow> utext) \<Rightarrow> snapshot \<Rightarrow> boundary option \<Rightarrow> refill_outcome \<Rightarrow> refill_reason list \<Rightarrow> projection" where
  "result_of hash s b out rs = \<lparr>outcome = out, reasons = rs, snapshot_digest = hash (digest_payload s),
     projected_at = captured_at s, projected_engine = engine_instance s, projected_log = active_log_id s,
     proof_of_boundary = b, window_seconds = None, runway_of = None, net_shortage = None, overfill = None,
     threshold_seconds = None, threshold_basis = None, qualified_causes = [], excluded_causes = [], observed_total = 0\<rparr>"

text \<open>The checks of the snapshot itself, up to the boundary: the deck on the air, or the refusal.\<close>

definition snapshot_fault :: "snapshot \<Rightarrow> refill_reason list" where
  "snapshot_fault s =
     (if capture_errors s \<noteq> [] then map Because (capture_errors s)
      else if active_log_id s = None \<or> active_log_date s = None \<or> active_log_hour s = None then [Because ''no_active_log'']
      else if captured_naive s then [Because ''naive_clock'']
      else if \<not> (0 \<le> cursor s \<and> cursor s \<le> int (length (queue s))) then [Because ''cursor_out_of_range'']
      else if list_ex (\<lambda>it. playlist_log_id it \<noteq> active_log_id s) (queue s) then [Because ''queue_mixes_logs'']
      else [])"

definition deck_fault :: "deck_state \<Rightarrow> refill_reason list" where
  "deck_fault d =
     (case deck_item d of
        None \<Rightarrow> [Because ''deck_occurrence_unknown'']
      | Some it \<Rightarrow>
          if track_id it = None then [Because ''deck_occurrence_unknown'']
          else case position_seconds d of
            None \<Rightarrow> [Because ''position_unknown'']
          | Some p \<Rightarrow>
              (case timing_problem it of
                 Some f \<Rightarrow> [DeckProblem f]
               | None \<Rightarrow>
                   if p < 0 \<or> p > max (or_zero (duration it)) (or_zero (end_point it)) + POSITION_SANITY_SECONDS
                   then [Because ''position_implausible''] else []))"

text \<open>The measurement, from the committed elements on.\<close>

definition measure :: "(_ \<Rightarrow> utext) \<Rightarrow> snapshot \<Rightarrow> cause_record list \<Rightarrow> boundary option \<Rightarrow> seconds \<Rightarrow> seconds
    \<Rightarrow> element list \<Rightarrow> (int \<times> skip_reason) list \<Rightarrow> projection" where
  "measure hash s causes b allowance window els skipped =
     (let spans = sequence_runway els None allowance;
          rw = \<lparr>elements = map (\<lambda>(e, sp). (el_id e, el_role e, ms sp)) (zip els spans), total_seconds = ms (sum_list spans),
                deck_remaining = ms (hd spans), allowance_seconds = ms (allowance * of_nat (length spans)),
                skipped_rows = skipped\<rparr>;
          net = ms (max 0 (window - total_seconds rw));
          over = ms (max 0 (total_seconds rw - window));
          (qualified, excluded) = partition_causes s causes;
          (threshold, basis) = threshold_for qualified;
          measured = (\<lambda>out rs. (result_of hash s b out rs)\<lparr>window_seconds := Some (ms window), runway_of := Some rw,
            net_shortage := Some net, overfill := Some over, qualified_causes := qualified, excluded_causes := excluded,
            observed_total := ms (sum_list (map observed_shortening qualified))\<rparr>);
          judged = (\<lambda>out rs. (measured out rs)\<lparr>threshold_seconds := Some threshold, threshold_basis := Some basis\<rparr>)
      in if qualified = [] then measured OUTCOME_NO_QUALIFYING_CAUSE [Because ''no_current_hour_cause'']
         else if net \<le> 0 then judged OUTCOME_ALREADY_SATISFIED [Because ''committed_runway_reaches_boundary'']
         else if \<not> net > threshold then judged OUTCOME_BELOW_THRESHOLD [NotGreaterThan threshold]
         else judged OUTCOME_ELIGIBLE [Because ''net_shortage_exceeds_threshold''])"

definition project_window :: "zone \<Rightarrow> (_ \<Rightarrow> utext) \<Rightarrow> snapshot \<Rightarrow> cause_record list \<Rightarrow> boundary option \<Rightarrow> seconds
    \<Rightarrow> deck_state \<Rightarrow> int \<Rightarrow> int \<Rightarrow> refill_error + projection" where
  "project_window z hash s causes b allowance d a_date a_hour =
     (let result = result_of hash s b in
      case b of
        None \<Rightarrow> Inr (result OUTCOME_NO_SAFE_BOUNDARY [Because ''boundary_unproven''])
      | Some bo \<Rightarrow>
          (case (if kind bo = BOUNDARY_UNKNOWN then None else instant bo) of
             None \<Rightarrow> Inr (result OUTCOME_NO_SAFE_BOUNDARY
                       [Because (if reason bo = [] then ''boundary_unproven'' else reason bo)])
           | Some i \<Rightarrow>
               bindR (dst_problem z s bo a_date a_hour) (\<lambda>dst.
               case dst of Some p \<Rightarrow> Inr (result OUTCOME_UNSAFE_WINDOW [DstProblem p]) | None \<Rightarrow>
               let window = of_int (i - captured_at s) / 1000000;
                   timed = (\<lambda>rs. (result OUTCOME_UNSAFE_WINDOW rs)\<lparr>window_seconds := Some (ms window)\<rparr>) in
               if window \<le> MIN_WINDOW_SECONDS then Inr (timed [Because ''imminent_takeover''])
               else if window > MAX_WINDOW_SECONDS then Inr (timed [Because ''window_implausible''])
               else bindR (committed_sequence s d) (\<lambda>(els, skipped, problems).
                 if problems \<noteq> []
                 then Inr (timed (Because ''unreliable_duration'' # map (\<lambda>(i, f). ItemProblem i f) problems))
                 else Inr (measure hash s causes b allowance window els skipped)))))"

definition project_refill :: "zone \<Rightarrow> (_ \<Rightarrow> utext) \<Rightarrow> snapshot \<Rightarrow> cause_record list \<Rightarrow> boundary option \<Rightarrow> seconds
    \<Rightarrow> refill_error + projection" where
  "project_refill z hash s causes b allowance =
     (let result = result_of hash s b in
      if snapshot_fault s \<noteq> [] then Inr (result OUTCOME_INVALID_SNAPSHOT (snapshot_fault s))
      else case (active_log_date s, active_log_hour s) of
        (Some a_date, Some a_hour) \<Rightarrow>
          bindR (hour_relation z s b a_date a_hour) (\<lambda>relation.
          case relation of Some p \<Rightarrow> Inr (result OUTCOME_WRONG_HOUR [Because p]) | None \<Rightarrow>
          (case transport_block s of Some (out, r) \<Rightarrow> Inr (result out [Because r]) | None \<Rightarrow>
          (case live_decks s of
             [d] \<Rightarrow> if deck_fault d \<noteq> [] then Inr (result OUTCOME_UNSAFE_WINDOW (deck_fault d))
                    else project_window z hash s causes b allowance d a_date a_hour
           | _ \<Rightarrow> Inl UnpackError)))
      | _ \<Rightarrow> Inl TypeError)"

section \<open>The runway is never underestimated\<close>

lemma ms_bounds: "x - 1 / 2000 \<le> ms x" "ms x \<le> x + 1 / 2000"
  using round_even_bounds [of "x * 1000"] by (simp_all add: ms_def field_simps)

definition airtime :: "element \<Rightarrow> seconds" where
  "airtime e = el_end e - (case el_position e of None \<Rightarrow> el_cue e | Some p \<Rightarrow> p)"

lemma element_span_lower:
  assumes "0 \<le> or_zero succ"
  shows "e - (case pos of None \<Rightarrow> cue | Some p \<Rightarrow> p) + allowance \<le> element_span cue e succ pos allowance"
  using assms by (auto simp: element_span_def Let_def split: option.splits)

text \<open>In the ordinary case the span is the effective airtime, plus the allowance.\<close>

lemma element_span_ordinary:
  assumes "TRIGGER_CLAMP_SECONDS \<le> e - or_zero succ" and "cue \<le> e"
  shows "element_span cue e succ None allowance = e - cue + allowance"
  using assms by (simp add: element_span_def Let_def TRIGGER_CLAMP_SECONDS_def POLL_MIN_POSITION_SECONDS_def)

lemma runway_lower:
  assumes "list_all (\<lambda>e. 0 \<le> el_cue e) es" and "0 \<le> or_zero tail_cue"
  shows "sum_list (map airtime es) + allowance * of_nat (length es) \<le> sum_list (sequence_runway es tail_cue allowance)"
  using assms(1)
proof (induction es)
  case (Cons e es)
  have "0 \<le> or_zero (case es of [] \<Rightarrow> tail_cue | e' # _ \<Rightarrow> Some (el_cue e'))"
    using Cons.prems assms(2) by (auto simp: or_zero_def split: list.splits)
  from element_span_lower [OF this, of "el_end e" "el_cue e" "el_position e" allowance] Cons.IH Cons.prems
  show ?case by (simp add: airtime_def algebra_simps)
qed simp

lemma length_runway [simp]: "length (sequence_runway es tail_cue allowance) = length es"
  by (induction es) simp_all

text \<open>Keeping the first element of each key.\<close>

fun first_by :: "('a \<Rightarrow> 'k) \<Rightarrow> 'a list \<Rightarrow> 'a list" where
  "first_by f [] = []"
| "first_by f (x # xs) = x # filter (\<lambda>y. f y \<noteq> f x) (first_by f xs)"

lemma set_first_by: "set (first_by f xs) \<subseteq> set xs" "f ` set (first_by f xs) = f ` set xs"
proof -
  show "set (first_by f xs) \<subseteq> set xs" by (induction xs) auto
  have "f ` {y \<in> S. f y \<noteq> k} = f ` S - {k}" for S k by auto
  then show "f ` set (first_by f xs) = f ` set xs" by (induction xs) auto
qed

lemma distinct_first_by: "distinct (map f (first_by f xs))"
  by (induction xs) (auto simp: distinct_map inj_on_def)

lemma filter_insert_key:
  "filter (\<lambda>y. f y \<noteq> f x \<and> f y \<notin> K) xs = filter (\<lambda>y. f y \<notin> insert (f x) K) xs"
  by (rule filter_cong) auto

text \<open>Which rows are committed: each counts once.\<close>

definition counts :: "(int \<times> int) set \<Rightarrow> item_timing \<Rightarrow> bool" where
  "counts poison it \<longleftrightarrow> track_id it \<noteq> None
     \<and> \<not> (case playlist_log_id it of None \<Rightarrow> False | Some l \<Rightarrow> (l, log_item_id it) \<in> poison)"

definition committed_rows :: "snapshot \<Rightarrow> int \<Rightarrow> item_timing list" where
  "committed_rows s deck_row = filter (counts (poison_skip s))
     (filter (\<lambda>it. log_item_id it \<notin> {deck_row}) (first_by log_item_id (map fst (future_rows s))))"

definition fit_element :: "element \<Rightarrow> bool" where
  "fit_element e \<longleftrightarrow> 0 \<le> el_cue e \<and> el_cue e < el_end e \<and> el_position e = None"

lemma timing_problem_None:
  "timing_problem it = None \<longleftrightarrow> (\<exists>e. end_point it = Some e \<and> 0 \<le> or_zero (cue_in it) \<and> or_zero (cue_in it) < e
     \<and> (case duration it of None \<Rightarrow> True | Some d \<Rightarrow> 0 < d))"
  by (auto simp: timing_problem_def split: option.splits if_splits)

lemma collect_future_fit:
  "collect_future poison seen rows = (els, skipped, problems) \<Longrightarrow> list_all fit_element els"
  by (induction poison seen rows arbitrary: els skipped problems rule: collect_future.induct)
    (auto simp: fit_element_def timing_problem_None or_zero_def split: if_splits prod.splits option.splits)

lemma collect_future_rows:
  "collect_future poison seen rows = (els, skipped, []) \<Longrightarrow>
     map (\<lambda>e. (el_id e, airtime e)) els = map (\<lambda>it. (log_item_id it, or_zero (effective_seconds it)))
       (filter (counts poison) (filter (\<lambda>it. log_item_id it \<notin> seen) (first_by log_item_id (map fst rows))))"
proof (induction poison seen rows arbitrary: els skipped rule: collect_future.induct)
  case (2 poison seen it r rest)
  show ?case
  proof (cases "log_item_id it \<in> seen")
    case True
    have "filter (\<lambda>y. counts poison y \<and> log_item_id y \<notin> seen \<and> log_item_id y \<noteq> log_item_id it) xs
        = filter (\<lambda>y. counts poison y \<and> log_item_id y \<notin> seen) xs" for xs
      using True by (intro filter_cong) auto
    then show ?thesis using 2 True by (simp add: conj_commute)
  next
    case False
    obtain els' skipped' problems' where rest: "collect_future poison (insert (log_item_id it) seen) rest = (els', skipped', problems')"
      by (rule prod_cases3)
    have problems: "problems' = []" using "2.prems" False rest by (auto split: if_splits option.splits)
    have IH: "map (\<lambda>e. (el_id e, airtime e)) els' = map (\<lambda>it. (log_item_id it, or_zero (effective_seconds it)))
       (filter (counts poison) (filter (\<lambda>y. log_item_id y \<notin> insert (log_item_id it) seen) (first_by log_item_id (map fst rest))))"
      using "2.IH"(2) [OF False] rest problems by simp
    show ?thesis
    proof (cases "counts poison it")
      case True
      then have t: "timing_problem it = None" and els: "els = \<lparr>el_id = log_item_id it, el_cue = or_zero (cue_in it),
          el_end = or_zero (end_point it), el_position = None, el_role = r\<rparr> # els'"
        using "2.prems" False rest problems by (auto simp: counts_def split: if_splits option.splits)
      have "airtime \<lparr>el_id = log_item_id it, el_cue = or_zero (cue_in it),
          el_end = or_zero (end_point it), el_position = None, el_role = r\<rparr> = or_zero (effective_seconds it)"
        using t by (auto simp: airtime_def effective_seconds_def timing_problem_None or_zero_def)
      then show ?thesis using IH True False by (simp add: els filter_insert_key [symmetric] conj_commute)
    next
      case c: False
      then have "els = els'" using "2.prems" False rest problems by (auto simp: counts_def split: if_splits option.splits)
      then show ?thesis using IH c False by (simp add: filter_insert_key [symmetric] conj_commute)
    qed
  qed
qed simp

lemma committed_sequence_rows:
  assumes "committed_sequence s d = Inr (els, skipped, [])"
  obtains it e where "deck_item d = Some it" and "end_point it = Some e"
    and "hd els = \<lparr>el_id = log_item_id it, el_cue = or_zero (cue_in it), el_end = e, el_position = position_seconds d, el_role = RoleDeck\<rparr>"
    and "els \<noteq> []" and "list_all fit_element (tl els)"
    and "map (\<lambda>e. (el_id e, airtime e)) (tl els)
      = map (\<lambda>it. (log_item_id it, or_zero (effective_seconds it))) (committed_rows s (log_item_id it))"
proof -
  obtain it where it: "deck_item d = Some it" using assms by (auto simp: committed_sequence_def split: option.splits)
  obtain e where e: "end_point it = Some e" using assms it by (auto simp: committed_sequence_def split: option.splits)
  obtain els' where rest: "collect_future (poison_skip s) {log_item_id it} (future_rows s) = (els', skipped, [])"
    and els: "els = \<lparr>el_id = log_item_id it, el_cue = or_zero (cue_in it), el_end = e, el_position = position_seconds d,
        el_role = RoleDeck\<rparr> # els'"
    using assms it e by (auto simp: committed_sequence_def split: prod.splits)
  show ?thesis
    using that [OF it e] els collect_future_fit [OF rest] collect_future_rows [OF rest] by (simp add: committed_rows_def)
qed

section \<open>Which causes count\<close>

lemma qualify_pass_kept:
  "fst (qualify_pass problem seen rs)
     = filter (\<lambda>r. problem r = None) (filter (\<lambda>r. source_key r \<notin> seen) (first_by source_key rs))"
proof (induction problem seen rs rule: qualify_pass.induct)
  case (2 problem seen r rs)
  have "filter (\<lambda>y. problem y = None \<and> source_key y \<notin> seen \<and> source_key y \<noteq> source_key r) xs
      = filter (\<lambda>y. problem y = None \<and> source_key y \<notin> seen) xs" if "source_key r \<in> seen" for xs
    using that by (intro filter_cong) auto
  then show ?case using 2
    by (auto simp: filter_insert_key [symmetric] conj_commute split: prod.splits option.splits)
qed simp

lemma family_pass_kept:
  "fst (family_pass seen rs) = filter (\<lambda>r. occurrence r \<notin> seen) (first_by occurrence rs)"
proof (induction seen rs rule: family_pass.induct)
  case (2 seen r rs)
  have "filter (\<lambda>y. occurrence y \<notin> seen \<and> occurrence y \<noteq> occurrence r) xs = filter (\<lambda>y. occurrence y \<notin> seen) xs"
    if "occurrence r \<in> seen" for xs
    using that by (intro filter_cong) auto
  then show ?case using 2 by (auto simp: filter_insert_key [symmetric] conj_commute split: prod.splits)
qed simp

lemma qualify_pass_keys:
  "mset (map source_key (fst (qualify_pass problem seen rs)) @ map fst (snd (qualify_pass problem seen rs))) = mset (map source_key rs)"
  by (induction problem seen rs rule: qualify_pass.induct) (auto split: prod.splits option.splits)

lemma family_pass_keys:
  "mset (map source_key (fst (family_pass seen rs)) @ map fst (snd (family_pass seen rs))) = mset (map source_key rs)"
  by (induction seen rs rule: family_pass.induct) (auto split: prod.splits)

lemma partition_causes_qualified:
  "fst (partition_causes s records) = first_by occurrence (filter (\<lambda>r. cause_problem s r = None)
     (first_by source_key (sort_key causal_order records)))"
  using qualify_pass_kept [of "cause_problem s" "{}" "sort_key causal_order records"]
    family_pass_kept [of "{}" "fst (qualify_pass (cause_problem s) {} (sort_key causal_order records))"]
  by (auto simp: partition_causes_def split: prod.splits)

text \<open>
  The causes that count are decided by their causal order alone: of the records that still describe
  the running hour, the first of each occurrence (all ways of losing it being one family); every
  other record is listed with its reason, none is lost and none is counted twice.
\<close>

theorem partition_causes_exact:
  "fst (partition_causes s records) = first_by occurrence (filter (\<lambda>r. cause_problem s r = None)
       (first_by source_key (sort_key causal_order records)))
   \<and> distinct (map occurrence (fst (partition_causes s records)))
   \<and> mset (map source_key (fst (partition_causes s records)) @ map fst (snd (partition_causes s records)))
       = mset (map source_key records)"
proof (intro conjI)
  show "fst (partition_causes s records) = first_by occurrence (filter (\<lambda>r. cause_problem s r = None)
       (first_by source_key (sort_key causal_order records)))"
    by (rule partition_causes_qualified)
  show "distinct (map occurrence (fst (partition_causes s records)))"
    by (simp only: partition_causes_qualified distinct_first_by)
  show "mset (map source_key (fst (partition_causes s records)) @ map fst (snd (partition_causes s records)))
       = mset (map source_key records)"
    using qualify_pass_keys [of "cause_problem s" "{}" "sort_key causal_order records"]
      family_pass_keys [of "{}" "fst (qualify_pass (cause_problem s) {} (sort_key causal_order records))"]
    by (auto simp: partition_causes_def split: prod.splits) (metis union_assoc union_commute)
qed

lemma threshold_for_lower: "30 \<le> fst (threshold_for qualified)"
proof -
  let ?types = "set (map cause_type qualified)"
  have known: "30 \<le> or_zero (map_of CUT_THRESHOLDS t)" if "t \<in> set (map fst CUT_THRESHOLDS)" for t
    using that by (auto simp: CUT_THRESHOLDS_def or_zero_def)
  have "30 \<le> Max ((\<lambda>t. or_zero (map_of CUT_THRESHOLDS t)) ` ?types)"
    if "?types \<subseteq> set (map fst CUT_THRESHOLDS)" "t \<in> ?types" for t
  proof -
    have "30 \<le> or_zero (map_of CUT_THRESHOLDS t)" using that by (intro known) blast
    also have "\<dots> \<le> Max ((\<lambda>t. or_zero (map_of CUT_THRESHOLDS t)) ` ?types)" using that(2) by (intro Max_ge) auto
    finally show ?thesis .
  qed
  note cut = this
  have strict: "30 \<le> Max (insert REQUEST_MUSIC_TRIGGER_THRESHOLD_SECONDS (snd ` set CUT_THRESHOLDS))"
    by (simp add: REQUEST_MUSIC_TRIGGER_THRESHOLD_SECONDS_def CUT_THRESHOLDS_def)
  show ?thesis
  proof (cases "CAUSE_REQUEST_SUBSTITUTION \<in> ?types \<or> ?types \<subseteq> {CAUSE_OPERATOR_EJECT}")
    case True
    then show ?thesis by (auto simp: threshold_for_def Let_def REQUEST_MUSIC_TRIGGER_THRESHOLD_SECONDS_def)
  next
    case few: False
    then obtain t where t: "t \<in> ?types" by auto
    show ?thesis
    proof (cases "?types \<subseteq> set (map fst CUT_THRESHOLDS)")
      case True
      have "fst (threshold_for qualified) = Max ((\<lambda>t. or_zero (map_of CUT_THRESHOLDS t)) ` ?types)"
        using few True by (simp add: threshold_for_def Let_def del: set_map)
      then show ?thesis using cut [OF True t] by (simp only:)
    next
      case False
      then show ?thesis using few strict by (simp add: threshold_for_def Let_def del: set_map)
    qed
  qed
qed

section \<open>What an eligible projection means\<close>

text \<open>What is left of the occurrence on the deck that is on the air.\<close>

definition deck_left :: "deck_state \<Rightarrow> item_timing \<Rightarrow> seconds" where
  "deck_left d it = or_zero (end_point it) - (case position_seconds d of None \<Rightarrow> or_zero (cue_in it) | Some p \<Rightarrow> p)"

definition idle_transport :: "snapshot \<Rightarrow> bool" where
  "idle_transport s \<longleftrightarrow> \<not> manual_mode s \<and> \<not> remote_dj s \<and> \<not> mic_live s \<and> vt_phase s = ''idle'' \<and> \<not> start_next_active s
     \<and> \<not> next_triggered s \<and> \<not> resume_pending s \<and> \<not> live_fill_in_progress s \<and> \<not> list_ex paused (decks s)"

lemma transport_block_None: "transport_block s = None \<longleftrightarrow> idle_transport s \<and> (\<exists>d. live_decks s = [d])"
proof -
  have "\<not> length (live_decks s) > 1 \<and> live_decks s \<noteq> [] \<longleftrightarrow> (\<exists>d. live_decks s = [d])"
    by (cases "live_decks s") auto
  then show ?thesis by (auto simp: transport_block_def idle_transport_def)
qed

lemma measure_eligible:
  assumes "outcome (measure hash s causes b allowance window els skipped) = OUTCOME_ELIGIBLE"
  shows "fst (partition_causes s causes) \<noteq> []"
    and "fst (threshold_for (fst (partition_causes s causes))) < ms (max 0 (window - ms (sum_list (sequence_runway els None allowance))))"
  using assms by (auto simp: measure_def Let_def result_of_def split: prod.splits if_splits)

lemma project_window_eligible:
  assumes "project_window z hash s causes b allowance d dt hr = Inr p" and "outcome p = OUTCOME_ELIGIBLE"
  obtains bo i els skipped where "b = Some bo" and "kind bo \<noteq> BOUNDARY_UNKNOWN" and "instant bo = Some i"
    and "dst_problem z s bo dt hr = Inr None"
    and "MIN_WINDOW_SECONDS < of_int (i - captured_at s) / 1000000" and "of_int (i - captured_at s) / 1000000 \<le> MAX_WINDOW_SECONDS"
    and "committed_sequence s d = Inr (els, skipped, [])"
    and "p = measure hash s causes b allowance (of_int (i - captured_at s) / 1000000) els skipped"
proof -
  obtain bo where b: "b = Some bo" using assms by (cases b) (auto simp: project_window_def result_of_def)
  obtain i where i: "kind bo \<noteq> BOUNDARY_UNKNOWN" "instant bo = Some i"
    using assms b by (auto simp: project_window_def Let_def result_of_def split: if_splits option.splits)
  obtain dst where dst: "dst_problem z s bo dt hr = Inr dst"
    using assms b i by (auto simp: project_window_def Let_def elim: bindR_InrE)
  have none: "dst = None" using assms b i dst by (cases dst) (auto simp: project_window_def Let_def result_of_def)
  have w: "MIN_WINDOW_SECONDS < of_int (i - captured_at s) / 1000000" "of_int (i - captured_at s) / 1000000 \<le> MAX_WINDOW_SECONDS"
    using assms b i dst none by (auto simp: project_window_def Let_def result_of_def split: if_splits)
  then obtain els skipped problems where seq: "committed_sequence s d = Inr (els, skipped, problems)"
    using assms b i dst none by (auto simp: project_window_def Let_def split: if_splits elim!: bindR_InrE)
  have "problems = []" using assms b i dst none w seq by (auto simp: project_window_def Let_def result_of_def split: if_splits)
  then show ?thesis using that [OF b i] assms b i dst none w seq
    by (simp add: project_window_def Let_def)
qed

lemma project_refill_window:
  assumes "project_refill z hash s causes b allowance = Inr p" and "outcome p = OUTCOME_ELIGIBLE"
  obtains dt hr d where "snapshot_fault s = []" and "active_log_date s = Some dt" and "active_log_hour s = Some hr"
    and "hour_relation z s b dt hr = Inr None" and "idle_transport s" and "live_decks s = [d]" and "deck_fault d = []"
    and "project_window z hash s causes b allowance d dt hr = Inr p"
proof -
  have ok: "snapshot_fault s = []" using assms by (auto simp: project_refill_def Let_def result_of_def split: if_splits)
  obtain dt hr where key: "active_log_date s = Some dt" "active_log_hour s = Some hr"
    using assms ok by (auto simp: project_refill_def Let_def split: option.splits)
  obtain rel where rel: "hour_relation z s b dt hr = Inr rel"
    using assms ok key by (auto simp: project_refill_def Let_def elim: bindR_InrE)
  have none: "rel = None" using assms ok key rel by (cases rel) (auto simp: project_refill_def Let_def result_of_def)
  have "fst t \<noteq> OUTCOME_ELIGIBLE" if "transport_block s = Some t" for t
    using that by (auto simp: transport_block_def split: list.splits if_splits)
  then have free: "transport_block s = None"
    using assms ok key rel none by (cases "transport_block s") (auto simp: project_refill_def Let_def result_of_def)
  then obtain d where d: "idle_transport s" "live_decks s = [d]" by (auto simp: transport_block_None)
  have "deck_fault d = []"
    using assms ok key rel none free d by (auto simp: project_refill_def Let_def result_of_def split: if_splits)
  then show ?thesis using that [OF ok key] assms ok key rel none free d by (simp add: project_refill_def Let_def)
qed

text \<open>
  C20. A shortage is reported only when it is real: one deck is on the air and nothing else holds the
  transport, the boundary is proven and between one minute and two hours away, a cause of this hour
  counts, and what is left on the deck together with the full airtime of every committed row, each taken
  once, still ends more than the threshold (at least half a minute) before the boundary.
\<close>

theorem eligible_shortage_is_real:
  assumes "project_refill z hash s causes b allowance = Inr p" and "outcome p = OUTCOME_ELIGIBLE" and "0 \<le> allowance"
  shows "idle_transport s \<and> fst (partition_causes s causes) \<noteq> []
    \<and> (\<exists>d it bo i. live_decks s = [d] \<and> deck_item d = Some it \<and> b = Some bo \<and> kind bo \<noteq> BOUNDARY_UNKNOWN \<and> instant bo = Some i
        \<and> 60 < (of_int (i - captured_at s) / 1000000 :: seconds) \<and> (of_int (i - captured_at s) / 1000000 :: seconds) \<le> 7200
        \<and> deck_left d it + sum_list (map (\<lambda>it. or_zero (effective_seconds it)) (committed_rows s (log_item_id it)))
             + fst (threshold_for (fst (partition_causes s causes))) < of_int (i - captured_at s) / 1000000 + 1 / 1000)
    \<and> 30 \<le> fst (threshold_for (fst (partition_causes s causes)))"
proof -
  obtain dt hr d where d: "idle_transport s" "live_decks s = [d]" "deck_fault d = []"
    and win: "project_window z hash s causes b allowance d dt hr = Inr p"
    using assms(1,2) by (rule project_refill_window)
  obtain bo i els skipped where b: "b = Some bo" "kind bo \<noteq> BOUNDARY_UNKNOWN" "instant bo = Some i"
    and w: "MIN_WINDOW_SECONDS < of_int (i - captured_at s) / 1000000" "of_int (i - captured_at s) / 1000000 \<le> MAX_WINDOW_SECONDS"
    and seq: "committed_sequence s d = Inr (els, skipped, [])"
    and p: "p = measure hash s causes b allowance (of_int (i - captured_at s) / 1000000) els skipped"
    using win assms(2) by (rule project_window_eligible)
  let ?w = "of_int (i - captured_at s) / 1000000 :: seconds" and ?thr = "fst (threshold_for (fst (partition_causes s causes)))"
    and ?total = "sum_list (sequence_runway els None allowance)"
  note eligible = measure_eligible [OF assms(2) [unfolded p]]
  obtain it e where it: "deck_item d = Some it" "end_point it = Some e"
    and els: "els \<noteq> []" "hd els = \<lparr>el_id = log_item_id it, el_cue = or_zero (cue_in it), el_end = e,
        el_position = position_seconds d, el_role = RoleDeck\<rparr>" "list_all fit_element (tl els)"
    and rows: "map (\<lambda>e. (el_id e, airtime e)) (tl els)
      = map (\<lambda>it. (log_item_id it, or_zero (effective_seconds it))) (committed_rows s (log_item_id it))"
    using seq by (rule committed_sequence_rows)
  have "timing_problem it = None" using d(3) it by (auto simp: deck_fault_def split: option.splits if_splits)
  then have "0 \<le> el_cue (hd els)" using els(2) by (auto simp: timing_problem_None)
  then have cues: "list_all (\<lambda>e. 0 \<le> el_cue e) els"
    using els(1,3) by (cases els) (auto simp: list_all_iff fit_element_def)
  have "sum_list (map airtime els) + allowance * of_nat (length els) \<le> ?total"
    by (rule runway_lower [OF cues]) (simp add: or_zero_def)
  moreover have "0 \<le> allowance * of_nat (length els)" using assms(3) by simp
  moreover have "map airtime (tl els) = map (\<lambda>it. or_zero (effective_seconds it)) (committed_rows s (log_item_id it))"
    using arg_cong [OF rows, of "map snd"] by (simp add: comp_def)
  then have "sum_list (map airtime els)
      = deck_left d it + sum_list (map (\<lambda>it. or_zero (effective_seconds it)) (committed_rows s (log_item_id it)))"
    using els(1,2) it(2) by (cases els; cases "position_seconds d") (simp_all add: airtime_def deck_left_def or_zero_def)
  moreover have "?total \<le> ms ?total + 1 / 2000" using ms_bounds(1) [of ?total] by simp
  moreover have "?thr < max 0 (?w - ms ?total) + 1 / 2000"
    using eligible(2) ms_bounds(2) [of "max 0 (?w - ms ?total)"] by simp
  moreover have thr: "30 \<le> ?thr" by (rule threshold_for_lower)
  ultimately have "deck_left d it + sum_list (map (\<lambda>it. or_zero (effective_seconds it)) (committed_rows s (log_item_id it)))
      + ?thr < ?w + 1 / 1000"
    by (simp add: max_def split: if_splits)
  moreover have "60 < ?w" "?w \<le> 7200" using w by (simp_all add: MIN_WINDOW_SECONDS_def MAX_WINDOW_SECONDS_def)
  ultimately show ?thesis using d(1,2) it(1) b eligible(1) thr by blast
qed

definition sample_row :: "int \<Rightarrow> seconds \<Rightarrow> item_timing" where
  "sample_row i len = \<lparr>log_item_id = i, playlist_log_id = Some 7, item_position = Some i, track_id = Some (100 + i),
     category_id = Some 1, category_kind = Some ''music'', cue_in = None, next_start = None, duration = Some len,
     claimed = False, played = False\<rparr>"

definition sample_snapshot :: snapshot where
  "sample_snapshot = \<lparr>captured_at = 0, captured_naive = False, engine_instance = [], active_log_id = Some 7,
     active_log_date = Some 0, active_log_hour = Some 0, cursor = 2, queue = [sample_row 1 200, sample_row 2 200, sample_row 3 180],
     forced = [], decks = [\<lparr>slot = ''A'', generation = Some 1, deck_item = Some (sample_row 2 200), position_seconds = Some 20,
       live = True, paused = False\<rparr>],
     poison_skip = {}, manual_mode = False, remote_dj = False, mic_live = False, vt_phase = ''idle'', start_next_active = False,
     next_triggered = False, resume_pending = False, live_fill_in_progress = False, capture_errors = []\<rparr>"

definition sample_cause :: cause_record where
  "sample_cause = \<lparr>cause_pk = Some 1, source_key = [1], cause_type = CAUSE_OPERATOR_EJECT, occurred_at = 0, cause_log_id = 7,
     cause_log_date = 0, cause_log_hour = 0, cause_item_id = 1, scheduled_category_id = Some 1, scheduled_category_code = [],
     scheduled_kind_code = ''music'',
     original_track_id = Some 101, replacement_track_id = None, observed_shortening = 150, failure_phase = []\<rparr>"

definition sample_boundary :: boundary where
  "sample_boundary = \<lparr>kind = BOUNDARY_ORDINARY, instant = Some 600000000, proof_source = ''schedule_resolution'', next_log_id = None, reason = []\<rparr>"

definition utc :: zone where "utc = \<lparr>offset_at = (\<lambda>_. 0), offset_of_wall = (\<lambda>_. 0)\<rparr>"

theorem eligible_shortage_is_real_witness:
  "idle_transport sample_snapshot \<and> fst (partition_causes sample_snapshot [sample_cause]) \<noteq> []"
proof -
  have "map_sum id outcome (project_refill utc (\<lambda>_. []) sample_snapshot [sample_cause] (Some sample_boundary) (1 / 4)) = Inr OUTCOME_ELIGIBLE"
    by code_simp
  then obtain p where p: "project_refill utc (\<lambda>_. []) sample_snapshot [sample_cause] (Some sample_boundary) (1 / 4) = Inr p"
      "outcome p = OUTCOME_ELIGIBLE"
    by (cases "project_refill utc (\<lambda>_. []) sample_snapshot [sample_cause] (Some sample_boundary) (1 / 4)") auto
  show ?thesis using eligible_shortage_is_real [OF p] by simp
qed

section \<open>What can go wrong\<close>

lemma hour_key_inverse: "0 \<le> h \<Longrightarrow> h < 24 \<Longrightarrow> hour_key_of ((d * 24 + h) * HOUR) = (d, h)"
  by (simp add: hour_key_of_def HOUR_def div_mult2_eq)

lemma wall_hour_range: "0 \<le> snd (hour_key_of w) \<and> snd (hour_key_of w) < 24"
  by (simp add: hour_key_of_def)

text \<open>
  Whatever the engine's memory holds, the projection answers with an outcome; the one thing that makes
  it raise is a log whose hour is not an hour of the day.
\<close>

theorem projection_raises_exactly:
  "project_refill z hash s causes b allowance = Inl e \<longleftrightarrow> e = BadHour \<and> snapshot_fault s = []
     \<and> (case active_log_hour s of None \<Rightarrow> False | Some h \<Rightarrow> h < 0 \<or> 24 \<le> h)"
proof (cases "snapshot_fault s = []")
  case False
  then show ?thesis by (simp add: project_refill_def Let_def)
next
  case ok: True
  then obtain dt hr where key: "active_log_date s = Some dt" "active_log_hour s = Some hr"
    by (auto simp: snapshot_fault_def split: if_splits)
  show ?thesis
  proof (cases "0 \<le> hr \<and> hr < 24")
    case False
    then have "hour_relation z s b dt hr = Inl BadHour"
      using wall_hour_range [of "wall_at z (captured_at s)"]
      by (auto simp: hour_relation_def Let_def next_hour_key_def)
    then show ?thesis using ok key False by (auto simp: project_refill_def Let_def)
  next
    case True
    have "is_ok (project_window z hash s causes b allowance d dt hr)" if "deck_fault d = []" for d
    proof -
      have "\<exists>x. committed_sequence s d = Inr x"
        using that by (auto simp: deck_fault_def committed_sequence_def timing_problem_None split: option.splits if_splits prod.splits)
      then obtain x where "committed_sequence s d = Inr x" by blast
      then show ?thesis using True
        by (auto simp: project_window_def Let_def dst_problem_def next_hour_key_def is_ok_def split: option.splits prod.splits)
    qed
    moreover have "is_ok (hour_relation z s b dt hr)"
      using True by (simp add: hour_relation_def Let_def next_hour_key_def)
    ultimately have "is_ok (project_refill z hash s causes b allowance)"
      using ok key by (auto simp: project_refill_def Let_def is_ok_def transport_block_None split: option.splits list.splits)
    then show ?thesis using ok key True by (auto simp: is_ok_def)
  qed
qed

end
