(* ===== verification/Refill_Fit.thy ===== *)
theory Refill_Fit
  imports Refill_Projection "HOL-Library.AList"
begin

text \<open>
  The hour-refill proposals of \<^verbatim>\<open>library/services/hour_refill_proposal.py\<close>: where new items may go, which one
  or two tracks fit best without overrunning the boundary, and the residual PSA. The rows the database
  answers with are arguments, collected in \<open>refill_reads\<close>.
\<close>

section \<open>Placement\<close>

datatype placement_mode = TailAppend | InsertBefore

record placement =
  mode :: "placement_mode option"
  placement_reason :: string
  after_log_item :: "int option"
  anchor_log_item :: "int option"
  start_position :: "int option"

definition nowhere :: "string \<Rightarrow> int option \<Rightarrow> placement" where
  "nowhere r anchor = \<lparr>mode = None, placement_reason = r, after_log_item = None, anchor_log_item = anchor, start_position = None\<rparr>"

record request_context =
  active_track_ids :: "int set"
  request_item_ids :: "int set"
  intro_item_ids :: "int set"

definition closer_problem :: "snapshot \<Rightarrow> request_context \<Rightarrow> item_timing \<Rightarrow> string option" where
  "closer_problem s ctx row =
     (if claimed row then Some ''closer_claimed''
      else if played row then Some ''closer_played''
      else if log_item_id row \<in> deck_ids s then Some ''closer_on_deck''
      else if log_item_id row \<in> log_item_id ` set (forced s) then Some ''closer_forced''
      else if log_item_id row \<in> request_item_ids ctx then Some ''closer_request_slot''
      else if log_item_id row \<in> intro_item_ids ctx then Some ''closer_dedication_intro''
      else if track_id row = None then Some ''closer_unplayable'' else None)"

definition protected_row :: "item_timing \<Rightarrow> bool" where
  "protected_row it \<longleftrightarrow> category_kind it \<noteq> Some ''music'' \<and> category_kind it \<noteq> None"

text \<open>The index of the first row of the closing block.\<close>

definition closing_index :: "item_timing list \<Rightarrow> nat" where
  "closing_index q = length q - length (takeWhile protected_row (rev q))"

definition assess_placement :: "snapshot \<Rightarrow> request_context \<Rightarrow> placement" where
  "assess_placement s ctx =
     (let q = queue s in
      if q = [] then nowhere ''empty_queue'' None
      else if category_kind (last q) = None then nowhere ''tail_kind_unknown'' None
      else if category_kind (last q) = Some ''music''
      then \<lparr>mode = Some TailAppend, placement_reason = ''final_row_is_music'', after_log_item = Some (log_item_id (last q)),
             anchor_log_item = None, start_position = Some ((case item_position (last q) of None \<Rightarrow> 0 | Some p \<Rightarrow> p) + 1)\<rparr>
      else
        let k = closing_index q; anchor = q ! k; here = (\<lambda>r. nowhere r (Some (log_item_id anchor))) in
        if k > 0 \<and> category_kind (q ! (k - 1)) = None then nowhere ''closing_block_kind_unknown'' None
        else if int k < cursor s then here ''closing_block_already_dequeued''
        else if int k = cursor s then here ''anchor_next_up''
        else case List.map_filter (closer_problem s ctx) (drop k q) of
               p # _ \<Rightarrow> here p
             | [] \<Rightarrow>
                 if k > 0 \<and> log_item_id (q ! (k - 1)) \<in> intro_item_ids ctx then here ''intro_adjacency''
                 else \<lparr>mode = Some InsertBefore, placement_reason = ''protected_closing_block'', after_log_item = None,
                        anchor_log_item = Some (log_item_id anchor), start_position = item_position anchor\<rparr>)"

section \<open>The fit frame\<close>

record candidate =
  cand_track :: int
  cand_category :: int
  cand_rank :: int
  cand_cue :: seconds
  cand_end :: seconds
  cand_effective :: seconds
  identity_keys :: "utext set"
  filepath :: utext

record fit_frame =
  window :: seconds
  prefix_fixed :: seconds
  last_prefix :: element
  suffix_first_cue :: "seconds option"
  suffix_total :: seconds
  allowance :: seconds
  prefix_element_count :: nat
  reserve_base :: seconds
  reserve_per_item :: seconds

definition last_span :: "fit_frame \<Rightarrow> seconds option \<Rightarrow> seconds" where
  "last_span f successor = element_span (el_cue (last_prefix f)) (el_end (last_prefix f)) successor
     (el_position (last_prefix f)) (allowance f)"

definition base_total :: "fit_frame \<Rightarrow> seconds" where
  "base_total f = prefix_fixed f + last_span f (suffix_first_cue f) + suffix_total f"

definition reserve :: "fit_frame \<Rightarrow> nat \<Rightarrow> seconds" where
  "reserve f n = (if n = 0 then 0 else reserve_base f + reserve_per_item f * of_nat n)"

fun inserted_spans :: "fit_frame \<Rightarrow> candidate list \<Rightarrow> seconds" where
  "inserted_spans f [] = 0"
| "inserted_spans f (c # cs) =
     element_span (cand_cue c) (cand_end c) (case cs of [] \<Rightarrow> suffix_first_cue f | c' # _ \<Rightarrow> Some (cand_cue c')) None (allowance f)
     + inserted_spans f cs"

text \<open>\<^verbatim>\<open>FitFrame.total\<close> of a sequence that is not empty: the empty one is an IndexError, and is never asked for.\<close>

definition frame_total :: "fit_frame \<Rightarrow> candidate \<Rightarrow> candidate list \<Rightarrow> seconds" where
  "frame_total f c cs = prefix_fixed f + last_span f (Some (cand_cue c)) + suffix_total f
     + inserted_spans f (c # cs) + reserve f (Suc (length cs))"

definition insertion_lead :: "fit_frame \<Rightarrow> candidate \<Rightarrow> seconds" where
  "insertion_lead f c = max 0 (prefix_fixed f + last_span f (Some (cand_cue c)) - allowance f * of_nat (prefix_element_count f))"

definition build_fit_frame ::
  "snapshot \<Rightarrow> seconds \<Rightarrow> placement \<Rightarrow> seconds \<Rightarrow> (seconds \<times> seconds) option \<Rightarrow> refill_error + fit_frame option" where
  "build_fit_frame s win pl allow budget =
     (case live_decks s of
        [d] \<Rightarrow>
          bindR (committed_sequence s d) (\<lambda>(els, skipped, problems).
          let split = (if mode pl = Some InsertBefore
                then (if anchor_log_item pl \<in> Some ` set (map el_id els)
                      then Some (length (takeWhile (\<lambda>e. Some (el_id e) \<noteq> anchor_log_item pl) els)) else None)
                else Some (length els)) in
          case split of
            None \<Rightarrow> Inr None
          | Some k \<Rightarrow>
              let prefix = take k els; suffix = drop k els in
              if prefix = [] then Inr None
              else Inr (Some \<lparr>window = win,
                prefix_fixed = sum_list (butlast (sequence_runway prefix None allow)),
                last_prefix = last prefix,
                suffix_first_cue = (case suffix of [] \<Rightarrow> None | e # _ \<Rightarrow> Some (el_cue e)),
                suffix_total = sum_list (sequence_runway (map (\<lambda>e. e\<lparr>el_position := None\<rparr>) suffix) None allow),
                allowance = allow, prefix_element_count = length prefix,
                reserve_base = (case budget of None \<Rightarrow> 0 | Some (b, _) \<Rightarrow> b),
                reserve_per_item = (case budget of None \<Rightarrow> 0 | Some (_, p) \<Rightarrow> p)\<rparr>))
      | _ \<Rightarrow> Inl UnpackError)"

section \<open>The search\<close>

record fit_result =
  fit_items :: "candidate list"
  fit_total :: seconds
  fit_residual :: seconds
  evaluations :: nat
  truncated :: bool

type_synonym rank_key = "seconds \<times> int \<times> nat \<times> int list"

definition rank_key :: "seconds \<Rightarrow> candidate list \<Rightarrow> rank_key" where
  "rank_key residual cs = (ms residual, sum_list (map cand_rank cs), length cs, map cand_track cs)"

type_synonym best_fit = "(rank_key \<times> candidate list \<times> seconds \<times> seconds) option"

definition consider_seq :: "fit_frame \<Rightarrow> candidate list \<Rightarrow> best_fit \<times> nat \<Rightarrow> best_fit \<times> nat" where
  "consider_seq f cs = (\<lambda>(best, n).
     case cs of [] \<Rightarrow> (best, n)
     | c # rest \<Rightarrow>
         let total = frame_total f c rest; residual = window f - total; key = rank_key residual cs in
         if residual < 0 then (best, Suc n)
         else if (case best of None \<Rightarrow> True | Some b \<Rightarrow> key < fst b) then (Some (key, cs, total, residual), Suc n)
         else (best, Suc n))"

definition PAIR_NEIGHBOURS :: nat where "PAIR_NEIGHBOURS = 8"
definition PAIR_SCAN_LIMIT :: nat where "PAIR_SCAN_LIMIT = 64"
definition MEDIA_RETRY_LIMIT :: nat where "MEDIA_RETRY_LIMIT = 8"
definition MAX_MUSIC_TRACKS :: nat where "MAX_MUSIC_TRACKS = 2"

definition conflict :: "candidate \<Rightarrow> candidate \<Rightarrow> bool" where
  "conflict a b \<longleftrightarrow> cand_track b = cand_track a \<or> identity_keys a \<inter> identity_keys b \<noteq> {}"

text \<open>The partners of the inner loop, from the largest that fits downwards.\<close>

fun partners :: "candidate \<Rightarrow> nat \<Rightarrow> nat \<Rightarrow> candidate list \<Rightarrow> candidate list" where
  "partners a valid scanned [] = []"
| "partners a valid scanned (b # bs) =
     (if valid < PAIR_NEIGHBOURS \<and> scanned < PAIR_SCAN_LIMIT
      then (if conflict a b then partners a valid (Suc scanned) bs else b # partners a (Suc valid) (Suc scanned) bs)
      else [])"

definition partner_pool :: "candidate list \<Rightarrow> seconds \<Rightarrow> candidate \<Rightarrow> candidate list" where
  "partner_pool ordered available a = rev (takeWhile (\<lambda>c. cand_effective c \<le> available - cand_effective a) ordered)"

fun pair_loop :: "fit_frame \<Rightarrow> candidate list \<Rightarrow> seconds \<Rightarrow> nat \<Rightarrow> candidate list \<Rightarrow> best_fit \<times> nat \<Rightarrow> (best_fit \<times> nat) \<times> bool" where
  "pair_loop f ordered available budget [] st = (st, False)"
| "pair_loop f ordered available budget (a # as) st =
     (if snd st \<ge> budget then (st, True)
      else pair_loop f ordered available budget as
        (fold (consider_seq f) (concat (map (\<lambda>b. [[a, b], [b, a]]) (partners a 0 0 (partner_pool ordered available a)))) st))"

definition search_state :: "candidate list \<Rightarrow> fit_frame \<Rightarrow> nat \<Rightarrow> nat \<Rightarrow> (best_fit \<times> nat) \<times> bool" where
  "search_state candidates f max_tracks budget =
     (let ordered = sort_key (\<lambda>c. (cand_effective c, cand_track c)) candidates;
          singles = fold (consider_seq f) (map (\<lambda>c. [c]) ordered) (None, 0)
      in if max_tracks \<ge> 2 \<and> length ordered > 1
         then pair_loop f ordered (window f - base_total f) budget (sort_key cand_track ordered) singles
         else (singles, False))"

definition fit_of :: "(best_fit \<times> nat) \<times> bool \<Rightarrow> fit_result" where
  "fit_of st =
     (case fst (fst st) of
        None \<Rightarrow> \<lparr>fit_items = [], fit_total = 0, fit_residual = 0, evaluations = snd (fst st), truncated = snd st\<rparr>
      | Some (_, cs, tot, left) \<Rightarrow>
          \<lparr>fit_items = cs, fit_total = ms tot, fit_residual = ms left, evaluations = snd (fst st), truncated = snd st\<rparr>)"

definition search_best_fit :: "candidate list \<Rightarrow> fit_frame \<Rightarrow> nat \<Rightarrow> nat \<Rightarrow> fit_result" where
  "search_best_fit candidates f max_tracks budget = fit_of (search_state candidates f max_tracks budget)"

text \<open>\<^verbatim>\<open>search_with_media\<close>; the cache answers per track, once.\<close>

type_synonym media_cache = "int \<rightharpoonup> bool"

definition media_available :: "(utext \<Rightarrow> bool) \<Rightarrow> candidate \<Rightarrow> media_cache \<Rightarrow> bool \<times> media_cache" where
  "media_available is_file c cache =
     (case cache (cand_track c) of Some b \<Rightarrow> (b, cache)
      | None \<Rightarrow> (is_file (filepath c), cache(cand_track c \<mapsto> is_file (filepath c))))"

fun missing_media :: "(utext \<Rightarrow> bool) \<Rightarrow> candidate list \<Rightarrow> media_cache \<Rightarrow> candidate list \<times> media_cache" where
  "missing_media is_file [] cache = ([], cache)"
| "missing_media is_file (c # cs) cache =
     (let (here, cache1) = media_available is_file c cache; (rest, cache2) = missing_media is_file cs cache1
      in (if here then rest else c # rest, cache2))"

fun search_with_media :: "nat \<Rightarrow> (utext \<Rightarrow> bool) \<Rightarrow> fit_frame \<Rightarrow> nat \<Rightarrow> candidate list \<Rightarrow> media_cache \<Rightarrow> fit_result
    \<Rightarrow> (fit_result \<times> bool) \<times> media_cache" where
  "search_with_media 0 is_file f budget pool cache previous =
     ((\<lparr>fit_items = [], fit_total = 0, fit_residual = 0, evaluations = evaluations previous, truncated = truncated previous\<rparr>, True), cache)"
| "search_with_media (Suc n) is_file f budget pool cache previous =
     (let result = search_best_fit pool f MAX_MUSIC_TRACKS budget;
          (missing, cache1) = missing_media is_file (fit_items result) cache in
      if missing = [] then ((result, False), cache1)
      else search_with_media n is_file f budget (filter (\<lambda>c. cand_track c \<notin> cand_track ` set missing) pool) cache1 result)"

section \<open>Candidates\<close>

record pool_row =
  row_track :: int
  row_cue :: "seconds option"
  row_next :: "seconds option"
  row_duration :: "seconds option"
  row_keys :: "utext set"
  row_path :: utext

definition timing_from_row :: "pool_row \<Rightarrow> string + seconds \<times> seconds \<times> seconds" where
  "timing_from_row r =
     (case row_duration r of
        None \<Rightarrow> Inl ''unreliable_duration''
      | Some d \<Rightarrow>
          if d \<le> 0 then Inl ''unreliable_duration''
          else if (case row_next r of None \<Rightarrow> False | Some n \<Rightarrow> n \<le> 0 \<or> n > d + POSITION_SANITY_SECONDS)
          then Inl ''unreliable_next_start''
          else let cue = or_zero (row_cue r); e = (case row_next r of None \<Rightarrow> d | Some n \<Rightarrow> n) in
            if cue < 0 \<or> e - cue \<le> 0 then Inl ''nonpositive_airtime'' else Inr (cue, e, e - cue))"

definition MAX_ROWS_PER_SOURCE :: nat where "MAX_ROWS_PER_SOURCE = 5000"

definition candidate_of ::
  "int \<Rightarrow> int \<Rightarrow> utext set \<Rightarrow> (utext \<Rightarrow> bool) \<Rightarrow> seconds \<Rightarrow> seconds \<Rightarrow> pool_row \<Rightarrow> candidate option" where
  "candidate_of category rank banned_keys reserved min_seconds max_seconds r =
     (case timing_from_row r of
        Inl p \<Rightarrow> None
      | Inr (cue, e, eff) \<Rightarrow>
          if row_keys r \<inter> banned_keys \<noteq> {} \<or> row_path r = [] \<or> reserved (row_path r) \<or> eff < min_seconds \<or> eff > max_seconds
          then None
          else Some \<lparr>cand_track = row_track r, cand_category = category, cand_rank = rank, cand_cue = cue, cand_end = e,
                      cand_effective = eff, identity_keys = row_keys r, filepath = row_path r\<rparr>)"

definition load_candidates ::
  "pool_row list \<Rightarrow> int set \<Rightarrow> utext set \<Rightarrow> (utext \<Rightarrow> bool) \<Rightarrow> int \<Rightarrow> int \<Rightarrow> seconds \<Rightarrow> seconds \<Rightarrow> candidate list" where
  "load_candidates rows banned_ids banned_keys reserved category rank min_seconds max_seconds =
     List.map_filter (candidate_of category rank banned_keys reserved min_seconds max_seconds)
       (take MAX_ROWS_PER_SOURCE (filter (\<lambda>r. row_track r \<notin> banned_ids) rows))"

section \<open>Category sources\<close>

definition last_remaining_music :: "snapshot \<Rightarrow> refill_error + item_timing option \<times> string" where
  "last_remaining_music s =
     (case live_decks s of
        [d] \<Rightarrow>
          let rows = deck_item d # map (Some \<circ> fst) (future_rows s);
              mine = (\<lambda>it. track_id it \<noteq> None \<and> playlist_log_id it = active_log_id s
                \<and> \<not> (case playlist_log_id it of None \<Rightarrow> False | Some l \<Rightarrow> (l, log_item_id it) \<in> poison_skip s));
              telling = (\<lambda>it. mine it \<and> (category_kind it = None \<or> (category_kind it = Some ''music'' \<and> category_id it \<noteq> None)))
          in Inr (case filter telling (List.map_filter id (rev rows)) of
               [] \<Rightarrow> (None, ''no_remaining_music'')
             | it # _ \<Rightarrow> if category_kind it = None then (None, ''remaining_kind_unknown'') else (Some it, []))
      | _ \<Rightarrow> Inl UnpackError)"

definition SOURCE_USABLE :: string where "SOURCE_USABLE = ''usable''"

record category_source =
  source_category :: "int option"
  source_rank :: int
  source_status :: string

text \<open>\<^verbatim>\<open>dict.setdefault\<close> on the ordered dictionary of category and rank.\<close>

definition add_source :: "int option \<Rightarrow> int \<Rightarrow> (int option \<times> int) list \<Rightarrow> (int option \<times> int) list" where
  "add_source c r ordered = (if c \<in> set (map fst ordered) then ordered else ordered @ [(c, r)])"

definition resolve_category_sources ::
  "(int \<Rightarrow> string option) \<Rightarrow> snapshot \<Rightarrow> cause_record list \<Rightarrow> refill_error + category_source list \<times> string" where
  "resolve_category_sources kind_of s qualified =
     bindR (last_remaining_music s) (\<lambda>(last, last_reason).
     let caused = fold (\<lambda>c. add_source (scheduled_category_id c) 0) qualified [];
         ordered = (case last of None \<Rightarrow> caused | Some it \<Rightarrow> add_source (category_id it) 1 caused);
         status = (\<lambda>c. case Option.bind c kind_of of None \<Rightarrow> ''category_missing''
                    | Some k \<Rightarrow> if k \<noteq> ''music'' then ''category_not_music'' else SOURCE_USABLE)
     in Inr (map (\<lambda>(c, r). \<lparr>source_category = c, source_rank = r, source_status = status c\<rparr>) ordered, last_reason))"

section \<open>The proposal\<close>

text \<open>
  What the worker reads from the database and the disk. The rows of a category are those the query of
  \<^verbatim>\<open>load_candidates\<close> answers with, by id, before the banned tracks are taken out.
\<close>

record refill_reads =
  policy_enabled :: bool
  boundary_read :: boundary
  causes_read :: "cause_record list"
  requests :: request_context
  kind_of_category :: "int \<Rightarrow> string option"
  next_log_tracks :: "int \<Rightarrow> int set"
  keys_of_tracks :: "int set \<Rightarrow> utext set"
  pool_rows :: "int \<Rightarrow> pool_row list"
  recent_tracks :: "int \<Rightarrow> int set"
  recent_keys :: "int \<Rightarrow> utext set"
  reserved_media :: "utext \<Rightarrow> bool"
  is_file :: "utext \<Rightarrow> bool"

definition committed_tracks :: "snapshot \<Rightarrow> int set" where
  "committed_tracks s = {t. t \<noteq> 0 \<and> (\<exists>it\<in>set (queue s @ forced s). track_id it = Some t)}
     \<union> {t. t \<noteq> 0 \<and> (\<exists>d\<in>set (decks s). Option.bind (deck_item d) track_id = Some t)}"

definition hard_tracks :: "refill_reads \<Rightarrow> snapshot \<Rightarrow> cause_record list \<Rightarrow> int set" where
  "hard_tracks R s qualified =
     committed_tracks s
     \<union> {t. t \<noteq> 0 \<and> (\<exists>c\<in>set qualified. original_track_id c = Some t \<or> replacement_track_id c = Some t)}
     \<union> active_track_ids (requests R)
     \<union> (case next_log_id (boundary_read R) of None \<Rightarrow> {} | Some l \<Rightarrow> if l = 0 then {} else next_log_tracks R l)"

definition candidates_of ::
  "refill_reads \<Rightarrow> snapshot \<Rightarrow> cause_record list \<Rightarrow> int \<Rightarrow> int \<Rightarrow> seconds \<Rightarrow> seconds \<Rightarrow> candidate list" where
  "candidates_of R s qualified category rank min_seconds max_seconds =
     load_candidates (pool_rows R category) (hard_tracks R s qualified \<union> recent_tracks R category)
       (keys_of_tracks R (committed_tracks s) \<union> recent_keys R category) (reserved_media R) category rank
       min_seconds max_seconds"

text \<open>Each track once, from the best source.\<close>

definition keep_best :: "candidate \<Rightarrow> (int \<times> candidate) list \<Rightarrow> (int \<times> candidate) list" where
  "keep_best c kept = (case map_of kept (cand_track c) of
     None \<Rightarrow> AList.update (cand_track c) c kept
   | Some k \<Rightarrow> if cand_rank c < cand_rank k then AList.update (cand_track c) c kept else kept)"

definition MIN_MUSIC_CANDIDATE_SECONDS :: seconds where "MIN_MUSIC_CANDIDATE_SECONDS = 30"
definition PSA_RESIDUAL_LIMIT_SECONDS :: seconds where "PSA_RESIDUAL_LIMIT_SECONDS = 60"
definition PAIR_EVALUATION_BUDGET :: nat where "PAIR_EVALUATION_BUDGET = 50000"

record psa_policy =
  psa_enabled :: bool
  psa_category :: "int option"

text \<open>The loop of \<^verbatim>\<open>_psa_stage\<close>: the smallest rest first, the file looked at only for a better one.\<close>

fun psa_loop :: "(utext \<Rightarrow> bool) \<Rightarrow> fit_frame \<Rightarrow> candidate list \<Rightarrow> ((seconds \<times> int) \<times> candidate \<times> seconds \<times> seconds) option
    \<Rightarrow> media_cache \<Rightarrow> candidate list \<Rightarrow> ((seconds \<times> int) \<times> candidate \<times> seconds \<times> seconds) option" where
  "psa_loop files f music best cache [] = best"
| "psa_loop files f music best cache (c # cs) =
     (if list_ex (\<lambda>m. conflict m c) music then psa_loop files f music best cache cs
      else case music @ [c] of [] \<Rightarrow> None
      | h # t \<Rightarrow>
        let tot = frame_total f h t; left = window f - tot; key = (ms left, cand_track c) in
        if left < 0 \<or> (case best of None \<Rightarrow> False | Some b \<Rightarrow> key \<ge> fst b) then psa_loop files f music best cache cs
        else let (here, cache1) = media_available files c cache in
          psa_loop files f music (if here then Some (key, c, tot, left) else best) cache1 cs)"

definition psa_stage ::
  "refill_reads \<Rightarrow> snapshot \<Rightarrow> cause_record list \<Rightarrow> psa_policy option \<Rightarrow> fit_frame \<Rightarrow> candidate list \<Rightarrow> seconds \<Rightarrow> media_cache
     \<Rightarrow> (candidate \<times> seconds \<times> seconds) option \<times> string" where
  "psa_stage R s qualified policy f music residual cache =
     (if residual \<le> 0 then (None, ''not_applicable_no_residual'')
      else if residual > PSA_RESIDUAL_LIMIT_SECONDS then (None, ''not_applicable_residual_above_60s'')
      else case policy of None \<Rightarrow> (None, ''psa_disabled'')
      | Some pol \<Rightarrow>
        if \<not> psa_enabled pol then (None, ''psa_disabled'')
        else case psa_category pol of None \<Rightarrow> (None, ''psa_not_configured'')
        | Some cat \<Rightarrow>
          (case kind_of_category R cat of
             None \<Rightarrow> (None, ''psa_category_missing'')
           | Some k \<Rightarrow>
               if k \<noteq> ''spot'' then (None, ''psa_category_not_psa_kind'')
               else case psa_loop (is_file R) f music None cache (candidates_of R s qualified cat 2 (1 / 1000) residual) of
                      None \<Rightarrow> (None, ''no_psa_fit'')
                    | Some (_, c, tot, left) \<Rightarrow> (Some (c, ms tot, ms left), ''psa_proposed'')))"

datatype proposal_status = Abstained refill_outcome | STATUS_NO_CATEGORY | STATUS_NO_SAFE_ANCHOR | STATUS_NO_FIT | STATUS_PROPOSED

record proposal =
  status :: proposal_status
  projection_of :: "projection option"
  placement_of :: "placement option"
  music :: "candidate list"
  psa :: "candidate option"
  psa_status :: string
  residual_after :: "seconds option"
  runway_after :: "seconds option"
  expires_at :: "int option"

definition no_proposal :: "proposal_status \<Rightarrow> projection option \<Rightarrow> proposal" where
  "no_proposal st p = \<lparr>status = st, projection_of = p, placement_of = None, music = [], psa = None,
     psa_status = ''not_evaluated'', residual_after = None, runway_after = None, expires_at = None\<rparr>"

definition chosen :: "proposal \<Rightarrow> candidate list" where
  "chosen p = music p @ (case psa p of None \<Rightarrow> [] | Some c \<Rightarrow> [c])"

definition music_pool :: "refill_reads \<Rightarrow> snapshot \<Rightarrow> cause_record list \<Rightarrow> category_source list \<Rightarrow> seconds \<Rightarrow> candidate list" where
  "music_pool R s qualified usable net =
     map snd (fold keep_best
       (concat (map (\<lambda>src. case source_category src of None \<Rightarrow> []
          | Some c \<Rightarrow> candidates_of R s qualified c (source_rank src) MIN_MUSIC_CANDIDATE_SECONDS net) usable)) [])"

definition propose ::
  "refill_reads \<Rightarrow> snapshot \<Rightarrow> psa_policy option \<Rightarrow> projection \<Rightarrow> placement \<Rightarrow> fit_frame \<Rightarrow> category_source list \<Rightarrow> proposal \<Rightarrow> proposal" where
  "propose R s policy p pl f usable common =
     (let pool = music_pool R s (qualified_causes p) usable (or_zero (net_shortage p));
          ((fit, exhausted), cache) = search_with_media (MEDIA_RETRY_LIMIT + 1) (is_file R) f PAIR_EVALUATION_BUDGET pool Map.empty
            \<lparr>fit_items = [], fit_total = 0, fit_residual = 0, evaluations = 0, truncated = False\<rparr>
      in if fit_items fit = [] then common\<lparr>status := STATUS_NO_FIT\<rparr>
         else
           let (spot, spot_status) = psa_stage R s (qualified_causes p) policy f (fit_items fit) (fit_residual fit) cache
           in common\<lparr>status := STATUS_PROPOSED, music := fit_items fit, psa := map_option fst spot, psa_status := spot_status,
                residual_after := Some (case spot of None \<Rightarrow> fit_residual fit | Some (_, _, left) \<Rightarrow> left),
                runway_after := Some (case spot of None \<Rightarrow> fit_total fit | Some (_, tot, _) \<Rightarrow> tot)\<rparr>)"

definition PROPOSAL_TTL :: int where "PROPOSAL_TTL = 20000000"

text \<open>From an eligible projection on: the sources, the placement, the frame, the search.\<close>

definition proposal_from ::
  "refill_reads \<Rightarrow> snapshot \<Rightarrow> psa_policy option \<Rightarrow> (seconds \<times> seconds) option \<Rightarrow> projection \<Rightarrow> refill_error + proposal" where
  "proposal_from R s policy budget p =
     (case instant (boundary_read R) of None \<Rightarrow> Inl TypeError
      | Some takeover \<Rightarrow>
        let expiry = (\<lambda>pr. pr\<lparr>expires_at := Some (min (captured_at s + PROPOSAL_TTL) (takeover - 60000000))\<rparr>) in
        bindR (resolve_category_sources (kind_of_category R) s (qualified_causes p)) (\<lambda>(sources, last_reason).
        let usable = filter (\<lambda>src. source_status src = SOURCE_USABLE) sources; pl = assess_placement s (requests R);
            common = (\<lambda>st. (expiry (no_proposal st (Some p)))\<lparr>placement_of := Some pl\<rparr>) in
        if usable = [] then Inr (expiry (no_proposal STATUS_NO_CATEGORY (Some p)))
        else if mode pl = None then Inr (common STATUS_NO_SAFE_ANCHOR)
        else bindR (build_fit_frame s (or_zero (window_seconds p)) pl TRANSITION_ALLOWANCE_SECONDS budget) (\<lambda>frame.
          case frame of None \<Rightarrow> Inr (common STATUS_NO_SAFE_ANCHOR)
          | Some f \<Rightarrow> Inr (propose R s policy p pl f usable (common STATUS_NO_FIT)))))"

definition evaluate_hour_refill ::
  "zone \<Rightarrow> (_ \<Rightarrow> utext) \<Rightarrow> refill_reads \<Rightarrow> snapshot \<Rightarrow> bool \<Rightarrow> psa_policy option \<Rightarrow> (seconds \<times> seconds) option
     \<Rightarrow> refill_error + proposal" where
  "evaluate_hour_refill z hash R s offline_dry_run policy budget =
     (if \<not> (offline_dry_run \<or> policy_enabled R) then Inr (no_proposal (Abstained OUTCOME_OFF) None)
      else bindR (project_refill z hash s (causes_read R) (Some (boundary_read R)) TRANSITION_ALLOWANCE_SECONDS) (\<lambda>p.
        if outcome p \<noteq> OUTCOME_ELIGIBLE then Inr (no_proposal (Abstained (outcome p)) (Some p))
        else proposal_from R s policy budget p))"

text \<open>\<^verbatim>\<open>proposal_staleness\<close>\<close>

definition proposal_staleness :: "(_ \<Rightarrow> utext) \<Rightarrow> proposal \<Rightarrow> snapshot \<Rightarrow> int \<Rightarrow> int set \<Rightarrow> string list" where
  "proposal_staleness hash pr fresh now active =
     (let engine_changed = (case projection_of pr of None \<Rightarrow> True | Some p \<Rightarrow> engine_instance fresh \<noteq> projected_engine p);
          proposed = cand_track ` set (chosen pr);
          committed = {t. \<exists>it\<in>set (queue fresh @ forced fresh). track_id it = Some t}
            \<union> {t. \<exists>d\<in>set (decks fresh). Option.bind (deck_item d) track_id = Some t}
      in (if (case expires_at pr of None \<Rightarrow> True | Some e \<Rightarrow> now \<ge> e) then [''expired''] else [])
       @ (if (case projection_of pr of None \<Rightarrow> True | Some p \<Rightarrow> active_log_id fresh \<noteq> projected_log p)
          then [''active_log_changed''] else [])
       @ (if engine_changed then [''engine_instance_changed'']
          else if (case projection_of pr of None \<Rightarrow> False | Some p \<Rightarrow> hash (digest_payload fresh) \<noteq> snapshot_digest p)
          then [''queue_or_deck_changed''] else [])
       @ (if proposed \<inter> active \<noteq> {} then [''proposed_track_requested''] else [])
       @ (if proposed \<inter> committed \<noteq> {} then [''proposed_track_now_committed''] else []))"

section \<open>The frame measures the sequence that will play\<close>

definition as_element :: "candidate \<Rightarrow> element" where
  "as_element c = \<lparr>el_id = cand_track c, el_cue = cand_cue c, el_end = cand_end c, el_position = None, el_role = RoleQueue\<rparr>"

lemma as_element_simps [simp]:
  "el_cue (as_element c) = cand_cue c" "el_end (as_element c) = cand_end c" "el_position (as_element c) = None"
  by (simp_all add: as_element_def)

text \<open>Where the placement cuts the committed elements.\<close>

definition cut_at :: "placement \<Rightarrow> element list \<Rightarrow> nat" where
  "cut_at pl els = (if mode pl = Some InsertBefore
     then length (takeWhile (\<lambda>e. Some (el_id e) \<noteq> anchor_log_item pl) els) else length els)"

lemma runway_append:
  "xs \<noteq> [] \<Longrightarrow> sequence_runway (xs @ ys) tail_cue a
     = butlast (sequence_runway xs None a)
       @ element_span (el_cue (last xs)) (el_end (last xs)) (case ys of [] \<Rightarrow> tail_cue | y # _ \<Rightarrow> Some (el_cue y)) (el_position (last xs)) a
       # sequence_runway ys tail_cue a"
proof (induction xs)
  case (Cons x xs)
  show ?case
  proof (cases xs)
    case Nil
    then show ?thesis by (simp split: list.splits)
  next
    case (Cons x' xs')
    then have "sequence_runway xs None a \<noteq> []" by simp
    then show ?thesis using Cons.IH Cons by simp
  qed
qed simp

lemma inserted_spans_runway:
  assumes "suffix_first_cue f = (case ys of [] \<Rightarrow> None | y # _ \<Rightarrow> Some (el_cue y))" and "allowance f = a"
  shows "sum_list (sequence_runway (map as_element cs @ ys) None a) = inserted_spans f cs + sum_list (sequence_runway ys None a)"
proof (induction cs)
  case (Cons c cs)
  have "(case map as_element cs @ ys of [] \<Rightarrow> None | e' # _ \<Rightarrow> Some (el_cue e'))
      = (case cs of [] \<Rightarrow> suffix_first_cue f | c' # _ \<Rightarrow> Some (cand_cue c'))"
    using assms(1) by (auto split: list.splits)
  then show ?case using Cons.IH assms(2) by simp
qed simp

lemma build_fit_frame_cut:
  assumes "build_fit_frame s win pl allow budget = Inr (Some f)" and "live_decks s = [d]"
    and "committed_sequence s d = Inr (els, skipped, problems)"
  shows "take (cut_at pl els) els \<noteq> []" "window f = win" "allowance f = allow"
    and "prefix_fixed f = sum_list (butlast (sequence_runway (take (cut_at pl els) els) None allow))"
    and "last_prefix f = last (take (cut_at pl els) els)"
    and "suffix_first_cue f = (case drop (cut_at pl els) els of [] \<Rightarrow> None | e # _ \<Rightarrow> Some (el_cue e))"
    and "suffix_total f = sum_list (sequence_runway (map (\<lambda>e. e\<lparr>el_position := None\<rparr>) (drop (cut_at pl els) els)) None allow)"
    and "reserve_base f = (case budget of None \<Rightarrow> 0 | Some (b, _) \<Rightarrow> b)"
    and "reserve_per_item f = (case budget of None \<Rightarrow> 0 | Some (_, p) \<Rightarrow> p)"
  using assms by (auto simp: build_fit_frame_def cut_at_def Let_def split: if_splits)

lemma later_elements_unpositioned:
  assumes "committed_sequence s d = Inr (els, skipped, problems)" and "0 < k"
  shows "map (\<lambda>e. e\<lparr>el_position := None\<rparr>) (drop k els) = drop k els"
proof -
  have "list_all fit_element (tl els)"
    using assms(1) by (auto simp: committed_sequence_def dest: collect_future_fit split: option.splits prod.splits)
  moreover have "set (drop k els) \<subseteq> set (tl els)"
    using assms(2) by (cases els; cases k) (auto dest: in_set_dropD)
  ultimately have "e\<lparr>el_position := None\<rparr> = e" if "e \<in> set (drop k els)" for e
    using that by (auto simp: list_all_iff fit_element_def)
  then show ?thesis by (simp add: map_idI)
qed

lemma frame_total_runway:
  assumes "build_fit_frame s win pl allow budget = Inr (Some f)" and "live_decks s = [d]"
    and "committed_sequence s d = Inr (els, skipped, problems)"
  shows "frame_total f c cs
    = sum_list (sequence_runway (take (cut_at pl els) els @ map as_element (c # cs) @ drop (cut_at pl els) els) None allow)
      + reserve f (Suc (length cs))"
proof -
  note f = build_fit_frame_cut [OF assms]
  let ?pre = "take (cut_at pl els) els" and ?suf = "drop (cut_at pl els) els"
  have "0 < cut_at pl els" using f(1) by (cases "cut_at pl els") auto
  then have suf: "suffix_total f = sum_list (sequence_runway ?suf None allow)"
    using f(7) later_elements_unpositioned [OF assms(3)] by simp
  have "sum_list (sequence_runway (?pre @ map as_element (c # cs) @ ?suf) None allow)
      = prefix_fixed f + last_span f (Some (cand_cue c)) + (inserted_spans f (c # cs) + suffix_total f)"
    unfolding runway_append [OF f(1)] sum_list.append sum_list.Cons f(4) [symmetric]
      inserted_spans_runway [OF f(6) f(3)] suf [symmetric]
    by (simp add: last_span_def f(3,5))
  then show ?thesis by (simp only: frame_total_def ac_simps)
qed

text \<open>
  The search never plays the candidate sequences through: it cuts the committed sequence once and
  re-times only the two joints. The total it computes is exactly the runway of the whole sequence
  with the new items in their place, plus the safety reserve.
\<close>

theorem fit_frame_exact:
  assumes "build_fit_frame s win pl allow budget = Inr (Some f)" and "live_decks s = [d]"
    and "committed_sequence s d = Inr (els, skipped, problems)"
  shows "frame_total f c cs
    = sum_list (sequence_runway (take (cut_at pl els) els @ map as_element (c # cs) @ drop (cut_at pl els) els) None allow)
      + reserve f (length (c # cs))"
  using frame_total_runway [OF assms] by simp

definition sample_frame :: fit_frame where
  "sample_frame = \<lparr>window = 600, prefix_fixed = 721 / 4,
     last_prefix = \<lparr>el_id = 3, el_cue = 0, el_end = 180, el_position = None, el_role = RoleQueue\<rparr>,
     suffix_first_cue = None, suffix_total = 0, allowance = 1 / 4, prefix_element_count = 2, reserve_base = 0, reserve_per_item = 0\<rparr>"

definition sample_candidate :: candidate where
  "sample_candidate = \<lparr>cand_track = 500, cand_category = 1, cand_rank = 0, cand_cue = 0, cand_end = 210, cand_effective = 210,
     identity_keys = {}, filepath = [65]\<rparr>"

lemma sample_frame_built:
  "build_fit_frame sample_snapshot 600 (assess_placement sample_snapshot \<lparr>active_track_ids = {}, request_item_ids = {}, intro_item_ids = {}\<rparr>)
     (1 / 4) None = Inr (Some sample_frame)"
  by code_simp

text \<open>The committed 360.5 seconds and a song of 210 seconds: 570.75 of the 600 seconds.\<close>

theorem fit_frame_exact_witness: "frame_total sample_frame sample_candidate [] = 2283 / 4"
proof -
  let ?pl = "assess_placement sample_snapshot \<lparr>active_track_ids = {}, request_item_ids = {}, intro_item_ids = {}\<rparr>"
  let ?d = "hd (live_decks sample_snapshot)"
  let ?els = "fst (projr (committed_sequence sample_snapshot ?d))"
  have d: "live_decks sample_snapshot = [?d]" by code_simp
  have "is_ok (committed_sequence sample_snapshot ?d)" by code_simp
  then obtain x where x: "committed_sequence sample_snapshot ?d = Inr x" by (auto simp: is_ok_def)
  then have els: "committed_sequence sample_snapshot ?d = Inr (?els, fst (snd x), snd (snd x))" by simp
  have "sum_list (sequence_runway (take (cut_at ?pl ?els) ?els @ map as_element [sample_candidate] @ drop (cut_at ?pl ?els) ?els) None (1 / 4))
      + reserve sample_frame (length [sample_candidate]) = 2283 / 4"
    by code_simp
  then show ?thesis using fit_frame_exact [OF sample_frame_built d els, of sample_candidate "[]"] by simp
qed

section \<open>The search finds the best of what it considers\<close>

definition seq_total :: "fit_frame \<Rightarrow> candidate list \<Rightarrow> seconds" where
  "seq_total f cs = (case cs of [] \<Rightarrow> 0 | c # rest \<Rightarrow> frame_total f c rest)"

definition seq_key :: "fit_frame \<Rightarrow> candidate list \<Rightarrow> rank_key" where
  "seq_key f cs = rank_key (window f - seq_total f cs) cs"

definition best_among :: "fit_frame \<Rightarrow> candidate list set \<Rightarrow> best_fit \<Rightarrow> bool" where
  "best_among f X best \<longleftrightarrow> (case best of
       None \<Rightarrow> \<forall>cs\<in>X. window f < seq_total f cs
     | Some (key, cs, tot, left) \<Rightarrow> cs \<in> X \<and> tot = seq_total f cs \<and> left = window f - tot \<and> 0 \<le> left \<and> key = seq_key f cs
         \<and> (\<forall>cs'\<in>X. window f < seq_total f cs' \<or> key \<le> seq_key f cs'))"

lemma consider_seq_best:
  assumes "cs \<noteq> []" and "best_among f X (fst st)"
  shows "best_among f (insert cs X) (fst (consider_seq f cs st))"
proof -
  obtain best n where st: "st = (best, n)" by (rule prod.exhaust)
  obtain c rest where cs: "cs = c # rest" using assms(1) by (cases cs) auto
  have tot: "frame_total f c rest = seq_total f cs" by (simp add: cs seq_total_def)
  have key: "rank_key (window f - seq_total f cs) cs = seq_key f cs" by (simp add: seq_key_def)
  show ?thesis
  proof (cases best)
    case None
    have "fst (consider_seq f cs st) = (if window f - seq_total f cs < 0 then None
        else Some (seq_key f cs, cs, seq_total f cs, window f - seq_total f cs))"
      by (simp add: st consider_seq_def cs None Let_def) (simp add: cs [symmetric] tot key)
    then show ?thesis using assms(2) by (auto simp: st None best_among_def)
  next
    case (Some b)
    obtain k w t l where b: "b = (k, w, t, l)" by (rule prod_cases4)
    have old: "w \<in> X" "t = seq_total f w" "l = window f - t" "0 \<le> l" "k = seq_key f w"
      "\<forall>cs'\<in>X. window f < seq_total f cs' \<or> k \<le> seq_key f cs'"
      using assms(2) unfolding st Some b best_among_def by auto
    have step: "consider_seq f cs st = (if window f - seq_total f cs < 0 then (best, Suc n)
        else if seq_key f cs < k then (Some (seq_key f cs, cs, seq_total f cs, window f - seq_total f cs), Suc n) else (best, Suc n))"
      by (simp add: st consider_seq_def cs Some b Let_def) (simp add: cs [symmetric] tot key)
    show ?thesis
    proof (cases "window f - seq_total f cs < 0 \<or> \<not> seq_key f cs < k")
      case True
      then have "fst (consider_seq f cs st) = Some (k, w, t, l)" by (auto simp: step Some b)
      moreover have "window f < seq_total f cs \<or> k \<le> seq_key f cs" using True by auto
      ultimately show ?thesis using old by (auto simp: best_among_def)
    next
      case False
      then have "fst (consider_seq f cs st) = Some (seq_key f cs, cs, seq_total f cs, window f - seq_total f cs)"
        by (auto simp: step)
      moreover have "window f < seq_total f cs' \<or> seq_key f cs \<le> seq_key f cs'" if "cs' \<in> X" for cs'
        using old(6) that False by force
      ultimately show ?thesis using False by (auto simp: best_among_def)
    qed
  qed
qed

lemma fold_consider_best:
  assumes "list_all (\<lambda>cs. cs \<noteq> []) seqs" and "best_among f X (fst st)"
  shows "best_among f (X \<union> set seqs) (fst (fold (consider_seq f) seqs st))"
  using assms
proof (induction seqs arbitrary: X st)
  case (Cons cs seqs)
  then have "best_among f (insert cs X) (fst (consider_seq f cs st))" by (intro consider_seq_best) auto
  then have "best_among f (insert cs X \<union> set seqs) (fst (fold (consider_seq f) seqs (consider_seq f cs st)))"
    by (intro Cons.IH) (use Cons.prems(1) in simp)
  moreover have "insert cs X \<union> set seqs = X \<union> set (cs # seqs)" by auto
  ultimately show ?case by (simp only: fold_simps)
qed simp

lemma partners_facts: "b \<in> set (partners a v n bs) \<Longrightarrow> b \<in> set bs \<and> \<not> conflict a b"
  by (induction a v n bs rule: partners.induct) (auto split: if_splits)

definition pairs_of :: "candidate list \<Rightarrow> candidate list set" where
  "pairs_of cs = {[a, b] | a b. a \<in> set cs \<and> b \<in> set cs \<and> \<not> conflict a b}"

lemma conflict_sym: "conflict a b \<longleftrightarrow> conflict b a"
  by (auto simp: conflict_def)

lemma pair_loop_best:
  assumes "set firsts \<subseteq> set ordered" and "best_among f X (fst st)"
  shows "\<exists>Y \<subseteq> pairs_of ordered. best_among f (X \<union> Y) (fst (fst (pair_loop f ordered available budget firsts st)))"
  using assms
proof (induction firsts arbitrary: X st)
  case Nil
  then show ?case by (intro exI [of _ "{}"]) simp
next
  case (Cons a firsts)
  show ?case
  proof (cases "snd st \<ge> budget")
    case True
    then show ?thesis using Cons.prems(2) by (intro exI [of _ "{}"]) simp
  next
    case False
    let ?seqs = "concat (map (\<lambda>b. [[a, b], [b, a]]) (partners a 0 0 (partner_pool ordered available a)))"
    have pairs: "set ?seqs \<subseteq> pairs_of ordered"
    proof
      fix cs assume "cs \<in> set ?seqs"
      then obtain b where b: "b \<in> set (partners a 0 0 (partner_pool ordered available a))" "cs = [a, b] \<or> cs = [b, a]" by auto
      from partners_facts [OF b(1)] have "b \<in> set ordered" "\<not> conflict a b"
        by (auto simp: partner_pool_def dest: set_takeWhileD)
      then show "cs \<in> pairs_of ordered" using b(2) Cons.prems(1) conflict_sym [of a b] by (auto simp: pairs_of_def)
    qed
    have "best_among f (X \<union> set ?seqs) (fst (fold (consider_seq f) ?seqs st))"
      using Cons.prems(2) by (intro fold_consider_best) (auto simp: list_all_iff)
    from Cons.IH [OF _ this] Cons.prems(1) obtain Y where Y: "Y \<subseteq> pairs_of ordered"
      "best_among f (X \<union> set ?seqs \<union> Y) (fst (fst (pair_loop f ordered available budget firsts (fold (consider_seq f) ?seqs st))))"
      by auto
    show ?thesis using Y pairs False by (intro exI [of _ "set ?seqs \<union> Y"]) (simp add: Un_assoc)
  qed
qed

lemma search_best_fit_best:
  obtains X best where "(\<lambda>c. [c]) ` set candidates \<subseteq> X" and "X \<subseteq> (\<lambda>c. [c]) ` set candidates \<union> pairs_of candidates"
    and "best_among f X best"
    and "fit_items (search_best_fit candidates f m budget) = (case best of None \<Rightarrow> [] | Some (_, cs, _, _) \<Rightarrow> cs)"
    and "fit_residual (search_best_fit candidates f m budget) = (case best of None \<Rightarrow> 0 | Some (_, _, _, left) \<Rightarrow> ms left)"
    and "fit_total (search_best_fit candidates f m budget) = (case best of None \<Rightarrow> 0 | Some (_, _, tot, _) \<Rightarrow> ms tot)"
proof -
  let ?ordered = "sort_key (\<lambda>c. (cand_effective c, cand_track c)) candidates"
  let ?singles = "fold (consider_seq f) (map (\<lambda>c. [c]) ?ordered) (None, 0)"
  let ?S = "(\<lambda>c. [c]) ` set candidates"
  have singles: "best_among f ?S (fst ?singles)"
    using fold_consider_best [of "map (\<lambda>c. [c]) ?ordered" f "{}" "(None, 0)"] by (simp add: best_among_def list_all_iff)
  have same: "pairs_of ?ordered = pairs_of candidates" by (simp add: pairs_of_def)
  have "\<exists>Y \<subseteq> pairs_of candidates. best_among f (?S \<union> Y) (fst (fst (search_state candidates f m budget)))"
  proof (cases "m \<ge> 2 \<and> length ?ordered > 1")
    case True
    have "\<exists>Y \<subseteq> pairs_of ?ordered. best_among f (?S \<union> Y)
        (fst (fst (pair_loop f ?ordered (window f - base_total f) budget (sort_key cand_track ?ordered) ?singles)))"
      by (rule pair_loop_best [OF _ singles]) simp
    then show ?thesis using True by (simp only: same search_state_def Let_def if_True simp_thms)
  next
    case False
    then show ?thesis using singles by (intro exI [of _ "{}"]) (simp only: search_state_def Let_def if_False Un_empty_right empty_subsetI fst_conv simp_thms)
  qed
  then obtain Y where Y: "Y \<subseteq> pairs_of candidates" "best_among f (?S \<union> Y) (fst (fst (search_state candidates f m budget)))"
    by blast
  show ?thesis
    by (rule that [OF _ _ Y(2)]) (use Y(1) in \<open>auto simp: search_best_fit_def fit_of_def split: option.splits\<close>)
qed

lemma best_fit_items:
  "set (fit_items (search_best_fit candidates f m budget)) \<subseteq> set candidates"
  "fit_items (search_best_fit candidates f m budget) \<noteq> [] \<Longrightarrow> seq_total f (fit_items (search_best_fit candidates f m budget)) \<le> window f"
  "fit_items (search_best_fit candidates f m budget) \<in> insert [] ((\<lambda>c. [c]) ` set candidates \<union> pairs_of candidates)"
proof -
  obtain X best where X: "X \<subseteq> (\<lambda>c. [c]) ` set candidates \<union> pairs_of candidates" and best: "best_among f X best"
    and items: "fit_items (search_best_fit candidates f m budget) = (case best of None \<Rightarrow> [] | Some (_, cs, _, _) \<Rightarrow> cs)"
    by (rule search_best_fit_best)
  show shape: "fit_items (search_best_fit candidates f m budget) \<in> insert [] ((\<lambda>c. [c]) ` set candidates \<union> pairs_of candidates)"
    using X best by (auto simp: items best_among_def split: option.splits)
  then show "set (fit_items (search_best_fit candidates f m budget)) \<subseteq> set candidates"
    by (auto simp: pairs_of_def)
  show "fit_items (search_best_fit candidates f m budget) \<noteq> [] \<Longrightarrow> seq_total f (fit_items (search_best_fit candidates f m budget)) \<le> window f"
    using best by (auto simp: items best_among_def split: option.splits)
qed


end
