(* ===== verification/Refill_Proposal.thy ===== *)
theory Refill_Proposal
  imports Refill_Fit
begin

text \<open>
  What a proposal of \<^verbatim>\<open>evaluate_hour_refill\<close> guarantees: where it puts the new items, that the hour
  still ends in time with them, and that nothing already spoken for is used.
\<close>

section \<open>The closing block\<close>

lemma closing_split:
  fixes q :: "item_timing list"
  defines "k \<equiv> closing_index q"
  shows "k \<le> length q" and "list_all protected_row (drop k q)" and "k = 0 \<or> \<not> protected_row (q ! (k - 1))"
proof -
  let ?n = "length (takeWhile protected_row (rev q))"
  have n: "?n \<le> length q" using length_takeWhile_le [of protected_row "rev q"] by simp
  then show "k \<le> length q" by (simp add: k_def closing_index_def)
  have "takeWhile protected_row (rev q) = take ?n (rev q)" by (metis takeWhile_eq_take)
  then have "rev (drop k q) = takeWhile protected_row (rev q)" using n by (simp add: k_def closing_index_def rev_drop)
  then have "set (drop k q) = set (takeWhile protected_row (rev q))" by (metis set_rev)
  then show "list_all protected_row (drop k q)" by (auto simp: list_all_iff dest: set_takeWhileD)
  show "k = 0 \<or> \<not> protected_row (q ! (k - 1))"
  proof (cases "?n < length q")
    case True
    then have "\<not> protected_row (rev q ! ?n)" using nth_length_takeWhile [of protected_row "rev q"] by simp
    then show ?thesis using True by (simp add: k_def closing_index_def rev_nth)
  qed (use n in \<open>simp add: k_def closing_index_def\<close>)
qed

lemma closing_index_unique:
  assumes "k < length q" and "list_all protected_row (drop k q)" and "k = 0 \<or> \<not> protected_row (q ! (k - 1))"
  shows "closing_index q = k"
proof (rule ccontr)
  let ?c = "closing_index q"
  note c = closing_split [of q]
  assume "?c \<noteq> k"
  then consider "?c < k" | "k < ?c" by linarith
  then show False
  proof cases
    case 1
    then have "q ! (k - 1) \<in> set (drop ?c q)" using assms(1) by (auto simp: in_set_conv_nth intro!: exI [of _ "k - 1 - ?c"])
    then show False using c(2) assms(3) 1 by (auto simp: list_all_iff)
  next
    case 2
    then have "q ! (?c - 1) \<in> set (drop k q)" using c(1) by (auto simp: in_set_conv_nth intro!: exI [of _ "?c - 1 - k"])
    then show False using c(3) assms(2) 2 by (auto simp: list_all_iff)
  qed
qed

lemma no_closer_problem: "List.map_filter f xs = [] \<longleftrightarrow> list_all (\<lambda>x. f x = None) xs"
  by (induction xs) (auto simp: List.map_filter_simps split: option.splits)

text \<open>
  New items are put before a row in exactly one situation: from that row to the end of the log there are
  only rows that close the hour (identification, spots, imaging), all still untouched, none tied to a
  request, at least one other row plays first, and the row before is music, not a dedication's introduction.
\<close>

theorem closing_block_protected:
  "mode (assess_placement s ctx) = Some InsertBefore \<longleftrightarrow>
     (\<exists>k < length (queue s). cursor s < int k
        \<and> list_all (\<lambda>it. protected_row it \<and> closer_problem s ctx it = None) (drop k (queue s))
        \<and> (k = 0 \<or> category_kind (queue s ! (k - 1)) = Some ''music''
             \<and> log_item_id (queue s ! (k - 1)) \<notin> intro_item_ids ctx))"
proof
  let ?q = "queue s" and ?k = "closing_index (queue s)"
  assume before: "mode (assess_placement s ctx) = Some InsertBefore"
  then have q: "?q \<noteq> []" "category_kind (last ?q) \<noteq> None" "category_kind (last ?q) \<noteq> Some ''music''"
    by (auto simp: assess_placement_def Let_def nowhere_def split: if_splits)
  have "protected_row (last ?q)" using q by (simp add: protected_row_def)
  then have small: "?k < length ?q"
    using q(1) by (cases ?q rule: rev_cases) (simp_all add: closing_index_def)
  have "int ?k \<noteq> cursor s" "\<not> int ?k < cursor s" "List.map_filter (closer_problem s ctx) (drop ?k ?q) = []"
    and kind: "\<not> (?k > 0 \<and> category_kind (?q ! (?k - 1)) = None)" and intro: "\<not> (?k > 0 \<and> log_item_id (?q ! (?k - 1)) \<in> intro_item_ids ctx)"
    using before q by (auto simp: assess_placement_def Let_def nowhere_def split: if_splits list.splits)
  moreover have "?k = 0 \<or> category_kind (?q ! (?k - 1)) = Some ''music''"
    using closing_split(3) [of ?q] kind by (auto simp: protected_row_def)
  ultimately show "\<exists>k < length ?q. cursor s < int k
        \<and> list_all (\<lambda>it. protected_row it \<and> closer_problem s ctx it = None) (drop k ?q)
        \<and> (k = 0 \<or> category_kind (?q ! (k - 1)) = Some ''music'' \<and> log_item_id (?q ! (k - 1)) \<notin> intro_item_ids ctx)"
    using small closing_split(2) [of ?q] by (intro exI [of _ ?k]) (auto simp: no_closer_problem list_all_iff)
next
  let ?q = "queue s"
  assume "\<exists>k < length ?q. cursor s < int k
        \<and> list_all (\<lambda>it. protected_row it \<and> closer_problem s ctx it = None) (drop k ?q)
        \<and> (k = 0 \<or> category_kind (?q ! (k - 1)) = Some ''music'' \<and> log_item_id (?q ! (k - 1)) \<notin> intro_item_ids ctx)"
  then obtain k where k: "k < length ?q" "cursor s < int k"
    and free: "list_all (\<lambda>it. protected_row it \<and> closer_problem s ctx it = None) (drop k ?q)"
    and before: "k = 0 \<or> category_kind (?q ! (k - 1)) = Some ''music'' \<and> log_item_id (?q ! (k - 1)) \<notin> intro_item_ids ctx"
    by blast
  have "closing_index ?q = k"
    by (rule closing_index_unique [OF k(1)]) (use free before in \<open>auto simp: list_all_iff protected_row_def\<close>)
  moreover have "last ?q \<in> set (drop k ?q)" using k(1) by (metis last_drop last_in_set drop_eq_Nil not_le)
  then have "protected_row (last ?q)" using free by (simp add: list_all_iff)
  moreover have "List.map_filter (closer_problem s ctx) (drop k ?q) = []"
    using free by (simp add: no_closer_problem list_all_iff)
  ultimately show "mode (assess_placement s ctx) = Some InsertBefore"
    using k before by (auto simp: assess_placement_def Let_def protected_row_def)
qed

section \<open>Candidates\<close>

lemma map_filter_set: "x \<in> set (List.map_filter f xs) \<longleftrightarrow> (\<exists>y\<in>set xs. f y = Some x)"
  by (induction xs) (auto simp: List.map_filter_simps split: option.splits)

lemma candidates_free:
  assumes "c \<in> set (candidates_of R s qualified category rank lo hi)"
  shows "cand_track c \<notin> hard_tracks R s qualified"
proof -
  obtain r where r: "r \<in> set (take MAX_ROWS_PER_SOURCE (filter (\<lambda>r. row_track r \<notin> hard_tracks R s qualified \<union> recent_tracks R category)
        (pool_rows R category)))"
    and c: "candidate_of category rank (keys_of_tracks R (committed_tracks s) \<union> recent_keys R category) (reserved_media R) lo hi r = Some c"
    using assms by (auto simp: candidates_of_def load_candidates_def map_filter_set)
  have "cand_track c = row_track r" using c by (auto simp: candidate_of_def split: sum.splits if_splits)
  then show ?thesis using in_set_takeD [OF r] by simp
qed

definition kept_ok :: "(candidate \<Rightarrow> bool) \<Rightarrow> (int \<times> candidate) list \<Rightarrow> bool" where
  "kept_ok P kept \<longleftrightarrow> distinct (map fst kept) \<and> list_all (\<lambda>(t, c). t = cand_track c \<and> P c) kept"

lemma in_set_updateD: "x \<in> set (AList.update k v al) \<Longrightarrow> x = (k, v) \<or> x \<in> set al"
  by (induction al) (auto split: if_splits)

lemma keep_best_ok:
  assumes "kept_ok P kept" and "P c"
  shows "kept_ok P (keep_best c kept)"
proof -
  have "kept_ok P (AList.update (cand_track c) c kept)"
    using assms by (auto simp: kept_ok_def distinct_update list_all_iff dest!: in_set_updateD)
  then show ?thesis using assms(1) by (simp add: keep_best_def split: option.splits)
qed

lemma music_pool_ok:
  shows "distinct (map cand_track (music_pool R s qualified usable net))"
    and "list_all (\<lambda>c. cand_track c \<notin> hard_tracks R s qualified) (music_pool R s qualified usable net)"
proof -
  let ?P = "\<lambda>c. cand_track c \<notin> hard_tracks R s qualified"
  let ?all = "concat (map (\<lambda>src. case source_category src of None \<Rightarrow> []
          | Some c \<Rightarrow> candidates_of R s qualified c (source_rank src) MIN_MUSIC_CANDIDATE_SECONDS net) usable)"
  have all: "list_all ?P ?all" by (auto simp: list_all_iff dest: candidates_free split: option.splits)
  have "kept_ok ?P (fold keep_best cs kept)" if "list_all ?P cs" "kept_ok ?P kept" for cs kept
    using that by (induction cs arbitrary: kept) (auto intro: keep_best_ok)
  then have ok: "kept_ok ?P (fold keep_best ?all [])" using all by (simp add: kept_ok_def)
  have "map cand_track (map snd (fold keep_best ?all [])) = map fst (fold keep_best ?all [])"
    using ok by (auto simp: kept_ok_def list_all_iff)
  then show "distinct (map cand_track (music_pool R s qualified usable net))"
    using ok by (simp only: kept_ok_def music_pool_def)
  show "list_all ?P (music_pool R s qualified usable net)"
    using ok by (auto simp: kept_ok_def music_pool_def list_all_iff)
qed

section \<open>Files\<close>

definition cache_ok :: "(utext \<Rightarrow> bool) \<Rightarrow> candidate set \<Rightarrow> media_cache \<Rightarrow> bool" where
  "cache_ok files P cache \<longleftrightarrow> (\<forall>t b. cache t = Some b \<longrightarrow> (\<exists>c\<in>P. cand_track c = t \<and> b = files (filepath c)))"

lemma media_available_ok:
  assumes "media_available files c cache = (here, cache')" and "c \<in> P" and "cache_ok files P cache" and "inj_on cand_track P"
  shows "here = files (filepath c)" and "cache_ok files P cache'"
proof -
  have same: "d = c" if "d \<in> P" "cand_track d = cand_track c" for d using that assms(2,4) by (auto dest: inj_onD)
  show "here = files (filepath c)"
  proof (cases "cache (cand_track c)")
    case (Some b)
    then obtain d where "d \<in> P" "cand_track d = cand_track c" "b = files (filepath d)" using assms(3) by (auto simp: cache_ok_def)
    then show ?thesis using assms(1) Some same by (auto simp: media_available_def)
  qed (use assms(1) in \<open>auto simp: media_available_def\<close>)
  have "cache_ok files P (cache(cand_track c \<mapsto> files (filepath c)))"
    unfolding cache_ok_def
  proof (intro allI impI)
    fix t b assume "(cache(cand_track c \<mapsto> files (filepath c))) t = Some b"
    then show "\<exists>c\<in>P. cand_track c = t \<and> b = files (filepath c)"
      using assms(2,3) by (cases "t = cand_track c") (auto simp: cache_ok_def)
  qed
  then show "cache_ok files P cache'"
    using assms(1,3) by (auto simp: media_available_def split: option.splits)
qed

lemma missing_media_ok:
  assumes "missing_media files cs cache = (missing, cache')" and "set cs \<subseteq> P" and "cache_ok files P cache" and "inj_on cand_track P"
  shows "missing = filter (\<lambda>c. \<not> files (filepath c)) cs \<and> cache_ok files P cache'"
  using assms
proof (induction cs arbitrary: cache missing)
  case (Cons c cs)
  obtain here cache1 where here: "media_available files c cache = (here, cache1)" by (rule prod.exhaust)
  obtain rest cache2 where rest: "missing_media files cs cache1 = (rest, cache2)" by (rule prod.exhaust)
  note m = media_available_ok [OF here _ Cons.prems(3,4)]
  have "rest = filter (\<lambda>c. \<not> files (filepath c)) cs \<and> cache_ok files P cache2"
    using Cons.IH [of cache1 rest] rest m Cons.prems(1,2,4) here by auto
  then show ?case using Cons.prems(1,2) here rest m by auto
qed simp

lemma search_with_media_ok:
  assumes "search_with_media n files f budget pool cache previous = ((fit, exhausted), cache')" and "fit_items fit \<noteq> []"
    and "set pool \<subseteq> P" and "cache_ok files P cache" and "inj_on cand_track P"
  shows "\<exists>pool'. set pool' \<subseteq> set pool \<and> fit = search_best_fit pool' f MAX_MUSIC_TRACKS budget
    \<and> list_all (\<lambda>c. files (filepath c)) (fit_items fit)"
  using assms
proof (induction n arbitrary: pool cache previous)
  case (Suc n)
  let ?result = "search_best_fit pool f MAX_MUSIC_TRACKS budget"
  obtain missing cache1 where missing: "missing_media files (fit_items ?result) cache = (missing, cache1)" by (rule prod.exhaust)
  have "set (fit_items ?result) \<subseteq> set pool"
    using best_fit_items [of pool f MAX_MUSIC_TRACKS budget] by simp
  then have ok: "missing = filter (\<lambda>c. \<not> files (filepath c)) (fit_items ?result) \<and> cache_ok files P cache1"
    using Suc.prems(3) by (intro missing_media_ok [OF missing _ Suc.prems(4,5)]) auto
  show ?case
  proof (cases "missing = []")
    case True
    then have "fit = ?result" using Suc.prems(1) missing by simp
    then show ?thesis using True ok by (intro exI [of _ pool]) (auto simp: filter_empty_conv list_all_iff)
  next
    case False
    let ?pool = "filter (\<lambda>c. cand_track c \<notin> cand_track ` set missing) pool"
    have "search_with_media n files f budget ?pool cache1 ?result = ((fit, exhausted), cache')"
      using Suc.prems(1) missing False by simp
    moreover have "set ?pool \<subseteq> P" using Suc.prems(3) by auto
    ultimately obtain pool' where "set pool' \<subseteq> set ?pool" "fit = search_best_fit pool' f MAX_MUSIC_TRACKS budget"
      "list_all (\<lambda>c. files (filepath c)) (fit_items fit)"
      using Suc.IH [OF _ Suc.prems(2) _ conjunct2 [OF ok] Suc.prems(5)] by blast
    moreover have "set ?pool \<subseteq> set pool" by auto
    ultimately show ?thesis by blast
  qed
qed auto

lemma psa_loop_ok:
  assumes "psa_loop files f songs best cache cs = Some b"
  shows "best = Some b \<or> (\<exists>k c tot left. b = (k, c, tot, left) \<and> c \<in> set cs \<and> \<not> list_ex (\<lambda>m. conflict m c) songs
     \<and> seq_total f (songs @ [c]) \<le> window f)"
  using assms
proof (induction cs arbitrary: best cache)
  case (Cons c cs)
  obtain h t where ht: "songs @ [c] = h # t" by (cases "songs @ [c]") auto
  let ?key = "(ms (window f - frame_total f h t), cand_track c)"
  have tot: "frame_total f h t = seq_total f (songs @ [c])" by (simp add: seq_total_def ht)
  obtain here cache1 where here: "media_available files c cache = (here, cache1)" by (rule prod.exhaust)
  show ?case
  proof (cases "list_ex (\<lambda>m. conflict m c) songs \<or> window f - frame_total f h t < 0
      \<or> (case best of None \<Rightarrow> False | Some b \<Rightarrow> ?key \<ge> fst b) \<or> \<not> here")
    case True
    then have "\<exists>cache'. psa_loop files f songs best cache' cs = Some b"
      using Cons.prems by (auto simp: ht Let_def here split: if_splits)
    then show ?thesis using Cons.IH by fastforce
  next
    case False
    then have "psa_loop files f songs (Some (?key, c, frame_total f h t, window f - frame_total f h t)) cache1 cs = Some b"
      using Cons.prems by (simp add: ht Let_def here)
    from Cons.IH [OF this] show ?thesis using False by (auto simp: tot)
  qed
qed simp

section \<open>A proposal\<close>

definition safety_reserve :: "(seconds \<times> seconds) option \<Rightarrow> nat \<Rightarrow> seconds" where
  "safety_reserve budget n = (case budget of None \<Rightarrow> 0 | Some (b, p) \<Rightarrow> b + p * of_nat n)"

lemma psa_stage_ok:
  assumes "psa_stage R s qualified policy f songs residual cache = (Some (c, tot, left), st)"
  shows "cand_track c \<notin> hard_tracks R s qualified" and "\<not> list_ex (\<lambda>m. conflict m c) songs"
    and "seq_total f (songs @ [c]) \<le> window f"
proof -
  obtain cat k t l where loop: "psa_loop (is_file R) f songs None cache (candidates_of R s qualified cat 2 (1 / 1000) residual) = Some (k, c, t, l)"
    using assms by (auto simp: psa_stage_def split: if_splits option.splits)
  have "c \<in> set (candidates_of R s qualified cat 2 (1 / 1000) residual) \<and> \<not> list_ex (\<lambda>m. conflict m c) songs
     \<and> seq_total f (songs @ [c]) \<le> window f"
    using psa_loop_ok [OF loop] by auto
  then show "cand_track c \<notin> hard_tracks R s qualified" "\<not> list_ex (\<lambda>m. conflict m c) songs"
    "seq_total f (songs @ [c]) \<le> window f" by (auto dest: candidates_free)
qed

lemma search_shape:
  assumes "fit = search_best_fit pool f m budget" and "distinct (map cand_track pool)"
  shows "distinct (map cand_track (fit_items fit))"
  using best_fit_items(3) [of pool f m budget] by (auto simp: assms(1) pairs_of_def conflict_def)

lemma propose_ok:
  assumes "status (propose R s policy p pl f usable common) = STATUS_PROPOSED" and "status common \<noteq> STATUS_PROPOSED"
  defines "pr \<equiv> propose R s policy p pl f usable common" and "Q \<equiv> hard_tracks R s (qualified_causes p)"
  shows "music pr \<noteq> []" and "seq_total f (chosen pr) \<le> window f" and "distinct (map cand_track (chosen pr))"
    and "list_all (\<lambda>c. cand_track c \<notin> Q) (chosen pr)" and "list_all (\<lambda>c. is_file R (filepath c)) (music pr)"
proof -
  let ?pool = "music_pool R s (qualified_causes p) usable (or_zero (net_shortage p))"
  let ?empty = "\<lparr>fit_items = [], fit_total = 0, fit_residual = 0, evaluations = 0, truncated = False\<rparr>"
  obtain fit exhausted cache where search: "search_with_media (MEDIA_RETRY_LIMIT + 1) (is_file R) f PAIR_EVALUATION_BUDGET ?pool Map.empty ?empty
      = ((fit, exhausted), cache)"
    by (metis prod.exhaust)
  obtain spot spot_status where spot: "psa_stage R s (qualified_causes p) policy f (fit_items fit) (fit_residual fit) cache = (spot, spot_status)"
    by (rule prod.exhaust)
  have step: "propose R s policy p pl f usable common = (if fit_items fit = [] then common\<lparr>status := STATUS_NO_FIT\<rparr>
      else common\<lparr>status := STATUS_PROPOSED, music := fit_items fit, psa := map_option fst spot, psa_status := spot_status,
        residual_after := Some (case spot of None \<Rightarrow> fit_residual fit | Some (_, _, left) \<Rightarrow> left),
        runway_after := Some (case spot of None \<Rightarrow> fit_total fit | Some (_, tot, _) \<Rightarrow> tot)\<rparr>)"
    by (simp only: propose_def search spot Let_def prod.case)
  have found: "fit_items fit \<noteq> []" using assms(1,2) by (auto simp: step)
  then have pr: "music pr = fit_items fit" "psa pr = map_option fst spot"
    by (simp_all add: pr_def step)
  note pool = music_pool_ok [of R s "qualified_causes p" usable "or_zero (net_shortage p)"]
  have "inj_on cand_track (set ?pool)" using pool(1) by (simp add: distinct_map)
  then obtain pool' where pool': "set pool' \<subseteq> set ?pool" "fit = search_best_fit pool' f MAX_MUSIC_TRACKS PAIR_EVALUATION_BUDGET"
    and files: "list_all (\<lambda>c. is_file R (filepath c)) (fit_items fit)"
    using search_with_media_ok [OF search found subset_refl] by (auto simp: cache_ok_def)
  note items = best_fit_items [of pool' f MAX_MUSIC_TRACKS PAIR_EVALUATION_BUDGET, folded pool'(2)]
  have tracks: "distinct (map cand_track (fit_items fit))"
    using items(3) by (auto simp: pairs_of_def conflict_def)
  have free: "list_all (\<lambda>c. cand_track c \<notin> Q) (fit_items fit)"
    using items(1) pool'(1) pool(2) by (auto simp: list_all_iff Q_def)
  show "music pr \<noteq> []" "list_all (\<lambda>c. is_file R (filepath c)) (music pr)" using found files by (simp_all add: pr)
  show "seq_total f (chosen pr) \<le> window f" "distinct (map cand_track (chosen pr))" "list_all (\<lambda>c. cand_track c \<notin> Q) (chosen pr)"
  proof (atomize (full), cases spot)
    case None
    then show "seq_total f (chosen pr) \<le> window f \<and> distinct (map cand_track (chosen pr)) \<and> list_all (\<lambda>c. cand_track c \<notin> Q) (chosen pr)"
      using items(2) [OF found] tracks free by (simp add: chosen_def pr)
  next
    case (Some sp)
    obtain c tot left where sp: "sp = (c, tot, left)" by (rule prod_cases3)
    note psa = psa_stage_ok [OF spot [unfolded Some sp], folded Q_def]
    have "chosen pr = fit_items fit @ [c]" by (simp add: chosen_def pr Some sp)
    moreover have "cand_track c \<notin> cand_track ` set (fit_items fit)" using psa(2) by (auto simp: list_ex_iff conflict_def)
    ultimately show "seq_total f (chosen pr) \<le> window f \<and> distinct (map cand_track (chosen pr)) \<and> list_all (\<lambda>c. cand_track c \<notin> Q) (chosen pr)"
      using psa(1,3) tracks free by simp
  qed
qed

lemma proposal_from_proposed:
  assumes "proposal_from R s policy budget p = Inr pr" and "status pr = STATUS_PROPOSED"
  obtains usable f common where "mode (assess_placement s (requests R)) \<noteq> None"
    and "build_fit_frame s (or_zero (window_seconds p)) (assess_placement s (requests R)) TRANSITION_ALLOWANCE_SECONDS budget = Inr (Some f)"
    and "pr = propose R s policy p (assess_placement s (requests R)) f usable common" and "status common = STATUS_NO_FIT"
    and "projection_of common = Some p"
proof -
  obtain takeover where t: "instant (boundary_read R) = Some takeover"
    using assms(1) by (auto simp: proposal_from_def split: option.splits)
  define common where "common st = (no_proposal st (Some p))\<lparr>expires_at
      := Some (min (captured_at s + PROPOSAL_TTL) (takeover - 60000000)), placement_of := Some (assess_placement s (requests R))\<rparr>" for st
  have other: "status (common st) = st" "projection_of (common st) = Some p" for st
    by (simp_all add: common_def no_proposal_def)
  obtain sources last_reason where src: "resolve_category_sources (kind_of_category R) s (qualified_causes p) = Inr (sources, last_reason)"
    using assms(1) by (auto simp: proposal_from_def t Let_def elim!: bindR_InrE)
  let ?usable = "filter (\<lambda>src. source_status src = SOURCE_USABLE) sources" and ?pl = "assess_placement s (requests R)"
  have body: "(if ?usable = [] then Inr ((no_proposal STATUS_NO_CATEGORY (Some p))\<lparr>expires_at
        := Some (min (captured_at s + PROPOSAL_TTL) (takeover - 60000000))\<rparr>)
      else if mode ?pl = None then Inr (common STATUS_NO_SAFE_ANCHOR)
      else bindR (build_fit_frame s (or_zero (window_seconds p)) ?pl TRANSITION_ALLOWANCE_SECONDS budget) (\<lambda>frame.
        case frame of None \<Rightarrow> Inr (common STATUS_NO_SAFE_ANCHOR)
        | Some f \<Rightarrow> Inr (propose R s policy p ?pl f ?usable (common STATUS_NO_FIT)))) = Inr pr"
    using assms(1) unfolding proposal_from_def t option.case Let_def src bindR_simps prod.case common_def .
  have usable: "?usable \<noteq> []" using body assms(2) by (auto simp: no_proposal_def simp del: filter_empty_conv split: if_splits)
  have mode: "mode ?pl \<noteq> None"
  proof (rule notI)
    assume "mode ?pl = None"
    then have "Inr (common STATUS_NO_SAFE_ANCHOR) = (Inr pr :: refill_error + proposal)"
      using body usable by (simp only: if_True if_False simp_thms)
    then have "common STATUS_NO_SAFE_ANCHOR = pr" by simp
    then show False using assms(2) other(1) [of STATUS_NO_SAFE_ANCHOR] by simp
  qed
  obtain frame where frame: "build_fit_frame s (or_zero (window_seconds p)) ?pl TRANSITION_ALLOWANCE_SECONDS budget = Inr frame"
    using body usable mode by (auto simp del: filter_empty_conv elim!: bindR_InrE)
  obtain f where f: "frame = Some f" using body assms(2) usable mode frame other by (cases frame) auto
  have "pr = propose R s policy p ?pl f ?usable (common STATUS_NO_FIT)"
    using body usable mode frame f by (simp del: filter_empty_conv)
  then show ?thesis using that [OF mode frame [unfolded f] _ other] by simp
qed

lemma evaluate_proposed:
  assumes "evaluate_hour_refill z hash R s dry policy budget = Inr pr" and "status pr = STATUS_PROPOSED"
  obtains p where "project_refill z hash s (causes_read R) (Some (boundary_read R)) TRANSITION_ALLOWANCE_SECONDS = Inr p"
    and "outcome p = OUTCOME_ELIGIBLE" and "proposal_from R s policy budget p = Inr pr"
proof -
  have on: "dry \<or> policy_enabled R"
  proof (rule ccontr)
    assume "\<not> (dry \<or> policy_enabled R)"
    then have "evaluate_hour_refill z hash R s dry policy budget = Inr (no_proposal (Abstained OUTCOME_OFF) None)"
      by (simp only: evaluate_hour_refill_def if_True simp_thms)
    then have "pr = no_proposal (Abstained OUTCOME_OFF) None" using assms(1) by simp
    then show False using assms(2) by (simp add: no_proposal_def)
  qed
  have "bindR (project_refill z hash s (causes_read R) (Some (boundary_read R)) TRANSITION_ALLOWANCE_SECONDS) (\<lambda>p.
        if outcome p \<noteq> OUTCOME_ELIGIBLE then Inr (no_proposal (Abstained (outcome p)) (Some p))
        else proposal_from R s policy budget p) = Inr pr"
    using assms(1) on by (simp only: evaluate_hour_refill_def if_False simp_thms)
  then obtain p where p: "project_refill z hash s (causes_read R) (Some (boundary_read R)) TRANSITION_ALLOWANCE_SECONDS = Inr p"
    and rest: "(if outcome p \<noteq> OUTCOME_ELIGIBLE then Inr (no_proposal (Abstained (outcome p)) (Some p))
        else proposal_from R s policy budget p) = Inr pr"
    by (rule bindR_InrE)
  have "outcome p = OUTCOME_ELIGIBLE" using rest assms(2) by (auto simp: no_proposal_def split: if_splits)
  then show ?thesis using that p rest by simp
qed

lemma proposal_fits:
  assumes "evaluate_hour_refill z hash R s dry policy budget = Inr pr" and "status pr = STATUS_PROPOSED"
  shows "\<exists>p d els skipped pl w. projection_of pr = Some p \<and> outcome p = OUTCOME_ELIGIBLE \<and> window_seconds p = Some w
    \<and> live_decks s = [d] \<and> committed_sequence s d = Inr (els, skipped, []) \<and> pl = assess_placement s (requests R)
    \<and> mode pl \<noteq> None \<and> take (cut_at pl els) els \<noteq> [] \<and> music pr \<noteq> []
    \<and> sum_list (sequence_runway (take (cut_at pl els) els @ map as_element (chosen pr) @ drop (cut_at pl els) els)
          None TRANSITION_ALLOWANCE_SECONDS) + safety_reserve budget (length (chosen pr)) \<le> w
    \<and> distinct (map cand_track (chosen pr))
    \<and> list_all (\<lambda>c. cand_track c \<notin> hard_tracks R s (qualified_causes p)) (chosen pr)
    \<and> list_all (\<lambda>c. is_file R (filepath c)) (music pr)"
proof -
  obtain p where p: "project_refill z hash s (causes_read R) (Some (boundary_read R)) TRANSITION_ALLOWANCE_SECONDS = Inr p"
      "outcome p = OUTCOME_ELIGIBLE" and from_p: "proposal_from R s policy budget p = Inr pr"
    using assms by (rule evaluate_proposed)
  obtain usable f common where mode: "mode (assess_placement s (requests R)) \<noteq> None"
    and frame: "build_fit_frame s (or_zero (window_seconds p)) (assess_placement s (requests R)) TRANSITION_ALLOWANCE_SECONDS budget = Inr (Some f)"
    and pr: "pr = propose R s policy p (assess_placement s (requests R)) f usable common" and common: "status common = STATUS_NO_FIT"
      "projection_of common = Some p"
    using from_p assms(2) by (rule proposal_from_proposed)
  let ?pl = "assess_placement s (requests R)"
  obtain dt hr d where d: "live_decks s = [d]"
    and win: "project_window z hash s (causes_read R) (Some (boundary_read R)) TRANSITION_ALLOWANCE_SECONDS d dt hr = Inr p"
    using p by (rule project_refill_window)
  obtain i els skipped where els: "committed_sequence s d = Inr (els, skipped, [])"
    and measured: "p = measure hash s (causes_read R) (Some (boundary_read R)) TRANSITION_ALLOWANCE_SECONDS (of_int (i - captured_at s) / 1000000) els skipped"
    using win p(2) by (rule project_window_eligible)
  define w where "w = ms (of_int (i - captured_at s) / 1000000)"
  have w: "window_seconds p = Some w"
    by (simp add: measured w_def measure_def Let_def split: prod.splits)
  note cut = build_fit_frame_cut [OF frame d els]
  note ok = propose_ok [of R s policy p ?pl f usable common, folded pr]
  have sound: "music pr \<noteq> []" "seq_total f (chosen pr) \<le> window f" "distinct (map cand_track (chosen pr))"
    "list_all (\<lambda>c. cand_track c \<notin> hard_tracks R s (qualified_causes p)) (chosen pr)" "list_all (\<lambda>c. is_file R (filepath c)) (music pr)"
    using ok assms(2) common(1) by simp_all
  obtain c cs where chosen: "chosen pr = c # cs" using sound(1) by (cases "chosen pr") (auto simp: chosen_def)
  have "reserve f (Suc (length cs)) = safety_reserve budget (length (chosen pr))"
    using cut(8,9) by (simp add: reserve_def safety_reserve_def chosen split: option.splits prod.splits)
  then have "sum_list (sequence_runway (take (cut_at ?pl els) els @ map as_element (chosen pr) @ drop (cut_at ?pl els) els)
          None TRANSITION_ALLOWANCE_SECONDS) + safety_reserve budget (length (chosen pr)) \<le> w"
    using sound(2) frame_total_runway [OF frame d els, of c cs] cut(2) w by (simp add: chosen seq_total_def or_zero_def)
  moreover have "projection_of pr = Some p"
    using common(2) by (simp add: pr propose_def Let_def split: prod.splits)
  ultimately show ?thesis using p(2) w d els mode cut(1) sound(1,3-5) by blast
qed

text \<open>
  C19. A proposal can be played: with the proposed items at the proposed place, the committed material (each
  transition taken at its latest) and the safety reserve still end within the window before the
  takeover; the items are different tracks, each music file was there, and none is already committed,
  requested, part of a cause, or waiting in the next hour's log.
\<close>

theorem proposed_fill_fits:
  assumes "evaluate_hour_refill z hash R s dry policy budget = Inr pr" and "status pr = STATUS_PROPOSED"
  shows "\<exists>p d els skipped pl w. projection_of pr = Some p \<and> outcome p = OUTCOME_ELIGIBLE \<and> window_seconds p = Some w
    \<and> live_decks s = [d] \<and> committed_sequence s d = Inr (els, skipped, []) \<and> pl = assess_placement s (requests R)
    \<and> mode pl \<noteq> None \<and> take (cut_at pl els) els \<noteq> [] \<and> music pr \<noteq> []
    \<and> sum_list (sequence_runway (take (cut_at pl els) els @ map as_element (chosen pr) @ drop (cut_at pl els) els)
          None TRANSITION_ALLOWANCE_SECONDS) + safety_reserve budget (length (chosen pr)) \<le> w
    \<and> distinct (map cand_track (chosen pr))
    \<and> list_all (\<lambda>c. cand_track c \<notin> hard_tracks R s (qualified_causes p)) (chosen pr)
    \<and> list_all (\<lambda>c. is_file R (filepath c)) (music pr)"
  using assms by (rule proposal_fits)

definition sample_reads :: refill_reads where
  "sample_reads = \<lparr>policy_enabled = True, boundary_read = sample_boundary, causes_read = [sample_cause],
     requests = \<lparr>active_track_ids = {}, request_item_ids = {}, intro_item_ids = {}\<rparr>,
     kind_of_category = (\<lambda>c. if c = 1 then Some ''music'' else None), next_log_tracks = (\<lambda>_. {}), keys_of_tracks = (\<lambda>_. {}),
     pool_rows = (\<lambda>_. [\<lparr>row_track = 500, row_cue = None, row_next = None, row_duration = Some 210, row_keys = {}, row_path = [65]\<rparr>]),
     recent_tracks = (\<lambda>_. {}), recent_keys = (\<lambda>_. {}), reserved_media = (\<lambda>_. False), is_file = (\<lambda>_. True)\<rparr>"

lemma sample_projection:
  "map_sum id (\<lambda>p. (outcome p, window_seconds p, net_shortage p, qualified_causes p))
     (project_refill utc (\<lambda>_. []) sample_snapshot [sample_cause] (Some sample_boundary) TRANSITION_ALLOWANCE_SECONDS)
   = Inr (OUTCOME_ELIGIBLE, Some 600, Some (479 / 2), [sample_cause])"
  by code_simp

lemma sample_sources:
  "resolve_category_sources (kind_of_category sample_reads) sample_snapshot [sample_cause]
   = Inr ([\<lparr>source_category = Some 1, source_rank = 0, source_status = SOURCE_USABLE\<rparr>], [])"
  by code_simp

lemma sample_committed: "committed_tracks sample_snapshot = {101, 102, 103}"
  by (auto simp: committed_tracks_def sample_snapshot_def sample_row_def)

lemma sample_candidates: "candidates_of sample_reads sample_snapshot [sample_cause] 1 0 30 (479 / 2) = [sample_candidate]"
proof -
  have "500 \<notin> hard_tracks sample_reads sample_snapshot [sample_cause]"
    by (simp add: hard_tracks_def sample_committed sample_cause_def sample_reads_def sample_boundary_def)
  then show ?thesis
    by (simp add: candidates_of_def load_candidates_def candidate_of_def sample_reads_def timing_from_row_def or_zero_def
        sample_candidate_def MAX_ROWS_PER_SOURCE_def List.map_filter_simps)
qed

lemma sample_pool: "music_pool sample_reads sample_snapshot [sample_cause]
    [\<lparr>source_category = Some 1, source_rank = 0, source_status = SOURCE_USABLE\<rparr>] (479 / 2) = [sample_candidate]"
  by (simp add: music_pool_def MIN_MUSIC_CANDIDATE_SECONDS_def sample_candidates keep_best_def)

lemma sample_fit: "search_best_fit [sample_candidate] sample_frame MAX_MUSIC_TRACKS budget
    = \<lparr>fit_items = [sample_candidate], fit_total = 2283 / 4, fit_residual = 117 / 4, evaluations = 1, truncated = False\<rparr>"
proof -
  have "consider_seq sample_frame [sample_candidate] (None, 0)
      = (Some (rank_key (117 / 4) [sample_candidate], [sample_candidate], 2283 / 4, 117 / 4), 1)"
    by code_simp
  note single = this
  have ms: "ms (2283 / 4) = 2283 / 4" "ms (117 / 4) = 117 / 4" by code_simp+
  show ?thesis by (simp add: search_best_fit_def search_state_def fit_of_def Let_def single ms)
qed

text \<open>Two songs are left for ten minutes, the second of them on the air: one song more fits before the takeover.\<close>

theorem proposed_fill_fits_witness:
  "\<exists>pr. evaluate_hour_refill utc (\<lambda>_. []) sample_reads sample_snapshot False None None = Inr pr \<and> music pr = [sample_candidate]
     \<and> mode (assess_placement sample_snapshot (requests sample_reads)) \<noteq> None
     \<and> list_all (\<lambda>c. cand_track c \<notin> hard_tracks sample_reads sample_snapshot [sample_cause]) (chosen pr)"
proof -
  let ?project = "project_refill utc (\<lambda>_. []) sample_snapshot [sample_cause] (Some sample_boundary) TRANSITION_ALLOWANCE_SECONDS"
  obtain p where p: "?project = Inr p" using sample_projection by (cases ?project) auto
  then have fields: "outcome p = OUTCOME_ELIGIBLE" "window_seconds p = Some 600" "net_shortage p = Some (479 / 2)"
    "qualified_causes p = [sample_cause]"
    using sample_projection by simp_all
  have reads: "policy_enabled sample_reads" "boundary_read sample_reads = sample_boundary" "causes_read sample_reads = [sample_cause]"
    "instant sample_boundary = Some 600000000" "is_file sample_reads = (\<lambda>_. True)"
    "requests sample_reads = \<lparr>active_track_ids = {}, request_item_ids = {}, intro_item_ids = {}\<rparr>"
    by (simp_all add: sample_reads_def sample_boundary_def)
  let ?pl = "assess_placement sample_snapshot (requests sample_reads)"
  have mode: "mode ?pl = Some TailAppend" unfolding reads(6) by code_simp
  note frame = sample_frame_built [folded reads(6) TRANSITION_ALLOWANCE_SECONDS_def]
  define pr where "pr = projr (evaluate_hour_refill utc (\<lambda>_. []) sample_reads sample_snapshot False None None)"
  have all: "evaluate_hour_refill utc (\<lambda>_. []) sample_reads sample_snapshot False None None
      = proposal_from sample_reads sample_snapshot None None p"
    by (simp add: evaluate_hour_refill_def reads p fields)
  have found: "\<exists>pr. proposal_from sample_reads sample_snapshot None None p = Inr pr \<and> status pr = STATUS_PROPOSED
      \<and> music pr = [sample_candidate]"
    by (simp add: mode [unfolded reads] proposal_from_def reads fields sample_sources Let_def or_zero_def frame [unfolded reads] propose_def sample_pool
        sample_fit media_available_def psa_stage_def)
  obtain pr where pr: "evaluate_hour_refill utc (\<lambda>_. []) sample_reads sample_snapshot False None None = Inr pr"
    "status pr = STATUS_PROPOSED" "music pr = [sample_candidate]"
    using found all by auto
  from proposed_fill_fits [OF pr(1,2)] obtain q where q: "projection_of pr = Some q"
    "list_all (\<lambda>c. cand_track c \<notin> hard_tracks sample_reads sample_snapshot (qualified_causes q)) (chosen pr)" by blast
  obtain p' where "projection_of pr = Some p'" "p' = p"
    using pr(1,2) p by (auto simp: all elim!: proposal_from_proposed simp: propose_def Let_def split: prod.splits)
  then show ?thesis using q pr mode fields by auto
qed

end
