(* ===== verification/Air_Digits.thy ===== *)
theory Air_Digits
  imports Air_Text
begin

text \<open>
  Decimal numbers inside texts: \<^const>\<open>show_nat\<close> and \<^const>\<open>show_int\<close> write them, reading gives them back,
  and a number followed by another character is found again. Used for the source keys of the refill causes and for
  the names of the queued commands.
\<close>

definition is_digit :: "nat \<Rightarrow> bool" where
  "is_digit c \<longleftrightarrow> 48 \<le> c \<and> c \<le> 57"

lemma show_nat_is_digits: "list_all is_digit (show_nat n)"
proof (induction n rule: show_nat.induct)
  case (1 n)
  have digit: "is_digit (48 + n mod 10)" by (simp add: is_digit_def less_Suc_eq_le [symmetric])
  show ?case
  proof (cases "n < 10")
    case True
    then show ?thesis by (simp add: show_nat.simps [of n] is_digit_def)
  next
    case False
    then show ?thesis using 1 digit by (subst show_nat.simps) simp
  qed
qed

lemma show_nat_nonempty: "show_nat n \<noteq> []"
  by (simp add: show_nat.simps [of n])

definition read_nat :: "utext \<Rightarrow> nat" where
  "read_nat = foldl (\<lambda>a c. 10 * a + (c - 48)) 0"

lemma read_show_nat: "read_nat (show_nat n) = n"
proof (induction n rule: show_nat.induct)
  case (1 n)
  show ?case
  proof (cases "n < 10")
    case True
    then show ?thesis by (simp add: show_nat.simps [of n] read_nat_def)
  next
    case False
    have "read_nat (show_nat n) = 10 * read_nat (show_nat (n div 10)) + n mod 10"
      using False by (subst show_nat.simps) (simp add: read_nat_def)
    then show ?thesis using 1 False by simp
  qed
qed

definition ends_number :: "utext \<Rightarrow> bool" where
  "ends_number r \<longleftrightarrow> (case r of [] \<Rightarrow> True | c # _ \<Rightarrow> \<not> is_digit c)"

lemma ends_number_Cons: "ends_number (c # r) \<longleftrightarrow> \<not> is_digit c"
  by (simp add: ends_number_def)

lemma digits_split:
  "list_all is_digit a \<Longrightarrow> list_all is_digit b \<Longrightarrow> ends_number x \<Longrightarrow> ends_number y \<Longrightarrow> a @ x = b @ y \<Longrightarrow> a = b \<and> x = y"
proof (induction a arbitrary: b)
  case Nil
  then show ?case by (cases b) (simp_all add: ends_number_Cons)
next
  case (Cons c a)
  then show ?case by (cases b) (auto simp: ends_number_Cons)
qed

lemma show_nat_split:
  assumes "ends_number x" "ends_number y"
  shows "show_nat a @ x = show_nat b @ y \<longleftrightarrow> a = b \<and> x = y"
proof
  assume "show_nat a @ x = show_nat b @ y"
  with digits_split [OF show_nat_is_digits show_nat_is_digits assms] have same: "show_nat a = show_nat b \<and> x = y" .
  then have "read_nat (show_nat a) = read_nat (show_nat b)" by (simp only:)
  then have "a = b" by (simp only: read_show_nat)
  then show "a = b \<and> x = y" using same by blast
qed simp

lemma show_nat_no_sign: "show_nat n @ x \<noteq> 45 # y"
  using show_nat_is_digits [of n] show_nat_nonempty [of n] by (cases "show_nat n") (auto simp: is_digit_def)

lemma show_int_split:
  assumes "ends_number x" "ends_number y"
  shows "show_int a @ x = show_int b @ y \<longleftrightarrow> a = b \<and> x = y"
  using assms show_nat_no_sign [of _ x] show_nat_no_sign [of _ y] show_nat_no_sign [of _ y, symmetric] show_nat_no_sign [of _ x, symmetric]
  by (auto simp: show_int_def show_nat_split)

lemma show_int_inject: "show_int a = show_int b \<longleftrightarrow> a = b"
  using show_int_split [of "[]" "[]" a b] by (simp add: ends_number_def)

lemma show_int_is_number: "list_all (\<lambda>c. is_digit c \<or> c = 45) (show_int i)"
proof -
  have "list_all (\<lambda>c. is_digit c \<or> c = 45) (show_nat n)" for n
    using show_nat_is_digits [of n] by (rule list.pred_mono_strong) simp
  then show ?thesis by (simp add: show_int_def)
qed

text \<open>A number is also found from the right.\<close>

lemma number_split_right:
  assumes "list_all (\<lambda>c. is_digit c \<or> c = 45) a" "list_all (\<lambda>c. is_digit c \<or> c = 45) b"
    and "\<not> (is_digit s \<or> s = 45)" and "x @ s # a = y @ s # b"
  shows "a = b \<and> x = y"
proof -
  have "takeWhile (\<lambda>c. is_digit c \<or> c = 45) (rev (z @ s # c)) = rev c" if "list_all (\<lambda>c. is_digit c \<or> c = 45) c" for z c
    using that assms(3) by (simp add: takeWhile_append list_all_iff)
  from this [OF assms(1)] this [OF assms(2)] assms(4) show ?thesis by (metis append_same_eq rev_rev_ident)
qed

lemma length_show_nat: "n < 10 ^ k \<Longrightarrow> 0 < k \<Longrightarrow> length (show_nat n) \<le> k"
proof (induction k arbitrary: n)
  case (Suc k)
  show ?case
  proof (cases "n < 10")
    case True
    then show ?thesis by (simp add: show_nat.simps [of n])
  next
    case False
    then have "0 < k" using Suc.prems by (cases k) auto
    moreover have "n div 10 < 10 ^ k" using Suc.prems by (simp add: less_mult_imp_div_less)
    ultimately have "length (show_nat (n div 10)) \<le> k" using Suc.IH by blast
    then show ?thesis using False by (subst show_nat.simps) simp
  qed
qed simp

lemma read_nat_zeros: "read_nat (replicate k 48 @ t) = read_nat t"
  by (induction k) (simp_all add: read_nat_def)

lemma show_nat_longer: "10 ^ k \<le> n \<Longrightarrow> k < length (show_nat n)"
proof (induction k arbitrary: n)
  case 0
  then show ?case using show_nat_nonempty [of n] by simp
next
  case (Suc k)
  then have "10 ^ k \<le> n div 10" by (simp add: less_eq_div_iff_mult_less_eq mult.commute)
  moreover have "10 * 10 ^ k \<le> n" and "(1 :: nat) \<le> 10 ^ k" using Suc.prems by simp_all
  then have "\<not> n < 10" by linarith
  ultimately show ?case using Suc.IH [of "n div 10"] by (subst show_nat.simps) simp
qed

end
