(* ===== verification/Refill_Causes.thy ===== *)
theory Refill_Causes
  imports Refill_Projection Air_Text Air_Digits
begin

text \<open>
  The causes of a refill, \<^verbatim>\<open>library/services/hour_refill_causality.py\<close>: which completed Eject, Start Next,
  automatic skip, media failure or request swap counts as one, how much airtime it lost, and the summary of
  an hour. Fields that the source reads from memory without a query are arguments; a value that was not loaded
  is None.
\<close>

section \<open>Airtime\<close>

definition remaining_effective_airtime :: "seconds option \<Rightarrow> seconds option \<Rightarrow> seconds option \<Rightarrow> seconds option \<Rightarrow> seconds" where
  "remaining_effective_airtime pos cue next_at dur =
     (case (case next_at of None \<Rightarrow> dur | Some n \<Rightarrow> Some n) of None \<Rightarrow> 0
      | Some e \<Rightarrow> max 0 (e - max (or_zero pos) (or_zero cue)))"

text \<open>A position that a check may refuse: none, not a finite number, or a number.\<close>

datatype reading = NoReading | Unusable | Reading seconds

definition usable_position :: "reading \<Rightarrow> seconds option" where
  "usable_position r = (case r of Reading p \<Rightarrow> if p < 0 then None else Some p | _ \<Rightarrow> None)"

section \<open>Source keys\<close>

definition operator_eject_source_key :: "utext \<Rightarrow> utext \<Rightarrow> int \<Rightarrow> int \<Rightarrow> utext" where
  "operator_eject_source_key eng sl gen item =
     cps CAUSE_OPERATOR_EJECT @ cps '':'' @ eng @ cps '':'' @ sl @ cps '':g'' @ show_int gen @ cps '':li'' @ show_int item"

text \<open>The first 32 digits of the SHA-256 of instance, line feed and request id are an argument.\<close>

definition start_next_source_key :: "(utext \<Rightarrow> utext) \<Rightarrow> utext \<Rightarrow> utext \<Rightarrow> int \<Rightarrow> int \<Rightarrow> utext \<Rightarrow> utext" where
  "start_next_source_key hash32 eng sl gen item request =
     cps CAUSE_START_NEXT @ cps '':li'' @ show_int item @ cps '':'' @ sl @ cps ''g'' @ show_int gen @ cps '':''
       @ hash32 (eng @ [10] @ request)"

definition automatic_skip_source_key :: "int \<Rightarrow> int \<Rightarrow> utext" where
  "automatic_skip_source_key item track = cps CAUSE_AUTOMATIC_SKIP @ cps '':li'' @ show_int item @ cps '':t'' @ show_int track"

definition media_failure_source_key :: "int \<Rightarrow> utext \<Rightarrow> int \<Rightarrow> utext \<Rightarrow> utext" where
  "media_failure_source_key item sl gen eng =
     cps CAUSE_MEDIA_FAILURE @ cps '':li'' @ show_int item @ cps '':'' @ sl @ cps ''g'' @ show_int gen @ cps '':'' @ eng"

definition request_substitution_source_key :: "int \<Rightarrow> int \<Rightarrow> int \<Rightarrow> int \<Rightarrow> utext" where
  "request_substitution_source_key item request original replacement =
     cps CAUSE_REQUEST_SUBSTITUTION @ cps '':li'' @ show_int item @ cps '':req'' @ show_int request
       @ cps '':t'' @ show_int original @ cps ''-'' @ show_int replacement"

section \<open>What is loaded of the item\<close>

text \<open>
  \<^verbatim>\<open>_loaded\<close> and \<^verbatim>\<open>_cached\<close> read what is in memory and never query. The log item with its category kind, its
  log and a track: the deck's for Eject and Start Next, the item's own cached relation for the other causes.
\<close>

datatype 'a loaded = Missing | Loaded 'a

record loaded_item =
  ld_origin :: "string loaded"
  ld_item :: "int option loaded"
  ld_item_log :: "int option loaded"
  ld_item_position :: "int loaded"
  ld_category :: "int option loaded"
  ld_item_track :: "int option loaded"
  ld_played :: "int option loaded"
  ld_claimed :: "int option loaded"
  ld_log :: "int option loaded"
  ld_log_date :: "int loaded"
  ld_log_hour :: "int loaded"
  ld_log_status :: "string loaded"
  ld_kind :: "string loaded"
  ld_track :: "int option loaded"
  ld_cue :: "seconds option loaded"
  ld_next :: "seconds option loaded"
  ld_duration :: "seconds option loaded"

definition loaded_or :: "'a \<Rightarrow> 'a loaded \<Rightarrow> 'a" where
  "loaded_or d v = (case v of Missing \<Rightarrow> d | Loaded x \<Rightarrow> x)"

definition ORIGIN_GENERATED_SCHEDULE :: string where "ORIGIN_GENERATED_SCHEDULE = ''generated_schedule''"

definition origin_source :: "string loaded \<Rightarrow> string" where
  "origin_source v =
     (if v = Missing \<or> v = Loaded '''' then ''unknown''
      else if v = Loaded ORIGIN_GENERATED_SCHEDULE then ''scheduled'' else loaded_or '''' v)"

definition occurrence_source :: "bool \<Rightarrow> loaded_item \<Rightarrow> string" where
  "occurrence_source continuation l = (if continuation then ''continuation'' else origin_source (ld_origin l))"

type_synonym timing = "seconds option \<times> seconds option \<times> seconds option"

definition loaded_timing :: "loaded_item \<Rightarrow> timing option" where
  "loaded_timing l = (case (ld_next l, ld_duration l, ld_cue l) of (Loaded n, Loaded d, Loaded c) \<Rightarrow> Some (n, d, c) | _ \<Rightarrow> None)"

definition identity_missing :: "loaded_item \<Rightarrow> bool" where
  "identity_missing l \<longleftrightarrow> ld_log_date l = Missing \<or> ld_log_hour l = Missing \<or> ld_item_position l = Missing \<or> ld_track l = Missing
     \<or> ld_item_log l = Missing \<or> ld_category l = Missing"

definition eject_timing :: "loaded_item \<Rightarrow> timing option" where
  "eject_timing l = (if identity_missing l then None else loaded_timing l)"

definition start_next_timing :: "loaded_item \<Rightarrow> timing option" where
  "start_next_timing l =
     (if identity_missing l \<or> ld_item_track l = Missing then None
      else if ld_track l = Loaded None \<or> ld_track l \<noteq> ld_item_track l then None
      else if ld_log l \<noteq> ld_item_log l then None else loaded_timing l)"

section \<open>Operator Eject\<close>

record eject_observation =
  ej_engine :: utext
  ej_slot :: utext
  ej_expected :: "int option"
  ej_present :: bool
  ej_item :: "int option"
  ej_generation :: "int option"
  ej_claimed :: bool
  ej_source :: string
  ej_on_air :: bool
  ej_paused :: bool
  ej_other_live :: bool
  ej_vt_phase :: string
  ej_manual :: bool
  ej_remote :: bool
  ej_mic :: bool
  ej_start_next :: bool
  ej_pending :: bool
  ej_kind :: string
  ej_position :: "seconds option"
  ej_cue :: "seconds option"
  ej_next :: "seconds option"
  ej_duration :: "seconds option"

record cause_envelope =
  env_key :: utext
  env_engine :: utext
  env_request :: utext
  env_slot :: utext
  env_generation :: int
  env_item :: int
  env_position :: seconds
  env_remaining :: seconds

text \<open>The checks before the position is looked at, in their order.\<close>

definition eject_exclusion :: "eject_observation \<Rightarrow> string option" where
  "eject_exclusion e =
     (if \<not> ej_present e then Some ''empty_slot''
      else if ej_expected e \<noteq> None \<and> ej_expected e \<noteq> ej_item e then Some ''stale_binding''
      else if \<not> ej_claimed e then Some ''already_completing''
      else if ej_item e = None \<or> ej_generation e = None \<or> ej_engine e = [] then Some ''identity_unknown''
      else if ej_manual e then Some ''manual_hold''
      else if ej_remote e then Some ''remote_dj_owner''
      else if ej_mic e then Some ''mic_live''
      else if ej_start_next e then Some ''start_next_transition''
      else if ej_vt_phase e \<noteq> ''idle'' then Some ''vt_transition''
      else if ej_other_live e then Some ''overlap''
      else if ej_pending e then Some ''transition_pending''
      else if ej_source e \<noteq> ''scheduled'' then Some ''not_scheduled_occurrence''
      else if ej_kind e \<noteq> ''music'' then Some ''not_music''
      else if \<not> ej_on_air e then Some ''not_on_air''
      else if ej_paused e then Some ''paused'' else None)"

definition classify_eject_observation :: "eject_observation \<Rightarrow> string + cause_envelope" where
  "classify_eject_observation e =
     (case eject_exclusion e of Some r \<Rightarrow> Inl r
      | None \<Rightarrow>
          (case (ej_position e, ej_item e, ej_generation e) of
             (Some pos, Some item, Some gen) \<Rightarrow>
               let remaining = ms (remaining_effective_airtime (Some pos) (ej_cue e) (ej_next e) (ej_duration e)) in
               if remaining \<le> 0 then Inl ''no_remaining_airtime''
               else Inr \<lparr>env_key = operator_eject_source_key (ej_engine e) (ej_slot e) gen item, env_engine = ej_engine e,
                 env_request = [], env_slot = ej_slot e, env_generation = gen, env_item = item, env_position = ms pos,
                 env_remaining = remaining\<rparr>
           | _ \<Rightarrow> Inl ''position_unknown''))"

text \<open>
  \<^verbatim>\<open>eject_evidence_from_engine\<close>: first with a placeholder for the position and the end point, then with the
  loaded timing (next start, duration, cue) and the deck's position. \<^term>\<open>e\<close> holds what is read of the engine
  and the deck.
\<close>

definition observed_eject :: "eject_observation \<Rightarrow> bool \<Rightarrow> loaded_item \<Rightarrow> eject_observation" where
  "observed_eject e continuation l =
     e\<lparr>ej_present := True, ej_item := loaded_or None (ld_item l), ej_source := occurrence_source continuation l,
       ej_kind := loaded_or '''' (ld_kind l), ej_cue := None, ej_next := None, ej_duration := None\<rparr>"

definition eject_evidence :: "eject_observation \<Rightarrow> bool \<Rightarrow> loaded_item \<Rightarrow> seconds option \<Rightarrow> string + cause_envelope" where
  "eject_evidence e continuation l pos =
     (let e0 = observed_eject e continuation l in
      case classify_eject_observation (e0\<lparr>ej_position := Some 0, ej_next := Some 1\<rparr>) of
        Inl r \<Rightarrow> Inl r
      | Inr _ \<Rightarrow>
          (case eject_timing l of None \<Rightarrow> Inl ''identity_unknown''
           | Some (n, d, c) \<Rightarrow>
               classify_eject_observation (e0\<lparr>ej_position := pos, ej_next := n, ej_duration := d, ej_cue := c\<rparr>)))"

section \<open>Completed Start Next\<close>

record start_next_observation =
  so_engine :: utext
  so_request :: utext
  so_mode :: string
  so_phase :: string
  so_slot :: utext
  so_item :: "int option"
  so_generation :: "int option"
  so_outgoing :: "(utext \<times> int option \<times> int option) option"
  so_is_outgoing :: bool
  so_mapped :: bool
  so_claimed :: bool
  so_incoming_started :: bool
  so_foreign_live :: bool
  so_ownership :: "(bool \<times> bool \<times> bool) option"
  so_manual :: bool
  so_remote :: bool
  so_mic :: bool
  so_vt_phase :: string
  so_seeking :: bool
  so_source :: string
  so_on_air :: bool
  so_paused :: bool
  so_kind :: string
  so_position :: reading
  so_cue :: "seconds option"
  so_next :: "seconds option"
  so_duration :: "seconds option"

definition control_exclusion :: "start_next_observation \<Rightarrow> bool \<times> bool \<times> bool \<Rightarrow> string option" where
  "control_exclusion e accept =
     (if fst accept \<or> so_manual e then Some ''manual_hold''
      else if fst (snd accept) \<or> so_remote e then Some ''remote_dj_owner''
      else if snd (snd accept) \<or> so_mic e then Some ''mic_live''
      else if so_vt_phase e \<noteq> ''idle'' then Some ''vt_transition''
      else if so_seeking e then Some ''seek_in_progress''
      else if so_source e \<noteq> ''scheduled'' then Some ''not_scheduled_occurrence''
      else if so_kind e \<noteq> ''music'' then Some ''not_music''
      else if \<not> so_on_air e then Some ''not_on_air''
      else if so_paused e then Some ''paused'' else None)"

definition identity_exclusion :: "start_next_observation \<Rightarrow> string option" where
  "identity_exclusion e =
     (if so_mode e \<noteq> ''fade_and_start'' then Some ''not_fade_and_start''
      else if \<not> so_claimed e then Some ''not_claimed''
      else if \<not> so_is_outgoing e \<or> \<not> so_mapped e \<or> so_item e = None \<or> so_generation e = None
        \<or> so_outgoing e \<noteq> Some (so_slot e, so_item e, so_generation e) then Some ''identity_mismatch''
      else if so_engine e = [] \<or> so_request e = [] then Some ''identity_unknown''
      else if so_phase e = ''to_silence'' then Some ''to_silence''
      else if so_phase e \<noteq> ''advancing'' \<or> \<not> so_incoming_started e then Some ''incoming_not_started''
      else if so_foreign_live e then Some ''foreign_live_deck'' else None)"

text \<open>The ownership at acceptance is None unless it is a dictionary of exactly the three flags.\<close>

definition start_next_exclusion :: "start_next_observation \<Rightarrow> string option" where
  "start_next_exclusion e =
     (case identity_exclusion e of Some r \<Rightarrow> Some r
      | None \<Rightarrow> (case so_ownership e of None \<Rightarrow> Some ''ownership_unknown'' | Some accept \<Rightarrow> control_exclusion e accept))"

definition classify_start_next_observation :: "(utext \<Rightarrow> utext) \<Rightarrow> start_next_observation \<Rightarrow> string + cause_envelope" where
  "classify_start_next_observation hash32 e =
     (case start_next_exclusion e of Some r \<Rightarrow> Inl r
      | None \<Rightarrow>
          (case (usable_position (so_position e), so_item e, so_generation e) of
             (Some pos, Some item, Some gen) \<Rightarrow>
               let remaining = ms (remaining_effective_airtime (Some pos) (so_cue e) (so_next e) (so_duration e)) in
               if remaining \<le> 0 then Inl ''no_remaining_airtime''
               else Inr \<lparr>env_key = start_next_source_key hash32 (so_engine e) (so_slot e) gen item (so_request e),
                 env_engine = so_engine e, env_request = so_request e, env_slot = so_slot e, env_generation = gen,
                 env_item = item, env_position = ms pos, env_remaining = remaining\<rparr>
           | _ \<Rightarrow> Inl ''position_unknown''))"

text \<open>\<^verbatim>\<open>start_next_evidence_from_engine\<close>, in the same two steps.\<close>

definition observed_start_next :: "start_next_observation \<Rightarrow> bool \<Rightarrow> loaded_item \<Rightarrow> start_next_observation" where
  "observed_start_next e continuation l =
     e\<lparr>so_item := loaded_or None (ld_item l), so_source := occurrence_source continuation l,
       so_kind := loaded_or '''' (ld_kind l), so_cue := None, so_next := None, so_duration := None\<rparr>"

definition start_next_evidence ::
  "(utext \<Rightarrow> utext) \<Rightarrow> start_next_observation \<Rightarrow> bool \<Rightarrow> loaded_item \<Rightarrow> reading \<Rightarrow> string + cause_envelope" where
  "start_next_evidence hash32 e continuation l pos =
     (let e0 = observed_start_next e continuation l in
      case classify_start_next_observation hash32 (e0\<lparr>so_position := Reading 0, so_next := Some 1\<rparr>) of
        Inl r \<Rightarrow> Inl r
      | Inr _ \<Rightarrow>
          (case start_next_timing l of None \<Rightarrow> Inl ''identity_unknown''
           | Some (n, d, c) \<Rightarrow>
               classify_start_next_observation hash32 (e0\<lparr>so_position := pos, so_next := n, so_duration := d, so_cue := c\<rparr>)))"

section \<open>Automatic skip and media failure\<close>

definition has_prefix :: "utext \<Rightarrow> utext \<Rightarrow> bool" where
  "has_prefix p t \<longleftrightarrow> take (length p) t = p"

definition has_suffix :: "utext \<Rightarrow> utext \<Rightarrow> bool" where
  "has_suffix p t \<longleftrightarrow> length p \<le> length t \<and> drop (length t - length p) t = p"

definition skip_reason_code :: "utext option \<Rightarrow> string option" where
  "skip_reason_code why =
     (case why of None \<Rightarrow> None
      | Some t \<Rightarrow> if has_prefix (cps ''file missing on disk: '') t then Some ''file_missing''
          else if has_prefix (cps ''track id='') t \<and> has_suffix (cps '' has no filepath'') t then Some ''no_filepath''
          else None)"

definition RESOURCE_QUARK :: string where "RESOURCE_QUARK = ''gst-resource-error-quark''"
definition STREAM_QUARK :: string where "STREAM_QUARK = ''gst-stream-error-quark''"

definition MEDIA_ERROR_CODES :: "((string \<times> int) \<times> string) list" where
  "MEDIA_ERROR_CODES = [((RESOURCE_QUARK, 3), ''resource_not_found''), ((RESOURCE_QUARK, 5), ''resource_open_read''),
     ((RESOURCE_QUARK, 9), ''resource_read''), ((STREAM_QUARK, 4), ''stream_type_not_found''),
     ((STREAM_QUARK, 5), ''stream_wrong_type''), ((STREAM_QUARK, 6), ''stream_codec_not_found''),
     ((STREAM_QUARK, 7), ''stream_decode''), ((STREAM_QUARK, 9), ''stream_demux''), ((STREAM_QUARK, 11), ''stream_format'')]"

text \<open>The code is None when it is no integer.\<close>

definition media_error_code :: "string \<Rightarrow> int option \<Rightarrow> string option" where
  "media_error_code domain code = (case code of None \<Rightarrow> None | Some c \<Rightarrow> map_of MEDIA_ERROR_CODES (domain, c))"

record scheduled_occurrence =
  oc_source :: string
  oc_kind :: string
  oc_approved :: bool
  oc_played :: bool
  oc_claimed :: bool
  oc_item :: "int option"
  oc_track :: "int option"
  oc_cue :: "seconds option"
  oc_next :: "seconds option"
  oc_duration :: "seconds option"
  oc_complete :: bool

definition occurrence_of :: "loaded_item \<Rightarrow> scheduled_occurrence" where
  "occurrence_of l =
     \<lparr>oc_source = origin_source (ld_origin l), oc_kind = loaded_or '''' (ld_kind l),
      oc_approved = (ld_log_status l = Loaded ''approved''),
      oc_played = (ld_played l \<notin> {Missing, Loaded None}), oc_claimed = (ld_claimed l \<notin> {Missing, Loaded None}),
      oc_item = loaded_or None (ld_item l), oc_track = loaded_or None (ld_track l), oc_cue = loaded_or None (ld_cue l),
      oc_next = loaded_or None (ld_next l), oc_duration = loaded_or None (ld_duration l),
      oc_complete =
        (\<not> identity_missing l \<and> ld_item l \<noteq> Missing \<and> loaded_timing l \<noteq> None \<and> ld_played l \<noteq> Missing \<and> ld_claimed l \<noteq> Missing
         \<and> ld_track l \<noteq> Loaded None \<and> ld_item_track l = ld_track l \<and> ld_log l = ld_item_log l)\<rparr>"

definition occurrence_problem :: "scheduled_occurrence \<Rightarrow> string option" where
  "occurrence_problem oc =
     (if \<not> oc_complete oc then Some ''identity_unknown''
      else if oc_source oc \<noteq> ''scheduled'' then Some ''not_scheduled_occurrence''
      else if oc_kind oc \<noteq> ''music'' then Some ''not_music''
      else if \<not> oc_approved oc then Some ''log_not_approved'' else None)"

definition occurrence_airtime :: "scheduled_occurrence \<Rightarrow> seconds" where
  "occurrence_airtime oc = ms (effective_airtime (oc_next oc) (oc_duration oc) (oc_cue oc))"

definition classify_automatic_skip :: "scheduled_occurrence \<Rightarrow> string option \<Rightarrow> string + seconds" where
  "classify_automatic_skip oc code =
     (if code = None then Inl ''not_media_reason''
      else case occurrence_problem oc of Some r \<Rightarrow> Inl r
      | None \<Rightarrow>
          if oc_played oc \<or> oc_claimed oc then Inl ''possible_replay''
          else if occurrence_airtime oc \<le> 0 then Inl ''no_effective_airtime'' else Inr (occurrence_airtime oc))"

text \<open>\<^verbatim>\<open>automatic_skip_evidence_from_engine\<close>.\<close>

definition automatic_skip_evidence :: "loaded_item \<Rightarrow> utext option \<Rightarrow> string + seconds" where
  "automatic_skip_evidence l why = classify_automatic_skip (occurrence_of l) (skip_reason_code why)"

datatype air_phase = PreAir | PostAir

record media_failure_observation =
  mf_occurrence :: scheduled_occurrence
  mf_engine :: utext
  mf_slot :: utext
  mf_generation :: "int option"
  mf_error :: "string option"
  mf_claimed :: bool
  mf_mapped :: bool
  mf_fresh :: bool
  mf_seeking :: bool
  mf_start_next :: bool
  mf_vt_phase :: string
  mf_other_live :: bool
  mf_manual :: bool
  mf_remote :: bool
  mf_mic :: bool
  mf_dispatched :: bool
  mf_recorded :: bool
  mf_buffers :: int
  mf_position :: reading

definition media_exclusion :: "media_failure_observation \<Rightarrow> string option" where
  "media_exclusion e =
     (if mf_error e = None then Some ''not_media_error''
      else if \<not> mf_claimed e then Some ''not_claimed''
      else if mf_engine e = [] \<or> length (mf_engine e) > 64 \<or> mf_slot e \<notin> {cps ''A'', cps ''B''} \<or> mf_generation e = None
      then Some ''identity_unknown''
      else if \<not> mf_mapped e then Some ''superseded''
      else if mf_seeking e then Some ''seek_in_progress''
      else if \<not> mf_fresh e then Some ''not_fresh_occurrence''
      else if mf_start_next e then Some ''start_next_transition''
      else if mf_vt_phase e \<noteq> ''idle'' then Some ''vt_transition''
      else if mf_other_live e then Some ''overlap''
      else if mf_manual e then Some ''manual_hold''
      else if mf_remote e then Some ''remote_dj_owner''
      else if mf_mic e then Some ''mic_live''
      else occurrence_problem (mf_occurrence e))"

definition never_heard :: "media_failure_observation \<Rightarrow> bool" where
  "never_heard e \<longleftrightarrow> \<not> mf_dispatched e \<and> \<not> mf_recorded e \<and> mf_buffers e = 0 \<and> \<not> oc_played (mf_occurrence e)"

definition classify_media_failure :: "media_failure_observation \<Rightarrow> string + air_phase \<times> seconds" where
  "classify_media_failure e =
     (case media_exclusion e of Some r \<Rightarrow> Inl r
      | None \<Rightarrow>
          let oc = mf_occurrence e in
          if never_heard e
          then (if occurrence_airtime oc \<le> 0 then Inl ''no_effective_airtime'' else Inr (PreAir, occurrence_airtime oc))
          else if \<not> (mf_dispatched e \<and> mf_recorded e) then Inl ''air_start_unsettled''
          else case usable_position (mf_position e) of None \<Rightarrow> Inl ''position_unknown''
          | Some pos \<Rightarrow>
              let lost = ms (remaining_effective_airtime (Some pos) (oc_cue oc) (oc_next oc) (oc_duration oc)) in
              if lost \<le> 0 then Inl ''no_remaining_airtime'' else Inr (PostAir, lost))"

text \<open>\<^verbatim>\<open>media_failure_evidence_from_engine\<close>: the deck's position is read only for a possible cause on the air.\<close>

definition observed_failure :: "media_failure_observation \<Rightarrow> loaded_item \<Rightarrow> string \<Rightarrow> int option \<Rightarrow> media_failure_observation" where
  "observed_failure e l domain code = e\<lparr>mf_occurrence := occurrence_of l, mf_error := media_error_code domain code\<rparr>"

definition media_evidence ::
  "media_failure_observation \<Rightarrow> loaded_item \<Rightarrow> string \<Rightarrow> int option \<Rightarrow> reading \<Rightarrow> string + air_phase \<times> seconds" where
  "media_evidence e l domain code pos =
     (let e0 = observed_failure e l domain code in
      case classify_media_failure (e0\<lparr>mf_position := Reading 0\<rparr>) of
        Inr (PreAir, lost) \<Rightarrow> Inr (PreAir, lost)
      | Inr (PostAir, _) \<Rightarrow> classify_media_failure (e0\<lparr>mf_position := pos\<rparr>)
      | Inl r \<Rightarrow> if r \<noteq> ''no_remaining_airtime'' then Inl r else classify_media_failure (e0\<lparr>mf_position := pos\<rparr>))"

section \<open>Request substitution\<close>

definition build_request_substitution ::
  "int \<Rightarrow> int option \<Rightarrow> int option \<Rightarrow> string \<Rightarrow> int option \<Rightarrow> seconds \<Rightarrow> seconds \<Rightarrow> string + utext \<times> seconds" where
  "build_request_substitution item original replacement kind_code request old_airtime new_airtime =
     (case (original, replacement) of
        (Some a, Some b) \<Rightarrow>
          if a = b then Inl ''same_track''
          else if kind_code \<noteq> ''music'' then Inl ''not_music_slot''
          else (case request of None \<Rightarrow> Inl ''missing_request''
          | Some r \<Rightarrow>
              let old = ms old_airtime; new = ms new_airtime in
              if new \<ge> old then Inl ''not_shorter''
              else Inr (request_substitution_source_key item r a b, ms (old - new)))
      | _ \<Rightarrow> Inl ''missing_track'')"

section \<open>The trace of an hour\<close>

record causality_trace =
  counted_causes :: "cause_record list"
  duplicate_keys :: "(utext \<times> string) list"
  other_hour_causes :: "cause_record list"
  trace_sources :: "((int option \<times> utext) \<times> utext list) list"
  trace_shortening :: seconds

fun trace_loop :: "(cause_record \<Rightarrow> bool) \<Rightarrow> utext set \<Rightarrow> (string \<times> int) set \<Rightarrow> cause_record list
    \<Rightarrow> cause_record list \<times> (utext \<times> string) list \<times> cause_record list" where
  "trace_loop hour keys seen [] = ([], [], [])"
| "trace_loop hour keys seen (r # rs) =
     (if source_key r \<in> keys
      then (let (c, d, h) = trace_loop hour keys seen rs in (c, (source_key r, ''duplicate_source_key'') # d, h))
      else if \<not> hour r
      then (let (c, d, h) = trace_loop hour (insert (source_key r) keys) seen rs in (c, d, r # h))
      else if occurrence r \<in> seen
      then (let (c, d, h) = trace_loop hour (insert (source_key r) keys) seen rs
            in (c, (source_key r, ''duplicate_occurrence_cause'') # d, h))
      else (let (c, d, h) = trace_loop hour (insert (source_key r) keys) (insert (occurrence r) seen) rs in (r # c, d, h)))"

text \<open>The sources by category, in the order in which the categories first appear.\<close>

fun add_category_key :: "cause_record \<Rightarrow> ((int option \<times> utext) \<times> utext list) list \<Rightarrow> ((int option \<times> utext) \<times> utext list) list" where
  "add_category_key r [] = [((scheduled_category_id r, scheduled_category_code r), [source_key r])]"
| "add_category_key r ((k, keys) # rest) =
     (if k = (scheduled_category_id r, scheduled_category_code r) then (k, keys @ [source_key r]) # rest
      else (k, keys) # add_category_key r rest)"

definition build_causality_trace :: "cause_record list \<Rightarrow> int \<Rightarrow> int \<Rightarrow> causality_trace" where
  "build_causality_trace records day hour =
     (let (c, d, h) = trace_loop (\<lambda>r. (cause_log_date r, cause_log_hour r) = (day, hour)) {} {} (sort_key causal_order records)
      in \<lparr>counted_causes = c, duplicate_keys = d, other_hour_causes = h, trace_sources = fold add_category_key c [],
          trace_shortening = ms (sum_list (map observed_shortening c))\<rparr>)"

section \<open>Only as much is read as is needed\<close>

lemma eject_exclusion_timing [simp]:
  "eject_exclusion (e\<lparr>ej_position := p\<rparr>) = eject_exclusion e" "eject_exclusion (e\<lparr>ej_cue := c\<rparr>) = eject_exclusion e"
  "eject_exclusion (e\<lparr>ej_next := n\<rparr>) = eject_exclusion e" "eject_exclusion (e\<lparr>ej_duration := d\<rparr>) = eject_exclusion e"
  by (cases e; simp only: eject_exclusion_def eject_observation.update_convs eject_observation.select_convs)+

lemma start_next_exclusion_timing [simp]:
  "start_next_exclusion (e\<lparr>so_position := p\<rparr>) = start_next_exclusion e" "start_next_exclusion (e\<lparr>so_cue := c\<rparr>) = start_next_exclusion e"
  "start_next_exclusion (e\<lparr>so_next := n\<rparr>) = start_next_exclusion e" "start_next_exclusion (e\<lparr>so_duration := d\<rparr>) = start_next_exclusion e"
  by (cases e; simp only: start_next_exclusion_def identity_exclusion_def control_exclusion_def
      start_next_observation.update_convs start_next_observation.select_convs)+

lemma media_position [simp]:
  "media_exclusion (e\<lparr>mf_position := p\<rparr>) = media_exclusion e" "never_heard (e\<lparr>mf_position := p\<rparr>) = never_heard e"
  by (cases e; simp only: media_exclusion_def never_heard_def media_failure_observation.update_convs media_failure_observation.select_convs)+

lemma ms_one: "ms 1 = 1"
  by (simp add: ms_def round_even_def)

lemma eject_exclusion_None: "eject_exclusion e = None \<Longrightarrow> (\<exists>i g. ej_item e = Some i \<and> ej_generation e = Some g)"
  by (auto simp: eject_exclusion_def split: if_splits)

lemma start_next_exclusion_None: "start_next_exclusion e = None \<Longrightarrow> (\<exists>i g. so_item e = Some i \<and> so_generation e = Some g)"
  by (auto simp: start_next_exclusion_def identity_exclusion_def split: if_splits option.splits)

lemma eject_placeholder:
  assumes "ej_next e = None" "ej_cue e = None"
  shows "classify_eject_observation (e\<lparr>ej_position := Some 0, ej_next := Some 1\<rparr>) = Inl r \<longleftrightarrow> eject_exclusion e = Some r"
  using assms eject_exclusion_None [of e]
  by (cases "eject_exclusion e") (auto simp: classify_eject_observation_def remaining_effective_airtime_def or_zero_def ms_one Let_def)

lemma start_next_placeholder:
  assumes "so_next e = None" "so_cue e = None"
  shows "classify_start_next_observation h (e\<lparr>so_position := Reading 0, so_next := Some 1\<rparr>) = Inl r \<longleftrightarrow> start_next_exclusion e = Some r"
  using assms start_next_exclusion_None [of e]
  by (cases "start_next_exclusion e")
    (auto simp: classify_start_next_observation_def usable_position_def remaining_effective_airtime_def or_zero_def ms_one Let_def)

lemma two_steps:
  "(\<And>r. first = Inl r \<longleftrightarrow> exclusion = Some r) \<Longrightarrow>
   (case first of Inl r \<Rightarrow> Inl r | Inr (_ :: 'b) \<Rightarrow> x) = (case exclusion of Some r \<Rightarrow> Inl r | None \<Rightarrow> x)"
  by (cases first; cases exclusion) auto

text \<open>
  The engine decides in two steps, first with a placeholder for what is costly to read, and only for a
  possible cause with the timing and the position of the deck. The shortcut cannot be seen: the answer and the
  reason are those of one decision on the real values, and where a value was not loaded the first reason that
  applies anyway, or else that the occurrence is not known.
\<close>

theorem placeholders_never_decide:
  "eject_evidence e cont l p =
     (let o1 = observed_eject e cont l in
      case eject_timing l of
        None \<Rightarrow> Inl (case eject_exclusion o1 of None \<Rightarrow> ''identity_unknown'' | Some r \<Rightarrow> r)
      | Some (n, d, c) \<Rightarrow> classify_eject_observation (o1\<lparr>ej_position := p, ej_next := n, ej_duration := d, ej_cue := c\<rparr>))
   \<and> start_next_evidence h a cont l q =
     (let o2 = observed_start_next a cont l in
      case start_next_timing l of
        None \<Rightarrow> Inl (case start_next_exclusion o2 of None \<Rightarrow> ''identity_unknown'' | Some r \<Rightarrow> r)
      | Some (n, d, c) \<Rightarrow> classify_start_next_observation h (o2\<lparr>so_position := q, so_next := n, so_duration := d, so_cue := c\<rparr>))
   \<and> media_evidence m l domain code q = classify_media_failure ((observed_failure m l domain code)\<lparr>mf_position := q\<rparr>)"
  (is "?a \<and> ?b \<and> ?c")
proof (intro conjI)
  have first: "ej_next (observed_eject e cont l) = None" "ej_cue (observed_eject e cont l) = None"
    by (simp_all add: observed_eject_def)
  show ?a
    unfolding eject_evidence_def Let_def two_steps [OF eject_placeholder [OF first]]
    by (auto simp: classify_eject_observation_def split: option.splits)
  have later: "so_next (observed_start_next a cont l) = None" "so_cue (observed_start_next a cont l) = None"
    by (simp_all add: observed_start_next_def)
  show ?b
    unfolding start_next_evidence_def Let_def two_steps [OF start_next_placeholder [OF later]]
    by (auto simp: classify_start_next_observation_def split: option.splits)
  show ?c
    by (auto simp: media_evidence_def classify_media_failure_def Let_def usable_position_def split: option.splits)
qed

section \<open>What counts lost airtime\<close>

text \<open>
  Whatever counts as a cause lost airtime that listeners would have heard: the recorded loss is more
  than zero and for an Eject or Start Next never more than what was left of the item from the position, to half
  a millisecond; a skipped item was loaded in full, scheduled music of an approved log, and neither played nor
  claimed.
\<close>

theorem causes_lost_airtime:
  "(case classify_eject_observation e of Inl _ \<Rightarrow> True
    | Inr env \<Rightarrow> 0 < env_remaining env \<and> eject_exclusion e = None
        \<and> env_remaining env \<le> remaining_effective_airtime (ej_position e) (ej_cue e) (ej_next e) (ej_duration e) + 1 / 2000)
   \<and> (case classify_start_next_observation h a of Inl _ \<Rightarrow> True
    | Inr env \<Rightarrow> 0 < env_remaining env \<and> start_next_exclusion a = None
        \<and> env_remaining env \<le> remaining_effective_airtime (usable_position (so_position a)) (so_cue a) (so_next a) (so_duration a) + 1 / 2000)
   \<and> (case classify_media_failure m of Inl _ \<Rightarrow> True | Inr (_, lost) \<Rightarrow> 0 < lost \<and> media_exclusion m = None)
   \<and> (case automatic_skip_evidence l why of Inl _ \<Rightarrow> True
    | Inr lost \<Rightarrow> 0 < lost \<and> ld_played l = Loaded None \<and> ld_claimed l = Loaded None \<and> ld_kind l = Loaded ''music''
        \<and> ld_log_status l = Loaded ''approved'' \<and> ld_track l = ld_item_track l \<and> ld_log l = ld_item_log l)"
  (is "?eject \<and> ?start \<and> ?media \<and> ?skip")
proof (intro conjI)
  show ?eject by (auto simp: classify_eject_observation_def Let_def ms_bounds split: option.splits)
  show ?start by (auto simp: classify_start_next_observation_def Let_def ms_bounds split: option.splits)
  show ?media by (auto simp: classify_media_failure_def Let_def split: option.splits)
  show ?skip
    by (auto simp: automatic_skip_evidence_def classify_automatic_skip_def occurrence_problem_def occurrence_of_def loaded_or_def
        split: option.splits loaded.splits if_splits)
qed

section \<open>What a source key identifies\<close>

text \<open>A deck slot is A (True) or B.\<close>

datatype cause_source =
    SwapOf int int int int
  | EjectOf utext bool int int
  | StartNextOf utext bool int int utext
  | SkipOf int int
  | MediaOf int bool int utext

definition slot_text :: "bool \<Rightarrow> utext" where
  "slot_text a = cps (if a then ''A'' else ''B'')"

fun cause_key :: "(utext \<Rightarrow> utext) \<Rightarrow> cause_source \<Rightarrow> utext" where
  "cause_key h (SwapOf item request old new) = request_substitution_source_key item request old new"
| "cause_key h (EjectOf eng sl gen item) = operator_eject_source_key eng (slot_text sl) gen item"
| "cause_key h (StartNextOf eng sl gen item request) = start_next_source_key h eng (slot_text sl) gen item request"
| "cause_key h (SkipOf item track) = automatic_skip_source_key item track"
| "cause_key h (MediaOf item sl gen eng) = media_failure_source_key item (slot_text sl) gen eng"

fun same_source :: "(utext \<Rightarrow> utext) \<Rightarrow> cause_source \<Rightarrow> cause_source \<Rightarrow> bool" where
  "same_source h (StartNextOf eng sl gen item request) (StartNextOf eng' sl' gen' item' request') \<longleftrightarrow>
     sl = sl' \<and> gen = gen' \<and> item = item' \<and> h (eng @ [10] @ request) = h (eng' @ [10] @ request')"
| "same_source h a b \<longleftrightarrow> a = b"

text \<open>The first letters of the five kinds differ.\<close>

fun key_letter :: "cause_source \<Rightarrow> nat" where
  "key_letter (SwapOf _ _ _ _) = 114"
| "key_letter (EjectOf _ _ _ _) = 111"
| "key_letter (StartNextOf _ _ _ _ _) = 115"
| "key_letter (SkipOf _ _) = 97"
| "key_letter (MediaOf _ _ _ _) = 109"

lemmas source_key_defs = request_substitution_source_key_def operator_eject_source_key_def start_next_source_key_def
  automatic_skip_source_key_def media_failure_source_key_def
  CAUSE_REQUEST_SUBSTITUTION_def CAUSE_OPERATOR_EJECT_def CAUSE_START_NEXT_def CAUSE_AUTOMATIC_SKIP_def CAUSE_MEDIA_FAILURE_def

lemma hd_cause_key: "hd (cause_key h a) = key_letter a"
  by (cases a) (simp_all add: source_key_defs cps_def)

lemma ends_number_sep [simp]: "ends_number []" "ends_number (58 # r)" "ends_number (45 # r)"
  by (simp_all add: ends_number_def is_digit_def)

lemma separators: "cps '':'' = [58]" "cps '':g'' = [58, 103]" "cps '':li'' = [58, 108, 105]" "cps '':t'' = [58, 116]" "cps ''-'' = [45]"
  "cps ''g'' = [103]" "cps '':req'' = [58, 114, 101, 113]"
  by (simp_all add: cps_def)

lemma slot_text_split: "slot_text a @ x = slot_text b @ y \<longleftrightarrow> a = b \<and> x = y"
  by (auto simp: slot_text_def cps_def)

lemma swap_key_inject:
  "request_substitution_source_key i r a b = request_substitution_source_key i' r' a' b' \<longleftrightarrow> i = i' \<and> r = r' \<and> a = a' \<and> b = b'"
  by (simp add: request_substitution_source_key_def separators show_int_split show_int_inject)

lemma start_key_inject:
  "start_next_source_key h eng (slot_text sl) gen item request = start_next_source_key h eng' (slot_text sl') gen' item' request'
     \<longleftrightarrow> sl = sl' \<and> gen = gen' \<and> item = item' \<and> h (eng @ [10] @ request) = h (eng' @ [10] @ request')"
  by (auto simp: start_next_source_key_def separators show_int_split slot_text_split)

lemma skip_key_inject: "automatic_skip_source_key i t = automatic_skip_source_key i' t' \<longleftrightarrow> i = i' \<and> t = t'"
  by (simp add: automatic_skip_source_key_def separators show_int_split show_int_inject)

lemma media_key_inject:
  "media_failure_source_key item (slot_text sl) gen eng = media_failure_source_key item' (slot_text sl') gen' eng'
     \<longleftrightarrow> item = item' \<and> sl = sl' \<and> gen = gen' \<and> eng = eng'"
  by (auto simp: media_failure_source_key_def separators show_int_split slot_text_split)

lemma eject_key_inject:
  "operator_eject_source_key eng (slot_text sl) gen item = operator_eject_source_key eng' (slot_text sl') gen' item'
     \<longleftrightarrow> eng = eng' \<and> sl = sl' \<and> gen = gen' \<and> item = item'"
proof
  have shape: "operator_eject_source_key eng (slot_text sl) gen item
      = (cps CAUSE_OPERATOR_EJECT @ [58] @ ((eng @ [58]) @ slot_text sl @ [58]) @ 103 # (show_int gen @ [58, 108])) @ 105 # show_int item"
    for eng sl gen item by (simp add: operator_eject_source_key_def separators)
  assume eq: "operator_eject_source_key eng (slot_text sl) gen item = operator_eject_source_key eng' (slot_text sl') gen' item'"
  have no: "\<not> (is_digit 105 \<or> 105 = (45 :: nat))" "\<not> (is_digit 103 \<or> 103 = (45 :: nat))" by (simp_all add: is_digit_def)
  from number_split_right [OF show_int_is_number show_int_is_number no(1) eq [unfolded shape]]
  have item: "item = item'" and r1: "((eng @ [58]) @ slot_text sl @ [58]) @ 103 # (show_int gen @ [58, 108]) = ((eng' @ [58]) @ slot_text sl' @ [58]) @ 103 # (show_int gen' @ [58, 108])"
    by (simp_all add: show_int_inject)
  from r1 have "((eng @ [58]) @ slot_text sl @ [58]) @ 103 # show_int gen = ((eng' @ [58]) @ slot_text sl' @ [58]) @ 103 # show_int gen'"
    by (simp flip: append_assoc append_Cons)
  from number_split_right [OF show_int_is_number show_int_is_number no(2) this]
  have gen: "gen = gen'" and "(eng @ [58]) @ slot_text sl @ [58] = (eng' @ [58]) @ slot_text sl' @ [58]"
    by (simp_all add: show_int_inject)
  then have "sl = sl'" "eng = eng'" by (auto simp: slot_text_def cps_def split: if_splits)
  then show "eng = eng' \<and> sl = sl' \<and> gen = gen' \<and> item = item'" using item gen by simp
qed simp

text \<open>
  A source key tells causes apart: two causes have the same key exactly when they are the same in kind,
  item, deck, tenancy, tracks and request; for a Start Next the instance and the request enter through their
  digest. So a record that is dropped as a duplicate key is a repetition, whatever characters the instance id
  holds.
\<close>

theorem source_keys_identify:
  "cause_key h a = cause_key h b \<longleftrightarrow> same_source h a b"
proof (cases "key_letter a = key_letter b")
  case False
  then have "cause_key h a \<noteq> cause_key h b" "\<not> same_source h a b"
    using hd_cause_key [of h a] hd_cause_key [of h b] by (auto elim: same_source.elims)
  then show ?thesis by simp
next
  case True
  then show ?thesis
    by (cases a; cases b; simp only: cause_key.simps same_source.simps key_letter.simps swap_key_inject eject_key_inject
        start_key_inject skip_key_inject media_key_inject cause_source.inject; simp)
qed

section \<open>The trace covers the projection\<close>

lemma trace_loop_passes:
  "fst (trace_loop hour keys seen rs)
     = fst (family_pass seen (fst (qualify_pass (\<lambda>r. if hour r then None else Some []) keys rs)))"
  by (induction hour keys seen rs rule: trace_loop.induct) (auto split: prod.splits)

lemma trace_counts:
  "counted_causes (build_causality_trace records day hour)
     = first_by occurrence (filter (\<lambda>r. (cause_log_date r, cause_log_hour r) = (day, hour))
         (first_by source_key (sort_key causal_order records)))"
proof -
  let ?P = "\<lambda>r. (cause_log_date r, cause_log_hour r) = (day, hour)"
  have "counted_causes (build_causality_trace records day hour) = fst (trace_loop ?P {} {} (sort_key causal_order records))"
    by (simp add: build_causality_trace_def split: prod.splits)
  moreover have "filter (\<lambda>r. (if ?P r then None else Some []) = None) xs = filter ?P xs" for xs
    by (rule filter_cong) auto
  ultimately show ?thesis
    using qualify_pass_kept [of "\<lambda>r. if ?P r then None else Some []" "{}" "sort_key causal_order records"]
    by (simp add: trace_loop_passes family_pass_kept)
qed

text \<open>
  The trace of the active hour leaves out nothing that the projection counts: every occurrence that
  qualifies for a refill is counted in the trace, in causal order and once.
\<close>

theorem trace_covers_projection:
  "case (active_log_date s, active_log_hour s) of
     (Some day, Some hour) \<Rightarrow>
       occurrence ` set (fst (partition_causes s records)) \<subseteq> occurrence ` set (counted_causes (build_causality_trace records day hour))
       \<and> distinct (map occurrence (counted_causes (build_causality_trace records day hour)))
   | _ \<Rightarrow> fst (partition_causes s records) = []"
proof -
  have hour: "(active_log_date s, active_log_hour s) = (Some (cause_log_date r), Some (cause_log_hour r))" if "cause_problem s r = None" for r
    using that by (auto simp: cause_problem_def split: if_splits)
  let ?kept = "first_by source_key (sort_key causal_order records)"
  show ?thesis
  proof (cases "(active_log_date s, active_log_hour s)")
    case (Pair dd hh)
    show ?thesis
    proof (cases "\<exists>day hour. dd = Some day \<and> hh = Some hour")
      case True
      then obtain day h where dh: "dd = Some day" "hh = Some h" by blast
      have "set (filter (\<lambda>r. cause_problem s r = None) ?kept) \<subseteq> set (filter (\<lambda>r. (cause_log_date r, cause_log_hour r) = (day, h)) ?kept)"
        using hour Pair dh by auto
      then show ?thesis using Pair dh
        by (auto simp: partition_causes_qualified trace_counts set_first_by(2) distinct_first_by)
    next
      case False
      have "cause_problem s r \<noteq> None" for r
      proof
        assume "cause_problem s r = None"
        then show False using hour [of r] Pair False by simp
      qed
      then have none: "filter (\<lambda>r. cause_problem s r = None) ?kept = []" by (simp add: filter_empty_conv)
      have "fst (partition_causes s records) = []" by (simp add: partition_causes_qualified none)
      then show ?thesis using Pair False by (auto split: option.splits)
    qed
  qed
qed

end
