(* ===== verification/Refill_Coordinator.thy ===== *)
theory Refill_Coordinator
  imports Refill_Proposal
begin

text \<open>
  Who may change the queue of an engine: the causal refill or the ordinary live fill.
  \<^verbatim>\<open>RefillCoordinator\<close> of \<^verbatim>\<open>library/services/hour_refill_install.py\<close>, and the threads of the live fill in
  \<^verbatim>\<open>library/services/engine.py\<close> (\<^verbatim>\<open>_try_extend_live_log_async\<close>, \<^verbatim>\<open>_live_fill_worker\<close>,
  \<^verbatim>\<open>_install_live_fill\<close>). Every section the code runs under \<^verbatim>\<open>engine._lock\<close> is one step; what happens
  between two of them may be interleaved with the steps of the other threads. Item ids, log ids and
  generations are integers, the tokens that \<^verbatim>\<open>object()\<close> makes are numbers.
\<close>

section \<open>Statuses\<close>

text \<open>
  The statuses of an attempt. The proposal's own statuses are passed on as they are; two of the installer's
  statuses are the same texts as the proposal's.
\<close>

datatype install_status = STATUS_INSTALLED | STATUS_DRY_RUN_ONLY | STATUS_LIVE_FILL_PENDING | STATUS_REFILL_IN_FLIGHT
  | STATUS_ADOPTION_PENDING | STATUS_ATTEMPT_LIMIT | STATUS_SNAPSHOT_UNAVAILABLE | STATUS_STALE | STATUS_LOCK_CONTENDED
  | STATUS_DUPLICATE | STATUS_POLICY_REFUSED | Carried proposal_status

definition STATUS_UNSAFE :: install_status where "STATUS_UNSAFE = Carried (Abstained OUTCOME_UNSAFE_WINDOW)"
definition NO_ANCHOR :: install_status where "NO_ANCHOR = Carried STATUS_NO_SAFE_ANCHOR"

definition MAX_ATTEMPTS_PER_LOG :: nat where "MAX_ATTEMPTS_PER_LOG = 3"

section \<open>The coordinator\<close>

record coordinator =
  refill_owner :: "nat option"
  legacy_callbacks_pending :: "int set"
  pending_adoption :: "(int \<times> int set) option"
  attempts :: "int \<rightharpoonup> nat"
  legacy_discards :: nat

definition new_coordinator :: coordinator where
  "new_coordinator = \<lparr>refill_owner = None, legacy_callbacks_pending = {}, pending_adoption = None,
     attempts = Map.empty, legacy_discards = 0\<rparr>"

definition adoption_outstanding :: "int \<Rightarrow> int list \<Rightarrow> coordinator \<Rightarrow> bool \<times> coordinator" where
  "adoption_outstanding log_id items c =
     (case pending_adoption c of None \<Rightarrow> (False, c)
      | Some (pending_log, ids) \<Rightarrow>
          if pending_log \<noteq> log_id then (False, c)
          else if ids \<subseteq> set items then (False, c\<lparr>pending_adoption := None\<rparr>)
          else (True, c))"

definition blocks_legacy :: "int \<Rightarrow> int list \<Rightarrow> coordinator \<Rightarrow> bool \<times> coordinator" where
  "blocks_legacy log_id items c = (if refill_owner c \<noteq> None then (True, c) else adoption_outstanding log_id items c)"

definition mark_legacy_pending :: "int \<Rightarrow> coordinator \<Rightarrow> coordinator" where
  "mark_legacy_pending g c = c\<lparr>legacy_callbacks_pending := insert g (legacy_callbacks_pending c)\<rparr>"

definition clear_legacy_pending :: "int \<Rightarrow> coordinator \<Rightarrow> coordinator" where
  "clear_legacy_pending g c = c\<lparr>legacy_callbacks_pending := legacy_callbacks_pending c - {g}\<rparr>"

text \<open>The arguments are the engine's \<^verbatim>\<open>_live_fill_in_progress\<close>, its current log and its queue.\<close>

definition reserve_refill :: "bool \<Rightarrow> int option \<Rightarrow> int list \<Rightarrow> nat \<Rightarrow> coordinator \<Rightarrow> install_status option \<times> coordinator" where
  "reserve_refill busy current items token c =
     (if busy \<or> legacy_callbacks_pending c \<noteq> {} then (Some STATUS_LIVE_FILL_PENDING, c)
      else if refill_owner c \<noteq> None then (Some STATUS_REFILL_IN_FLIGHT, c)
      else
        let (waits, c') = (case current of None \<Rightarrow> (False, c) | Some l \<Rightarrow> adoption_outstanding l items c)
        in if waits then (Some STATUS_ADOPTION_PENDING, c') else (None, c'\<lparr>refill_owner := Some token\<rparr>))"

definition count_attempt :: "int \<Rightarrow> coordinator \<Rightarrow> bool \<times> coordinator" where
  "count_attempt log_id c =
     (let n = (case attempts c log_id of None \<Rightarrow> 0 | Some k \<Rightarrow> k) + 1
      in (n \<le> MAX_ATTEMPTS_PER_LOG, c\<lparr>attempts := (attempts c)(log_id \<mapsto> n)\<rparr>))"

text \<open>\<^verbatim>\<open>release\<close>: the adopted ids, with their log, when the attempt installed rows.\<close>

definition release_refill :: "nat \<Rightarrow> (int \<times> int list) option \<Rightarrow> coordinator \<Rightarrow> coordinator" where
  "release_refill token adopted c =
     (let c' = (if refill_owner c = Some token then c\<lparr>refill_owner := None\<rparr> else c)
      in case adopted of None \<Rightarrow> c'
         | Some (log_id, ids) \<Rightarrow> if ids = [] then c' else c'\<lparr>pending_adoption := Some (log_id, set ids)\<rparr>)"

section \<open>The threads of the live fill\<close>

text \<open>
  A dispatch on the GLib thread that has taken the guard; the worker computing its proposal; the worker
  after its mark; the worker after \<^verbatim>\<open>idle_add\<close>, before its \<^verbatim>\<open>finally\<close>. A callback waits in GLib's queue, then is
  discarded or writes, then clears its mark.
\<close>

datatype fill_phase = Dispatching | Computing | Marked | Ending
datatype callback_phase = Scheduled | Writing | Leaving

record live_engine =
  coord :: coordinator
  live_fill_busy :: bool
  live_fill_generation :: int
  engine_log :: "int option"
  engine_items :: "int list"
  fills :: "(int \<times> int \<times> fill_phase) list"
  fill_callbacks :: "(int \<times> int \<times> callback_phase) list"
  refills :: "nat list"

definition drop_fill :: "int \<Rightarrow> live_engine \<Rightarrow> live_engine" where
  "drop_fill g e = e\<lparr>fills := filter (\<lambda>t. fst t \<noteq> g) (fills e)\<rparr>"

definition drop_callback :: "int \<Rightarrow> live_engine \<Rightarrow> live_engine" where
  "drop_callback g e = e\<lparr>fill_callbacks := filter (\<lambda>t. fst t \<noteq> g) (fill_callbacks e)\<rparr>"

definition move_fill :: "int \<Rightarrow> int \<Rightarrow> fill_phase \<Rightarrow> live_engine \<Rightarrow> live_engine" where
  "move_fill g l p e = (drop_fill g e)\<lparr>fills := (g, l, p) # fills (drop_fill g e)\<rparr>"

definition move_callback :: "int \<Rightarrow> int \<Rightarrow> callback_phase \<Rightarrow> live_engine \<Rightarrow> live_engine" where
  "move_callback g l p e = (drop_callback g e)\<lparr>fill_callbacks := (g, l, p) # fill_callbacks (drop_callback g e)\<rparr>"

inductive live_step :: "live_engine \<Rightarrow> live_engine \<Rightarrow> bool" where
  dispatch: "\<not> live_fill_busy e \<Longrightarrow> engine_log e = Some l \<Longrightarrow> engine_items e \<noteq> []
    \<Longrightarrow> blocks_legacy l (engine_items e) (coord e) = (False, c)
    \<Longrightarrow> live_step e (e\<lparr>coord := c, live_fill_busy := True, live_fill_generation := live_fill_generation e + 1,
          fills := (live_fill_generation e + 1, l, Dispatching) # fills e\<rparr>)"
| abandon: "(g, l, Dispatching) \<in> set (fills e) \<Longrightarrow> live_step e ((drop_fill g e)\<lparr>live_fill_busy := False\<rparr>)"
| start_worker: "(g, l, Dispatching) \<in> set (fills e) \<Longrightarrow> live_step e (move_fill g l Computing e)"
| nothing_to_add: "(g, l, Computing) \<in> set (fills e) \<Longrightarrow> live_step e ((drop_fill g e)\<lparr>live_fill_busy := False\<rparr>)"
| mark: "(g, l, Computing) \<in> set (fills e)
    \<Longrightarrow> live_step e ((move_fill g l Marked e)\<lparr>coord := mark_legacy_pending g (coord e)\<rparr>)"
| schedule: "(g, l, Marked) \<in> set (fills e)
    \<Longrightarrow> live_step e ((move_fill g l Ending e)\<lparr>fill_callbacks := (g, l, Scheduled) # fill_callbacks e\<rparr>)"
| schedule_fails: "(g, l, Marked) \<in> set (fills e)
    \<Longrightarrow> live_step e ((move_fill g l Ending e)\<lparr>coord := clear_legacy_pending g (coord e)\<rparr>)"
| worker_ends: "(g, l, Ending) \<in> set (fills e) \<Longrightarrow> live_step e ((drop_fill g e)\<lparr>live_fill_busy := False\<rparr>)"
| callback_discards: "(g, l, Scheduled) \<in> set (fill_callbacks e)
    \<Longrightarrow> blocks_legacy l (engine_items e) (coord e) = (True, c)
    \<Longrightarrow> live_step e ((move_callback g l Leaving e)\<lparr>coord := c\<lparr>legacy_discards := legacy_discards c + 1\<rparr>\<rparr>)"
| callback_writes: "(g, l, Scheduled) \<in> set (fill_callbacks e)
    \<Longrightarrow> blocks_legacy l (engine_items e) (coord e) = (False, c)
    \<Longrightarrow> live_step e ((move_callback g l Writing e)\<lparr>coord := c\<rparr>)"
| callback_ends: "(g, l, p) \<in> set (fill_callbacks e) \<Longrightarrow> p \<noteq> Scheduled
    \<Longrightarrow> live_step e ((drop_callback g e)\<lparr>coord := clear_legacy_pending g (coord e)\<rparr>)"
| queue_changes: "live_step e (e\<lparr>engine_log := log_id', engine_items := items'\<rparr>)"
| refill_reserves: "reserve_refill (live_fill_busy e) (engine_log e) (engine_items e) token (coord e) = (None, c)
    \<Longrightarrow> live_step e (e\<lparr>coord := c, refills := token # refills e\<rparr>)"
| refill_refused: "reserve_refill (live_fill_busy e) (engine_log e) (engine_items e) token (coord e) = (Some st, c)
    \<Longrightarrow> live_step e (e\<lparr>coord := c\<rparr>)"
| refill_counts: "live_step e (e\<lparr>coord := snd (count_attempt l (coord e))\<rparr>)"
| refill_releases: "token \<in> set (refills e)
    \<Longrightarrow> live_step e (e\<lparr>coord := release_refill token adopted (coord e), refills := remove1 token (refills e)\<rparr>)"

inductive_cases live_stepE: "live_step e e'"

definition new_engine :: live_engine where
  "new_engine = \<lparr>coord = new_coordinator, live_fill_busy = False, live_fill_generation = 0, engine_log = None,
     engine_items = [], fills = [], fill_callbacks = [], refills = []\<rparr>"

inductive live_reachable :: "live_engine \<Rightarrow> bool" where
  started: "live_reachable new_engine"
| steps: "live_reachable e \<Longrightarrow> live_step e e' \<Longrightarrow> live_reachable e'"

section \<open>Single flight\<close>

definition marks :: "live_engine \<Rightarrow> int set" where
  "marks e = {g. \<exists>l p. (g, l, p) \<in> set (fill_callbacks e)} \<union> {g. \<exists>l. (g, l, Marked) \<in> set (fills e)}"

definition one_fill :: "live_engine \<Rightarrow> bool" where
  "one_fill e \<longleftrightarrow> length (fills e) \<le> 1 \<and> (fills e \<noteq> [] \<longrightarrow> live_fill_busy e)"

definition fresh_fills :: "live_engine \<Rightarrow> bool" where
  "fresh_fills e \<longleftrightarrow> distinct (map fst (fill_callbacks e))
     \<and> (\<forall>g l p. (g, l, p) \<in> set (fills e) \<longrightarrow> g \<le> live_fill_generation e)
     \<and> (\<forall>g l p. (g, l, p) \<in> set (fill_callbacks e) \<longrightarrow> g \<le> live_fill_generation e)
     \<and> (\<forall>g l p. (g, l, p) \<in> set (fills e) \<longrightarrow> p \<noteq> Ending \<longrightarrow> (\<forall>l' p'. (g, l', p') \<notin> set (fill_callbacks e)))"

definition owners :: "live_engine \<Rightarrow> bool" where
  "owners e \<longleftrightarrow> refills e = (case refill_owner (coord e) of None \<Rightarrow> [] | Some t \<Rightarrow> [t])
     \<and> (refills e \<noteq> [] \<longrightarrow> fills e = [] \<and> fill_callbacks e = [])"

definition unadopted :: "coordinator \<Rightarrow> int \<Rightarrow> bool" where
  "unadopted c l \<longleftrightarrow> (case pending_adoption c of None \<Rightarrow> False | Some (l', _) \<Rightarrow> l' = l)"

definition writers :: "live_engine \<Rightarrow> bool" where
  "writers e \<longleftrightarrow> (\<forall>g l. (g, l, Writing) \<in> set (fill_callbacks e) \<longrightarrow> \<not> unadopted (coord e) l)"

definition arbitrated :: "live_engine \<Rightarrow> bool" where
  "arbitrated e \<longleftrightarrow> one_fill e \<and> fresh_fills e \<and> marks e \<subseteq> legacy_callbacks_pending (coord e) \<and> owners e \<and> writers e"


lemma adoption_outstanding_True: "adoption_outstanding l items c = (True, c') \<Longrightarrow> c' = c"
  by (auto simp: adoption_outstanding_def split: option.splits if_splits)

lemma adoption_outstanding_False:
  assumes "adoption_outstanding l items c = (False, c')"
  shows "refill_owner c' = refill_owner c" "legacy_callbacks_pending c' = legacy_callbacks_pending c"
    "\<not> unadopted c' l" "unadopted c' k \<Longrightarrow> unadopted c k"
  using assms by (auto simp: adoption_outstanding_def unadopted_def split: option.splits if_splits)

lemma blocks_legacy_True: "blocks_legacy l items c = (True, c') \<Longrightarrow> c' = c"
  by (auto simp: blocks_legacy_def adoption_outstanding_True split: if_splits)

lemma blocks_legacy_False:
  assumes "blocks_legacy l items c = (False, c')"
  shows "refill_owner c = None" "refill_owner c' = None" "legacy_callbacks_pending c' = legacy_callbacks_pending c"
    "\<not> unadopted c' l" "unadopted c' k \<Longrightarrow> unadopted c k"
  using assms adoption_outstanding_False [of l items c c'] by (auto simp: blocks_legacy_def split: if_splits)

lemma reserve_refill_None:
  assumes "reserve_refill busy current items token c = (None, c')"
  shows "\<not> busy" "legacy_callbacks_pending c = {}" "refill_owner c = None" "refill_owner c' = Some token"
    "legacy_callbacks_pending c' = {}" "unadopted c' k \<Longrightarrow> unadopted c k"
proof -
  obtain d where d: "\<not> busy" "legacy_callbacks_pending c = {}" "refill_owner c = None" "c' = d\<lparr>refill_owner := Some token\<rparr>"
    "d = c \<or> (\<exists>l. adoption_outstanding l items c = (False, d))"
    using assms by (auto simp: reserve_refill_def split: if_splits option.splits prod.splits)
  have same: "legacy_callbacks_pending d = legacy_callbacks_pending c" using d(5) adoption_outstanding_False(2) by blast
  have "unadopted d k \<Longrightarrow> unadopted c k" using d(5) adoption_outstanding_False(4) by blast
  then show "\<not> busy" "legacy_callbacks_pending c = {}" "refill_owner c = None" "refill_owner c' = Some token"
    "legacy_callbacks_pending c' = {}" "unadopted c' k \<Longrightarrow> unadopted c k"
    using d same by (auto simp: unadopted_def)
qed

lemma reserve_refill_Some: "reserve_refill busy current items token c = (Some st, c') \<Longrightarrow> c' = c"
  by (auto simp: reserve_refill_def adoption_outstanding_True split: if_splits option.splits prod.splits)

lemma drop_fill_simps [simp]:
  "fills (drop_fill g e) = filter (\<lambda>t. fst t \<noteq> g) (fills e)" "coord (drop_fill g e) = coord e"
  "live_fill_busy (drop_fill g e) = live_fill_busy e" "live_fill_generation (drop_fill g e) = live_fill_generation e"
  "fill_callbacks (drop_fill g e) = fill_callbacks e" "refills (drop_fill g e) = refills e"
  by (simp_all add: drop_fill_def)

lemma drop_callback_simps [simp]:
  "fill_callbacks (drop_callback g e) = filter (\<lambda>t. fst t \<noteq> g) (fill_callbacks e)" "coord (drop_callback g e) = coord e"
  "live_fill_busy (drop_callback g e) = live_fill_busy e" "live_fill_generation (drop_callback g e) = live_fill_generation e"
  "fills (drop_callback g e) = fills e" "refills (drop_callback g e) = refills e"
  by (simp_all add: drop_callback_def)

lemma moves_simps [simp]:
  "fills (move_fill g l p e) = (g, l, p) # filter (\<lambda>t. fst t \<noteq> g) (fills e)" "coord (move_fill g l p e) = coord e"
  "live_fill_busy (move_fill g l p e) = live_fill_busy e" "live_fill_generation (move_fill g l p e) = live_fill_generation e"
  "fill_callbacks (move_fill g l p e) = fill_callbacks e" "refills (move_fill g l p e) = refills e"
  "fill_callbacks (move_callback g l q e) = (g, l, q) # filter (\<lambda>t. fst t \<noteq> g) (fill_callbacks e)"
  "coord (move_callback g l q e) = coord e" "live_fill_busy (move_callback g l q e) = live_fill_busy e"
  "live_fill_generation (move_callback g l q e) = live_fill_generation e" "fills (move_callback g l q e) = fills e"
  "refills (move_callback g l q e) = refills e"
  by (simp_all add: move_fill_def move_callback_def)

lemma marks_subset:
  "marks e \<subseteq> S \<longleftrightarrow> (\<forall>g l p. (g, l, p) \<in> set (fill_callbacks e) \<longrightarrow> g \<in> S) \<and> (\<forall>g l. (g, l, Marked) \<in> set (fills e) \<longrightarrow> g \<in> S)"
  by (auto simp: marks_def)

lemma no_triples: "(\<forall>x y z. (x, y, z) \<notin> set ts) \<longleftrightarrow> ts = []"
  by (cases ts) auto

lemmas arbitration_defs = arbitrated_def one_fill_def fresh_fills_def owners_def writers_def marks_subset

lemma one_fillD: "arbitrated e \<Longrightarrow> t \<in> set (fills e) \<Longrightarrow> fills e = [t] \<and> live_fill_busy e"
  by (cases "fills e") (auto simp: arbitration_defs)

lemma no_owner: "arbitrated e \<Longrightarrow> fills e \<noteq> [] \<or> fill_callbacks e \<noteq> [] \<Longrightarrow> refill_owner (coord e) = None \<and> refills e = []"
  by (auto simp: arbitration_defs split: option.splits)

lemma idle_fills: "arbitrated e \<Longrightarrow> \<not> live_fill_busy e \<Longrightarrow> fills e = []"
  by (auto simp: arbitration_defs)

text \<open>The steps of a live-fill thread.\<close>

lemma arbitrated_abandon:
  assumes "arbitrated e" and "(g, l, p) \<in> set (fills e)" and "p \<noteq> Marked"
  shows "arbitrated ((drop_fill g e)\<lparr>live_fill_busy := False\<rparr>)"
  using assms one_fillD [OF assms(1,2)] by (auto simp: arbitration_defs)

lemma arbitrated_start_worker:
  assumes "arbitrated e" and "(g, l, Dispatching) \<in> set (fills e)"
  shows "arbitrated (move_fill g l Computing e)"
  using assms one_fillD [OF assms] by (auto simp: arbitration_defs)

lemma arbitrated_mark:
  assumes "arbitrated e" and "(g, l, Computing) \<in> set (fills e)"
  shows "arbitrated ((move_fill g l Marked e)\<lparr>coord := mark_legacy_pending g (coord e)\<rparr>)"
  using assms one_fillD [OF assms] by (auto simp: arbitration_defs mark_legacy_pending_def unadopted_def split: option.splits)

lemma arbitrated_schedule:
  assumes "arbitrated e" and "(g, l, Marked) \<in> set (fills e)"
  shows "arbitrated ((move_fill g l Ending e)\<lparr>fill_callbacks := (g, l, Scheduled) # fill_callbacks e\<rparr>)"
  using assms one_fillD [OF assms] by (auto simp: arbitration_defs split: option.splits)

lemma arbitrated_schedule_fails:
  assumes "arbitrated e" and "(g, l, Marked) \<in> set (fills e)"
  shows "arbitrated ((move_fill g l Ending e)\<lparr>coord := clear_legacy_pending g (coord e)\<rparr>)"
  using assms one_fillD [OF assms] by (auto simp: arbitration_defs clear_legacy_pending_def unadopted_def split: option.splits)

lemma arbitrated_callback_move:
  assumes "arbitrated e" and "(g, l, p) \<in> set (fill_callbacks e)" and "refill_owner c = None"
    and "legacy_callbacks_pending c = legacy_callbacks_pending (coord e)" and "\<And>k. unadopted c k \<Longrightarrow> unadopted (coord e) k"
    and "q = Writing \<Longrightarrow> \<not> unadopted c l"
  shows "arbitrated ((move_callback g l q e)\<lparr>coord := c\<rparr>)"
proof -
  have "refill_owner (coord e) = None \<and> refills e = []" using assms(1,2) no_owner by fastforce
  then show ?thesis using assms by (auto simp: arbitration_defs distinct_map_filter; blast)
qed

lemma arbitrated_callback_ends:
  assumes "arbitrated e" and "(g, l, p) \<in> set (fill_callbacks e)"
  shows "arbitrated ((drop_callback g e)\<lparr>coord := clear_legacy_pending g (coord e)\<rparr>)"
proof -
  have "refill_owner (coord e) = None \<and> refills e = []" using assms no_owner by fastforce
  then show ?thesis using assms by (auto simp: arbitration_defs clear_legacy_pending_def unadopted_def distinct_map_filter)
qed

lemma arbitrated_step: "live_step e e' \<Longrightarrow> arbitrated e \<Longrightarrow> arbitrated e'"
proof (induction rule: live_step.induct)
  case (dispatch e l c)
  have "fills e = []" using dispatch(1,5) idle_fills by blast
  then show ?case
    using dispatch(5) blocks_legacy_False [OF dispatch(4)] by (force simp: arbitration_defs split: option.splits)
next
  case (callback_discards g l e c)
  have "refill_owner c = None" using callback_discards no_owner blocks_legacy_True by fastforce
  then show ?case
    using callback_discards blocks_legacy_True [OF callback_discards(2)]
    by (auto intro!: arbitrated_callback_move simp: unadopted_def)
next
  case (callback_writes g l e c)
  then show ?case
    using blocks_legacy_False [OF callback_writes(2)] by (auto intro!: arbitrated_callback_move)
next
  case (refill_reserves e token c)
  note c = reserve_refill_None [OF refill_reserves(1)]
  have "fills e = []" using refill_reserves(2) c(1) idle_fills by blast
  moreover have "fill_callbacks e = []" using refill_reserves(2) c(2) by (auto simp: arbitrated_def marks_def no_triples)
  ultimately show ?case using refill_reserves(2) c(3-5) by (auto simp: arbitration_defs marks_def split: option.splits)
next
  case (refill_refused e token st c)
  then show ?case using reserve_refill_Some by fastforce
next
  case (refill_releases token e adopted)
  then show ?case by (auto simp: arbitration_defs release_refill_def Let_def split: option.splits)
next
  case (queue_changes e log_id' items')
  then show ?case by (simp add: arbitration_defs)
next
  case (refill_counts e l)
  then show ?case by (simp add: arbitration_defs count_attempt_def Let_def unadopted_def)
next
  case (abandon g l e) then show ?case by (auto intro: arbitrated_abandon)
next
  case (nothing_to_add g l e) then show ?case by (auto intro: arbitrated_abandon)
next
  case (worker_ends g l e) then show ?case by (auto intro: arbitrated_abandon)
next
  case (start_worker g l e) then show ?case by (simp add: arbitrated_start_worker)
next
  case (mark g l e) then show ?case by (simp add: arbitrated_mark)
next
  case (schedule g l e) then show ?case by (simp add: arbitrated_schedule)
next
  case (schedule_fails g l e) then show ?case by (simp add: arbitrated_schedule_fails)
next
  case (callback_ends g l p e) then show ?case by (auto intro: arbitrated_callback_ends)
qed

lemma live_reachable_arbitrated: "live_reachable e \<Longrightarrow> arbitrated e"
proof (induction rule: live_reachable.induct)
  case started
  show ?case by (simp add: arbitration_defs marks_def new_engine_def new_coordinator_def)
next
  case (steps e e')
  then show ?case using arbitrated_step by blast
qed

text \<open>
  C24. The causal refill and the ordinary live fill never work on the queue of an engine at the same time: in
  whatever order the threads take the lock, at most one refill holds the engine, and while it does there is
  no dispatch, no worker and no callback of a live fill; at most one live-fill worker runs; and a
  live fill that is writing writes to a log in which no rows of a refill still wait to be adopted.
\<close>

theorem refill_and_live_fill_exclusive:
  assumes "live_reachable e"
  shows "length (refills e) \<le> 1 \<and> (refills e = [] \<or> fills e = [] \<and> fill_callbacks e = []) \<and> length (fills e) \<le> 1
    \<and> list_all (\<lambda>(g, l, p). \<not> (p = Writing \<and> unadopted (coord e) l)) (fill_callbacks e)"
proof -
  have "arbitrated e" using assms by (rule live_reachable_arbitrated)
  then show ?thesis by (auto simp: arbitration_defs list_all_iff split: option.splits)
qed

definition held_engine :: live_engine where
  "held_engine = new_engine\<lparr>coord := new_coordinator\<lparr>refill_owner := Some 1\<rparr>, refills := [1]\<rparr>"

theorem refill_and_live_fill_exclusive_witness:
  "live_reachable held_engine \<and> refills held_engine = [1] \<and> fills held_engine = [] \<and> fill_callbacks held_engine = []"
proof -
  have "live_step new_engine (new_engine\<lparr>coord := new_coordinator\<lparr>refill_owner := Some 1\<rparr>, refills := 1 # refills new_engine\<rparr>)"
    by (rule refill_reserves) (simp add: new_engine_def new_coordinator_def reserve_refill_def)
  then have "live_reachable held_engine"
    using started steps by (fastforce simp: held_engine_def new_engine_def)
  then show ?thesis using refill_and_live_fill_exclusive [of held_engine] by (simp add: held_engine_def)
qed

section \<open>Attempts\<close>

text \<open>What a sequence of counted attempts, each for a log, is told.\<close>

fun counted :: "int list \<Rightarrow> coordinator \<Rightarrow> bool list" where
  "counted [] c = []"
| "counted (l # ls) c = fst (count_attempt l c) # counted ls (snd (count_attempt l c))"

definition attempts_of :: "coordinator \<Rightarrow> int \<Rightarrow> nat" where
  "attempts_of c l = (case attempts c l of None \<Rightarrow> 0 | Some k \<Rightarrow> k)"

definition granted :: "int \<Rightarrow> int list \<Rightarrow> coordinator \<Rightarrow> nat" where
  "granted l ls c = length (filter (\<lambda>(k, ok). k = l \<and> ok) (zip ls (counted ls c)))"

lemma granted_bounded: "granted l ls c \<le> MAX_ATTEMPTS_PER_LOG - attempts_of c l"
proof (induction ls arbitrary: c)
  case (Cons k ls)
  have "attempts_of (snd (count_attempt k c)) l = attempts_of c l + (if k = l then 1 else 0)"
    by (simp add: count_attempt_def attempts_of_def Let_def)
  moreover have "fst (count_attempt k c) \<longleftrightarrow> attempts_of c k < MAX_ATTEMPTS_PER_LOG"
    by (simp add: count_attempt_def attempts_of_def Let_def Suc_le_eq)
  moreover have "granted l (k # ls) c
      = (if k = l \<and> fst (count_attempt k c) then 1 else 0) + granted l ls (snd (count_attempt k c))"
    by (cases "k = l") (simp_all add: granted_def)
  ultimately show ?case using Cons.IH [of "snd (count_attempt k c)"] by auto
qed (simp add: granted_def)

text \<open>However often a refill is tried for a log, three attempts at most go on to a proposal.\<close>

theorem three_attempts_per_log: "granted l ls new_coordinator \<le> 3"
  using granted_bounded [of l ls new_coordinator] by (simp add: attempts_of_def new_coordinator_def MAX_ATTEMPTS_PER_LOG_def)

end
