(* ===== verification/Refill_Boundary.thy ===== *)
theory Refill_Boundary
  imports Refill_Projection Schedule_Resolution
begin

text \<open>
  The next programming takeover after the active log: \<^verbatim>\<open>resolve_boundary\<close> of
  \<^verbatim>\<open>library/services/hour_refill_proposal.py\<close> with \<^verbatim>\<open>_takeover_eligibility\<close> of
  \<^verbatim>\<open>library/services/engine.py\<close>. The active profile, its schedule blocks and the approved log of an hour (its id
  and its earliest scheduled time) are arguments. Times the database returns carry UTC and are compared as
  instants; two times of the station's zone are compared, and moved, on the wall clock, as Python does.
\<close>

definition MINUTE_MICROS :: int where "MINUTE_MICROS = 60000000"

definition instant_of_wall :: "zone \<Rightarrow> int \<Rightarrow> int" where
  "instant_of_wall z w = w - offset_of_wall z w"

definition takeover_eligibility :: "zone \<Rightarrow> int \<times> int \<Rightarrow> int option \<Rightarrow> int \<Rightarrow> bool \<times> int option" where
  "takeover_eligibility z hour first_scheduled now =
     (case first_scheduled of None \<Rightarrow> (True, None)
      | Some first \<Rightarrow>
          let hour_end = instant_of_wall z (hour_wall hour + HOUR);
              takeover_at = (if hour_start z hour < first \<and> first < hour_end then Some first else None)
          in ((case takeover_at of None \<Rightarrow> True | Some t \<Rightarrow> now \<ge> t), takeover_at))"

definition unproven :: "string \<Rightarrow> int option \<Rightarrow> string \<Rightarrow> boundary" where
  "unproven src log_id why = \<lparr>kind = BOUNDARY_UNKNOWN, instant = None, proof_source = src, next_log_id = log_id, reason = why\<rparr>"

definition proven :: "boundary_kind \<Rightarrow> int \<Rightarrow> string \<Rightarrow> int option \<Rightarrow> boundary" where
  "proven k i src log_id = \<lparr>kind = k, instant = Some i, proof_source = src, next_log_id = log_id, reason = []\<rparr>"

text \<open>The segments of the active hour that start after the capture.\<close>

definition future_transitions :: "zone \<Rightarrow> snapshot \<Rightarrow> int \<times> int \<Rightarrow> schedule_segment list \<Rightarrow> schedule_segment list" where
  "future_transitions z s hour segments =
     filter (\<lambda>g. hour_wall hour + int (start_minute g) * MINUTE_MICROS > wall_at z (captured_at s)) segments"

text \<open>The boundary of the next hour, from its approved log or from the schedule.\<close>

definition next_boundary ::
  "zone \<Rightarrow> snapshot \<Rightarrow> int \<times> int \<Rightarrow> (int \<times> int option) option \<Rightarrow> schedule_segment list \<Rightarrow> refill_error + boundary" where
  "next_boundary z s n approved segments =
     (case approved of
        Some (log_id, None) \<Rightarrow> Inr (unproven ''approved_next_log'' (Some log_id) ''next_log_has_no_items'')
      | Some (log_id, Some first) \<Rightarrow>
          (case snd (takeover_eligibility z n (Some first) (captured_at s)) of
             None \<Rightarrow> Inr (proven BOUNDARY_ORDINARY (hour_start z n) ''approved_next_log'' (Some log_id))
           | Some t \<Rightarrow> if captured_naive s then Inl TypeError
                       else Inr (proven BOUNDARY_PARTIAL t ''approved_next_log'' (Some log_id)))
      | None \<Rightarrow>
          (case segments of
             [] \<Rightarrow> Inr (unproven ''none'' None ''next_hour_unscheduled'')
           | g # _ \<Rightarrow> Inr (proven (if start_minute g = 0 then BOUNDARY_ORDINARY else BOUNDARY_PARTIAL)
                (instant_of_wall z (hour_wall n + int (start_minute g) * MINUTE_MICROS)) ''schedule_resolution'' None)))"

definition resolve_boundary ::
  "zone \<Rightarrow> snapshot \<Rightarrow> nat option \<Rightarrow> schedule_block list \<Rightarrow> (int \<times> int \<Rightarrow> (int \<times> int option) option) \<Rightarrow> refill_error + boundary" where
  "resolve_boundary z s profile blocks approved =
     (case (active_log_date s, active_log_hour s) of
        (Some d, Some h) \<Rightarrow>
          (case profile of
             None \<Rightarrow> Inr (unproven ''none'' None ''no_active_schedule_profile'')
           | Some p \<Rightarrow>
               bindR (next_hour_key d h) (\<lambda>n.
               let segments = resolve_schedule_segments blocks d (nat h) p in
               if segments \<noteq> [] \<and> captured_naive s then Inl TypeError
               else if future_transitions z s (d, h) segments \<noteq> []
               then Inr (unproven ''schedule_resolution'' None ''future_intra_log_transition_unmodelled'')
               else next_boundary z s n (approved n) (resolve_schedule_segments blocks (fst n) (nat (snd n)) p)))
      | _ \<Rightarrow> Inr (unproven ''none'' None ''no_active_log''))"

lemma hour_start_wall: "hour_start z k = instant_of_wall z (hour_wall k)"
  by (simp add: hour_start_def instant_of_wall_def)

lemma first_segment_earliest:
  "resolve_schedule_segments blocks d h p = g # gs \<Longrightarrow> list_all (\<lambda>x. start_minute g \<le> start_minute x) (g # gs)"
  using effective_segments_sorted [of "fst (load_hour_rows blocks p d h)" "snd (load_hour_rows blocks p d h)"]
  by (auto simp: resolve_schedule_segments_def list_all_iff split: prod.splits)

definition takeover_of :: "zone \<Rightarrow> int \<times> int \<Rightarrow> (int \<times> int option) option \<Rightarrow> schedule_segment list \<Rightarrow> int option" where
  "takeover_of z n approved segments =
     (case approved of
        Some (_, None) \<Rightarrow> None
      | Some (_, Some first) \<Rightarrow>
          Some (if hour_start z n < first \<and> first < instant_of_wall z (hour_wall n + HOUR) then first else hour_start z n)
      | None \<Rightarrow> if segments = [] then None
                else Some (instant_of_wall z (hour_wall n + int (Min (start_minute ` set segments)) * MINUTE_MICROS)))"

lemma next_boundary_proven:
  assumes "next_boundary z s n approved segments = Inr b" and "kind b \<noteq> BOUNDARY_UNKNOWN"
    and "sorted (map start_minute segments)"
  shows "instant b = takeover_of z n approved segments \<and> instant b \<noteq> None"
proof (cases approved)
  case None
  then obtain g gs where g: "segments = g # gs" using assms(1,2) by (cases segments) (auto simp: next_boundary_def unproven_def)
  then have "Min (start_minute ` set segments) = start_minute g"
    using assms(3) by (auto intro!: Min_eqI)
  then show ?thesis using assms(1) None g by (auto simp: next_boundary_def takeover_of_def proven_def)
next
  case (Some a)
  then show ?thesis
    using assms(1,2)
    by (cases a) (auto simp: next_boundary_def takeover_of_def takeover_eligibility_def unproven_def proven_def Let_def
        split: option.splits if_splits)
qed

text \<open>
  C25. A boundary that is proven is the next change of programming: nothing of the active hour's schedule starts
  after the capture, and the takeover is the approved next log's own first time when that lies inside its
  hour, the start of that hour when it does not, and without an approved log the earliest segment
  that the schedule has in the next hour.
\<close>

theorem boundary_is_next_takeover:
  assumes "resolve_boundary z s profile blocks approved = Inr b" and "kind b \<noteq> BOUNDARY_UNKNOWN"
  shows "\<exists>d h n p. active_log_date s = Some d \<and> active_log_hour s = Some h \<and> profile = Some p \<and> next_hour_key d h = Inr n
    \<and> list_all (\<lambda>g. hour_wall (d, h) + int (start_minute g) * MINUTE_MICROS \<le> wall_at z (captured_at s))
         (resolve_schedule_segments blocks d (nat h) p)
    \<and> instant b = takeover_of z n (approved n) (resolve_schedule_segments blocks (fst n) (nat (snd n)) p) \<and> instant b \<noteq> None"
proof -
  obtain d h p where active: "active_log_date s = Some d" "active_log_hour s = Some h" "profile = Some p"
    using assms by (auto simp: resolve_boundary_def unproven_def split: option.splits)
  obtain n where n: "next_hour_key d h = Inr n"
    using assms(1) by (auto simp: resolve_boundary_def active bindR_eq_Inr)
  let ?now = "resolve_schedule_segments blocks d (nat h) p" and ?next = "resolve_schedule_segments blocks (fst n) (nat (snd n)) p"
  have none: "future_transitions z s (d, h) ?now = []" and b: "next_boundary z s n (approved n) ?next = Inr b"
    using assms by (auto simp: resolve_boundary_def active n Let_def unproven_def simp del: filter_empty_conv split: if_splits)
  have "list_all (\<lambda>g. hour_wall (d, h) + int (start_minute g) * MINUTE_MICROS \<le> wall_at z (captured_at s)) ?now"
    using none by (auto simp: future_transitions_def list_all_iff filter_empty_conv not_less)
  moreover have "sorted (map start_minute ?next)"
    using strict_sorted_imp_sorted [OF effective_segments_sorted]
    by (simp add: resolve_schedule_segments_def split: prod.splits)
  ultimately show ?thesis using next_boundary_proven [OF b assms(2)] active n by blast
qed

text \<open>The next log of the sample hour is a partial one: it takes over five minutes into its hour.\<close>

definition partial_next :: "int \<times> int \<Rightarrow> (int \<times> int option) option" where
  "partial_next n = (if n = (0, 1) then Some (8, Some 3900000000) else None)"

theorem boundary_is_next_takeover_witness:
  "\<exists>b. resolve_boundary utc sample_snapshot (Some 1) [] partial_next = Inr b \<and> kind b = BOUNDARY_PARTIAL
     \<and> instant b = Some 3900000000"
proof -
  have hour: "next_hour_key 0 0 = Inr (0, 1)" by (simp add: next_hour_key_def hour_key_of_def HOUR_def)
  have none: "resolve_schedule_segments [] d h p = []" for d h p
    by (simp add: resolve_schedule_segments_def load_hour_rows_def rows_in_hour_def hour_bounds_def effective_segments_def)
  have sample: "active_log_date sample_snapshot = Some 0" "active_log_hour sample_snapshot = Some 0" "captured_naive sample_snapshot = False"
    by (simp_all add: sample_snapshot_def)
  have takeover: "takeover_of utc (0, 1) (partial_next (0, 1)) [] = Some 3900000000"
    by (simp add: takeover_of_def partial_next_def hour_start_def hour_wall_def instant_of_wall_def utc_def HOUR_def)
  obtain b where b: "resolve_boundary utc sample_snapshot (Some 1) [] partial_next = Inr b" "kind b = BOUNDARY_PARTIAL"
    by (simp add: resolve_boundary_def sample hour none future_transitions_def next_boundary_def partial_next_def proven_def
        takeover_eligibility_def hour_start_def hour_wall_def instant_of_wall_def utc_def HOUR_def)
  then have "kind b \<noteq> BOUNDARY_UNKNOWN" by simp
  from boundary_is_next_takeover [OF b(1) this] show ?thesis
    using b takeover by (auto simp: sample hour none)
qed

end
