(* ===== verification/Related_Artists.thy ===== *)
theory Related_Artists
  imports Air_Text
begin

text \<open>
  The related artists of a track, \<^verbatim>\<open>library/services/related_artists.py\<close>: the comparison key of a name, the stored
  list of names, the merge of discovered names into it and the identity keys of a track. \<^verbatim>\<open>str.casefold\<close> is the
  argument \<^term>\<open>cf\<close>; an absent name is the empty text, which the code treats alike.
\<close>

section \<open>Names\<close>

text \<open>\<^verbatim>\<open>re.sub(r"\s+", " ", t)\<close>.\<close>

fun collapse_from :: "bool \<Rightarrow> utext \<Rightarrow> utext" where
  "collapse_from inside [] = []"
| "collapse_from inside (c # cs) =
     (if py_isspace c then (if inside then collapse_from True cs else 32 # collapse_from True cs)
      else c # collapse_from False cs)"

definition collapse_space :: "utext \<Rightarrow> utext" where
  "collapse_space = collapse_from False"

definition normalize_name :: "(utext \<Rightarrow> utext) \<Rightarrow> utext \<Rightarrow> utext" where
  "normalize_name cf name = (if name = [] then [] else cf (py_strip (collapse_space name)))"

definition strip_chars :: "utext \<Rightarrow> utext \<Rightarrow> utext" where
  "strip_chars cs t = rev (dropWhile (\<lambda>c. c \<in> set cs) (rev (dropWhile (\<lambda>c. c \<in> set cs) t)))"

definition QUOTES :: utext where "QUOTES = [39, 34]"
definition DEBRIS :: utext where "DEBRIS = cps '' .,;:-_()[]{}''"

definition clean_artist_name :: "utext \<Rightarrow> utext" where
  "clean_artist_name raw =
     (if raw = [] then [] else py_strip (strip_chars DEBRIS (strip_chars QUOTES (py_strip (collapse_space raw)))))"

section \<open>The stored list\<close>

fun split_at :: "nat \<Rightarrow> utext \<Rightarrow> utext list" where
  "split_at sep [] = [[]]"
| "split_at sep (c # cs) =
     (if c = sep then [] # split_at sep cs
      else (case split_at sep cs of [] \<Rightarrow> [[c]] | w # ws \<Rightarrow> (c # w) # ws))"

fun canonical_loop :: "(utext \<Rightarrow> utext) \<Rightarrow> utext \<Rightarrow> utext set \<Rightarrow> utext list \<Rightarrow> utext list" where
  "canonical_loop cf primary_key seen [] = []"
| "canonical_loop cf primary_key seen (part # parts) =
     (let name = clean_artist_name part; key = normalize_name cf name in
      if name = [] \<or> key = [] \<or> key \<in> seen \<or> key = primary_key then canonical_loop cf primary_key seen parts
      else name # canonical_loop cf primary_key (insert key seen) parts)"

definition canonicalize_related_artists :: "(utext \<Rightarrow> utext) \<Rightarrow> utext \<Rightarrow> utext \<Rightarrow> utext list" where
  "canonicalize_related_artists cf text primary = canonical_loop cf (normalize_name cf primary) {} (split_at 44 text)"

definition parse_related_artists :: "(utext \<Rightarrow> utext) \<Rightarrow> utext \<Rightarrow> utext list" where
  "parse_related_artists cf text = canonicalize_related_artists cf text []"

fun format_related_artists :: "utext list \<Rightarrow> utext" where
  "format_related_artists [] = []"
| "format_related_artists [a] = a"
| "format_related_artists (a # b # rest) = a @ [44, 32] @ format_related_artists (b # rest)"

section \<open>Merging\<close>

function clip_to_length :: "nat \<Rightarrow> utext list \<Rightarrow> utext list" where
  "clip_to_length limit names =
     (if names \<noteq> [] \<and> length (format_related_artists names) > limit then clip_to_length limit (butlast names) else names)"
  by pat_completeness auto
termination by (relation "measure (\<lambda>(limit, names). length names)") auto

declare clip_to_length.simps [simp del]

text \<open>The names now stored, the appended ones and the skipped ones.\<close>

fun merge_loop :: "(utext \<Rightarrow> utext) \<Rightarrow> utext \<Rightarrow> nat \<Rightarrow> utext list \<Rightarrow> utext set \<Rightarrow> utext list \<Rightarrow> utext list \<times> utext list \<times> utext list" where
  "merge_loop cf primary_key limit existing seen [] = (existing, [], [])"
| "merge_loop cf primary_key limit existing seen (raw # rest) =
     (let name = clean_artist_name raw; key = normalize_name cf name in
      if key = [] \<or> key \<in> seen \<or> key = primary_key then merge_loop cf primary_key limit existing seen rest
      else if length (format_related_artists (existing @ [name])) > limit
      then (let (e, a, s) = merge_loop cf primary_key limit existing seen rest in (e, a, name # s))
      else (let (e, a, s) = merge_loop cf primary_key limit (existing @ [name]) (insert key seen) rest in (e, name # a, s)))"

definition stored_names :: "(utext \<Rightarrow> utext) \<Rightarrow> nat \<Rightarrow> utext \<Rightarrow> utext \<Rightarrow> utext list" where
  "stored_names cf limit text primary = clip_to_length limit (canonicalize_related_artists cf text primary)"

definition merged_names ::
  "(utext \<Rightarrow> utext) \<Rightarrow> nat \<Rightarrow> utext \<Rightarrow> utext list \<Rightarrow> utext \<Rightarrow> utext list \<times> utext list \<times> utext list" where
  "merged_names cf limit text discovered primary =
     (let existing = stored_names cf limit text primary in
      merge_loop cf (normalize_name cf primary) limit existing (normalize_name cf ` set existing) discovered)"

definition merge_related_artists_detailed ::
  "(utext \<Rightarrow> utext) \<Rightarrow> nat \<Rightarrow> utext \<Rightarrow> utext list \<Rightarrow> utext \<Rightarrow> utext \<times> utext list \<times> utext list" where
  "merge_related_artists_detailed cf limit text discovered primary =
     (let (e, a, s) = merged_names cf limit text discovered primary in (format_related_artists e, a, s))"

definition merge_related_artists :: "(utext \<Rightarrow> utext) \<Rightarrow> nat \<Rightarrow> utext \<Rightarrow> utext list \<Rightarrow> utext \<Rightarrow> utext" where
  "merge_related_artists cf limit text discovered primary = fst (merge_related_artists_detailed cf limit text discovered primary)"

section \<open>Identity keys\<close>

definition track_identity_keys :: "(utext \<Rightarrow> utext) \<Rightarrow> utext \<Rightarrow> utext \<Rightarrow> utext set" where
  "track_identity_keys cf primary related =
     set (filter (\<lambda>k. k \<noteq> []) (normalize_name cf primary # map (normalize_name cf) (parse_related_artists cf related)))"

section \<open>Filename stems\<close>

text \<open>The last path component, underscores as blanks, white space collapsed.\<close>

definition humanize_filename_stem :: "utext \<Rightarrow> utext" where
  "humanize_filename_stem stem =
     (if stem = [] then []
      else let text = last (split_at 47 (map (\<lambda>c. if c = 92 then 47 else c) stem)) in
           py_strip (collapse_space (map (\<lambda>c. if c = 95 then 32 else c) text)))"

section \<open>Merging only appends\<close>

lemma canonical_loop_names:
  "distinct (map (normalize_name cf) (canonical_loop cf pk seen parts))
   \<and> normalize_name cf ` set (canonical_loop cf pk seen parts) \<inter> insert pk (insert [] seen) = {}"
  by (induction parts arbitrary: seen) (auto simp: Let_def)

lemma clip_is_take: "\<exists>n. clip_to_length limit names = take n names"
proof (induction limit names rule: clip_to_length.induct)
  case (1 limit names)
  show ?case
  proof (cases "names \<noteq> [] \<and> length (format_related_artists names) > limit")
    case True
    then obtain n where "clip_to_length limit (butlast names) = take n (butlast names)" using 1 by blast
    then have "clip_to_length limit names = take (min n (length names - 1)) names"
      using True by (simp add: clip_to_length.simps [of limit names] butlast_conv_take)
    then show ?thesis ..
  next
    case False
    then have "clip_to_length limit names = take (length names) names" by (auto simp: clip_to_length.simps [of limit names])
    then show ?thesis ..
  qed
qed

lemma clip_fits: "length (format_related_artists (clip_to_length limit names)) \<le> limit"
proof (induction limit names rule: clip_to_length.induct)
  case (1 limit names)
  show ?case
  proof (cases "names = []")
    case True
    then show ?thesis by (simp add: clip_to_length.simps [of limit "[]"])
  next
    case False
    then show ?thesis using 1 by (simp add: clip_to_length.simps [of limit names])
  qed
qed

lemma clip_short: "length (format_related_artists names) \<le> limit \<Longrightarrow> clip_to_length limit names = names"
  by (simp add: clip_to_length.simps [of limit names])

lemma stored_names_ok:
  "distinct (map (normalize_name cf) (stored_names cf limit text primary))"
  "normalize_name cf ` set (stored_names cf limit text primary) \<inter> {normalize_name cf primary, []} = {}"
  "length (format_related_artists (stored_names cf limit text primary)) \<le> limit"
proof -
  obtain n where n: "stored_names cf limit text primary = take n (canonicalize_related_artists cf text primary)"
    unfolding stored_names_def using clip_is_take by blast
  have names: "distinct (map (normalize_name cf) (canonicalize_related_artists cf text primary))"
    "normalize_name cf ` set (canonicalize_related_artists cf text primary) \<inter> {normalize_name cf primary, []} = {}"
    unfolding canonicalize_related_artists_def
    using canonical_loop_names [of cf "normalize_name cf primary" "{}" "split_at 44 text"] by auto
  show "distinct (map (normalize_name cf) (stored_names cf limit text primary))"
    unfolding n take_map [symmetric] using names(1) by (rule distinct_take)
  show "normalize_name cf ` set (stored_names cf limit text primary) \<inter> {normalize_name cf primary, []} = {}"
    unfolding n using names(2) set_take_subset [of n "canonicalize_related_artists cf text primary"] by blast
  show "length (format_related_artists (stored_names cf limit text primary)) \<le> limit"
    by (simp add: stored_names_def clip_fits)
qed

definition blocked_key :: "utext \<Rightarrow> utext set \<Rightarrow> utext \<Rightarrow> bool" where
  "blocked_key pk seen key \<longleftrightarrow> key = [] \<or> key \<in> seen \<or> key = pk"

lemma merge_loop_known:
  "blocked_key pk seen (normalize_name cf (clean_artist_name raw)) \<Longrightarrow>
   merge_loop cf pk limit existing seen (raw # rest) = merge_loop cf pk limit existing seen rest"
  by (simp add: Let_def blocked_key_def)

lemma merge_loop_long:
  "\<not> blocked_key pk seen (normalize_name cf (clean_artist_name raw)) \<Longrightarrow>
   length (format_related_artists (existing @ [clean_artist_name raw])) > limit \<Longrightarrow>
   merge_loop cf pk limit existing seen (raw # rest)
     = (let (e, a, s) = merge_loop cf pk limit existing seen rest in (e, a, clean_artist_name raw # s))"
  by (simp add: Let_def blocked_key_def)

lemma merge_loop_fits:
  "\<not> blocked_key pk seen (normalize_name cf (clean_artist_name raw)) \<Longrightarrow>
   length (format_related_artists (existing @ [clean_artist_name raw])) \<le> limit \<Longrightarrow>
   merge_loop cf pk limit existing seen (raw # rest)
     = (let (e, a, s) = merge_loop cf pk limit (existing @ [clean_artist_name raw]) (insert (normalize_name cf (clean_artist_name raw)) seen) rest
        in (e, clean_artist_name raw # a, s))"
  by (simp add: Let_def blocked_key_def)

definition well_stored :: "(utext \<Rightarrow> utext) \<Rightarrow> utext \<Rightarrow> nat \<Rightarrow> utext list \<Rightarrow> bool" where
  "well_stored cf pk limit names \<longleftrightarrow> distinct (map (normalize_name cf) names)
     \<and> normalize_name cf ` set names \<inter> {pk, []} = {} \<and> length (format_related_artists names) \<le> limit"

lemma well_stored_append:
  "well_stored cf pk limit names \<Longrightarrow> \<not> blocked_key pk (normalize_name cf ` set names) (normalize_name cf name) \<Longrightarrow>
   length (format_related_artists (names @ [name])) \<le> limit \<Longrightarrow> well_stored cf pk limit (names @ [name])"
  by (auto simp: well_stored_def blocked_key_def)

definition accounted :: "(utext \<Rightarrow> utext) \<Rightarrow> utext \<Rightarrow> utext list \<Rightarrow> utext list \<Rightarrow> utext \<Rightarrow> bool" where
  "accounted cf pk names skipped raw \<longleftrightarrow>
     clean_artist_name raw \<in> set skipped \<or> blocked_key pk (normalize_name cf ` set names) (normalize_name cf (clean_artist_name raw))"

lemma accounted_more:
  "accounted cf pk names skipped raw \<Longrightarrow> accounted cf pk (names @ more) skipped raw"
  "accounted cf pk names skipped raw \<Longrightarrow> accounted cf pk names (x # skipped) raw"
  by (auto simp: accounted_def blocked_key_def)

lemma merge_loop_ok:
  "merge_loop cf pk limit existing (normalize_name cf ` set existing) discovered = (e, a, s) \<Longrightarrow> well_stored cf pk limit existing \<Longrightarrow>
   e = existing @ a \<and> well_stored cf pk limit e \<and> list_all (accounted cf pk e s) discovered"
proof (induction discovered arbitrary: existing e a s)
  case Nil
  then show ?case by simp
next
  case (Cons raw rest)
  let ?seen = "normalize_name cf ` set existing"
  let ?name = "clean_artist_name raw"
  show ?case
  proof (cases "blocked_key pk ?seen (normalize_name cf ?name)")
    case True
    from Cons.IH [OF Cons.prems(1) [unfolded merge_loop_known [OF True]] Cons.prems(2)]
    have IH: "e = existing @ a" "well_stored cf pk limit e" "list_all (accounted cf pk e s) rest" by blast+
    have "accounted cf pk existing s raw" using True by (simp add: accounted_def)
    then show ?thesis using IH accounted_more(1) by simp
  next
    case new: False
    show ?thesis
    proof (cases "length (format_related_artists (existing @ [?name])) \<le> limit")
      case True
      from Cons.prems(1) [unfolded merge_loop_fits [OF new True]] obtain a'
        where a': "merge_loop cf pk limit (existing @ [?name]) (insert (normalize_name cf ?name) ?seen) rest = (e, a', s)" "a = ?name # a'"
        by (auto split: prod.splits)
      have seen: "insert (normalize_name cf ?name) ?seen = normalize_name cf ` set (existing @ [?name])" by simp
      from Cons.IH [OF a'(1) [unfolded seen] well_stored_append [OF Cons.prems(2) new True]]
      have "e = (existing @ [?name]) @ a' \<and> well_stored cf pk limit e \<and> list_all (accounted cf pk e s) rest" .
      then have IH: "e = existing @ ?name # a'" "well_stored cf pk limit e" "list_all (accounted cf pk e s) rest"
        unfolding append_assoc append.simps by blast+
      have "accounted cf pk e s raw" using IH(1) by (simp add: accounted_def blocked_key_def)
      then show ?thesis using IH a'(2) by simp
    next
      case False
      then have long: "length (format_related_artists (existing @ [?name])) > limit" by simp
      from Cons.prems(1) [unfolded merge_loop_long [OF new long]] obtain s'
        where s': "merge_loop cf pk limit existing ?seen rest = (e, a, s')" "s = ?name # s'"
        by (auto split: prod.splits)
      from Cons.IH [OF s'(1) Cons.prems(2)]
      have IH: "e = existing @ a" "well_stored cf pk limit e" "list_all (accounted cf pk e s') rest" by blast+
      have "list_all (accounted cf pk e s) rest" using IH(3) accounted_more(2) unfolding s'(2) by (rule list.pred_mono_strong)
      moreover have "accounted cf pk e s raw" using s'(2) by (simp add: accounted_def)
      ultimately show ?thesis using IH by simp
    qed
  qed
qed

text \<open>
  The automatic merge only appends: the names stored before stay, in order and whole, unless they
  already were too long for the column; the new names come after them, no two names of the result compare
  equal, none is the primary artist, the text fits the column, and every discovered name is in the result,
  is reported as skipped, or is blank or the primary artist.
\<close>

theorem merge_append_only:
  "case merged_names cf limit text discovered primary of (names, appended, skipped) \<Rightarrow>
     names = stored_names cf limit text primary @ appended
     \<and> length (format_related_artists names) \<le> limit
     \<and> distinct (map (normalize_name cf) names)
     \<and> normalize_name cf ` set names \<inter> {normalize_name cf primary, []} = {}
     \<and> normalize_name cf ` clean_artist_name ` set discovered
         \<subseteq> {normalize_name cf primary, []} \<union> normalize_name cf ` set names \<union> normalize_name cf ` set skipped"
proof (cases "merged_names cf limit text discovered primary")
  case (fields names appended skipped)
  then have "merge_loop cf (normalize_name cf primary) limit (stored_names cf limit text primary)
      (normalize_name cf ` set (stored_names cf limit text primary)) discovered = (names, appended, skipped)"
    by (simp add: merged_names_def Let_def)
  note loop = merge_loop_ok [OF this]
  have "well_stored cf (normalize_name cf primary) limit (stored_names cf limit text primary)"
    using stored_names_ok by (simp add: well_stored_def)
  from loop [OF this] have ok: "names = stored_names cf limit text primary @ appended"
    "well_stored cf (normalize_name cf primary) limit names" "list_all (accounted cf (normalize_name cf primary) names skipped) discovered"
    by blast+
  have "normalize_name cf ` clean_artist_name ` set discovered
      \<subseteq> {normalize_name cf primary, []} \<union> normalize_name cf ` set names \<union> normalize_name cf ` set skipped"
    using ok(3) by (auto simp: list_all_iff accounted_def blocked_key_def)
  then show ?thesis using ok(1,2) fields by (simp add: well_stored_def)
qed

section \<open>The stored text is read back\<close>

lemma split_at_nonempty: "split_at sep t \<noteq> []"
  by (induction t) (auto split: list.splits)

lemma split_at_none: "sep \<notin> set t \<Longrightarrow> split_at sep t = [t]"
  by (induction t) auto

lemma split_at_word: "sep \<notin> set w \<Longrightarrow> split_at sep (w @ sep # rest) = w # split_at sep rest"
  by (induction w) auto

lemma split_at_blank: "split_at 44 (32 # t) = (32 # hd (split_at 44 t)) # tl (split_at 44 t)"
  using split_at_nonempty [of 44 t] by (cases "split_at 44 t") auto

lemma split_format:
  "names \<noteq> [] \<Longrightarrow> list_all (\<lambda>n. 44 \<notin> set n) names \<Longrightarrow>
   split_at 44 (format_related_artists names) = hd names # map (\<lambda>n. 32 # n) (tl names)"
proof (induction names rule: format_related_artists.induct)
  case (3 a b rest)
  then have "split_at 44 (format_related_artists (b # rest)) = b # map (\<lambda>n. 32 # n) rest" by simp
  then show ?case using 3 by (simp add: split_at_word split_at_blank)
qed (auto simp: split_at_none)

lemma py_strip_hd:
  assumes "py_strip t \<noteq> []"
  shows "\<not> py_isspace (hd (py_strip t))"
proof -
  let ?d = "dropWhile py_isspace t"
  let ?r = "rev (dropWhile py_isspace (rev ?d))"
  have r: "?r \<noteq> []" using assms by (simp only: py_strip_def not_False_eq_True)
  have "rev ?d = takeWhile py_isspace (rev ?d) @ dropWhile py_isspace (rev ?d)" by (rule takeWhile_dropWhile_id [symmetric])
  then have "?d = ?r @ rev (takeWhile py_isspace (rev ?d))" by (metis rev_append rev_rev_ident)
  then have "hd ?r = hd ?d" and "?d \<noteq> []" using r by (metis hd_append2, metis append_is_Nil_conv)
  then show ?thesis using hd_dropWhile [of py_isspace t] by (simp only: py_strip_def not_False_eq_True)
qed

lemma clean_artist_name_hd: "clean_artist_name n = n \<Longrightarrow> n \<noteq> [] \<Longrightarrow> \<not> py_isspace (hd n)"
  using py_strip_hd by (metis clean_artist_name_def)

lemma clean_artist_name_blank: "n \<noteq> [] \<Longrightarrow> \<not> py_isspace (hd n) \<Longrightarrow> clean_artist_name (32 # n) = clean_artist_name n"
  by (cases n) (simp_all add: clean_artist_name_def collapse_space_def py_strip_def)

definition storable :: "(utext \<Rightarrow> utext) \<Rightarrow> utext \<Rightarrow> bool" where
  "storable cf n \<longleftrightarrow> n \<noteq> [] \<and> clean_artist_name n = n \<and> normalize_name cf n \<noteq> [] \<and> 44 \<notin> set n"

lemma canonical_loop_storable:
  "list_all (storable cf) names \<Longrightarrow> distinct (map (normalize_name cf) names) \<Longrightarrow>
   normalize_name cf ` set names \<inter> seen = {} \<Longrightarrow> map clean_artist_name parts = names \<Longrightarrow> canonical_loop cf [] seen parts = names"
proof (induction names arbitrary: parts seen)
  case (Cons n names)
  then show ?case by (cases parts) (auto simp: Let_def storable_def)
qed simp

text \<open>
  The stored text round-trips: a list of clean names without commas, no two of which compare equal, is
  read back from the column exactly as it was written.
\<close>

theorem related_artists_roundtrip:
  "list_all (storable cf) names \<Longrightarrow> distinct (map (normalize_name cf) names) \<Longrightarrow>
   parse_related_artists cf (format_related_artists names) = names"
proof (cases names)
  case Nil
  then show ?thesis
    by (simp add: parse_related_artists_def canonicalize_related_artists_def normalize_name_def Let_def clean_artist_name_def)
next
  case (Cons n rest)
  assume ok: "list_all (storable cf) names" and d: "distinct (map (normalize_name cf) names)"
  have clean: "clean_artist_name (32 # m) = m" if "m \<in> set names" for m
    using ok that clean_artist_name_blank [of m] clean_artist_name_hd [of m] by (auto simp: list_all_iff storable_def)
  have "map clean_artist_name (n # map (\<lambda>n. 32 # n) rest) = names"
    using ok clean Cons by (auto simp: storable_def intro: map_idI)
  moreover have "split_at 44 (format_related_artists names) = n # map (\<lambda>n. 32 # n) rest"
    using split_format [of names] ok Cons by (simp add: list_all_iff storable_def)
  moreover have "normalize_name cf [] = []" by (simp add: normalize_name_def)
  ultimately show ?thesis
    using canonical_loop_storable [OF ok d, of "{}"] by (simp only: parse_related_artists_def canonicalize_related_artists_def Int_empty_right)
qed

lemmas name_evaluation = clean_artist_name_def normalize_name_def collapse_space_def strip_chars_def py_strip_def py_isspace_def
  QUOTES_def DEBRIS_def cps_def

theorem related_artists_roundtrip_witness:
  "parse_related_artists (\<lambda>t. t) (format_related_artists [cps ''Sting'', cps ''U2'']) = [cps ''Sting'', cps ''U2'']"
  by (rule related_artists_roundtrip) (simp_all add: storable_def name_evaluation)

section \<open>Quoted names in brackets\<close>

text \<open>
  Cleaning a name twice is not cleaning it once: brackets are taken off after quotes, so a quoted name in
  brackets loses its brackets first and its quotes only when the stored text is read again. The next run does
  not find the discovered name in the list and appends it a second time.
\<close>

definition big_x :: utext where "big_x = cps ''Big X''"
definition quoted_big_x :: utext where "quoted_big_x = [34] @ cps ''Big X'' @ [34]"

lemma big_x_names:
  "clean_artist_name ([40] @ quoted_big_x @ [41]) = quoted_big_x" "clean_artist_name quoted_big_x = big_x" "clean_artist_name [] = []"
  "normalize_name (\<lambda>t. t) quoted_big_x = quoted_big_x" "normalize_name (\<lambda>t. t) big_x = big_x" "normalize_name (\<lambda>t. t) [] = []"
  "split_at 44 quoted_big_x = [quoted_big_x]" "big_x \<noteq> []" "quoted_big_x \<noteq> []" "quoted_big_x \<noteq> big_x"
  by (simp_all add: name_evaluation big_x_def quoted_big_x_def)

lemma big_x_fits:
  "length (format_related_artists [big_x]) \<le> 500" "length (format_related_artists [quoted_big_x]) \<le> 500"
  "length (format_related_artists [big_x, quoted_big_x]) \<le> 500"
  by (simp_all add: big_x_def quoted_big_x_def cps_def)

lemma quoted_name_appended_twice:
  "merge_related_artists (\<lambda>t. t) 500 [] [[40] @ quoted_big_x @ [41]] [] = quoted_big_x
   \<and> merge_related_artists (\<lambda>t. t) 500 quoted_big_x [[40] @ quoted_big_x @ [41]] [] = big_x @ [44, 32] @ quoted_big_x"
proof -
  have stored: "stored_names (\<lambda>t. t) 500 [] [] = []" "stored_names (\<lambda>t. t) 500 quoted_big_x [] = [big_x]"
    using clip_short [OF big_x_fits(1)] clip_short [of "[]" 500]
    by (simp_all add: stored_names_def canonicalize_related_artists_def big_x_names Let_def)
  have "merged_names (\<lambda>t. t) 500 [] [[40] @ quoted_big_x @ [41]] [] = ([quoted_big_x], [quoted_big_x], [])"
    using big_x_fits(2)
    by (simp add: merged_names_def stored big_x_names(1) [simplified] big_x_names(2-) Let_def)
  moreover have "merged_names (\<lambda>t. t) 500 quoted_big_x [[40] @ quoted_big_x @ [41]] [] = ([big_x, quoted_big_x], [quoted_big_x], [])"
    using big_x_fits(3)
    by (simp add: merged_names_def stored big_x_names(1) [simplified] big_x_names(2-) Let_def)
  ultimately show ?thesis by (simp add: merge_related_artists_def merge_related_artists_detailed_def)
qed

end
