(* ===== verification/Refill_Install.thy ===== *)
theory Refill_Install
  imports Refill_Coordinator Refill_Boundary Related_Artists
begin

text \<open>
  The guarded installer of hour refills: \<^verbatim>\<open>library/services/hour_refill_install.py\<close>. The worker's reads
  are a record of arguments: the two snapshots, the database reads of each evaluation, the policy row at each of
  its three reads, the clock. The database is a value; the transaction of \<^verbatim>\<open>_commit\<close> returns a changed
  one or an abort, and an abort leaves the old one. Row locks are granted or refused. The two
  statements that shift positions change one row at a time, in an order the database chooses, under the unique
  constraint on the positions of a log.
\<close>

section \<open>Permission\<close>

record refill_policy =
  policy_on :: bool
  dry_run_only :: bool
  capture_request_substitution :: bool
  capture_operator_eject :: bool
  capture_start_next :: bool
  capture_automatic_skip :: bool
  capture_media_failure :: bool

text \<open>A database without the columns; or the row, which may be missing.\<close>

datatype policy_read = PolicyUnreadable | PolicyRow "refill_policy option"

datatype install_fault = Abort install_status "refill_reason list" | Refill refill_error | ProgrammingError | DoesNotExist | IndexFault

definition cause_switches :: "refill_policy \<Rightarrow> (string \<times> bool) list" where
  "cause_switches r = [(CAUSE_REQUEST_SUBSTITUTION, capture_request_substitution r), (CAUSE_OPERATOR_EJECT, capture_operator_eject r),
     (CAUSE_START_NEXT, capture_start_next r), (CAUSE_AUTOMATIC_SKIP, capture_automatic_skip r),
     (CAUSE_MEDIA_FAILURE, capture_media_failure r)]"

definition switched_on :: "refill_policy \<Rightarrow> string list \<Rightarrow> bool" where
  "switched_on r types \<longleftrightarrow> list_all (\<lambda>t. map_of (cause_switches r) t = Some True) types"

definition row_permits :: "bool \<Rightarrow> string list \<Rightarrow> refill_policy option \<Rightarrow> bool" where
  "row_permits armed types row =
     (case row of None \<Rightarrow> False | Some r \<Rightarrow> policy_on r \<and> \<not> dry_run_only r \<and> armed \<and> switched_on r types)"

definition install_permitted :: "bool \<Rightarrow> bool \<Rightarrow> policy_read \<Rightarrow> string list \<Rightarrow> install_fault + bool" where
  "install_permitted armed in_atomic rd types =
     (case rd of PolicyUnreadable \<Rightarrow> if in_atomic then Inl ProgrammingError else Inr False
      | PolicyRow row \<Rightarrow> Inr (row_permits armed types row))"

definition cause_types :: "projection \<Rightarrow> string list" where
  "cause_types p = remdups (map cause_type (qualified_causes p))"

section \<open>Constants, keys and texts\<close>

definition MAX_COMMIT_AGE_SECONDS :: seconds where "MAX_COMMIT_AGE_SECONDS = 2"
definition INSERTION_LEAD_SECONDS :: seconds where "INSERTION_LEAD_SECONDS = 20"
definition SHIFT_OFFSET :: int where "SHIFT_OFFSET = 100000"
definition LOCK_ERRORS :: "string list" where "LOCK_ERRORS = [''55P03'', ''40P01'']"
definition ORIGIN_REFILL_INSTALLED :: string where "ORIGIN_REFILL_INSTALLED = ''refill_installed''"

definition safety_budget :: "seconds \<times> seconds" where
  "safety_budget = (5, 1)"

text \<open>The sorted ids, joined with commas; \<^verbatim>\<open>sorted\<close> cannot compare an id with None. The hash is a parameter.\<close>

fun join_ids :: "utext list \<Rightarrow> utext" where
  "join_ids [] = []"
| "join_ids [x] = x"
| "join_ids (x # xs) = x @ 44 # join_ids xs"

definition canonical_ids :: "int option list \<Rightarrow> refill_error + utext" where
  "canonical_ids ids =
     (if ids = [None] then Inr (cps ''None'')
      else if None \<in> set ids then Inl TypeError
      else Inr (join_ids (map show_int (sort (map the ids)))))"

definition install_key_for :: "(utext \<Rightarrow> utext) \<Rightarrow> int \<Rightarrow> int option list \<Rightarrow> refill_error + utext" where
  "install_key_for sha log_id ids =
     map_sum id (\<lambda>canonical. cps ''refill:log_id'' @ show_int log_id @ cps '':causes:'' @ take 40 (sha canonical)) (canonical_ids ids)"

fun outcome_text :: "refill_outcome \<Rightarrow> string" where
  "outcome_text OUTCOME_OFF = ''off''"
| "outcome_text OUTCOME_INVALID_SNAPSHOT = ''invalid_snapshot''"
| "outcome_text OUTCOME_WRONG_HOUR = ''wrong_hour''"
| "outcome_text OUTCOME_BLOCKED_TRANSPORT = ''blocked_transport''"
| "outcome_text OUTCOME_UNSAFE_WINDOW = ''unsafe_window''"
| "outcome_text OUTCOME_NO_SAFE_BOUNDARY = ''no_safe_boundary''"
| "outcome_text OUTCOME_NO_QUALIFYING_CAUSE = ''no_qualifying_cause''"
| "outcome_text OUTCOME_ALREADY_SATISFIED = ''already_satisfied''"
| "outcome_text OUTCOME_BELOW_THRESHOLD = ''below_threshold''"
| "outcome_text OUTCOME_ELIGIBLE = ''eligible''"

fun proposal_status_text :: "proposal_status \<Rightarrow> string" where
  "proposal_status_text (Abstained out) = outcome_text out"
| "proposal_status_text STATUS_NO_CATEGORY = ''no_eligible_music_category''"
| "proposal_status_text STATUS_NO_SAFE_ANCHOR = ''no_safe_anchor''"
| "proposal_status_text STATUS_NO_FIT = ''no_fit''"
| "proposal_status_text STATUS_PROPOSED = ''proposed''"

text \<open>\<^verbatim>\<open>raise _Abort(status, reason)\<close> when the condition holds, and the checks after it otherwise.\<close>

definition abort_if :: "bool \<Rightarrow> install_status \<Rightarrow> string \<Rightarrow> install_fault + 'a \<Rightarrow> install_fault + 'a" where
  "abort_if bad st why k = guardR (\<not> bad) (Abort st [Because why]) k"

definition of_refill :: "refill_error + 'a \<Rightarrow> install_fault + 'a" where
  "of_refill = map_sum Refill id"

section \<open>The worker's reads\<close>

type_synonym item_content = "int \<times> int option \<times> int option \<times> int option \<times> int option \<times> bool \<times> bool"

type_synonym deck_content = "string \<times> int option \<times> int option \<times> int option"

type_synonym digest_content = "utext \<times> (int option \<times> int option \<times> int option) \<times> int \<times> item_content list \<times> item_content list
  \<times> deck_content list \<times> (int \<times> int) set"

record install_world =
  world_zone :: zone
  digest_hash :: "digest_content \<Rightarrow> utext"
  key_hash :: "utext \<Rightarrow> utext"
  case_fold :: "utext \<Rightarrow> utext"
  host_armed :: bool
  psa_residual :: "psa_policy option"
  first_policy :: policy_read
  first_snapshot :: "snapshot option"
  first_reads :: refill_reads
  second_snapshot :: "snapshot option"
  media_present :: "utext \<Rightarrow> bool"
  cas_reads :: refill_reads
  cas_policy :: policy_read
  fresh_reads :: refill_reads
  engine_stopping :: bool
  log_lock_error :: "string option"
  policy_lock_error :: "string option"
  shift_order :: "int list"
  unshift_order :: "int list"
  new_item_id :: "nat \<Rightarrow> int"
  new_ledger_id :: int
  commit_age :: seconds

text \<open>\<^verbatim>\<open>_selection_signature\<close>\<close>

definition selection_signature ::
  "proposal \<Rightarrow> (int \<times> int \<times> seconds \<times> seconds \<times> seconds \<times> utext \<times> utext set) list" where
  "selection_signature pr = map (\<lambda>c. (cand_track c, cand_category c, cand_cue c, cand_end c, cand_effective c, filepath c, identity_keys c)) (chosen pr)"

definition evaluate_for :: "install_world \<Rightarrow> refill_reads \<Rightarrow> snapshot \<Rightarrow> install_fault + proposal" where
  "evaluate_for w R s = of_refill (evaluate_hour_refill (world_zone w) (digest_hash w) R s True (psa_residual w) (Some safety_budget))"

section \<open>The second snapshot against the first\<close>

text \<open>The window, the lead, and the selection made again from the second snapshot.\<close>

definition cas_frame :: "install_world \<Rightarrow> snapshot \<Rightarrow> proposal \<Rightarrow> fit_frame \<Rightarrow> install_fault + fit_frame \<times> seconds" where
  "cas_frame w s2 pr f =
     (case chosen pr of [] \<Rightarrow> Inl IndexFault
      | c # cs \<Rightarrow>
          let lead = insertion_lead f c - cand_cue c in
          abort_if (window f - frame_total f c cs < 0) STATUS_UNSAFE ''safety_budget_not_met'' (
          abort_if (lead < INSERTION_LEAD_SECONDS) STATUS_UNSAFE ''insertion_too_soon'' (
          bindR (evaluate_for w (fresh_reads w) s2) (\<lambda>fresh.
          abort_if (status fresh \<noteq> STATUS_PROPOSED) STATUS_STALE (''candidate_revalidation:'' @ proposal_status_text (status fresh)) (
          abort_if (selection_signature fresh \<noteq> selection_signature pr) STATUS_STALE ''candidate_selection_changed'' (
          Inr (f, lead)))))))"

definition cas_placement :: "install_world \<Rightarrow> snapshot \<Rightarrow> proposal \<Rightarrow> placement \<Rightarrow> projection \<Rightarrow> install_fault + fit_frame \<times> seconds" where
  "cas_placement w s2 pr pl0 p =
     (let pl = assess_placement s2 (requests (cas_reads w)) in
      abort_if ((mode pl, anchor_log_item pl) \<noteq> (mode pl0, anchor_log_item pl0))
        (if mode pl = None then NO_ANCHOR else STATUS_STALE) (''placement_changed:'' @ placement_reason pl) (
      bindR (of_refill (build_fit_frame s2 (or_zero (window_seconds p)) pl TRANSITION_ALLOWANCE_SECONDS (Some safety_budget))) (\<lambda>frame.
      case frame of
        None \<Rightarrow> Inl (Abort NO_ANCHOR [Because ''anchor_not_in_committed_sequence''])
      | Some f \<Rightarrow> cas_frame w s2 pr f)))"

definition same_proof :: "boundary \<Rightarrow> boundary \<Rightarrow> bool" where
  "same_proof b c \<longleftrightarrow> (kind b, instant b, proof_source b) = (kind c, instant c, proof_source c)"

definition cas_one :: "install_world \<Rightarrow> snapshot \<Rightarrow> snapshot \<Rightarrow> proposal \<Rightarrow> install_fault + fit_frame \<times> seconds" where
  "cas_one w s1 s2 pr =
     abort_if (engine_instance s2 \<noteq> engine_instance s1) STATUS_STALE ''engine_instance_changed'' (
     abort_if (active_log_id s2 \<noteq> active_log_id s1) STATUS_STALE ''active_log_changed'' (
     abort_if (digest_hash w (digest_payload s2) \<noteq> digest_hash w (digest_payload s1)) STATUS_STALE ''queue_or_deck_changed'' (
     case (projection_of pr, placement_of pr) of
       (Some p0, Some pl0) \<Rightarrow>
         (case proof_of_boundary p0 of
            None \<Rightarrow> Inl (Refill AttributeError)
          | Some before \<Rightarrow>
              abort_if (\<not> same_proof (boundary_read (cas_reads w)) before) STATUS_STALE ''boundary_changed'' (
              bindR (of_refill (project_refill (world_zone w) (digest_hash w) s2 (causes_read (cas_reads w))
                (Some (boundary_read (cas_reads w))) TRANSITION_ALLOWANCE_SECONDS)) (\<lambda>p.
              guardR (outcome p = OUTCOME_ELIGIBLE) (Abort (Carried (Abstained (outcome p))) (reasons p)) (
              abort_if (map cause_pk (qualified_causes p) \<noteq> map cause_pk (qualified_causes p0)) STATUS_STALE ''cause_set_changed'' (
              bindR (install_permitted (host_armed w) False (cas_policy w) (cause_types p)) (\<lambda>ok.
              abort_if (\<not> ok) STATUS_POLICY_REFUSED ''not_permitted_for_cause_types'' (
              cas_placement w s2 pr pl0 p)))))))
     | _ \<Rightarrow> Inl (Refill AttributeError))))"


section \<open>The database\<close>

record stored_item =
  si_id :: int
  si_log :: int
  si_position :: int
  si_track :: "int option"
  si_category :: "int option"
  si_claimed :: bool
  si_played :: bool
  si_scheduled :: int
  si_title :: utext
  si_artist :: utext
  si_origin :: string

record track_now =
  now_ready :: bool
  now_blocked :: "nat list"
  now_cue :: "seconds option"
  now_next :: "seconds option"
  now_duration :: "seconds option"
  now_path :: utext
  now_title :: utext
  now_artist :: "utext option"
  now_category :: "int option"
  now_related :: utext
  now_holidays :: "string list"

record log_head =
  head_status :: string
  head_date :: int
  head_hour :: int

record ledger_entry =
  entry_id :: int
  install_key :: utext
  ledger_log :: int
  ledger_date :: int
  ledger_hour :: int
  ledger_causes :: "int option list"
  ledger_mode :: "placement_mode option"
  ledger_anchor :: "int option"
  ledger_items :: "int list"
  ledger_tracks :: "int list"
  ledger_net :: seconds
  ledger_residual :: seconds
  ledger_budget :: seconds
  ledger_engine :: utext
  ledger_digest :: utext

record station_db =
  log_heads :: "int \<rightharpoonup> log_head"
  stored_items :: "stored_item list"
  ledger :: "ledger_entry list"
  db_policy :: policy_read
  tracks_now :: "int \<rightharpoonup> track_now"
  kind_codes :: "int \<rightharpoonup> string"
  additional_pairs :: "(int \<times> int) list"
  active_holidays :: "string list"
  requested_tracks :: "int list"
  request_slots :: "int list"
  request_intros :: "int list"

definition rows_of :: "int \<Rightarrow> stored_item list \<Rightarrow> stored_item list" where
  "rows_of l its = sort_key si_position (filter (\<lambda>r. si_log r = l) its)"

definition aired :: "stored_item \<Rightarrow> bool" where
  "aired r \<longleftrightarrow> si_claimed r \<or> si_played r"

section \<open>The checks under the lock\<close>

definition lock_problem :: "string option \<Rightarrow> install_fault + unit" where
  "lock_problem err =
     (case err of None \<Rightarrow> Inr ()
      | Some code \<Rightarrow> Inl (Abort STATUS_LOCK_CONTENDED [Because
          (if code \<in> set LOCK_ERRORS then ''lock_timeout_or_deadlock'' else ''database_operational_error'')]))"

definition expected_rows :: "snapshot \<Rightarrow> (int \<times> int option \<times> int option \<times> int option) list" where
  "expected_rows s = map (\<lambda>it. (log_item_id it, item_position it, track_id it, category_id it)) (queue s)"

definition visible_rows :: "snapshot \<Rightarrow> int \<Rightarrow> stored_item list \<Rightarrow> stored_item list" where
  "visible_rows s l rows = filter (\<lambda>r. (l, si_id r) \<notin> poison_skip s) rows"

text \<open>From the lock of the log to the rows as the engine saw them.\<close>

definition check_log :: "install_world \<Rightarrow> snapshot \<Rightarrow> projection \<Rightarrow> utext \<Rightarrow> int \<Rightarrow> station_db \<Rightarrow> install_fault + stored_item list" where
  "check_log w s p key l db =
     bindR (lock_problem (log_lock_error w)) (\<lambda>_.
     case log_heads db l of None \<Rightarrow> Inl DoesNotExist
     | Some head \<Rightarrow>
         bindR (lock_problem (policy_lock_error w)) (\<lambda>_.
         bindR (install_permitted (host_armed w) True (db_policy db) (cause_types p)) (\<lambda>ok.
         abort_if (\<not> ok) STATUS_POLICY_REFUSED ''policy_changed_before_commit'' (
         abort_if (key \<in> install_key ` set (ledger db)) STATUS_DUPLICATE ''install_key_exists'' (
         abort_if ((head_status head, Some (head_date head), Some (head_hour head)) \<noteq> (''approved'', active_log_date s, active_log_hour s))
           STATUS_STALE ''log_changed'' (
         let rows = rows_of l (stored_items db); seen = visible_rows s l rows in
         abort_if (map (\<lambda>r. (si_id r, Some (si_position r), si_track r, si_category r)) seen \<noteq> expected_rows s)
           STATUS_STALE ''rows_changed'' (
         abort_if (list_ex (\<lambda>r. aired r \<and> si_id r \<in> log_item_id ` set (pending_rows s)) seen) STATUS_STALE ''engine_advanced'' (
         Inr rows))))))))"

text \<open>The hours of the week that the window touches.\<close>

function slots_from :: "int \<Rightarrow> int \<Rightarrow> nat list \<Rightarrow> nat list" where
  "slots_from c e acc =
     (if c < e then
        let k = hour_key_of c; slot = weekday (fst k) * 24 + nat (snd k)
        in slots_from (c + HOUR) e (if slot \<in> set acc then acc else acc @ [slot])
      else acc)"
  by pat_completeness auto
termination by (relation "Wellfounded.measure (\<lambda>(c, e, _). nat (e - c))") (auto simp: HOUR_def)

declare slots_from.simps [simp del]

definition window_slots :: "zone \<Rightarrow> int \<Rightarrow> int \<Rightarrow> nat list" where
  "window_slots z from_instant to_instant = slots_from (hour_wall (hour_key_of (wall_at z from_instant))) (wall_at z to_instant) []"

definition now_end :: "track_now \<Rightarrow> seconds option" where
  "now_end t = (case now_next t of None \<Rightarrow> now_duration t | Some n \<Rightarrow> Some n)"

definition track_problem :: "install_world \<Rightarrow> station_db \<Rightarrow> nat list \<Rightarrow> string \<Rightarrow> candidate \<Rightarrow> string option" where
  "track_problem w db slots expected_kind c =
     (let t = tracks_now db (cand_track c) in
      if kind_codes db (cand_category c) \<noteq> Some expected_kind then Some ''category_changed''
      else case t of None \<Rightarrow> Some ''track_changed''
      | Some t \<Rightarrow>
          if now_category t \<noteq> Some (cand_category c) \<and> (cand_track c, cand_category c) \<notin> set (additional_pairs db)
          then Some ''category_membership_changed''
          else if set slots \<inter> set (now_blocked t) \<noteq> {} then Some ''track_restricted''
          else if \<not> now_ready t \<or> now_path t \<noteq> filepath c \<or> or_zero (now_cue t) \<noteq> cand_cue c \<or> now_end t \<noteq> Some (cand_end c)
          then Some ''track_changed''
          else if track_identity_keys (case_fold w) (case now_artist t of None \<Rightarrow> [] | Some a \<Rightarrow> a) (now_related t) \<noteq> identity_keys c
          then Some ''track_identity_changed'' else None)"

definition expected_kinds :: "proposal \<Rightarrow> (string \<times> candidate) list" where
  "expected_kinds pr = map (Pair ''music'') (music pr) @ (case psa pr of None \<Rightarrow> [] | Some c \<Rightarrow> [(''spot'', c)])"

definition holiday_tagged :: "station_db \<Rightarrow> int \<Rightarrow> bool" where
  "holiday_tagged db i \<longleftrightarrow> (case tracks_now db i of None \<Rightarrow> False | Some t \<Rightarrow> list_ex (\<lambda>h. h \<in> set (active_holidays db)) (now_holidays t))"

definition check_tracks :: "install_world \<Rightarrow> station_db \<Rightarrow> nat list \<Rightarrow> proposal \<Rightarrow> install_fault + unit" where
  "check_tracks w db slots pr =
     (case List.map_filter (\<lambda>(k, c). track_problem w db slots k c) (expected_kinds pr) of
        why # _ \<Rightarrow> Inl (Abort STATUS_STALE [Because why])
      | [] \<Rightarrow>
          abort_if (list_ex (holiday_tagged db) (map cand_track (chosen pr))) STATUS_STALE ''track_holiday_changed'' (
          abort_if (list_ex (\<lambda>t. t \<in> set (requested_tracks db)) (map cand_track (chosen pr))) STATUS_STALE ''track_requested'' (
          Inr ())))"

section \<open>The gap\<close>

text \<open>
  One row moves to its new position, which no other row of its log may have (\<^verbatim>\<open>unique_together\<close>); a statement
  moves the rows its WHERE clause chose, in some order.
\<close>

definition shift_row :: "int \<Rightarrow> int \<Rightarrow> stored_item list \<Rightarrow> stored_item list option" where
  "shift_row i delta its =
     (case filter (\<lambda>r. si_id r = i) its of
        [] \<Rightarrow> Some its
      | r # _ \<Rightarrow>
          if list_ex (\<lambda>q. si_id q \<noteq> i \<and> si_log q = si_log r \<and> si_position q = si_position r + delta) its then None
          else Some (map (\<lambda>q. if si_id q = i then q\<lparr>si_position := si_position q + delta\<rparr> else q) its))"

fun shift_rows :: "int list \<Rightarrow> int \<Rightarrow> stored_item list \<Rightarrow> stored_item list option" where
  "shift_rows [] delta its = Some its"
| "shift_rows (i # ids) delta its = Option.bind (shift_row i delta its) (shift_rows ids delta)"

definition in_order :: "int list \<Rightarrow> int list \<Rightarrow> int list" where
  "in_order order ids = remdups (filter (\<lambda>i. i \<in> set ids) order) @ filter (\<lambda>i. i \<notin> set order) ids"

definition shift_from :: "int list \<Rightarrow> int \<Rightarrow> int \<Rightarrow> int \<Rightarrow> stored_item list \<Rightarrow> stored_item list option" where
  "shift_from order l start delta its =
     shift_rows (in_order order (map si_id (filter (\<lambda>r. si_log r = l \<and> start \<le> si_position r) its))) delta its"

definition integrity :: "'a option \<Rightarrow> install_fault + 'a" where
  "integrity x = (case x of None \<Rightarrow> Inl (Abort STATUS_DUPLICATE [Because ''integrity_conflict'']) | Some a \<Rightarrow> Inr a)"

definition drop_until :: "int \<Rightarrow> int list \<Rightarrow> int list" where
  "drop_until a = dropWhile (\<lambda>i. i \<noteq> a)"

definition open_gap ::
  "install_world \<Rightarrow> station_db \<Rightarrow> int \<Rightarrow> stored_item list \<Rightarrow> placement \<Rightarrow> snapshot \<Rightarrow> nat \<Rightarrow> install_fault + stored_item list \<times> int list" where
  "open_gap w db l rows pl s k =
     (case anchor_log_item pl of
        None \<Rightarrow> Inl (Abort NO_ANCHOR [Because ''anchor_missing''])
      | Some a \<Rightarrow>
          (case dropWhile (\<lambda>r. si_id r \<noteq> a) rows of
             [] \<Rightarrow> Inl (Abort NO_ANCHOR [Because ''anchor_missing''])
           | r # rest \<Rightarrow>
               let closing = r # rest; snapshot_ids = map log_item_id (queue s) in
               abort_if (a \<notin> set snapshot_ids \<or> map si_id closing \<noteq> drop_until a snapshot_ids) NO_ANCHOR ''closing_block_changed'' (
               abort_if (list_ex aired closing) NO_ANCHOR ''closing_block_claimed'' (
               abort_if (list_ex (\<lambda>r. si_id r \<in> set (request_slots db) \<union> set (request_intros db)) closing)
                 NO_ANCHOR ''closing_block_request_link'' (
               bindR (integrity (shift_from (shift_order w) l (si_position r) SHIFT_OFFSET (stored_items db))) (\<lambda>its.
               bindR (integrity (shift_from (unshift_order w) l (si_position r + SHIFT_OFFSET) (int k - SHIFT_OFFSET) its)) (\<lambda>its'.
               Inr (its', map (\<lambda>i. si_position r + int i) [0..<k]))))))))"

definition append_tail :: "station_db \<Rightarrow> stored_item list \<Rightarrow> placement \<Rightarrow> nat \<Rightarrow> install_fault + stored_item list \<times> int list" where
  "append_tail db rows pl k =
     abort_if (rows = [] \<or> Some (si_id (last rows)) \<noteq> after_log_item pl) STATUS_STALE ''tail_changed'' (
     Inr (stored_items db, map (\<lambda>i. si_position (last rows) + 1 + int i) [0..<k]))"

section \<open>The rows and the ledger\<close>

definition micros_of :: "seconds \<Rightarrow> int" where
  "micros_of x = round_even (x * 1000000)"

fun scheduled_times :: "int \<Rightarrow> candidate list \<Rightarrow> int list" where
  "scheduled_times start [] = []"
| "scheduled_times start (c # cs) = start # scheduled_times (start + micros_of (cand_effective c)) cs"

definition new_row :: "station_db \<Rightarrow> int \<Rightarrow> int \<Rightarrow> int \<Rightarrow> int \<Rightarrow> candidate \<Rightarrow> stored_item" where
  "new_row db l i position start c =
     (let t = the (tracks_now db (cand_track c)) in
      \<lparr>si_id = i, si_log = l, si_position = position, si_track = Some (cand_track c), si_category = Some (cand_category c),
       si_claimed = False, si_played = False, si_scheduled = start, si_title = now_title t,
       si_artist = (case now_artist t of None \<Rightarrow> [] | Some a \<Rightarrow> a), si_origin = ORIGIN_REFILL_INSTALLED\<rparr>)"

definition new_rows :: "install_world \<Rightarrow> station_db \<Rightarrow> int \<Rightarrow> int list \<Rightarrow> int \<Rightarrow> candidate list \<Rightarrow> stored_item list" where
  "new_rows w db l positions start cs =
     map (\<lambda>(i, position, at_time, c). new_row db l (new_item_id w i) position at_time c)
       (zip [0..<length cs] (zip positions (zip (scheduled_times start cs) cs)))"

fun create_rows :: "stored_item list \<Rightarrow> stored_item list \<Rightarrow> stored_item list option" where
  "create_rows [] its = Some its"
| "create_rows (r # rs) its =
     (if list_ex (\<lambda>q. si_log q = si_log r \<and> si_position q = si_position r) its then None else create_rows rs (its @ [r]))"

definition ledger_row ::
  "install_world \<Rightarrow> utext \<Rightarrow> int \<Rightarrow> log_head \<Rightarrow> snapshot \<Rightarrow> proposal \<Rightarrow> projection \<Rightarrow> placement \<Rightarrow> fit_frame \<Rightarrow> candidate \<Rightarrow> candidate list
     \<Rightarrow> int list \<Rightarrow> ledger_entry" where
  "ledger_row w key l head s pr p pl f c cs ids =
     \<lparr>entry_id = new_ledger_id w, install_key = key, ledger_log = l, ledger_date = head_date head, ledger_hour = head_hour head,
      ledger_causes = map cause_pk (qualified_causes p), ledger_mode = mode pl, ledger_anchor = anchor_log_item pl,
      ledger_items = ids, ledger_tracks = map cand_track (chosen pr), ledger_net = or_zero (net_shortage p),
      ledger_residual = ms (window f - frame_total f c cs), ledger_budget = reserve f (length (chosen pr)),
      ledger_engine = engine_instance s, ledger_digest = digest_hash w (digest_payload s)\<rparr>"

record install_result =
  res_status :: install_status
  res_reasons :: "refill_reason list"
  res_key :: utext
  res_ledger :: "int option"
  res_log :: "int option"
  res_mode :: "placement_mode option"
  res_anchor :: "int option"
  res_items :: "int list"
  res_tracks :: "int list"
  res_net :: "seconds option"
  res_residual :: "seconds option"
  res_budget :: "seconds option"
  res_lead :: "seconds option"
  res_proposal :: "proposal_status option"

definition only_status :: "install_status \<Rightarrow> refill_reason list \<Rightarrow> install_result" where
  "only_status st rs = \<lparr>res_status = st, res_reasons = rs, res_key = [], res_ledger = None, res_log = None, res_mode = None,
     res_anchor = None, res_items = [], res_tracks = [], res_net = None, res_residual = None, res_budget = None, res_lead = None,
     res_proposal = None\<rparr>"

definition installed_result :: "ledger_entry \<Rightarrow> seconds \<Rightarrow> install_result" where
  "installed_result e lead = \<lparr>res_status = STATUS_INSTALLED, res_reasons = [Because ''committed''], res_key = install_key e,
     res_ledger = Some (entry_id e), res_log = Some (ledger_log e), res_mode = ledger_mode e, res_anchor = ledger_anchor e,
     res_items = ledger_items e, res_tracks = ledger_tracks e, res_net = Some (ledger_net e),
     res_residual = Some (ledger_residual e), res_budget = Some (ledger_budget e), res_lead = Some (ms lead),
     res_proposal = Some STATUS_PROPOSED\<rparr>"

section \<open>The transaction\<close>

definition write_rows ::
  "install_world \<Rightarrow> snapshot \<Rightarrow> proposal \<Rightarrow> projection \<Rightarrow> placement \<Rightarrow> fit_frame \<Rightarrow> seconds \<Rightarrow> utext \<Rightarrow> int \<Rightarrow> station_db
     \<Rightarrow> stored_item list \<times> int list \<Rightarrow> candidate \<Rightarrow> candidate list \<Rightarrow> install_fault + station_db \<times> install_result" where
  "write_rows w s pr p pl f lead key l db gap c cs =
     (let rows = new_rows w db l (snd gap) (captured_at s + micros_of (insertion_lead f c)) (c # cs);
          entry = ledger_row w key l (the (log_heads db l)) s pr p pl f c cs (map si_id rows) in
      bindR (integrity (create_rows rows (fst gap))) (\<lambda>its.
      abort_if (commit_age w > MAX_COMMIT_AGE_SECONDS) STATUS_STALE ''snapshot_too_old_at_commit'' (
      Inr (db\<lparr>stored_items := its, ledger := ledger db @ [entry]\<rparr>, installed_result entry lead))))"

definition commit ::
  "install_world \<Rightarrow> snapshot \<Rightarrow> proposal \<Rightarrow> fit_frame \<Rightarrow> seconds \<Rightarrow> station_db \<Rightarrow> install_fault + station_db \<times> install_result" where
  "commit w s pr f lead db =
     (case (projection_of pr, placement_of pr, active_log_id s, chosen pr) of
        (Some p, Some pl, Some l, c # cs) \<Rightarrow>
          bindR (of_refill (install_key_for (key_hash w) l (map cause_pk (qualified_causes p)))) (\<lambda>key.
          bindR (check_log w s p key l db) (\<lambda>rows.
          case Option.bind (proof_of_boundary p) instant of None \<Rightarrow> Inl (Refill AttributeError)
          | Some takeover \<Rightarrow>
              bindR (check_tracks w db (window_slots (world_zone w) (captured_at s) takeover) pr) (\<lambda>_.
              bindR (if mode pl = Some InsertBefore then open_gap w db l rows pl s (length (chosen pr))
                     else append_tail db rows pl (length (chosen pr))) (\<lambda>gap.
              write_rows w s pr p pl f lead key l db gap c cs))))
      | (_, _, None, _) \<Rightarrow> Inl DoesNotExist
      | (_, _, _, []) \<Rightarrow> Inl IndexFault
      | _ \<Rightarrow> Inl (Refill AttributeError))"

section \<open>The attempt\<close>

definition aborted :: "snapshot \<Rightarrow> proposal \<Rightarrow> install_fault \<Rightarrow> install_fault + install_result" where
  "aborted s pr e =
     (case e of Abort st rs \<Rightarrow> Inr ((only_status st rs)\<lparr>res_log := active_log_id s,
          res_net := Option.bind (projection_of pr) net_shortage, res_proposal := Some (status pr)\<rparr>)
      | _ \<Rightarrow> Inl e)"

definition guarded_commit :: "install_world \<Rightarrow> snapshot \<Rightarrow> snapshot \<Rightarrow> proposal \<Rightarrow> station_db \<Rightarrow> install_fault + station_db \<times> install_result" where
  "guarded_commit w s1 s2 pr db =
     abort_if (list_ex (\<lambda>c. \<not> media_present w (filepath c)) (chosen pr)) STATUS_STALE ''media_missing'' (
     bindR (cas_one w s1 s2 pr) (\<lambda>(f, lead).
     abort_if (engine_stopping w) STATUS_STALE ''engine_stopping_before_transaction'' (commit w s2 pr f lead db)))"

text \<open>\<^verbatim>\<open>_attempt\<close> after its count: the texts of a proposal that was not made are left out.\<close>

definition attempt_proposal :: "install_world \<Rightarrow> snapshot \<Rightarrow> station_db \<Rightarrow> (install_fault + install_result) \<times> station_db" where
  "attempt_proposal w s1 db =
     (case evaluate_for w (first_reads w) s1 of
        Inl e \<Rightarrow> (Inl e, db)
      | Inr pr \<Rightarrow>
          if status pr \<noteq> STATUS_PROPOSED
          then (Inr ((only_status (Carried (status pr)) [])\<lparr>res_log := active_log_id s1,
                  res_net := Option.bind (projection_of pr) net_shortage, res_proposal := Some (status pr)\<rparr>), db)
          else case second_snapshot w of
            None \<Rightarrow> (Inr (only_status STATUS_SNAPSHOT_UNAVAILABLE []), db)
          | Some s2 \<Rightarrow>
              (case guarded_commit w s1 s2 pr db of
                 Inl e \<Rightarrow> (aborted s2 pr e, db)
               | Inr (db', r) \<Rightarrow> (Inr r, db')))"

definition attempt_body :: "install_world \<Rightarrow> coordinator \<Rightarrow> station_db \<Rightarrow> (install_fault + install_result) \<times> station_db \<times> coordinator" where
  "attempt_body w c db =
     (case first_snapshot w of
        None \<Rightarrow> (Inr (only_status STATUS_SNAPSHOT_UNAVAILABLE []), db, c)
      | Some s1 \<Rightarrow>
          (case active_log_id s1 of
             None \<Rightarrow> let (out, db') = attempt_proposal w s1 db in (out, db', c)
           | Some l \<Rightarrow>
               let (within_limit, c') = count_attempt l c in
               if \<not> within_limit then (Inr ((only_status STATUS_ATTEMPT_LIMIT [])\<lparr>res_log := Some l\<rparr>), db, c')
               else let (out, db') = attempt_proposal w s1 db in (out, db', c')))"

definition adopted_of :: "install_fault + install_result \<Rightarrow> (int \<times> int list) option" where
  "adopted_of out =
     (case out of Inl _ \<Rightarrow> None
      | Inr r \<Rightarrow> if res_status r = STATUS_INSTALLED then map_option (\<lambda>l. (l, res_items r)) (res_log r) else None)"

text \<open>
  \<^verbatim>\<open>attempt\<close>; the last arguments are the engine as the reservation sees it, and what the other threads do to
  the coordinator before the attempt is counted and before it is released.
\<close>

definition install_attempt ::
  "install_world \<Rightarrow> bool \<Rightarrow> int option \<Rightarrow> int list \<Rightarrow> (coordinator \<Rightarrow> coordinator) \<Rightarrow> nat \<Rightarrow> coordinator \<Rightarrow> station_db
     \<Rightarrow> (install_fault + install_result) \<times> station_db \<times> coordinator" where
  "install_attempt w busy current items others token c db =
     (case install_permitted (host_armed w) False (first_policy w) [] of
        Inl e \<Rightarrow> (Inl e, db, c)
      | Inr False \<Rightarrow> (Inr (only_status STATUS_DRY_RUN_ONLY [Because ''hour_refill_policy_dry_run_only_or_off'']), db, c)
      | Inr True \<Rightarrow>
          (case reserve_refill busy current items token c of
             (Some refused, c') \<Rightarrow> (Inr (only_status refused []), db, c')
           | (None, c1) \<Rightarrow>
               let (out, db', c2) = attempt_body w (others c1) db
               in (out, db', release_refill token (adopted_of out) (others c2))))"

end
