(* ===== verification/Refill_Gap.thy ===== *)
theory Refill_Gap
  imports Refill_Install
begin

text \<open>
  What an installed refill does to the log: the rows in play order before and after it. The gap
  opens without two rows of the log ever having the same position, in whatever order the database visits
  the rows.
\<close>

section \<open>Shifting rows\<close>

definition moved :: "int set \<Rightarrow> int \<Rightarrow> stored_item \<Rightarrow> stored_item" where
  "moved S delta q = (if si_id q \<in> S then q\<lparr>si_position := si_position q + delta\<rparr> else q)"

lemma moved_simps [simp]:
  "si_id (moved S delta q) = si_id q" "si_log (moved S delta q) = si_log q" "moved {} delta q = q"
  "si_position (moved S delta q) = (if si_id q \<in> S then si_position q + delta else si_position q)"
  by (simp_all add: moved_def)

lemma moved_step: "i \<notin> S \<Longrightarrow> (if si_id (moved S delta q) = i then (moved S delta q)\<lparr>si_position := si_position (moved S delta q) + delta\<rparr>
    else moved S delta q) = moved (insert i S) delta q"
  by (auto simp: moved_def)

text \<open>Ids are keys, and a position of a log holds one row.\<close>

definition unique_rows :: "stored_item list \<Rightarrow> bool" where
  "unique_rows its \<longleftrightarrow> distinct (map si_id its) \<and> distinct (map (\<lambda>r. (si_log r, si_position r)) its)"

definition no_clash :: "int set \<Rightarrow> int \<Rightarrow> stored_item list \<Rightarrow> bool" where
  "no_clash H delta its \<longleftrightarrow> (\<forall>r\<in>set its. si_id r \<in> H \<longrightarrow> (\<forall>q\<in>set its. si_log q = si_log r \<longrightarrow> si_position q \<noteq> si_position r + delta))"

lemma filter_key:
  "distinct (map f xs) \<Longrightarrow> x \<in> set xs \<Longrightarrow> filter (\<lambda>y. f y = f x) xs = [x]"
  by (induction xs) (auto simp: filter_empty_conv, metis imageI)

lemma same_place: "unique_rows its \<Longrightarrow> q \<in> set its \<Longrightarrow> r \<in> set its \<Longrightarrow> si_log q = si_log r \<Longrightarrow> si_position q = si_position r \<Longrightarrow> q = r"
  unfolding unique_rows_def by (metis (mono_tags, lifting) distinct_map inj_onD)

lemma shift_row_moved:
  assumes "unique_rows its" and "no_clash H delta its" and "i \<in> H" and "i \<notin> S" and "S \<subseteq> H" and "i \<in> si_id ` set its"
  shows "shift_row i delta (map (moved S delta) its) = Some (map (moved (insert i S) delta) its)"
proof -
  obtain r where r: "r \<in> set its" "si_id r = i" using assms(6) by auto
  have "filter (\<lambda>q. si_id q = i) its = [r]"
    using filter_key [of si_id its r] assms(1) r by (simp add: unique_rows_def)
  then have row: "filter (\<lambda>q. si_id q = i) (map (moved S delta) its) = [moved S delta r]"
    by (simp add: filter_map o_def)
  have free: "\<not> (si_id q \<noteq> i \<and> si_log q = si_log r \<and> si_position (moved S delta q) = si_position r + delta)" if q: "q \<in> set its" for q
  proof (cases "si_id q \<in> S")
    case True
    then show ?thesis using same_place [OF assms(1) q r(1)] r(2) by auto
  next
    case False
    then show ?thesis using assms(2,3) q r by (auto simp: no_clash_def)
  qed
  then have "\<not> list_ex (\<lambda>q. si_id q \<noteq> i \<and> si_log q = si_log (moved S delta r) \<and> si_position q = si_position (moved S delta r) + delta)
      (map (moved S delta) its)"
    using r(2) assms(4) by (auto simp: list_ex_iff)
  then show ?thesis
    using assms(4) by (simp only: shift_row_def row list.case if_False option.inject list.map_comp) (simp add: o_def moved_step del: moved_simps)
qed

lemma shift_rows_moved:
  assumes "unique_rows its" and "no_clash H delta its"
  shows "distinct ids \<Longrightarrow> set ids \<subseteq> H \<Longrightarrow> set ids \<subseteq> si_id ` set its \<Longrightarrow> S \<subseteq> H \<Longrightarrow> set ids \<inter> S = {}
    \<Longrightarrow> shift_rows ids delta (map (moved S delta) its) = Some (map (moved (S \<union> set ids) delta) its)"
proof (induction ids arbitrary: S)
  case (Cons i ids)
  have "shift_row i delta (map (moved S delta) its) = Some (map (moved (insert i S) delta) its)"
    using Cons.prems by (intro shift_row_moved [OF assms]) auto
  moreover have "shift_rows ids delta (map (moved (insert i S) delta) its) = Some (map (moved (insert i S \<union> set ids) delta) its)"
    using Cons.prems by (intro Cons.IH) auto
  ultimately show ?case by simp
qed simp

lemma in_order_set: "set (in_order order ids) = set ids"
  by (auto simp: in_order_def)

lemma in_order_distinct: "distinct ids \<Longrightarrow> distinct (in_order order ids)"
  by (auto simp: in_order_def)

text \<open>The rows of a log from a position on, pushed back: one statement, whatever the order.\<close>

definition pushed :: "int \<Rightarrow> int \<Rightarrow> int \<Rightarrow> stored_item \<Rightarrow> stored_item" where
  "pushed l start delta q = (if si_log q = l \<and> start \<le> si_position q then q\<lparr>si_position := si_position q + delta\<rparr> else q)"

lemma pushed_simps [simp]:
  "si_id (pushed l start delta q) = si_id q" "si_log (pushed l start delta q) = si_log q"
  "si_position (pushed l start delta q) = (if si_log q = l \<and> start \<le> si_position q then si_position q + delta else si_position q)"
  by (simp_all add: pushed_def)

lemma pushed_other: "si_log q \<noteq> l \<or> si_position q < start \<Longrightarrow> pushed l start delta q = q"
  by (auto simp: pushed_def)

lemma shift_from_pushed:
  assumes "unique_rows its"
    and clear: "\<And>r q. r \<in> set its \<Longrightarrow> q \<in> set its \<Longrightarrow> si_log r = l \<Longrightarrow> si_log q = l \<Longrightarrow> start \<le> si_position r
      \<Longrightarrow> si_position q \<noteq> si_position r + delta"
  shows "shift_from order l start delta its = Some (map (pushed l start delta) its)"
proof -
  let ?hit = "filter (\<lambda>r. si_log r = l \<and> start \<le> si_position r) its"
  let ?ids = "in_order order (map si_id ?hit)"
  have key: "si_id r \<in> si_id ` set ?hit \<longleftrightarrow> si_log r = l \<and> start \<le> si_position r" if "r \<in> set its" for r
  proof -
    have "q = r" if "q \<in> set its" "si_id q = si_id r" for q
      using assms(1) that \<open>r \<in> set its\<close> unfolding unique_rows_def by (metis (mono_tags, lifting) distinct_map inj_onD)
    then show ?thesis using that by auto
  qed
  have "no_clash (set ?ids) delta its"
    unfolding no_clash_def using clear key by (auto simp: in_order_set)
  moreover have "distinct ?ids"
    using assms(1) by (intro in_order_distinct) (simp add: unique_rows_def distinct_map_filter)
  ultimately have "shift_rows ?ids delta (map (moved {} delta) its) = Some (map (moved ({} \<union> set ?ids) delta) its)"
    by (intro shift_rows_moved [OF assms(1)]) (auto simp: in_order_set)
  moreover have "moved (set ?ids) delta q = pushed l start delta q" if "q \<in> set its" for q
    using key [OF that] by (simp add: in_order_set moved_def pushed_def)
  ultimately show ?thesis by (simp add: shift_from_def cong: map_cong)
qed

text \<open>The two passes together.\<close>

definition roomy :: "int \<Rightarrow> int \<Rightarrow> stored_item list \<Rightarrow> bool" where
  "roomy l k its \<longleftrightarrow> (\<forall>r\<in>set its. si_log r = l \<longrightarrow> 0 \<le> si_position r \<and> si_position r + k < SHIFT_OFFSET)"

lemma pushed_unique:
  assumes "unique_rows its" and "0 \<le> delta"
  shows "unique_rows (map (pushed l a delta) its)"
proof -
  have "x = y" if "x \<in> set its" "y \<in> set its" "si_log x = si_log y" "si_position (pushed l a delta x) = si_position (pushed l a delta y)" for x y
    using same_place [OF assms(1) that(1-3)] that(3,4) assms(2) by (simp split: if_splits)
  then have "inj_on (\<lambda>r. (si_log r, si_position (pushed l a delta r))) (set its)"
    by (auto simp: inj_on_def simp del: pushed_simps(3))
  then show ?thesis
    using assms(1) by (simp add: unique_rows_def distinct_map o_def del: pushed_simps(3))
qed

lemma pushed_twice:
  assumes "0 \<le> si_position q" and "si_position q < SHIFT_OFFSET \<or> si_log q \<noteq> l" and "0 \<le> a"
  shows "pushed l (a + SHIFT_OFFSET) (k - SHIFT_OFFSET) (pushed l a SHIFT_OFFSET q) = pushed l a k q"
  using assms by (cases "si_log q = l"; cases "a \<le> si_position q") (simp_all add: pushed_def)

lemma two_passes:
  assumes "unique_rows its" and "roomy l k its" and "0 \<le> a" and "0 \<le> k"
  shows "\<exists>its'. shift_from order l a SHIFT_OFFSET its = Some its'
    \<and> shift_from order' l (a + SHIFT_OFFSET) (k - SHIFT_OFFSET) its' = Some (map (pushed l a k) its)"
proof -
  let ?up = "map (pushed l a SHIFT_OFFSET) its"
  have range: "0 \<le> si_position r" "si_position r + k < SHIFT_OFFSET" if "r \<in> set its" "si_log r = l" for r
    using assms(2) that by (simp_all add: roomy_def)
  have first: "shift_from order l a SHIFT_OFFSET its = Some ?up"
  proof (rule shift_from_pushed [OF assms(1)])
    fix r q assume "r \<in> set its" "q \<in> set its" "si_log r = l" "si_log q = l"
    then show "si_position q \<noteq> si_position r + SHIFT_OFFSET" using range(1) [of r] range(2) [of q] assms(4) by auto
  qed
  have "unique_rows ?up" by (rule pushed_unique [OF assms(1)]) (simp add: SHIFT_OFFSET_def)
  then have "shift_from order' l (a + SHIFT_OFFSET) (k - SHIFT_OFFSET) ?up
      = Some (map (pushed l (a + SHIFT_OFFSET) (k - SHIFT_OFFSET)) ?up)"
  proof (rule shift_from_pushed)
    fix r q assume rq: "r \<in> set ?up" "q \<in> set ?up" "si_log r = l" "si_log q = l" "a + SHIFT_OFFSET \<le> si_position r"
    then obtain r0 q0 where r0: "r0 \<in> set its" "r = pushed l a SHIFT_OFFSET r0" and q0: "q0 \<in> set its" "q = pushed l a SHIFT_OFFSET q0"
      by auto
    have logs: "si_log r0 = l" "si_log q0 = l" using rq r0 q0 by simp_all
    have up: "a \<le> si_position r0" "si_position r = si_position r0 + SHIFT_OFFSET"
      using rq(5) r0 logs range(2) [OF r0(1) logs(1)] assms(3,4) by (auto split: if_splits)
    show "si_position q \<noteq> si_position r + (k - SHIFT_OFFSET)"
      using up q0 logs range(2) [OF r0(1) logs(1)] range(1) [OF q0(1) logs(2)] assms(4) by (auto split: if_splits)
  qed
  moreover have "pushed l (a + SHIFT_OFFSET) (k - SHIFT_OFFSET) (pushed l a SHIFT_OFFSET q) = pushed l a k q" if "q \<in> set its" for q
  proof (cases "si_log q = l")
    case True
    then show ?thesis using range [OF that True] assms(3,4) by (intro pushed_twice) auto
  qed (simp add: pushed_def)
  ultimately show ?thesis using first by auto
qed

section \<open>Play order\<close>

lemma strictly_ordered:
  assumes "unique_rows its"
  shows "sorted_wrt (<) (map si_position (rows_of l its))"
proof -
  have "inj_on si_position (set (filter (\<lambda>r. si_log r = l) its))"
    using same_place [OF assms] by (auto simp: inj_on_def)
  moreover have "distinct (filter (\<lambda>r. si_log r = l) its)"
    using assms by (auto simp: unique_rows_def distinct_map)
  ultimately have "distinct (map si_position (rows_of l its))"
    by (simp add: rows_of_def distinct_map)
  moreover have "sorted (map si_position (rows_of l its))" by (simp add: rows_of_def)
  ultimately show ?thesis by (simp add: strict_sorted_iff)
qed

lemma rows_of_other: "m \<noteq> l \<Longrightarrow> list_all (\<lambda>r. si_log r = l) news \<Longrightarrow> rows_of m (map (pushed l a k) its @ news) = rows_of m its"
proof -
  assume m: "m \<noteq> l" and news: "list_all (\<lambda>r. si_log r = l) news"
  have "filter (\<lambda>r. si_log r = m) news = []" using m news by (auto simp: filter_empty_conv list_all_iff)
  moreover have "filter (\<lambda>r. si_log r = m) (map (pushed l a k) its) = filter (\<lambda>r. si_log r = m) its"
    using m by (induction its) (auto simp: pushed_def)
  ultimately show ?thesis by (simp add: rows_of_def)
qed

lemma rows_of_spliced:
  assumes unique: "unique_rows its" and rows: "rows_of l its = pre @ post"
    and pre: "\<And>r. r \<in> set pre \<Longrightarrow> si_position r < a" and post: "\<And>r. r \<in> set post \<Longrightarrow> a \<le> si_position r"
    and news: "map si_position news = map (\<lambda>i. a + int i) [0..<n]" "list_all (\<lambda>r. si_log r = l) news"
  shows "rows_of l (map (pushed l a (int n)) its @ news) = pre @ news @ map (pushed l a (int n)) post"
proof -
  let ?ys = "pre @ news @ map (pushed l a (int n)) post" and ?xs = "filter (\<lambda>r. si_log r = l) (map (pushed l a (int n)) its @ news)"
  have logs: "si_log r = l" if "r \<in> set pre \<union> set post" for r
  proof -
    have "r \<in> set (rows_of l its)" using that rows by auto
    then show ?thesis by (simp add: rows_of_def)
  qed
  have "mset (pre @ post) = mset (filter (\<lambda>r. si_log r = l) its)"
    using rows [symmetric] by (simp add: rows_of_def del: mset_filter)
  then have "image_mset (pushed l a (int n)) (mset (filter (\<lambda>r. si_log r = l) its))
      = mset (map (pushed l a (int n)) pre) + mset (map (pushed l a (int n)) post)"
    by (metis image_mset_union mset_append mset_map)
  moreover have "map (pushed l a (int n)) pre = pre"
    using pre by (intro map_idI pushed_other) auto
  moreover have "filter (\<lambda>r. si_log r = l) (map (pushed l a (int n)) its) = map (pushed l a (int n)) (filter (\<lambda>r. si_log r = l) its)"
    by (simp add: filter_map o_def)
  moreover have "filter (\<lambda>r. si_log r = l) news = news"
    using news(2) by (auto simp: list_all_iff intro: filter_True)
  ultimately have same: "mset ?xs = mset ?ys"
    by (simp only: filter_append mset_append mset_map union_ac)
  have strict: "sorted_wrt (<) (map si_position (pre @ post))"
    using strictly_ordered [OF unique, of l] rows by simp
  have behind: "map si_position (map (pushed l a (int n)) post) = map (\<lambda>p. p + int n) (map si_position post)"
    using logs post by simp
  have "sorted_wrt (<) (map si_position ?ys)"
  proof -
    have "sorted_wrt (<) (map (\<lambda>i. a + int i) [0..<n])" by (simp add: sorted_wrt_map)
    moreover have "sorted_wrt (<) (map (\<lambda>p. p + int n) (map si_position post))"
      using strict by (simp add: sorted_wrt_map sorted_wrt_append)
    ultimately show ?thesis
      using strict pre post unfolding map_append behind news(1)
      by (fastforce simp: sorted_wrt_append)
  qed
  then have "sorted (map si_position ?ys)" "distinct (map si_position ?ys)"
    by (simp_all only: strict_sorted_iff)
  moreover have "set ?xs = set ?ys" using same by (metis set_mset_mset)
  ultimately show ?thesis
    unfolding rows_of_def using same by (intro sort_key_inj_key_eq) (simp_all only: distinct_map)
qed

lemma create_rows_unique:
  "distinct (map (\<lambda>r. (si_log r, si_position r)) (its @ rs)) \<Longrightarrow> create_rows rs its = Some (its @ rs)"
proof (induction rs arbitrary: its)
  case (Cons r rs)
  have "\<not> list_ex (\<lambda>q. si_log q = si_log r \<and> si_position q = si_position r) its"
  proof -
    have "(si_log r, si_position r) \<notin> (\<lambda>r. (si_log r, si_position r)) ` set its" using Cons.prems by simp
    then show ?thesis by (simp add: list_ex_iff image_iff) metis
  qed
  then show ?case using Cons.IH [of "its @ [r]"] Cons.prems by simp
qed simp

lemma scheduled_times_length [simp]: "length (scheduled_times start cs) = length cs"
  by (induction cs arbitrary: start) auto

lemma new_row_fields [simp]:
  "si_position (new_row db l i p t c) = p" "si_id (new_row db l i p t c) = i" "si_log (new_row db l i p t c) = l"
  "si_track (new_row db l i p t c) = Some (cand_track c)" "si_category (new_row db l i p t c) = Some (cand_category c)"
  "si_origin (new_row db l i p t c) = ORIGIN_REFILL_INSTALLED" "\<not> aired (new_row db l i p t c)"
  by (simp_all add: new_row_def aired_def Let_def)

lemma new_rows_length [simp]: "length positions = length cs \<Longrightarrow> length (new_rows w db l positions start cs) = length cs"
  by (simp add: new_rows_def)

lemma new_rows_nth:
  "length positions = length cs \<Longrightarrow> i < length cs \<Longrightarrow>
    new_rows w db l positions start cs ! i = new_row db l (new_item_id w i) (positions ! i) (scheduled_times start cs ! i) (cs ! i)"
  by (simp add: new_rows_def)

lemma new_rows_fields:
  assumes "length positions = length cs"
  shows "map si_position (new_rows w db l positions start cs) = positions"
    "map si_track (new_rows w db l positions start cs) = map (\<lambda>c. Some (cand_track c)) cs"
    "map si_category (new_rows w db l positions start cs) = map (\<lambda>c. Some (cand_category c)) cs"
    "map si_id (new_rows w db l positions start cs) = map (new_item_id w) [0..<length cs]"
    "list_all (\<lambda>r. si_log r = l \<and> si_origin r = ORIGIN_REFILL_INSTALLED \<and> \<not> aired r) (new_rows w db l positions start cs)"
  by (rule nth_equalityI; simp add: assms new_rows_nth)+ (simp add: list_all_length assms new_rows_nth)

lemma spliced_places:
  assumes unique: "unique_rows its"
    and news: "map si_position news = map (\<lambda>i. a + int i) [0..<n]" "list_all (\<lambda>r. si_log r = l) news"
  shows "distinct (map (\<lambda>r. (si_log r, si_position r)) (map (pushed l a (int n)) its @ news))"
proof -
  let ?its = "map (pushed l a (int n)) its" and ?place = "\<lambda>r. (si_log r, si_position r)"
  have "distinct (map ?place ?its)"
    using pushed_unique [OF unique, of "int n" l a] by (simp only: unique_rows_def of_nat_0_le_iff simp_thms)
  then have "inj_on ?place (set ?its)" "distinct ?its" by (simp_all only: distinct_map)
  moreover have "distinct (map si_position news)" using news(1) by (simp add: distinct_map inj_on_def)
  then have "distinct (map ?place news)" by (auto simp: distinct_map inj_on_def)
  moreover have "?place q \<noteq> ?place r" if "q \<in> set ?its" "r \<in> set news" for q r
  proof -
    have "si_position r \<in> set (map si_position news)" "si_log r = l" using that(2) news(2) by (auto simp: list_all_iff)
    then show ?thesis using that(1) unfolding news(1) by (auto split: if_splits)
  qed
  ultimately show "distinct (map ?place (?its @ news))"
    by (simp only: map_append distinct_append distinct_map set_map) blast
qed

lemma spliced_rows_created:
  assumes "unique_rows its" and "map si_position news = map (\<lambda>i. a + int i) [0..<n]" "list_all (\<lambda>r. si_log r = l) news"
  shows "create_rows news (map (pushed l a (int n)) its) = Some (map (pushed l a (int n)) its @ news)"
  by (rule create_rows_unique [OF spliced_places [OF assms]])

section \<open>The transaction, taken apart\<close>

lemma abort_if_Inr: "abort_if bad st why k = Inr x \<longleftrightarrow> \<not> bad \<and> k = Inr x"
  by (simp add: abort_if_def guardR_eq_Inr)

lemma integrity_Inr: "integrity x = Inr a \<longleftrightarrow> x = Some a"
  by (simp add: integrity_def split: option.splits)

lemma of_refill_Inr: "of_refill m = Inr a \<longleftrightarrow> m = Inr a"
  by (cases m) (simp_all add: of_refill_def)

lemma check_logD:
  assumes "check_log w s p key l db = Inr rows"
  obtains head where "log_heads db l = Some head" "head_status head = ''approved''" "active_log_date s = Some (head_date head)"
    "active_log_hour s = Some (head_hour head)" "install_permitted (host_armed w) True (db_policy db) (cause_types p) = Inr True"
    "key \<notin> install_key ` set (ledger db)" "rows = rows_of l (stored_items db)"
    "map (\<lambda>r. (si_id r, Some (si_position r), si_track r, si_category r)) (visible_rows s l rows) = expected_rows s"
    "\<not> list_ex (\<lambda>r. aired r \<and> si_id r \<in> log_item_id ` set (pending_rows s)) (visible_rows s l rows)"
  using assms by (auto simp: check_log_def bindR_eq_Inr abort_if_Inr Let_def split: option.splits)

lemma check_tracksD:
  assumes "check_tracks w db slots pr = Inr u"
  shows "list_all (\<lambda>(k, c). track_problem w db slots k c = None) (expected_kinds pr)"
    "list_all (\<lambda>c. \<not> holiday_tagged db (cand_track c) \<and> cand_track c \<notin> set (requested_tracks db)) (chosen pr)"
  using assms
  by (auto simp: check_tracks_def abort_if_Inr no_closer_problem list_all_iff list_ex_iff split: list.splits)

lemma open_gapD:
  assumes "open_gap w db l rows pl s k = Inr (its', ps)" and rows: "rows = rows_of l (stored_items db)"
    and unique: "unique_rows (stored_items db)" and roomy: "roomy l (int k) (stored_items db)"
  obtains pre r rest where "rows = pre @ r # rest" "anchor_log_item pl = Some (si_id r)"
    "its' = map (pushed l (si_position r) (int k)) (stored_items db)" "ps = map (\<lambda>i. si_position r + int i) [0..<k]"
    "\<not> list_ex aired (r # rest)" "\<not> list_ex (\<lambda>q. si_id q \<in> set (request_slots db) \<union> set (request_intros db)) (r # rest)"
proof -
  obtain a where a: "anchor_log_item pl = Some a" using assms(1) by (auto simp: open_gap_def split: option.splits)
  obtain r rest where r: "dropWhile (\<lambda>r. si_id r \<noteq> a) rows = r # rest"
    using assms(1) by (auto simp: open_gap_def a split: list.splits)
  have row: "rows = takeWhile (\<lambda>r. si_id r \<noteq> a) rows @ r # rest" "si_id r = a"
    using dropWhile_decomp [OF r] by simp_all
  have "r \<in> set (rows_of l (stored_items db))" using row(1) rows by (metis in_set_conv_decomp)
  then have "0 \<le> si_position r" using roomy by (auto simp: rows_of_def roomy_def)
  then obtain its1 where passes: "shift_from (shift_order w) l (si_position r) SHIFT_OFFSET (stored_items db) = Some its1"
    "shift_from (unshift_order w) l (si_position r + SHIFT_OFFSET) (int k - SHIFT_OFFSET) its1
      = Some (map (pushed l (si_position r) (int k)) (stored_items db))"
    using two_passes [OF unique roomy] by fastforce
  have "\<not> list_ex aired (r # rest) \<and> \<not> list_ex (\<lambda>q. si_id q \<in> set (request_slots db) \<union> set (request_intros db)) (r # rest)
      \<and> its' = map (pushed l (si_position r) (int k)) (stored_items db) \<and> ps = map (\<lambda>i. si_position r + int i) [0..<k]"
    using assms(1) by (simp add: open_gap_def a r abort_if_Inr bindR_eq_Inr integrity_Inr passes Let_def)
  then show ?thesis using that row a by metis
qed

lemma append_tailD:
  assumes "append_tail db rows pl k = Inr (its', ps)"
  shows "rows \<noteq> []" "after_log_item pl = Some (si_id (last rows))" "its' = stored_items db"
    "ps = map (\<lambda>i. si_position (last rows) + 1 + int i) [0..<k]"
  using assms by (auto simp: append_tail_def abort_if_Inr)

lemma commitD:
  assumes "commit w s pr f lead db = Inr (db', r)"
  obtains p pl l c cs key rows takeover its' ps its'' head where
    "projection_of pr = Some p" "placement_of pr = Some pl" "active_log_id s = Some l" "chosen pr = c # cs"
    "install_key_for (key_hash w) l (map cause_pk (qualified_causes p)) = Inr key"
    "check_log w s p key l db = Inr rows" "log_heads db l = Some head" "Option.bind (proof_of_boundary p) instant = Some takeover"
    "check_tracks w db (window_slots (world_zone w) (captured_at s) takeover) pr = Inr ()"
    "(if mode pl = Some InsertBefore then open_gap w db l rows pl s (Suc (length cs)) else append_tail db rows pl (Suc (length cs)))
      = Inr (its', ps)"
    "create_rows (new_rows w db l ps (captured_at s + micros_of (insertion_lead f c)) (c # cs)) its' = Some its''"
    "commit_age w \<le> MAX_COMMIT_AGE_SECONDS"
    "db' = db\<lparr>stored_items := its'', ledger := ledger db @ [ledger_row w key l head s pr p pl f c cs
        (map si_id (new_rows w db l ps (captured_at s + micros_of (insertion_lead f c)) (c # cs)))]\<rparr>"
    "r = installed_result (ledger_row w key l head s pr p pl f c cs
        (map si_id (new_rows w db l ps (captured_at s + micros_of (insertion_lead f c)) (c # cs)))) lead"
proof -
  obtain p pl l c cs where parts: "projection_of pr = Some p" "placement_of pr = Some pl" "active_log_id s = Some l" "chosen pr = c # cs"
    using assms by (auto simp: commit_def split: option.splits list.splits)
  obtain key rows where key: "install_key_for (key_hash w) l (map cause_pk (qualified_causes p)) = Inr key"
    and rows: "check_log w s p key l db = Inr rows"
    using assms by (auto simp: commit_def parts bindR_eq_Inr of_refill_Inr split: option.splits)
  obtain head where head: "log_heads db l = Some head" using rows by (rule check_logD)
  obtain takeover where takeover: "Option.bind (proof_of_boundary p) instant = Some takeover"
    using assms by (auto simp: commit_def parts key rows of_refill_def split: option.splits)
  have k: "length (chosen pr) = Suc (length cs)" by (simp add: parts)
  obtain its' ps where checks: "check_tracks w db (window_slots (world_zone w) (captured_at s) takeover) pr = Inr ()"
    and gap0: "(if mode pl = Some InsertBefore then open_gap w db l rows pl s (length (chosen pr)) else append_tail db rows pl (length (chosen pr)))
      = Inr (its', ps)"
    and written: "write_rows w s pr p pl f lead key l db (its', ps) c cs = Inr (db', r)"
    using assms by (auto simp: commit_def parts key rows takeover of_refill_def bindR_eq_Inr)
  note gap = gap0 [unfolded k]
  obtain its'' where "create_rows (new_rows w db l ps (captured_at s + micros_of (insertion_lead f c)) (c # cs)) its' = Some its''"
    "commit_age w \<le> MAX_COMMIT_AGE_SECONDS"
    "db' = db\<lparr>stored_items := its'', ledger := ledger db @ [ledger_row w key l head s pr p pl f c cs
        (map si_id (new_rows w db l ps (captured_at s + micros_of (insertion_lead f c)) (c # cs)))]\<rparr>"
    "r = installed_result (ledger_row w key l head s pr p pl f c cs
        (map si_id (new_rows w db l ps (captured_at s + micros_of (insertion_lead f c)) (c # cs)))) lead"
    using written by (auto simp: write_rows_def Let_def bindR_eq_Inr integrity_Inr abort_if_Inr head)
  then show ?thesis using that parts key rows head takeover checks gap by blast
qed

section \<open>The refill in its place\<close>

definition row_unique_room :: "station_db \<Rightarrow> int \<Rightarrow> bool" where
  "row_unique_room db k \<longleftrightarrow> unique_rows (stored_items db)
     \<and> list_all (\<lambda>r. 0 \<le> si_position r \<and> si_position r + k < SHIFT_OFFSET) (stored_items db)"

definition spliced :: "int \<Rightarrow> station_db \<Rightarrow> station_db \<Rightarrow> install_result \<Rightarrow> bool" where
  "spliced l db db' r \<longleftrightarrow> (\<exists>pre post news. rows_of l (stored_items db) = pre @ post
     \<and> (\<exists>a. rows_of l (stored_items db') = pre @ news @ map (pushed l a (int (length news))) post)
     \<and> map si_id news = res_items r \<and> map si_track news = map Some (res_tracks r) \<and> news \<noteq> []
     \<and> list_all (\<lambda>q. si_log q = l \<and> si_origin q = ORIGIN_REFILL_INSTALLED \<and> \<not> aired q) news
     \<and> \<not> list_ex aired post
     \<and> (if res_mode r = Some InsertBefore then map_option si_id (case post of [] \<Rightarrow> None | q # _ \<Rightarrow> Some q) = res_anchor r \<and> post \<noteq> []
        else post = []))"

lemma commit_spliced:
  assumes ran: "commit w s pr f lead db = Inr (db', r)" and room: "row_unique_room db (int (length (chosen pr)))"
  shows "\<exists>l. active_log_id s = Some l \<and> res_log r = Some l \<and> spliced l db db' r
    \<and> distinct (map (\<lambda>q. (si_log q, si_position q)) (stored_items db'))"
    and "\<exists>l. active_log_id s = Some l \<and> (\<forall>m. m \<noteq> l \<longrightarrow> rows_of m (stored_items db') = rows_of m (stored_items db))"
proof -
  obtain p pl l c cs key rows takeover its' ps its'' head where
    parts: "projection_of pr = Some p" "placement_of pr = Some pl" "active_log_id s = Some l" "chosen pr = c # cs"
    and rows: "check_log w s p key l db = Inr rows"
    and gap: "(if mode pl = Some InsertBefore then open_gap w db l rows pl s (Suc (length cs)) else append_tail db rows pl (Suc (length cs)))
      = Inr (its', ps)"
    and created: "create_rows (new_rows w db l ps (captured_at s + micros_of (insertion_lead f c)) (c # cs)) its' = Some its''"
    and db': "db' = db\<lparr>stored_items := its'', ledger := ledger db @ [ledger_row w key l head s pr p pl f c cs
        (map si_id (new_rows w db l ps (captured_at s + micros_of (insertion_lead f c)) (c # cs)))]\<rparr>"
    and r: "r = installed_result (ledger_row w key l head s pr p pl f c cs
        (map si_id (new_rows w db l ps (captured_at s + micros_of (insertion_lead f c)) (c # cs)))) lead"
    using ran by (rule commitD)
  let ?its = "stored_items db" and ?k = "Suc (length cs)"
  let ?news = "new_rows w db l ps (captured_at s + micros_of (insertion_lead f c)) (c # cs)"
  have all: "rows = rows_of l ?its" using rows by (rule check_logD)
  have unique: "unique_rows ?its" and roomy: "roomy l (int ?k) ?its"
    using room by (auto simp: row_unique_room_def roomy_def list_all_iff parts)
  have strict: "sorted_wrt (<) (map si_position rows)" using strictly_ordered [OF unique] all by simp
  obtain pre post a where cut: "rows = pre @ post" "its' = map (pushed l a (int ?k)) ?its" "ps = map (\<lambda>i. a + int i) [0..<?k]"
    "\<not> list_ex aired post"
    "if mode pl = Some InsertBefore then map_option si_id (case post of [] \<Rightarrow> None | q # _ \<Rightarrow> Some q) = anchor_log_item pl \<and> post \<noteq> []
     else post = []"
    and before: "\<And>q. q \<in> set pre \<Longrightarrow> si_position q < a" and after: "\<And>q. q \<in> set post \<Longrightarrow> a \<le> si_position q"
  proof (cases "mode pl = Some InsertBefore")
    case True
    then have "open_gap w db l rows pl s ?k = Inr (its', ps)" using gap by simp
    from open_gapD [OF this all unique roomy] obtain pre q rest where o: "rows = pre @ q # rest" "anchor_log_item pl = Some (si_id q)"
      "its' = map (pushed l (si_position q) (int ?k)) ?its" "ps = map (\<lambda>i. si_position q + int i) [0..<?k]" "\<not> list_ex aired (q # rest)"
      by blast
    have "\<And>x. x \<in> set pre \<Longrightarrow> si_position x < si_position q" "\<And>x. x \<in> set (q # rest) \<Longrightarrow> si_position q \<le> si_position x"
      using strict by (auto simp: o(1) sorted_wrt_append intro: less_imp_le)
    then show ?thesis using that [of pre "q # rest" "si_position q"] o True by simp
  next
    case False
    then have "append_tail db rows pl ?k = Inr (its', ps)" using gap by simp
    note t = append_tailD [OF this]
    have le: "\<And>x. x \<in> set rows \<Longrightarrow> si_position x < si_position (last rows) + 1"
    proof -
      fix x assume x: "x \<in> set rows"
      have "rows = butlast rows @ [last rows]" using t(1) by simp
      then have "sorted_wrt (<) (map si_position (butlast rows @ [last rows]))" using strict by simp
      moreover have "x \<in> set (butlast rows) \<or> x = last rows" using x t(1) by (metis append_butlast_last_id in_set_conv_decomp rotate1.simps(2) set_ConsD set_rotate1)
      ultimately show "si_position x < si_position (last rows) + 1" by (auto simp: sorted_wrt_append)
    qed
    have "pushed l (si_position (last rows) + 1) (int ?k) x = x" if "x \<in> set ?its" for x
      using le [of x] that all by (cases "si_log x = l") (auto simp: rows_of_def pushed_def)
    then have "its' = map (pushed l (si_position (last rows) + 1) (int ?k)) ?its" using t(3) by (simp add: map_idI)
    then show ?thesis using that [of rows "[]" "si_position (last rows) + 1"] t(4) le False by simp
  qed
  have len: "length ps = length (c # cs)" by (simp add: cut(3))
  note fields = new_rows_fields [OF len, where w = w and db = db and l = l and start = "captured_at s + micros_of (insertion_lead f c)"]
  have news: "map si_position ?news = map (\<lambda>i. a + int i) [0..<?k]" "list_all (\<lambda>q. si_log q = l) ?news"
    using fields(1) cut(3) fields(5) by (auto simp: list_all_iff)
  have its'': "its'' = map (pushed l a (int ?k)) ?its @ ?news"
    using spliced_rows_created [OF unique news] created cut(2) by simp
  have own: "rows_of l its'' = pre @ ?news @ map (pushed l a (int ?k)) post"
    unfolding its'' by (rule rows_of_spliced [OF unique cut(1) [unfolded all] before after news])
  have result: "res_log r = Some l" "res_items r = map si_id ?news" "res_tracks r = map cand_track (c # cs)" "res_mode r = mode pl"
    "res_anchor r = anchor_log_item pl"
    by (simp_all add: r installed_result_def ledger_row_def parts)
  have "spliced l db db' r"
    unfolding spliced_def using cut(1,4,5) own result fields(2,5) len
    by (intro exI [of _ pre] exI [of _ post] exI [of _ ?news]) (auto simp: db' all)
  moreover have "distinct (map (\<lambda>q. (si_log q, si_position q)) its'')"
    unfolding its'' by (rule spliced_places [OF unique news])
  ultimately show "\<exists>l. active_log_id s = Some l \<and> res_log r = Some l \<and> spliced l db db' r
      \<and> distinct (map (\<lambda>q. (si_log q, si_position q)) (stored_items db'))"
    using parts(3) result(1) by (simp add: db')
  show "\<exists>l. active_log_id s = Some l \<and> (\<forall>m. m \<noteq> l \<longrightarrow> rows_of m (stored_items db') = rows_of m (stored_items db))"
    using parts(3) rows_of_other [OF _ news(2)] by (auto simp: db' its'')
qed

end
