(* ===== verification/Refill_Guard.thy ===== *)
theory Refill_Guard
  imports Refill_Gap
begin

text \<open>
  What a committed refill has been checked for: the attempt taken apart, its guards at the second
  snapshot and under the lock, and the ledger that keeps a set of causes from being refilled twice.
\<close>

section \<open>Reported and committed\<close>

text \<open>No abort carries the status of an install.\<close>

definition never_installed :: "install_fault + 'a \<Rightarrow> bool" where
  "never_installed m \<longleftrightarrow> (case m of Inl (Abort st _) \<Rightarrow> st \<noteq> STATUS_INSTALLED | _ \<Rightarrow> True)"

named_theorems honest "outcomes that never claim an install"

lemma honest_values [honest]:
  "never_installed (Inr x)" "never_installed (Inl (Refill e))" "never_installed (Inl DoesNotExist)" "never_installed (Inl IndexFault)"
  "never_installed (of_refill m)" "never_installed (install_permitted armed atomic rd types)" "never_installed (integrity y)"
  "never_installed (lock_problem err)"
  by (cases m; simp add: never_installed_def of_refill_def install_permitted_def integrity_def lock_problem_def
      split: policy_read.splits option.splits)+

lemma honest_abort [honest]: "st \<noteq> STATUS_INSTALLED \<Longrightarrow> never_installed (Inl (Abort st why))"
  by (simp add: never_installed_def)

lemma honest_abort_if [honest]: "st \<noteq> STATUS_INSTALLED \<Longrightarrow> never_installed k \<Longrightarrow> never_installed (abort_if bad st why k)"
  by (auto simp: never_installed_def abort_if_def guardR_def)

lemma honest_guard [honest]: "st \<noteq> STATUS_INSTALLED \<Longrightarrow> never_installed k \<Longrightarrow> never_installed (guardR ok (Abort st why) k)"
  by (auto simp: never_installed_def guardR_def)

lemma honest_bind [honest]: "never_installed m \<Longrightarrow> (\<And>a. never_installed (f a)) \<Longrightarrow> never_installed (bindR m f)"
  by (cases m) (auto simp: never_installed_def split: install_fault.splits)

lemma statuses_differ [simp]: "STATUS_UNSAFE \<noteq> STATUS_INSTALLED" "NO_ANCHOR \<noteq> STATUS_INSTALLED"
  by (simp_all add: STATUS_UNSAFE_def NO_ANCHOR_def)

lemma honest_cas_frame [honest]: "never_installed (cas_frame w s2 pr f)"
  by (cases "chosen pr") (auto simp: cas_frame_def evaluate_for_def Let_def intro!: honest)

lemma honest_cas_placement [honest]: "never_installed (cas_placement w s2 pr pl0 p)"
  by (auto simp: cas_placement_def Let_def intro!: honest split: option.splits)

lemma honest_cas_one [honest]: "never_installed (cas_one w s1 s2 pr)"
  by (auto simp: cas_one_def intro!: honest split: option.splits)

lemma honest_check_log [honest]: "never_installed (check_log w s p key l db)"
  by (auto simp: check_log_def Let_def intro!: honest split: option.splits)

lemma honest_check_tracks [honest]: "never_installed (check_tracks w db slots pr)"
  by (auto simp: check_tracks_def intro!: honest split: list.splits)

lemma honest_gap [honest]: "never_installed (open_gap w db l rows pl s k)" "never_installed (append_tail db rows pl k)"
  by (auto simp: open_gap_def append_tail_def Let_def intro!: honest split: option.splits list.splits)

lemma honest_write [honest]: "never_installed (write_rows w s pr p pl f lead key l db gap c cs)"
  by (auto simp: write_rows_def Let_def intro!: honest)

lemma honest_commit [honest]: "never_installed (commit w s pr f lead db)"
  by (auto simp: commit_def intro!: honest split: option.splits list.splits)

lemma honest_guarded_commit [honest]: "never_installed (guarded_commit w s1 s2 pr db)"
  by (auto simp: guarded_commit_def intro!: honest)

lemma commit_reports: "commit w s pr f lead db = Inr (db', r) \<Longrightarrow> res_status r = STATUS_INSTALLED"
  by (erule commitD) (simp add: installed_result_def)

lemma aborted_not_installed: "never_installed (Inl e :: install_fault + 'a) \<Longrightarrow> aborted s pr e = Inr r \<Longrightarrow> res_status r \<noteq> STATUS_INSTALLED"
  by (cases e) (auto simp: aborted_def never_installed_def only_status_def)

text \<open>The commit inside an attempt.\<close>

definition commits ::
  "install_world \<Rightarrow> station_db \<Rightarrow> station_db \<Rightarrow> install_result \<Rightarrow> snapshot \<Rightarrow> snapshot \<Rightarrow> proposal \<Rightarrow> fit_frame \<Rightarrow> seconds \<Rightarrow> bool" where
  "commits w db db' r s1 s2 pr f lead \<longleftrightarrow>
     first_snapshot w = Some s1 \<and> second_snapshot w = Some s2 \<and> evaluate_for w (first_reads w) s1 = Inr pr \<and> status pr = STATUS_PROPOSED
     \<and> cas_one w s1 s2 pr = Inr (f, lead) \<and> list_all (\<lambda>c. media_present w (filepath c)) (chosen pr) \<and> \<not> engine_stopping w
     \<and> commit w s2 pr f lead db = Inr (db', r)"

lemma attempt_proposal_cases:
  assumes "attempt_proposal w s1 db = (out, db')" and "first_snapshot w = Some s1"
  shows "db' = db \<and> (\<forall>r. out = Inr r \<longrightarrow> res_status r \<noteq> STATUS_INSTALLED)
    \<or> (\<exists>r s2 pr f lead. out = Inr r \<and> commits w db db' r s1 s2 pr f lead)"
proof (cases "evaluate_for w (first_reads w) s1")
  case (Inl e)
  then show ?thesis using assms(1) by (auto simp: attempt_proposal_def)
next
  case (Inr pr)
  show ?thesis
  proof (cases "status pr = STATUS_PROPOSED \<and> second_snapshot w \<noteq> None")
    case False
    then show ?thesis using assms(1) Inr by (auto simp: attempt_proposal_def only_status_def split: if_splits option.splits)
  next
    case True
    then obtain s2 where s2: "second_snapshot w = Some s2" and pr: "status pr = STATUS_PROPOSED" by auto
    show ?thesis
    proof (cases "guarded_commit w s1 s2 pr db")
      case (Inl e)
      have "never_installed (Inl e :: install_fault + station_db \<times> install_result)" using honest_guarded_commit Inl by metis
      then show ?thesis using assms(1) Inr s2 pr Inl aborted_not_installed by (auto simp: attempt_proposal_def)
    next
      case (Inr x)
      then have "\<exists>f lead. cas_one w s1 s2 pr = Inr (f, lead) \<and> list_all (\<lambda>c. media_present w (filepath c)) (chosen pr)
          \<and> \<not> engine_stopping w \<and> commit w s2 pr f lead db = Inr x"
        by (auto simp: guarded_commit_def abort_if_Inr bindR_eq_Inr list_ex_iff list_all_iff)
      then show ?thesis
        using assms \<open>evaluate_for w (first_reads w) s1 = Inr pr\<close> s2 pr Inr by (cases x) (auto simp: attempt_proposal_def commits_def)
    qed
  qed
qed

lemma attempt_body_cases:
  assumes "attempt_body w c db = (out, db', c')"
  shows "db' = db \<and> (\<forall>r. out = Inr r \<longrightarrow> res_status r \<noteq> STATUS_INSTALLED)
    \<or> (\<exists>r s1 s2 pr f lead. out = Inr r \<and> commits w db db' r s1 s2 pr f lead)"
proof (cases "first_snapshot w")
  case None
  then show ?thesis using assms by (auto simp: attempt_body_def only_status_def)
next
  case (Some s1)
  consider (limit) "db' = db" "\<exists>l. out = Inr ((only_status STATUS_ATTEMPT_LIMIT [])\<lparr>res_log := Some l\<rparr>)"
    | (tried) "attempt_proposal w s1 db = (out, db')"
    using assms by (cases "active_log_id s1") (auto simp: attempt_body_def Some split: prod.splits if_splits)
  then show ?thesis
  proof cases
    case limit
    then show ?thesis by (auto simp: only_status_def)
  next
    case tried
    show ?thesis using attempt_proposal_cases [OF tried Some] by blast
  qed
qed

lemma reserve_refused: "reserve_refill busy current items token c = (Some st, c') \<Longrightarrow> st \<noteq> STATUS_INSTALLED"
  by (auto simp: reserve_refill_def split: if_splits prod.splits)

lemma install_attempt_cases:
  assumes "install_attempt w busy current items others token c db = (out, db', c')"
  shows "db' = db \<and> (\<forall>r. out = Inr r \<longrightarrow> res_status r \<noteq> STATUS_INSTALLED)
    \<or> (\<exists>r s1 s2 pr f lead. out = Inr r \<and> commits w db db' r s1 s2 pr f lead \<and> res_status r = STATUS_INSTALLED
        \<and> install_permitted (host_armed w) False (first_policy w) [] = Inr True)"
proof -
  consider (fault) e where "install_permitted (host_armed w) False (first_policy w) [] = Inl e"
    | (off) "install_permitted (host_armed w) False (first_policy w) [] = Inr False"
    | (on) "install_permitted (host_armed w) False (first_policy w) [] = Inr True"
    by (metis sum.exhaust_sel)
  then show ?thesis
  proof cases
    case on
    show ?thesis
    proof (cases "reserve_refill busy current items token c")
      case (Pair refused c1)
      show ?thesis
      proof (cases refused)
        case (Some st)
        then show ?thesis using assms on Pair reserve_refused [of busy current items token c st c1]
          by (auto simp: install_attempt_def only_status_def)
      next
        case None
        obtain c2 where ran: "attempt_body w (others c1) db = (out, db', c2)"
          using assms on Pair None by (auto simp: install_attempt_def split: prod.splits)
        show ?thesis using attempt_body_cases [OF ran] commit_reports on unfolding commits_def by blast
      qed
    qed
  qed (use assms in \<open>auto simp: install_attempt_def only_status_def\<close>)
qed

section \<open>The guards of the second snapshot\<close>

lemma cas_frameD:
  assumes "cas_frame w s2 pr f = Inr (f', lead)"
  obtains c cs fresh where "chosen pr = c # cs" "f' = f" "lead = insertion_lead f c - cand_cue c" "frame_total f c cs \<le> window f"
    "INSERTION_LEAD_SECONDS \<le> lead" "evaluate_for w (fresh_reads w) s2 = Inr fresh" "status fresh = STATUS_PROPOSED"
    "selection_signature fresh = selection_signature pr"
  using assms
  by (cases "chosen pr") (auto simp: cas_frame_def Let_def abort_if_Inr bindR_eq_Inr)

lemma cas_placementD:
  assumes "cas_placement w s2 pr pl0 p = Inr (f, lead)"
  shows "mode (assess_placement s2 (requests (cas_reads w))) = mode pl0"
    "anchor_log_item (assess_placement s2 (requests (cas_reads w))) = anchor_log_item pl0" "cas_frame w s2 pr f = Inr (f, lead)"
proof -
  have *: "mode (assess_placement s2 (requests (cas_reads w))) = mode pl0
      \<and> anchor_log_item (assess_placement s2 (requests (cas_reads w))) = anchor_log_item pl0
      \<and> (\<exists>g. cas_frame w s2 pr g = Inr (f, lead))"
    using assms by (auto simp: cas_placement_def Let_def abort_if_Inr bindR_eq_Inr of_refill_Inr split: option.splits)
  then obtain g where g: "cas_frame w s2 pr g = Inr (f, lead)" by blast
  moreover have "g = f" using g by (rule cas_frameD) simp
  ultimately show "mode (assess_placement s2 (requests (cas_reads w))) = mode pl0"
    "anchor_log_item (assess_placement s2 (requests (cas_reads w))) = anchor_log_item pl0" "cas_frame w s2 pr f = Inr (f, lead)"
    using * by simp_all
qed

lemma cas_oneD:
  assumes "cas_one w s1 s2 pr = Inr (f, lead)"
  obtains p0 pl0 p where "projection_of pr = Some p0" "placement_of pr = Some pl0" "outcome p = OUTCOME_ELIGIBLE"
    "engine_instance s2 = engine_instance s1" "active_log_id s2 = active_log_id s1"
    "digest_hash w (digest_payload s2) = digest_hash w (digest_payload s1)"
    "map cause_pk (qualified_causes p) = map cause_pk (qualified_causes p0)"
    "install_permitted (host_armed w) False (cas_policy w) (cause_types p) = Inr True"
    "cas_placement w s2 pr pl0 p = Inr (f, lead)"
  using assms
  by (auto simp: cas_one_def abort_if_Inr guardR_eq_Inr bindR_eq_Inr of_refill_Inr split: option.splits)

text \<open>A placement that exists does not depend on the requests.\<close>

lemma last_branch:
  assumes "mode (if A then a else if B then b else if C then c else case ps of p # _ \<Rightarrow> f p | [] \<Rightarrow> if D then d else r) \<noteq> None"
    and "mode a = None" "mode b = None" "mode c = None" "\<And>p. mode (f p) = None" "mode d = None"
  shows "(if A then a else if B then b else if C then c else case ps of p # _ \<Rightarrow> f p | [] \<Rightarrow> if D then d else r) = r"
  using assms by (cases ps) (auto split: if_splits)

lemma placement_determined:
  assumes "mode (assess_placement s x) \<noteq> None" and "mode (assess_placement s y) \<noteq> None"
  shows "assess_placement s x = assess_placement s y"
proof (cases "queue s = [] \<or> category_kind (last (queue s)) = None \<or> category_kind (last (queue s)) = Some ''music''")
  case True
  then show ?thesis
    by (cases "queue s = []"; cases "category_kind (last (queue s))")
      (simp_all only: assess_placement_def Let_def if_True if_False option.simps simp_thms)
next
  case False
  define r where "r = \<lparr>mode = Some InsertBefore, placement_reason = ''protected_closing_block'', after_log_item = None,
    anchor_log_item = Some (log_item_id (queue s ! closing_index (queue s))), start_position = item_position (queue s ! closing_index (queue s))\<rparr>"
  have "assess_placement s z = r" if "mode (assess_placement s z) \<noteq> None" for z
    using that False unfolding assess_placement_def Let_def r_def
    by (simp only: if_False de_Morgan_disj not_False_eq_True simp_thms) (rule last_branch; simp add: nowhere_def)
  then show ?thesis using assms by metis
qed

lemma mode_proposed: "evaluate_for w R s = Inr pr \<Longrightarrow> status pr = STATUS_PROPOSED \<Longrightarrow> mode (assess_placement s (requests R)) \<noteq> None"
  unfolding evaluate_for_def of_refill_Inr by (drule (1) proposal_fits) blast

lemma placement_of_propose: "placement_of (propose R s policy p pl f usable common) = placement_of common"
  by (simp add: propose_def Let_def split: prod.splits)

lemma placement_proposed:
  assumes "evaluate_for w R s = Inr pr" and "status pr = STATUS_PROPOSED"
  shows "placement_of pr = Some (assess_placement s (requests R))"
proof -
  have "evaluate_hour_refill (world_zone w) (digest_hash w) R s True (psa_residual w) (Some safety_budget) = Inr pr"
    using assms(1) by (simp add: evaluate_for_def of_refill_Inr)
  then obtain p where "proposal_from R s (psa_residual w) (Some safety_budget) p = Inr pr"
    using assms(2) by (rule evaluate_proposed)
  then show ?thesis
    using assms(2) by (auto simp: proposal_from_def Let_def placement_of_propose no_proposal_def simp del: filter_empty_conv
        elim!: bindR_InrE split: option.splits if_splits)
qed

section \<open>A committed refill is safe\<close>

definition same_as_read :: "snapshot \<Rightarrow> int \<Rightarrow> station_db \<Rightarrow> bool" where
  "same_as_read s l db \<longleftrightarrow> (let seen = visible_rows s l (rows_of l (stored_items db)) in
     map (\<lambda>r. (si_id r, Some (si_position r), si_track r, si_category r)) seen = expected_rows s
     \<and> \<not> list_ex (\<lambda>r. aired r \<and> si_id r \<in> log_item_id ` set (pending_rows s)) seen)"

definition playable :: "station_db \<Rightarrow> int \<Rightarrow> bool" where
  "playable db t \<longleftrightarrow> (case tracks_now db t of None \<Rightarrow> False | Some n \<Rightarrow> now_ready n)
     \<and> \<not> holiday_tagged db t \<and> t \<notin> set (requested_tracks db)"

lemma chosen_kinds: "map snd (expected_kinds pr) = chosen pr"
  by (simp add: expected_kinds_def chosen_def o_def split: option.splits)

lemma checked_playable:
  assumes "check_tracks w db slots pr = Inr ()"
  shows "list_all (playable db) (map cand_track (chosen pr))"
proof -
  have "playable db (cand_track c)" if c: "c \<in> set (chosen pr)" for c
  proof -
    obtain k where "(k, c) \<in> set (expected_kinds pr)" using c chosen_kinds [of pr] by (metis (no_types, lifting) imageE list.set_map prod.collapse)
    then have "track_problem w db slots k c = None" using check_tracksD(1) [OF assms] by (auto simp: list_all_iff)
    then have "case tracks_now db (cand_track c) of None \<Rightarrow> False | Some n \<Rightarrow> now_ready n"
      by (auto simp: track_problem_def Let_def split: if_splits option.splits)
    then show ?thesis using check_tracksD(2) [OF assms] c by (simp add: playable_def list_all_iff)
  qed
  then show ?thesis by (simp add: list_all_iff)
qed

lemma same_signature_elements:
  assumes "selection_signature x = selection_signature y"
  shows "map as_element (chosen x) = map as_element (chosen y)" "map cand_track (chosen x) = map cand_track (chosen y)"
    "length (chosen x) = length (chosen y)"
proof -
  show len: "length (chosen x) = length (chosen y)" using arg_cong [OF assms, of length] by (simp add: selection_signature_def)
  have "cand_track (chosen x ! i) = cand_track (chosen y ! i) \<and> cand_cue (chosen x ! i) = cand_cue (chosen y ! i)
      \<and> cand_end (chosen x ! i) = cand_end (chosen y ! i)" if "i < length (chosen x)" for i
    using arg_cong [OF assms, of "\<lambda>ts. ts ! i"] that len by (simp add: selection_signature_def)
  then show "map as_element (chosen x) = map as_element (chosen y)" "map cand_track (chosen x) = map cand_track (chosen y)"
    using len by (auto intro!: nth_equalityI simp: as_element_def)
qed

text \<open>
  C21. A refill that reports itself installed was safe when it was committed: with its tracks at the place the
  rows were given, the committed material of the second snapshot, each transition at its latest,
  and a reserve of five seconds and one per item still end within the window; the tracks are
  different, not committed, requested or part of a cause, and ready in the database; the log's rows were
  the snapshot's queue, nothing of it had started, the first new row was at least twenty seconds
  away, and the snapshot not older than two.
\<close>

theorem installed_refill_is_safe:
  assumes "install_attempt w busy current items others token c db = (Inr r, db', c')" and "res_status r = STATUS_INSTALLED"
  shows "\<exists>s l fresh p v d els skipped pl lead.
    second_snapshot w = Some s \<and> active_log_id s = Some l \<and> res_log r = Some l
    \<and> evaluate_for w (fresh_reads w) s = Inr fresh \<and> projection_of fresh = Some p \<and> window_seconds p = Some v
    \<and> live_decks s = [d] \<and> committed_sequence s d = Inr (els, skipped, []) \<and> pl = assess_placement s (requests (fresh_reads w))
    \<and> res_mode r = mode pl \<and> res_anchor r = anchor_log_item pl \<and> res_tracks r = map cand_track (chosen fresh)
    \<and> sum_list (sequence_runway (take (cut_at pl els) els @ map as_element (chosen fresh) @ drop (cut_at pl els) els)
        None TRANSITION_ALLOWANCE_SECONDS) + (5 + of_nat (length (res_tracks r))) \<le> v
    \<and> distinct (res_tracks r) \<and> list_all (\<lambda>t. t \<notin> hard_tracks (fresh_reads w) s (qualified_causes p) \<and> playable db t) (res_tracks r)
    \<and> same_as_read s l db \<and> res_lead r = Some (ms lead) \<and> 20 \<le> lead \<and> commit_age w \<le> 2"
proof -
  obtain s1 s pr f lead where run: "commits w db db' r s1 s pr f lead" using install_attempt_cases [OF assms(1)] assms(2) by auto
  then have s: "second_snapshot w = Some s" and cas: "cas_one w s1 s pr = Inr (f, lead)" and commit: "commit w s pr f lead db = Inr (db', r)"
    by (simp_all add: commits_def)
  obtain p0 pl q where pl0: "placement_of pr = Some pl" and place: "cas_placement w s pr pl q = Inr (f, lead)"
    using cas by (rule cas_oneD)
  obtain fresh where fresh: "evaluate_for w (fresh_reads w) s = Inr fresh" "status fresh = STATUS_PROPOSED"
      "selection_signature fresh = selection_signature pr" and lead: "INSERTION_LEAD_SECONDS \<le> lead"
    using cas_placementD(3) [OF place] by (rule cas_frameD)
  let ?pl = "assess_placement s (requests (fresh_reads w))"
  note same = same_signature_elements [OF fresh(3)]
  have fits: "evaluate_hour_refill (world_zone w) (digest_hash w) (fresh_reads w) s True (psa_residual w) (Some safety_budget) = Inr fresh"
    using fresh(1) by (simp add: evaluate_for_def of_refill_Inr)
  from proposal_fits [OF this fresh(2)] obtain p v d els skipped where p: "projection_of fresh = Some p" "window_seconds p = Some v"
    "live_decks s = [d]" "committed_sequence s d = Inr (els, skipped, [])"
    "sum_list (sequence_runway (take (cut_at ?pl els) els @ map as_element (chosen fresh) @ drop (cut_at ?pl els) els)
        None TRANSITION_ALLOWANCE_SECONDS) + safety_reserve (Some safety_budget) (length (chosen fresh)) \<le> v"
    "distinct (map cand_track (chosen fresh))" "list_all (\<lambda>c. cand_track c \<notin> hard_tracks (fresh_reads w) s (qualified_causes p)) (chosen fresh)"
    by blast
  obtain p1 pl1 l c cs key rows takeover its' ps its'' head where
    c: "placement_of pr = Some pl1" "active_log_id s = Some l" "chosen pr = c # cs"
      "check_log w s p1 key l db = Inr rows"
      "check_tracks w db (window_slots (world_zone w) (captured_at s) takeover) pr = Inr ()" "commit_age w \<le> MAX_COMMIT_AGE_SECONDS"
    and r: "r = installed_result (ledger_row w key l head s pr p1 pl1 f c cs
        (map si_id (new_rows w db l ps (captured_at s + micros_of (insertion_lead f c)) (c # cs)))) lead"
    using commit by (rule commitD)
  have result: "res_log r = Some l" "res_mode r = mode pl" "res_anchor r = anchor_log_item pl" "res_tracks r = map cand_track (chosen pr)"
    "res_lead r = Some (ms lead)"
    using c(1) pl0 by (simp_all add: r installed_result_def ledger_row_def)
  have "evaluate_for w (first_reads w) s1 = Inr pr" "status pr = STATUS_PROPOSED" using run by (simp_all add: commits_def)
  from placement_proposed [OF this] mode_proposed [OF this] have "mode pl \<noteq> None" using pl0 by simp
  then have "assess_placement s (requests (cas_reads w)) = ?pl"
    using placement_determined cas_placementD(1) [OF place] mode_proposed [OF fresh(1,2)] by metis
  then have "mode pl = mode ?pl" "anchor_log_item pl = anchor_log_item ?pl"
    using cas_placementD(1,2) [OF place] by simp_all
  moreover have "same_as_read s l db" using c(4) by (rule check_logD) (simp add: same_as_read_def Let_def)
  moreover have "list_all (\<lambda>t. t \<notin> hard_tracks (fresh_reads w) s (qualified_causes p) \<and> playable db t) (res_tracks r)"
    using p(7) checked_playable [OF c(5)] by (simp add: result same(2) [symmetric] list_all_iff)
  ultimately show ?thesis
    using s c(2,6) p fresh(1) result lead same
    by (intro exI [of _ s] exI [of _ l] exI [of _ fresh] exI [of _ p] exI [of _ v] exI [of _ d] exI [of _ els] exI [of _ skipped]
        exI [of _ ?pl] exI [of _ lead])
      (simp add: safety_reserve_def safety_budget_def MAX_COMMIT_AGE_SECONDS_def INSERTION_LEAD_SECONDS_def add.assoc)
qed

end
