(* ===== verification/Refill_Ledger.thy ===== *)
theory Refill_Ledger
  imports Refill_Guard
begin

text \<open>
  What an installed refill leaves behind: the log in play order, and the ledger, in which a set of causes of a
  log stands at most once. A sample install, evaluated, shows that the guards can all be passed.
\<close>

section \<open>The log after an install\<close>

text \<open>Opening the gap never meets the unique constraint.\<close>

lemma gap_never_conflicts:
  assumes "unique_rows (stored_items db)" and "roomy l (int k) (stored_items db)" and "rows = rows_of l (stored_items db)"
  shows "open_gap w db l rows pl s k \<noteq> Inl (Abort STATUS_DUPLICATE [Because ''integrity_conflict''])"
proof (cases "anchor_log_item pl")
  case (Some a)
  show ?thesis
  proof (cases "dropWhile (\<lambda>r. si_id r \<noteq> a) rows")
    case (Cons r rest)
    then have "r \<in> set (rows_of l (stored_items db))" using assms(3) dropWhile_decomp [OF Cons] by (metis in_set_conv_decomp)
    then have "0 \<le> si_position r" using assms(2) by (auto simp: rows_of_def roomy_def)
    then obtain its1 where passes: "shift_from (shift_order w) l (si_position r) SHIFT_OFFSET (stored_items db) = Some its1"
      "shift_from (unshift_order w) l (si_position r + SHIFT_OFFSET) (int k - SHIFT_OFFSET) its1
        = Some (map (pushed l (si_position r) (int k)) (stored_items db))"
      using two_passes [OF assms(1,2)] by fastforce
    then show ?thesis
      by (simp add: open_gap_def Some Cons passes Let_def abort_if_def guardR_def integrity_def NO_ANCHOR_def)
  next
    case Nil
    then show ?thesis unfolding open_gap_def Some option.case by (simp only: list.case) (simp add: NO_ANCHOR_def)
  qed
qed (simp add: open_gap_def NO_ANCHOR_def)

lemma commit_tracks: "commit w s pr f lead db = Inr (db', r) \<Longrightarrow> length (res_tracks r) = length (chosen pr)"
  by (erule commitD) (simp add: installed_result_def ledger_row_def)

text \<open>
  C22. An installed refill stands as one block where it was to stand, and nothing else of any log moves out of
  order: before it the earlier rows as they were, then the new rows with the tracks the result names, then the
  closing block, pushed back by as many positions, none of it started; its first row is the anchor; an
  append has nothing after it. No two rows of the database share a position, and the other logs are untouched.
\<close>

theorem install_keeps_order:
  assumes "install_attempt w busy current items others token c db = (Inr r, db', c')" and "res_status r = STATUS_INSTALLED"
    and "row_unique_room db (int (length (res_tracks r)))"
  shows "\<exists>l. res_log r = Some l \<and> spliced l db db' r \<and> distinct (map (\<lambda>q. (si_log q, si_position q)) (stored_items db'))
    \<and> (\<forall>m. m \<noteq> l \<longrightarrow> rows_of m (stored_items db') = rows_of m (stored_items db))"
proof -
  obtain s1 s pr f lead where "commits w db db' r s1 s pr f lead" using install_attempt_cases [OF assms(1)] assms(2) by auto
  then have commit: "commit w s pr f lead db = Inr (db', r)" by (simp add: commits_def)
  have "row_unique_room db (int (length (chosen pr)))" using assms(3) commit_tracks [OF commit] by simp
  from commit_spliced [OF commit this] show ?thesis by auto
qed

section \<open>The ledger\<close>

lemma canonical_ids_mset: "mset ids = mset ids' \<Longrightarrow> canonical_ids ids = canonical_ids ids'"
proof -
  assume m: "mset ids = mset ids'"
  have "ids = [None] \<longleftrightarrow> ids' = [None]" using m by (metis mset_single_iff mset_single_iff_right)
  moreover have "set ids = set ids'" using m by (rule mset_eq_setD)
  moreover have "sort (map the ids) = sort (map the ids')"
    using m by (metis mset_map sorted_list_of_multiset_mset)
  ultimately show ?thesis by (simp add: canonical_ids_def)
qed

definition ledger_sound :: "(utext \<Rightarrow> utext) \<Rightarrow> ledger_entry list \<Rightarrow> bool" where
  "ledger_sound sha led \<longleftrightarrow> distinct (map install_key led)
     \<and> list_all (\<lambda>e. install_key_for sha (ledger_log e) (ledger_causes e) = Inr (install_key e)) led"

lemma commit_ledger:
  assumes "commit w s pr f lead db = Inr (db', r)"
  obtains e where "ledger db' = ledger db @ [e]" "install_key e \<notin> install_key ` set (ledger db)"
    "install_key_for (key_hash w) (ledger_log e) (ledger_causes e) = Inr (install_key e)"
proof -
  obtain p pl l c cs key rows takeover its' ps its'' head where
    key: "install_key_for (key_hash w) l (map cause_pk (qualified_causes p)) = Inr key" and rows: "check_log w s p key l db = Inr rows"
    and db': "db' = db\<lparr>stored_items := its'', ledger := ledger db @ [ledger_row w key l head s pr p pl f c cs
        (map si_id (new_rows w db l ps (captured_at s + micros_of (insertion_lead f c)) (c # cs)))]\<rparr>"
    using assms by (rule commitD)
  have "key \<notin> install_key ` set (ledger db)" using rows by (rule check_logD)
  then show ?thesis
    using key by (intro that) (auto simp: db' ledger_row_def)
qed

lemma attempt_ledger:
  assumes "install_attempt w busy current items others token c db = (out, db', c')" and "ledger_sound (key_hash w) (ledger db)"
  shows "ledger_sound (key_hash w) (ledger db')"
proof -
  consider (unchanged) "db' = db" | (ran) s pr f lead r where "commit w s pr f lead db = Inr (db', r)"
    using install_attempt_cases [OF assms(1)] unfolding commits_def by blast
  then show ?thesis
  proof cases
    case unchanged
    then show ?thesis using assms(2) by simp
  next
    case ran
    then obtain e where "ledger db' = ledger db @ [e]" "install_key e \<notin> install_key ` set (ledger db)"
      "install_key_for (key_hash w) (ledger_log e) (ledger_causes e) = Inr (install_key e)" by (rule commit_ledger)
    then show ?thesis using assms(2) by (simp add: ledger_sound_def)
  qed
qed

text \<open>A history: attempts of any engine, and anything else that happens to the database, short of rewriting its ledger.\<close>

datatype history_event =
  Attempted install_world bool "int option" "int list" "coordinator \<Rightarrow> coordinator" nat
  | Elsewhere station_db

fun history_step :: "history_event \<Rightarrow> station_db \<times> coordinator \<Rightarrow> station_db \<times> coordinator" where
  "history_step (Attempted w busy current items others token) (db, c) = snd (install_attempt w busy current items others token c db)"
| "history_step (Elsewhere d) (db, c) = (d\<lparr>ledger := ledger db\<rparr>, c)"

fun hashes_with :: "(utext \<Rightarrow> utext) \<Rightarrow> history_event \<Rightarrow> bool" where
  "hashes_with sha (Attempted w _ _ _ _ _) \<longleftrightarrow> key_hash w = sha"
| "hashes_with sha (Elsewhere _) \<longleftrightarrow> True"

lemma history_sound:
  "list_all (hashes_with sha) es \<Longrightarrow> ledger_sound sha (ledger (fst dc)) \<Longrightarrow> ledger_sound sha (ledger (fst (fold history_step es dc)))"
proof (induction es arbitrary: dc)
  case (Cons e es)
  obtain db c where dc: "dc = (db, c)" by (cases dc)
  have "ledger_sound sha (ledger (fst (history_step e (db, c))))"
  proof (cases e)
    case (Attempted w busy current items others token)
    obtain out db' c' where run: "install_attempt w busy current items others token c db = (out, db', c')"
      by (cases "install_attempt w busy current items others token c db")
    then show ?thesis using attempt_ledger [OF run] Cons.prems dc Attempted by simp
  qed (use Cons.prems dc in simp)
  then show ?case using Cons dc by simp
qed simp

text \<open>
  C23. No set of causes of a log is refilled twice: from an empty ledger, whatever attempts are made, by whichever
  workers and in whatever state of the database, the ledger never has two entries with the same log
  and the same causes.
\<close>

theorem causes_refilled_once:
  assumes "list_all (hashes_with sha) es" and "ledger db = []"
  shows "distinct (map (\<lambda>e. (ledger_log e, mset (ledger_causes e))) (ledger (fst (fold history_step es (db, c)))))"
proof -
  let ?led = "ledger (fst (fold history_step es (db, c)))"
  have sound: "ledger_sound sha ?led" using assms by (intro history_sound) (simp_all add: ledger_sound_def)
  have "x = y" if "x \<in> set ?led" "y \<in> set ?led" "ledger_log x = ledger_log y" "mset (ledger_causes x) = mset (ledger_causes y)" for x y
  proof -
    have "install_key_for sha (ledger_log x) (ledger_causes x) = install_key_for sha (ledger_log y) (ledger_causes y)"
      by (simp add: install_key_for_def that(3) canonical_ids_mset [OF that(4)])
    then have "install_key x = install_key y" using sound that(1,2) by (simp add: ledger_sound_def list_all_iff)
    then show ?thesis using sound that(1,2) by (auto simp: ledger_sound_def distinct_map inj_on_def)
  qed
  then have "inj_on (\<lambda>e. (ledger_log e, mset (ledger_causes e))) (set ?led)" by (auto simp: inj_on_def)
  moreover have "distinct ?led" using sound by (simp add: ledger_sound_def distinct_map)
  ultimately show ?thesis by (simp add: distinct_map)
qed

section \<open>A sample install\<close>

text \<open>The sample hour of the proposal, with ten minutes to go: one song more, appended to the log.\<close>

definition install_sample :: install_world where
  "install_sample = \<lparr>world_zone = utc, digest_hash = (\<lambda>_. []), key_hash = (\<lambda>_. []), case_fold = (\<lambda>t. t), host_armed = True,
     psa_residual = None,
     first_policy = PolicyRow (Some \<lparr>policy_on = True, dry_run_only = False, capture_request_substitution = False,
       capture_operator_eject = True, capture_start_next = False, capture_automatic_skip = False, capture_media_failure = False\<rparr>),
     first_snapshot = Some sample_snapshot, first_reads = sample_reads, second_snapshot = Some sample_snapshot,
     media_present = (\<lambda>_. True), cas_reads = sample_reads,
     cas_policy = PolicyRow (Some \<lparr>policy_on = True, dry_run_only = False, capture_request_substitution = False,
       capture_operator_eject = True, capture_start_next = False, capture_automatic_skip = False, capture_media_failure = False\<rparr>),
     fresh_reads = sample_reads, engine_stopping = False, log_lock_error = None, policy_lock_error = None,
     shift_order = [], unshift_order = [], new_item_id = (\<lambda>i. 900 + int i), new_ledger_id = 1, commit_age = 1\<rparr>"

definition sample_item :: "int \<Rightarrow> bool \<Rightarrow> stored_item" where
  "sample_item i heard = \<lparr>si_id = i, si_log = 7, si_position = i, si_track = Some (100 + i), si_category = Some 1, si_claimed = heard,
     si_played = heard, si_scheduled = 0, si_title = [], si_artist = [], si_origin = ''generated_schedule''\<rparr>"

definition station_sample :: station_db where
  "station_sample = \<lparr>log_heads = [7 \<mapsto> \<lparr>head_status = ''approved'', head_date = 0, head_hour = 0\<rparr>],
     stored_items = [sample_item 1 True, sample_item 2 True, sample_item 3 False], ledger = [],
     db_policy = PolicyRow (Some \<lparr>policy_on = True, dry_run_only = False, capture_request_substitution = False,
       capture_operator_eject = True, capture_start_next = False, capture_automatic_skip = False, capture_media_failure = False\<rparr>),
     tracks_now = [500 \<mapsto> \<lparr>now_ready = True, now_blocked = [], now_cue = None, now_next = None, now_duration = Some 210, now_path = [65],
       now_title = [66], now_artist = None, now_category = Some 1, now_related = [], now_holidays = []\<rparr>],
     kind_codes = [1 \<mapsto> ''music''], additional_pairs = [], active_holidays = [], requested_tracks = [], request_slots = [],
     request_intros = []\<rparr>"

definition sample_measured :: projection where
  "sample_measured = projr (project_refill utc (\<lambda>_. []) sample_snapshot [sample_cause] (Some sample_boundary) TRANSITION_ALLOWANCE_SECONDS)"

definition sample_placement :: placement where
  "sample_placement = \<lparr>mode = Some TailAppend, placement_reason = ''final_row_is_music'', after_log_item = Some 3, anchor_log_item = None,
     start_position = Some 4\<rparr>"

definition sample_reserved :: fit_frame where
  "sample_reserved = \<lparr>window = 600, prefix_fixed = 721 / 4,
     last_prefix = \<lparr>el_id = 3, el_cue = 0, el_end = 180, el_position = None, el_role = RoleQueue\<rparr>, suffix_first_cue = None,
     suffix_total = 0, allowance = 1 / 4, prefix_element_count = 2, reserve_base = 5, reserve_per_item = 1\<rparr>"

lemma sample_measured:
  "project_refill utc (\<lambda>_. []) sample_snapshot [sample_cause] (Some sample_boundary) TRANSITION_ALLOWANCE_SECONDS = Inr sample_measured"
  "outcome sample_measured = OUTCOME_ELIGIBLE" "window_seconds sample_measured = Some 600" "net_shortage sample_measured = Some (479 / 2)"
  "qualified_causes sample_measured = [sample_cause]" "proof_of_boundary sample_measured = Some sample_boundary"
proof -
  have "map_sum id (\<lambda>p. (outcome p, window_seconds p, net_shortage p, qualified_causes p, proof_of_boundary p))
     (project_refill utc (\<lambda>_. []) sample_snapshot [sample_cause] (Some sample_boundary) TRANSITION_ALLOWANCE_SECONDS)
   = Inr (OUTCOME_ELIGIBLE, Some 600, Some (479 / 2), [sample_cause], Some sample_boundary)"
    by code_simp
  then show "project_refill utc (\<lambda>_. []) sample_snapshot [sample_cause] (Some sample_boundary) TRANSITION_ALLOWANCE_SECONDS = Inr sample_measured"
    "outcome sample_measured = OUTCOME_ELIGIBLE" "window_seconds sample_measured = Some 600" "net_shortage sample_measured = Some (479 / 2)"
    "qualified_causes sample_measured = [sample_cause]" "proof_of_boundary sample_measured = Some sample_boundary"
    by (cases "project_refill utc (\<lambda>_. []) sample_snapshot [sample_cause] (Some sample_boundary) TRANSITION_ALLOWANCE_SECONDS";
        simp add: sample_measured_def)+
qed

lemma sample_placed: "assess_placement sample_snapshot (requests sample_reads) = sample_placement"
  unfolding sample_reads_def refill_reads.select_convs by code_simp

lemma sample_reserved: "build_fit_frame sample_snapshot 600 sample_placement TRANSITION_ALLOWANCE_SECONDS (Some safety_budget) = Inr (Some sample_reserved)"
  by code_simp

lemma sample_search: "search_best_fit [sample_candidate] sample_reserved MAX_MUSIC_TRACKS budget
    = \<lparr>fit_items = [sample_candidate], fit_total = 2307 / 4, fit_residual = 93 / 4, evaluations = 1, truncated = False\<rparr>"
proof -
  have single: "consider_seq sample_reserved [sample_candidate] (None, 0)
      = (Some (rank_key (93 / 4) [sample_candidate], [sample_candidate], 2307 / 4, 93 / 4), 1)"
    by code_simp
  have ms: "ms (2307 / 4) = 2307 / 4" "ms (93 / 4) = 93 / 4" by code_simp+
  show ?thesis by (simp add: search_best_fit_def search_state_def fit_of_def Let_def single ms)
qed

lemma sample_evaluated:
  "\<exists>pr. evaluate_for install_sample sample_reads sample_snapshot = Inr pr \<and> status pr = STATUS_PROPOSED \<and> music pr = [sample_candidate]
     \<and> psa pr = None \<and> projection_of pr = Some sample_measured \<and> placement_of pr = Some sample_placement"
proof -
  have reads: "boundary_read sample_reads = sample_boundary" "causes_read sample_reads = [sample_cause]"
    "instant sample_boundary = Some 600000000" "is_file sample_reads = (\<lambda>_. True)"
    by (simp_all add: sample_reads_def sample_boundary_def)
  have world: "world_zone install_sample = utc" "digest_hash install_sample = (\<lambda>_. [])" "psa_residual install_sample = None"
    by (simp_all add: install_sample_def)
  have mode: "mode sample_placement = Some TailAppend" by (simp add: sample_placement_def)
  show ?thesis
    by (simp add: evaluate_for_def world evaluate_hour_refill_def reads sample_measured proposal_from_def sample_sources Let_def or_zero_def
        sample_placed mode sample_reserved propose_def sample_pool sample_search media_available_def psa_stage_def of_refill_def no_proposal_def)
qed

lemma sample_fields:
  "first_snapshot install_sample = Some sample_snapshot" "second_snapshot install_sample = Some sample_snapshot"
  "first_reads install_sample = sample_reads" "cas_reads install_sample = sample_reads" "fresh_reads install_sample = sample_reads"
  "world_zone install_sample = utc" "digest_hash install_sample = (\<lambda>_. [])" "media_present install_sample = (\<lambda>_. True)"
  "\<not> engine_stopping install_sample" "active_log_id sample_snapshot = Some 7" "boundary_read sample_reads = sample_boundary"
  "causes_read sample_reads = [sample_cause]" "commit_age install_sample = 1"
  by (simp_all add: install_sample_def sample_reads_def sample_snapshot_def)

lemma sample_permitted:
  "install_permitted (host_armed install_sample) False (first_policy install_sample) [] = Inr True"
  "install_permitted (host_armed install_sample) False (cas_policy install_sample) (cause_types sample_measured) = Inr True"
  "install_permitted (host_armed install_sample) True (db_policy station_sample) (cause_types sample_measured) = Inr True"
  unfolding cause_types_def sample_measured by code_simp+

lemma sample_cas:
  assumes "evaluate_for install_sample sample_reads sample_snapshot = Inr pr" and "status pr = STATUS_PROPOSED" and "chosen pr = [sample_candidate]"
    and "projection_of pr = Some sample_measured" and "placement_of pr = Some sample_placement"
  shows "cas_one install_sample sample_snapshot sample_snapshot pr = Inr (sample_reserved, 360)"
proof -
  have lead: "insertion_lead sample_reserved sample_candidate - cand_cue sample_candidate = 360" by code_simp
  have fits: "\<not> window sample_reserved - frame_total sample_reserved sample_candidate [] < 0" by code_simp
  have frame: "cas_frame install_sample sample_snapshot pr sample_reserved = Inr (sample_reserved, 360)"
    using lead fits assms(1-3) by (simp add: cas_frame_def sample_fields abort_if_def INSERTION_LEAD_SECONDS_def)
  have "cas_placement install_sample sample_snapshot pr sample_placement sample_measured = Inr (sample_reserved, 360)"
    by (simp add: cas_placement_def sample_fields sample_placed abort_if_def sample_measured or_zero_def sample_reserved of_refill_def frame)
  then show ?thesis
    by (simp add: cas_one_def sample_fields abort_if_def assms(4,5) sample_measured same_proof_def of_refill_def sample_permitted)
qed

lemma sample_checked:
  "check_log install_sample sample_snapshot sample_measured key 7 station_sample = Inr (stored_items station_sample)"
  "check_tracks install_sample station_sample (window_slots utc 0 600000000) pr = Inr ()" if "music pr = [sample_candidate]" "psa pr = None"
proof -
  have rows: "rows_of 7 (stored_items station_sample) = stored_items station_sample" by code_simp
  have "map (\<lambda>r. (si_id r, Some (si_position r), si_track r, si_category r)) (visible_rows sample_snapshot 7 (stored_items station_sample))
      = expected_rows sample_snapshot"
    "\<not> list_ex (\<lambda>r. aired r \<and> si_id r \<in> log_item_id ` set (pending_rows sample_snapshot))
        (visible_rows sample_snapshot 7 (stored_items station_sample))"
    by code_simp+
  moreover have "log_heads station_sample 7 = Some \<lparr>head_status = ''approved'', head_date = 0, head_hour = 0\<rparr>"
    "active_log_date sample_snapshot = Some 0" "active_log_hour sample_snapshot = Some 0" "ledger station_sample = []"
    "log_lock_error install_sample = None" "policy_lock_error install_sample = None"
    by (simp_all add: station_sample_def sample_snapshot_def install_sample_def)
  ultimately show "check_log install_sample sample_snapshot sample_measured key 7 station_sample = Inr (stored_items station_sample)"
    by (simp add: check_log_def sample_permitted lock_problem_def abort_if_def rows Let_def)
  have "track_problem install_sample station_sample (window_slots utc 0 600000000) ''music'' sample_candidate = None"
    "\<not> holiday_tagged station_sample (cand_track sample_candidate)" "cand_track sample_candidate \<notin> set (requested_tracks station_sample)"
    by code_simp+
  then show "check_tracks install_sample station_sample (window_slots utc 0 600000000) pr = Inr ()"
    using that by (simp add: check_tracks_def expected_kinds_def chosen_def abort_if_def List.map_filter_simps)
qed

lemma sample_commit:
  assumes "status pr = STATUS_PROPOSED" and "music pr = [sample_candidate]" and "psa pr = None"
    and "projection_of pr = Some sample_measured" and "placement_of pr = Some sample_placement"
  shows "\<exists>db' r. commit install_sample sample_snapshot pr sample_reserved 360 station_sample = Inr (db', r)
    \<and> res_log r = Some 7 \<and> res_items r = [900] \<and> res_tracks r = [500]"
proof -
  have chosen: "chosen pr = [sample_candidate]" by (simp add: chosen_def assms)
  have key: "\<exists>key. install_key_for (key_hash install_sample) 7 [cause_pk sample_cause] = Inr key"
    by (simp add: install_key_for_def canonical_ids_def sample_cause_def)
  then obtain key where key: "install_key_for (key_hash install_sample) 7 [cause_pk sample_cause] = Inr key" ..
  have takeover: "Option.bind (proof_of_boundary sample_measured) instant = Some 600000000" "captured_at sample_snapshot = 0"
    "mode sample_placement = Some TailAppend" "log_heads station_sample 7 = Some \<lparr>head_status = ''approved'', head_date = 0, head_hour = 0\<rparr>"
    by (simp_all add: sample_measured sample_boundary_def sample_snapshot_def sample_placement_def station_sample_def)
  have takes: "instant sample_boundary = Some 600000000" by (simp add: sample_boundary_def)
  have tail: "append_tail station_sample (stored_items station_sample) sample_placement (Suc 0) = Inr (stored_items station_sample, [4])" by code_simp
  let ?start = "0 + micros_of (insertion_lead sample_reserved sample_candidate)"
  have news: "map si_position (new_rows install_sample station_sample 7 [4] ?start [sample_candidate]) = [4]"
    "map si_id (new_rows install_sample station_sample 7 [4] ?start [sample_candidate]) = [900]"
    "list_all (\<lambda>r. si_log r = 7) (new_rows install_sample station_sample 7 [4] ?start [sample_candidate])"
    using new_rows_fields [of "[4]" "[sample_candidate]", where w = install_sample and db = station_sample and l = 7 and start = "?start"] by (auto simp: install_sample_def list_all_iff)
  have "create_rows (new_rows install_sample station_sample 7 [4] ?start [sample_candidate]) (stored_items station_sample)
      = Some (stored_items station_sample @ new_rows install_sample station_sample 7 [4] ?start [sample_candidate])"
  proof (rule create_rows_unique)
    obtain q where q: "new_rows install_sample station_sample 7 [4] ?start [sample_candidate] = [q]" "si_position q = 4" "si_log q = 7"
      using news by (auto simp: map_eq_Cons_conv)
    then show "distinct (map (\<lambda>r. (si_log r, si_position r)) (stored_items station_sample
        @ new_rows install_sample station_sample 7 [4] ?start [sample_candidate]))"
      by (simp add: station_sample_def sample_item_def)
  qed
  then show ?thesis
    using news(2)
    by (simp add: commit_def assms chosen sample_fields key sample_measured sample_checked [OF assms(2,3)] takeover takes tail
        write_rows_def Let_def of_refill_def integrity_def abort_if_def MAX_COMMIT_AGE_SECONDS_def installed_result_def ledger_row_def
        sample_candidate_def [THEN arg_cong, of cand_track])
qed

lemma sample_attempt:
  "\<exists>r db' c'. install_attempt install_sample False (Some 7) [1, 2, 3] (\<lambda>c. c) 1 new_coordinator station_sample = (Inr r, db', c')
     \<and> res_status r = STATUS_INSTALLED \<and> res_log r = Some 7 \<and> res_items r = [900] \<and> res_tracks r = [500]"
proof -
  obtain pr where pr: "evaluate_for install_sample sample_reads sample_snapshot = Inr pr" "status pr = STATUS_PROPOSED" "music pr = [sample_candidate]"
    "psa pr = None" "projection_of pr = Some sample_measured" "placement_of pr = Some sample_placement"
    using sample_evaluated by blast
  have chosen: "chosen pr = [sample_candidate]" by (simp add: chosen_def pr)
  obtain db' r where commit: "commit install_sample sample_snapshot pr sample_reserved 360 station_sample = Inr (db', r)"
      "res_log r = Some 7" "res_items r = [900]" "res_tracks r = [500]"
    using sample_commit [OF pr(2-6)] by blast
  have "guarded_commit install_sample sample_snapshot sample_snapshot pr station_sample = Inr (db', r)"
    by (simp add: guarded_commit_def abort_if_def sample_fields chosen sample_cas [OF pr(1,2) chosen pr(5,6)] commit(1))
  then have tried: "attempt_proposal install_sample sample_snapshot station_sample = (Inr r, db')"
    by (simp add: attempt_proposal_def sample_fields pr)
  have "reserve_refill False (Some 7) [1, 2, 3] 1 new_coordinator = (None, new_coordinator\<lparr>refill_owner := Some 1\<rparr>)"
    by (simp add: reserve_refill_def new_coordinator_def adoption_outstanding_def)
  moreover have "fst (count_attempt 7 (new_coordinator\<lparr>refill_owner := Some 1\<rparr>))"
    by (simp add: count_attempt_def new_coordinator_def MAX_ATTEMPTS_PER_LOG_def)
  ultimately show ?thesis
    using commit commit_reports [OF commit(1)]
    by (simp add: install_attempt_def sample_permitted attempt_body_def sample_fields tried case_prod_beta)
qed

theorem installed_refill_is_safe_witness:
  "\<exists>r db' c' lead. install_attempt install_sample False (Some 7) [1, 2, 3] (\<lambda>c. c) 1 new_coordinator station_sample = (Inr r, db', c')
     \<and> res_tracks r = [500] \<and> list_all (playable station_sample) (res_tracks r) \<and> same_as_read sample_snapshot 7 station_sample
     \<and> res_lead r = Some (ms lead) \<and> 20 \<le> lead"
proof -
  obtain r db' c' where run: "install_attempt install_sample False (Some 7) [1, 2, 3] (\<lambda>c. c) 1 new_coordinator station_sample = (Inr r, db', c')"
    "res_status r = STATUS_INSTALLED" "res_tracks r = [500]"
    using sample_attempt by blast
  from installed_refill_is_safe [OF run(1,2)] show ?thesis
    using run(1,3) by (auto simp: sample_fields list_all_iff)
qed

theorem install_keeps_order_witness:
  "\<exists>r db' c'. install_attempt install_sample False (Some 7) [1, 2, 3] (\<lambda>c. c) 1 new_coordinator station_sample = (Inr r, db', c')
     \<and> spliced 7 station_sample db' r \<and> rows_of 8 (stored_items db') = rows_of 8 (stored_items station_sample)"
proof -
  obtain r db' c' where run: "install_attempt install_sample False (Some 7) [1, 2, 3] (\<lambda>c. c) 1 new_coordinator station_sample = (Inr r, db', c')"
    "res_status r = STATUS_INSTALLED" "res_tracks r = [500]" "res_log r = Some 7"
    using sample_attempt by blast
  have "row_unique_room station_sample (int (length (res_tracks r)))"
    by (simp add: run(3) row_unique_room_def unique_rows_def station_sample_def sample_item_def SHIFT_OFFSET_def)
  from install_keeps_order [OF run(1,2) this] show ?thesis using run(1,4) by auto
qed

theorem causes_refilled_once_witness:
  "distinct (map (\<lambda>e. (ledger_log e, mset (ledger_causes e))) (ledger (fst (fold history_step
     [Attempted install_sample False (Some 7) [1, 2, 3] (\<lambda>c. c) 1, Attempted install_sample False (Some 7) [1, 2, 3] (\<lambda>c. c) 2]
     (station_sample, new_coordinator)))))"
  by (rule causes_refilled_once [of "\<lambda>_. []"]) (simp_all add: install_sample_def station_sample_def)

end
