(* ===== verification/Refill_Runner.thy ===== *)
theory Refill_Runner
  imports Refill_Ledger
begin

text \<open>
  The one caller of the installer: \<^verbatim>\<open>library/services/hour_refill_runner.py\<close> and the mode the admin page
  shows (\<^verbatim>\<open>mode_code\<close> of \<^verbatim>\<open>library/services/hour_refill_status.py\<close>). One check of the runner is a function from
  what it reads; the journal, the status file and the counters are left out.
\<close>

section \<open>The policy\<close>

datatype refill_mode = MODE_OFF | MODE_OBSERVE | MODE_INSTALL

record policy_state =
  state_mode :: refill_mode
  state_reason :: string
  state_switches :: "(string \<times> bool) list"
  state_armed :: bool

definition no_switches :: "(string \<times> bool) list" where
  "no_switches = [(CAUSE_REQUEST_SUBSTITUTION, False), (CAUSE_OPERATOR_EJECT, False), (CAUSE_START_NEXT, False),
     (CAUSE_AUTOMATIC_SKIP, False), (CAUSE_MEDIA_FAILURE, False)]"

definition policy_off :: "bool \<Rightarrow> string \<Rightarrow> policy_state" where
  "policy_off armed why = \<lparr>state_mode = MODE_OFF, state_reason = why, state_switches = no_switches, state_armed = armed\<rparr>"

definition read_policy_state :: "bool \<Rightarrow> policy_read \<Rightarrow> policy_state" where
  "read_policy_state armed rd =
     (case rd of
        PolicyUnreadable \<Rightarrow> policy_off armed ''policy_unreadable''
      | PolicyRow None \<Rightarrow> policy_off armed ''no_policy_row''
      | PolicyRow (Some r) \<Rightarrow>
          let state = (\<lambda>m why. \<lparr>state_mode = m, state_reason = why, state_switches = cause_switches r, state_armed = armed\<rparr>) in
          if \<not> policy_on r then state MODE_OFF ''policy_disabled''
          else if dry_run_only r then state MODE_OBSERVE ''dry_run_only''
          else if \<not> armed then state MODE_OBSERVE ''install_not_armed''
          else state MODE_INSTALL ''install_permitted'')"

definition allows :: "policy_state \<Rightarrow> string list \<Rightarrow> bool" where
  "allows st types \<longleftrightarrow> list_all (\<lambda>t. map_of (state_switches st) t = Some True) types"

text \<open>\<^verbatim>\<open>mode_code\<close> in the web process, from the row.\<close>

definition mode_code :: "bool \<Rightarrow> refill_policy option \<Rightarrow> string" where
  "mode_code armed row =
     (case row of None \<Rightarrow> ''off''
      | Some r \<Rightarrow> if \<not> policy_on r then ''off'' else if dry_run_only r then ''observation''
                  else if armed then ''install'' else ''install_not_armed'')"

text \<open>\<^verbatim>\<open>psa_policy_from_settings\<close>: the stripped setting; \<^verbatim>\<open>int\<close> of a text is a parameter.\<close>

definition psa_policy_from_settings :: "(utext \<Rightarrow> int option) \<Rightarrow> utext \<Rightarrow> psa_policy" where
  "psa_policy_from_settings parse_int raw =
     (if raw = [] then \<lparr>psa_enabled = False, psa_category = None\<rparr>
      else \<lparr>psa_enabled = True, psa_category = parse_int raw\<rparr>)"

section \<open>One evaluation\<close>

datatype report_kind = KIND_ADVISORY | KIND_COMMITTED | KIND_ABSTAINED

datatype run_status = NO_ACTIVE_LOG | NO_NEW_CAUSE | CAUSE_TYPE_DISABLED | EVALUATION_LIMIT | ENGINE_STOPPED | SNAPSHOT_UNAVAILABLE
  | RUN_ERROR | Projected refill_outcome | Attempt_Status install_status | Proposal_Outcome proposal_status

record run_outcome =
  run_status :: run_status
  run_kind :: report_kind
  run_log :: "int option"
  run_causes :: "int set"

text \<open>
  What an evaluation reads: the time zone and the hash, the snapshot, the engine's session and whether it still
  runs, the database for the projection and for the proposal, what \<^verbatim>\<open>HourRefillInstaller.attempt\<close>
  (\<^const>\<open>install_attempt\<close>) returned, and the cause ids of the ledger row it reports (None when that read raises).
\<close>

record evaluation_reads =
  run_zone :: zone
  run_hash :: "digest_content \<Rightarrow> utext"
  taken :: "snapshot option"
  session_id :: utext
  running_then :: bool
  projection_reads :: refill_reads
  proposal_reads :: refill_reads
  residual_setting :: psa_policy
  attempted :: "install_fault + install_result"
  ledger_causes_read :: "int set option"

definition abstained :: "run_status \<Rightarrow> int option \<Rightarrow> int set \<Rightarrow> run_outcome" where
  "abstained st l ids = \<lparr>run_status = st, run_kind = KIND_ABSTAINED, run_log = l, run_causes = ids\<rparr>"

text \<open>An evaluation reports, or its attempt committed rows and a ledger entry.\<close>

datatype verdict = Reported run_outcome | Committed install_result projection

definition evaluate_mode :: "policy_state \<Rightarrow> evaluation_reads \<Rightarrow> snapshot \<Rightarrow> projection \<Rightarrow> int set \<Rightarrow> install_fault + verdict" where
  "evaluate_mode st rd s p ids =
     (if state_mode st = MODE_INSTALL then
        bindR (attempted rd) (\<lambda>r. Inr (if res_status r = STATUS_INSTALLED then Committed r p
          else Reported (abstained (Attempt_Status (res_status r)) (projected_log p) ids)))
      else
        bindR (of_refill (evaluate_hour_refill (run_zone rd) (run_hash rd) (proposal_reads rd) s False
          (Some (residual_setting rd)) (Some safety_budget))) (\<lambda>pr.
        Inr (Reported ((abstained (Proposal_Outcome (status pr))
            (projected_log (case projection_of pr of None \<Rightarrow> p | Some q \<Rightarrow> q)) ids)
          \<lparr>run_kind := (if status pr = STATUS_PROPOSED then KIND_ADVISORY else KIND_ABSTAINED)\<rparr>))))"

definition evaluate_refill :: "policy_state \<Rightarrow> evaluation_reads \<Rightarrow> int \<Rightarrow> int set \<Rightarrow> install_fault + verdict" where
  "evaluate_refill st rd l ids =
     (case taken rd of
        None \<Rightarrow> Inr (Reported (abstained SNAPSHOT_UNAVAILABLE (Some l) ids))
      | Some s \<Rightarrow>
          if engine_instance s \<noteq> session_id rd \<or> \<not> running_then rd
          then Inr (Reported (abstained ENGINE_STOPPED (Some l) {}))
          else bindR (of_refill (project_refill (run_zone rd) (run_hash rd) s (causes_read (projection_reads rd))
              (Some (boundary_read (projection_reads rd))) TRANSITION_ALLOWANCE_SECONDS)) (\<lambda>p.
            if outcome p \<noteq> OUTCOME_ELIGIBLE then Inr (Reported (abstained (Projected (outcome p)) (projected_log p) ids))
            else if \<not> allows st (cause_types p) then Inr (Reported (abstained CAUSE_TYPE_DISABLED (projected_log p) ids))
            else evaluate_mode st rd s p ids))"

section \<open>One check\<close>

record backoff_entry =
  entry_evaluations :: nat
  next_due :: seconds
  entry_done :: bool
  limit_reported :: bool

definition new_backoff :: backoff_entry where
  "new_backoff = \<lparr>entry_evaluations = 0, next_due = 0, entry_done = False, limit_reported = False\<rparr>"

definition RETRY_SECONDS :: seconds where "RETRY_SECONDS = 30"
definition MAX_EVALUATIONS_PER_CAUSE_SET :: nat where "MAX_EVALUATIONS_PER_CAUSE_SET = 6"

datatype adoption = Pending | Observed | EngineLeftLog

record refill_runner =
  runner_policy :: policy_state
  backoff :: "int \<times> int set \<Rightarrow> backoff_entry option"
  waiting_for :: "(int \<times> int set) option"
  last_adoption :: "adoption option"
  last_outcome :: "run_outcome option"

record check_reads =
  policy_row :: policy_read
  armed_now :: bool
  engine_running :: bool
  active_log :: "int option"
  items_in_memory :: "int set"
  causes_unreadable :: bool
  cause_rows :: "int set"
  covered_rows :: "int set"
  clock_compared :: seconds
  clock_scheduled :: seconds
  generation_live :: bool
  evaluation :: evaluation_reads

definition observe_adoption :: "check_reads \<Rightarrow> refill_runner \<Rightarrow> refill_runner" where
  "observe_adoption rd n =
     (case (waiting_for n, last_adoption n) of
        (Some (l, ids), Some _) \<Rightarrow>
          if active_log rd \<noteq> Some l then n\<lparr>waiting_for := None, last_adoption := Some EngineLeftLog\<rparr>
          else if ids \<subseteq> items_in_memory rd then n\<lparr>waiting_for := None, last_adoption := Some Observed\<rparr>
          else n
      | _ \<Rightarrow> n)"

definition set_outcome :: "run_outcome \<Rightarrow> refill_runner \<Rightarrow> refill_runner" where
  "set_outcome out n = n\<lparr>last_outcome := Some out\<rparr>"

text \<open>An entry of the cause set, and the runner with it.\<close>

definition entry_of :: "int \<times> int set \<Rightarrow> refill_runner \<Rightarrow> backoff_entry" where
  "entry_of sig n = (case backoff n sig of None \<Rightarrow> new_backoff | Some e \<Rightarrow> e)"

definition put_entry :: "int \<times> int set \<Rightarrow> backoff_entry \<Rightarrow> refill_runner \<Rightarrow> refill_runner" where
  "put_entry sig e n = n\<lparr>backoff := (backoff n)(sig \<mapsto> e)\<rparr>"

text \<open>
  \<^verbatim>\<open>_record_install\<close>: the outcome carries the ledger's own causes; reading them may raise, when the entry is
  already marked as done. A call that raises leaves the outcome \<^verbatim>\<open>error\<close> (\<^verbatim>\<open>run_once\<close>), and the entry as
  counted.
\<close>

definition record_install :: "evaluation_reads \<Rightarrow> install_result \<Rightarrow> projection \<Rightarrow> int \<Rightarrow> int set \<Rightarrow> refill_runner \<Rightarrow> refill_runner" where
  "record_install rd r p l ids n =
     (case ledger_causes_read rd of
        None \<Rightarrow> set_outcome (abstained RUN_ERROR (Some l) ids) n
      | Some causes \<Rightarrow>
          (set_outcome \<lparr>run_status = Attempt_Status STATUS_INSTALLED, run_kind = KIND_COMMITTED, run_log = projected_log p,
              run_causes = causes\<rparr> n)
            \<lparr>waiting_for := map_option (\<lambda>k. (k, set (res_items r))) (res_log r), last_adoption := Some Pending\<rparr>)"

definition run_evaluation :: "check_reads \<Rightarrow> int \<Rightarrow> int set \<Rightarrow> backoff_entry \<Rightarrow> refill_runner \<Rightarrow> refill_runner" where
  "run_evaluation rd l ids e n =
     (case evaluate_refill (runner_policy n) (evaluation rd) l ids of
        Inl _ \<Rightarrow> set_outcome (abstained RUN_ERROR (Some l) ids) n
      | Inr (Reported out) \<Rightarrow> set_outcome out n
      | Inr (Committed r p) \<Rightarrow> record_install (evaluation rd) r p l ids (put_entry (l, ids) (e\<lparr>entry_done := True\<rparr>) n))"

text \<open>A cause set with something new: whether it is due, and the evaluation; the flag says that its entry was counted.\<close>

definition check_causes :: "check_reads \<Rightarrow> int \<Rightarrow> refill_runner \<Rightarrow> refill_runner \<times> bool" where
  "check_causes rd l n =
     (let sig = (l, cause_rows rd); e = entry_of sig n; n1 = put_entry sig e n in
      if entry_done e then (n1, False)
      else if MAX_EVALUATIONS_PER_CAUSE_SET \<le> entry_evaluations e
      then (if limit_reported e then n1
            else set_outcome (abstained EVALUATION_LIMIT (Some l) (cause_rows rd)) (put_entry sig (e\<lparr>limit_reported := True\<rparr>) n), False)
      else if clock_compared rd < next_due e then (n1, False)
      else
        let e' = e\<lparr>entry_evaluations := entry_evaluations e + 1, next_due := clock_scheduled rd + RETRY_SECONDS\<rparr>;
            n2 = put_entry sig e' n
        in (if generation_live rd then run_evaluation rd l (cause_rows rd) e' n2 else n2, True))"

definition run_check :: "check_reads \<Rightarrow> refill_runner \<Rightarrow> refill_runner \<times> bool" where
  "run_check rd n =
     (let n0 = observe_adoption rd (n\<lparr>runner_policy := read_policy_state (armed_now rd) (policy_row rd)\<rparr>) in
      if state_mode (runner_policy n0) = MODE_OFF then (n0, False)
      else if \<not> engine_running rd then (set_outcome (abstained ENGINE_STOPPED None {}) n0, False)
      else case active_log rd of
        None \<Rightarrow> (set_outcome (abstained NO_ACTIVE_LOG None {}) n0, False)
      | Some l \<Rightarrow>
          let n1 = n0\<lparr>backoff := (\<lambda>k. if fst k = l then backoff n0 k else None)\<rparr> in
          if causes_unreadable rd then (set_outcome (abstained RUN_ERROR None {}) n1, False)
          else if cause_rows rd - covered_rows rd = {} then (set_outcome (abstained NO_NEW_CAUSE (Some l) {}) n1, False)
          else check_causes rd l n1)"

section \<open>Three readers of one policy\<close>

text \<open>
  The runner, the installer and the admin page agree on the policy row: the runner is in the install mode and
  allows the cause types exactly when the installer is permitted to install for them, and the page says
  \<^verbatim>\<open>install\<close> exactly when the runner is in that mode, \<^verbatim>\<open>off\<close> exactly when it is off.
\<close>

theorem policy_readers_agree:
  "install_permitted armed False (PolicyRow row) types
     = Inr (state_mode (read_policy_state armed (PolicyRow row)) = MODE_INSTALL \<and> allows (read_policy_state armed (PolicyRow row)) types)
   \<and> (mode_code armed row = ''install'') = (state_mode (read_policy_state armed (PolicyRow row)) = MODE_INSTALL)
   \<and> (mode_code armed row = ''off'') = (state_mode (read_policy_state armed (PolicyRow row)) = MODE_OFF)
   \<and> install_permitted armed False PolicyUnreadable types = Inr False \<and> state_mode (read_policy_state armed PolicyUnreadable) = MODE_OFF"
  by (cases row) (auto simp: install_permitted_def row_permits_def read_policy_state_def allows_def switched_on_def mode_code_def
      policy_off_def Let_def)

section \<open>Backoff\<close>

text \<open>The evaluations of a cause set in a run of checks, with the two readings of the clock.\<close>

fun run_checks :: "check_reads list \<Rightarrow> refill_runner \<Rightarrow> refill_runner \<times> ((int \<times> int set) \<times> seconds \<times> seconds) list" where
  "run_checks [] n = (n, [])"
| "run_checks (rd # rds) n =
     (let (n', evaluated) = run_check rd n; (n'', rest) = run_checks rds n' in
      (n'', (if evaluated then [((the (active_log rd), cause_rows rd), clock_compared rd, clock_scheduled rd)] else []) @ rest))"

definition evaluations_of :: "int \<times> int set \<Rightarrow> check_reads list \<Rightarrow> refill_runner \<Rightarrow> (seconds \<times> seconds) list" where
  "evaluations_of sig rds n = map snd (filter (\<lambda>t. fst t = sig) (snd (run_checks rds n)))"

definition on_log :: "int \<Rightarrow> check_reads \<Rightarrow> bool" where
  "on_log l rd \<longleftrightarrow> active_log rd = None \<or> active_log rd = Some l"

lemma observe_adoption_fields [simp]:
  "backoff (observe_adoption rd n) = backoff n" "runner_policy (observe_adoption rd n) = runner_policy n"
  by (simp_all add: observe_adoption_def split: option.splits prod.splits)

lemma entry_put [simp]: "entry_of k (put_entry sig e n) = (if k = sig then e else entry_of k n)"
  by (simp add: entry_of_def put_entry_def)

lemma entry_outcome [simp]: "entry_of k (set_outcome out n) = entry_of k n"
  by (simp add: entry_of_def set_outcome_def)

lemma entry_policy [simp]: "entry_of k (n\<lparr>runner_policy := st\<rparr>) = entry_of k n"
  by (simp add: entry_of_def)

lemma entry_adoption [simp]: "entry_of k (observe_adoption rd n) = entry_of k n"
  by (simp add: entry_of_def)

lemma entry_waiting [simp]: "entry_of k (n\<lparr>waiting_for := x, last_adoption := y\<rparr>) = entry_of k n"
  by (simp add: entry_of_def)

text \<open>The entry as far as the counting goes: a step may only mark it as done.\<close>

definition kept :: "backoff_entry \<Rightarrow> backoff_entry \<Rightarrow> bool" where
  "kept e e' \<longleftrightarrow> entry_evaluations e' = entry_evaluations e \<and> next_due e' = next_due e \<and> (entry_done e \<longrightarrow> entry_done e')"

lemma kept_refl [simp]: "kept e e"
  by (simp add: kept_def)

lemma run_evaluation_entry:
  "kept (entry_of k n) (entry_of k (run_evaluation rd l ids (entry_of (l, ids) n) n))"
  by (simp add: run_evaluation_def record_install_def kept_def split: sum.splits verdict.splits option.splits)

definition counted_entry :: "check_reads \<Rightarrow> backoff_entry \<Rightarrow> backoff_entry \<Rightarrow> bool" where
  "counted_entry rd e e' \<longleftrightarrow> next_due e \<le> clock_compared rd \<and> \<not> entry_done e \<and> entry_evaluations e < MAX_EVALUATIONS_PER_CAUSE_SET
     \<and> entry_evaluations e' = entry_evaluations e + 1 \<and> next_due e' = clock_scheduled rd + RETRY_SECONDS"

lemma check_causes_entry:
  assumes "check_causes rd l n = (n', evaluated)"
  shows "if evaluated \<and> sig = (l, cause_rows rd) then counted_entry rd (entry_of sig n) (entry_of sig n')
    else kept (entry_of sig n) (entry_of sig n')"
proof -
  let ?sig = "(l, cause_rows rd)" and ?e = "entry_of (l, cause_rows rd) n"
  let ?e' = "?e\<lparr>entry_evaluations := entry_evaluations ?e + 1, next_due := clock_scheduled rd + RETRY_SECONDS\<rparr>"
  consider (skipped) "\<not> evaluated" "\<And>k. kept (entry_of k n) (entry_of k n')"
    | (counted) "evaluated" "next_due ?e \<le> clock_compared rd" "\<not> entry_done ?e" "entry_evaluations ?e < MAX_EVALUATIONS_PER_CAUSE_SET"
        "n' = (if generation_live rd then run_evaluation rd l (cause_rows rd) ?e' (put_entry ?sig ?e' n) else put_entry ?sig ?e' n)"
    using assms by (auto simp: check_causes_def Let_def kept_def not_less split: if_splits)
  then show ?thesis
  proof cases
    case skipped
    then show ?thesis by simp
  next
    case counted
    have "kept (entry_of k (put_entry ?sig ?e' n)) (entry_of k n')" for k
      using run_evaluation_entry [of k "put_entry ?sig ?e' n" rd l "cause_rows rd"] counted(5) by auto
    from this [of sig] show ?thesis
      using counted(1-4) by (cases "sig = ?sig") (simp_all add: kept_def counted_entry_def)
  qed
qed

lemma run_check_entry:
  assumes "run_check rd n = (n', evaluated)" and "on_log (fst sig) rd"
  shows "if evaluated \<and> (the (active_log rd), cause_rows rd) = sig then counted_entry rd (entry_of sig n) (entry_of sig n')
    else kept (entry_of sig n) (entry_of sig n')"
proof -
  let ?n = "observe_adoption rd (n\<lparr>runner_policy := read_policy_state (armed_now rd) (policy_row rd)\<rparr>)"
  consider (idle) "\<not> evaluated" "kept (entry_of sig n) (entry_of sig n')"
    | (due) "active_log rd = Some (fst sig)"
        "check_causes rd (fst sig) (?n\<lparr>backoff := (\<lambda>k. if fst k = fst sig then backoff ?n k else None)\<rparr>) = (n', evaluated)"
  proof (cases "state_mode (runner_policy ?n) = MODE_OFF \<or> \<not> engine_running rd \<or> active_log rd = None")
    case True
    then show ?thesis using idle assms(1) by (auto simp: run_check_def Let_def split: if_splits)
  next
    case False
    then have log: "active_log rd = Some (fst sig)" using assms(2) by (auto simp: on_log_def)
    have same: "entry_of sig (?n\<lparr>backoff := (\<lambda>k. if fst k = fst sig then backoff ?n k else None)\<rparr>) = entry_of sig n"
      by (simp add: entry_of_def)
    show ?thesis
    proof (cases "causes_unreadable rd \<or> cause_rows rd - covered_rows rd = {}")
      case True
      then show ?thesis using idle assms(1) False log same by (auto simp: run_check_def Let_def split: if_splits)
    next
      case new: False
      then show ?thesis using due assms(1) False log by (simp add: run_check_def Let_def)
    qed
  qed
  then show ?thesis
  proof cases
    case idle
    then show ?thesis by simp
  next
    case due
    have "entry_of sig (?n\<lparr>backoff := (\<lambda>k. if fst k = fst sig then backoff ?n k else None)\<rparr>) = entry_of sig n"
      by (simp add: entry_of_def)
    moreover have "(evaluated \<and> sig = (fst sig, cause_rows rd)) = (evaluated \<and> (the (active_log rd), cause_rows rd) = sig)"
      using due(1) by (cases sig) auto
    ultimately show ?thesis using check_causes_entry [OF due(2), of sig] by (auto split: if_split_asm)
  qed
qed

lemma evaluations_step:
  assumes "list_all (on_log (fst sig)) rds"
  shows "length (evaluations_of sig rds n) \<le> MAX_EVALUATIONS_PER_CAUSE_SET - entry_evaluations (entry_of sig n)
    \<and> successively (\<lambda>x y. snd x + RETRY_SECONDS \<le> fst y) (evaluations_of sig rds n)
    \<and> (evaluations_of sig rds n \<noteq> [] \<longrightarrow> next_due (entry_of sig n) \<le> fst (hd (evaluations_of sig rds n)) \<and> \<not> entry_done (entry_of sig n))"
  using assms
proof (induction rds arbitrary: n)
  case (Cons rd rds)
  obtain n' ev where step: "run_check rd n = (n', ev)" by (cases "run_check rd n")
  let ?hit = "ev \<and> (the (active_log rd), cause_rows rd) = sig"
  have evals: "evaluations_of sig (rd # rds) n
      = (if ?hit then [(clock_compared rd, clock_scheduled rd)] else []) @ evaluations_of sig rds n'"
    by (simp add: evaluations_of_def step split: prod.splits)
  have entry: "if ?hit then counted_entry rd (entry_of sig n) (entry_of sig n') else kept (entry_of sig n) (entry_of sig n')"
    using run_check_entry [OF step] Cons.prems by simp
  have rest: "list_all (on_log (fst sig)) rds" using Cons.prems by simp
  show ?case
  proof (cases ?hit)
    case True
    then have "counted_entry rd (entry_of sig n) (entry_of sig n')" using entry by simp
    then show ?thesis
      using Cons.IH [OF rest, of n'] True
      by (auto simp: evals counted_entry_def successively_Cons)
  next
    case False
    then have "kept (entry_of sig n) (entry_of sig n')" using entry by simp
    then show ?thesis using Cons.IH [OF rest, of n'] False by (auto simp: evals kept_def)
  qed
qed (simp add: evaluations_of_def)


text \<open>A runner that just started, in the install mode, without a snapshot: two checks a half-minute apart.\<close>

definition idle_reads :: "evaluation_reads" where
  "idle_reads = \<lparr>run_zone = utc, run_hash = (\<lambda>_. []), taken = None, session_id = [], running_then = True,
     projection_reads = sample_reads, proposal_reads = sample_reads, residual_setting = psa_policy_from_settings (\<lambda>_. None) [],
     attempted = Inl DoesNotExist, ledger_causes_read = None\<rparr>"

definition all_on :: refill_policy where
  "all_on = \<lparr>policy_on = True, dry_run_only = False, capture_request_substitution = True, capture_operator_eject = True,
     capture_start_next = True, capture_automatic_skip = True, capture_media_failure = True\<rparr>"

definition check_at :: "seconds \<Rightarrow> check_reads" where
  "check_at t = \<lparr>policy_row = PolicyRow (Some all_on), armed_now = True, engine_running = True, active_log = Some 7,
     items_in_memory = {}, causes_unreadable = False, cause_rows = {1}, covered_rows = {}, clock_compared = t, clock_scheduled = t,
     generation_live = True, evaluation = idle_reads\<rparr>"

definition started_runner :: refill_runner where
  "started_runner = \<lparr>runner_policy = policy_off True ''not_checked_yet'', backoff = Map.empty, waiting_for = None,
     last_adoption = None, last_outcome = None\<rparr>"


text \<open>
  An evaluation that reports a commit ran in the install mode, on a snapshot of the running engine, for an
  eligible window whose cause types are all switched on, and the attempt installed.
\<close>

theorem commits_only_when_allowed:
  assumes "evaluate_refill st rd l ids = Inr (Committed r p)"
  shows "state_mode st = MODE_INSTALL \<and> outcome p = OUTCOME_ELIGIBLE \<and> allows st (cause_types p)
    \<and> attempted rd = Inr r \<and> res_status r = STATUS_INSTALLED
    \<and> (\<exists>s. taken rd = Some s \<and> engine_instance s = session_id rd \<and> running_then rd)"
  using assms by (auto simp: evaluate_refill_def evaluate_mode_def bindR_eq_Inr split: if_splits option.splits)

end
