(* ===== verification/Engine_Commands.thy ===== *)
theory Engine_Commands
  imports Air_Digits Air_Prelude "HOL-Library.Product_Lexorder" "HOL-Library.List_Lexorder" "HOL-Library.Multiset" "HOL-Library.Sublist"
begin

text \<open>
  The command queue of the playback engine: \<^verbatim>\<open>isadoraair/engine_commands.py\<close>, and its one reader,
  \<^verbatim>\<open>_check_commands\<close> of \<^verbatim>\<open>library/services/engine.py\<close>. The queue is a directory, a list of
  entries in the order \<^verbatim>\<open>iterdir\<close> gives them; every operation runs under the process-shared lock, or
  reads and removes one file. The clock, the process id, the random nonce and failing system calls are
  arguments, and so is Python's JSON coder.
\<close>

section \<open>Entries and names\<close>

datatype node = Regular | Symlink | Directory

record dir_entry =
  entry_name :: utext
  entry_node :: node
  entry_bytes :: "nat list"

definition ENGINE_COMMAND_MAX_DEPTH :: int where "ENGINE_COMMAND_MAX_DEPTH = 256"
definition ENGINE_COMMAND_MAX_PAYLOAD_BYTES :: int where "ENGINE_COMMAND_MAX_PAYLOAD_BYTES = 4096"
definition ENGINE_COMMAND_BATCH_SIZE :: nat where "ENGINE_COMMAND_BATCH_SIZE = 32"

definition is_hex :: "nat \<Rightarrow> bool" where
  "is_hex c \<longleftrightarrow> is_digit c \<or> 97 \<le> c \<and> c \<le> 102"

text \<open>The two patterns: a prefix, twenty digits, the process id, 32 hexadecimal digits, a suffix.\<close>

definition parse_name :: "utext \<Rightarrow> utext \<Rightarrow> utext \<Rightarrow> nat option" where
  "parse_name pre post t =
     (let body = drop (length pre) t; digits = take 20 body; r = drop 20 body;
          pid = takeWhile is_digit (tl r); r2 = dropWhile is_digit (tl r); nonce = take 32 (tl r2)
      in if take (length pre) t = pre \<and> length digits = 20 \<and> list_all is_digit digits \<and> r \<noteq> [] \<and> hd r = 45
            \<and> pid \<noteq> [] \<and> r2 \<noteq> [] \<and> hd r2 = 45 \<and> length nonce = 32 \<and> list_all is_hex nonce \<and> drop 32 (tl r2) = post
         then Some (read_nat digits) else None)"

definition COMMITTED_RE :: "utext \<Rightarrow> nat option" where
  "COMMITTED_RE = parse_name (cps ''cmd-'') (cps ''.json'')"

definition TEMP_RE :: "utext \<Rightarrow> nat option" where
  "TEMP_RE = parse_name (cps ''.cmd-'') (cps ''.tmp'')"

text \<open>\<^verbatim>\<open>f"cmd-{sequence:020d}-{pid}-{nonce}"\<close>\<close>

definition pad20 :: "nat \<Rightarrow> utext" where
  "pad20 n = replicate (20 - length (show_nat n)) 48 @ show_nat n"

definition stem :: "nat \<Rightarrow> nat \<Rightarrow> utext \<Rightarrow> utext" where
  "stem sequence pid nonce = cps ''cmd-'' @ pad20 sequence @ 45 # show_nat pid @ 45 # nonce"

section \<open>Payloads\<close>

text \<open>
  The JSON coder: whether a value is an object, its \<^verbatim>\<open>command\<close> when that is a text, the compact UTF-8 encoding
  (None when \<^verbatim>\<open>dumps\<close> or \<^verbatim>\<open>encode\<close> raises) and the decoding (None when \<^verbatim>\<open>decode\<close> or \<^verbatim>\<open>loads\<close> raises).
\<close>

record 'p coder =
  is_object :: "'p \<Rightarrow> bool"
  command_text :: "'p \<Rightarrow> utext option"
  dumps :: "'p \<Rightarrow> nat list option"
  loads :: "nat list \<Rightarrow> 'p option"

datatype transport_error = CommandInvalid string | QueueFull | TransportFailed string

definition serialize_payload :: "'p coder \<Rightarrow> int \<Rightarrow> 'p \<Rightarrow> transport_error + nat list" where
  "serialize_payload C max_bytes p =
     (if \<not> is_object C p then Inl (CommandInvalid ''payload must be a JSON object'')
      else case command_text C p of
        None \<Rightarrow> Inl (CommandInvalid ''payload requires a nonblank string'')
      | Some t \<Rightarrow>
          if py_strip t = [] then Inl (CommandInvalid ''payload requires a nonblank string'')
          else case dumps C p of
            None \<Rightarrow> Inl (CommandInvalid ''payload is not JSON serializable'')
          | Some bytes \<Rightarrow> if int (length bytes) > max_bytes then Inl (CommandInvalid ''payload is too long'') else Inr bytes)"

section \<open>The directory\<close>

definition scan_committed :: "dir_entry list \<Rightarrow> (nat \<times> dir_entry) list" where
  "scan_committed d = sort_key (\<lambda>(s, e). (s, entry_name e))
     (List.map_filter (\<lambda>e. if entry_node e = Regular then map_option (\<lambda>s. (s, e)) (COMMITTED_RE (entry_name e)) else None) d)"

definition clean_stale_temps :: "dir_entry list \<Rightarrow> dir_entry list" where
  "clean_stale_temps d = filter (\<lambda>e. \<not> (TEMP_RE (entry_name e) \<noteq> None \<and> entry_node e = Regular)) d"

definition next_sequence :: "nat \<Rightarrow> (nat \<times> dir_entry) list \<Rightarrow> nat" where
  "next_sequence now committed = max now ((if committed = [] then 0 else fst (last committed)) + 1)"

record publish =
  pub_now :: nat
  pub_pid :: nat
  pub_nonce :: utext
  lock_taken :: bool
  file_written :: bool

text \<open>\<^verbatim>\<open>enqueue_engine_command\<close>: the name of the committed file, or the error.\<close>

definition enqueue_engine_command ::
  "'p coder \<Rightarrow> int \<Rightarrow> int \<Rightarrow> publish \<Rightarrow> 'p \<Rightarrow> dir_entry list \<Rightarrow> (transport_error + utext) \<times> dir_entry list" where
  "enqueue_engine_command C max_depth max_bytes pub p d =
     (if max_depth < 1 then (Inl (CommandInvalid ''maximum depth must be positive''), d)
      else if max_bytes < 1 then (Inl (CommandInvalid ''maximum payload size must be positive''), d)
      else case serialize_payload C max_bytes p of
        Inl e \<Rightarrow> (Inl e, d)
      | Inr bytes \<Rightarrow>
          if \<not> lock_taken pub then (Inl (TransportFailed ''cannot lock engine command queue''), d)
          else
            let d' = clean_stale_temps d; committed = scan_committed d' in
            if int (length committed) \<ge> max_depth then (Inl QueueFull, d')
            else if \<not> file_written pub then (Inl (TransportFailed ''cannot publish engine command''), d')
            else
              let name = stem (next_sequence (pub_now pub) committed) (pub_pid pub) (pub_nonce pub) @ cps ''.json'' in
              if list_ex (\<lambda>e. entry_name e = name \<and> entry_node e = Directory) d'
              then (Inl (TransportFailed ''cannot publish engine command''), d')
              else (Inr name, filter (\<lambda>e. entry_name e \<noteq> name) d' @ [\<lparr>entry_name = name, entry_node = Regular, entry_bytes = bytes\<rparr>]))"

definition list_committed_engine_commands ::
  "int option \<Rightarrow> bool \<Rightarrow> dir_entry list \<Rightarrow> (transport_error + utext list) \<times> dir_entry list" where
  "list_committed_engine_commands limit lock_ok d =
     (if (case limit of None \<Rightarrow> False | Some n \<Rightarrow> n < 0) then (Inl (CommandInvalid ''list limit must be nonnegative''), d)
      else if \<not> lock_ok then (Inl (TransportFailed ''cannot scan engine command queue''), d)
      else
        let d' = clean_stale_temps d; names = map (entry_name \<circ> snd) (scan_committed d')
        in (Inr (case limit of None \<Rightarrow> names | Some n \<Rightarrow> take (nat n) names), d'))"

text \<open>
  \<^verbatim>\<open>consume_engine_command_file\<close>: the file is removed before its payload is returned, also when it is
  malformed; a name of another kind is refused and nothing is removed. A directory cannot be
  removed with \<^verbatim>\<open>unlink\<close>, a symbolic link is removed and not followed.
\<close>

definition decode_payload :: "'p coder \<Rightarrow> int \<Rightarrow> nat list \<Rightarrow> transport_error + 'p option" where
  "decode_payload C max_bytes raw =
     (if int (length raw) > max_bytes then Inl (CommandInvalid ''command file exceeds the maximum'')
      else case loads C raw of
        None \<Rightarrow> Inl (CommandInvalid ''command file is not valid UTF-8 JSON'')
      | Some p \<Rightarrow> (case serialize_payload C max_bytes p of Inl e \<Rightarrow> Inl e | Inr _ \<Rightarrow> Inr (Some p)))"

definition consume_engine_command_file ::
  "'p coder \<Rightarrow> int \<Rightarrow> bool \<Rightarrow> utext \<Rightarrow> dir_entry list \<Rightarrow> (transport_error + 'p option) \<times> dir_entry list" where
  "consume_engine_command_file C max_bytes readable name d =
     (if COMMITTED_RE name = None then (Inl (CommandInvalid ''unrecognized engine command filename''), d)
      else case filter (\<lambda>e. entry_name e = name) d of
        [] \<Rightarrow> (Inr None, d)
      | e # _ \<Rightarrow>
          let removed = filter (\<lambda>e. entry_name e \<noteq> name) d in
          case entry_node e of
            Directory \<Rightarrow> (Inl (TransportFailed ''cannot remove consumed engine command''), d)
          | Symlink \<Rightarrow> (Inl (TransportFailed ''cannot read engine command''), removed)
          | Regular \<Rightarrow>
              if \<not> readable then (Inl (TransportFailed ''cannot read engine command''), removed)
              else (decode_payload C max_bytes (take (nat max_bytes + 1) (entry_bytes e)), removed))"

section \<open>The reader\<close>

text \<open>One poll: a batch is listed, each file of it consumed; the payloads that are dispatched.\<close>

fun consume_batch :: "'p coder \<Rightarrow> (utext \<Rightarrow> bool) \<Rightarrow> utext list \<Rightarrow> dir_entry list \<Rightarrow> 'p list \<times> dir_entry list" where
  "consume_batch C readable [] d = ([], d)"
| "consume_batch C readable (name # names) d =
     (let (got, d') = consume_engine_command_file C ENGINE_COMMAND_MAX_PAYLOAD_BYTES (readable name) name d;
          (rest, d'') = consume_batch C readable names d'
      in ((case got of Inr (Some p) \<Rightarrow> [p] | _ \<Rightarrow> []) @ rest, d''))"

text \<open>The old single slot, removed before it is looked at; a file that cannot be read is one that does not decode.\<close>

definition consume_legacy :: "'p coder \<Rightarrow> nat list option \<Rightarrow> 'p list" where
  "consume_legacy C slot =
     (case Option.bind slot (loads C) of None \<Rightarrow> []
      | Some p \<Rightarrow> if is_object C p \<and> (case command_text C p of None \<Rightarrow> False | Some t \<Rightarrow> py_strip t \<noteq> []) then [p] else [])"

definition check_commands :: "'p coder \<Rightarrow> nat list option \<Rightarrow> bool \<Rightarrow> (utext \<Rightarrow> bool) \<Rightarrow> dir_entry list \<Rightarrow> 'p list \<times> dir_entry list" where
  "check_commands C slot lock_ok readable d =
     (case list_committed_engine_commands (Some (int ENGINE_COMMAND_BATCH_SIZE)) lock_ok d of
        (Inl _, d') \<Rightarrow> (consume_legacy C slot, d')
      | (Inr names, d') \<Rightarrow> let (got, d'') = consume_batch C readable names d' in (consume_legacy C slot @ got, d''))"

section \<open>Names\<close>

definition nonce_ok :: "utext \<Rightarrow> bool" where
  "nonce_ok nonce \<longleftrightarrow> length nonce = 32 \<and> list_all is_hex nonce"

lemma pad20:
  assumes "n < 10 ^ 20"
  shows "length (pad20 n) = 20" "list_all is_digit (pad20 n)" "read_nat (pad20 n) = n"
  using length_show_nat [OF assms] show_nat_is_digits [of n]
  by (auto simp: pad20_def read_nat_zeros read_show_nat is_digit_def list_all_iff)

lemma number_then_dash:
  "takeWhile is_digit (show_nat n @ 45 # r) = show_nat n" "dropWhile is_digit (show_nat n @ 45 # r) = 45 # r"
  using show_nat_is_digits [of n] by (simp_all add: takeWhile_append dropWhile_append list_all_iff is_digit_def)

lemma parse_stem:
  assumes "n < 10 ^ 20" and "nonce_ok nonce"
  shows "parse_name pre post (pre @ pad20 n @ 45 # show_nat pid @ 45 # nonce @ post) = Some n"
  using pad20 [OF assms(1)] assms(2) show_nat_nonempty
  by (simp add: parse_name_def Let_def number_then_dash nonce_ok_def is_digit_def)

lemma committed_stem:
  "n < 10 ^ 20 \<Longrightarrow> nonce_ok nonce \<Longrightarrow> COMMITTED_RE (stem n pid nonce @ cps ''.json'') = Some n"
  using parse_stem [of n nonce "cps ''cmd-''" "cps ''.json''" pid] by (simp add: COMMITTED_RE_def stem_def)

lemma committed_not_temp: "COMMITTED_RE t = Some n \<Longrightarrow> TEMP_RE t = None"
  by (cases t) (auto simp: COMMITTED_RE_def TEMP_RE_def parse_name_def Let_def cps_def split: if_splits)

section \<open>The queue a directory holds\<close>

definition is_queue :: "dir_entry list \<Rightarrow> (nat \<times> dir_entry) list \<Rightarrow> bool" where
  "is_queue d cs \<longleftrightarrow> mset d = mset (map snd cs) \<and> sorted_wrt (<) (map fst cs)
     \<and> (\<forall>c\<in>set cs. entry_node (snd c) = Regular \<and> COMMITTED_RE (entry_name (snd c)) = Some (fst c))"

lemma map_filter_all: "(\<And>x. x \<in> set xs \<Longrightarrow> f x = Some (g x)) \<Longrightarrow> List.map_filter f xs = map g xs"
  by (induction xs) (simp_all add: List.map_filter_def)

lemma queue_name: "is_queue d cs \<Longrightarrow> c \<in> set cs \<Longrightarrow> COMMITTED_RE (entry_name (snd c)) = Some (fst c)"
  by (simp add: is_queue_def)

lemma queue_pair:
  assumes "is_queue d cs" and "e \<in> set d"
  obtains c where "c \<in> set cs" and "e = snd c"
proof -
  have "e \<in> snd ` set cs" using assms by (metis is_queue_def mset_eq_setD set_map)
  then show ?thesis using that by blast
qed

lemma is_queue_entry:
  assumes "is_queue d cs" and "e \<in> set d"
  shows "entry_node e = Regular \<and> (COMMITTED_RE (entry_name e) \<noteq> None)"
  by (rule queue_pair [OF assms]) (use assms(1) in \<open>auto simp: is_queue_def\<close>)

lemma is_queue_names:
  assumes "is_queue d cs" and "e \<in> set d" and "e' \<in> set d" and "entry_name e = entry_name e'"
  shows "e = e'"
proof -
  obtain c where c: "c \<in> set cs" "e = snd c" using queue_pair [OF assms(1,2)] .
  obtain c' where c': "c' \<in> set cs" "e' = snd c'" using queue_pair [OF assms(1,3)] .
  have "Some (fst c) = Some (fst c')" using queue_name [OF assms(1) c(1)] queue_name [OF assms(1) c'(1)] assms(4) c(2) c'(2) by simp
  moreover have "inj_on fst (set cs)" using assms(1) by (simp add: is_queue_def strict_sorted_iff distinct_map)
  ultimately have "c = c'" using inj_onD [of fst "set cs" c c'] c(1) c'(1) by simp
  then show ?thesis using c(2) c'(2) by simp
qed

lemma scan_queue:
  assumes "is_queue d cs"
  shows "scan_committed d = cs"
proof -
  let ?f = "\<lambda>e. (the (COMMITTED_RE (entry_name e)), e)" and ?key = "\<lambda>(s, e). (s, entry_name e)"
  have "List.map_filter (\<lambda>e. if entry_node e = Regular then map_option (\<lambda>s. (s, e)) (COMMITTED_RE (entry_name e)) else None) d = map ?f d"
    using is_queue_entry [OF assms] by (intro map_filter_all) auto
  moreover have "mset (map ?f d) = mset cs"
  proof -
    have "image_mset ?f (mset d) = image_mset (?f \<circ> snd) (mset cs)"
      using assms by (simp add: is_queue_def image_mset.compositionality)
    also have "\<dots> = image_mset id (mset cs)"
      using assms by (intro image_mset_cong) (auto simp: is_queue_def)
    finally show ?thesis by simp
  qed
  moreover have "inj_on ?key (set (map ?f d))"
    using is_queue_names [OF assms] by (auto simp: inj_on_def)
  moreover have "sorted (map ?key cs)"
    using assms by (auto simp: is_queue_def sorted_wrt_map split_beta intro: sorted_wrt_mono_rel [rotated])
  ultimately show ?thesis by (simp add: scan_committed_def sort_key_inj_key_eq)
qed

lemma queue_cleaned: "is_queue d cs \<Longrightarrow> clean_stale_temps d = d"
  using is_queue_entry committed_not_temp by (fastforce simp: clean_stale_temps_def intro!: filter_True)

lemma queue_relisted: "is_queue d cs \<Longrightarrow> mset d' = mset d \<Longrightarrow> is_queue d' cs"
  by (simp add: is_queue_def)

lemma next_sequence_later:
  assumes "is_queue d cs" and "c \<in> set cs"
  shows "fst c < next_sequence now cs"
proof -
  have "fst c \<le> fst (last cs)"
    using assms by (cases cs rule: rev_cases) (auto simp: is_queue_def sorted_wrt_append intro: less_imp_le)
  then show ?thesis using assms(2) by (auto simp: next_sequence_def)
qed

lemma queue_appended:
  assumes "is_queue d cs" and "entry_node e = Regular" and "COMMITTED_RE (entry_name e) = Some (next_sequence now cs)"
  shows "is_queue (filter (\<lambda>x. entry_name x \<noteq> entry_name e) d @ [e]) (cs @ [(next_sequence now cs, e)])"
proof -
  have "entry_name x \<noteq> entry_name e" if x: "x \<in> set d" for x
  proof -
    obtain c where c: "c \<in> set cs" "x = snd c" using queue_pair [OF assms(1) x] .
    then show ?thesis using next_sequence_later [OF assms(1) c(1), of now] assms(1,3) by (auto simp: is_queue_def)
  qed
  then have "filter (\<lambda>x. entry_name x \<noteq> entry_name e) d = d" by (simp add: filter_id_conv)
  then show ?thesis using assms next_sequence_later [OF assms(1)] by (auto simp: is_queue_def sorted_wrt_append)
qed

lemma queue_head:
  assumes "is_queue d ((s, e) # cs)"
  shows "filter (\<lambda>x. entry_name x = entry_name e) d = [e]" "is_queue (filter (\<lambda>x. entry_name x \<noteq> entry_name e) d) cs"
proof -
  have m: "mset d = add_mset e (mset (map snd cs))" using assms by (simp add: is_queue_def)
  have other: "entry_name (snd c) \<noteq> entry_name e" if "c \<in> set cs" for c
  proof
    assume "entry_name (snd c) = entry_name e"
    then have "fst c = s" using queue_name [OF assms, of c] queue_name [OF assms, of "(s, e)"] that by simp
    then show False using assms that by (auto simp: is_queue_def)
  qed
  have "filter_mset (\<lambda>x. entry_name x = entry_name e) (mset (map snd cs)) = {#}"
    "filter_mset (\<lambda>x. entry_name x \<noteq> entry_name e) (mset (map snd cs)) = mset (map snd cs)"
    using other by (auto simp: filter_mset_eq_conv image_iff)
  then have "mset (filter (\<lambda>x. entry_name x = entry_name e) d) = {#e#}"
    "mset (filter (\<lambda>x. entry_name x \<noteq> entry_name e) d) = mset (map snd cs)"
    using m by simp_all
  then show "filter (\<lambda>x. entry_name x = entry_name e) d = [e]" "is_queue (filter (\<lambda>x. entry_name x \<noteq> entry_name e) d) cs"
    using assms by (simp_all only: mset_single_iff) (simp add: is_queue_def)
qed

section \<open>Delivery\<close>

text \<open>
  The commands of a directory that a reader would get, in their order. The steps of a run: writers publish
  or are refused, the one reader lists a batch and consumes it file by file, may restart in between, and \<^verbatim>\<open>iterdir\<close>
  may give the entries in another order each time. \<^term>\<open>faults\<close> tells whether a file may turn out unreadable.
\<close>

definition waiting :: "'p coder \<Rightarrow> dir_entry list \<Rightarrow> 'p list" where
  "waiting C d = List.map_filter (\<lambda>(_, e).
     case decode_payload C ENGINE_COMMAND_MAX_PAYLOAD_BYTES (take (nat ENGINE_COMMAND_MAX_PAYLOAD_BYTES + 1) (entry_bytes e)) of
       Inr (Some p) \<Rightarrow> Some p | _ \<Rightarrow> None) (scan_committed d)"

definition CLOCK_LIMIT :: nat where "CLOCK_LIMIT = 10 ^ 19"

text \<open>The clock has nineteen digits, the nonce is one of \<^verbatim>\<open>uuid4().hex\<close>, and the payload is what its own JSON text decodes to.\<close>

definition publish_ok :: "'p coder \<Rightarrow> publish \<Rightarrow> 'p \<Rightarrow> bool" where
  "publish_ok C pub p \<longleftrightarrow> pub_now pub < CLOCK_LIMIT \<and> nonce_ok (pub_nonce pub)
     \<and> (case dumps C p of None \<Rightarrow> True | Some b \<Rightarrow> loads C b = Some p)"

inductive command_run :: "'p coder \<Rightarrow> bool \<Rightarrow> dir_entry list \<Rightarrow> utext list \<Rightarrow> 'p list \<Rightarrow> 'p list \<Rightarrow> bool" for C faults where
  opened: "command_run C faults [] [] [] []"
| published: "command_run C faults d batch acc disp \<Longrightarrow> publish_ok C pub p
    \<Longrightarrow> enqueue_engine_command C ENGINE_COMMAND_MAX_DEPTH ENGINE_COMMAND_MAX_PAYLOAD_BYTES pub p d = (Inr name, d')
    \<Longrightarrow> command_run C faults d' batch (acc @ [p]) disp"
| refused: "command_run C faults d batch acc disp
    \<Longrightarrow> enqueue_engine_command C ENGINE_COMMAND_MAX_DEPTH ENGINE_COMMAND_MAX_PAYLOAD_BYTES pub p d = (Inl err, d')
    \<Longrightarrow> command_run C faults d' batch acc disp"
| listed: "command_run C faults d [] acc disp
    \<Longrightarrow> list_committed_engine_commands (Some (int ENGINE_COMMAND_BATCH_SIZE)) lock_ok d = (Inr names, d')
    \<Longrightarrow> command_run C faults d' names acc disp"
| unlisted: "command_run C faults d [] acc disp
    \<Longrightarrow> list_committed_engine_commands (Some (int ENGINE_COMMAND_BATCH_SIZE)) lock_ok d = (Inl err, d')
    \<Longrightarrow> command_run C faults d' [] acc disp"
| consumed: "command_run C faults d (name # names) acc disp \<Longrightarrow> readable \<or> faults
    \<Longrightarrow> consume_engine_command_file C ENGINE_COMMAND_MAX_PAYLOAD_BYTES readable name d = (got, d')
    \<Longrightarrow> command_run C faults d' names acc (disp @ (case got of Inr (Some p) \<Rightarrow> [p] | _ \<Rightarrow> []))"
| restarted: "command_run C faults d batch acc disp \<Longrightarrow> command_run C faults d [] acc disp"
| relisted: "command_run C faults d batch acc disp \<Longrightarrow> mset d' = mset d \<Longrightarrow> command_run C faults d' batch acc disp"

definition loads_as :: "'p coder \<Rightarrow> nat \<times> dir_entry \<Rightarrow> 'p \<Rightarrow> bool" where
  "loads_as C c p \<longleftrightarrow> decode_payload C ENGINE_COMMAND_MAX_PAYLOAD_BYTES
     (take (nat ENGINE_COMMAND_MAX_PAYLOAD_BYTES + 1) (entry_bytes (snd c))) = Inr (Some p)"

definition delivered :: "bool \<Rightarrow> 'p list \<Rightarrow> 'p list \<Rightarrow> bool" where
  "delivered faults xs acc \<longleftrightarrow> (if faults then subseq xs acc else xs = acc)"

definition queue_inv :: "'p coder \<Rightarrow> bool \<Rightarrow> dir_entry list \<Rightarrow> utext list \<Rightarrow> 'p list \<Rightarrow> 'p list
    \<Rightarrow> (nat \<times> dir_entry) list \<Rightarrow> 'p list \<Rightarrow> bool" where
  "queue_inv C faults d batch acc disp cs ps \<longleftrightarrow> is_queue d cs \<and> list_all2 (loads_as C) cs ps
     \<and> Sublist.prefix batch (map (entry_name \<circ> snd) cs) \<and> list_all (\<lambda>c. fst c < CLOCK_LIMIT + length acc) cs
     \<and> int (length cs) \<le> ENGINE_COMMAND_MAX_DEPTH \<and> delivered faults (disp @ ps) acc"

lemma delivered_snoc: "delivered faults (xs @ ps) acc \<Longrightarrow> delivered faults (xs @ ps @ [p]) (acc @ [p])"
  using list_emb_append_mono [of "(=)" "xs @ ps" acc "[p]" "[p]"] by (auto simp: delivered_def split: if_splits)

lemma delivered_lost: "delivered True (xs @ p # ps) acc \<Longrightarrow> delivered True (xs @ ps) acc"
  using list_emb_append_mono [of "(=)" xs xs ps "p # ps"] by (auto simp: delivered_def intro: subseq_order.trans)

lemma waiting_queue:
  assumes "is_queue d cs" and "list_all2 (loads_as C) cs ps"
  shows "waiting C d = ps"
  using assms(2) unfolding waiting_def scan_queue [OF assms(1)]
  by (induction rule: list_all2_induct) (auto simp: loads_as_def List.map_filter_def)

lemma enqueue_accepts:
  assumes "enqueue_engine_command C depth maxb pub p d = (Inr name, d')" and "is_queue d cs"
  shows "\<exists>bytes. serialize_payload C maxb p = Inr bytes \<and> int (length cs) < depth
    \<and> name = stem (next_sequence (pub_now pub) cs) (pub_pid pub) (pub_nonce pub) @ cps ''.json''
    \<and> d' = filter (\<lambda>e. entry_name e \<noteq> name) d @ [\<lparr>entry_name = name, entry_node = Regular, entry_bytes = bytes\<rparr>]"
  using assms by (auto simp: enqueue_engine_command_def Let_def queue_cleaned scan_queue split: if_splits sum.splits)

lemma enqueue_refuses:
  assumes "enqueue_engine_command C depth maxb pub p d = (Inl err, d')" and "is_queue d cs"
  shows "d' = d"
  using assms by (auto simp: enqueue_engine_command_def Let_def queue_cleaned scan_queue split: if_splits sum.splits)

lemma loads_as_entry:
  assumes "serialize_payload C ENGINE_COMMAND_MAX_PAYLOAD_BYTES p = Inr bytes" and "publish_ok C pub p"
  shows "loads_as C (s, \<lparr>entry_name = name, entry_node = Regular, entry_bytes = bytes\<rparr>) p"
proof -
  have b: "dumps C p = Some bytes" "int (length bytes) \<le> ENGINE_COMMAND_MAX_PAYLOAD_BYTES"
    using assms(1) by (auto simp: serialize_payload_def split: if_splits option.splits)
  then have "take (nat ENGINE_COMMAND_MAX_PAYLOAD_BYTES + 1) bytes = bytes" by simp
  then show ?thesis using b assms by (simp add: loads_as_def decode_payload_def publish_ok_def)
qed

lemma inv_published:
  assumes inv: "queue_inv C faults d batch acc disp cs ps" and ok: "publish_ok C pub p" and limit: "length acc < CLOCK_LIMIT"
    and step: "enqueue_engine_command C ENGINE_COMMAND_MAX_DEPTH ENGINE_COMMAND_MAX_PAYLOAD_BYTES pub p d = (Inr name, d')"
  shows "\<exists>cs ps. queue_inv C faults d' batch (acc @ [p]) disp cs ps"
proof -
  let ?s = "next_sequence (pub_now pub) cs"
  have q: "is_queue d cs" using inv by (simp add: queue_inv_def)
  obtain bytes where b: "serialize_payload C ENGINE_COMMAND_MAX_PAYLOAD_BYTES p = Inr bytes" "int (length cs) < ENGINE_COMMAND_MAX_DEPTH"
    "name = stem ?s (pub_pid pub) (pub_nonce pub) @ cps ''.json''"
    "d' = filter (\<lambda>e. entry_name e \<noteq> name) d @ [\<lparr>entry_name = name, entry_node = Regular, entry_bytes = bytes\<rparr>]"
    using enqueue_accepts [OF step q] by blast
  let ?e = "\<lparr>entry_name = name, entry_node = Regular, entry_bytes = bytes\<rparr>"
  have "?s < CLOCK_LIMIT + length (acc @ [p])"
    using inv ok by (cases cs rule: rev_cases) (auto simp: next_sequence_def publish_ok_def queue_inv_def)
  moreover from this have "?s < 10 ^ 20" using limit by (simp add: CLOCK_LIMIT_def)
  then have "COMMITTED_RE (entry_name ?e) = Some ?s"
    using ok b(3) by (simp add: committed_stem publish_ok_def)
  then have "is_queue d' (cs @ [(?s, ?e)])"
    using queue_appended [OF q, of ?e "pub_now pub"] b(4) by simp
  moreover have "list_all2 (loads_as C) (cs @ [(?s, ?e)]) (ps @ [p])"
    using inv loads_as_entry [OF b(1) ok] by (simp add: queue_inv_def list_all2_appendI)
  moreover have "list_all (\<lambda>c. fst c < CLOCK_LIMIT + length (acc @ [p])) cs"
    using inv by (auto simp: queue_inv_def list_all_iff)
  ultimately have "queue_inv C faults d' batch (acc @ [p]) disp (cs @ [(?s, ?e)]) (ps @ [p])"
    using inv b(2) by (auto simp: queue_inv_def delivered_snoc)
  then show ?thesis by blast
qed

lemma list_queue:
  assumes "is_queue d cs"
  shows "list_committed_engine_commands (Some (int n)) lock_ok d
    = (if lock_ok then Inr (take n (map (entry_name \<circ> snd) cs)) else Inl (TransportFailed ''cannot scan engine command queue''), d)"
  by (simp add: list_committed_engine_commands_def queue_cleaned [OF assms] scan_queue [OF assms] Let_def)

lemma consume_head:
  assumes "is_queue d (c # cs)" and "loads_as C c p"
  shows "consume_engine_command_file C ENGINE_COMMAND_MAX_PAYLOAD_BYTES readable (entry_name (snd c)) d
    = (if readable then Inr (Some p) else Inl (TransportFailed ''cannot read engine command''),
       filter (\<lambda>e. entry_name e \<noteq> entry_name (snd c)) d)"
  using assms queue_head [of d "fst c" "snd c" cs]
  by (simp add: consume_engine_command_file_def queue_name [OF assms(1)] is_queue_def loads_as_def Let_def)

lemma inv_consumed:
  assumes "queue_inv C faults d (name # names) acc disp cs ps" and "readable \<or> faults"
    and "consume_engine_command_file C ENGINE_COMMAND_MAX_PAYLOAD_BYTES readable name d = (got, d')"
  shows "\<exists>cs ps. queue_inv C faults d' names acc (disp @ (case got of Inr (Some p) \<Rightarrow> [p] | _ \<Rightarrow> [])) cs ps"
proof -
  obtain c cs' where cs: "cs = c # cs'" "name = entry_name (snd c)"
    using assms(1) by (cases cs) (auto simp: queue_inv_def)
  then obtain p ps' where ps: "ps = p # ps'" "loads_as C c p"
    using assms(1) by (auto simp: queue_inv_def list_all2_Cons1)
  have q: "is_queue d (c # cs')" using assms(1) cs by (simp add: queue_inv_def)
  have rest: "is_queue (filter (\<lambda>e. entry_name e \<noteq> name) d) cs'"
    using queue_head(2) [of d "fst c" "snd c" cs'] q cs(2) by simp
  have "got = (if readable then Inr (Some p) else Inl (TransportFailed ''cannot read engine command''))"
    "d' = filter (\<lambda>e. entry_name e \<noteq> name) d"
    using assms(3) consume_head [OF q ps(2), of readable] cs(2) by simp_all
  then have "queue_inv C faults d' names acc (disp @ (case got of Inr (Some p) \<Rightarrow> [p] | _ \<Rightarrow> [])) cs' ps'"
    using assms(1,2) rest cs ps delivered_lost [of disp p ps' acc] by (cases readable) (auto simp: queue_inv_def)
  then show ?thesis by blast
qed

lemma command_run_inv:
  "command_run C faults d batch acc disp \<Longrightarrow> length acc < CLOCK_LIMIT \<Longrightarrow> \<exists>cs ps. queue_inv C faults d batch acc disp cs ps"
proof (induction rule: command_run.induct)
  case opened
  have "queue_inv C faults [] [] [] [] [] []"
    by (simp add: queue_inv_def is_queue_def delivered_def ENGINE_COMMAND_MAX_DEPTH_def)
  then show ?case by blast
next
  case (published d batch acc disp pub p name d')
  then obtain cs ps where "queue_inv C faults d batch acc disp cs ps" by auto
  then show ?case using inv_published published.hyps(2,3) published.prems by (metis Suc_lessD length_append_singleton)
next
  case (refused d batch acc disp pub p err d')
  then obtain cs ps where inv: "queue_inv C faults d batch acc disp cs ps" by auto
  then have "d' = d" using enqueue_refuses [OF refused.hyps(2), of cs] by (simp add: queue_inv_def)
  then show ?case using inv by blast
next
  case (listed d acc disp lock_ok names d')
  then obtain cs ps where inv: "queue_inv C faults d [] acc disp cs ps" by auto
  then have "d' = d" "names = take ENGINE_COMMAND_BATCH_SIZE (map (entry_name \<circ> snd) cs)"
    using listed.hyps(2) by (auto simp: queue_inv_def list_queue split: if_splits)
  then have "queue_inv C faults d' names acc disp cs ps" using inv by (simp add: queue_inv_def take_is_prefix del: take_map)
  then show ?case by blast
next
  case (unlisted d acc disp lock_ok err d')
  then obtain cs ps where inv: "queue_inv C faults d [] acc disp cs ps" by auto
  then have "d' = d" using unlisted.hyps(2) by (auto simp: queue_inv_def list_queue split: if_splits)
  then show ?case using inv by blast
next
  case (consumed d name names acc disp readable got d')
  then show ?case using inv_consumed by blast
next
  case (restarted d batch acc disp)
  then show ?case by (auto simp: queue_inv_def)
next
  case (relisted d batch acc disp d')
  then obtain cs ps where "queue_inv C faults d batch acc disp cs ps" by auto
  then have "queue_inv C faults d' batch acc disp cs ps" using queue_relisted [OF _ relisted.hyps(2)] by (simp add: queue_inv_def)
  then show ?case by blast
qed


lemma consume_batch_queue:
  assumes "is_queue d cs" and "list_all2 (loads_as C) cs ps"
  shows "fst (consume_batch C (\<lambda>_. True) (take n (map (entry_name \<circ> snd) cs)) d) = take n ps
    \<and> is_queue (snd (consume_batch C (\<lambda>_. True) (take n (map (entry_name \<circ> snd) cs)) d)) (drop n cs)"
  using assms
proof (induction n arbitrary: d cs ps)
  case (Suc n)
  show ?case
  proof (cases cs)
    case Nil
    then show ?thesis using Suc.prems by simp
  next
    case (Cons c cs')
    then obtain p ps' where ps: "ps = p # ps'" "loads_as C c p" "list_all2 (loads_as C) cs' ps'"
      using Suc.prems(2) by (auto simp: list_all2_Cons1)
    have q: "is_queue d (c # cs')" using Suc.prems(1) Cons by simp
    have "is_queue (filter (\<lambda>e. entry_name e \<noteq> entry_name (snd c)) d) cs'"
      using queue_head(2) [of d "fst c" "snd c" cs'] q by simp
    from Suc.IH [OF this ps(3)] show ?thesis
      by (simp add: Cons ps(1) consume_head [OF q ps(2)] split_beta)
  qed
qed simp

text \<open>
  One poll that can lock the queue and read its files dispatches the command of the old single slot, when there is
  a valid one, then the 32 commands that have waited longest, or all when fewer wait, in their order, and leaves the
  others waiting.
\<close>

theorem poll_delivers_batch:
  assumes "command_run C faults d batch acc disp" and "length acc < CLOCK_LIMIT"
  shows "fst (check_commands C slot True (\<lambda>_. True) d) = consume_legacy C slot @ take 32 (waiting C d)
    \<and> waiting C (snd (check_commands C slot True (\<lambda>_. True) d)) = drop 32 (waiting C d)"
proof -
  obtain cs ps where inv: "is_queue d cs" "list_all2 (loads_as C) cs ps"
    using command_run_inv [OF assms] by (auto simp: queue_inv_def)
  let ?batch = "consume_batch C (\<lambda>_. True) (take 32 (map (entry_name \<circ> snd) cs)) d"
  have poll: "check_commands C slot True (\<lambda>_. True) d = (consume_legacy C slot @ fst ?batch, snd ?batch)"
    by (simp add: check_commands_def list_queue [OF inv(1)] ENGINE_COMMAND_BATCH_SIZE_def split_beta del: of_nat_numeral)
  show ?thesis
    using consume_batch_queue [OF inv, of 32] waiting_queue [OF inv] list_all2_dropI [OF inv(2), of 32]
    by (auto simp: poll waiting_queue)
qed

text \<open>A coder whose texts are the commands themselves, and a directory with one of them.\<close>

definition echo :: "utext coder" where
  "echo = \<lparr>is_object = (\<lambda>_. True), command_text = Some, dumps = Some, loads = Some\<rparr>"

definition one_command :: "dir_entry list" where
  "one_command = [\<lparr>entry_name = stem 1 7 (replicate 32 97) @ cps ''.json'', entry_node = Regular, entry_bytes = [97]\<rparr>]"

lemma one_command_run: "command_run echo False one_command [] [[97]] []"
proof -
  let ?pub = "\<lparr>pub_now = 0, pub_pid = 7, pub_nonce = replicate 32 97, lock_taken = True, file_written = True\<rparr>"
  have "py_strip [97] \<noteq> []" by (simp add: py_strip_def py_isspace_def)
  then have "enqueue_engine_command echo ENGINE_COMMAND_MAX_DEPTH ENGINE_COMMAND_MAX_PAYLOAD_BYTES ?pub [97] []
      = (Inr (stem 1 7 (replicate 32 97) @ cps ''.json''), one_command)"
    by (simp add: enqueue_engine_command_def serialize_payload_def echo_def clean_stale_temps_def scan_committed_def
        List.map_filter_def next_sequence_def one_command_def ENGINE_COMMAND_MAX_DEPTH_def ENGINE_COMMAND_MAX_PAYLOAD_BYTES_def Let_def)
  moreover have "publish_ok echo ?pub [97]"
    by (simp add: publish_ok_def echo_def nonce_ok_def is_hex_def CLOCK_LIMIT_def list_all_iff)
  ultimately show ?thesis using published [OF opened] by fastforce
qed


theorem poll_delivers_batch_witness:
  "fst (check_commands echo None True (\<lambda>_. True) one_command) = take 32 (waiting echo one_command)"
  using poll_delivers_batch [OF one_command_run, of None] by (simp add: CLOCK_LIMIT_def consume_legacy_def)

text \<open>
  A number of 21 digits is written in full and no longer matches the pattern: behind a queued command with the largest
  number of 20 digits, the next one is reported as published and never seen by the reader.
\<close>

lemma overflow_unparsed:
  assumes "10 ^ 20 \<le> n"
  shows "COMMITTED_RE (stem n pid nonce @ t) = None"
proof -
  have long: "20 < length (show_nat n)" using show_nat_longer [OF assms] .
  then have "is_digit (hd (drop 20 (show_nat n)))" using show_nat_is_digits [of n] by (simp add: hd_drop_conv_nth list_all_length)
  then have "hd (drop 20 (show_nat n @ r)) \<noteq> 45" for r using long by (simp add: is_digit_def hd_append)
  then show ?thesis using long by (simp add: COMMITTED_RE_def stem_def parse_name_def pad20_def cps_def Let_def)
qed

theorem overflowing_sequence_unseen:
  assumes "is_queue d cs" and "10 ^ 20 \<le> next_sequence (pub_now pub) cs"
    and "enqueue_engine_command C depth maxb pub p d = (Inr name, d')"
  shows "waiting C d' = waiting C d"
proof -
  have name: "name = stem (next_sequence (pub_now pub) cs) (pub_pid pub) (pub_nonce pub) @ cps ''.json''"
    and d': "\<exists>bytes. d' = filter (\<lambda>e. entry_name e \<noteq> name) d @ [\<lparr>entry_name = name, entry_node = Regular, entry_bytes = bytes\<rparr>]"
    using enqueue_accepts [OF assms(3,1)] by auto
  have unparsed: "COMMITTED_RE name = None" using overflow_unparsed [OF assms(2)] name by simp
  then have "filter (\<lambda>e. entry_name e \<noteq> name) d = d" using is_queue_entry [OF assms(1)] by (fastforce simp: filter_id_conv)
  then have "scan_committed d' = scan_committed d" using d' unparsed by (auto simp: scan_committed_def List.map_filter_def)
  then show ?thesis by (simp add: waiting_def)
qed

definition last_sequence :: "dir_entry list" where
  "last_sequence = [\<lparr>entry_name = stem (10 ^ 20 - 1) 7 (replicate 32 97) @ cps ''.json'', entry_node = Regular, entry_bytes = [97]\<rparr>]"

lemma last_sequence_queue:
  "is_queue last_sequence [(10 ^ 20 - 1, hd last_sequence)] \<and> next_sequence 0 [(10 ^ 20 - 1, hd last_sequence)] = 10 ^ 20"
  using committed_stem [of "10 ^ 20 - 1" "replicate 32 97" 7]
  by (simp add: is_queue_def last_sequence_def nonce_ok_def is_hex_def list_all_iff next_sequence_def)

end
