(* ===== verification/Deck_Fade.thy ===== *)
theory Deck_Fade
  imports Complex_Main
begin

text \<open>
  The volume controller of one mixer pad, \<^verbatim>\<open>library/services/deck_fade.py\<close>. The control source of
  GStreamer keeps values at points in time (setting a time again replaces its value); the pad's last
  synchronisation, its current volume and the clock are arguments. Gains are exact reals.
\<close>

definition FADE_CONTROL_POINTS :: nat where "FADE_CONTROL_POINTS = 33"

definition fade_curve :: "real \<Rightarrow> real" where
  "fade_curve fraction = (let f = min 1 (max 0 fraction) in if f \<ge> 1 then 0 else cos (pi / 2 * f))"

datatype anchor_source = LastSync | Clock

record control =
  armed_sync :: "int option"
  anchor_ns :: "int option"
  end_ns :: "int option"
  anchored_from :: "anchor_source option"
  points :: "int \<rightharpoonup> real"

definition fresh_control :: control where
  "fresh_control = \<lparr>armed_sync = None, anchor_ns = None, end_ns = None, anchored_from = None, points = Map.empty\<rparr>"

definition arm :: "int option \<Rightarrow> control \<Rightarrow> control" where
  "arm last_sync c = c\<lparr>armed_sync := last_sync, anchor_ns := None, end_ns := None, anchored_from := None\<rparr>"

text \<open>The points of a fade, in the order they are set.\<close>

definition fade_points :: "int \<Rightarrow> int \<Rightarrow> real \<Rightarrow> (int \<times> real) list" where
  "fade_points start duration gain =
     map (\<lambda>i. (start + duration * int i div int (FADE_CONTROL_POINTS - 1),
               gain * fade_curve (real i / real (FADE_CONTROL_POINTS - 1)))) [0..<FADE_CONTROL_POINTS]"

definition set_all :: "(int \<times> real) list \<Rightarrow> int \<rightharpoonup> real" where
  "set_all ps = fold (\<lambda>(t, v) m. m(t \<mapsto> v)) ps Map.empty"

text \<open>\<^verbatim>\<open>anchor_fade\<close>; None is the refusal, which changes nothing.\<close>

definition anchor_fade :: "int \<Rightarrow> bool \<Rightarrow> int option \<Rightarrow> int option \<Rightarrow> real \<Rightarrow> control \<Rightarrow> control option" where
  "anchor_fade duration fallback last_sync running volume c =
     (let program = (\<lambda>start from. c\<lparr>anchored_from := Some from, anchor_ns := Some start, end_ns := Some (start + duration),
            points := set_all (fade_points start duration volume)\<rparr>)
      in if last_sync \<noteq> None \<and> last_sync \<noteq> armed_sync c then map_option (\<lambda>t. program t LastSync) last_sync
         else if fallback then map_option (\<lambda>t. program t Clock) running
         else None)"

text \<open>\<^verbatim>\<open>ramp_to_unity\<close>; None is the refusal without a position.\<close>

definition ramp_to_unity :: "int \<Rightarrow> int option \<Rightarrow> int option \<Rightarrow> real \<Rightarrow> control \<Rightarrow> control option" where
  "ramp_to_unity duration last_sync running volume c =
     map_option (\<lambda>start. c\<lparr>points := set_all [(start, volume), (start + duration, 1)], anchor_ns := None, end_ns := None\<rparr>)
       (case last_sync of None \<Rightarrow> running | Some t \<Rightarrow> Some t)"

section \<open>The fade\<close>

lemma fade_curve_cos:
  obtains "1 \<le> x" "fade_curve x = 0"
  | "x < 1" "0 \<le> max 0 x" "pi / 2 * max 0 x \<le> pi / 2" "fade_curve x = cos (pi / 2 * max 0 x)"
proof (cases "1 \<le> x")
  case True
  then show ?thesis using that(1) by (simp add: fade_curve_def)
next
  case False
  then have "max 0 x \<le> 1" "min 1 (max 0 x) = max 0 x" "\<not> 1 \<le> max 0 x" by auto
  then show ?thesis using that(2) False by (simp add: fade_curve_def Let_def mult_le_cancel_left1)
qed

lemma fade_curve_bounds: "0 \<le> fade_curve x" "fade_curve x \<le> 1"
proof -
  show "0 \<le> fade_curve x"
    by (rule fade_curve_cos [of x]) (auto intro!: cos_ge_zero intro: order_trans [of _ 0])
  show "fade_curve x \<le> 1" by (rule fade_curve_cos [of x]) auto
qed

lemma fade_curve_decreasing:
  assumes "x \<le> y"
  shows "fade_curve y \<le> fade_curve x"
proof (rule fade_curve_cos [of y])
  assume "fade_curve y = 0"
  then show ?thesis using fade_curve_bounds(1) [of x] by simp
next
  assume y: "y < 1" "pi / 2 * max 0 y \<le> pi / 2" "fade_curve y = cos (pi / 2 * max 0 y)"
  have x: "fade_curve x = cos (pi / 2 * max 0 x)"
    by (rule fade_curve_cos [of x]) (use assms y(1) in auto)
  have "pi / 2 * max 0 x \<le> pi / 2 * max 0 y" using assms by (intro mult_left_mono) auto
  moreover have "pi / 2 * max 0 y \<le> pi" using y(2) pi_gt_zero by linarith
  ultimately show ?thesis unfolding x y(3) by (intro cos_monotone_0_pi_le) simp_all
qed

lemma fold_updates: "distinct (map fst ps) \<Longrightarrow> fold (\<lambda>(t, v) m. m(t \<mapsto> v)) ps m = m ++ map_of ps"
proof (induction ps arbitrary: m)
  case (Cons tv ps)
  obtain t v where tv: "tv = (t, v)" by (rule prod.exhaust)
  have "m(t \<mapsto> v) ++ map_of ps = m ++ map_of (tv # ps)"
    using Cons.prems map_of_eq_None_iff [of ps t] by (auto simp: tv fun_eq_iff map_add_def split: option.splits)
  moreover have "distinct (map fst ps)" using Cons.prems by simp
  ultimately show ?case using Cons.IH [of "m(t \<mapsto> v)"] by (simp only: tv fold_simps prod.case)
qed simp

lemma set_all_sorted:
  assumes "sorted_wrt (<) (map fst ps)"
  shows "set_all ps = map_of ps"
  using assms by (simp add: set_all_def fold_updates strict_sorted_iff)

lemma fade_times_increase:
  assumes "32 \<le> duration"
  shows "sorted_wrt (<) (map fst (fade_points start duration gain))"
proof -
  have "duration * int i div 32 < duration * int j div 32" if "i < j" for i j
  proof -
    have "duration * int i + 32 \<le> duration * int j"
      using that assms mult_left_mono [of "int i + 1" "int j" duration] by (simp add: algebra_simps)
    then have "(duration * int i + 32) div 32 \<le> duration * int j div 32" by (rule zdiv_mono1) simp
    then show ?thesis by simp
  qed
  then show ?thesis by (auto simp: fade_points_def FADE_CONTROL_POINTS_def sorted_wrt_map intro!: sorted_wrt_mono_rel [OF _ sorted_wrt_upt])
qed

text \<open>
  A fade runs from the current gain down to silence and never rises: its points are 33, in time order
  and all kept, the first is the current gain at the anchor, the last is exactly 0 at the end, and each gain
  lies between 0 and the one before.
\<close>

theorem fade_reaches_silence:
  assumes "anchor_fade duration fallback last_sync running gain c = Some c'" and "0 \<le> gain" and "32 \<le> duration"
  shows "\<exists>start. anchor_ns c' = Some start \<and> end_ns c' = Some (start + duration)
    \<and> points c' = map_of (fade_points start duration gain) \<and> sorted_wrt (<) (map fst (fade_points start duration gain))
    \<and> length (fade_points start duration gain) = 33
    \<and> hd (fade_points start duration gain) = (start, gain) \<and> last (fade_points start duration gain) = (start + duration, 0)
    \<and> sorted_wrt (\<ge>) (map snd (fade_points start duration gain)) \<and> list_all (\<lambda>v. 0 \<le> v \<and> v \<le> gain) (map snd (fade_points start duration gain))"
proof -
  obtain start where start: "anchor_ns c' = Some start" "end_ns c' = Some (start + duration)"
    and "points c' = set_all (fade_points start duration gain)"
    using assms(1) by (auto simp: anchor_fade_def Let_def split: if_splits)
  moreover have sorted: "sorted_wrt (<) (map fst (fade_points start duration gain))" using assms(3) by (rule fade_times_increase)
  ultimately have points: "points c' = map_of (fade_points start duration gain)" by (simp add: set_all_sorted)
  have upt: "[0..<33] = 0 # [1..<33]" "[0..<33] = [0..<32] @ [32::nat]" by (simp_all add: upt_rec)
  have len: "length (fade_points start duration gain) = 33" by (simp add: fade_points_def FADE_CONTROL_POINTS_def)
  have hd: "hd (fade_points start duration gain) = (start, gain)"
    by (simp only: fade_points_def FADE_CONTROL_POINTS_def upt(1)) (simp add: fade_curve_def)
  have last: "last (fade_points start duration gain) = (start + duration, 0)"
    by (simp only: fade_points_def FADE_CONTROL_POINTS_def upt(2)) (simp add: fade_curve_def)
  have "gain * fade_curve (real j / 32) \<le> gain * fade_curve (real i / 32)" if "i < j" for i j
    using that assms(2) by (intro mult_left_mono fade_curve_decreasing) auto
  then have down: "sorted_wrt (\<ge>) (map snd (fade_points start duration gain))"
    by (auto simp: fade_points_def FADE_CONTROL_POINTS_def sorted_wrt_map intro!: sorted_wrt_mono_rel [OF _ sorted_wrt_upt])
  have between: "list_all (\<lambda>v. 0 \<le> v \<and> v \<le> gain) (map snd (fade_points start duration gain))"
    using assms(2) fade_curve_bounds by (auto simp: fade_points_def list_all_iff mult_left_le)
  show ?thesis using start points sorted len hd last down between by blast
qed

theorem fade_reaches_silence_witness:
  "last (fade_points 7 250000000 1) = (250000007, 0)"
proof -
  have "anchor_fade 250000000 False (Some 7) None 1 fresh_control
      = Some (fresh_control\<lparr>anchored_from := Some LastSync, anchor_ns := Some 7, end_ns := Some 250000007,
          points := set_all (fade_points 7 250000000 1)\<rparr>)"
    by (simp add: anchor_fade_def fresh_control_def)
  from fade_reaches_silence [OF this] show ?thesis by simp
qed

section \<open>The way back\<close>

lemma ramp_ends_at_unity:
  assumes "ramp_to_unity duration last_sync running volume c = Some c'"
  shows "\<exists>start. points c' (start + duration) = Some 1"
  using assms by (auto simp: ramp_to_unity_def set_all_def)

end
