(* ===== verification/Start_Next.thy ===== *)
theory Start_Next
  imports Deck_Fade Air_Text Air_Number "HOL-Library.Product_Lexorder"
begin

text \<open>
  The operator's Start Next of the playback engine: \<^verbatim>\<open>library/services/engine.py\<close> (the
  \<^verbatim>\<open>_start_next_...\<close> methods), with the identity of its commands
  (\<^verbatim>\<open>start_next_identity.py\<close>). The decks are a store of objects; what the rest of the engine, GStreamer and
  the clocks answer is an argument of every handler, collected in \<open>reads\<close>.
\<close>

section \<open>The command\<close>

text \<open>The JSON of a command file; \<^verbatim>\<open>json.loads\<close> also reads NaN and the infinities.\<close>

datatype py_float = Finite rat | PosInf | NegInf | NaN

datatype jvalue = VNull | VBool bool | VInt int | VFloat py_float | VText utext | VList "jvalue list"
  | VDict "(utext \<times> jvalue) list"

definition field_or :: "jvalue \<Rightarrow> (utext \<times> jvalue) list \<Rightarrow> string \<Rightarrow> jvalue" where
  "field_or other d k = (case map_of d (cps k) of None \<Rightarrow> other | Some v \<Rightarrow> v)"

abbreviation field :: "(utext \<times> jvalue) list \<Rightarrow> string \<Rightarrow> jvalue" where
  "field \<equiv> field_or VNull"

definition client_char :: "nat \<Rightarrow> bool" where
  "client_char c \<longleftrightarrow> (65 \<le> c \<and> c \<le> 90) \<or> (97 \<le> c \<and> c \<le> 122) \<or> (48 \<le> c \<and> c \<le> 57) \<or> c = 45"

text \<open>The regular expression ends in \<^verbatim>\<open>$\<close>, which also matches before a final line feed.\<close>

definition CLIENT_REQUEST_ID :: "utext \<Rightarrow> bool" where
  "CLIENT_REQUEST_ID t =
     (let body = (if t \<noteq> [] \<and> last t = 10 then butlast t else t)
      in 8 \<le> length body \<and> length body \<le> 64 \<and> list_all client_char body)"

definition valid_client_request_id :: "jvalue \<Rightarrow> bool" where
  "valid_client_request_id v = (case v of VText t \<Rightarrow> CLIENT_REQUEST_ID t | _ \<Rightarrow> False)"

definition MAX_ENGINE_INSTANCE_LENGTH :: nat where "MAX_ENGINE_INSTANCE_LENGTH = 64"

definition valid_engine_instance :: "jvalue \<Rightarrow> bool" where
  "valid_engine_instance v =
     (case v of VText t \<Rightarrow> 0 < length t \<and> length t \<le> MAX_ENGINE_INSTANCE_LENGTH \<and> py_strip t = t | _ \<Rightarrow> False)"

datatype slot = SlotA | SlotB

definition slot_of_value :: "jvalue \<Rightarrow> slot option" where
  "slot_of_value v = (if v = VText (cps ''A'') then Some SlotA else if v = VText (cps ''B'') then Some SlotB else None)"

definition slot_rank :: "slot \<Rightarrow> nat" where
  "slot_rank s = (case s of SlotA \<Rightarrow> 0 | SlotB \<Rightarrow> 1)"

definition parse_deck :: "jvalue \<Rightarrow> (slot \<times> int \<times> int) option" where
  "parse_deck v =
     (case v of
        VDict d \<Rightarrow>
          if set (map fst d) \<noteq> {cps ''slot'', cps ''log_item_id'', cps ''generation''} then None
          else (case (slot_of_value (field d ''slot''), field d ''log_item_id'', field d ''generation'') of
            (Some sl, VInt i, VInt g) \<Rightarrow> if i > 0 \<and> g > 0 then Some (sl, i, g) else None
          | _ \<Rightarrow> None)
      | _ \<Rightarrow> None)"

fun parse_decks :: "jvalue list \<Rightarrow> (slot \<times> int \<times> int) list option" where
  "parse_decks [] = Some []"
| "parse_decks (v # vs) =
     (case parse_deck v of None \<Rightarrow> None | Some d \<Rightarrow> map_option (Cons d) (parse_decks vs))"

definition parse_expected_live_decks :: "jvalue \<Rightarrow> (slot \<times> int \<times> int) list py" where
  "parse_expected_live_decks expected =
     (case expected of
        VDict e \<Rightarrow>
          if set (map fst e) \<noteq> {cps ''live_decks''} then Inl ValueError
          else (case field e ''live_decks'' of
            VList ds \<Rightarrow>
              if length ds > 2 then Inl ValueError
              else (case parse_decks ds of
                None \<Rightarrow> Inl ValueError
              | Some parsed \<Rightarrow> if distinct (map fst parsed) then Inr (sort_key (slot_rank \<circ> fst) parsed) else Inl ValueError)
          | _ \<Rightarrow> Inl ValueError)
      | _ \<Rightarrow> Inl ValueError)"

definition live_decks_payload :: "(slot \<times> int \<times> int) list \<Rightarrow> jvalue" where
  "live_decks_payload parsed = VDict [(cps ''live_decks'', VList (map (\<lambda>(sl, i, g).
     VDict [(cps ''slot'', VText (cps (case sl of SlotA \<Rightarrow> ''A'' | SlotB \<Rightarrow> ''B''))), (cps ''log_item_id'', VInt i),
            (cps ''generation'', VInt g)]) parsed))]"

section \<open>The decks\<close>

datatype seek_phase = Prerolling | Seeking | Confirming

text \<open>A deck's control is the controller of a pad and is named by it: a pad has at most one.\<close>

record deck =
  deck_slot :: slot
  log_item :: "int option"
  deck_generation :: int
  deck_paused :: bool
  finished :: bool
  retirement_started :: bool
  completion_claimed :: bool
  gated_seek :: "seek_phase option"
  mixer_pad :: "nat option"
  volume_control :: "nat option"
  occurrence_order :: int

record playout =
  store :: "nat \<Rightarrow> deck"
  slots :: "slot \<Rightarrow> nat option"
  next_triggered :: bool
  manual_mode :: bool
  manual_from_mic :: bool
  manual_hold_pending :: bool
  deck_open_failures :: nat

definition set_deck :: "nat \<Rightarrow> (deck \<Rightarrow> deck) \<Rightarrow> playout \<Rightarrow> playout" where
  "set_deck n f p = p\<lparr>store := (store p)(n := f (store p n))\<rparr>"

definition other_slot :: "slot \<Rightarrow> slot" where
  "other_slot s = (if s = SlotA then SlotB else SlotA)"

definition deck_is_live :: "deck \<Rightarrow> bool" where
  "deck_is_live d \<longleftrightarrow> \<not> deck_paused d \<and> \<not> finished d \<and> \<not> retirement_started d"

definition occupied :: "playout \<Rightarrow> nat list" where
  "occupied p = List.map_filter (slots p) [SlotA, SlotB]"

definition decks_live :: "playout \<Rightarrow> nat list" where
  "decks_live p = sort_key (\<lambda>n. (occurrence_order (store p n), deck_generation (store p n)))
     (filter (\<lambda>n. deck_is_live (store p n)) (occupied p))"

text \<open>\<^verbatim>\<open>claim_completion\<close>\<close>

definition claim_completion :: "nat \<Rightarrow> playout \<Rightarrow> bool \<times> playout" where
  "claim_completion n p =
     (if completion_claimed (store p n) then (False, p) else (True, set_deck n (completion_claimed_update (\<lambda>_. True)) p))"

text \<open>The part of \<^verbatim>\<open>_remove_deck\<close> that changes the decks.\<close>

definition remove_deck :: "nat \<Rightarrow> playout \<Rightarrow> playout" where
  "remove_deck n p =
     (if retirement_started (store p n) then p
      else let sl = deck_slot (store p n) in
        set_deck n (\<lambda>d. d\<lparr>retirement_started := True, finished := True, mixer_pad := None,
            volume_control := (if mixer_pad d = None then volume_control d else None)\<rparr>)
          (if slots p sl = Some n then p\<lparr>slots := (slots p)(sl := None)\<rparr> else p))"

text \<open>What the world answers to a handler.\<close>

record reads =
  wall_clock :: rat
  monotonic :: rat
  next_cue :: "playout \<Rightarrow> rat option"
  slot_available :: "playout \<Rightarrow> slot \<Rightarrow> bool"
  any_mic_live :: bool
  remote_reconnecting :: bool
  vt_idle :: bool
  fade_supported :: bool
  foreign_binding :: "nat \<Rightarrow> bool"
  last_sync :: "nat \<Rightarrow> int option"
  clock_running :: "int option"
  pad_volume :: "nat \<Rightarrow> real"
  start_track :: "slot option \<Rightarrow> playout \<Rightarrow> playout"
  log_exhausted :: "slot \<Rightarrow> playout \<Rightarrow> playout"

definition free_slot :: "reads \<Rightarrow> playout \<Rightarrow> slot option" where
  "free_slot R p = List.find (\<lambda>s. slots p s = None \<and> slot_available R p s) [SlotA, SlotB]"

definition set_manual_mode :: "reads \<Rightarrow> bool \<Rightarrow> bool \<Rightarrow> playout \<Rightarrow> playout" where
  "set_manual_mode R on from_mic_release p =
     (let p1 = p\<lparr>manual_mode := on\<rparr>; p2 = (if from_mic_release then p1 else p1\<lparr>manual_from_mic := False\<rparr>) in
      if \<not> on \<and> manual_hold_pending p2
      then start_track R None (p2\<lparr>manual_hold_pending := False, next_triggered := False\<rparr>) else p2)"

section \<open>A transition\<close>

datatype start_mode = Overlap | FadeAndStart | StartOnly
datatype phase = Advancing | Fading | ToSilence
datatype timer = AnchorTimer int | IncomingTimer int | CompletionTimer int

record transition =
  request_id :: utext
  client_id :: utext
  fade_ms :: int
  start_mode_of :: start_mode
  phase_of :: phase
  release_manual :: bool
  accepted_at :: rat
  accepted_monotonic :: rat
  fade_ends_at :: rat
  outgoing :: "(slot \<times> int option \<times> int) option"
  outgoing_deck :: "nat option"
  outgoing_ended :: bool
  incoming :: "(slot \<times> int option) option"
  incoming_slot :: "slot option"
  incoming_attempted :: bool
  fade :: "nat option"
  fade_owned :: bool
  fade_anchored :: bool
  timers :: "timer list"
  paused_deck :: "nat option"
  incoming_delay_ms :: "int option"

datatype outcome_kind = Rejected | Completed | CompletedToSilence | Failed | Cancelled

record outcome_record =
  out_request :: "utext option"
  out_client :: "utext option"
  out_kind :: outcome_kind
  out_reason :: "string option"
  out_mode :: "start_mode option"
  out_fade :: "int option"
  manual_released :: bool

text \<open>What the engine prints about its transitions, and the incoming items it asks the queue for.\<close>

datatype entry = Accepted utext start_mode | StartCall utext | Outcome outcome_record | Ignored utext

datatype callback = ThenStartOnly utext | ThenFinish utext | ThenAfter utext

text \<open>The identity of the user in a command, as a dictionary key: equal numbers are one key, a NaN is none.\<close>

datatype user_key = KNull | KNumber rat | KInf bool | KText utext | KNaN

record restoration =
  restoring_token :: utext
  restoring_deck :: nat
  restoring_pad :: nat

record engine =
  engine_session :: utext
  seen_ids :: "(utext \<times> bool) list"
  seen_clients :: "((user_key \<times> utext) \<times> utext) list"
  active :: "transition option"
  restoring :: "restoration option"
  recent :: "outcome_record list"
  trace :: "entry list"
  play :: playout
  controls :: "nat \<Rightarrow> control"
  retire_callbacks :: "(nat \<times> callback) list"

definition START_NEXT_FADE_MS_MIN :: int where "START_NEXT_FADE_MS_MIN = 250"
definition START_NEXT_FADE_MS_MAX :: int where "START_NEXT_FADE_MS_MAX = 10000"
definition START_NEXT_MAX_COMMAND_AGE_SECONDS :: rat where "START_NEXT_MAX_COMMAND_AGE_SECONDS = 5"
definition START_NEXT_MAX_FUTURE_SKEW_SECONDS :: rat where "START_NEXT_MAX_FUTURE_SKEW_SECONDS = 2"
definition START_NEXT_RECENT_LIMIT :: nat where "START_NEXT_RECENT_LIMIT = 8"
definition START_NEXT_SEEN_LIMIT :: nat where "START_NEXT_SEEN_LIMIT = 64"
definition START_NEXT_COMPLETION_GRACE_MS :: int where "START_NEXT_COMPLETION_GRACE_MS = 60"
definition START_NEXT_COMPLETION_POLL_MS :: int where "START_NEXT_COMPLETION_POLL_MS = 50"
definition START_NEXT_COMPLETION_MAX_EXTRA_MS :: rat where "START_NEXT_COMPLETION_MAX_EXTRA_MS = 1500"
definition START_NEXT_RESTORE_MS :: int where "START_NEXT_RESTORE_MS = 250"
definition START_NEXT_SILENT_VOLUME :: real where "START_NEXT_SILENT_VOLUME = 1 / 100"
definition START_NEXT_WATCHDOG_EXTRA_SECONDS :: rat where "START_NEXT_WATCHDOG_EXTRA_SECONDS = 5"
definition START_NEXT_ANCHOR_POLL_MS :: int where "START_NEXT_ANCHOR_POLL_MS = 5"
definition START_NEXT_ANCHOR_MAX_WAIT_MS :: rat where "START_NEXT_ANCHOR_MAX_WAIT_MS = 200"
definition SILENCE_PRIME_SECONDS :: rat where "SILENCE_PRIME_SECONDS = 3 / 10"
definition MSECOND :: int where "MSECOND = 1000000"

definition start_next_current :: "utext \<Rightarrow> engine \<Rightarrow> transition option" where
  "start_next_current token s =
     (case active s of None \<Rightarrow> None | Some a \<Rightarrow> if request_id a \<noteq> token then None else Some a)"

text \<open>\<^verbatim>\<open>_start_next_remember\<close>, which is called for keys that the book does not hold.\<close>

definition remember :: "'k \<Rightarrow> 'v \<Rightarrow> ('k \<times> 'v) list \<Rightarrow> ('k \<times> 'v) list" where
  "remember k v book = (let b = book @ [(k, v)] in drop (length b - START_NEXT_SEEN_LIMIT) b)"

definition deck_identity :: "deck \<Rightarrow> slot \<times> int option \<times> int" where
  "deck_identity d = (deck_slot d, log_item d, deck_generation d)"

definition start_next_record :: "outcome_record \<Rightarrow> engine \<Rightarrow> engine" where
  "start_next_record r s =
     s\<lparr>recent := take START_NEXT_RECENT_LIMIT (r # recent s), trace := trace s @ [Outcome r]\<rparr>"

definition start_next_reject :: "utext option \<Rightarrow> utext option \<Rightarrow> int option \<Rightarrow> string \<Rightarrow> engine \<Rightarrow> engine" where
  "start_next_reject req cl fd why s = start_next_record \<lparr>out_request = req, out_client = cl, out_kind = Rejected,
     out_reason = Some why, out_mode = None, out_fade = fd, manual_released = False\<rparr> s"

definition put_active :: "transition \<Rightarrow> engine \<Rightarrow> engine" where
  "put_active a s = s\<lparr>active := Some a\<rparr>"

section \<open>How a transition ends\<close>

definition start_next_terminal :: "transition \<Rightarrow> outcome_kind \<Rightarrow> string option \<Rightarrow> bool \<Rightarrow> engine \<Rightarrow> engine" where
  "start_next_terminal a kd why released s =
     start_next_record \<lparr>out_request = Some (request_id a), out_client = Some (client_id a), out_kind = kd, out_reason = why,
       out_mode = Some (start_mode_of a), out_fade = Some (fade_ms a), manual_released = released\<rparr> (s\<lparr>active := None\<rparr>)"

definition start_next_finish :: "reads \<Rightarrow> utext \<Rightarrow> engine \<Rightarrow> engine" where
  "start_next_finish R token s =
     (case start_next_current token s of
        None \<Rightarrow> s
      | Some a \<Rightarrow>
          let p = (play s)\<lparr>next_triggered := False\<rparr>;
              to_silence = (phase_of a = ToSilence);
              release = (\<not> to_silence \<and> release_manual a \<and> manual_mode p \<and> \<not> manual_from_mic p
                \<and> \<not> any_mic_live R \<and> \<not> remote_reconnecting R);
              p1 = (if release then set_manual_mode R False False (p\<lparr>manual_hold_pending := False\<rparr>) else p);
              s1 = start_next_terminal a (if to_silence then CompletedToSilence else Completed) None release (s\<lparr>play := p1\<rparr>)
          in s1\<lparr>play :=
               (if decks_live p1 \<noteq> [] then p1
                else if manual_mode p1 then p1\<lparr>manual_hold_pending := True\<rparr>
                else if to_silence
                then log_exhausted R (case outgoing a of None \<Rightarrow> SlotA | Some (sl, _) \<Rightarrow> sl) p1
                else start_track R None p1)\<rparr>)"

text \<open>\<^verbatim>\<open>_start_next_release_outgoing\<close>, with \<^verbatim>\<open>_start_next_track_restore\<close>; the parameter \<^verbatim>\<open>restore\<close> of the source has no effect.\<close>

definition track_restore :: "nat \<Rightarrow> nat \<Rightarrow> utext \<Rightarrow> engine \<Rightarrow> engine" where
  "track_restore n pad token s = s\<lparr>restoring := Some \<lparr>restoring_token = token, restoring_deck = n, restoring_pad = pad\<rparr>\<rparr>"

definition release_outgoing :: "reads \<Rightarrow> transition \<Rightarrow> engine \<Rightarrow> engine" where
  "release_outgoing R a s =
     (case (fade a, fade_owned a) of
        (Some pad, True) \<Rightarrow>
          let s1 = put_active (a\<lparr>fade_owned := False\<rparr>) s in
          (case outgoing_deck a of
             None \<Rightarrow> s1
           | Some n \<Rightarrow>
               let d = store (play s) n in
               if volume_control d \<noteq> Some pad \<or> mixer_pad d \<noteq> Some pad then s1
               else case ramp_to_unity (START_NEXT_RESTORE_MS * MSECOND) (last_sync R pad) (clock_running R) (pad_volume R pad)
                      (controls s pad) of
                 None \<Rightarrow> s1
               | Some c \<Rightarrow> track_restore n pad (request_id a) (s1\<lparr>controls := (controls s)(pad := c)\<rparr>))
      | _ \<Rightarrow> s)"

definition give_up :: "reads \<Rightarrow> transition \<Rightarrow> outcome_kind \<Rightarrow> string \<Rightarrow> engine \<Rightarrow> engine" where
  "give_up R a kd why s =
     (let s1 = release_outgoing R a s in
      start_next_terminal a kd (Some why) False (s1\<lparr>play := (play s1)\<lparr>next_triggered := False\<rparr>\<rparr>))"

definition start_next_fail :: "reads \<Rightarrow> utext \<Rightarrow> string \<Rightarrow> engine \<Rightarrow> engine" where
  "start_next_fail R token why s =
     (case start_next_current token s of None \<Rightarrow> s | Some a \<Rightarrow> give_up R a Failed why s)"

definition start_next_cancel :: "reads \<Rightarrow> utext \<Rightarrow> string \<Rightarrow> engine \<Rightarrow> engine" where
  "start_next_cancel R token why s =
     (case start_next_current token s of None \<Rightarrow> s | Some a \<Rightarrow> give_up R a Cancelled why s)"

section \<open>The incoming item\<close>

definition outgoing_intact :: "transition \<Rightarrow> playout \<Rightarrow> bool" where
  "outgoing_intact a p =
     (case outgoing_deck a of None \<Rightarrow> False
      | Some n \<Rightarrow> slots p (deck_slot (store p n)) = Some n \<and> deck_is_live (store p n))"

datatype start_result = Started | Empty | OpenFailed

definition start_incoming :: "reads \<Rightarrow> transition \<Rightarrow> slot option \<Rightarrow> engine \<Rightarrow> start_result \<times> transition \<times> engine" where
  "start_incoming R a sl s =
     (let p = play s; p1 = start_track R sl p;
          a1 = a\<lparr>incoming_attempted := True\<rparr>;
          s1 = s\<lparr>play := p1, trace := trace s @ [StartCall (request_id a)]\<rparr>
      in case filter (\<lambda>n. n \<notin> set (occupied p)) (occupied p1) of
           n # _ \<Rightarrow>
             let a2 = a1\<lparr>incoming := Some (deck_slot (store p1 n), log_item (store p1 n))\<rparr>
             in (Started, a2, put_active a2 s1)
         | [] \<Rightarrow> ((if deck_open_failures p1 > deck_open_failures p then OpenFailed else Empty), a1, put_active a1 s1))"

definition start_next_start_only :: "reads \<Rightarrow> utext \<Rightarrow> engine \<Rightarrow> engine" where
  "start_next_start_only R token s =
     (case start_next_current token s of
        None \<Rightarrow> s
      | Some a \<Rightarrow>
          if next_cue R (play s) = None then start_next_finish R token (put_active (a\<lparr>phase_of := ToSilence\<rparr>) s)
          else if free_slot R (play s) = None then start_next_fail R token ''slot_unavailable'' s
          else case start_incoming R a None s of
            (Started, a1, s1) \<Rightarrow> start_next_finish R token (put_active (a1\<lparr>phase_of := Advancing\<rparr>) s1)
          | (OpenFailed, a1, s1) \<Rightarrow> start_next_fail R token ''incoming_open_failed'' s1
          | (Empty, a1, s1) \<Rightarrow> start_next_finish R token (put_active (a1\<lparr>phase_of := ToSilence\<rparr>) s1))"

definition start_next_incoming_due :: "reads \<Rightarrow> utext \<Rightarrow> engine \<Rightarrow> engine" where
  "start_next_incoming_due R token s =
     (case start_next_current token s of
        None \<Rightarrow> s
      | Some a \<Rightarrow>
          if incoming_attempted a then s
          else if \<not> outgoing_ended a \<and> \<not> outgoing_intact a (play s) then start_next_cancel R token ''outgoing_retired'' s
          else if next_cue R (play s) = None
          then put_active (a\<lparr>incoming_attempted := True, phase_of := ToSilence\<rparr>) s
          else if (case incoming_slot a of None \<Rightarrow> True
             | Some sl \<Rightarrow> slots (play s) sl \<noteq> None \<or> \<not> slot_available R (play s) sl)
          then start_next_fail R token ''slot_unavailable'' (put_active (a\<lparr>incoming_attempted := True\<rparr>) s)
          else case start_incoming R a (incoming_slot a) s of
            (Started, a1, s1) \<Rightarrow> put_active (a1\<lparr>phase_of := Advancing\<rparr>) s1
          | (OpenFailed, a1, s1) \<Rightarrow> start_next_fail R token ''incoming_open_failed'' s1
          | (Empty, a1, s1) \<Rightarrow> put_active (a1\<lparr>phase_of := ToSilence\<rparr>) s1)"

section \<open>Retiring a deck\<close>

definition start_next_after :: "reads \<Rightarrow> utext \<Rightarrow> engine \<Rightarrow> engine" where
  "start_next_after R token s =
     (case start_next_current token s of
        None \<Rightarrow> s
      | Some a \<Rightarrow> start_next_finish R token (if incoming_attempted a then s else start_next_incoming_due R token s))"

fun run_callback :: "reads \<Rightarrow> callback \<Rightarrow> engine \<Rightarrow> engine" where
  "run_callback R (ThenStartOnly token) s = start_next_start_only R token s"
| "run_callback R (ThenFinish token) s = start_next_finish R token s"
| "run_callback R (ThenAfter token) s = start_next_after R token s"

definition retire_deck :: "reads \<Rightarrow> nat \<Rightarrow> callback \<Rightarrow> engine \<Rightarrow> engine" where
  "retire_deck R n cb s =
     (if gated_seek (store (play s) n) = Some Seeking
      then s\<lparr>retire_callbacks := retire_callbacks s @ [(n, cb)]\<rparr>
      else run_callback R cb
        (s\<lparr>play := remove_deck n (set_deck n (gated_seek_update (\<lambda>_. None)) (play s))\<rparr>))"

text \<open>\<^verbatim>\<open>_finish_deferred_retirement\<close>: the native seek has returned.\<close>

definition finish_deferred_retirement :: "reads \<Rightarrow> nat \<Rightarrow> engine \<Rightarrow> engine" where
  "finish_deferred_retirement R n s =
     fold (\<lambda>(_, cb). run_callback R cb) (filter (\<lambda>c. fst c = n) (retire_callbacks s))
       (s\<lparr>play := remove_deck n (set_deck n (gated_seek_update (\<lambda>_. None)) (play s)),
          retire_callbacks := filter (\<lambda>c. fst c \<noteq> n) (retire_callbacks s)\<rparr>)"

section \<open>The fade\<close>

definition start_next_completion_due :: "reads \<Rightarrow> utext \<Rightarrow> engine \<Rightarrow> engine" where
  "start_next_completion_due R token s =
     (case start_next_current token s of
        None \<Rightarrow> s
      | Some a0 \<Rightarrow>
          let s1 = (if incoming_attempted a0 then s else start_next_incoming_due R token s) in
          case start_next_current token s1 of
            None \<Rightarrow> s1
          | Some a \<Rightarrow>
              if outgoing_ended a then s1
              else if \<not> outgoing_intact a (play s1) then start_next_cancel R token ''outgoing_retired'' s1
              else case (fade a, outgoing_deck a) of
                (Some pad, Some n) \<Rightarrow>
                  if pad_volume R pad > START_NEXT_SILENT_VOLUME
                     \<and> (monotonic R - accepted_monotonic a) * 1000 < of_int (fade_ms a) + START_NEXT_COMPLETION_MAX_EXTRA_MS
                  then put_active (a\<lparr>timers := timers a @ [CompletionTimer START_NEXT_COMPLETION_POLL_MS]\<rparr>) s1
                  else let (claimed, p) = claim_completion n (play s1) in
                    if \<not> claimed then s1
                    else retire_deck R n (ThenFinish token)
                      (put_active (a\<lparr>fade_owned := False, outgoing_ended := True\<rparr>) (s1\<lparr>play := p\<rparr>))
              | _ \<Rightarrow> s1)"

definition start_next_outgoing_ended :: "reads \<Rightarrow> nat \<Rightarrow> engine \<Rightarrow> engine" where
  "start_next_outgoing_ended R n s =
     (case active s of
        None \<Rightarrow> s
      | Some a \<Rightarrow> retire_deck R n (ThenAfter (request_id a)) (put_active (a\<lparr>fade_owned := False, outgoing_ended := True\<rparr>) s))"

text \<open>\<^verbatim>\<open>_handle_deck_finished\<close>, as far as it concerns the transition.\<close>

definition handle_deck_finished :: "reads \<Rightarrow> nat \<Rightarrow> engine \<Rightarrow> engine" where
  "handle_deck_finished R n s =
     (let d = store (play s) n in
      if finished d \<or> retirement_started d \<or> slots (play s) (deck_slot d) \<noteq> Some n then s
      else case active s of None \<Rightarrow> s
        | Some a \<Rightarrow> if outgoing_deck a = Some n then start_next_outgoing_ended R n s else s)"

text \<open>The handler of the anchor timer, with whether it wants to be called again.\<close>

definition start_next_anchor_due :: "reads \<Rightarrow> utext \<Rightarrow> engine \<Rightarrow> bool \<times> engine" where
  "start_next_anchor_due R token s =
     (case start_next_current token s of
        None \<Rightarrow> (False, s)
      | Some a \<Rightarrow>
          (case fade a of
             None \<Rightarrow> (False, s)
           | Some pad \<Rightarrow>
               if \<not> fade_owned a \<or> fade_anchored a then (False, s)
               else case anchor_fade (fade_ms a * MSECOND)
                      ((monotonic R - accepted_monotonic a) * 1000 \<ge> START_NEXT_ANCHOR_MAX_WAIT_MS)
                      (last_sync R pad) (clock_running R) (pad_volume R pad) (controls s pad) of
                 None \<Rightarrow> (True, s)
               | Some c \<Rightarrow>
                   (False, put_active
                     (a\<lparr>fade_anchored := True, fade_ends_at := wall_clock R + of_int (fade_ms a) / 1000,
                        timers := timers a
                          @ (case incoming_delay_ms a of
                               Some delay \<Rightarrow> if incoming_attempted a then [] else [IncomingTimer (max 1 delay)]
                             | None \<Rightarrow> [])
                          @ [CompletionTimer (fade_ms a + START_NEXT_COMPLETION_GRACE_MS)]\<rparr>)
                     (s\<lparr>controls := (controls s)(pad := c)\<rparr>))))"

section \<open>Accepting a command\<close>

definition restore_in_progress :: "engine \<Rightarrow> bool \<times> engine" where
  "restore_in_progress s =
     (case restoring s of
        None \<Rightarrow> (False, s)
      | Some r \<Rightarrow>
          let d = store (play s) (restoring_deck r) in
          if deck_is_live d \<and> volume_control d = Some (restoring_pad r) then (True, s) else (False, s\<lparr>restoring := None\<rparr>))"

text \<open>\<^verbatim>\<open>_deck_volume_control\<close>, None being the ControlConflict.\<close>

definition deck_volume_control :: "reads \<Rightarrow> nat \<Rightarrow> nat \<Rightarrow> engine \<Rightarrow> engine option" where
  "deck_volume_control R n pad s =
     (if volume_control (store (play s) n) = Some pad then Some s
      else if foreign_binding R pad then None
      else Some (s\<lparr>play := set_deck n (volume_control_update (\<lambda>_. Some pad)) (play s), controls := (controls s)(pad := fresh_control)\<rparr>))"

definition paused_decks :: "playout \<Rightarrow> nat list" where
  "paused_decks p = filter (\<lambda>n. deck_paused (store p n)) (occupied p)"

definition transitional_decks :: "playout \<Rightarrow> nat list" where
  "transitional_decks p = filter (\<lambda>n. n \<notin> set (decks_live p) \<and> n \<notin> set (paused_decks p)) (occupied p)"

text \<open>The mode, the outgoing and the incoming deck, or the refusal.\<close>

definition choose_mode :: "reads \<Rightarrow> playout \<Rightarrow> string + start_mode \<times> nat option \<times> nat option" where
  "choose_mode R p =
     (let paused = paused_decks p in
      if transitional_decks p \<noteq> [] then Inl ''slot_unavailable''
         else case decks_live p of
           [a, b] \<Rightarrow> Inr (Overlap, Some a, Some b)
         | [a] \<Rightarrow>
             let other = other_slot (deck_slot (store p a)) in
             if paused \<noteq> [] then Inl ''paused_deck_occupies_slot''
             else if slots p other \<noteq> None \<or> \<not> slot_available R p other then Inl ''slot_unavailable''
             else Inr (FadeAndStart, Some a, None)
         | _ \<Rightarrow>
             if length paused > 1 then Inl ''paused_deck_occupies_slot''
             else if paused = [] \<and> next_cue R p = None then Inl ''nothing_to_start''
             else if paused = [] \<and> free_slot R p = None then Inl ''slot_unavailable''
             else Inr (StartOnly, None, None))"

text \<open>The outgoing deck's controller: none is needed when nothing plays.\<close>

definition bind_control :: "reads \<Rightarrow> nat option \<Rightarrow> engine \<Rightarrow> (nat option \<times> engine) option" where
  "bind_control R out s =
     (case out of
        None \<Rightarrow> Some (None, s)
      | Some n \<Rightarrow>
          (case mixer_pad (store (play s) n) of
             None \<Rightarrow> None
           | Some pad \<Rightarrow>
               if \<not> fade_supported R then None
               else map_option (\<lambda>s1. (Some pad, s1)) (deck_volume_control R n pad s)))"

definition incoming_delay :: "int \<Rightarrow> rat option \<Rightarrow> int" where
  "incoming_delay fd cue = (case cue of None \<Rightarrow> fd
     | Some c \<Rightarrow> max 0 (round_even (of_int fd - (c + SILENCE_PRIME_SECONDS) * 1000)))"

text \<open>From acceptance on.\<close>

definition begin_fade :: "reads \<Rightarrow> transition \<Rightarrow> nat \<Rightarrow> engine \<Rightarrow> engine" where
  "begin_fade R a pad s =
     (let token = request_id a;
          delay = (if start_mode_of a = FadeAndStart then Some (incoming_delay (fade_ms a) (next_cue R (play s))) else None);
          s1 = put_active (a\<lparr>incoming_delay_ms := delay\<rparr>)
            (s\<lparr>play := (play s)\<lparr>next_triggered := True\<rparr>, controls := (controls s)(pad := arm (last_sync R pad) (controls s pad))\<rparr>);
          s2 = (case delay of Some dl \<Rightarrow> if dl \<le> 0 then start_next_incoming_due R token s1 else s1 | None \<Rightarrow> s1)
      in case start_next_current token s2 of None \<Rightarrow> s2
         | Some _ \<Rightarrow>
             let (again, s3) = start_next_anchor_due R token s2 in
             if \<not> again then s3
             else case start_next_current token s3 of None \<Rightarrow> s3
               | Some a3 \<Rightarrow> put_active (a3\<lparr>timers := timers a3 @ [AnchorTimer START_NEXT_ANCHOR_POLL_MS]\<rparr>) s3)"

definition begin_start_only :: "reads \<Rightarrow> transition \<Rightarrow> engine \<Rightarrow> engine" where
  "begin_start_only R a s =
     (let token = request_id a in
      case paused_deck a of
        None \<Rightarrow> start_next_start_only R token s
      | Some n \<Rightarrow>
          let (claimed, p) = claim_completion n (play s) in
          if claimed
          then retire_deck R n (ThenStartOnly token)
            (put_active (a\<lparr>outgoing := Some (deck_identity (store p n))\<rparr>) (s\<lparr>play := p\<rparr>))
          else start_next_start_only R token s)"

definition new_transition ::
  "reads \<Rightarrow> utext \<Rightarrow> utext \<Rightarrow> int \<Rightarrow> bool \<Rightarrow> start_mode \<Rightarrow> nat option \<Rightarrow> nat option \<Rightarrow> nat option \<Rightarrow> playout \<Rightarrow> transition" where
  "new_transition R token cl fd rel m out inc control p =
     (let paused = paused_decks p in
      \<lparr>request_id = token, client_id = cl, fade_ms = fd, start_mode_of = m,
       phase_of = (if m = Overlap then Advancing else Fading), release_manual = rel,
       accepted_at = wall_clock R, accepted_monotonic = monotonic R,
       fade_ends_at = wall_clock R + (if out = None then 0 else of_int fd / 1000),
       outgoing = map_option (\<lambda>n. deck_identity (store p n)) out, outgoing_deck = out, outgoing_ended = False,
       incoming = map_option (\<lambda>n. (deck_slot (store p n), log_item (store p n))) inc,
       incoming_slot = (if m = FadeAndStart then map_option (\<lambda>n. other_slot (deck_slot (store p n))) out else None),
       incoming_attempted = (m = Overlap), fade = control, fade_owned = (control \<noteq> None), fade_anchored = False,
       timers = [], paused_deck = (if m = StartOnly then (case paused of [] \<Rightarrow> None | n # _ \<Rightarrow> Some n) else None),
       incoming_delay_ms = None\<rparr>)"

definition accept :: "reads \<Rightarrow> utext \<Rightarrow> utext \<Rightarrow> int \<Rightarrow> bool \<Rightarrow> start_mode \<Rightarrow> nat option \<Rightarrow> nat option \<Rightarrow> nat option \<Rightarrow> engine \<Rightarrow> engine" where
  "accept R token cl fd rel m out inc control s =
     (let a = new_transition R token cl fd rel m out inc control (play s);
          s1 = (put_active a s)\<lparr>trace := trace s @ [Accepted token m], play := (play s)\<lparr>manual_hold_pending := False\<rparr>\<rparr>
      in case control of None \<Rightarrow> begin_start_only R a s1 | Some pad \<Rightarrow> begin_fade R a pad s1)"

text \<open>
  What makes a command malformed. \<open>valid_number\<close> are the ints and floats, of which a bool is none.
\<close>

definition valid_number :: "jvalue \<Rightarrow> bool" where
  "valid_number v = (case v of VInt _ \<Rightarrow> True | VFloat _ \<Rightarrow> True | _ \<Rightarrow> False)"

definition valid_fade :: "jvalue \<Rightarrow> bool" where
  "valid_fade v = (case v of VInt i \<Rightarrow> START_NEXT_FADE_MS_MIN \<le> i \<and> i \<le> START_NEXT_FADE_MS_MAX | _ \<Rightarrow> False)"

definition valid_flag :: "jvalue \<Rightarrow> bool" where
  "valid_flag v = (case v of VBool _ \<Rightarrow> True | _ \<Rightarrow> False)"

definition well_formed :: "(utext \<times> jvalue) list \<Rightarrow> bool" where
  "well_formed d \<longleftrightarrow> valid_number (field d ''issued_at'') \<and> valid_fade (field d ''fade_ms'')
     \<and> valid_flag (field_or (VBool False) d ''release_manual'') \<and> valid_client_request_id (field d ''client_request_id'')
     \<and> valid_engine_instance (field d ''engine_instance'') \<and> is_ok (parse_expected_live_decks (field d ''expected''))"

definition text_of :: "jvalue \<Rightarrow> utext option" where
  "text_of v = (case v of VText t \<Rightarrow> Some t | _ \<Rightarrow> None)"

text \<open>The exceptions that escape: an unhashable user, and \<^verbatim>\<open>float\<close> of an integer out of its range.\<close>

datatype command_error = UnhashableUser | FloatOverflow

definition user_key :: "jvalue \<Rightarrow> user_key option" where
  "user_key v =
     (case v of VNull \<Rightarrow> Some KNull
      | VBool b \<Rightarrow> Some (KNumber (if b then 1 else 0)) | VInt i \<Rightarrow> Some (KNumber (of_int i))
      | VFloat (Finite r) \<Rightarrow> Some (KNumber r) | VFloat PosInf \<Rightarrow> Some (KInf True) | VFloat NegInf \<Rightarrow> Some (KInf False)
      | VFloat NaN \<Rightarrow> Some KNaN | VText t \<Rightarrow> Some (KText t) | _ \<Rightarrow> None)"

definition FLOAT_LIMIT :: int where "FLOAT_LIMIT = 2 ^ 1024 - 2 ^ 970"

definition float_of :: "jvalue \<Rightarrow> py_float option" where
  "float_of v =
     (case v of VInt i \<Rightarrow> if \<bar>i\<bar> \<ge> FLOAT_LIMIT then None else Some (Finite (of_int i))
      | VFloat f \<Rightarrow> Some f | _ \<Rightarrow> None)"

text \<open>Every comparison with a NaN is false.\<close>

definition stale :: "rat \<Rightarrow> py_float \<Rightarrow> bool" where
  "stale wall issued =
     (case issued of
        Finite t \<Rightarrow> wall - t > START_NEXT_MAX_COMMAND_AGE_SECONDS \<or> wall - t < - START_NEXT_MAX_FUTURE_SKEW_SECONDS
      | PosInf \<Rightarrow> True | NegInf \<Rightarrow> True | NaN \<Rightarrow> False)"

definition actual_decks :: "playout \<Rightarrow> (slot \<times> int option \<times> int) list" where
  "actual_decks p = sort_key (slot_rank \<circ> fst) (map (\<lambda>n. deck_identity (store p n)) (decks_live p))"

text \<open>The checks after the command is known to be new and well formed: the refusal, or the transition begins.\<close>

definition admit :: "reads \<Rightarrow> utext \<Rightarrow> utext \<Rightarrow> int \<Rightarrow> bool \<Rightarrow> utext \<Rightarrow> py_float \<Rightarrow> (slot \<times> int \<times> int) list \<Rightarrow> engine \<Rightarrow> engine" where
  "admit R token cl fd rel inst issued expected s =
     (let refuse = (\<lambda>why s. start_next_reject (Some token) (Some cl) (Some fd) why s) in
      if inst \<noteq> engine_session s then refuse ''engine_restarted'' s
      else if stale (wall_clock R) issued then refuse ''stale_command'' s
      else if active s \<noteq> None then refuse ''busy_start_next'' s
      else let (busy, s1) = restore_in_progress s in
      if busy then refuse ''busy_restoring'' s1
      else if \<not> vt_idle R then refuse ''busy_voice_track'' s1
      else if list_ex (\<lambda>n. gated_seek (store (play s1) n) \<noteq> None) (occupied (play s1)) then refuse ''busy_seek'' s1
      else if map (\<lambda>(sl, i, g). (sl, Some i, g)) expected \<noteq> actual_decks (play s1) then refuse ''target_changed'' s1
      else case choose_mode R (play s1) of
        Inl why \<Rightarrow> refuse why s1
      | Inr (m, out, inc) \<Rightarrow>
          (case bind_control R out s1 of
             None \<Rightarrow> refuse ''fade_unsupported'' s1
           | Some (control, s2) \<Rightarrow> accept R token cl fd rel m out inc control s2))"

text \<open>\<^verbatim>\<open>_start_next_command\<close>, with the exception that ends it, if any.\<close>

definition start_next_command :: "reads \<Rightarrow> (utext \<times> jvalue) list \<Rightarrow> engine \<Rightarrow> command_error option \<times> engine" where
  "start_next_command R d s =
     (case text_of (field d ''request_id'') of
        None \<Rightarrow> (None, start_next_reject None (text_of (field d ''client_request_id'')) None ''malformed'' s)
      | Some token \<Rightarrow>
          if \<not> (0 < length token \<and> length token \<le> 64)
          then (None, start_next_reject (Some token) (text_of (field d ''client_request_id'')) None ''malformed'' s)
          else if token \<in> fst ` set (seen_ids s) then (None, s\<lparr>trace := trace s @ [Ignored token]\<rparr>)
          else let s1 = s\<lparr>seen_ids := remember token True (seen_ids s)\<rparr> in
          (case (well_formed d, field d ''client_request_id'', field d ''fade_ms'', field_or (VBool False) d ''release_manual'',
                 field d ''engine_instance'', parse_expected_live_decks (field d ''expected'')) of
             (True, VText cl, VInt fd, VBool rel, VText inst, Inr expected) \<Rightarrow>
               (case user_key (field d ''user_id'') of
                  None \<Rightarrow> (Some UnhashableUser, s1)
                | Some user \<Rightarrow>
                    if user \<noteq> KNaN \<and> (user, cl) \<in> fst ` set (seen_clients s1)
                    then (None, start_next_reject (Some token) (Some cl) (Some fd) ''duplicate_request'' s1)
                    else let s2 = s1\<lparr>seen_clients := remember (user, cl) token (seen_clients s1)\<rparr> in
                    (case float_of (field d ''issued_at'') of
                       None \<Rightarrow> if inst \<noteq> engine_session s2
                         then (None, start_next_reject (Some token) (Some cl) (Some fd) ''engine_restarted'' s2)
                         else (Some FloatOverflow, s2)
                     | Some issued \<Rightarrow> (None, admit R token cl fd rel inst issued expected s2)))
           | _ \<Rightarrow> (None, start_next_reject (Some token) (text_of (field d ''client_request_id'')) None ''malformed'' s1)))"

section \<open>Superseding operations\<close>

definition cancel_for_operator_command :: "reads \<Rightarrow> string \<Rightarrow> slot \<Rightarrow> engine \<Rightarrow> engine" where
  "cancel_for_operator_command R op sl s =
     (case (active s, slots (play s) sl) of
        (Some a, Some n) \<Rightarrow>
          if outgoing_deck a = Some n \<or> paused_deck a = Some n \<or> map_option fst (incoming a) = Some sl
          then start_next_cancel R (request_id a) (''superseded_by_'' @ op) s else s
      | _ \<Rightarrow> s)"

definition cancel_for_reload :: "reads \<Rightarrow> engine \<Rightarrow> engine" where
  "cancel_for_reload R s =
     (case active s of None \<Rightarrow> s | Some a \<Rightarrow> start_next_cancel R (request_id a) ''superseded_by_reload'' s)"

definition start_next_watchdog :: "reads \<Rightarrow> engine \<Rightarrow> engine" where
  "start_next_watchdog R s =
     (case active s of
        None \<Rightarrow> s
      | Some a \<Rightarrow>
          if monotonic R - accepted_monotonic a \<le> of_int (fade_ms a) / 1000 + START_NEXT_WATCHDOG_EXTRA_SECONDS then s
          else give_up R a Failed ''watchdog_timeout'' s)"

definition restore_done :: "utext \<Rightarrow> engine \<Rightarrow> engine" where
  "restore_done token s =
     (case restoring s of None \<Rightarrow> s
      | Some r \<Rightarrow> if restoring_token r = token then s\<lparr>restoring := None\<rparr> else s)"

text \<open>What \<^verbatim>\<open>stop\<close> does with the transition.\<close>

definition stop_transition :: "engine \<Rightarrow> engine" where
  "stop_transition s =
     (case active s of None \<Rightarrow> s | Some a \<Rightarrow> start_next_terminal a Cancelled (Some ''engine_stopped'') False s)\<lparr>restoring := None\<rparr>"

section \<open>The machine\<close>

text \<open>
  Every callback may come at any time and with any token, and between the handlers the rest of the engine
  may do anything to the decks (\<open>Outside\<close>).
\<close>

datatype event = Command reads "(utext \<times> jvalue) list" | AnchorDue reads utext | IncomingDue reads utext
  | CompletionDue reads utext | DeckFinished reads nat | DeferredRetired reads nat | Operator reads string slot
  | Reload reads | Watchdog reads | RestoreDone utext | EngineStop | Outside playout

fun handle :: "event \<Rightarrow> engine \<Rightarrow> engine" where
  "handle (Command R d) s = snd (start_next_command R d s)"
| "handle (AnchorDue R token) s = snd (start_next_anchor_due R token s)"
| "handle (IncomingDue R token) s = start_next_incoming_due R token s"
| "handle (CompletionDue R token) s = start_next_completion_due R token s"
| "handle (DeckFinished R n) s = handle_deck_finished R n s"
| "handle (DeferredRetired R n) s = finish_deferred_retirement R n s"
| "handle (Operator R op sl) s = cancel_for_operator_command R op sl s"
| "handle (Reload R) s = cancel_for_reload R s"
| "handle (Watchdog R) s = start_next_watchdog R s"
| "handle (RestoreDone token) s = restore_done token s"
| "handle EngineStop s = stop_transition s"
| "handle (Outside p) s = s\<lparr>play := p\<rparr>"

definition engine_step :: "event \<Rightarrow> engine \<Rightarrow> command_error + engine" where
  "engine_step e s = Inr (handle e s)"

definition start_engine :: "utext \<Rightarrow> playout \<Rightarrow> engine" where
  "start_engine session p = \<lparr>engine_session = session, seen_ids = [], seen_clients = [], active = None, restoring = None,
     recent = [], trace = [], play = p, controls = (\<lambda>_. fresh_control), retire_callbacks = []\<rparr>"

end
