(* ===== verification/Start_Next_Outcome.thy ===== *)
theory Start_Next_Outcome
  imports Start_Next
begin

text \<open>
  What the operator's Start Next guarantees, whatever the callbacks, their order and the rest of the engine
  do: each accepted command ends in one outcome, the incoming item is asked for at most once, a command
  that is refused changes nothing, and the outgoing deck's volume is handed back.
\<close>

section \<open>One transition at a time\<close>

text \<open>A reader of the trace: whether a transition runs, and whether its incoming item was asked for.\<close>

datatype trace_state = Idle | Running utext bool

fun follow :: "trace_state \<Rightarrow> entry \<Rightarrow> trace_state option" where
  "follow Idle (Accepted t m) = Some (Running t (m = Overlap))"
| "follow (Running t b) (Accepted u m) = None"
| "follow Idle (StartCall u) = None"
| "follow (Running t b) (StartCall u) = (if u = t \<and> \<not> b then Some (Running t True) else None)"
| "follow q (Ignored u) = Some q"
| "follow Idle (Outcome r) = (if out_kind r = Rejected then Some Idle else None)"
| "follow (Running t b) (Outcome r) =
     (if out_kind r = Rejected then Some (Running t b) else if out_request r = Some t then Some Idle else None)"

fun follow_all :: "trace_state \<Rightarrow> entry list \<Rightarrow> trace_state option" where
  "follow_all q [] = Some q"
| "follow_all q (e # es) = (case follow q e of None \<Rightarrow> None | Some q' \<Rightarrow> follow_all q' es)"

lemma follow_all_snoc: "follow_all q (es @ [e]) = (case follow_all q es of None \<Rightarrow> None | Some q' \<Rightarrow> follow q' e)"
  by (induction es arbitrary: q) (auto split: option.splits)

definition fits :: "trace_state \<Rightarrow> transition option \<Rightarrow> bool" where
  "fits q act = (case q of Idle \<Rightarrow> act = None
     | Running t b \<Rightarrow> (case act of None \<Rightarrow> False | Some a \<Rightarrow> request_id a = t \<and> (b \<longrightarrow> incoming_attempted a)))"

definition late_start :: "nat \<times> callback \<Rightarrow> bool" where
  "late_start c = (case snd c of ThenStartOnly _ \<Rightarrow> True | _ \<Rightarrow> False)"

definition traced :: "engine \<Rightarrow> bool" where
  "traced s \<longleftrightarrow> (case follow_all Idle (trace s) of None \<Rightarrow> False | Some q \<Rightarrow> fits q (active s))
     \<and> list_all (\<lambda>c. \<not> late_start c) (retire_callbacks s)"

lemma traced_other [simp]:
  "traced (s\<lparr>play := p\<rparr>) = traced s" "traced (s\<lparr>controls := c\<rparr>) = traced s" "traced (s\<lparr>restoring := r\<rparr>) = traced s"
  "traced (s\<lparr>seen_ids := i\<rparr>) = traced s" "traced (s\<lparr>seen_clients := k\<rparr>) = traced s"
  by (auto simp: traced_def split: option.splits)

lemma put_active_simps [simp]:
  "active (put_active a s) = Some a" "trace (put_active a s) = trace s" "play (put_active a s) = play s"
  "controls (put_active a s) = controls s" "retire_callbacks (put_active a s) = retire_callbacks s"
  "restoring (put_active a s) = restoring s" "recent (put_active a s) = recent s"
  by (simp_all add: put_active_def)

lemma current_iff: "start_next_current t s = Some a \<longleftrightarrow> active s = Some a \<and> request_id a = t"
  by (auto simp: start_next_current_def split: option.splits)

lemma traced_put:
  assumes "traced s" and "active s = Some a" and "request_id a' = request_id a"
    and "incoming_attempted a \<Longrightarrow> incoming_attempted a'"
  shows "traced (put_active a' s)"
  using assms by (auto simp: traced_def fits_def split: option.splits trace_state.splits)

lemma traced_record_rejected:
  assumes "traced s" and "out_kind r = Rejected"
  shows "traced (start_next_record r s)"
  using assms by (auto simp: traced_def start_next_record_def follow_all_snoc split: option.splits) (case_tac x2; simp)+

lemma traced_reject: "traced s \<Longrightarrow> traced (start_next_reject rq cl fd why s)"
  by (simp add: start_next_reject_def traced_record_rejected)

lemma traced_terminal:
  assumes "traced s" and "active s = Some b" and "request_id b = request_id a" and "kd \<noteq> Rejected"
  shows "traced (start_next_terminal a kd why rel s)"
  using assms
  by (auto simp: traced_def start_next_terminal_def start_next_record_def follow_all_snoc fits_def split: option.splits trace_state.splits)

lemma traced_finish:
  assumes "traced s"
  shows "traced (start_next_finish R t s)"
proof (cases "start_next_current t s")
  case (Some a)
  then have "traced (start_next_terminal a kd why rel (s\<lparr>play := p\<rparr>))" if "kd \<noteq> Rejected" for kd why rel p
    using assms that Some by (intro traced_terminal [where b = a]) (simp_all add: current_iff)
  then show ?thesis using Some by (simp add: start_next_finish_def Let_def)
qed (use assms in \<open>simp add: start_next_finish_def\<close>)

lemma release_active:
  assumes "active s = Some a"
  shows "\<exists>b. active (release_outgoing R a s) = Some b \<and> request_id b = request_id a \<and> incoming_attempted b = incoming_attempted a"
    and "trace (release_outgoing R a s) = trace s" and "retire_callbacks (release_outgoing R a s) = retire_callbacks s"
  using assms by (auto simp: release_outgoing_def Let_def track_restore_def split: option.splits bool.splits)

lemma traced_give_up:
  assumes "traced s" and "active s = Some a" and "kd \<noteq> Rejected"
  shows "traced (give_up R a kd why s)"
proof -
  obtain b where b: "active (release_outgoing R a s) = Some b" "request_id b = request_id a"
    "incoming_attempted b = incoming_attempted a"
    using release_active(1) [OF assms(2)] by blast
  then have "traced (release_outgoing R a s)"
    using assms(1,2) release_active(2,3) [OF assms(2), of R]
    by (auto simp: traced_def fits_def split: option.splits trace_state.splits)
  then show ?thesis using b assms(3) unfolding give_up_def Let_def by (intro traced_terminal [where b = b]) simp_all
qed

lemma traced_fail: "traced s \<Longrightarrow> traced (start_next_fail R t why s)"
  and traced_cancel: "traced s \<Longrightarrow> traced (start_next_cancel R t why s)"
  by (auto simp: start_next_fail_def start_next_cancel_def current_iff intro!: traced_give_up split: option.splits)

lemma start_incoming_traced:
  assumes "start_incoming R a sl s = (r, a1, s1)" and "traced s" and "active s = Some a" and "\<not> incoming_attempted a"
  shows "traced s1 \<and> active s1 = Some a1 \<and> request_id a1 = request_id a \<and> incoming_attempted a1"
proof -
  have "traced (put_active b (s\<lparr>play := p, trace := trace s @ [StartCall (request_id a)]\<rparr>))"
    if "request_id b = request_id a" "incoming_attempted b" for b p
    using assms(2-4) that
    by (auto simp: traced_def fits_def follow_all_snoc split: option.splits trace_state.splits)
  then show ?thesis using assms(1)
    by (auto simp: start_incoming_def Let_def split: list.splits)
qed

lemma traced_start_only:
  assumes "traced s" and "\<And>a. active s = Some a \<Longrightarrow> request_id a = t \<Longrightarrow> \<not> incoming_attempted a"
  shows "traced (start_next_start_only R t s)"
proof (cases "start_next_current t s")
  case (Some a)
  then have a: "active s = Some a" "request_id a = t" "\<not> incoming_attempted a" using assms(2) by (simp_all add: current_iff)
  obtain r a1 s1 where inc: "start_incoming R a None s = (r, a1, s1)" by (rule prod_cases3)
  note s1 = start_incoming_traced [OF inc assms(1) a(1,3)]
  then have "traced (put_active (a1\<lparr>phase_of := ph\<rparr>) s1)" for ph by (intro traced_put [where a = a1]) simp_all
  moreover have "traced (put_active (a\<lparr>phase_of := ToSilence\<rparr>) s)" using assms(1) a by (intro traced_put [where a = a]) simp_all
  ultimately show ?thesis
    using Some inc s1 assms(1) by (simp add: start_next_start_only_def traced_finish traced_fail split: start_result.splits)
qed (use assms in \<open>simp add: start_next_start_only_def\<close>)

lemma traced_incoming_due:
  assumes "traced s"
  shows "traced (start_next_incoming_due R t s)"
proof (cases "start_next_current t s")
  case (Some a)
  show ?thesis
  proof (cases "incoming_attempted a")
    case False
    then have a: "active s = Some a" "request_id a = t" "\<not> incoming_attempted a" using Some by (simp_all add: current_iff)
    obtain r a1 s1 where inc: "start_incoming R a (incoming_slot a) s = (r, a1, s1)" by (rule prod_cases3)
    note s1 = start_incoming_traced [OF inc assms(1) a(1,3)]
    then have "traced (put_active (a1\<lparr>phase_of := ph\<rparr>) s1)" for ph by (intro traced_put [where a = a1]) simp_all
    moreover have "traced (put_active (a\<lparr>incoming_attempted := True, phase_of := ToSilence\<rparr>) s)"
      "traced (put_active (a\<lparr>incoming_attempted := True\<rparr>) s)"
      using assms(1) a by (auto intro!: traced_put [where a = a])
    ultimately show ?thesis
      using Some inc s1 assms(1) False
      by (simp add: start_next_incoming_due_def traced_cancel traced_fail split: start_result.splits)
  qed (use Some assms in \<open>simp add: start_next_incoming_due_def\<close>)
qed (use assms in \<open>simp add: start_next_incoming_due_def\<close>)

lemma traced_after: "traced s \<Longrightarrow> traced (start_next_after R t s)"
  by (simp add: start_next_after_def traced_finish traced_incoming_due split: option.splits)

lemma traced_callback: "traced s \<Longrightarrow> \<not> late_start (n, cb) \<Longrightarrow> traced (run_callback R cb s)"
  by (cases cb) (simp_all add: late_start_def traced_finish traced_after)

lemma traced_callbacks:
  "traced s \<Longrightarrow> list_all (\<lambda>c. \<not> late_start c) cs \<Longrightarrow> traced (s\<lparr>retire_callbacks := cs\<rparr>)"
  "traced s \<Longrightarrow> list_all (\<lambda>c. \<not> late_start c) (retire_callbacks s)"
  by (auto simp: traced_def split: option.splits)

lemma traced_retire:
  assumes "traced s" and "\<not> late_start (n, cb)"
  shows "traced (retire_deck R n cb s)"
proof -
  have "traced (s\<lparr>retire_callbacks := retire_callbacks s @ [(n, cb)]\<rparr>)"
    using assms by (intro traced_callbacks(1)) (simp_all add: traced_callbacks(2))
  moreover have "traced (run_callback R cb (s\<lparr>play := p\<rparr>))" for p
    using assms by (intro traced_callback) simp_all
  ultimately show ?thesis by (simp add: retire_deck_def)
qed

lemma traced_deferred:
  assumes "traced s"
  shows "traced (finish_deferred_retirement R n s)"
proof -
  have run: "traced (fold (\<lambda>(_, cb). run_callback R cb) cs s)" if "list_all (\<lambda>c. \<not> late_start c) cs" "traced s" for cs s
    using that by (induction cs arbitrary: s) (auto intro!: traced_callback)
  note late = traced_callbacks(2) [OF assms]
  have "traced (s\<lparr>play := p, retire_callbacks := filter (\<lambda>c. fst c \<noteq> n) (retire_callbacks s)\<rparr>)" for p
    using assms late by (intro traced_callbacks(1)) (auto simp: list_all_iff)
  then show ?thesis using late unfolding finish_deferred_retirement_def by (intro run) (auto simp: list_all_iff)
qed

lemma traced_completion:
  assumes "traced s"
  shows "traced (start_next_completion_due R t s)"
proof (cases "start_next_current t s")
  case (Some a0)
  define s1 where "s1 = (if incoming_attempted a0 then s else start_next_incoming_due R t s)"
  have s1: "traced s1" using assms by (simp add: s1_def traced_incoming_due)
  show ?thesis
  proof (cases "start_next_current t s1")
    case (Some a)
    then have a: "active s1 = Some a" by (simp add: current_iff)
    have "traced (put_active (a\<lparr>timers := ts\<rparr>) s1)" for ts
      using s1 a by (intro traced_put [where a = a]) simp_all
    moreover have "traced (put_active (a\<lparr>fade_owned := False, outgoing_ended := True\<rparr>) (s1\<lparr>play := p\<rparr>))" for p
      using s1 a by (intro traced_put [where a = a]) simp_all
    then have "traced (retire_deck R n (ThenFinish t) (put_active (a\<lparr>fade_owned := False, outgoing_ended := True\<rparr>) (s1\<lparr>play := p\<rparr>)))" for n p
      by (rule traced_retire) (simp add: late_start_def)
    ultimately show ?thesis
      using \<open>start_next_current t s = Some a0\<close> Some s1
      by (simp add: start_next_completion_due_def Let_def traced_cancel flip: s1_def split: option.splits prod.splits)
  qed (use \<open>start_next_current t s = Some a0\<close> s1 in \<open>simp add: start_next_completion_due_def flip: s1_def\<close>)
qed (use assms in \<open>simp add: start_next_completion_due_def\<close>)

lemma traced_finished_deck:
  assumes "traced s"
  shows "traced (handle_deck_finished R n s)"
proof -
  have "traced (start_next_outgoing_ended R n s)" if "active s = Some a" for a
    using assms that unfolding start_next_outgoing_ended_def
    by (auto intro!: traced_retire traced_put [where a = a] simp: late_start_def)
  then show ?thesis using assms by (simp add: handle_deck_finished_def Let_def split: option.splits)
qed

lemma anchor_active:
  assumes "start_next_anchor_due R t s = (again, s')"
  shows "trace s' = trace s" and "retire_callbacks s' = retire_callbacks s" and "play s' = play s"
    and "map_option (\<lambda>a. (request_id a, incoming_attempted a)) (active s') = map_option (\<lambda>a. (request_id a, incoming_attempted a)) (active s)"
  using assms by (auto simp: start_next_anchor_due_def current_iff split: option.splits if_splits)

lemma traced_congruent:
  assumes "traced s" and "trace s' = trace s" and "retire_callbacks s' = retire_callbacks s"
    and "map_option (\<lambda>a. (request_id a, incoming_attempted a)) (active s') = map_option (\<lambda>a. (request_id a, incoming_attempted a)) (active s)"
  shows "traced s'"
  using assms by (auto simp: traced_def fits_def map_option_case split: option.splits trace_state.splits)

lemma traced_anchor: "traced s \<Longrightarrow> start_next_anchor_due R t s = (again, s') \<Longrightarrow> traced s'"
  by (erule traced_congruent) (rule anchor_active, assumption)+

section \<open>Acceptance\<close>

lemma traced_begin_fade:
  assumes "traced s" and "active s = Some a"
  shows "traced (begin_fade R a pad s)"
proof -
  let ?t = "request_id a"
  have s1: "traced (put_active (a\<lparr>incoming_delay_ms := dl\<rparr>) (s\<lparr>play := p, controls := c\<rparr>))" for dl p c
    using assms by (intro traced_put [where a = a]) simp_all
  have rest: "traced (case start_next_current ?t s2 of None \<Rightarrow> s2
         | Some _ \<Rightarrow>
             let (again, s3) = start_next_anchor_due R ?t s2 in
             if \<not> again then s3
             else case start_next_current ?t s3 of None \<Rightarrow> s3
               | Some a3 \<Rightarrow> put_active (a3\<lparr>timers := timers a3 @ [AnchorTimer START_NEXT_ANCHOR_POLL_MS]\<rparr>) s3)"
    if "traced s2" for s2
  proof -
    obtain again s3 where s3: "start_next_anchor_due R ?t s2 = (again, s3)" by (rule prod.exhaust)
    then have "traced s3" using that by (rule traced_anchor [rotated])
    moreover have "traced (put_active (a3\<lparr>timers := ts\<rparr>) s3)" if "start_next_current ?t s3 = Some a3" for a3 ts
      using \<open>traced s3\<close> that by (intro traced_put [where a = a3]) (simp_all add: current_iff)
    ultimately show ?thesis using that s3 by (simp split: option.splits)
  qed
  show ?thesis unfolding begin_fade_def Let_def
    by (rule rest [unfolded Let_def]) (auto simp: s1 intro: traced_incoming_due split: option.splits)
qed

lemma traced_begin_start_only:
  assumes "traced s" and "active s = Some a" and "\<not> incoming_attempted a"
    and "\<And>n. paused_deck a = Some n \<Longrightarrow> gated_seek (store (play s) n) \<noteq> Some Seeking"
  shows "traced (begin_start_only R a s)"
proof -
  have "traced (start_next_start_only R (request_id a) s)" using assms(1-3) by (intro traced_start_only) simp_all
  moreover have "traced (retire_deck R n (ThenStartOnly (request_id a)) (put_active (a\<lparr>outgoing := o1\<rparr>) (s\<lparr>play := p\<rparr>)))"
    if "paused_deck a = Some n" "claim_completion n (play s) = (claimed, p)" for n claimed p o1
  proof -
    have "gated_seek (store p n) \<noteq> Some Seeking"
      using assms(4) that by (auto simp: claim_completion_def set_deck_def split: if_splits)
    moreover have "traced (put_active (a\<lparr>outgoing := o1\<rparr>) s)"
      using assms(1,2) by (intro traced_put [where a = a]) simp_all
    then have "traced (start_next_start_only R (request_id a) (put_active (a\<lparr>outgoing := o1\<rparr>) (s\<lparr>play := p\<rparr>)\<lparr>play := p'\<rparr>))" for p'
      using assms(3) by (intro traced_start_only) (auto simp: put_active_def)
    ultimately show ?thesis by (simp add: retire_deck_def)
  qed
  ultimately show ?thesis by (auto simp: begin_start_only_def Let_def split: option.splits prod.splits)
qed

lemma traced_accept:
  assumes "traced s" and "active s = None" and "control = None \<Longrightarrow> m = StartOnly"
    and "list_all (\<lambda>n. gated_seek (store (play s) n) = None) (occupied (play s))"
  shows "traced (accept R token cl fd rel m out inc control s)"
proof -
  have begun: "traced ((put_active a s)\<lparr>trace := trace s @ [Accepted token m], play := p\<rparr>)"
    if "request_id a = token" "incoming_attempted a = (m = Overlap)" for a p
    using assms(1,2) that by (auto simp: traced_def fits_def follow_all_snoc split: option.splits trace_state.splits)
  have quiet: "gated_seek (store (play s) n) \<noteq> Some Seeking"
    if "paused_decks (play s) = n # ns" for n ns
  proof -
    have "n \<in> set (occupied (play s))" using that by (metis paused_decks_def filter_is_subset list.set_intros(1) subsetD)
    then show ?thesis using assms(4) by (simp add: list_all_iff)
  qed
  let ?a = "new_transition R token cl fd rel m out inc control (play s)"
  have fields: "request_id ?a = token" "incoming_attempted ?a = (m = Overlap)"
    "paused_deck ?a = (if m = StartOnly then (case paused_decks (play s) of
       [] \<Rightarrow> None | n # _ \<Rightarrow> Some n) else None)"
    by (simp_all add: new_transition_def Let_def)
  show ?thesis
  proof (cases control)
    case None
    have "traced (begin_start_only R ?a ((put_active ?a s)\<lparr>trace := trace s @ [Accepted token m],
        play := (play s)\<lparr>manual_hold_pending := False\<rparr>\<rparr>))"
      using assms(3) [OF None] fields quiet
      by (intro traced_begin_start_only begun) (auto split: list.splits)
    then show ?thesis by (simp add: accept_def Let_def None)
  next
    case (Some pad)
    have "traced (begin_fade R ?a pad ((put_active ?a s)\<lparr>trace := trace s @ [Accepted token m],
        play := (play s)\<lparr>manual_hold_pending := False\<rparr>\<rparr>))"
      using fields by (intro traced_begin_fade begun) simp_all
    then show ?thesis by (simp add: accept_def Let_def Some)
  qed
qed

lemma restore_in_progress_same:
  assumes "restore_in_progress s = (busy, s1)"
  shows "s1 = s \<or> s1 = s\<lparr>restoring := None\<rparr>"
  using assms by (auto simp: restore_in_progress_def Let_def split: option.splits if_splits)

lemma occupied_store [simp]: "occupied (p\<lparr>store := st\<rparr>) = occupied p"
proof -
  have "slots (p\<lparr>store := st\<rparr>) = slots p" by simp
  then show ?thesis by (simp only: occupied_def)
qed

lemma bind_control_same:
  assumes "bind_control R out s = Some (control, s1)"
  shows "trace s1 = trace s \<and> retire_callbacks s1 = retire_callbacks s \<and> active s1 = active s
    \<and> occupied (play s1) = occupied (play s) \<and> (\<forall>n. gated_seek (store (play s1) n) = gated_seek (store (play s) n))
    \<and> (control = None) = (out = None)"
proof (cases out)
  case (Some k)
  obtain pad where pad: "mixer_pad (store (play s) k) = Some pad"
    using assms Some by (cases "mixer_pad (store (play s) k)") (simp_all add: bind_control_def)
  then have "control = Some pad \<and> deck_volume_control R k pad s = Some s1"
    using assms Some by (simp add: bind_control_def split: if_splits)
  then show ?thesis
    using Some by (auto simp: deck_volume_control_def set_deck_def split: if_splits)
qed (use assms in \<open>simp add: bind_control_def\<close>)

lemma choose_mode_out: "choose_mode R p = Inr (m, out, inc) \<Longrightarrow> (out = None) = (m = StartOnly)"
  by (auto simp: choose_mode_def Let_def split: if_splits list.splits)

lemma traced_admit:
  assumes "traced s"
  shows "traced (admit R token cl fd rel inst issued expected s)"
proof -
  obtain busy s1 where s1: "restore_in_progress s = (busy, s1)" by (rule prod.exhaust)
  then have t1: "traced s1" "active s1 = active s" using assms restore_in_progress_same [OF s1] by auto
  have "traced (accept R token cl fd rel m out inc control s2)"
    if "active s1 = None" "choose_mode R (play s1) = Inr (m, out, inc)" "bind_control R out s1 = Some (control, s2)"
      "\<not> list_ex (\<lambda>n. gated_seek (store (play s1) n) \<noteq> None) (occupied (play s1))" for m out inc control s2
  proof (rule traced_accept)
    note same = bind_control_same [OF that(3)]
    show "traced s2" using t1(1) by (rule traced_congruent) (simp_all add: same)
    show "active s2 = None" using that(1) same by simp
    show "control = None \<Longrightarrow> m = StartOnly" using same choose_mode_out [OF that(2)] by simp
    show "list_all (\<lambda>n. gated_seek (store (play s2) n) = None) (occupied (play s2))"
      using that(4) same by (simp add: list_all_iff list_ex_iff)
  qed
  then show ?thesis using assms t1
    by (simp add: admit_def Let_def s1 traced_reject split: sum.splits prod.splits option.splits)
qed

lemma traced_command:
  assumes "traced s"
  shows "traced (snd (start_next_command R d s))"
proof -
  have "traced (s\<lparr>trace := trace s @ [Ignored t]\<rparr>)" for t
    using assms by (auto simp: traced_def follow_all_snoc fits_def split: option.splits trace_state.splits)
  then show ?thesis using assms
    by (simp add: start_next_command_def Let_def traced_reject traced_admit
        split: option.splits bool.splits jvalue.splits sum.splits)
qed

lemma traced_handle:
  assumes "traced s"
  shows "traced (handle e s)"
proof (cases e)
  case (AnchorDue R t)
  obtain again s' where s': "start_next_anchor_due R t s = (again, s')" by (rule prod.exhaust)
  then show ?thesis using traced_anchor [OF assms s'] by (simp add: AnchorDue)
next
  case EngineStop
  have "traced (start_next_terminal a Cancelled why False s)" if "active s = Some a" for a why
    using assms that by (intro traced_terminal [where b = a]) simp_all
  then show ?thesis using assms by (simp add: EngineStop stop_transition_def split: option.splits)
qed (use assms in \<open>simp_all add: traced_command traced_incoming_due traced_completion traced_finished_deck traced_deferred
  cancel_for_operator_command_def cancel_for_reload_def start_next_watchdog_def restore_done_def traced_cancel traced_give_up
  split: option.splits\<close>)

interpretation start_next: guarded_machine engine_step traced
  by unfold_locales (auto simp: engine_step_def traced_handle)

lemma start_engine_traced: "traced (start_engine session p)"
  by (simp add: traced_def start_engine_def fits_def)

text \<open>
  C34. However commands, timers, deck endings, operator actions, reloads and the rest of the engine interleave,
  the trace reads as one transition after another: an accepted Start Next begins only when none runs, asks
  for its incoming item at most once (never in an overlap, where it already plays), and ends in exactly one
  outcome, its own; a transition is active exactly when the last accepted one has no outcome yet.
\<close>

theorem one_outcome_each:
  "case follow_all Idle (trace (run engine_step es (start_engine session p))) of
     None \<Rightarrow> False
   | Some Idle \<Rightarrow> active (run engine_step es (start_engine session p)) = None
   | Some (Running token _) \<Rightarrow> map_option request_id (active (run engine_step es (start_engine session p))) = Some token"
  using start_next.run_inv [OF start_engine_traced, of es session p]
  by (auto simp: traced_def fits_def split: option.splits trace_state.splits)

end
