(* ===== verification/Start_Next_Command.thy ===== *)
theory Start_Next_Command
  imports Start_Next_Outcome "HOL-Library.Sublist"
begin

text \<open>
  Which Start Next commands the engine accepts, and that a refused one changes nothing but its own books.
\<close>

section \<open>The trace only grows\<close>

definition grows :: "engine \<Rightarrow> engine \<Rightarrow> bool" where
  "grows s s' \<longleftrightarrow> prefix (trace s) (trace s')"

lemma grows_refl [simp]: "grows s s"
  by (simp add: grows_def)

lemma grows_trans: "grows s s' \<Longrightarrow> grows s' s'' \<Longrightarrow> grows s s''"
  by (auto simp: grows_def intro: prefix_order.trans)

lemma grows_same [simp]:
  "grows s (s'\<lparr>play := p\<rparr>) = grows s s'" "grows (s\<lparr>play := p\<rparr>) s' = grows s s'"
  "grows s (s'\<lparr>controls := c\<rparr>) = grows s s'" "grows (s\<lparr>controls := c\<rparr>) s' = grows s s'"
  "grows s (s'\<lparr>active := a\<rparr>) = grows s s'" "grows (s\<lparr>active := a\<rparr>) s' = grows s s'"
  "grows s (s'\<lparr>retire_callbacks := cs\<rparr>) = grows s s'" "grows s (put_active b s') = grows s s'" "grows (put_active b s) s' = grows s s'"
  by (simp_all add: grows_def)

lemma grows_record: "grows s s' \<Longrightarrow> grows s (start_next_record r s')"
  by (auto simp: grows_def start_next_record_def)

lemma grows_terminal: "grows s s' \<Longrightarrow> grows s (start_next_terminal a kd why rel s')"
  by (simp add: start_next_terminal_def grows_record)

lemma grows_finish: "grows s (start_next_finish R t s)"
  by (simp add: start_next_finish_def Let_def grows_terminal split: option.splits)

lemma grows_release: "grows s (release_outgoing R a s)"
  by (simp add: release_outgoing_def Let_def track_restore_def grows_def split: option.splits bool.splits)

lemma grows_give_up: "grows s (give_up R a kd why s)"
  by (simp add: give_up_def Let_def grows_terminal grows_release)

lemma grows_fail: "grows s (start_next_fail R t why s)" and grows_cancel: "grows s (start_next_cancel R t why s)"
  by (simp_all add: start_next_fail_def start_next_cancel_def grows_give_up split: option.splits)

lemma grows_incoming: "start_incoming R a sl s = (r, a1, s1) \<Longrightarrow> grows s s1"
  by (auto simp: start_incoming_def Let_def grows_def split: list.splits)

lemmas grows_intros = grows_finish grows_fail grows_cancel

lemma grows_start_only: "grows s (start_next_start_only R t s)"
proof (cases "start_next_current t s")
  case (Some a)
  obtain r a1 s1 where inc: "start_incoming R a None s = (r, a1, s1)" by (rule prod_cases3)
  have "grows s (start_next_finish R t (put_active b s1))" for b
    using grows_finish [of "put_active b s1" R t] grows_incoming [OF inc] by (auto intro: grows_trans)
  moreover have "grows s (start_next_fail R t why s1)" for why using grows_incoming [OF inc] grows_fail by (rule grows_trans)
  moreover have "grows s (start_next_finish R t (put_active b s))" for b
    using grows_finish [of "put_active b s" R t] by simp
  ultimately show ?thesis using Some inc grows_intros
    by (simp add: start_next_start_only_def split: start_result.splits)
qed (simp add: start_next_start_only_def)

lemma grows_incoming_due: "grows s (start_next_incoming_due R t s)"
proof (cases "start_next_current t s")
  case (Some a)
  obtain r a1 s1 where inc: "start_incoming R a (incoming_slot a) s = (r, a1, s1)" by (rule prod_cases3)
  have "grows s (start_next_fail R t why s1)" for why using grows_incoming [OF inc] grows_fail by (rule grows_trans)
  moreover have "grows s (start_next_fail R t why (put_active b s))" for why b
    using grows_fail [of "put_active b s" R t why] by simp
  ultimately show ?thesis using Some inc grows_incoming [OF inc] grows_cancel
    by (simp add: start_next_incoming_due_def split: start_result.splits option.splits)
qed (simp add: start_next_incoming_due_def)

lemma grows_anchor: "start_next_anchor_due R t s = (again, s') \<Longrightarrow> grows s s'"
  by (simp add: grows_def anchor_active(1))

lemma grows_begin_start_only: "grows s (begin_start_only R a s)"
proof -
  have "grows s (start_next_start_only R t (put_active b (s\<lparr>play := p\<rparr>)\<lparr>play := p'\<rparr>))" for t b p p'
    using grows_start_only [of "put_active b (s\<lparr>play := p\<rparr>)\<lparr>play := p'\<rparr>" R t] by simp
  then have "grows s (retire_deck R n (ThenStartOnly t) (put_active b (s\<lparr>play := p\<rparr>)))" for n t b p
    by (simp add: retire_deck_def)
  then show ?thesis by (simp add: begin_start_only_def Let_def grows_start_only split: option.splits prod.splits)
qed

lemma grows_begin_fade: "grows s (begin_fade R a pad s)"
proof -
  have rest: "grows s (case start_next_current t s2 of None \<Rightarrow> s2
         | Some _ \<Rightarrow>
             let (again, s3) = start_next_anchor_due R t s2 in
             if \<not> again then s3
             else case start_next_current t s3 of None \<Rightarrow> s3
               | Some a3 \<Rightarrow> put_active (a3\<lparr>timers := timers a3 @ [AnchorTimer START_NEXT_ANCHOR_POLL_MS]\<rparr>) s3)"
    if "grows s s2" for t s2
    using that by (auto dest!: grows_anchor intro: grows_trans split: option.splits prod.splits)
  have "grows s (start_next_incoming_due R t (put_active b (s\<lparr>play := p, controls := c\<rparr>)))" for t b p c
    using grows_incoming_due [of "put_active b (s\<lparr>play := p, controls := c\<rparr>)" R t] by simp
  then show ?thesis unfolding begin_fade_def Let_def
    by (intro rest [unfolded Let_def]) (auto split: option.splits)
qed

lemma accept_trace: "prefix (trace s @ [Accepted token m]) (trace (accept R token cl fd rel m out inc control s))"
proof -
  let ?a = "new_transition R token cl fd rel m out inc control (play s)"
  let ?s = "(put_active ?a s)\<lparr>trace := trace s @ [Accepted token m], play := (play s)\<lparr>manual_hold_pending := False\<rparr>\<rparr>"
  have "grows ?s (accept R token cl fd rel m out inc control s)"
    unfolding accept_def Let_def by (cases control) (simp_all only: option.case grows_begin_start_only grows_begin_fade)
  moreover have "trace ?s = trace s @ [Accepted token m]" by simp
  ultimately show ?thesis unfolding grows_def by simp
qed

section \<open>Which commands are accepted\<close>

definition can_fade :: "reads \<Rightarrow> playout \<Rightarrow> nat \<Rightarrow> bool" where
  "can_fade R p n = (case mixer_pad (store p n) of None \<Rightarrow> False
     | Some pad \<Rightarrow> fade_supported R \<and> (volume_control (store p n) = Some pad \<or> \<not> foreign_binding R pad))"

text \<open>The decks allow a start: nothing is leaving, and the place for the next item is free.\<close>

definition ready :: "reads \<Rightarrow> playout \<Rightarrow> bool" where
  "ready R p =
     (let paused = paused_decks p in
      list_all (\<lambda>n. deck_is_live (store p n) \<or> deck_paused (store p n)) (occupied p)
      \<and> (case decks_live p of
           [] \<Rightarrow> (case paused of [] \<Rightarrow> next_cue R p \<noteq> None \<and> free_slot R p \<noteq> None | [_] \<Rightarrow> True | _ \<Rightarrow> False)
         | [a] \<Rightarrow> paused = [] \<and> slots p (other_slot (deck_slot (store p a))) = None
             \<and> slot_available R p (other_slot (deck_slot (store p a))) \<and> can_fade R p a
         | a # _ \<Rightarrow> can_fade R p a))"

definition admissible :: "reads \<Rightarrow> (utext \<times> jvalue) list \<Rightarrow> engine \<Rightarrow> bool" where
  "admissible R d s \<longleftrightarrow>
     (case text_of (field d ''request_id'') of None \<Rightarrow> False
      | Some t \<Rightarrow> 0 < length t \<and> length t \<le> 64 \<and> t \<notin> fst ` set (seen_ids s))
     \<and> well_formed d
     \<and> (case (user_key (field d ''user_id''), text_of (field d ''client_request_id'')) of
          (Some u, Some cl) \<Rightarrow> u = KNaN \<or> (u, cl) \<notin> fst ` set (seen_clients s) | _ \<Rightarrow> False)
     \<and> field d ''engine_instance'' = VText (engine_session s)
     \<and> (case float_of (field d ''issued_at'') of None \<Rightarrow> False | Some f \<Rightarrow> \<not> stale (wall_clock R) f)
     \<and> active s = None \<and> \<not> fst (restore_in_progress s) \<and> vt_idle R
     \<and> list_all (\<lambda>n. gated_seek (store (play s) n) = None) (occupied (play s))
     \<and> map_sum id (map (\<lambda>(sl, i, g). (sl, Some i, g))) (parse_expected_live_decks (field d ''expected'')) = Inr (actual_decks (play s))
     \<and> ready R (play s)"

text \<open>The decks, the volumes and a running transition are as they were.\<close>

definition untouched :: "engine \<Rightarrow> engine \<Rightarrow> bool" where
  "untouched s s' \<longleftrightarrow> play s' = play s \<and> controls s' = controls s \<and> active s' = active s
     \<and> retire_callbacks s' = retire_callbacks s \<and> engine_session s' = engine_session s
     \<and> (restoring s' = restoring s \<or> restoring s' = None)"

lemma untouched_refl: "untouched s s"
  by (simp add: untouched_def)

lemma untouched_reject: "untouched s s' \<Longrightarrow> untouched s (start_next_reject rq cl fd why s')"
  by (simp add: untouched_def start_next_reject_def start_next_record_def)

definition refusal :: "entry \<Rightarrow> bool" where
  "refusal e = (case e of Ignored _ \<Rightarrow> True | Outcome r \<Rightarrow> out_kind r = Rejected | _ \<Rightarrow> False)"

definition refused :: "engine \<Rightarrow> engine \<Rightarrow> bool" where
  "refused s s' \<longleftrightarrow> untouched s s' \<and> (\<exists>new. trace s' = trace s @ new \<and> list_all refusal new \<and> length new \<le> 1)"

lemma refused_reject:
  assumes "untouched s s'" and "trace s' = trace s"
  shows "refused s (start_next_reject rq cl fd why s')"
  using assms untouched_reject
  by (auto simp: refused_def start_next_reject_def start_next_record_def refusal_def untouched_def)

lemma length_live: "length (decks_live p) \<le> 2"
proof -
  have "length (occupied p) \<le> 2" by (simp add: occupied_def List.map_filter_simps split: option.splits)
  then show ?thesis unfolding decks_live_def length_sort by (rule order_trans [OF length_filter_le])
qed

lemma live_shape:
  obtains "decks_live p = []" | a where "decks_live p = [a]" | a b where "decks_live p = [a, b]"
  using length_live [of p] by (cases "decks_live p" rule: list.exhaust) (auto simp: length_Suc_conv le_Suc_eq numeral_2_eq_2)

lemma transitional_empty:
  "transitional_decks p = [] \<longleftrightarrow> list_all (\<lambda>n. deck_is_live (store p n) \<or> deck_paused (store p n)) (occupied p)"
  by (auto simp: transitional_decks_def paused_decks_def filter_empty_conv list_all_iff decks_live_def)

lemma bind_control_None:
  "bind_control R out s = None \<longleftrightarrow> (case out of None \<Rightarrow> False | Some n \<Rightarrow> \<not> can_fade R (play s) n)"
  by (auto simp: bind_control_def can_fade_def deck_volume_control_def split: option.splits)

lemma ready_iff:
  "ready R p \<longleftrightarrow> (case choose_mode R p of Inl _ \<Rightarrow> False
     | Inr (m, out, inc) \<Rightarrow> (case out of None \<Rightarrow> True | Some n \<Rightarrow> can_fade R p n))"
proof (cases "transitional_decks p = []")
  case True
  then show ?thesis
    by (cases rule: live_shape [of p]; cases "paused_decks p" rule: list.exhaust)
      (auto simp: ready_def choose_mode_def Let_def simp flip: transitional_empty split: list.splits)
qed (simp add: ready_def choose_mode_def flip: transitional_empty)

lemma restore_in_progress_untouched:
  "restore_in_progress s = (busy, s1) \<Longrightarrow> untouched s s1 \<and> trace s1 = trace s \<and> play s1 = play s"
  by (auto simp: restore_in_progress_def untouched_def Let_def split: option.splits if_splits)

definition admits :: "reads \<Rightarrow> utext \<Rightarrow> py_float \<Rightarrow> (slot \<times> int \<times> int) list \<Rightarrow> engine \<Rightarrow> bool" where
  "admits R inst issued expected s \<longleftrightarrow> inst = engine_session s \<and> \<not> stale (wall_clock R) issued \<and> active s = None
     \<and> \<not> fst (restore_in_progress s) \<and> vt_idle R
     \<and> list_all (\<lambda>n. gated_seek (store (play s) n) = None) (occupied (play s))
     \<and> map (\<lambda>(sl, i, g). (sl, Some i, g)) expected = actual_decks (play s) \<and> ready R (play s)"

lemma admit_decided:
  "if admits R inst issued expected s then \<exists>m. prefix (trace s @ [Accepted token m]) (trace (admit R token cl fd rel inst issued expected s))
   else refused s (admit R token cl fd rel inst issued expected s)"
proof -
  obtain busy s1 where s1: "restore_in_progress s = (busy, s1)" by (rule prod.exhaust)
  note same = restore_in_progress_untouched [OF s1]
  have reject: "refused s (start_next_reject (Some token) (Some cl) (Some fd) why s1)" for why
    using same by (intro refused_reject) simp_all
  have first: "refused s (start_next_reject (Some token) (Some cl) (Some fd) why s)" for why
    by (intro refused_reject untouched_refl) simp
  show ?thesis
  proof (cases "inst = engine_session s \<and> \<not> stale (wall_clock R) issued \<and> active s = None \<and> \<not> busy \<and> vt_idle R
      \<and> list_all (\<lambda>n. gated_seek (store (play s) n) = None) (occupied (play s))
      \<and> map (\<lambda>(sl, i, g). (sl, Some i, g)) expected = actual_decks (play s)")
    case False
    then show ?thesis using reject first same
      by (auto simp: admit_def admits_def Let_def s1 list_ex_iff list_all_iff)
  next
    case True
    then have body: "admit R token cl fd rel inst issued expected s = (case choose_mode R (play s) of
        Inl why \<Rightarrow> start_next_reject (Some token) (Some cl) (Some fd) why s1
      | Inr (m, out, inc) \<Rightarrow>
          (case bind_control R out s1 of
             None \<Rightarrow> start_next_reject (Some token) (Some cl) (Some fd) ''fade_unsupported'' s1
           | Some (control, s2) \<Rightarrow> accept R token cl fd rel m out inc control s2))"
      using same by (simp add: admit_def Let_def s1 list_ex_iff list_all_iff)
    have admits: "admits R inst issued expected s = ready R (play s)"
      using True by (simp add: admits_def s1)
    show ?thesis
    proof (cases "choose_mode R (play s)")
      case (Inl why)
      then show ?thesis using reject by (simp add: body admits ready_iff)
    next
      case (Inr x)
      obtain m out inc where x: "x = (m, out, inc)" by (rule prod_cases3)
      show ?thesis
      proof (cases "bind_control R out s1")
        case None
        then have "\<not> ready R (play s)"
          using bind_control_None [of R out s1] same Inr x by (simp add: ready_iff split: option.splits)
        then show ?thesis using reject Inr x None by (simp add: body admits)
      next
        case (Some y)
        obtain control s2 where y: "y = (control, s2)" by (rule prod.exhaust)
        have "bind_control R out s1 \<noteq> None" using Some by simp
        then have "ready R (play s)"
          using bind_control_None [of R out s1] same Inr x by (auto simp: ready_iff split: option.splits)
        moreover have "trace s2 = trace s" using bind_control_same [OF Some [unfolded y]] same by simp
        then have "prefix (trace s @ [Accepted token m]) (trace (accept R token cl fd rel m out inc control s2))"
          using accept_trace [of s2 token m R cl fd rel out inc control] by simp
        ultimately show ?thesis using Inr x Some y by (auto simp: body admits)
      qed
    qed
  qed
qed

lemma untouched_books [simp]:
  "admits R inst issued expected (s\<lparr>seen_ids := i\<rparr>) = admits R inst issued expected s"
  "admits R inst issued expected (s\<lparr>seen_clients := k\<rparr>) = admits R inst issued expected s"
  "refused (s\<lparr>seen_ids := i\<rparr>) s' = refused s s'" "refused (s\<lparr>seen_clients := k\<rparr>) s' = refused s s'"
  by (auto simp: admits_def refused_def untouched_def restore_in_progress_def Let_def split: option.splits)

lemma well_formed_fields:
  assumes "well_formed d"
  obtains cl fd rel inst expected where "field d ''client_request_id'' = VText cl" "field d ''fade_ms'' = VInt fd"
    "field_or (VBool False) d ''release_manual'' = VBool rel" "field d ''engine_instance'' = VText inst"
    "parse_expected_live_decks (field d ''expected'') = Inr expected"
  using assms
  by (auto simp: well_formed_def valid_fade_def valid_flag_def valid_client_request_id_def valid_engine_instance_def is_ok_def
      split: jvalue.splits)

lemma command_effect:
  "if admissible R d s
   then \<exists>token m. text_of (field d ''request_id'') = Some token
     \<and> prefix (trace s @ [Accepted token m]) (trace (snd (start_next_command R d s)))
   else refused s (snd (start_next_command R d s))"
proof (cases "text_of (field d ''request_id'')")
  case None
  then show ?thesis
    by (simp add: admissible_def start_next_command_def refused_reject untouched_refl)
next
  case (Some token)
  show ?thesis
  proof (cases "0 < length token \<and> length token \<le> 64 \<and> token \<notin> fst ` set (seen_ids s)")
    case False
    then show ?thesis using Some
      by (auto simp: admissible_def start_next_command_def refused_reject untouched_refl)
        (auto simp: refused_def untouched_def refusal_def)
  next
    case new: True
    let ?s1 = "s\<lparr>seen_ids := remember token True (seen_ids s)\<rparr>"
    have s1: "untouched s ?s1" by (simp add: untouched_def)
    show ?thesis
    proof (cases "well_formed d")
      case False
      then show ?thesis using new Some s1
        by (simp add: admissible_def start_next_command_def Let_def refused_reject split: jvalue.splits)
    next
      case True
      obtain cl fd rel inst expected where f: "field d ''client_request_id'' = VText cl" "field d ''fade_ms'' = VInt fd"
        "field_or (VBool False) d ''release_manual'' = VBool rel" "field d ''engine_instance'' = VText inst"
        "parse_expected_live_decks (field d ''expected'') = Inr expected"
        using True by (rule well_formed_fields)
      note body = start_next_command_def [of R d s] Some new True f
      show ?thesis
      proof (cases "user_key (field d ''user_id'')")
        case None
        then have "start_next_command R d s = (Some UnhashableUser, ?s1)"
          using new by (simp add: body Let_def)
        then show ?thesis using None s1 by (simp add: admissible_def refused_def)
      next
        case user: (Some u)
        let ?s2 = "?s1\<lparr>seen_clients := remember (u, cl) token (seen_clients ?s1)\<rparr>"
        have s2: "untouched s ?s2" by (simp add: untouched_def)
        show ?thesis
        proof (cases "u = KNaN \<or> (u, cl) \<notin> fst ` set (seen_clients s)")
          case False
          then have "start_next_command R d s
              = (None, start_next_reject (Some token) (Some cl) (Some fd) ''duplicate_request'' ?s1)"
            using new user by (simp add: body Let_def)
          then show ?thesis using False s1 user f by (simp add: admissible_def refused_reject text_of_def)
        next
          case fresh: True
          show ?thesis
          proof (cases "float_of (field d ''issued_at'')")
            case None
            then have "start_next_command R d s = (if inst \<noteq> engine_session s
                then (None, start_next_reject (Some token) (Some cl) (Some fd) ''engine_restarted'' ?s2) else (Some FloatOverflow, ?s2))"
              using new user fresh by (auto simp: body Let_def)
            then show ?thesis using None s2 by (simp add: admissible_def refused_reject) (simp add: refused_def)
          next
            case issued: (Some t)
            have result: "start_next_command R d s = (None, admit R token cl fd rel inst t expected ?s2)"
              using new user fresh issued by (auto simp: body Let_def)
            have "admissible R d s = admits R inst t expected s"
              using Some new True f user fresh issued by (auto simp: admissible_def admits_def text_of_def)
            moreover have "if admits R inst t expected ?s2
                then \<exists>m. prefix (trace ?s2 @ [Accepted token m]) (trace (admit R token cl fd rel inst t expected ?s2))
                else refused ?s2 (admit R token cl fd rel inst t expected ?s2)"
              by (rule admit_decided)
            ultimately show ?thesis using Some result by (auto split: if_splits)
          qed
        qed
      qed
    qed
  qed
qed

text \<open>
  C36. A command starts a transition in exactly one situation: its request is new and it is well formed, this
  press was not handled before, it was meant for this run of the engine and is fresh, nothing else is under
  way (no transition, no restoration, no voice track, no seek), the operator saw exactly the live decks
  there are, and the decks are ready. Any other command leaves the decks, the volumes and a running
  transition as they are and adds at most one line, a refusal.
\<close>

theorem command_decided:
  "if admissible R d s
   then \<exists>token m. text_of (field d ''request_id'') = Some token
     \<and> prefix (trace s @ [Accepted token m]) (trace (snd (start_next_command R d s)))
   else refused s (snd (start_next_command R d s))"
  by (rule command_effect)

lemma command_inert: "\<not> admissible R d s \<Longrightarrow> refused s (snd (start_next_command R d s))"
  using command_effect [of R d s] by simp

text \<open>
  The age limit of a command can be evaded: with NaN as the time of issue, which \<^verbatim>\<open>json.loads\<close>
  reads, a command is treated at every moment exactly as one issued at that moment.
\<close>

theorem nan_command_is_never_stale:
  "start_next_command R ((cps ''issued_at'', VFloat NaN) # d) s
   = start_next_command R ((cps ''issued_at'', VFloat (Finite (wall_clock R))) # d) s"
proof -
  let ?a = "(cps ''issued_at'', VFloat NaN) # d" and ?b = "(cps ''issued_at'', VFloat (Finite (wall_clock R))) # d"
  have other: "field_or v ?a k = field_or v ?b k" if "k \<noteq> ''issued_at''" for v k
    using that by (simp add: field_or_def)
  have issued: "field ?a ''issued_at'' = VFloat NaN" "field ?b ''issued_at'' = VFloat (Finite (wall_clock R))"
    by (simp_all add: field_or_def)
  have wf: "well_formed ?a = well_formed ?b"
    by (simp add: well_formed_def issued other valid_number_def)
  have adm: "admit R token cl fd rel inst NaN expected s2 = admit R token cl fd rel inst (Finite (wall_clock R)) expected s2"
    for token cl fd rel inst expected s2
  proof -
    have "stale (wall_clock R) NaN = stale (wall_clock R) (Finite (wall_clock R))"
      by (simp add: stale_def START_NEXT_MAX_COMMAND_AGE_SECONDS_def START_NEXT_MAX_FUTURE_SKEW_SECONDS_def)
    then show ?thesis by (simp only: admit_def)
  qed
  have same: "field ?a ''request_id'' = field ?b ''request_id''" "field ?a ''client_request_id'' = field ?b ''client_request_id''"
    "field ?a ''fade_ms'' = field ?b ''fade_ms''" "field_or (VBool False) ?a ''release_manual'' = field_or (VBool False) ?b ''release_manual''"
    "field ?a ''engine_instance'' = field ?b ''engine_instance''" "field ?a ''expected'' = field ?b ''expected''"
    "field ?a ''user_id'' = field ?b ''user_id''"
    by (rule other, simp)+
  show ?thesis unfolding start_next_command_def same wf issued float_of_def jvalue.case option.case adm ..
qed

end
