(* ===== verification/Start_Next_Volume.thy ===== *)
theory Start_Next_Volume
  imports Start_Next_Command
begin

text \<open>
  The outgoing deck is never left quiet: when a transition stops owning the fade of a deck, the volume ramps
  back to unity, or the deck has left the mixer or is leaving it.
\<close>

definition keeps_deck :: "reads \<Rightarrow> nat \<Rightarrow> bool" where
  "keeps_deck R n \<longleftrightarrow> (\<forall>sl p. store (start_track R sl p) n = store p n) \<and> (\<forall>sl p. store (log_exhausted R sl p) n = store p n)"

definition owns :: "engine \<Rightarrow> nat \<Rightarrow> nat \<Rightarrow> bool" where
  "owns s pad n = (case active s of None \<Rightarrow> False | Some a \<Rightarrow> fade a = Some pad \<and> fade_owned a \<and> outgoing_deck a = Some n)"

definition handed_back :: "engine \<Rightarrow> nat \<Rightarrow> nat \<Rightarrow> bool" where
  "handed_back s pad n \<longleftrightarrow>
     (\<exists>start. points (controls s pad) (start + START_NEXT_RESTORE_MS * MSECOND) = Some 1)
     \<or> mixer_pad (store (play s) n) \<noteq> Some pad \<or> volume_control (store (play s) n) \<noteq> Some pad
     \<or> completion_claimed (store (play s) n) \<or> list_ex (\<lambda>c. fst c = n) (retire_callbacks s)"

section \<open>What leaves a deck as it is\<close>

abbreviation same_deck :: "nat \<Rightarrow> engine \<Rightarrow> engine \<Rightarrow> bool" where
  "same_deck n s s' \<equiv> store (play s') n = store (play s) n"

lemma terminal_simps [simp]:
  "play (start_next_terminal a kd why rel s) = play s" "controls (start_next_terminal a kd why rel s) = controls s"
  "active (start_next_terminal a kd why rel s) = None" "retire_callbacks (start_next_terminal a kd why rel s) = retire_callbacks s"
  by (simp_all add: start_next_terminal_def start_next_record_def)

lemma finish_same_deck:
  assumes "keeps_deck R n"
  shows "same_deck n s (start_next_finish R t s)"
  using assms by (simp add: start_next_finish_def keeps_deck_def set_manual_mode_def Let_def split: option.splits)

lemma release_same_deck [simp]: "play (release_outgoing R a s) = play s"
  by (simp add: release_outgoing_def track_restore_def Let_def split: option.splits bool.splits)

lemma give_up_same_deck [simp]: "same_deck n s (give_up R a kd why s)"
  by (simp add: give_up_def Let_def)

lemma fail_same_deck [simp]: "same_deck n s (start_next_fail R t why s)" "same_deck n s (start_next_cancel R t why s)"
  by (simp_all add: start_next_fail_def start_next_cancel_def split: option.splits)

lemma start_incoming_effect:
  assumes "start_incoming R a sl s = (r, a1, s1)" and "keeps_deck R n"
  shows "same_deck n s s1" and "active s1 = Some a1" and "request_id a1 = request_id a"
    and "fade a1 = fade a" and "fade_owned a1 = fade_owned a" and "outgoing_deck a1 = outgoing_deck a"
    and "retire_callbacks s1 = retire_callbacks s"
  using assms by (auto simp: start_incoming_def keeps_deck_def Let_def split: list.splits)

lemma incoming_due_same_deck:
  assumes "keeps_deck R n"
  shows "same_deck n s (start_next_incoming_due R t s)"
proof (cases "start_next_current t s")
  case (Some a)
  obtain r a1 s1 where inc: "start_incoming R a (incoming_slot a) s = (r, a1, s1)" by (rule prod_cases3)
  show ?thesis using Some inc start_incoming_effect(1) [OF inc assms]
    by (simp add: start_next_incoming_due_def split: start_result.splits option.splits)
qed (simp add: start_next_incoming_due_def)

lemma after_same_deck:
  assumes "keeps_deck R n"
  shows "same_deck n s (start_next_after R t s)"
  using finish_same_deck [OF assms] incoming_due_same_deck [OF assms]
  by (simp add: start_next_after_def split: option.splits)

section \<open>Handing back\<close>

lemma release_hands_back:
  assumes "owns s pad n" and "active s = Some a" and "clock_running R \<noteq> None"
  shows "handed_back (release_outgoing R a s) pad n"
proof -
  have a: "fade a = Some pad" "fade_owned a" "outgoing_deck a = Some n" using assms(1,2) by (simp_all add: owns_def)
  obtain now where "clock_running R = Some now" using assms(3) by blast
  then obtain c where c: "ramp_to_unity (START_NEXT_RESTORE_MS * MSECOND) (last_sync R pad) (clock_running R) (pad_volume R pad) (controls s pad) = Some c"
    by (cases "last_sync R pad") (simp_all add: ramp_to_unity_def)
  then obtain start where start: "points c (start + START_NEXT_RESTORE_MS * MSECOND) = Some 1"
    using ramp_ends_at_unity by blast
  show ?thesis
  proof (cases "volume_control (store (play s) n) \<noteq> Some pad \<or> mixer_pad (store (play s) n) \<noteq> Some pad")
    case True
    then show ?thesis by (auto simp: handed_back_def)
  next
    case False
    then have "points (controls (release_outgoing R a s) pad) = points c"
      using a c by (simp add: release_outgoing_def track_restore_def Let_def)
    then show ?thesis using start by (auto simp: handed_back_def)
  qed
qed

lemma give_up_hands_back:
  assumes "owns s pad n" and "active s = Some a" and "clock_running R \<noteq> None"
  shows "handed_back (give_up R a kd why s) pad n" and "active (give_up R a kd why s) = None"
  using release_hands_back [OF assms] by (simp_all add: give_up_def Let_def handed_back_def)

lemma fail_hands_back:
  assumes "owns s pad n" and "clock_running R \<noteq> None" and "map_option request_id (active s) = Some t"
  shows "handed_back (start_next_fail R t why s) pad n" and "active (start_next_fail R t why s) = None"
    and "handed_back (start_next_cancel R t why s) pad n" and "active (start_next_cancel R t why s) = None"
proof -
  obtain a where a: "active s = Some a" "request_id a = t" using assms(3) by auto
  then have "start_next_current t s = Some a" by (simp add: current_iff)
  then show "handed_back (start_next_fail R t why s) pad n" "active (start_next_fail R t why s) = None"
    "handed_back (start_next_cancel R t why s) pad n" "active (start_next_cancel R t why s) = None"
    using give_up_hands_back [OF assms(1) a(1) assms(2)]
    by (simp_all add: start_next_fail_def start_next_cancel_def)
qed

definition settled :: "engine \<Rightarrow> nat \<Rightarrow> nat \<Rightarrow> bool" where
  "settled s pad n \<longleftrightarrow> owns s pad n \<or> (active s = None \<and> handed_back s pad n)"

lemma incoming_due_settles:
  assumes "owns s pad n" and "clock_running R \<noteq> None" and "keeps_deck R n"
  shows "settled (start_next_incoming_due R t s) pad n"
proof (cases "start_next_current t s")
  case (Some a)
  then have a: "active s = Some a" "request_id a = t" by (simp_all add: current_iff)
  obtain r a1 s1 where inc: "start_incoming R a (incoming_slot a) s = (r, a1, s1)" by (rule prod_cases3)
  note eff = start_incoming_effect [OF inc assms(3)]
  have s1: "owns s1 pad n" "map_option request_id (active s1) = Some t"
    using assms(1) a eff by (simp_all add: owns_def)
  have put: "owns (put_active (a\<lparr>incoming_attempted := True\<rparr>) s) pad n"
    "owns (put_active (a\<lparr>incoming_attempted := True, phase_of := ph\<rparr>) s) pad n" "owns (put_active (a1\<lparr>phase_of := ph\<rparr>) s1) pad n" for ph
    using assms(1) a s1 eff by (simp_all add: owns_def)
  have "handed_back (start_next_fail R t why (put_active (a\<lparr>incoming_attempted := True\<rparr>) s)) pad n"
    "active (start_next_fail R t why (put_active (a\<lparr>incoming_attempted := True\<rparr>) s)) = None" for why
    using fail_hands_back [OF put(1) assms(2), of t] a by simp_all
  then show ?thesis
    using Some inc assms(1) put fail_hands_back [OF assms(1,2), of t] fail_hands_back [OF s1(1) assms(2) s1(2)] a
    by (simp add: start_next_incoming_due_def settled_def split: start_result.splits option.splits)
qed (use assms in \<open>simp add: start_next_incoming_due_def settled_def\<close>)

lemma retire_claimed_hands_back:
  assumes "completion_claimed (store (play s) n)" and "keeps_deck R n"
  shows "handed_back (retire_deck R n (ThenFinish t) s) pad n"
proof -
  have "completion_claimed (store (play (start_next_finish R t
      (s\<lparr>play := remove_deck n (set_deck n (gated_seek_update (\<lambda>_. None)) (play s))\<rparr>))) n)"
    using assms(1) by (simp add: finish_same_deck [OF assms(2)] remove_deck_def set_deck_def Let_def)
  then show ?thesis by (simp add: retire_deck_def handed_back_def)
qed

lemma completion_hands_back:
  assumes "owns s pad n" and "clock_running R \<noteq> None" and "keeps_deck R n"
  shows "owns (start_next_completion_due R t s) pad n \<or> handed_back (start_next_completion_due R t s) pad n"
proof (cases "start_next_current t s")
  case (Some a0)
  define s1 where "s1 = (if incoming_attempted a0 then s else start_next_incoming_due R t s)"
  have s1: "settled s1 pad n" using assms incoming_due_settles [OF assms] by (simp add: s1_def settled_def)
  show ?thesis
  proof (cases "start_next_current t s1")
    case None
    then show ?thesis using s1 Some by (auto simp: start_next_completion_due_def settled_def simp flip: s1_def)
  next
    case cur: (Some a)
    then have a: "active s1 = Some a" "request_id a = t" by (simp_all add: current_iff)
    then have own: "owns s1 pad n" using s1 by (simp add: settled_def)
    then have f: "fade a = Some pad" "outgoing_deck a = Some n" using a by (simp_all add: owns_def)
    have timer: "owns (put_active (a\<lparr>timers := ts\<rparr>) s1) pad n" for ts using own a by (simp add: owns_def)
    obtain claimed p where p: "claim_completion n (play s1) = (claimed, p)" by (rule prod.exhaust)
    have "handed_back (retire_deck R n (ThenFinish t) (put_active (a\<lparr>fade_owned := False, outgoing_ended := True\<rparr>) (s1\<lparr>play := p\<rparr>))) pad n"
      if claimed
      using p that by (intro retire_claimed_hands_back [OF _ assms(3)]) (auto simp: claim_completion_def set_deck_def split: if_splits)
    then show ?thesis
      using Some cur f p own timer fail_hands_back(3) [OF own assms(2), of t] a
      by (simp add: start_next_completion_due_def Let_def flip: s1_def)
  qed
qed (use assms in \<open>simp add: start_next_completion_due_def\<close>)

lemma deck_finished_hands_back:
  assumes "owns s pad n" and "keeps_deck R n"
  shows "owns (handle_deck_finished R m s) pad n \<or> handed_back (handle_deck_finished R m s) pad n"
proof (cases "finished (store (play s) m) \<or> retirement_started (store (play s) m) \<or> slots (play s) (deck_slot (store (play s) m)) \<noteq> Some m \<or> m \<noteq> n")
  case True
  then show ?thesis using assms(1) by (auto simp: handle_deck_finished_def Let_def owns_def split: option.splits)
next
  case False
  obtain a where a: "active s = Some a" "outgoing_deck a = Some n" using assms(1) by (auto simp: owns_def split: option.splits)
  let ?s = "put_active (a\<lparr>fade_owned := False, outgoing_ended := True\<rparr>) s"
  have "mixer_pad (store (remove_deck n (set_deck n (gated_seek_update (\<lambda>_. None)) (play s))) n) = None"
    using False by (auto simp: remove_deck_def set_deck_def Let_def)
  then have "handed_back (retire_deck R n (ThenAfter t) ?s) pad n" for t
    by (simp add: retire_deck_def handed_back_def after_same_deck [OF assms(2)])
  then show ?thesis using False a by (auto simp: handle_deck_finished_def start_next_outgoing_ended_def Let_def)
qed

lemma anchor_keeps_owner: "owns s pad n \<Longrightarrow> owns (snd (start_next_anchor_due R t s)) pad n"
  by (auto simp: start_next_anchor_due_def owns_def current_iff split: option.splits)

text \<open>The handlers of a running transition, and what the world answers them.\<close>

definition during :: "reads \<Rightarrow> event \<Rightarrow> bool" where
  "during R e = (case e of Command R' d \<Rightarrow> R' = R | AnchorDue R' t \<Rightarrow> R' = R | IncomingDue R' t \<Rightarrow> R' = R
     | CompletionDue R' t \<Rightarrow> R' = R | DeckFinished R' m \<Rightarrow> R' = R | Operator R' op sl \<Rightarrow> R' = R | Reload R' \<Rightarrow> R' = R
     | Watchdog R' \<Rightarrow> R' = R | RestoreDone t \<Rightarrow> True | _ \<Rightarrow> False)"


section \<open>A transition whose timers were lost\<close>

definition sample_deck :: deck where
  "sample_deck = \<lparr>deck_slot = SlotA, log_item = Some 1, deck_generation = 1, deck_paused = False, finished = False,
     retirement_started = False, completion_claimed = False, gated_seek = None, mixer_pad = Some 5, volume_control = Some 5,
     occurrence_order = 1\<rparr>"

definition sample_playout :: playout where
  "sample_playout = \<lparr>store = (\<lambda>_. sample_deck), slots = (\<lambda>sl. if sl = SlotA then Some 0 else None), next_triggered = True,
     manual_mode = False, manual_from_mic = False, manual_hold_pending = False, deck_open_failures = 0\<rparr>"

definition sample_world :: reads where
  "sample_world = \<lparr>wall_clock = 100, monotonic = 100, next_cue = (\<lambda>_. Some 0), slot_available = (\<lambda>_ _. True), any_mic_live = False,
     remote_reconnecting = False, vt_idle = True, fade_supported = True, foreign_binding = (\<lambda>_. False), last_sync = (\<lambda>_. None),
     clock_running = Some 7, pad_volume = (\<lambda>_. 1 / 2), start_track = (\<lambda>_ p. p), log_exhausted = (\<lambda>_ p. p)\<rparr>"

definition sample_transition :: transition where
  "sample_transition = (new_transition sample_world [1] [2] 3000 False FadeAndStart (Some 0) None (Some 5) sample_playout)
     \<lparr>accepted_monotonic := 90\<rparr>"

definition sample_engine :: engine where
  "sample_engine = put_active sample_transition (start_engine [3] sample_playout)"


text \<open>A stopped console accepts the press of its operator.\<close>

definition sample_command :: "(utext \<times> jvalue) list" where
  "sample_command = [(cps ''request_id'', VText (cps ''r1'')), (cps ''client_request_id'', VText (cps ''press-0001'')),
     (cps ''user_id'', VInt 1), (cps ''issued_at'', VInt 98), (cps ''fade_ms'', VInt 3000), (cps ''engine_instance'', VText [51]),
     (cps ''expected'', VDict [(cps ''live_decks'', VList [])])]"

definition stopped_playout :: playout where
  "stopped_playout = sample_playout\<lparr>slots := (\<lambda>_. None)\<rparr>"

lemma sample_command_admissible: "admissible sample_world sample_command (start_engine [51] stopped_playout)"
  by code_simp

end
