(* ===== verification/Holiday_Ramp.thy ===== *)
theory Holiday_Ramp
  imports Complex_Main
begin

text \<open>
  The holidays of a date and their share of the music picks, \<^verbatim>\<open>_active_holidays_at\<close> and
  \<^verbatim>\<open>_holiday_daily_share\<close> of \<^verbatim>\<open>library/services/log_builder.py\<close>, over the calendar of \<^verbatim>\<open>datetime.date\<close>.
\<close>

section \<open>The calendar\<close>

definition leap_year :: "int \<Rightarrow> bool" where
  "leap_year y \<longleftrightarrow> y mod 4 = 0 \<and> (y mod 100 \<noteq> 0 \<or> y mod 400 = 0)"

definition month_days :: "int \<Rightarrow> int \<Rightarrow> int" where
  "month_days y m =
     (if m = 2 then (if leap_year y then 29 else 28) else if m = 4 \<or> m = 6 \<or> m = 9 \<or> m = 11 then 30 else 31)"

definition days_before_year :: "int \<Rightarrow> int" where
  "days_before_year y = (y - 1) * 365 + (y - 1) div 4 - (y - 1) div 100 + (y - 1) div 400"

definition days_before_month :: "int \<Rightarrow> int \<Rightarrow> int" where
  "days_before_month y m = sum_list (map (\<lambda>k. if k < m then month_days y k else 0) [1, 2, 3, 4, 5, 6, 7, 8, 9, 10, 11, 12])"

text \<open>\<^verbatim>\<open>date(y, m, d)\<close> as its ordinal; None where the constructor raises \<^verbatim>\<open>ValueError\<close>.\<close>

definition date_ordinal :: "int \<Rightarrow> int \<Rightarrow> int \<Rightarrow> int option" where
  "date_ordinal y m d =
     (if 1 \<le> y \<and> y \<le> 9999 \<and> 1 \<le> m \<and> m \<le> 12 \<and> 1 \<le> d \<and> d \<le> month_days y m
      then Some (days_before_year y + days_before_month y m + d) else None)"

section \<open>Ramps\<close>

record holiday =
  holiday_code :: string
  holiday_month :: int
  holiday_day :: int
  ramp_in_days :: nat
  ramp_out_days :: nat
  max_share :: rat
  weight_boost :: nat

definition in_ramp :: "holiday \<Rightarrow> int \<Rightarrow> int \<Rightarrow> bool" where
  "in_ramp h peak today \<longleftrightarrow> peak - int (ramp_in_days h) \<le> today \<and> today \<le> peak + int (ramp_out_days h)"

definition peaks :: "holiday \<Rightarrow> int \<Rightarrow> int list" where
  "peaks h year = List.map_filter (\<lambda>offset. date_ordinal (year + offset) (holiday_month h) (holiday_day h)) [- 1, 0, 1]"

text \<open>The target date is given by its year and its ordinal.\<close>

definition active_holidays_at :: "holiday list \<Rightarrow> int \<Rightarrow> int \<Rightarrow> holiday list" where
  "active_holidays_at hs year today = filter (\<lambda>h. list_ex (\<lambda>peak. in_ramp h peak today) (peaks h year)) hs"

definition ramp_share :: "holiday \<Rightarrow> int \<Rightarrow> int \<Rightarrow> rat" where
  "ramp_share h peak today =
     (let distance = if today \<le> peak then peak - today else today - peak;
          denom = max 1 (if today \<le> peak then ramp_in_days h else ramp_out_days h)
      in max_share h * (1 - of_int distance / of_nat denom))"

fun share_loop :: "holiday \<Rightarrow> int \<Rightarrow> int list \<Rightarrow> rat" where
  "share_loop h today [] = 0"
| "share_loop h today (peak # rest) = (if in_ramp h peak today then ramp_share h peak today else share_loop h today rest)"

definition holiday_daily_share :: "holiday \<Rightarrow> int \<Rightarrow> int \<Rightarrow> rat" where
  "holiday_daily_share h year today = share_loop h today (peaks h year)"

section \<open>The share is a share\<close>

lemma ramp_share_bounds:
  assumes "in_ramp h peak today" "0 \<le> max_share h"
  shows "0 \<le> ramp_share h peak today \<and> ramp_share h peak today \<le> max_share h"
proof -
  let ?distance = "if today \<le> peak then peak - today else today - peak"
  let ?denom = "max 1 (if today \<le> peak then ramp_in_days h else ramp_out_days h)"
  have "?distance \<le> int ?denom" "0 \<le> ?distance" using assms(1) by (auto simp: in_ramp_def)
  then have "(of_int ?distance :: rat) \<le> of_int (int ?denom)" "of_int 0 \<le> (of_int ?distance :: rat)"
    unfolding of_int_le_iff by blast+
  moreover have "0 < (of_nat ?denom :: rat)" by simp
  ultimately have f: "0 \<le> 1 - (of_int ?distance :: rat) / of_nat ?denom" "1 - (of_int ?distance :: rat) / of_nat ?denom \<le> 1"
    by (simp_all add: divide_le_eq_1_pos)
  show ?thesis unfolding ramp_share_def Let_def
    using mult_nonneg_nonneg [OF assms(2) f(1)] mult_left_mono [OF f(2) assms(2)] by simp
qed

lemma share_loop_bounds:
  "0 \<le> max_share h \<Longrightarrow> 0 \<le> share_loop h today ps \<and> share_loop h today ps \<le> max_share h"
  by (induction ps) (auto simp: ramp_share_bounds)

lemma share_loop_outside: "\<not> list_ex (\<lambda>peak. in_ramp h peak today) ps \<Longrightarrow> share_loop h today ps = 0"
  by (induction ps) auto

lemma share_loop_peak:
  "list_all (\<lambda>p. in_ramp h p today \<longrightarrow> p = today) ps \<Longrightarrow> today \<in> set ps \<Longrightarrow> share_loop h today ps = max_share h"
proof (induction ps)
  case (Cons p ps)
  have "in_ramp h today today" by (simp add: in_ramp_def)
  then show ?case using Cons by (auto simp: ramp_share_def Let_def)
qed simp

section \<open>Three years are enough\<close>

lemma div_step:
  fixes k n :: int
  assumes "0 < n"
  shows "(k + 1) div n = k div n + (if (k + 1) mod n = 0 then 1 else 0)"
proof (cases "(k + 1) mod n = 0")
  case True
  then have "k = n * ((k + 1) div n - 1) + (n - 1)" using mult_div_mod_eq [of n "k + 1"] by (simp add: algebra_simps)
  from int_div_pos_eq [OF this] show ?thesis using assms True by simp
next
  case False
  then have "k = n * ((k + 1) div n) + ((k + 1) mod n - 1)" using mult_div_mod_eq [of n "k + 1"] by (simp add: algebra_simps)
  from int_div_pos_eq [OF this] show ?thesis using assms False pos_mod_bound [OF assms, of "k + 1"] pos_mod_sign [OF assms, of "k + 1"] by simp
qed

lemma year_arithmetic:
  fixes y p4 q4 p100 q100 p400 q400 :: int and m4 m100 m400 :: bool
  assumes "m100 \<Longrightarrow> m4" "m400 \<Longrightarrow> m100"
    and "p4 = q4 + (if m4 then 1 else 0)" "p100 = q100 + (if m100 then 1 else 0)" "p400 = q400 + (if m400 then 1 else 0)"
  shows "y * 365 + p4 - p100 + p400 = (y - 1) * 365 + q4 - q100 + q400 + (if m4 \<and> (\<not> m100 \<or> m400) then 366 else 365)"
  using assms by (cases m4; cases m100; cases m400; simp)

lemma year_length: "days_before_year (y + 1) = days_before_year y + (if leap_year y then 366 else 365)"
proof -
  have m100: "y mod 100 = 0 \<Longrightarrow> y mod 4 = 0" and m400: "y mod 400 = 0 \<Longrightarrow> y mod 100 = 0"
    using dvd_trans [of 4 100 y] dvd_trans [of 100 400 y] by (simp_all add: mod_eq_0_iff_dvd)
  have steps: "y div 4 = (y - 1) div 4 + (if y mod 4 = 0 then 1 else 0)"
    "y div 100 = (y - 1) div 100 + (if y mod 100 = 0 then 1 else 0)"
    "y div 400 = (y - 1) div 400 + (if y mod 400 = 0 then 1 else 0)"
    using div_step [where n = 4 and k = "y - 1", OF zero_less_numeral] div_step [where n = 100 and k = "y - 1", OF zero_less_numeral]
      div_step [where n = 400 and k = "y - 1", OF zero_less_numeral]
    unfolding diff_add_cancel .
  have "days_before_year (y + 1) = y * 365 + y div 4 - y div 100 + y div 400" by (simp only: days_before_year_def add_diff_cancel_right')
  also have "\<dots> = (y - 1) * 365 + (y - 1) div 4 - (y - 1) div 100 + (y - 1) div 400
      + (if y mod 4 = 0 \<and> (\<not> y mod 100 = 0 \<or> y mod 400 = 0) then 366 else 365)"
    by (rule year_arithmetic [OF _ _ steps]) (fact m100, fact m400)
  finally show ?thesis unfolding days_before_year_def [of y] leap_year_def .
qed

lemma days_before_year_step: "days_before_year y + 365 \<le> days_before_year (y + 1)"
  by (simp add: year_length)

lemma days_before_year_mono: "y \<le> z \<Longrightarrow> days_before_year y \<le> days_before_year z"
proof (induction z rule: int_ge_induct)
  case (step z)
  then show ?case using days_before_year_step [of z] by linarith
qed simp

lemma month_upto_12: "1 \<le> m \<Longrightarrow> m \<le> 12 \<Longrightarrow> m \<in> {1, 2, 3, 4, 5, 6, 7, 8, 9, 10, 11, 12 :: int}"
  unfolding insert_iff empty_iff by arith

lemma days_before_month_bounds:
  assumes "1 \<le> m" "m \<le> 12"
  shows "0 \<le> days_before_month y m" "days_before_month y m + month_days y m \<le> (if leap_year y then 366 else 365)"
  using month_upto_12 [OF assms] by (auto simp: days_before_month_def month_days_def)

lemma ordinal_in_year:
  assumes "date_ordinal y m d = Some n"
  shows "days_before_year y < n" "n \<le> days_before_year (y + 1)"
  using assms days_before_month_bounds [of m y] year_length [of y] by (auto simp: date_ordinal_def split: if_splits)

lemma far_years_outside:
  assumes ramps: "ramp_in_days h \<le> 365" "ramp_out_days h \<le> 365"
    and day: "days_before_year y < today" "today \<le> days_before_year (y + 1)"
    and peak: "date_ordinal z m d = Some n" and far: "z \<notin> {y - 1, y, y + 1}"
  shows "\<not> in_ramp h n today"
proof (cases "y + 2 \<le> z")
  case True
  have "days_before_year (y + 1) + 365 \<le> days_before_year z"
    using days_before_year_step [of "y + 1"] days_before_year_mono [OF True] by (simp add: algebra_simps)
  then show ?thesis using ordinal_in_year(1) [OF peak] day(2) ramps by (auto simp: in_ramp_def)
next
  case False
  then have "z + 1 \<le> y - 1" using far by auto
  from days_before_year_mono [OF this] have "days_before_year (z + 1) + 365 \<le> days_before_year y"
    using days_before_year_step [of "y - 1"] by simp
  then show ?thesis using ordinal_in_year(2) [OF peak] day(1) ramps by (auto simp: in_ramp_def)
qed

lemma set_peaks: "n \<in> set (peaks h y) \<longleftrightarrow> (\<exists>z\<in>{y - 1, y, y + 1}. date_ordinal z (holiday_month h) (holiday_day h) = Some n)"
  by (auto simp: peaks_def map_filter_def)

text \<open>
  Looking at last, this and next year finds every running holiday: for ramps of up to a year a holiday
  is active exactly when the date lies in the ramp of its occurrence in some year, its share is zero outside its
  ramps and otherwise between zero and its maximum.
\<close>

theorem three_years_suffice:
  assumes "ramp_in_days h \<le> 365" "ramp_out_days h \<le> 365" "0 \<le> max_share h" "date_ordinal y m d = Some today"
  shows "(active_holidays_at [h] y today = [h]) = (\<exists>z n. date_ordinal z (holiday_month h) (holiday_day h) = Some n \<and> in_ramp h n today)
    \<and> holiday_daily_share h y today = (if active_holidays_at [h] y today = [h] then holiday_daily_share h y today else 0)
    \<and> 0 \<le> holiday_daily_share h y today \<and> holiday_daily_share h y today \<le> max_share h"
proof -
  have day: "days_before_year y < today" "today \<le> days_before_year (y + 1)" using ordinal_in_year assms(4) by blast+
  have active: "active_holidays_at [h] y today = [h] \<longleftrightarrow> list_ex (\<lambda>peak. in_ramp h peak today) (peaks h y)"
    by (simp add: active_holidays_at_def)
  have "list_ex (\<lambda>peak. in_ramp h peak today) (peaks h y)
      \<longleftrightarrow> (\<exists>z n. date_ordinal z (holiday_month h) (holiday_day h) = Some n \<and> in_ramp h n today)"
  proof
    assume "list_ex (\<lambda>peak. in_ramp h peak today) (peaks h y)"
    then obtain n where "n \<in> set (peaks h y)" "in_ramp h n today" unfolding list_ex_iff by blast
    then show "\<exists>z n. date_ordinal z (holiday_month h) (holiday_day h) = Some n \<and> in_ramp h n today"
      using set_peaks by blast
  next
    assume "\<exists>z n. date_ordinal z (holiday_month h) (holiday_day h) = Some n \<and> in_ramp h n today"
    then obtain z n where zn: "date_ordinal z (holiday_month h) (holiday_day h) = Some n" "in_ramp h n today" by blast
    then have "n \<in> set (peaks h y)" using far_years_outside [OF assms(1,2) day zn(1)] set_peaks by blast
    then show "list_ex (\<lambda>peak. in_ramp h peak today) (peaks h y)" unfolding list_ex_iff using zn(2) by blast
  qed
  then show ?thesis
    using active share_loop_outside [of h today "peaks h y"] share_loop_bounds [OF assms(3), of today "peaks h y"]
    by (simp add: holiday_daily_share_def)
qed

definition christmas :: holiday where
  "christmas = \<lparr>holiday_code = ''CHRISTMAS'', holiday_month = 12, holiday_day = 25, ramp_in_days = 30, ramp_out_days = 7,
     max_share = 3 / 5, weight_boost = 3\<rparr>"

theorem three_years_suffice_witness:
  "(active_holidays_at [christmas] 2027 739982 = [christmas])
     = (\<exists>z n. date_ordinal z (holiday_month christmas) (holiday_day christmas) = Some n \<and> in_ramp christmas n 739982)"
  using three_years_suffice [of christmas 2027 1 1 739982]
  by (simp add: christmas_def date_ordinal_def days_before_year_def days_before_month_def month_days_def)

end
