(* ===== verification/Track_Selection.thy ===== *)
theory Track_Selection
  imports Air_Number Related_Artists Holiday_Ramp "HOL-Library.Word"
begin

text \<open>
  The choice of one track or of a matched pair, \<^verbatim>\<open>pick_track\<close> and \<^verbatim>\<open>find_matched_pair\<close> of
  \<^verbatim>\<open>library/services/log_builder.py\<close>. The rows of the database are data, in the order in which a query returns
  them; randomness is an explicit draw. A fit candidate keeps the row itself where the code keeps its id and
  reads the row again.
\<close>

section \<open>Rows\<close>

record track_row =
  row_id :: int
  row_artist :: utext
  row_related :: utext
  row_category :: "int option"
  row_additional :: "int list"
  row_ready :: bool
  row_blocked :: "int list"
  row_holidays :: "string list"
  row_next :: "seconds option"
  row_duration :: "seconds option"
  row_cue :: "seconds option"
  row_weight :: nat
  row_last_played :: "seconds option"

record category_row =
  cat_id :: int
  cat_kind :: string
  cat_artist_separation :: "rat option"
  cat_title_separation :: "rat option"
  cat_proportional :: bool

text \<open>
  What one build reads: \<^verbatim>\<open>str.casefold\<close>, \<^verbatim>\<open>log(1 + x)\<close>, the tracks, the categories by id, the holidays, the
  aired log items with their scheduled time and track, the recency defaults in hours and the time.
\<close>

record station =
  casefold :: "utext \<Rightarrow> utext"
  log1p :: "rat \<Rightarrow> rat"
  library_tracks :: "track_row list"
  find_category :: "int \<Rightarrow> category_row option"
  all_holidays :: "holiday list"
  aired_items :: "(seconds \<times> track_row option) list"
  default_artist_separation :: rat
  default_title_separation :: rat
  now_at :: seconds

text \<open>
  One round of randomness: \<^verbatim>\<open>random()\<close> is a multiple of 2 to the -53; the database orders by a random key per
  track; each holiday has its own roll; \<^term>\<open>out_of_time\<close> says whether the pair search's deadline has passed
  when it looks at its n-th candidate.
\<close>

record draw =
  unit_draw :: "53 word"
  order_draw :: "int \<Rightarrow> rat"
  holiday_roll :: "string \<Rightarrow> 53 word"
  out_of_time :: "nat \<Rightarrow> bool"

definition fraction :: "53 word \<Rightarrow> rat" where
  "fraction w = of_nat (unat w) / 2 ^ 53"

lemma fraction_range: "0 \<le> fraction w" "fraction w < 1"
proof -
  have "unat w < 2 ^ 53" using unsigned_less [of w, where ?'a = nat] by simp
  then have "(of_nat (unat w) :: rat) < of_nat (2 ^ 53)" by (simp only: of_nat_less_iff)
  then show "fraction w < 1" by (simp add: fraction_def)
  show "0 \<le> fraction w" unfolding fraction_def by (intro divide_nonneg_nonneg of_nat_0_le_iff) simp
qed

definition track_airtime :: "track_row \<Rightarrow> seconds" where
  "track_airtime t = effective_airtime (row_next t) (row_duration t) (row_cue t)"

lemma track_airtime_nonneg [simp]: "0 \<le> track_airtime t"
  by (simp add: track_airtime_def effective_airtime_def split: option.split)

definition row_keys :: "station \<Rightarrow> track_row \<Rightarrow> utext set" where
  "row_keys st t = track_identity_keys (casefold st) (row_artist t) (row_related t)"

section \<open>Weights\<close>

definition holiday_boost :: "station \<Rightarrow> string list \<Rightarrow> track_row \<Rightarrow> nat" where
  "holiday_boost st active t =
     foldr max (map weight_boost (filter (\<lambda>h. holiday_code h \<in> set (row_holidays t) \<and> holiday_code h \<in> set active) (all_holidays st))) 0"

definition DORMANT_WEIGHT_BONUS_DAYS :: rat where "DORMANT_WEIGHT_BONUS_DAYS = 365"
definition DORMANT_WEIGHT_BONUS :: rat where "DORMANT_WEIGHT_BONUS = 2"

definition compute_effective_weight :: "(rat \<Rightarrow> rat) \<Rightarrow> nat \<Rightarrow> nat \<Rightarrow> seconds option \<Rightarrow> seconds \<Rightarrow> rat" where
  "compute_effective_weight lg rotation_weight boost last_played now =
     (let long_ago = now - DORMANT_WEIGHT_BONUS_DAYS * 86400;
          reference = (case last_played of None \<Rightarrow> long_ago | Some p \<Rightarrow> p);
          is_dormant = (case last_played of None \<Rightarrow> True | Some p \<Rightarrow> p < long_ago);
          hours = max 0 ((now - reference) / 3600)
      in (of_nat rotation_weight + 1 + of_nat boost) * (1 + lg hours) * (if is_dormant then DORMANT_WEIGHT_BONUS else 1))"

record fit_candidate =
  fit_row :: track_row
  fit_keys :: "utext set"
  fit_airtime :: seconds
  fit_weight :: rat

definition fit_candidate_of :: "station \<Rightarrow> string list \<Rightarrow> track_row \<Rightarrow> fit_candidate" where
  "fit_candidate_of st active t =
     \<lparr>fit_row = t, fit_keys = row_keys st t, fit_airtime = track_airtime t,
      fit_weight = compute_effective_weight (log1p st) (row_weight t) (holiday_boost st active t) (row_last_played t) (now_at st)\<rparr>"

definition extract_fit_candidates :: "station \<Rightarrow> string list \<Rightarrow> track_row list \<Rightarrow> fit_candidate list" where
  "extract_fit_candidates st active pool = map (fit_candidate_of st active) pool"

section \<open>Weighted choice\<close>

text \<open>\<^verbatim>\<open>random.choices(items, weights, k=1)[0]\<close>, or a uniform choice when no weight is positive.\<close>

fun cumulative :: "rat \<Rightarrow> rat list \<Rightarrow> rat list" where
  "cumulative acc [] = []"
| "cumulative acc (w # ws) = (acc + w) # cumulative (acc + w) ws"

definition weighted_choice_by :: "53 word \<Rightarrow> 'a list \<Rightarrow> ('a \<Rightarrow> rat) \<Rightarrow> 'a" where
  "weighted_choice_by r items weight =
     (let weights = map (\<lambda>i. max 0 (weight i)) items in
      if sum_list weights \<le> 0 then items ! (unat r mod length items)
      else items ! length (takeWhile (\<lambda>c. c \<le> fraction r * sum_list weights) (butlast (cumulative 0 weights))))"

section \<open>Exact fit\<close>

definition DURATION_FIT_MARGIN :: seconds where "DURATION_FIT_MARGIN = 30"
definition FIT_NEAR_MATCH_COUNT :: nat where "FIT_NEAR_MATCH_COUNT = 5"
definition PAIR_LANDING_THRESHOLD_SECONDS :: seconds where "PAIR_LANDING_THRESHOLD_SECONDS = 720"
definition EXACT_FIT_THRESHOLD_SECONDS :: seconds where "EXACT_FIT_THRESHOLD_SECONDS = 360"

definition pick_best_fit :: "station \<Rightarrow> string list \<Rightarrow> 53 word \<Rightarrow> seconds \<Rightarrow> track_row list \<Rightarrow> track_row option" where
  "pick_best_fit st active r remaining pool =
     (let fitting = filter (\<lambda>c. remaining - fit_airtime c \<ge> - DURATION_FIT_MARGIN) (extract_fit_candidates st active pool);
          finalists = take FIT_NEAR_MATCH_COUNT (sort_key (\<lambda>c. \<bar>remaining - fit_airtime c\<bar>) fitting)
      in if fitting = [] then None else Some (fit_row (weighted_choice_by r finalists fit_weight)))"

section \<open>Matched pairs\<close>

definition PAIR_DURATION_NEIGHBORS :: nat where "PAIR_DURATION_NEIGHBORS = 8"
definition PAIR_FINALIST_LIMIT :: nat where "PAIR_FINALIST_LIMIT = 50"
definition PAIR_LANDING_QUALITY_DIVISOR :: rat where "PAIR_LANDING_QUALITY_DIVISOR = 15"

record pair_result =
  pair_a :: fit_candidate
  pair_b :: fit_candidate
  pair_score :: rat
  landing_error :: seconds

definition pair_valid :: "fit_candidate \<Rightarrow> fit_candidate \<Rightarrow> bool" where
  "pair_valid a b \<longleftrightarrow> row_id (fit_row a) \<noteq> row_id (fit_row b) \<and> fit_keys a \<inter> fit_keys b = {}"

definition score_pair :: "seconds \<Rightarrow> fit_candidate \<Rightarrow> fit_candidate \<Rightarrow> pair_result" where
  "score_pair remaining a b =
     (let error = \<bar>remaining - (fit_airtime a + fit_airtime b)\<bar>
      in \<lparr>pair_a = a, pair_b = b,
          pair_score = fit_weight a * fit_weight b * (1 / (1 + error / PAIR_LANDING_QUALITY_DIVISOR)),
          landing_error = error\<rparr>)"

text \<open>The candidates around the point where a complementary airtime would stand.\<close>

definition neighbours :: "fit_candidate list \<Rightarrow> seconds \<Rightarrow> fit_candidate list" where
  "neighbours sorted_b target =
     (let half = max 1 (PAIR_DURATION_NEIGHBORS div 2);
          idx = length (takeWhile (\<lambda>c. fit_airtime c < target) sorted_b)
      in drop (idx - half) (take (min (length sorted_b) (idx + half)) sorted_b))"

fun scan_pairs :: "(nat \<Rightarrow> bool) \<Rightarrow> fit_candidate list \<Rightarrow> seconds \<Rightarrow> nat \<Rightarrow> fit_candidate list \<Rightarrow> pair_result list" where
  "scan_pairs late sorted_b remaining i [] = []"
| "scan_pairs late sorted_b remaining i (a # rest) =
     (if i mod 200 = 0 \<and> i > 0 \<and> late i then []
      else map (score_pair remaining a) (filter (pair_valid a) (neighbours sorted_b (remaining - fit_airtime a)))
             @ scan_pairs late sorted_b remaining (Suc i) rest)"

definition find_matched_pair :: "draw \<Rightarrow> fit_candidate list \<Rightarrow> fit_candidate list \<Rightarrow> seconds \<Rightarrow> pair_result option" where
  "find_matched_pair d candidates_a candidates_b remaining =
     (let scored = scan_pairs (out_of_time d) (sort_key fit_airtime candidates_b) remaining 0 candidates_a;
          finalists = take PAIR_FINALIST_LIMIT (sort_key (\<lambda>p. - pair_score p) scored)
      in if candidates_a = [] \<or> candidates_b = [] \<or> scored = [] then None
         else Some (weighted_choice_by (unit_draw d) finalists pair_score))"

section \<open>Pools and exclusions\<close>

definition tracks_for_category :: "station \<Rightarrow> int \<Rightarrow> int option \<Rightarrow> track_row list" where
  "tracks_for_category st category slot =
     filter (\<lambda>t. (row_category t = Some category \<or> category \<in> set (row_additional t)) \<and> row_ready t
       \<and> (case slot of None \<Rightarrow> True | Some s \<Rightarrow> s \<notin> set (row_blocked t))) (library_tracks st)"

definition music_holiday_pool :: "station \<Rightarrow> string list \<Rightarrow> int \<Rightarrow> track_row list" where
  "music_holiday_pool st codes slot =
     (if codes = [] then []
      else filter (\<lambda>t. set (row_holidays t) \<inter> set codes \<noteq> {} \<and> row_ready t
        \<and> list_ex (\<lambda>c. map_option cat_kind (find_category st c) = Some ''music'')
            ((case row_category t of None \<Rightarrow> [] | Some c \<Rightarrow> [c]) @ row_additional t)
        \<and> slot \<notin> set (row_blocked t)) (library_tracks st))"

definition get_separation :: "station \<Rightarrow> category_row \<Rightarrow> rat \<times> rat" where
  "get_separation st category =
     (let artist = (case cat_artist_separation category of None \<Rightarrow> default_artist_separation st | Some x \<Rightarrow> x);
          title = (case cat_title_separation category of None \<Rightarrow> default_title_separation st | Some x \<Rightarrow> x);
          count = length (tracks_for_category st (cat_id category) None);
          scale = min (of_nat count / 500) 1
      in if cat_proportional category \<and> count > 0 then (artist * scale, title * scale) else (artist, title))"

text \<open>The exclusions of the recency window before the target time, in hours.\<close>

definition history_exclusions :: "station \<Rightarrow> seconds \<Rightarrow> rat \<Rightarrow> rat \<Rightarrow> int set \<times> utext set" where
  "history_exclusions st target artist_sep title_sep =
     (if max artist_sep title_sep \<le> 0 then ({}, {})
      else let since = (\<lambda>hours. concat (map (\<lambda>(scheduled, row). case row of
                 None \<Rightarrow> []
               | Some t \<Rightarrow> if target - hours * 3600 \<le> scheduled \<and> scheduled < target then [t] else []) (aired_items st)))
        in (row_id ` set (since title_sep), \<Union> (row_keys st ` set (since artist_sep))))"

definition get_recent_exclusions :: "station \<Rightarrow> seconds \<Rightarrow> rat \<Rightarrow> rat \<Rightarrow> int set \<Rightarrow> utext set \<Rightarrow> int set \<times> utext set" where
  "get_recent_exclusions st target artist_sep title_sep picked_ids picked_keys =
     (let (ids, keys) = history_exclusions st target artist_sep title_sep in (picked_ids \<union> ids, picked_keys \<union> keys))"

definition narrowed :: "station \<Rightarrow> string list \<Rightarrow> track_row list \<Rightarrow> int set \<Rightarrow> utext set \<Rightarrow> track_row list" where
  "narrowed st exclude_holidays base ids keys =
     filter (\<lambda>t. row_id t \<notin> ids \<and> row_keys st t \<inter> keys = {} \<and> set (row_holidays t) \<inter> set exclude_holidays = {}) base"

section \<open>Picking with loosening\<close>

text \<open>What \<^verbatim>\<open>_resolve_slot_pool_context\<close> finds out for a slot: the separations, the unnarrowed pool, the holidays kept out.\<close>

record slot_context =
  slot_artist_sep :: rat
  slot_title_sep :: rat
  slot_pool :: "track_row list"
  slot_exclude_holidays :: "string list"

definition first_in_order :: "draw \<Rightarrow> track_row list \<Rightarrow> track_row option" where
  "first_in_order d pool = (case sort_key (\<lambda>t. order_draw d (row_id t)) pool of [] \<Rightarrow> None | t # _ \<Rightarrow> Some t)"

definition choose_from :: "station \<Rightarrow> string list \<Rightarrow> bool \<Rightarrow> seconds \<Rightarrow> draw \<Rightarrow> track_row list \<Rightarrow> track_row option" where
  "choose_from st active fit remaining d pool =
     (if fit then pick_best_fit st active (unit_draw d) remaining pool else first_in_order d pool)"

text \<open>The loosening passes; the number counts the rounds of randomness used.\<close>

fun loosen ::
  "station \<Rightarrow> string list \<Rightarrow> bool \<Rightarrow> seconds \<Rightarrow> (nat \<Rightarrow> draw) \<Rightarrow> seconds \<Rightarrow> slot_context \<Rightarrow> int set \<Rightarrow> utext set
     \<Rightarrow> nat \<Rightarrow> nat \<Rightarrow> rat \<Rightarrow> rat \<Rightarrow> int set \<Rightarrow> utext set \<Rightarrow> track_row option \<times> nat" where
  "loosen st active fit remaining rnd target ctx hard_ids hard_keys 0 n artist_sep title_sep ids keys = (None, n)"
| "loosen st active fit remaining rnd target ctx hard_ids hard_keys (Suc k) n artist_sep title_sep ids keys =
     (case choose_from st active fit remaining (rnd n)
          (narrowed st (slot_exclude_holidays ctx) (slot_pool ctx) (ids \<union> hard_ids) (keys \<union> hard_keys)) of
        Some t \<Rightarrow> (Some t, Suc n)
      | None \<Rightarrow>
          (let (ids', keys') = history_exclusions st target (artist_sep / 2) (title_sep / 2)
           in loosen st active fit remaining rnd target ctx hard_ids hard_keys k (Suc n) (artist_sep / 2) (title_sep / 2) ids' keys'))"

definition MAX_LOOSENING :: nat where "MAX_LOOSENING = 3"

definition fit_mode :: "bool \<Rightarrow> seconds \<Rightarrow> bool" where
  "fit_mode force remaining \<longleftrightarrow> force \<or> remaining < EXACT_FIT_THRESHOLD_SECONDS"

definition pick_track ::
  "station \<Rightarrow> string list \<Rightarrow> (nat \<Rightarrow> draw) \<Rightarrow> seconds \<Rightarrow> slot_context \<Rightarrow> int set \<Rightarrow> utext set \<Rightarrow> int set \<Rightarrow> utext set
     \<Rightarrow> seconds \<Rightarrow> bool \<Rightarrow> nat \<Rightarrow> track_row option \<times> nat" where
  "pick_track st active rnd target ctx exclude_ids exclude_keys hard_ids hard_keys remaining force n =
     (let fit = fit_mode force remaining;
          narrow = narrowed st (slot_exclude_holidays ctx) (slot_pool ctx);
          attempt = (\<lambda>n. choose_from st active fit remaining (rnd n)) in
      case loosen st active fit remaining rnd target ctx hard_ids hard_keys (Suc MAX_LOOSENING) n
             (slot_artist_sep ctx) (slot_title_sep ctx) exclude_ids exclude_keys of
        (Some t, m) \<Rightarrow> (Some t, m)
      | (None, m) \<Rightarrow>
          (case attempt m (narrow hard_ids {}) of
             Some t \<Rightarrow> (Some t, Suc m)
           | None \<Rightarrow> (attempt (Suc m) (narrow {} {}), Suc (Suc m))))"

section \<open>A weighted choice is a choice\<close>

lemma length_cumulative [simp]: "length (cumulative acc ws) = length ws"
  by (induction ws arbitrary: acc) auto

lemma choice_index: "ws \<noteq> [] \<Longrightarrow> length (takeWhile P (butlast (cumulative acc ws))) < length ws"
  by (rule le_less_trans [OF length_takeWhile_le]) simp

lemma weighted_choice_in:
  assumes "items \<noteq> []"
  shows "weighted_choice_by r items weight \<in> set items"
proof -
  have "length (takeWhile P (butlast (cumulative 0 (map (\<lambda>i. max 0 (weight i)) items)))) < length items" for P
    using choice_index [of "map (\<lambda>i. max 0 (weight i)) items"] assms by simp
  then show ?thesis using assms by (simp add: weighted_choice_by_def Let_def)
qed

lemma cumulative_choice:
  "list_all (\<lambda>w. 0 \<le> w) ws \<Longrightarrow> ws \<noteq> [] \<Longrightarrow> acc \<le> x \<Longrightarrow> x < acc + sum_list ws \<Longrightarrow>
   0 < ws ! length (takeWhile (\<lambda>c. c \<le> x) (butlast (cumulative acc ws)))"
proof (induction ws arbitrary: acc)
  case (Cons w ws)
  show ?case
  proof (cases "ws = []")
    case True
    then show ?thesis using Cons.prems by simp
  next
    case False
    then have ne: "cumulative (acc + w) ws \<noteq> []" by (metis length_0_conv length_cumulative)
    show ?thesis
    proof (cases "acc + w \<le> x")
      case True
      then show ?thesis using Cons.IH [of "acc + w"] Cons.prems False ne by (simp add: algebra_simps)
    next
      case le: False
      then show ?thesis using Cons.prems(3) ne by simp
    qed
  qed
qed simp

text \<open>A candidate without weight is not chosen while another has some.\<close>

lemma weighted_choice_weight:
  assumes "items \<noteq> []" "0 < sum_list (map (\<lambda>i. max 0 (weight i)) items)"
  shows "0 < weight (weighted_choice_by r items weight)"
proof -
  let ?ws = "map (\<lambda>i. max 0 (weight i)) items"
  let ?x = "fraction r * sum_list ?ws"
  let ?k = "length (takeWhile (\<lambda>c. c \<le> ?x) (butlast (cumulative 0 ?ws)))"
  have x: "0 \<le> ?x" "?x < 0 + sum_list ?ws" using fraction_range [of r] assms(2) by simp_all
  have "0 < ?ws ! ?k" by (rule cumulative_choice) (use x assms in \<open>simp_all add: list_all_iff\<close>)
  moreover have "?k < length items" using choice_index [of ?ws] assms(1) by simp
  ultimately have "0 < max 0 (weight (items ! ?k))" by simp
  then show ?thesis using assms(2) by (simp add: weighted_choice_by_def Let_def)
qed

section \<open>The best fit\<close>

definition acceptable :: "bool \<Rightarrow> seconds \<Rightarrow> track_row \<Rightarrow> bool" where
  "acceptable fit remaining t \<longleftrightarrow> \<not> fit \<or> track_airtime t \<le> remaining + DURATION_FIT_MARGIN"

lemma sorted_closer:
  assumes "sorted (map key xs)" "i < length xs"
  shows "length (filter (\<lambda>x. key x < key (xs ! i)) xs) \<le> i"
proof -
  have "\<not> key x < key (xs ! i)" if x: "x \<in> set (drop i xs)" for x
  proof -
    obtain j where "j < length (drop i xs)" "x = drop i xs ! j" using x by (metis in_set_conv_nth)
    then show ?thesis using sorted_nth_mono [OF assms(1), of i "i + j"] by (simp add: not_less)
  qed
  then have "filter (\<lambda>x. key x < key (xs ! i)) (drop i xs) = []" by (simp add: filter_empty_conv)
  moreover have "filter P xs = filter P (take i xs) @ filter P (drop i xs)" for P
    by (metis append_take_drop_id filter_append)
  ultimately have "filter (\<lambda>x. key x < key (xs ! i)) xs = filter (\<lambda>x. key x < key (xs ! i)) (take i xs)" by simp
  then show ?thesis by (metis length_filter_le length_take min.bounded_iff)
qed

lemma length_filter_sort_key: "length (filter P (sort_key key xs)) = length (filter P xs)"
  by (simp add: filter_sort)

lemma take_sorted_closer:
  assumes "x \<in> set (take k (sort_key key xs))" "0 < k"
  shows "length (filter (\<lambda>y. key y < key x) xs) < k"
proof -
  obtain i where i: "i < k" "i < length (sort_key key xs)" "x = sort_key key xs ! i"
    using assms(1) by (auto simp: in_set_conv_nth)
  show ?thesis
    using sorted_closer [OF sorted_sort_key i(2)] i(1,3) length_filter_sort_key [of "\<lambda>y. key y < key x" key xs] by simp
qed

lemma fitting_rows:
  "filter (\<lambda>c. remaining - fit_airtime c \<ge> - DURATION_FIT_MARGIN) (extract_fit_candidates st active pool)
     = map (fit_candidate_of st active) (filter (acceptable True remaining) pool)"
  unfolding extract_fit_candidates_def filter_map
  by (rule arg_cong [where f = "map (fit_candidate_of st active)"], rule filter_cong)
    (auto simp: fit_candidate_of_def acceptable_def)

lemma best_fit_none: "pick_best_fit st active r remaining pool = None \<longleftrightarrow> filter (acceptable True remaining) pool = []"
  unfolding pick_best_fit_def Let_def fitting_rows by simp

lemma best_fit_row:
  assumes "pick_best_fit st active r remaining pool = Some t"
  shows "t \<in> set (filter (acceptable True remaining) pool)
    \<and> length (filter (\<lambda>u. \<bar>remaining - track_airtime u\<bar> < \<bar>remaining - track_airtime t\<bar>) (filter (acceptable True remaining) pool)) < 5"
proof -
  let ?rows = "filter (acceptable True remaining) pool"
  let ?key = "\<lambda>c. \<bar>remaining - fit_airtime c\<bar>"
  let ?finalists = "take FIT_NEAR_MATCH_COUNT (sort_key ?key (map (fit_candidate_of st active) ?rows))"
  let ?c = "weighted_choice_by r ?finalists fit_weight"
  have rows: "?rows \<noteq> []" and t: "t = fit_row ?c"
    using assms unfolding pick_best_fit_def Let_def fitting_rows by (auto split: if_splits)
  then have "sort_key ?key (map (fit_candidate_of st active) ?rows) \<noteq> []" by (metis length_0_conv length_map length_sort)
  then have c: "?c \<in> set ?finalists" by (intro weighted_choice_in) (simp add: FIT_NEAR_MATCH_COUNT_def)
  then have "?c \<in> set (map (fit_candidate_of st active) ?rows)" by (metis in_set_takeD set_sort)
  then obtain u where u: "u \<in> set ?rows" "?c = fit_candidate_of st active u" by auto
  then have "u = t" using t by (simp add: fit_candidate_of_def)
  have "length (filter (\<lambda>y. ?key y < ?key ?c) (map (fit_candidate_of st active) ?rows)) < 5"
    using take_sorted_closer [OF c] by (simp add: FIT_NEAR_MATCH_COUNT_def)
  then have "length (filter (\<lambda>u. \<bar>remaining - track_airtime u\<bar> < \<bar>remaining - track_airtime t\<bar>) ?rows) < 5"
    unfolding u(2) filter_map \<open>u = t\<close> by (simp add: fit_candidate_of_def comp_def)
  then show ?thesis using u(1) \<open>u = t\<close> by blast
qed

text \<open>
  The exact fit takes a track of the pool that runs over by at most the margin, and one of the five that
  land closest; it takes none exactly when every track of the pool runs over by more.
\<close>

theorem best_fit_is_near:
  "case pick_best_fit st active r remaining pool of
     None \<Rightarrow> filter (acceptable True remaining) pool = []
   | Some t \<Rightarrow> t \<in> set pool \<and> track_airtime t \<le> remaining + DURATION_FIT_MARGIN
       \<and> length (filter (\<lambda>u. \<bar>remaining - track_airtime u\<bar> < \<bar>remaining - track_airtime t\<bar>) (filter (acceptable True remaining) pool)) < 5"
  using best_fit_none [of st active r remaining pool] best_fit_row [of st active r remaining pool]
  by (auto simp: acceptable_def split: option.split)

section \<open>The matched pair\<close>

lemma neighbours_subset: "set (neighbours bs x) \<subseteq> set bs"
  unfolding neighbours_def Let_def by (meson dual_order.trans set_drop_subset set_take_subset)

lemma nth_in_slice:
  assumes "a \<le> k" "k < min (length bs) n"
  shows "bs ! k \<in> set (drop a (take (min (length bs) n) bs))"
proof -
  have "drop a (take (min (length bs) n) bs) ! (k - a) = bs ! k" using assms by (simp add: nth_drop)
  moreover have "k - a < length (drop a (take (min (length bs) n) bs))" using assms by (simp add: diff_less_mono)
  ultimately show ?thesis by (metis nth_mem)
qed

lemma neighbours_nearest:
  assumes sorted: "sorted (map fit_airtime bs)" and b: "b \<in> set bs"
  shows "\<exists>c\<in>set (neighbours bs x). \<bar>x - fit_airtime c\<bar> \<le> \<bar>x - fit_airtime b\<bar>"
proof -
  let ?idx = "length (takeWhile (\<lambda>c. fit_airtime c < x) bs)"
  have window: "bs ! k \<in> set (neighbours bs x)" if "k < length bs" "k < ?idx + 4" "?idx \<le> k + 4" for k
  proof -
    have "bs ! k \<in> set (drop (?idx - 4) (take (min (length bs) (?idx + 4)) bs))"
      by (rule nth_in_slice) (use that in linarith)+
    then show ?thesis by (simp add: neighbours_def PAIR_DURATION_NEIGHBORS_def Let_def)
  qed
  obtain j where j: "j < length bs" "b = bs ! j" using b by (metis in_set_conv_nth)
  have mono: "fit_airtime (bs ! i) \<le> fit_airtime (bs ! k)" if "i \<le> k" "k < length bs" for i k
    using sorted_nth_mono [OF sorted, of i k] that by simp
  show ?thesis
  proof (cases "j < ?idx")
    case True
    have "?idx \<le> length bs" by (rule length_takeWhile_le)
    then have k: "?idx - 1 < length bs" "j \<le> ?idx - 1" using True by linarith+
    have "fit_airtime (bs ! (?idx - 1)) < x"
      using nth_mem [of "?idx - 1" "takeWhile (\<lambda>c. fit_airtime c < x) bs"] True set_takeWhileD takeWhile_nth by (metis diff_less less_nat_zero_code less_one neq0_conv)
    then have "\<bar>x - fit_airtime (bs ! (?idx - 1))\<bar> \<le> \<bar>x - fit_airtime b\<bar>" using mono [OF k(2,1)] unfolding j(2) by (simp add: abs_if)
    then show ?thesis using window [OF k(1)] True by auto
  next
    case False
    then have k: "?idx < length bs" "?idx \<le> j" using j by linarith+
    have "\<not> fit_airtime (bs ! ?idx) < x" using nth_length_takeWhile [OF k(1)] .
    then have "\<bar>x - fit_airtime (bs ! ?idx)\<bar> \<le> \<bar>x - fit_airtime b\<bar>" using mono [OF k(2) j(1)] unfolding j(2) by (simp add: abs_if)
    then show ?thesis using window [OF k(1)] by auto
  qed
qed

lemma scan_pairs_legal:
  "p \<in> set (scan_pairs late bs remaining i as) \<Longrightarrow>
   \<exists>a\<in>set as. \<exists>b\<in>set bs. pair_valid a b \<and> p = score_pair remaining a b"
proof (induction as arbitrary: i)
  case (Cons a as)
  then show ?case using neighbours_subset [of bs "remaining - fit_airtime a"] by (force split: if_splits)
qed simp

text \<open>
  A matched pair is one track from each pool, never the same track and never tracks that share an artist
  identity, and it carries its own score and landing error; and for the first track the search looks at
  candidates as close as any in the second pool to the airtime that is missing.
\<close>

theorem matched_pair_legal:
  "(case find_matched_pair d as bs remaining of
      None \<Rightarrow> True
    | Some p \<Rightarrow> pair_a p \<in> set as \<and> pair_b p \<in> set bs
        \<and> row_id (fit_row (pair_a p)) \<noteq> row_id (fit_row (pair_b p)) \<and> fit_keys (pair_a p) \<inter> fit_keys (pair_b p) = {}
        \<and> landing_error p = \<bar>remaining - (fit_airtime (pair_a p) + fit_airtime (pair_b p))\<bar>)
   \<and> Min ((\<lambda>b. \<bar>x - fit_airtime b\<bar>) ` set (neighbours (sort_key fit_airtime bs) x)) = Min ((\<lambda>b. \<bar>x - fit_airtime b\<bar>) ` set bs)"
proof (rule conjI)
  let ?scored = "scan_pairs (out_of_time d) (sort_key fit_airtime bs) remaining 0 as"
  let ?finalists = "take PAIR_FINALIST_LIMIT (sort_key (\<lambda>p. - pair_score p) ?scored)"
  show "case find_matched_pair d as bs remaining of
      None \<Rightarrow> True
    | Some p \<Rightarrow> pair_a p \<in> set as \<and> pair_b p \<in> set bs
        \<and> row_id (fit_row (pair_a p)) \<noteq> row_id (fit_row (pair_b p)) \<and> fit_keys (pair_a p) \<inter> fit_keys (pair_b p) = {}
        \<and> landing_error p = \<bar>remaining - (fit_airtime (pair_a p) + fit_airtime (pair_b p))\<bar>"
  proof (cases "find_matched_pair d as bs remaining")
    case (Some p)
    then have ne: "?scored \<noteq> []" and p: "p = weighted_choice_by (unit_draw d) ?finalists pair_score"
      by (auto simp: find_matched_pair_def Let_def split: if_splits)
    have "sort_key (\<lambda>p. - pair_score p) ?scored \<noteq> []" using ne by (metis length_0_conv length_sort)
    then have "p \<in> set ?finalists" unfolding p by (intro weighted_choice_in) (simp add: PAIR_FINALIST_LIMIT_def)
    then have "p \<in> set ?scored" by (metis in_set_takeD set_sort)
    from scan_pairs_legal [OF this] Some show ?thesis by (auto simp: pair_valid_def score_pair_def Let_def)
  qed simp
next
  let ?key = "\<lambda>b. \<bar>x - fit_airtime b\<bar>"
  let ?near = "set (neighbours (sort_key fit_airtime bs) x)"
  have sub: "?near \<subseteq> set bs" using neighbours_subset [of "sort_key fit_airtime bs" x] by simp
  have near: "\<exists>c\<in>?near. ?key c \<le> ?key b" if "b \<in> set bs" for b
    using neighbours_nearest [OF sorted_sort_key, of b] that by simp
  show "Min (?key ` ?near) = Min (?key ` set bs)"
  proof (cases "bs = []")
    case True
    then show ?thesis using sub by simp
  next
    case False
    then have ne: "?near \<noteq> {}" using near by (metis empty_iff hd_in_set)
    show ?thesis
    proof (rule antisym)
      show "Min (?key ` ?near) \<le> Min (?key ` set bs)"
        using near False ne by (auto simp: Min_le_iff Min_ge_iff)
      show "Min (?key ` set bs) \<le> Min (?key ` ?near)"
        using sub ne by (intro Min_antimono image_mono) auto
    qed
  qed
qed

section \<open>The loosening is a ladder of pools\<close>

fun first_choice :: "(nat \<Rightarrow> 'a list \<Rightarrow> 'a option) \<Rightarrow> nat \<Rightarrow> 'a list list \<Rightarrow> 'a option" where
  "first_choice f n [] = None"
| "first_choice f n (pool # pools) = (case f n pool of Some t \<Rightarrow> Some t | None \<Rightarrow> first_choice f (Suc n) pools)"

text \<open>What a way of choosing promises: it finds nothing exactly when nothing acceptable is there, and only that.\<close>

locale pool_choice =
  fixes take_one :: "nat \<Rightarrow> 'a list \<Rightarrow> 'a option" and ok :: "'a \<Rightarrow> bool"
  assumes take_None: "take_one k pool = None \<longleftrightarrow> filter ok pool = []"
    and take_Some: "take_one k pool = Some t \<Longrightarrow> t \<in> set (filter ok pool)"
begin

lemma ladder_Some:
  "first_choice take_one n pools = Some t \<Longrightarrow>
   \<exists>before pool after. pools = before @ pool # after \<and> t \<in> set (filter ok pool) \<and> list_all (\<lambda>q. filter ok q = []) before"
proof (induction pools arbitrary: n)
  case (Cons pool pools)
  show ?case
  proof (cases "take_one n pool")
    case None
    then obtain before p after where
      "pools = before @ p # after" "t \<in> set (filter ok p)" "list_all (\<lambda>q. filter ok q = []) before"
      using Cons.IH [of "Suc n"] Cons.prems by auto
    then have "pool # pools = (pool # before) @ p # after \<and> t \<in> set (filter ok p) \<and> list_all (\<lambda>q. filter ok q = []) (pool # before)"
      using None take_None by auto
    then show ?thesis by blast
  next
    case (Some u)
    then have "pool # pools = [] @ pool # pools \<and> t \<in> set (filter ok pool) \<and> list_all (\<lambda>q. filter ok q = []) []"
      using Cons.prems take_Some by simp
    then show ?thesis by blast
  qed
qed simp

lemma ladder_None: "first_choice take_one n pools = None \<Longrightarrow> q \<in> set pools \<Longrightarrow> filter ok q = []"
  by (induction pools arbitrary: n) (auto simp: take_None split: option.splits)

end

interpretation best_fit: pool_choice "\<lambda>k. pick_best_fit st active (unit_draw (rnd k)) remaining" "acceptable True remaining"
  for st active rnd remaining
  by unfold_locales (use best_fit_none best_fit_row in blast)+

interpretation in_order: pool_choice "\<lambda>k. first_in_order (rnd k)" "acceptable False remaining"
  for rnd remaining
proof unfold_locales
  fix k :: nat and pool :: "track_row list" and t
  have "sort_key (\<lambda>t. order_draw (rnd k) (row_id t)) pool = [] \<longleftrightarrow> pool = []" by (metis length_0_conv length_sort)
  then show "first_in_order (rnd k) pool = None \<longleftrightarrow> filter (acceptable False remaining) pool = []"
    by (auto simp: first_in_order_def acceptable_def filter_empty_conv split: list.splits)
  assume "first_in_order (rnd k) pool = Some t"
  then obtain rest where "sort_key (\<lambda>t. order_draw (rnd k) (row_id t)) pool = t # rest"
    by (auto simp: first_in_order_def split: list.splits)
  then have "t \<in> set (sort_key (\<lambda>t. order_draw (rnd k) (row_id t)) pool)" by (metis list.set_intros(1))
  then show "t \<in> set (filter (acceptable False remaining) pool)" by (simp add: acceptable_def)
qed

interpretation chooser: pool_choice "\<lambda>k. choose_from st active fit remaining (rnd k)" "acceptable fit remaining"
  for st active fit remaining rnd
  by (cases fit) (simp_all only: choose_from_def [abs_def] if_True if_False best_fit.pool_choice_axioms in_order.pool_choice_axioms)

definition relaxations :: "station \<Rightarrow> seconds \<Rightarrow> slot_context \<Rightarrow> int set \<Rightarrow> utext set \<Rightarrow> int set \<Rightarrow> utext set \<Rightarrow> track_row list list" where
  "relaxations st target ctx ids keys hard_ids hard_keys =
     (let narrow = narrowed st (slot_exclude_holidays ctx) (slot_pool ctx);
          loosened = (\<lambda>k. let (i, s) = history_exclusions st target (slot_artist_sep ctx / 2 ^ k) (slot_title_sep ctx / 2 ^ k)
                       in narrow (i \<union> hard_ids) (s \<union> hard_keys))
      in [narrow (ids \<union> hard_ids) (keys \<union> hard_keys), loosened 1, loosened 2, loosened 3, narrow hard_ids {}, narrow {} {}])"

lemma pick_ladder:
  "fst (pick_track st active rnd target ctx ids keys hard_ids hard_keys remaining force n)
     = first_choice (\<lambda>m. choose_from st active (fit_mode force remaining) remaining (rnd m)) n
         (relaxations st target ctx ids keys hard_ids hard_keys)"
proof -
  have four: "Suc MAX_LOOSENING = Suc (Suc (Suc (Suc 0)))" by (simp add: MAX_LOOSENING_def)
  show ?thesis
    unfolding pick_track_def relaxations_def Let_def four
    by (simp add: power2_eq_square power3_eq_cube split: option.split prod.split)
qed

text \<open>
  Picking a track walks down a fixed ladder of pools and takes from the first that has an acceptable track:
  all exclusions, the history window halved one, two and three times with what this hour already plays still out,
  then only the tracks of this hour out, then nothing.
\<close>

theorem pick_walks_the_ladder:
  "fst (pick_track st active rnd target ctx ids keys hard_ids hard_keys remaining force n)
     = first_choice (\<lambda>m. choose_from st active (fit_mode force remaining) remaining (rnd m)) n
         (relaxations st target ctx ids keys hard_ids hard_keys)"
  by (rule pick_ladder)

lemma relaxations_narrowed:
  "relaxations st target ctx ids keys hard_ids hard_keys =
     map (\<lambda>(i, s). narrowed st (slot_exclude_holidays ctx) (slot_pool ctx) i s)
       ((ids \<union> hard_ids, keys \<union> hard_keys)
        # map (\<lambda>k. let (i, s) = history_exclusions st target (slot_artist_sep ctx / 2 ^ k) (slot_title_sep ctx / 2 ^ k)
                   in (i \<union> hard_ids, s \<union> hard_keys)) [1, 2, 3]
        @ [(hard_ids, {}), ({}, {})])"
  by (simp add: relaxations_def Let_def split: prod.split)

text \<open>
  C40. Whatever is picked comes from the slot's own pool, without an excluded holiday and, when the end is near,
  without running over by more than the margin; nothing is picked only if that pool has no such track; and a
  track that this hour already plays is picked only if every such track is one.
\<close>

theorem repeat_only_when_forced:
  "let base = filter (acceptable (fit_mode force remaining) remaining) (narrowed st (slot_exclude_holidays ctx) (slot_pool ctx) {} {}) in
   case fst (pick_track st active rnd target ctx ids keys hard_ids hard_keys remaining force n) of
     None \<Rightarrow> base = []
   | Some t \<Rightarrow> t \<in> set base \<and> (if row_id t \<in> hard_ids then filter (\<lambda>u. row_id u \<notin> hard_ids) base = [] else True)"
proof -
  let ?narrow = "narrowed st (slot_exclude_holidays ctx) (slot_pool ctx)"
  let ?ok = "acceptable (fit_mode force remaining) remaining"
  let ?f = "\<lambda>m. choose_from st active (fit_mode force remaining) remaining (rnd m)"
  let ?pools = "relaxations st target ctx ids keys hard_ids hard_keys"
  have wider: "set (?narrow i s) \<subseteq> set (?narrow {} {})" for i s by (auto simp: narrowed_def)
  have last: "?pools = butlast ?pools @ [?narrow {} {}]" and hard: "last (butlast ?pools) = ?narrow hard_ids {}"
    and some: "butlast ?pools \<noteq> []"
    by (simp_all add: relaxations_def Let_def split: prod.split)
  have kept: "row_id t \<notin> hard_ids" if "p \<in> set (butlast ?pools)" "t \<in> set p" for p t
    using that by (auto simp: relaxations_narrowed narrowed_def split: prod.splits)
  show ?thesis
  proof (cases "first_choice ?f n ?pools")
    case None
    have "?narrow {} {} \<in> set ?pools" by (subst last) simp
    from chooser.ladder_None [OF None this] have "filter ?ok (?narrow {} {}) = []" .
    then show ?thesis using None by (simp add: pick_ladder)
  next
    case (Some t)
    from chooser.ladder_Some [OF this] obtain before p after where p: "?pools = before @ p # after"
      and t: "t \<in> set (filter ?ok p)" and failed: "list_all (\<lambda>q. filter ?ok q = []) before" by blast
    have "p \<in> set ?pools" using p(1) by simp
    then obtain i s where "p = ?narrow i s" by (auto simp: relaxations_narrowed Let_def split: prod.splits)
    then have base: "t \<in> set (filter ?ok (?narrow {} {}))" using t wider [of i s] by auto
    have "filter (\<lambda>u. row_id u \<notin> hard_ids) (filter ?ok (?narrow {} {})) = []" if "row_id t \<in> hard_ids"
    proof -
      have "p \<notin> set (butlast ?pools)" using kept [of p t] t that by auto
      then have "after = []" using p(1) by (auto simp: butlast_append split: if_splits)
      then have "butlast ?pools = before" using p(1) by simp
      then have "?narrow hard_ids {} \<in> set before" using hard some by (metis last_in_set)
      then have "filter ?ok (?narrow hard_ids {}) = []" using failed by (auto simp: list_all_iff)
      then show ?thesis by (auto simp: filter_empty_conv narrowed_def)
    qed
    then show ?thesis using base Some by (simp add: pick_ladder Let_def)
  qed
qed

end
