(* ===== verification/Hour_Build.thy ===== *)
theory Hour_Build
  imports Track_Selection Schedule_Resolution "HOL-Library.Sublist"
begin

text \<open>
  Building the log of one hour, \<^verbatim>\<open>library/services/log_builder.py\<close>: the walk over a rotation's slots or a
  playlist's items, the filling up, the windows of the hour's segments and the plan of the whole hour. Times are
  seconds; every choice uses the next round of a given sequence of draws.
\<close>

section \<open>Slots, picks and the build\<close>

datatype rotation_slot = DirectSlot track_row | CategorySlot category_row

record pick =
  pick_position :: nat
  scheduled_time :: seconds
  pick_track_row :: track_row
  pick_category :: "category_row option"
  pick_is_fill :: bool

record diagnostics =
  normal_picks :: nat
  landing_pairs :: nat
  landing_pair_fallbacks :: nat
  exact_fit_picks :: nat
  direct_track_inserts :: nat
  pool_exhausted_picks :: nat
  landing_errors :: "seconds list"

text \<open>The state of one build; the tracks and identities already picked are those of its picks.\<close>

record build =
  picks :: "pick list"
  accumulated_seconds :: seconds
  time_offset_seconds :: seconds
  rounds_used :: nat
  diag :: diagnostics
  rotation_walked :: bool

datatype fill_strategy = FixedCategory "category_row option" | RepeatLastCategory

record hour_setup =
  the_station :: station
  draws :: "nat \<Rightarrow> draw"
  target_time :: seconds
  week_slot :: int
  active_codes :: "string list"
  daily_shares :: "(string \<times> rat) list"
  fill_strategy_of :: fill_strategy

definition NOMINAL_HOUR_SECONDS :: seconds where "NOMINAL_HOUR_SECONDS = 3600"
definition MAX_FILL_TRACKS :: nat where "MAX_FILL_TRACKS = 200"

definition picked_ids :: "build \<Rightarrow> int set" where
  "picked_ids b = row_id ` pick_track_row ` set (picks b)"

definition picked_keys :: "hour_setup \<Rightarrow> build \<Rightarrow> utext set" where
  "picked_keys h b = \<Union> (row_keys (the_station h) ` pick_track_row ` set (picks b))"

definition own_category :: "hour_setup \<Rightarrow> track_row \<Rightarrow> category_row option" where
  "own_category h t = (case row_category t of None \<Rightarrow> None | Some c \<Rightarrow> find_category (the_station h) c)"

definition append_pick :: "hour_setup \<Rightarrow> bool \<Rightarrow> track_row \<Rightarrow> category_row option \<Rightarrow> build \<Rightarrow> build" where
  "append_pick h fill t category b =
     b\<lparr>picks := picks b @ [\<lparr>pick_position = length (picks b),
         scheduled_time = target_time h + (time_offset_seconds b + accumulated_seconds b),
         pick_track_row = t, pick_category = category, pick_is_fill = fill\<rparr>],
       accumulated_seconds := accumulated_seconds b + track_airtime t\<rparr>"

section \<open>Choosing for a slot\<close>

definition resolve_slot_pool_context :: "hour_setup \<Rightarrow> category_row \<Rightarrow> build \<Rightarrow> slot_context \<times> build" where
  "resolve_slot_pool_context h category b =
     (let st = the_station h; (artist_sep, title_sep) = get_separation st category;
          music = (cat_kind category = ''music'');
          roll = holiday_roll (draws h (rounds_used b));
          chosen = (if music \<and> active_codes h \<noteq> []
            then map fst (filter (\<lambda>(code, share). fraction (roll code) < share) (daily_shares h)) else [])
      in (\<lparr>slot_artist_sep = artist_sep, slot_title_sep = title_sep,
           slot_pool = (if chosen \<noteq> [] then music_holiday_pool st chosen (week_slot h)
                        else tracks_for_category st (cat_id category) (Some (week_slot h))),
           slot_exclude_holidays = (if chosen = [] \<and> music then active_codes h else [])\<rparr>,
          b\<lparr>rounds_used := Suc (rounds_used b)\<rparr>))"

definition sequential_pick :: "hour_setup \<Rightarrow> slot_context \<Rightarrow> seconds \<Rightarrow> bool \<Rightarrow> build \<Rightarrow> track_row option \<times> build" where
  "sequential_pick h ctx remaining force b =
     (let (ids, keys) = get_recent_exclusions (the_station h) (target_time h) (slot_artist_sep ctx) (slot_title_sep ctx)
            (picked_ids b) (picked_keys h b);
          (t, n) = pick_track (the_station h) (active_codes h) (draws h) (target_time h) ctx ids keys (picked_ids b) (picked_keys h b)
            remaining force (rounds_used b)
      in (t, b\<lparr>rounds_used := n\<rparr>))"

definition landing_slot_candidates :: "hour_setup \<Rightarrow> slot_context \<Rightarrow> build \<Rightarrow> fit_candidate list" where
  "landing_slot_candidates h ctx b =
     (let (ids, keys) = get_recent_exclusions (the_station h) (target_time h) (slot_artist_sep ctx) (slot_title_sep ctx)
            (picked_ids b) (picked_keys h b)
      in extract_fit_candidates (the_station h) (active_codes h)
           (narrowed (the_station h) (slot_exclude_holidays ctx) (slot_pool ctx) (ids \<union> picked_ids b) (keys \<union> picked_keys h b)))"

definition find_pair :: "hour_setup \<Rightarrow> slot_context \<Rightarrow> slot_context \<Rightarrow> seconds \<Rightarrow> build \<Rightarrow> pair_result option \<times> build" where
  "find_pair h ctx_a ctx_b remaining b =
     (find_matched_pair (draws h (rounds_used b)) (landing_slot_candidates h ctx_a b) (landing_slot_candidates h ctx_b b) remaining,
      b\<lparr>rounds_used := Suc (rounds_used b)\<rparr>)"

section \<open>Walking a rotation\<close>

definition count :: "(diagnostics \<Rightarrow> diagnostics) \<Rightarrow> build \<Rightarrow> build" where
  "count f b = b\<lparr>diag := f (diag b)\<rparr>"

text \<open>A pair for the slot and the immediately following one, if that is a category slot.\<close>

definition landing_pair ::
  "hour_setup \<Rightarrow> slot_context \<Rightarrow> rotation_slot list \<Rightarrow> seconds \<Rightarrow> build \<Rightarrow> (pair_result \<times> category_row) option \<times> build" where
  "landing_pair h ctx_a rest remaining b =
     (case rest of
        CategorySlot category_b # _ \<Rightarrow>
          (let (ctx_b, b1) = resolve_slot_pool_context h category_b b; (pair, b2) = find_pair h ctx_a ctx_b remaining b1
           in (map_option (\<lambda>p. (p, category_b)) pair, b2))
      | _ \<Rightarrow> (None, b))"

text \<open>
  One turn of the loop for a category slot: whether the following slot was used up too, whether something was
  picked (only then the code looks whether the segment is full), and the build.
\<close>

definition single_pick ::
  "hour_setup \<Rightarrow> category_row \<Rightarrow> slot_context \<Rightarrow> seconds \<Rightarrow> bool \<Rightarrow> (diagnostics \<Rightarrow> diagnostics) \<Rightarrow> build \<Rightarrow> bool \<times> bool \<times> build" where
  "single_pick h category ctx remaining force counter b =
     (case sequential_pick h ctx remaining force b of
        (None, b') \<Rightarrow> (False, False, count (pool_exhausted_picks_update Suc) b')
      | (Some t, b') \<Rightarrow> (False, True, count counter (append_pick h False t (Some category) b')))"

definition category_step :: "hour_setup \<Rightarrow> seconds \<Rightarrow> category_row \<Rightarrow> rotation_slot list \<Rightarrow> build \<Rightarrow> bool \<times> bool \<times> build" where
  "category_step h end_at category rest b =
     (let remaining = end_at - accumulated_seconds b; (ctx, b1) = resolve_slot_pool_context h category b in
      if remaining > PAIR_LANDING_THRESHOLD_SECONDS then single_pick h category ctx remaining False (normal_picks_update Suc) b1
      else if remaining \<le> EXACT_FIT_THRESHOLD_SECONDS then single_pick h category ctx remaining False (exact_fit_picks_update Suc) b1
      else (case landing_pair h ctx rest remaining b1 of
              (Some (p, category_b), b2) \<Rightarrow>
                (True, True, count (landing_pairs_update Suc \<circ> landing_errors_update (\<lambda>es. es @ [landing_error p]))
                  (append_pick h False (fit_row (pair_b p)) (Some category_b)
                    (append_pick h False (fit_row (pair_a p)) (Some category) b2)))
            | (None, b2) \<Rightarrow>
                single_pick h category ctx remaining True (exact_fit_picks_update Suc) (count (landing_pair_fallbacks_update Suc) b2)))"

function walk_slots :: "hour_setup \<Rightarrow> seconds \<Rightarrow> rotation_slot list \<Rightarrow> build \<Rightarrow> build" where
  "walk_slots h end_at [] b = b"
| "walk_slots h end_at (DirectSlot t # rest) b =
     (let b1 = count (direct_track_inserts_update Suc) (append_pick h False t (own_category h t) b)
      in if accumulated_seconds b1 \<ge> end_at then b1 else walk_slots h end_at rest b1)"
| "walk_slots h end_at (CategorySlot category # rest) b =
     (let (both, picked, b1) = category_step h end_at category rest b
      in if picked \<and> accumulated_seconds b1 \<ge> end_at then b1
         else walk_slots h end_at (if both then tl rest else rest) b1)"
  by pat_completeness auto
termination by (relation "measure (\<lambda>(h, end_at, slots, b). length slots)") auto

definition walk_rotation_segment :: "hour_setup \<Rightarrow> rotation_slot list \<Rightarrow> seconds \<Rightarrow> build \<Rightarrow> build" where
  "walk_rotation_segment h slots end_at b = walk_slots h end_at slots (b\<lparr>rotation_walked := True\<rparr>)"

fun walk_playlist_segment :: "hour_setup \<Rightarrow> track_row list \<Rightarrow> build \<Rightarrow> build" where
  "walk_playlist_segment h [] b = b"
| "walk_playlist_segment h (t # items) b = walk_playlist_segment h items (append_pick h False t (own_category h t) b)"

section \<open>Filling up\<close>

fun fill_loop :: "hour_setup \<Rightarrow> seconds \<Rightarrow> category_row \<Rightarrow> nat \<Rightarrow> build \<Rightarrow> build" where
  "fill_loop h end_at category 0 b = b"
| "fill_loop h end_at category (Suc k) b =
     (let remaining = end_at - accumulated_seconds b in
      if remaining \<le> DURATION_FIT_MARGIN then b
      else let (ctx, b1) = resolve_slot_pool_context h category b;
               (pair, b2) = (if EXACT_FIT_THRESHOLD_SECONDS < remaining \<and> remaining \<le> PAIR_LANDING_THRESHOLD_SECONDS
                 then find_pair h ctx ctx remaining b1 else (None, b1))
      in case pair of
           Some p \<Rightarrow> fill_loop h end_at category k
             (append_pick h True (fit_row (pair_b p)) (Some category) (append_pick h True (fit_row (pair_a p)) (Some category) b2))
         | None \<Rightarrow>
             (case sequential_pick h ctx remaining (remaining \<le> PAIR_LANDING_THRESHOLD_SECONDS) b2 of
                (None, b3) \<Rightarrow> b3
              | (Some t, b3) \<Rightarrow>
                  (let b4 = append_pick h True t (Some category) b3
                   in if track_airtime t \<le> 0 then b4 else fill_loop h end_at category k b4)))"

definition fill_category :: "hour_setup \<Rightarrow> build \<Rightarrow> category_row option" where
  "fill_category h b =
     (case fill_strategy_of h of FixedCategory c \<Rightarrow> c
      | RepeatLastCategory \<Rightarrow> if picks b = [] then None else pick_category (last (picks b)))"

definition fill_remaining_hour :: "hour_setup \<Rightarrow> seconds \<Rightarrow> build \<Rightarrow> build" where
  "fill_remaining_hour h end_at b =
     (if end_at - accumulated_seconds b \<le> DURATION_FIT_MARGIN then b
      else case fill_category h b of None \<Rightarrow> b | Some c \<Rightarrow> fill_loop h end_at c MAX_FILL_TRACKS b)"

section \<open>The hour\<close>

datatype plan_source = RotationSource "rotation_slot list" | PlaylistSource "track_row list"

record segment_plan =
  plan_minute :: nat
  plan_name :: utext
  plan_source_of :: plan_source

definition plan_empty :: "segment_plan \<Rightarrow> bool" where
  "plan_empty p = (case plan_source_of p of RotationSource slots \<Rightarrow> slots = [] | PlaylistSource items \<Rightarrow> items = [])"

definition empty_source_message :: "segment_plan \<Rightarrow> utext" where
  "empty_source_message p =
     (case plan_source_of p of
        RotationSource _ \<Rightarrow> cps ''Rotation '' @ [39] @ plan_name p @ [39] @ cps '' has no slots.''
      | PlaylistSource _ \<Rightarrow> cps ''Playlist '' @ [39] @ plan_name p @ [39] @ cps '' has no items.'')"

record window =
  win_plan :: segment_plan
  win_start :: seconds
  win_end :: seconds
  win_elapsed :: bool

fun windows_from :: "seconds \<Rightarrow> seconds \<Rightarrow> seconds option \<Rightarrow> segment_plan list \<Rightarrow> window list" where
  "windows_from late target previous [] = []"
| "windows_from late target previous (p # rest) =
     (let start = of_nat (plan_minute p) * 60 - late;
          own = (case rest of [] \<Rightarrow> target | q # _ \<Rightarrow> min (of_nat (plan_minute q) * 60 - late) target);
          stop = (case previous of None \<Rightarrow> own | Some e \<Rightarrow> max own e)
      in \<lparr>win_plan = p, win_start = start, win_end = stop, win_elapsed = (rest \<noteq> [] \<and> stop \<le> 0)\<rparr>
           # windows_from late target (Some stop) rest)"

definition segment_windows :: "segment_plan list \<Rightarrow> seconds \<Rightarrow> window list" where
  "segment_windows plans target = windows_from (max 0 (NOMINAL_HOUR_SECONDS - target)) target None plans"

definition applicable :: "window \<Rightarrow> bool" where
  "applicable w \<longleftrightarrow> \<not> win_elapsed w \<and> \<not> plan_empty (win_plan w)"

definition no_diagnostics :: diagnostics where
  "no_diagnostics = \<lparr>normal_picks = 0, landing_pairs = 0, landing_pair_fallbacks = 0, exact_fit_picks = 0,
     direct_track_inserts = 0, pool_exhausted_picks = 0, landing_errors = []\<rparr>"

text \<open>The clock starts at the first transition that applies, and the written times are shifted to it.\<close>

definition first_build :: "segment_plan list \<Rightarrow> window list \<Rightarrow> build" where
  "first_build plans windows =
     (let first = List.find applicable windows;
          clock = max 0 (case first of None \<Rightarrow> 0 | Some w \<Rightarrow> win_start w);
          shift = (case first of None \<Rightarrow> 0
            | Some w \<Rightarrow> if plans \<noteq> [] \<and> plan_minute (hd plans) > 0
                then max 0 (of_nat (plan_minute (win_plan w)) * 60 - clock) else 0)
      in \<lparr>picks = [], accumulated_seconds = clock, time_offset_seconds = shift, rounds_used = 0, diag = no_diagnostics,
          rotation_walked = False\<rparr>)"

record segment_record =
  rec_minute :: nat
  rec_start :: seconds
  rec_end :: seconds
  rec_elapsed :: bool
  rec_actual :: "(seconds \<times> seconds) option"
  rec_delay :: seconds
  rec_items :: nat

definition build_segment :: "hour_setup \<Rightarrow> window \<Rightarrow> build \<Rightarrow> build" where
  "build_segment h w b =
     fill_remaining_hour h (win_end w)
       (case plan_source_of (win_plan w) of
          RotationSource slots \<Rightarrow> walk_rotation_segment h slots (win_end w) b
        | PlaylistSource items \<Rightarrow> walk_playlist_segment h items b)"

definition segment_record_of :: "window \<Rightarrow> build \<Rightarrow> build \<Rightarrow> segment_record" where
  "segment_record_of w b b' =
     \<lparr>rec_minute = plan_minute (win_plan w), rec_start = win_start w, rec_end = win_end w, rec_elapsed = win_elapsed w,
      rec_actual = (if applicable w then Some (accumulated_seconds b, accumulated_seconds b') else None),
      rec_delay = (if applicable w then max 0 (accumulated_seconds b - max (win_start w) 0) else 0),
      rec_items = length (picks b') - length (picks b)\<rparr>"

fun build_windows :: "hour_setup \<Rightarrow> window list \<Rightarrow> build \<Rightarrow> build \<times> segment_record list" where
  "build_windows h [] b = (b, [])"
| "build_windows h (w # ws) b =
     (let b' = (if applicable w then build_segment h w b else b); (b2, records) = build_windows h ws b'
      in (b2, segment_record_of w b b' # records))"

text \<open>A preview has an observer and skips a source that is empty; a real build refuses it.\<close>

definition plan_hour :: "hour_setup \<Rightarrow> bool \<Rightarrow> segment_plan list \<Rightarrow> seconds \<Rightarrow> utext + build \<times> segment_record list" where
  "plan_hour h preview plans target =
     (let windows = segment_windows plans target in
      case List.find (\<lambda>w. \<not> win_elapsed w \<and> plan_empty (win_plan w)) windows of
        Some w \<Rightarrow> if preview then Inr (build_windows h windows (first_build plans windows)) else Inl (empty_source_message (win_plan w))
      | None \<Rightarrow> Inr (build_windows h windows (first_build plans windows)))"

definition needs_operator_attention :: "diagnostics \<Rightarrow> bool" where
  "needs_operator_attention d \<longleftrightarrow> pool_exhausted_picks d > 0 \<or> list_ex (\<lambda>e. e > DURATION_FIT_MARGIN) (landing_errors d)"

section \<open>Writing the log\<close>

record log_row =
  log_position :: nat
  log_time :: seconds
  log_track :: int
  log_category :: "int option"
  log_origin :: "string option"

definition ORIGIN_GENERATED_FILL :: string where "ORIGIN_GENERATED_FILL = ''generated_fill''"

definition persisted_rows :: "string option \<Rightarrow> pick list \<Rightarrow> log_row list" where
  "persisted_rows origin ps =
     map (\<lambda>p. \<lparr>log_position = pick_position p, log_time = scheduled_time p, log_track = row_id (pick_track_row p),
       log_category = map_option cat_id (pick_category p),
       log_origin = (if pick_is_fill p then Some ORIGIN_GENERATED_FILL else origin)\<rparr>) ps"

definition plan_for_segment :: "(nat \<Rightarrow> utext \<times> rotation_slot list) \<Rightarrow> (nat \<Rightarrow> utext \<times> track_row list) \<Rightarrow> schedule_segment \<Rightarrow> segment_plan" where
  "plan_for_segment rotations playlists seg =
     (case playlist_id (block seg) of
        Some k \<Rightarrow> \<lparr>plan_minute = start_minute seg, plan_name = fst (playlists k), plan_source_of = PlaylistSource (snd (playlists k))\<rparr>
      | None \<Rightarrow> (let k = the (rotation_id (block seg)) in
          \<lparr>plan_minute = start_minute seg, plan_name = fst (rotations k), plan_source_of = RotationSource (snd (rotations k))\<rparr>))"

definition SCHEDULED_ORIGIN :: string where "SCHEDULED_ORIGIN = ''generated_schedule''"

definition build_hour_log ::
  "hour_setup \<Rightarrow> (nat \<Rightarrow> utext \<times> rotation_slot list) \<Rightarrow> (nat \<Rightarrow> utext \<times> track_row list) \<Rightarrow> schedule_block list \<Rightarrow> int \<Rightarrow> nat \<Rightarrow> nat
     \<Rightarrow> seconds \<Rightarrow> utext + log_row list" where
  "build_hour_log h rotations playlists blocks day hour profile target =
     (let segments = resolve_schedule_segments blocks day hour profile in
      if segments = [] then Inl (cps ''No schedule block for this hour.'')
      else if list_ex (\<lambda>s. playlist_id (block s) = None \<and> rotation_id (block s) = None) segments
      then Inl (cps ''ScheduleBlock has neither rotation nor playlist.'')
      else map_sum id (\<lambda>(b, _). persisted_rows (Some SCHEDULED_ORIGIN) (picks b))
             (plan_hour h False (map (plan_for_segment rotations playlists) segments) target))"

section \<open>One clock\<close>

fun start_times :: "seconds \<Rightarrow> track_row list \<Rightarrow> seconds list" where
  "start_times s [] = []"
| "start_times s (t # ts) = s # start_times (s + track_airtime t) ts"

definition one_clock :: "hour_setup \<Rightarrow> seconds \<Rightarrow> build \<Rightarrow> bool" where
  "one_clock h start b \<longleftrightarrow>
     map pick_position (picks b) = [0..<length (picks b)]
     \<and> map scheduled_time (picks b) = start_times (target_time h + time_offset_seconds b + start) (map pick_track_row (picks b))
     \<and> accumulated_seconds b = start + sum_list (map (track_airtime \<circ> pick_track_row) (picks b))"

lemma start_times_append: "start_times s (ts @ [t]) = start_times s ts @ [s + sum_list (map track_airtime ts)]"
  by (induction ts arbitrary: s) (simp_all add: algebra_simps)

lemma start_times_lower: "u \<in> set (start_times s ts) \<Longrightarrow> s \<le> u"
  by (induction ts arbitrary: s) (force, metis track_airtime_nonneg add_increasing2 dual_order.trans order_refl set_ConsD start_times.simps(2))

lemma sorted_start_times: "sorted (start_times s ts)"
proof (induction ts arbitrary: s)
  case (Cons t ts)
  have "s \<le> u" if "u \<in> set (start_times (s + track_airtime t) ts)" for u
    using start_times_lower [OF that] track_airtime_nonneg [of t] by linarith
  then show ?case using Cons by simp
qed simp

definition same_log :: "build \<Rightarrow> build \<Rightarrow> bool" where
  "same_log b b' \<longleftrightarrow> picks b' = picks b \<and> accumulated_seconds b' = accumulated_seconds b \<and> time_offset_seconds b' = time_offset_seconds b"

text \<open>A build continues another when it only adds picks, on the same clock.\<close>

definition continues :: "hour_setup \<Rightarrow> build \<Rightarrow> build \<Rightarrow> bool" where
  "continues h b b' \<longleftrightarrow> time_offset_seconds b' = time_offset_seconds b
     \<and> (\<exists>more. picks b' = picks b @ more) \<and> (\<forall>start. one_clock h start b \<longrightarrow> one_clock h start b')"

lemma continues_refl [simp]: "continues h b b"
  by (simp add: continues_def)

lemma continues_trans: "continues h a b \<Longrightarrow> continues h b c \<Longrightarrow> continues h a c"
  by (auto simp: continues_def)

lemma continues_same: "same_log b b' \<Longrightarrow> continues h b b'"
  by (simp add: continues_def same_log_def one_clock_def)

lemma continues_append: "continues h b (append_pick h fill t c b)"
proof -
  have "one_clock h start (append_pick h fill t c b)" if "one_clock h start b" for start
    using that by (simp add: one_clock_def append_pick_def start_times_append comp_def algebra_simps)
  then show ?thesis by (simp add: continues_def append_pick_def)
qed

lemma same_log_simps [simp]:
  "same_log b b" "same_log b (count f b)" "same_log b (b\<lparr>rounds_used := n\<rparr>)" "same_log b (b\<lparr>rotation_walked := w\<rparr>)"
  by (simp_all add: same_log_def count_def)

lemma continues_count: "continues h b (count f b)"
  by (rule continues_same) simp

lemma same_log_trans: "same_log a b \<Longrightarrow> same_log b c \<Longrightarrow> same_log a c"
  by (simp add: same_log_def)

lemma same_log_resolve: "resolve_slot_pool_context h c b = (ctx, b') \<Longrightarrow> same_log b b' \<and> diag b' = diag b"
  by (auto simp: resolve_slot_pool_context_def Let_def same_log_def split: prod.splits)

lemma same_log_sequential: "sequential_pick h ctx r f b = (t, b') \<Longrightarrow> same_log b b' \<and> diag b' = diag b"
  by (auto simp: sequential_pick_def Let_def same_log_def split: prod.splits)

lemma same_log_find_pair: "find_pair h c1 c2 r b = (p, b') \<Longrightarrow> same_log b b' \<and> diag b' = diag b"
  by (auto simp: find_pair_def same_log_def)

lemma same_log_landing: "landing_pair h ctx rest r b = (p, b') \<Longrightarrow> same_log b b' \<and> diag b' = diag b"
  by (auto simp: landing_pair_def dest!: same_log_resolve same_log_find_pair dest: same_log_trans split: list.splits rotation_slot.splits prod.splits)

section \<open>Every slot is accounted for\<close>

definition slots_used :: "diagnostics \<Rightarrow> nat" where
  "slots_used d = normal_picks d + exact_fit_picks d + 2 * landing_pairs d + direct_track_inserts d + pool_exhausted_picks d"

fun direct_tracks :: "rotation_slot list \<Rightarrow> track_row list" where
  "direct_tracks [] = []"
| "direct_tracks (DirectSlot t # rest) = t # direct_tracks rest"
| "direct_tracks (CategorySlot c # rest) = direct_tracks rest"

lemma direct_tracks_append: "direct_tracks (a @ b) = direct_tracks a @ direct_tracks b"
  by (induction a rule: direct_tracks.induct) auto

definition consumes :: "rotation_slot list \<Rightarrow> build \<Rightarrow> build \<Rightarrow> bool" where
  "consumes used b b' \<longleftrightarrow>
     (\<exists>new. picks b' = picks b @ new \<and> subseq (direct_tracks used) (map pick_track_row new)
        \<and> length new + pool_exhausted_picks (diag b') = length used + pool_exhausted_picks (diag b))
     \<and> slots_used (diag b') = slots_used (diag b) + length used"

lemma consumes_Nil [simp]: "consumes [] b b"
  by (simp add: consumes_def)

lemma consumes_trans: "consumes u a b \<Longrightarrow> consumes v b c \<Longrightarrow> consumes (u @ v) a c"
  by (force simp: consumes_def direct_tracks_append intro: list_emb_append_mono)

lemma consumes_same: "same_log b b' \<Longrightarrow> diag b' = diag b \<Longrightarrow> consumes used b' c \<Longrightarrow> consumes used b c"
  by (simp add: consumes_def same_log_def)

lemma append_pick_simps [simp]:
  "picks (append_pick h fill t c b) = picks b @ [\<lparr>pick_position = length (picks b),
     scheduled_time = target_time h + (time_offset_seconds b + accumulated_seconds b), pick_track_row = t, pick_category = c, pick_is_fill = fill\<rparr>]"
  "diag (append_pick h fill t c b) = diag b"
  by (simp_all add: append_pick_def)

lemma count_simps [simp]: "picks (count f b) = picks b" "diag (count f b) = f (diag b)" "accumulated_seconds (count f b) = accumulated_seconds b"
  by (simp_all add: count_def)

lemma single_pick_facts:
  assumes "single_pick h category ctx remaining force counter b = (both, picked, b')"
    and counter: "counter = normal_picks_update Suc \<or> counter = exact_fit_picks_update Suc"
  shows "\<not> both \<and> consumes [CategorySlot category] b b' \<and> continues h b b'"
proof -
  obtain t b1 where t: "sequential_pick h ctx remaining force b = (t, b1)" by fastforce
  note same = same_log_sequential [OF t]
  show ?thesis
  proof (cases t)
    case None
    then have b': "b' = count (pool_exhausted_picks_update Suc) b1" "\<not> both" using assms(1) t by (auto simp: single_pick_def)
    have "consumes [CategorySlot category] b1 b'" by (simp add: b'(1) consumes_def slots_used_def)
    moreover have "continues h b1 b'" unfolding b'(1) by (rule continues_same) simp
    ultimately show ?thesis using same b'(2) by (meson consumes_same continues_same continues_trans)
  next
    case (Some u)
    then have b': "b' = count counter (append_pick h False u (Some category) b1)" "\<not> both"
      using assms(1) t by (auto simp: single_pick_def)
    have "consumes [CategorySlot category] b1 b'" using counter by (auto simp: b'(1) consumes_def slots_used_def)
    moreover have "continues h b1 b'" unfolding b'(1)
      by (rule continues_trans [OF continues_append continues_count])
    ultimately show ?thesis using same b'(2) by (meson consumes_same continues_same continues_trans)
  qed
qed

lemma landing_pair_next: "landing_pair h ctx rest r b = (Some (p, c), b') \<Longrightarrow> \<exists>rest'. rest = CategorySlot c # rest'"
  by (auto simp: landing_pair_def split: list.splits rotation_slot.splits prod.splits)

lemma category_step_facts:
  assumes "category_step h end_at category rest b = (both, picked, b')"
  shows "(\<exists>used left. CategorySlot category # rest = used @ left \<and> left = (if both then tl rest else rest) \<and> consumes used b b')
    \<and> continues h b b'"
proof -
  obtain ctx b1 where ctx: "resolve_slot_pool_context h category b = (ctx, b1)" by fastforce
  note same = same_log_resolve [OF ctx]
  let ?remaining = "end_at - accumulated_seconds b"
  have single: ?thesis if s: "single_pick h category ctx r force counter b2 = (both, picked, b')"
    and c: "counter = normal_picks_update Suc \<or> counter = exact_fit_picks_update Suc"
    and b2: "same_log b b2" "slots_used (diag b2) = slots_used (diag b)" "pool_exhausted_picks (diag b2) = pool_exhausted_picks (diag b)"
    for r force counter b2
  proof -
    note f = single_pick_facts [OF s c]
    then have "consumes [CategorySlot category] b b'" using b2 by (simp add: consumes_def same_log_def)
    moreover have "continues h b b'" using continues_trans [OF continues_same [OF b2(1)]] f by blast
    ultimately show ?thesis using f by force
  qed
  obtain q b2 where q: "landing_pair h ctx rest ?remaining b1 = (q, b2)" by fastforce
  note same2 = same_log_landing [OF q]
  consider (normal) "?remaining > PAIR_LANDING_THRESHOLD_SECONDS"
    | (exact) "\<not> ?remaining > PAIR_LANDING_THRESHOLD_SECONDS" "?remaining \<le> EXACT_FIT_THRESHOLD_SECONDS"
    | (fallback) "\<not> ?remaining > PAIR_LANDING_THRESHOLD_SECONDS" "\<not> ?remaining \<le> EXACT_FIT_THRESHOLD_SECONDS" "q = None"
    | (pair) p c where "\<not> ?remaining > PAIR_LANDING_THRESHOLD_SECONDS" "\<not> ?remaining \<le> EXACT_FIT_THRESHOLD_SECONDS" "q = Some (p, c)"
    by fastforce
  then show ?thesis
  proof cases
    case normal
    then have "single_pick h category ctx ?remaining False (normal_picks_update Suc) b1 = (both, picked, b')"
      using assms ctx by (simp add: category_step_def Let_def)
    then show ?thesis by (rule single) (use same in simp_all)
  next
    case exact
    then have "single_pick h category ctx ?remaining False (exact_fit_picks_update Suc) b1 = (both, picked, b')"
      using assms ctx by (simp add: category_step_def Let_def)
    then show ?thesis by (rule single) (use same in simp_all)
  next
    case fallback
    then have "single_pick h category ctx ?remaining True (exact_fit_picks_update Suc) (count (landing_pair_fallbacks_update Suc) b2) = (both, picked, b')"
      using assms ctx q by (simp add: category_step_def Let_def)
    then show ?thesis by (rule single) (use same same2 in \<open>simp_all add: slots_used_def same_log_def count_def\<close>)
  next
    case pair
    let ?f = "landing_pairs_update Suc \<circ> landing_errors_update (\<lambda>es. es @ [landing_error p])"
    let ?two = "append_pick h False (fit_row (pair_b p)) (Some c) (append_pick h False (fit_row (pair_a p)) (Some category) b2)"
    from pair have b': "b' = count ?f ?two" and both: both
      using assms ctx q by (auto simp: category_step_def Let_def)
    obtain rest' where rest: "rest = CategorySlot c # rest'" using landing_pair_next q pair(3) by blast
    have "same_log b b2" "diag b2 = diag b" using same same2 same_log_trans by auto
    moreover have "consumes [CategorySlot category, CategorySlot c] b2 b'" by (simp add: b' consumes_def slots_used_def)
    ultimately have "consumes [CategorySlot category, CategorySlot c] b b'" by (rule consumes_same)
    moreover have "continues h b2 b'" unfolding b'
      by (rule continues_trans [OF continues_trans [OF continues_append continues_append] continues_count])
    then have "continues h b b'" using continues_same [OF \<open>same_log b b2\<close>] continues_trans by blast
    moreover have "CategorySlot category # rest = [CategorySlot category, CategorySlot c] @ rest'" by (simp add: rest)
    ultimately show ?thesis using both rest by (metis list.sel(3))
  qed
qed

lemma walk_slots_facts:
  "(\<exists>used left. slots = used @ left \<and> consumes used b (walk_slots h end_at slots b)
      \<and> (left = [] \<or> end_at \<le> accumulated_seconds (walk_slots h end_at slots b)))
   \<and> continues h b (walk_slots h end_at slots b)"
proof (induction h end_at slots b rule: walk_slots.induct)
  case (1 h end_at b)
  then show ?case by simp
next
  case (2 h end_at t rest b)
  let ?b1 = "count (direct_track_inserts_update Suc) (append_pick h False t (own_category h t) b)"
  have one: "consumes [DirectSlot t] b ?b1" by (simp add: consumes_def slots_used_def)
  have go: "continues h b ?b1" by (rule continues_trans [OF continues_append continues_count])
  show ?case
  proof (cases "accumulated_seconds ?b1 \<ge> end_at")
    case True
    then have "walk_slots h end_at (DirectSlot t # rest) b = ?b1" by (simp add: Let_def)
    then show ?thesis using one go True by (metis append_Cons append_Nil)
  next
    case False
    then have w: "walk_slots h end_at (DirectSlot t # rest) b = walk_slots h end_at rest ?b1" by (simp add: Let_def)
    from 2 [OF refl False] obtain used left where "rest = used @ left" "consumes used ?b1 (walk_slots h end_at rest ?b1)"
      "left = [] \<or> end_at \<le> accumulated_seconds (walk_slots h end_at rest ?b1)" "continues h ?b1 (walk_slots h end_at rest ?b1)" by blast
    then show ?thesis unfolding w using consumes_trans [OF one] continues_trans [OF go] by (metis append_Cons append_Nil)
  qed
next
  case (3 h end_at category rest b)
  obtain both picked b1 where step: "category_step h end_at category rest b = (both, picked, b1)" by (metis prod_cases3)
  from category_step_facts [OF step] obtain used left
    where used: "CategorySlot category # rest = used @ left" "left = (if both then tl rest else rest)" "consumes used b b1"
      and go: "continues h b b1" by blast
  show ?case
  proof (cases "picked \<and> accumulated_seconds b1 \<ge> end_at")
    case True
    then have "walk_slots h end_at (CategorySlot category # rest) b = b1" using step by simp
    then show ?thesis using used go True by metis
  next
    case False
    then have w: "walk_slots h end_at (CategorySlot category # rest) b = walk_slots h end_at left b1" using step used(2) False by auto
    from 3 [OF step [symmetric] refl refl False] obtain used' left' where "left = used' @ left'" "consumes used' b1 (walk_slots h end_at left b1)"
      "left' = [] \<or> end_at \<le> accumulated_seconds (walk_slots h end_at left b1)" "continues h b1 (walk_slots h end_at left b1)"
      unfolding used(2) [symmetric] by blast
    then show ?thesis unfolding w using consumes_trans [OF used(3)] continues_trans [OF go] used(1) by (metis append_assoc)
  qed
qed

text \<open>
  Walking a rotation uses up its slots from the front, all of them unless the segment is full; every used
  slot is counted once as normal, exact fit, half of a pair, direct insert or exhausted; each gets one track
  unless it is counted exhausted; and the direct inserts among them are all played, in their order.
\<close>

theorem rotation_slots_accounted:
  "let b' = walk_rotation_segment h slots end_at b in
   \<exists>used left. slots = used @ left \<and> (left = [] \<or> end_at \<le> accumulated_seconds b')
     \<and> slots_used (diag b') = slots_used (diag b) + length used
     \<and> length (picks b') + pool_exhausted_picks (diag b') = length (picks b) + length used + pool_exhausted_picks (diag b)
     \<and> subseq (direct_tracks used) (map pick_track_row (drop (length (picks b)) (picks b')))"
proof -
  let ?b0 = "b\<lparr>rotation_walked := True\<rparr>"
  obtain used left where "slots = used @ left" "consumes used ?b0 (walk_slots h end_at slots ?b0)"
    "left = [] \<or> end_at \<le> accumulated_seconds (walk_slots h end_at slots ?b0)"
    using walk_slots_facts [of slots ?b0 h end_at] by blast
  then show ?thesis unfolding walk_rotation_segment_def Let_def
    by (intro exI [of _ used] exI [of _ left]) (auto simp: consumes_def)
qed

section \<open>The whole hour\<close>

lemma continues_playlist: "continues h b (walk_playlist_segment h items b)"
proof (induction h items b rule: walk_playlist_segment.induct)
  case (2 h t items b)
  then show ?case by (simp add: continues_trans [OF continues_append])
qed simp

lemma continues_fill_loop: "continues h b (fill_loop h end_at c k b)"
proof (induction k arbitrary: b)
  case (Suc k)
  let ?remaining = "end_at - accumulated_seconds b"
  obtain ctx b1 where ctx: "resolve_slot_pool_context h c b = (ctx, b1)" by fastforce
  obtain pair b2 where pair: "(if EXACT_FIT_THRESHOLD_SECONDS < ?remaining \<and> ?remaining \<le> PAIR_LANDING_THRESHOLD_SECONDS
      then find_pair h ctx ctx ?remaining b1 else (None, b1)) = (pair, b2)" by fastforce
  obtain t b3 where t: "sequential_pick h ctx ?remaining (?remaining \<le> PAIR_LANDING_THRESHOLD_SECONDS) b2 = (t, b3)" by fastforce
  have "same_log b1 b2" using pair same_log_find_pair by (auto split: if_splits)
  then have b2: "continues h b b2" using same_log_resolve [OF ctx] by (meson continues_same continues_trans)
  then have b3: "continues h b b3" using same_log_sequential [OF t] by (meson continues_same continues_trans)
  note more = continues_trans [OF _ Suc.IH]
  show ?case
  proof (cases "?remaining \<le> DURATION_FIT_MARGIN")
    case False
    then have loop: "fill_loop h end_at c (Suc k) b = (case pair of
           Some p \<Rightarrow> fill_loop h end_at c k
             (append_pick h True (fit_row (pair_b p)) (Some c) (append_pick h True (fit_row (pair_a p)) (Some c) b2))
         | None \<Rightarrow> (case t of None \<Rightarrow> b3 | Some t \<Rightarrow>
                  (let b4 = append_pick h True t (Some c) b3 in if track_airtime t \<le> 0 then b4 else fill_loop h end_at c k b4)))"
      using ctx pair t by (simp add: Let_def split: option.split)
    show ?thesis unfolding loop using b2 b3
      by (auto simp: Let_def split: option.split intro: more continues_trans [OF _ continues_append])
  qed simp
qed simp

lemma continues_fill: "continues h b (fill_remaining_hour h end_at b)"
  by (simp add: fill_remaining_hour_def continues_fill_loop split: option.split)

lemma continues_segment: "continues h b (build_segment h w b)"
proof -
  have "continues h b (walk_rotation_segment h slots (win_end w) b)" for slots
    using walk_slots_facts [of slots "b\<lparr>rotation_walked := True\<rparr>" h "win_end w"] continues_same [of b "b\<lparr>rotation_walked := True\<rparr>"]
    by (metis continues_trans same_log_simps(4) walk_rotation_segment_def)
  then show ?thesis
    unfolding build_segment_def by (auto split: plan_source.split intro: continues_trans [OF _ continues_fill] continues_playlist)
qed

lemma continues_windows: "build_windows h ws b = (b', records) \<Longrightarrow> continues h b b'"
proof (induction ws arbitrary: b records)
  case (Cons w ws)
  let ?b1 = "if applicable w then build_segment h w b else b"
  obtain r where "build_windows h ws ?b1 = (b', r)" using Cons.prems by (auto simp: Let_def split: prod.splits)
  moreover have "continues h b ?b1" by (simp add: continues_segment)
  ultimately show ?case using Cons.IH continues_trans by blast
qed simp

lemma plan_hour_built:
  "plan_hour h preview plans target = Inr (b, records) \<Longrightarrow>
   build_windows h (segment_windows plans target) (first_build plans (segment_windows plans target)) = (b, records)"
  by (auto simp: plan_hour_def Let_def split: option.splits if_splits)

lemma first_build_clock: "one_clock h (accumulated_seconds (first_build plans ws)) (first_build plans ws)"
  by (simp add: one_clock_def first_build_def Let_def)

text \<open>
  C37. All segments of an hour, with the filling after each, run on one clock: the positions count up from 0,
  the first item starts at the first transition that applies, and every item starts when the airtime of all items
  before it is over; nothing overlaps and nothing is left open between segments.
\<close>

theorem hour_runs_on_one_clock:
  "case plan_hour h preview plans target of Inl _ \<Rightarrow> True
   | Inr (b, records) \<Rightarrow>
       let b0 = first_build plans (segment_windows plans target); tracks = map pick_track_row (picks b) in
       map pick_position (picks b) = [0..<length (picks b)]
       \<and> map scheduled_time (picks b) = start_times (target_time h + time_offset_seconds b0 + accumulated_seconds b0) tracks
       \<and> accumulated_seconds b = accumulated_seconds b0 + sum_list (map track_airtime tracks)
       \<and> sorted (map scheduled_time (picks b))"
proof (cases "plan_hour h preview plans target")
  case (Inr out)
  obtain b records where out: "out = (b, records)" by fastforce
  let ?b0 = "first_build plans (segment_windows plans target)"
  have "continues h ?b0 b" using continues_windows plan_hour_built Inr out by blast
  then have "one_clock h (accumulated_seconds ?b0) b" "time_offset_seconds b = time_offset_seconds ?b0"
    using first_build_clock by (auto simp: continues_def)
  then show ?thesis using Inr out by (simp add: one_clock_def sorted_start_times comp_def)
qed simp

lemma playlist_tracks: "map pick_track_row (picks (walk_playlist_segment h items b)) = map pick_track_row (picks b) @ items"
  by (induction h items b rule: walk_playlist_segment.induct) simp_all

lemma continues_tracks:
  assumes "continues h b b'" "sublist xs (map pick_track_row (picks b))"
  shows "sublist xs (map pick_track_row (picks b'))"
proof -
  obtain more where "picks b' = picks b @ more" using assms(1) by (auto simp: continues_def)
  then have "sublist (map pick_track_row (picks b)) (map pick_track_row (picks b'))" by (simp add: sublist_append_rightI)
  then show ?thesis using assms(2) sublist_order.order_trans by blast
qed

definition plays_whole :: "build \<Rightarrow> window \<Rightarrow> bool" where
  "plays_whole b w \<longleftrightarrow> (case plan_source_of (win_plan w) of
     PlaylistSource items \<Rightarrow> win_elapsed w \<or> sublist items (map pick_track_row (picks b)) | RotationSource _ \<Rightarrow> True)"

lemma plays_whole_later: "continues h b b' \<Longrightarrow> plays_whole b w \<Longrightarrow> plays_whole b' w"
  by (auto simp: plays_whole_def split: plan_source.splits dest: continues_tracks)

lemma segment_plays_whole: "plays_whole (if applicable w then build_segment h w b else b) w"
proof (cases "plan_source_of (win_plan w)")
  case (PlaylistSource items)
  show ?thesis
  proof (cases "applicable w")
    case True
    have "sublist items (map pick_track_row (picks (walk_playlist_segment h items b)))" by (simp add: playlist_tracks)
    then have "sublist items (map pick_track_row (picks (build_segment h w b)))"
      using PlaylistSource continues_tracks [OF continues_fill] by (simp add: build_segment_def)
    then show ?thesis using True PlaylistSource by (simp add: plays_whole_def)
  next
    case False
    then show ?thesis using PlaylistSource by (auto simp: plays_whole_def applicable_def plan_empty_def)
  qed
qed (simp add: plays_whole_def)

lemma windows_play_whole: "build_windows h ws b = (b', records) \<Longrightarrow> list_all (plays_whole b') ws"
proof (induction ws arbitrary: b records)
  case (Cons w ws)
  let ?b1 = "if applicable w then build_segment h w b else b"
  obtain r where r: "build_windows h ws ?b1 = (b', r)" using Cons.prems by (auto simp: Let_def split: prod.splits)
  have "plays_whole b' w" using plays_whole_later [OF continues_windows [OF r] segment_plays_whole] .
  then show ?case using Cons.IH [OF r] by simp
qed simp

text \<open>
  C38. A curated playlist is never cut: every playlist of the hour whose window has not elapsed is in the log
  with all its items, one after the other and in their order, whatever segment follows.
\<close>

theorem playlists_are_never_cut:
  "case plan_hour h preview plans target of Inl _ \<Rightarrow> True
   | Inr (b, records) \<Rightarrow> list_all (\<lambda>w. case plan_source_of (win_plan w) of
       PlaylistSource items \<Rightarrow> win_elapsed w \<or> sublist items (map pick_track_row (picks b)) | RotationSource _ \<Rightarrow> True)
       (segment_windows plans target)"
proof (cases "plan_hour h preview plans target")
  case (Inr out)
  obtain b records where out: "out = (b, records)" by fastforce
  from windows_play_whole [OF plan_hour_built [OF Inr [unfolded out]]] show ?thesis
    using Inr out by (simp add: plays_whole_def [abs_def])
qed simp

section \<open>The windows\<close>

lemma windows_from_facts:
  "(case previous of None \<Rightarrow> True | Some e \<Rightarrow> e \<le> target) \<Longrightarrow>
   (let ws = windows_from late target previous plans in
    map win_plan ws = plans \<and> sorted (map win_end ws) \<and> list_all (\<lambda>w. win_end w \<le> target) ws
    \<and> (case previous of None \<Rightarrow> True | Some e \<Rightarrow> list_all (\<lambda>w. e \<le> win_end w) ws)
    \<and> (plans = [] \<or> win_end (last ws) = target \<and> \<not> win_elapsed (last ws))
    \<and> list_all (\<lambda>w. win_elapsed w \<longrightarrow> win_end w \<le> 0) ws
    \<and> list_all (\<lambda>w. win_end w \<le> 0 \<longrightarrow> win_elapsed w) (butlast ws))"
proof (induction plans arbitrary: previous)
  case (Cons p rest)
  let ?own = "case rest of [] \<Rightarrow> target | q # _ \<Rightarrow> min (of_nat (plan_minute q) * 60 - late) target"
  let ?stop = "case previous of None \<Rightarrow> ?own | Some e \<Rightarrow> max ?own e"
  let ?w = "\<lparr>win_plan = p, win_start = of_nat (plan_minute p) * 60 - late, win_end = ?stop, win_elapsed = (rest \<noteq> [] \<and> ?stop \<le> 0)\<rparr>"
  let ?ws = "windows_from late target (Some ?stop) rest"
  have own: "?own \<le> target" by (cases rest) auto
  then have stop: "?stop \<le> target" "case previous of None \<Rightarrow> True | Some e \<Rightarrow> e \<le> ?stop" using Cons.prems by (auto split: option.splits)
  have all: "windows_from late target previous (p # rest) = ?w # ?ws" by (simp add: Let_def)
  from Cons.IH [of "Some ?stop"] stop(1)
  have IH: "map win_plan ?ws = rest" "sorted (map win_end ?ws)" "list_all (\<lambda>w. win_end w \<le> target) ?ws"
    "list_all (\<lambda>w. ?stop \<le> win_end w) ?ws" "rest = [] \<or> win_end (last ?ws) = target \<and> \<not> win_elapsed (last ?ws)"
    "list_all (\<lambda>w. win_elapsed w \<longrightarrow> win_end w \<le> 0) ?ws" "list_all (\<lambda>w. win_end w \<le> 0 \<longrightarrow> win_elapsed w) (butlast ?ws)"
    by (simp_all only: Let_def option.case)
  have empty: "?ws = [] \<longleftrightarrow> rest = []" using IH(1) by (metis map_is_Nil_conv)
  have "case previous of None \<Rightarrow> True | Some e \<Rightarrow> list_all (\<lambda>w. e \<le> win_end w) ?ws"
    using stop(2) IH(4) by (auto simp: list_all_iff split: option.splits)
  moreover have "rest = [] \<Longrightarrow> ?stop = target" using Cons.prems by (auto split: option.splits)
  ultimately show ?case unfolding all Let_def
    using IH stop empty by (auto simp: list_all_iff split: option.splits)
qed (simp split: option.splits)

text \<open>
  The windows of an hour follow each other: there is one per segment in their order, they end one after the
  other and none after the target, the last ends at the target and is always built, and the elapsed ones, skipped
  after a late start, are exactly a first part of the hour.
\<close>

theorem windows_tile_the_hour:
  "let ws = segment_windows plans target in
   map win_plan ws = plans \<and> sorted (map win_end ws) \<and> list_all (\<lambda>w. win_end w \<le> target) ws
   \<and> (if plans = [] then ws = [] else win_end (last ws) = target \<and> \<not> win_elapsed (last ws))
   \<and> filter win_elapsed ws = takeWhile win_elapsed ws"
proof -
  let ?ws = "segment_windows plans target"
  have facts: "map win_plan ?ws = plans" "sorted (map win_end ?ws)" "list_all (\<lambda>w. win_end w \<le> target) ?ws"
    "plans = [] \<or> win_end (last ?ws) = target \<and> \<not> win_elapsed (last ?ws)"
    "list_all (\<lambda>w. win_elapsed w \<longrightarrow> win_end w \<le> 0) ?ws" "list_all (\<lambda>w. win_end w \<le> 0 \<longrightarrow> win_elapsed w) (butlast ?ws)"
    using windows_from_facts [where previous = None and target = target and late = "max 0 (NOMINAL_HOUR_SECONDS - target)" and plans = plans] by (simp_all add: segment_windows_def Let_def)
  have first: "filter win_elapsed ws = takeWhile win_elapsed ws"
    if "sorted (map win_end ws)" "list_all (\<lambda>w. win_elapsed w \<longrightarrow> win_end w \<le> 0) ws"
      "list_all (\<lambda>w. win_end w \<le> 0 \<longrightarrow> win_elapsed w) (butlast ws)" for ws :: "window list"
    using that
  proof (induction ws)
    case (Cons w ws)
    show ?case
    proof (cases "win_elapsed w")
      case True
      then show ?thesis using Cons by (auto split: if_splits)
    next
      case False
      have "\<not> win_elapsed v" if v: "v \<in> set ws" for v
      proof
        assume "win_elapsed v"
        then have "win_end v \<le> 0" "win_end w \<le> win_end v" using Cons.prems(1,2) v by (simp_all add: list_all_iff)
        then have "win_end w \<le> 0" by linarith
        then show False using Cons.prems(3) False v by (auto split: if_splits)
      qed
      then show ?thesis using False by (simp add: filter_empty_conv)
    qed
  qed simp
  have "plans = [] \<Longrightarrow> ?ws = []" using facts(1) by simp
  then show ?thesis unfolding Let_def using facts(1-4) first [OF facts(2,5,6)] by (cases "plans = []") simp_all
qed

section \<open>The log of an hour\<close>

text \<open>
  C39. Building an hour's log refuses with the three documented messages and no other: there is no row for the
  hour, a row names neither source, or the source of a segment that has not elapsed is empty. Otherwise it
  writes the items of the scheduled hour, numbered from 0 in the order of their times, and every item is either
  a scheduled one or marked as filling.
\<close>

theorem hour_log_decided:
  "let segments = resolve_schedule_segments blocks day hour profile;
       plans = map (plan_for_segment rotations playlists) segments;
       sourceless = filter (\<lambda>s. playlist_id (block s) = None \<and> rotation_id (block s) = None) segments;
       unusable = filter (\<lambda>w. \<not> win_elapsed w \<and> plan_empty (win_plan w)) (segment_windows plans target) in
   case build_hour_log h rotations playlists blocks day hour profile target of
     Inl m \<Rightarrow> m = (if segments = [] then cps ''No schedule block for this hour.''
         else if sourceless \<noteq> [] then cps ''ScheduleBlock has neither rotation nor playlist.''
         else empty_source_message (win_plan (hd unusable)))
       \<and> \<not> (segments \<noteq> [] \<and> sourceless = [] \<and> unusable = [])
   | Inr rows \<Rightarrow> segments \<noteq> [] \<and> sourceless = [] \<and> unusable = []
       \<and> map log_position rows = [0..<length rows] \<and> sorted (map log_time rows)
       \<and> list_all (\<lambda>r. log_origin r = Some SCHEDULED_ORIGIN \<or> log_origin r = Some ORIGIN_GENERATED_FILL) rows"
proof -
  define segments where "segments = resolve_schedule_segments blocks day hour profile"
  let ?plans = "map (plan_for_segment rotations playlists) segments"
  let ?sourceless = "filter (\<lambda>s. playlist_id (block s) = None \<and> rotation_id (block s) = None) segments"
  let ?bad = "\<lambda>w. \<not> win_elapsed w \<and> plan_empty (win_plan w)"
  let ?ws = "segment_windows ?plans target"
  have ex: "list_ex P xs \<longleftrightarrow> filter P xs \<noteq> []" for P and xs :: "schedule_segment list" by (induction xs) auto
  have find: "List.find P xs = (case filter P xs of [] \<Rightarrow> None | x # _ \<Rightarrow> Some x)" for P and xs :: "window list" by (induction xs) auto
  consider "segments = []" | "segments \<noteq> []" "?sourceless \<noteq> []" | "segments \<noteq> []" "?sourceless = []" by blast
  then show ?thesis
  proof cases
    case 3
    show ?thesis
    proof (cases "filter ?bad ?ws")
      case (Cons w more)
      then show ?thesis unfolding build_hour_log_def Let_def segments_def [symmetric] ex using 3
        by (simp add: plan_hour_def Let_def find)
    next
      case Nil
      obtain b records where built: "plan_hour h False ?plans target = Inr (b, records)"
        using Nil by (cases "build_windows h ?ws (first_build ?plans ?ws)") (simp add: plan_hour_def Let_def find)
      have "continues h (first_build ?plans ?ws) b" using continues_windows plan_hour_built built by blast
      then have "one_clock h (accumulated_seconds (first_build ?plans ?ws)) b" using first_build_clock by (auto simp: continues_def)
      then have rows: "map log_position (persisted_rows o1 (picks b)) = [0..<length (persisted_rows o1 (picks b))]"
        "sorted (map log_time (persisted_rows o1 (picks b)))" for o1
        by (simp_all add: persisted_rows_def one_clock_def comp_def sorted_start_times flip: map_map)
          (simp_all add: comp_def sorted_start_times)
      show ?thesis unfolding build_hour_log_def Let_def segments_def [symmetric] ex using 3 Nil built rows
        by (simp add: persisted_rows_def list_all_iff)
    qed
  qed (simp_all add: build_hour_log_def Let_def ex flip: segments_def)
qed

section \<open>Limits of the landing\<close>

text \<open>
  The margin of 30 seconds bounds a single fit only: the search for a pair has no such bound, and takes two
  tracks of ten minutes where less than seven are left. And the exact fit starts below, not at, the threshold of
  six minutes: with exactly 360 seconds left the walk counts the slot as an exact fit, but any track is acceptable.
\<close>

definition sample_landing :: "int \<Rightarrow> seconds \<Rightarrow> fit_candidate" where
  "sample_landing i secs =
     \<lparr>fit_row = \<lparr>row_id = i, row_artist = [], row_related = [], row_category = None, row_additional = [], row_ready = True,
        row_blocked = [], row_holidays = [], row_next = None, row_duration = Some secs, row_cue = None, row_weight = 1,
        row_last_played = None\<rparr>,
      fit_keys = {}, fit_airtime = secs, fit_weight = 1\<rparr>"

lemma pair_may_overrun:
  "map_option landing_error (find_matched_pair d [sample_landing 1 600] [sample_landing 2 600] 400) = Some 800"
  by (simp add: find_matched_pair_def neighbours_def pair_valid_def sample_landing_def score_pair_def weighted_choice_by_def Let_def
      PAIR_DURATION_NEIGHBORS_def PAIR_FINALIST_LIMIT_def PAIR_LANDING_QUALITY_DIVISOR_def)

lemma exact_fit_not_at_threshold: "acceptable (fit_mode False EXACT_FIT_THRESHOLD_SECONDS) EXACT_FIT_THRESHOLD_SECONDS t"
  by (simp add: acceptable_def fit_mode_def)

end
