(* ===== verification/Web_Requests.thy ===== *)
theory Web_Requests
  imports Track_Selection Air_Text
begin

text \<open>
  Song requests of listeners: \<^verbatim>\<open>webrequests/services.py\<close>, the command \<^verbatim>\<open>refresh_song_request_statuses\<close>, the
  import of \<^verbatim>\<open>webrequests/ingest.py\<close> and the repair command \<^verbatim>\<open>reconcile_orphaned_fulfilled_requests\<close>. The rows of
  the requests, of the log items and of the logs are a value; a transaction is a function on it, an update with
  conditions (\<^verbatim>\<open>filter(...).update(...)\<close>) one step. Instants are seconds; the clock, the engine's state file, the
  existence of a media file, the hour of the week of an instant, and what a lock or a locked row answers are
  arguments. Eligibility is that of \<^verbatim>\<open>Track_Selection\<close>. The texts of an item are left out.
\<close>

section \<open>Rows\<close>

datatype request_status = Pending_Request | No_Slot_Soon | Scheduled_Request | Fulfilled_Request | Unavailable_Request | Expired_Request

definition WAITING_STATUSES :: "request_status list" where "WAITING_STATUSES = [Pending_Request, No_Slot_Soon]"
definition ACTIVE_STATUSES :: "request_status list" where "ACTIVE_STATUSES = WAITING_STATUSES @ [Scheduled_Request]"
definition TERMINAL_STATUSES :: "request_status list" where
  "TERMINAL_STATUSES = [Fulfilled_Request, Unavailable_Request, Expired_Request]"

record song_request =
  rq_id :: nat
  external_request_id :: utext
  rq_track :: "int option"
  rq_status :: request_status
  submitted :: seconds
  scheduled_when :: "seconds option"
  fulfilled_when :: "seconds option"
  resolved_when :: "seconds option"
  estimated_play_time :: "seconds option"
  status_updated :: seconds
  rq_item :: "int option"
  intro_track :: "int option"
  intro_item :: "int option"

record slot_item =
  ri_id :: int
  ri_log :: int
  ri_track :: "int option"
  ri_kind :: "string option"
  ri_scheduled :: seconds
  ri_played :: "seconds option"
  ri_claimed :: bool

record hour_row =
  hr_id :: int
  hr_approved :: bool
  hr_date :: int
  hr_hour :: int

record request_config =
  requests_enabled :: bool
  open_slots :: "nat list"
  max_fulfilled_per_hour :: nat
  lookahead_warning_minutes :: nat
  expire_after_hours :: nat

record request_db =
  rq_items :: "slot_item list"
  rq_logs :: "hour_row list"
  rq_rows :: "song_request list"

definition waiting_request :: "song_request \<Rightarrow> bool" where
  "waiting_request r \<longleftrightarrow> rq_status r \<in> set WAITING_STATUSES"

definition find_item :: "request_db \<Rightarrow> int \<Rightarrow> slot_item option" where
  "find_item db i = List.find (\<lambda>x. ri_id x = i) (rq_items db)"

definition find_hour :: "request_db \<Rightarrow> int \<Rightarrow> hour_row option" where
  "find_hour db l = List.find (\<lambda>x. hr_id x = l) (rq_logs db)"

text \<open>\<^verbatim>\<open>filter(P).update(f)\<close>\<close>

definition update_where :: "(song_request \<Rightarrow> bool) \<Rightarrow> (song_request \<Rightarrow> song_request) \<Rightarrow> request_db \<Rightarrow> request_db" where
  "update_where P f db = db\<lparr>rq_rows := map (\<lambda>r. if P r then f r else r) (rq_rows db)\<rparr>"

section \<open>The engine's state\<close>

text \<open>The log items on the decks, the queue with the seconds until each item, and the active hour.\<close>

record engine_state =
  es_timestamp :: seconds
  es_decks :: "int option list"
  es_queue :: "(int option \<times> seconds) list"
  es_date :: "int option"
  es_hour :: "int option"

definition STATE_STALENESS_SECONDS :: seconds where "STATE_STALENESS_SECONDS = 30"

definition read_engine_state :: "engine_state option \<Rightarrow> seconds \<Rightarrow> engine_state option" where
  "read_engine_state file now =
     (case file of None \<Rightarrow> None | Some s \<Rightarrow> if now - es_timestamp s > STATE_STALENESS_SECONDS then None else Some s)"

text \<open>The file (None when it is missing or cannot be parsed) and the clock when it is read.\<close>

type_synonym engine_view = "engine_state option \<times> seconds"

definition live_eta_datetime :: "engine_view \<Rightarrow> int \<Rightarrow> seconds option" where
  "live_eta_datetime v i =
     (case read_engine_state (fst v) (snd v) of None \<Rightarrow> None
      | Some s \<Rightarrow> if Some i \<in> set (es_decks s) then Some (snd v)
                  else map_option (\<lambda>(_, eta). snd v + eta) (List.find (\<lambda>(k, _). k = Some i) (es_queue s)))"

definition estimate_air_time :: "engine_view \<Rightarrow> slot_item \<Rightarrow> seconds" where
  "estimate_air_time v it = (case live_eta_datetime v (ri_id it) of None \<Rightarrow> ri_scheduled it | Some t \<Rightarrow> t)"

datatype item_class = AIRING | QUEUED | FUTURE | STRANDED | UNKNOWN

definition classify_log_item :: "request_db \<Rightarrow> engine_state option \<Rightarrow> slot_item option \<Rightarrow> item_class" where
  "classify_log_item db state item =
     (case item of None \<Rightarrow> STRANDED
      | Some it \<Rightarrow>
          (case find_hour db (ri_log it) of None \<Rightarrow> STRANDED
           | Some h \<Rightarrow>
               if \<not> hr_approved h then STRANDED
               else case state of None \<Rightarrow> UNKNOWN
               | Some s \<Rightarrow>
                   if Some (ri_id it) \<in> set (es_decks s) then AIRING
                   else if list_ex (\<lambda>(k, _). k = Some (ri_id it)) (es_queue s) then QUEUED
                   else (case (es_date s, es_hour s) of
                           (Some d, Some k) \<Rightarrow> if hr_date h > d \<or> hr_date h = d \<and> hr_hour h > k then FUTURE else STRANDED
                         | _ \<Rightarrow> UNKNOWN)))"

section \<open>Eligibility\<close>

definition track_row_of :: "station \<Rightarrow> int \<Rightarrow> track_row option" where
  "track_row_of st t = List.find (\<lambda>x. row_id x = t) (library_tracks st)"

definition music_category :: "station \<Rightarrow> track_row \<Rightarrow> category_row option" where
  "music_category st t =
     (case Option.bind (row_category t) (find_category st) of None \<Rightarrow> None
      | Some c \<Rightarrow> if cat_kind c = ''music'' then Some c else None)"

definition track_is_available :: "station \<Rightarrow> (int \<Rightarrow> bool) \<Rightarrow> int option \<Rightarrow> bool" where
  "track_is_available st present track =
     (case Option.bind track (track_row_of st) of None \<Rightarrow> False
      | Some t \<Rightarrow> row_ready t \<and> music_category st t \<noteq> None \<and> present (row_id t))"

definition is_track_eligible_at :: "station \<Rightarrow> (int \<Rightarrow> bool) \<Rightarrow> int option \<Rightarrow> seconds \<Rightarrow> bool" where
  "is_track_eligible_at st present track target =
     (track_is_available st present track \<and>
      (case Option.bind track (track_row_of st) of None \<Rightarrow> False
       | Some t \<Rightarrow>
           (case music_category st t of None \<Rightarrow> False
            | Some c \<Rightarrow>
                let (artist_sep, title_sep) = get_separation st c;
                    (ids, keys) = get_recent_exclusions st target artist_sep title_sep {} {}
                in row_id t \<notin> ids \<and> row_keys st t \<inter> keys = {})))"

section \<open>Air start\<close>

definition mark_song_requests_aired :: "int \<Rightarrow> int option \<Rightarrow> seconds \<Rightarrow> request_db \<Rightarrow> request_db" where
  "mark_song_requests_aired i track aired_at =
     update_where (\<lambda>r. rq_status r = Scheduled_Request \<and> rq_item r = Some i \<and> rq_track r = track)
       (\<lambda>r. r\<lparr>rq_status := Fulfilled_Request, fulfilled_when := Some aired_at, resolved_when := Some aired_at,
          estimated_play_time := Some aired_at, status_updated := aired_at\<rparr>)"

text \<open>
  \<^verbatim>\<open>_record_occurrence_air_start\<close> as far as it concerns the requests: the claimed item whose track is the deck's is
  marked as played, once.
\<close>

definition set_item :: "int \<Rightarrow> (slot_item \<Rightarrow> slot_item) \<Rightarrow> request_db \<Rightarrow> request_db" where
  "set_item i f db = db\<lparr>rq_items := map (\<lambda>x. if ri_id x = i then f x else x) (rq_items db)\<rparr>"

definition record_air_start :: "int \<Rightarrow> int \<Rightarrow> seconds \<Rightarrow> request_db \<Rightarrow> request_db" where
  "record_air_start i deck_track aired_at db =
     (case find_item db i of None \<Rightarrow> db
      | Some it \<Rightarrow>
          if \<not> ri_claimed it \<or> ri_track it \<noteq> Some deck_track \<or> ri_played it \<noteq> None then db
          else mark_song_requests_aired i (ri_track it) aired_at (set_item i (\<lambda>x. x\<lparr>ri_played := Some aired_at\<rparr>) db))"

section \<open>Scheduling\<close>

datatype lock_answer = Lock_Granted | Lock_Not_Available | Lock_Failed

record schedule_reads =
  sch_station :: station
  sch_present :: "int \<Rightarrow> bool"
  sch_config :: request_config
  sch_now :: seconds
  sch_slot :: "seconds \<Rightarrow> nat"
  sch_view :: engine_view
  sch_lock :: lock_answer
  locked_candidates :: "nat set"
  locked_collapse :: "nat set"
  evidence_recorded :: bool

text \<open>The row of the caller as it was, a contended slot, or the fresh row.\<close>

datatype schedule_result = Caller_Item | SCHEDULING_CONTENDED | Fresh_Item slot_item

definition music_slot :: "slot_item \<Rightarrow> bool" where
  "music_slot it \<longleftrightarrow> ri_track it \<noteq> None \<and> ri_kind it = Some ''music''"

definition already_reserved :: "request_db \<Rightarrow> int \<Rightarrow> bool" where
  "already_reserved db i \<longleftrightarrow> list_ex (\<lambda>r. rq_status r = Scheduled_Request \<and> rq_item r = Some i) (rq_rows db)"

definition item_in_log :: "request_db \<Rightarrow> int \<Rightarrow> song_request \<Rightarrow> int option" where
  "item_in_log db l r =
     (if rq_status r = Scheduled_Request \<or> rq_status r = Fulfilled_Request then
        (case rq_item r of None \<Rightarrow> None
         | Some i \<Rightarrow> (case find_item db i of None \<Rightarrow> None | Some it \<Rightarrow> if ri_log it = l then Some i else None))
      else None)"

definition used_slots :: "request_db \<Rightarrow> int \<Rightarrow> nat" where
  "used_slots db l = length (remdups (List.map_filter (item_in_log db l) (rq_rows db)))"

definition assigned :: "schedule_reads \<Rightarrow> slot_item \<Rightarrow> song_request \<Rightarrow> song_request" where
  "assigned e it r = r\<lparr>rq_status := Scheduled_Request, rq_item := Some (ri_id it), scheduled_when := Some (sch_now e),
     fulfilled_when := None, resolved_when := None, estimated_play_time := Some (estimate_air_time (sch_view e) it),
     status_updated := sch_now e\<rparr>"

definition next_request :: "schedule_reads \<Rightarrow> seconds \<Rightarrow> request_db \<Rightarrow> song_request option" where
  "next_request e target db =
     List.find (\<lambda>r. waiting_request r \<and> rq_track r \<noteq> None \<and> rq_id r \<notin> locked_candidates e
       \<and> is_track_eligible_at (sch_station e) (sch_present e) (rq_track r) target) (sort_key submitted (rq_rows db))"

definition requested :: "schedule_reads \<Rightarrow> slot_item \<Rightarrow> request_db \<Rightarrow> song_request option" where
  "requested e it db =
     (if already_reserved db (ri_id it) then None else next_request e (max (sch_now e) (ri_scheduled it)) db)"

definition collapse :: "schedule_reads \<Rightarrow> slot_item \<Rightarrow> request_db \<Rightarrow> request_db" where
  "collapse e it = update_where (\<lambda>r. waiting_request r \<and> rq_track r = ri_track it \<and> rq_id r \<notin> locked_collapse e) (assigned e it)"

text \<open>The slot itself; None when recording the refill evidence raises, which rolls the transaction back.\<close>

definition fill_slot :: "schedule_reads \<Rightarrow> int \<Rightarrow> slot_item \<Rightarrow> request_db \<Rightarrow> (slot_item \<times> request_db) option" where
  "fill_slot e l it db =
     (if \<not> (already_reserved db (ri_id it) \<or> used_slots db l < max_fulfilled_per_hour (sch_config e)) then Some (it, db)
      else case requested e it db of
           None \<Rightarrow> Some (it, collapse e it db)
         | Some r \<Rightarrow>
             if \<not> evidence_recorded e then None
             else let it' = it\<lparr>ri_track := rq_track r\<rparr>;
                      swapped = set_item (ri_id it) (\<lambda>x. x\<lparr>ri_track := rq_track r\<rparr>) db
                  in Some (it', collapse e it' (update_where (\<lambda>q. rq_id q = rq_id r) (assigned e it') swapped)))"

text \<open>The transaction, on the fresh rows of the log and the item of \<^term>\<open>seen\<close>.\<close>

definition schedule_locked :: "schedule_reads \<Rightarrow> slot_item \<Rightarrow> request_db \<Rightarrow> schedule_result \<times> request_db" where
  "schedule_locked e seen db =
     (case find_hour db (ri_log seen) of None \<Rightarrow> (Caller_Item, db)
      | Some h \<Rightarrow>
          if \<not> hr_approved h then (Caller_Item, db)
          else case find_item db (ri_id seen) of None \<Rightarrow> (Caller_Item, db)
          | Some it \<Rightarrow>
              if ri_played it \<noteq> None \<or> ri_claimed it \<or> \<not> music_slot it then (Fresh_Item it, db)
              else if sch_slot e (ri_scheduled it) \<notin> set (open_slots (sch_config e)) then (Fresh_Item it, db)
              else case fill_slot e (ri_log seen) it db of None \<Rightarrow> (Caller_Item, db) | Some (it', db') \<Rightarrow> (Fresh_Item it', db'))"

definition maybe_schedule_song_request ::
  "schedule_reads \<Rightarrow> slot_item option \<Rightarrow> request_db \<Rightarrow> schedule_result \<times> request_db" where
  "maybe_schedule_song_request e caller db =
     (case caller of None \<Rightarrow> (Caller_Item, db)
      | Some seen \<Rightarrow>
          if \<not> music_slot seen \<or> \<not> requests_enabled (sch_config e) then (Caller_Item, db)
          else case sch_lock e of
            Lock_Not_Available \<Rightarrow> (SCHEDULING_CONTENDED, db)
          | Lock_Failed \<Rightarrow> (Caller_Item, db)
          | Lock_Granted \<Rightarrow> schedule_locked e seen db)"

section \<open>The refresh command\<close>

definition requeued :: "seconds \<Rightarrow> song_request \<Rightarrow> song_request" where
  "requeued t r = r\<lparr>rq_status := Pending_Request, rq_item := None, scheduled_when := None, fulfilled_when := None,
     resolved_when := None, estimated_play_time := None, status_updated := t, intro_item := None\<rparr>"

text \<open>The row that was read, if it is still scheduled for the item it had.\<close>

definition still_assigned :: "song_request \<Rightarrow> song_request \<Rightarrow> bool" where
  "still_assigned r q \<longleftrightarrow> rq_id q = rq_id r \<and> rq_status q = Scheduled_Request \<and> rq_item q = rq_item r"

definition heal_request :: "song_request \<Rightarrow> slot_item \<Rightarrow> seconds \<Rightarrow> request_db \<Rightarrow> request_db" where
  "heal_request r it t =
     (if ri_track it = rq_track r
      then update_where (\<lambda>q. still_assigned r q \<and> rq_track q = rq_track r)
        (\<lambda>q. q\<lparr>rq_status := Fulfilled_Request, fulfilled_when := ri_played it, resolved_when := ri_played it,
           estimated_play_time := ri_played it, status_updated := t\<rparr>)
      else update_where (still_assigned r) (requeued t))"

definition reconcile_request ::
  "station \<Rightarrow> (int \<Rightarrow> bool) \<Rightarrow> engine_state option \<Rightarrow> request_db \<Rightarrow> song_request \<Rightarrow> slot_item option \<Rightarrow> seconds \<Rightarrow> request_db \<Rightarrow> request_db" where
  "reconcile_request st present state seen r item t =
     (if \<not> track_is_available st present (rq_track r)
      then update_where (still_assigned r)
        (\<lambda>q. q\<lparr>rq_status := Unavailable_Request, rq_item := None, scheduled_when := None, fulfilled_when := None,
           estimated_play_time := None, resolved_when := Some t, status_updated := t, intro_item := None\<rparr>)
      else if classify_log_item seen state item = STRANDED
          \<or> (case item of None \<Rightarrow> False | Some it \<Rightarrow> ri_track it \<noteq> rq_track r)
      then update_where (still_assigned r) (requeued t)
      else id)"

definition refresh_estimate :: "engine_view \<Rightarrow> song_request \<Rightarrow> slot_item \<Rightarrow> seconds \<Rightarrow> request_db \<Rightarrow> request_db" where
  "refresh_estimate v r it t =
     (let estimate = Some (estimate_air_time v it) in
      if estimate \<noteq> estimated_play_time r
      then update_where (still_assigned r) (\<lambda>q. q\<lparr>estimated_play_time := estimate, status_updated := t\<rparr>) else id)"

definition still_waiting :: "song_request \<Rightarrow> song_request \<Rightarrow> bool" where
  "still_waiting r q \<longleftrightarrow> rq_id q = rq_id r \<and> waiting_request q"

definition close_request :: "request_status \<Rightarrow> song_request \<Rightarrow> seconds \<Rightarrow> request_db \<Rightarrow> request_db" where
  "close_request status r t = update_where (still_waiting r)
     (\<lambda>q. q\<lparr>rq_status := status, estimated_play_time := None, resolved_when := Some t, status_updated := t\<rparr>)"

definition age_request :: "station \<Rightarrow> (int \<Rightarrow> bool) \<Rightarrow> seconds \<Rightarrow> song_request \<Rightarrow> seconds \<Rightarrow> request_db \<Rightarrow> request_db" where
  "age_request st present cutoff r t =
     (if \<not> track_is_available st present (rq_track r) then close_request Unavailable_Request r t
      else if submitted r \<le> cutoff then close_request Expired_Request r t else id)"

definition advise_request :: "song_request \<Rightarrow> seconds option \<Rightarrow> seconds \<Rightarrow> request_db \<Rightarrow> request_db" where
  "advise_request r estimate t =
     (let status = (if estimate \<noteq> None then Pending_Request else No_Slot_Soon) in
      if status \<noteq> rq_status r \<or> estimate \<noteq> estimated_play_time r
      then update_where (still_waiting r) (\<lambda>q. q\<lparr>rq_status := status, estimated_play_time := estimate, status_updated := t\<rparr>) else id)"

text \<open>
  The reads of one run: \<^term>\<open>ref_clock\<close> gives the clock of a pass at a request, \<^term>\<open>ref_view\<close> what the engine's
  state file says when an item's time is estimated, \<^term>\<open>ref_schedule\<close> the reads of the scheduling of an item.
\<close>

record refresh_reads =
  ref_station :: station
  ref_present :: "int \<Rightarrow> bool"
  ref_config :: request_config
  ref_now :: seconds
  ref_hour_start :: seconds
  ref_wall_clock :: "int \<times> int"
  ref_slot :: "seconds \<Rightarrow> nat"
  ref_state :: "engine_state option"
  ref_clock :: "nat \<Rightarrow> nat \<Rightarrow> seconds"
  ref_view :: "nat \<Rightarrow> int \<Rightarrow> engine_view"
  ref_schedule :: "int \<Rightarrow> schedule_reads"

definition is_dead_slot :: "refresh_reads \<Rightarrow> request_db \<Rightarrow> slot_item \<Rightarrow> bool" where
  "is_dead_slot e db it =
     (case classify_log_item db (ref_state e) (Some it) of
        STRANDED \<Rightarrow> True
      | UNKNOWN \<Rightarrow> (case find_hour db (ri_log it) of None \<Rightarrow> True
          | Some h \<Rightarrow> hr_date h < fst (ref_wall_clock e) \<or> hr_date h = fst (ref_wall_clock e) \<and> hr_hour h \<le> snd (ref_wall_clock e))
      | _ \<Rightarrow> False)"

definition lookahead_cutoff :: "refresh_reads \<Rightarrow> seconds" where
  "lookahead_cutoff e = ref_now e + of_nat (lookahead_warning_minutes (ref_config e)) * 60"

definition slot_candidates :: "refresh_reads \<Rightarrow> request_db \<Rightarrow> slot_item list" where
  "slot_candidates e db = filter (\<lambda>it. \<not> is_dead_slot e db it) (sort_key ri_scheduled (filter (\<lambda>it.
     ref_hour_start e \<le> ri_scheduled it \<and> ri_scheduled it < lookahead_cutoff e \<and> \<not> ri_claimed it \<and> ri_played it = None
     \<and> ri_kind it = Some ''music'' \<and> (case find_hour db (ri_log it) of None \<Rightarrow> False | Some h \<Rightarrow> hr_approved h)) (rq_items db)))"

text \<open>The scheduled requests with the items they point to.\<close>

definition scheduled_pairs :: "request_db \<Rightarrow> (song_request \<times> slot_item option) list" where
  "scheduled_pairs db = map (\<lambda>r. (r, Option.bind (rq_item r) (find_item db))) (filter (\<lambda>r. rq_status r = Scheduled_Request) (rq_rows db))"

definition heal_pass :: "refresh_reads \<Rightarrow> request_db \<Rightarrow> request_db" where
  "heal_pass e db = fold (\<lambda>(r, item). case item of None \<Rightarrow> id
     | Some it \<Rightarrow> if ri_played it \<noteq> None then heal_request r it (ref_clock e 0 (rq_id r)) else id) (scheduled_pairs db) db"

definition reconcile_pass :: "refresh_reads \<Rightarrow> request_db \<Rightarrow> request_db" where
  "reconcile_pass e db = fold (\<lambda>(r, item).
     if (case item of None \<Rightarrow> True | Some it \<Rightarrow> ri_played it = None)
     then reconcile_request (ref_station e) (ref_present e) (ref_state e) db r item (ref_clock e 1 (rq_id r)) else id) (scheduled_pairs db) db"

definition estimate_pass :: "refresh_reads \<Rightarrow> request_db \<Rightarrow> request_db" where
  "estimate_pass e db = fold (\<lambda>(r, item). case item of None \<Rightarrow> id
     | Some it \<Rightarrow> if ri_played it = None then refresh_estimate (ref_view e 0 (ri_id it)) r it (ref_clock e 2 (rq_id r)) else id) (scheduled_pairs db) db"

definition waiting_rows :: "request_db \<Rightarrow> song_request list" where
  "waiting_rows db = sort_key submitted (filter waiting_request (rq_rows db))"

definition expire_cutoff :: "refresh_reads \<Rightarrow> seconds" where
  "expire_cutoff e = ref_now e - of_nat (expire_after_hours (ref_config e)) * 3600"

definition age_pass :: "refresh_reads \<Rightarrow> request_db \<Rightarrow> request_db" where
  "age_pass e db = fold (\<lambda>r. age_request (ref_station e) (ref_present e) (expire_cutoff e) r (ref_clock e 3 (rq_id r))) (waiting_rows db) db"

definition kept_waiting :: "refresh_reads \<Rightarrow> request_db \<Rightarrow> nat set" where
  "kept_waiting e db = rq_id ` set (filter (\<lambda>r. track_is_available (ref_station e) (ref_present e) (rq_track r)
     \<and> submitted r > expire_cutoff e) (waiting_rows db))"

definition schedule_pass :: "refresh_reads \<Rightarrow> request_db \<Rightarrow> request_db" where
  "schedule_pass e db = fold (\<lambda>it acc. snd (maybe_schedule_song_request (ref_schedule e (ri_id it)) (Some it) acc)) (slot_candidates e db) db"

definition counted_items :: "refresh_reads \<Rightarrow> request_db \<Rightarrow> int \<Rightarrow> nat" where
  "counted_items e db l = length (remdups (filter (\<lambda>i. case find_item db i of None \<Rightarrow> False
     | Some it \<Rightarrow> ref_hour_start e \<le> ri_scheduled it \<and> ri_scheduled it < lookahead_cutoff e) (List.map_filter (item_in_log db l) (rq_rows db))))"

definition remaining_capacity :: "refresh_reads \<Rightarrow> request_db \<Rightarrow> int \<Rightarrow> nat" where
  "remaining_capacity e db l = max_fulfilled_per_hour (ref_config e) - counted_items e db l"

definition open_candidates :: "refresh_reads \<Rightarrow> request_db \<Rightarrow> slot_item list" where
  "open_candidates e db = filter (\<lambda>it. \<not> already_reserved db (ri_id it) \<and> ref_slot e (ri_scheduled it) \<in> set (open_slots (ref_config e)))
     (slot_candidates e db)"

text \<open>
  The advisory matching: the items already offered, from which \<^verbatim>\<open>used_per_hour\<close> is counted, and for each
  request the item it is told about.
\<close>

definition offer :: "refresh_reads \<Rightarrow> (int \<Rightarrow> nat) \<Rightarrow> slot_item list \<Rightarrow> slot_item list \<Rightarrow> song_request \<Rightarrow> slot_item option" where
  "offer e capacity items claimed r = List.find (\<lambda>it. ri_id it \<notin> ri_id ` set claimed
     \<and> length (filter (\<lambda>x. ri_log x = ri_log it) claimed) < capacity (ri_log it)
     \<and> is_track_eligible_at (ref_station e) (ref_present e) (rq_track r) (max (ref_now e) (ri_scheduled it))) items"

fun offers :: "refresh_reads \<Rightarrow> (int \<Rightarrow> nat) \<Rightarrow> slot_item list \<Rightarrow> slot_item list \<Rightarrow> song_request list \<Rightarrow> (song_request \<times> slot_item option) list" where
  "offers e capacity items claimed [] = []"
| "offers e capacity items claimed (r # rs) =
     (case offer e capacity items claimed r of
        None \<Rightarrow> (r, None) # offers e capacity items claimed rs
      | Some it \<Rightarrow> (r, Some it) # offers e capacity items (claimed @ [it]) rs)"

definition advise_pass :: "refresh_reads \<Rightarrow> nat set \<Rightarrow> request_db \<Rightarrow> request_db" where
  "advise_pass e ids db = fold (\<lambda>(r, item). advise_request r (map_option (\<lambda>it. estimate_air_time (ref_view e 1 (ri_id it)) it) item)
       (ref_clock e 4 (rq_id r)))
     (offers e (remaining_capacity e db) (open_candidates e db) [] (filter (\<lambda>r. rq_id r \<in> ids) (waiting_rows db))) db"

definition refresh_song_request_statuses :: "refresh_reads \<Rightarrow> request_db \<Rightarrow> request_db" where
  "refresh_song_request_statuses e db =
     (let reconciled = estimate_pass e (reconcile_pass e (heal_pass e db))
      in advise_pass e (kept_waiting e reconciled) (schedule_pass e (age_pass e reconciled)))"

section \<open>Import and repair\<close>

text \<open>An item of a validated batch: the public id, the track and the time of submission.\<close>

definition importable :: "station \<Rightarrow> int \<Rightarrow> bool" where
  "importable st t = (case track_row_of st t of None \<Rightarrow> False | Some x \<Rightarrow> row_ready x \<and> music_category st x \<noteq> None)"

definition ingest_item :: "station \<Rightarrow> seconds \<Rightarrow> utext \<times> int \<times> seconds \<Rightarrow> request_db \<Rightarrow> request_db" where
  "ingest_item st now item db =
     (case item of (ext, track, at_time) \<Rightarrow>
        if list_ex (\<lambda>r. external_request_id r = ext) (rq_rows db) then db
        else db\<lparr>rq_rows := rq_rows db @ [\<lparr>rq_id = length (rq_rows db), external_request_id = ext,
            rq_track = (if importable st track then Some track else None),
            rq_status = (if importable st track then Pending_Request else Unavailable_Request), submitted = at_time,
            scheduled_when = None, fulfilled_when = None, resolved_when = (if importable st track then None else Some now),
            estimated_play_time = None, status_updated = now, rq_item = None, intro_track = None, intro_item = None\<rparr>]\<rparr>)"

definition ingest_pending_items :: "station \<Rightarrow> seconds \<Rightarrow> (utext \<times> int \<times> seconds) list \<Rightarrow> request_db \<Rightarrow> request_db" where
  "ingest_pending_items st now items db = fold (ingest_item st now) items db"

definition requeue_orphan :: "seconds \<Rightarrow> seconds \<Rightarrow> bool \<Rightarrow> song_request \<Rightarrow> seconds \<Rightarrow> request_db \<Rightarrow> request_db" where
  "requeue_orphan now cutoff all_recent r t =
     (if submitted r \<ge> cutoff \<and> ((case estimated_play_time r of None \<Rightarrow> False | Some x \<Rightarrow> x > now) \<or> all_recent)
      then update_where (\<lambda>q. rq_id q = rq_id r \<and> rq_status q = Fulfilled_Request \<and> rq_item q = None)
        (\<lambda>q. q\<lparr>rq_status := Pending_Request, rq_item := None, scheduled_when := None, fulfilled_when := None,
           resolved_when := None, estimated_play_time := None, status_updated := t\<rparr>)
      else id)"

text \<open>The end of \<^verbatim>\<open>synthesize_dedication_intro\<close>: the rendered clip is attached while the item has not been claimed.\<close>

definition attach_intro :: "song_request \<Rightarrow> int \<Rightarrow> request_db \<Rightarrow> request_db" where
  "attach_intro r clip db =
     (case Option.bind (rq_item r) (find_item db) of None \<Rightarrow> db
      | Some it \<Rightarrow>
          if ri_claimed it \<or> ri_played it \<noteq> None then db
          else update_where (\<lambda>q. rq_id q = rq_id r \<and> rq_status q = Scheduled_Request \<and> rq_track q = rq_track r
              \<and> rq_item q = Some (ri_id it) \<and> intro_track q = None) (\<lambda>q. q\<lparr>intro_track := Some clip\<rparr>) db)"

text \<open>The claim of the splice of an intro, slot-wide, when the row that was chosen is still one of the item's.\<close>

definition claim_intro :: "song_request \<Rightarrow> slot_item \<Rightarrow> int \<Rightarrow> seconds \<Rightarrow> request_db \<Rightarrow> request_db" where
  "claim_intro r seen intro t db =
     (case find_item db (ri_id seen) of None \<Rightarrow> db
      | Some it \<Rightarrow>
          if ri_claimed it \<or> ri_played it \<noteq> None \<or> ri_track it \<noteq> ri_track seen then db
          else let mine = (\<lambda>q. rq_status q = Scheduled_Request \<and> rq_item q = Some (ri_id it) \<and> rq_track q = ri_track it) in
            if list_ex (\<lambda>q. rq_id q = rq_id r \<and> mine q \<and> intro_item q = None) (rq_rows db)
            then update_where mine (\<lambda>q. q\<lparr>intro_item := Some intro, status_updated := t\<rparr>) db else db)"

section \<open>Everything that happens\<close>

text \<open>
  The databases of a station, newest first. A transaction reads the newest one; an update with conditions may rest on
  rows that were read from an older one. Log items come, go and change while they have not been played, their
  ids are never used again; the other columns of a log change freely.
\<close>

definition remove_item :: "int \<Rightarrow> request_db \<Rightarrow> request_db" where
  "remove_item i db = db\<lparr>rq_items := filter (\<lambda>x. ri_id x \<noteq> i) (rq_items db),
     rq_rows := map (\<lambda>r. r\<lparr>rq_item := (if rq_item r = Some i then None else rq_item r),
       intro_item := (if intro_item r = Some i then None else intro_item r)\<rparr>) (rq_rows db)\<rparr>"

inductive request_run :: "request_config \<Rightarrow> request_db list \<Rightarrow> bool" for cfg where
  opened: "request_run cfg [\<lparr>rq_items = [], rq_logs = [], rq_rows = []\<rparr>]"
| ingested: "request_run cfg (db # past) \<Longrightarrow> request_run cfg (ingest_pending_items st now items db # db # past)"
| scheduled: "request_run cfg (db # past) \<Longrightarrow> sch_config e = cfg
    \<Longrightarrow> (\<exists>d\<in>set (db # past). \<exists>it\<in>set (rq_items d). caller = Some it)
    \<Longrightarrow> request_run cfg (snd (maybe_schedule_song_request e caller db) # db # past)"
| claimed: "request_run cfg (db # past) \<Longrightarrow> request_run cfg (set_item i (\<lambda>x. x\<lparr>ri_claimed := c\<rparr>) db # db # past)"
| air_started: "request_run cfg (db # past) \<Longrightarrow> request_run cfg (record_air_start i deck_track t db # db # past)"
| healed: "request_run cfg (db # past) \<Longrightarrow> seen \<in> set (db # past) \<Longrightarrow> r \<in> set (rq_rows seen) \<Longrightarrow> rq_status r = Scheduled_Request
    \<Longrightarrow> Option.bind (rq_item r) (find_item seen) = Some it \<Longrightarrow> ri_played it \<noteq> None
    \<Longrightarrow> request_run cfg (heal_request r it t db # db # past)"
| reconciled: "request_run cfg (db # past) \<Longrightarrow> seen \<in> set (db # past) \<Longrightarrow> r \<in> set (rq_rows seen)
    \<Longrightarrow> request_run cfg (reconcile_request st present state seen r item t db # db # past)"
| estimated: "request_run cfg (db # past) \<Longrightarrow> request_run cfg (refresh_estimate v r it t db # db # past)"
| aged: "request_run cfg (db # past) \<Longrightarrow> request_run cfg (age_request st present cutoff r t db # db # past)"
| advised: "request_run cfg (db # past) \<Longrightarrow> request_run cfg (advise_request r estimate t db # db # past)"
| repaired: "request_run cfg (db # past) \<Longrightarrow> request_run cfg (requeue_orphan now cutoff all_recent r t db # db # past)"
| attached: "request_run cfg (db # past) \<Longrightarrow> request_run cfg (attach_intro r clip db # db # past)"
| spliced: "request_run cfg (db # past) \<Longrightarrow> request_run cfg (claim_intro r it intro t db # db # past)"
| item_added: "request_run cfg (db # past) \<Longrightarrow> list_all (\<lambda>d. find_item d (ri_id it) = None) (db # past) \<Longrightarrow> ri_played it = None
    \<Longrightarrow> request_run cfg (db\<lparr>rq_items := rq_items db @ [it]\<rparr> # db # past)"
| item_removed: "request_run cfg (db # past) \<Longrightarrow> request_run cfg (remove_item i db # db # past)"
| item_edited: "request_run cfg (db # past)
    \<Longrightarrow> request_run cfg (set_item i (\<lambda>x. if ri_played x = None then x\<lparr>ri_track := track, ri_scheduled := at_time\<rparr> else x) db # db # past)"
| logs_changed: "request_run cfg (db # past) \<Longrightarrow> request_run cfg (db\<lparr>rq_logs := logs\<rparr> # db # past)"

section \<open>Rows of a request\<close>

definition request_ok :: "song_request \<Rightarrow> bool" where
  "request_ok r \<longleftrightarrow>
     (case rq_status r of
        Scheduled_Request \<Rightarrow> scheduled_when r \<noteq> None \<and> fulfilled_when r = None \<and> resolved_when r = None \<and> estimated_play_time r \<noteq> None
      | Fulfilled_Request \<Rightarrow> scheduled_when r \<noteq> None \<and> fulfilled_when r \<noteq> None \<and> resolved_when r = fulfilled_when r
          \<and> estimated_play_time r = fulfilled_when r
      | st \<Rightarrow> rq_item r = None \<and> scheduled_when r = None \<and> fulfilled_when r = None
          \<and> (resolved_when r \<noteq> None \<longleftrightarrow> st \<in> set TERMINAL_STATUSES) \<and> (st = Pending_Request \<or> estimated_play_time r = None))"

definition rows_ok :: "request_db \<Rightarrow> bool" where
  "rows_ok db \<longleftrightarrow> list_all request_ok (rq_rows db)"

lemmas status_defs = waiting_request_def WAITING_STATUSES_def TERMINAL_STATUSES_def ACTIVE_STATUSES_def

lemma rows_ok_update:
  assumes "rows_ok db" and "\<And>r. request_ok r \<Longrightarrow> P r \<Longrightarrow> request_ok (f r)"
  shows "rows_ok (update_where P f db)"
  using assms by (auto simp: rows_ok_def update_where_def list_all_iff)

lemma rows_ok_same: "rq_rows db' = rq_rows db \<Longrightarrow> rows_ok db' \<longleftrightarrow> rows_ok db"
  by (simp add: rows_ok_def)

lemma rows_of_simps [simp]:
  "rq_rows (set_item i f db) = rq_rows db" "rq_items (update_where P g db) = rq_items db" "rq_logs (update_where P g db) = rq_logs db"
  "rq_logs (set_item i f db) = rq_logs db"
  by (simp_all add: set_item_def update_where_def)

lemma assigned_ok: "request_ok (assigned e it r)"
  by (simp add: request_ok_def assigned_def)

lemma rows_ok_collapse: "rows_ok db \<Longrightarrow> rows_ok (collapse e it db)"
  unfolding collapse_def by (rule rows_ok_update) (simp_all add: assigned_ok)

definition swapped :: "schedule_reads \<Rightarrow> slot_item \<Rightarrow> song_request \<Rightarrow> request_db \<Rightarrow> request_db" where
  "swapped e it r db = update_where (\<lambda>q. rq_id q = rq_id r) (assigned e (it\<lparr>ri_track := rq_track r\<rparr>))
     (set_item (ri_id it) (\<lambda>x. x\<lparr>ri_track := rq_track r\<rparr>) db)"

definition room :: "schedule_reads \<Rightarrow> int \<Rightarrow> slot_item \<Rightarrow> request_db \<Rightarrow> bool" where
  "room e l it db \<longleftrightarrow> already_reserved db (ri_id it) \<or> used_slots db l < max_fulfilled_per_hour (sch_config e)"

lemma fill_slot_cases:
  assumes "fill_slot e l it db = Some (it', db')"
  obtains (full) "it' = it" "db' = db" "\<not> room e l it db"
  | (organic) "it' = it" "db' = collapse e it db" "room e l it db" "requested e it db = None"
  | (swap) r where "it' = it\<lparr>ri_track := rq_track r\<rparr>" "db' = collapse e it' (swapped e it r db)" "room e l it db"
      "requested e it db = Some r"
proof (cases "room e l it db")
  case False
  then show ?thesis using assms full by (simp add: fill_slot_def room_def)
next
  case True
  then show ?thesis
    using assms organic swap
    by (cases "requested e it db") (auto simp: fill_slot_def room_def swapped_def Let_def split: if_splits)
qed

lemma find_item_Some: "find_item db i = Some it \<Longrightarrow> it \<in> set (rq_items db) \<and> ri_id it = i"
  by (auto simp: find_item_def find_Some_iff)

lemma locked_cases:
  obtains (unchanged) "snd (schedule_locked e seen db) = db"
  | (filled) h it it' db' where "find_item db (ri_id seen) = Some it" "find_hour db (ri_log seen) = Some h" "hr_approved h"
      "ri_played it = None" "\<not> ri_claimed it" "music_slot it" "sch_slot e (ri_scheduled it) \<in> set (open_slots (sch_config e))"
      "fill_slot e (ri_log seen) it db = Some (it', db')" "schedule_locked e seen db = (Fresh_Item it', db')"
proof (cases "snd (schedule_locked e seen db) = db")
  case True
  then show ?thesis by (rule unchanged)
next
  case False
  then obtain h it where "find_hour db (ri_log seen) = Some h" "hr_approved h" "find_item db (ri_id seen) = Some it"
    "ri_played it = None" "\<not> ri_claimed it" "music_slot it" "sch_slot e (ri_scheduled it) \<in> set (open_slots (sch_config e))"
    by (auto simp: schedule_locked_def split: option.splits if_splits)
  with False show ?thesis
    using filled by (cases "fill_slot e (ri_log seen) it db") (auto simp: schedule_locked_def)
qed

lemma schedule_cases:
  obtains (unchanged) "snd (maybe_schedule_song_request e caller db) = db"
  | (locked) seen where "caller = Some seen" "requests_enabled (sch_config e)"
      "maybe_schedule_song_request e caller db = schedule_locked e seen db"
proof (cases "snd (maybe_schedule_song_request e caller db) = db")
  case True
  then show ?thesis by (rule unchanged)
next
  case False
  then obtain seen where "caller = Some seen" "requests_enabled (sch_config e)" "music_slot seen" "sch_lock e = Lock_Granted"
    by (auto simp: maybe_schedule_song_request_def split: option.splits if_splits lock_answer.splits)
  then show ?thesis using locked by (simp add: maybe_schedule_song_request_def)
qed

lemma rows_ok_swapped: "rows_ok db \<Longrightarrow> rows_ok (swapped e it r db)"
  unfolding swapped_def by (rule rows_ok_update) (simp_all add: assigned_ok rows_ok_def)

lemma rows_ok_fill:
  assumes "rows_ok db" and "fill_slot e l it db = Some (it', db')"
  shows "rows_ok db'"
  using assms(2) by (cases rule: fill_slot_cases) (simp_all add: assms(1) rows_ok_collapse rows_ok_swapped)

lemma rows_ok_schedule:
  assumes "rows_ok db"
  shows "rows_ok (snd (maybe_schedule_song_request e caller db))"
proof (cases rule: schedule_cases [of e caller db])
  case (locked seen)
  then show ?thesis by (cases rule: locked_cases [of e seen db]) (use assms rows_ok_fill in auto)
qed (simp add: assms)

lemma rows_ok_aired: "rows_ok db \<Longrightarrow> rows_ok (mark_song_requests_aired i track t db)"
  unfolding mark_song_requests_aired_def by (rule rows_ok_update) (simp_all add: request_ok_def)

lemma air_start_cases:
  obtains (none) "record_air_start i d t db = db"
  | (airs) it where "find_item db i = Some it" "ri_claimed it" "ri_track it = Some d" "ri_played it = None"
      "record_air_start i d t db = mark_song_requests_aired i (Some d) t (set_item i (\<lambda>x. x\<lparr>ri_played := Some t\<rparr>) db)"
proof (cases "\<exists>it. find_item db i = Some it \<and> ri_claimed it \<and> ri_track it = Some d \<and> ri_played it = None")
  case True
  then show ?thesis using airs by (auto simp: record_air_start_def)
next
  case False
  then show ?thesis using none by (auto simp: record_air_start_def split: option.splits)
qed

lemma rows_ok_air_start:
  assumes "rows_ok db"
  shows "rows_ok (record_air_start i d t db)"
proof (cases rule: air_start_cases [of i d t db])
  case (airs it)
  have "rows_ok (set_item i (\<lambda>x. x\<lparr>ri_played := Some t\<rparr>) db)" using assms by (simp add: rows_ok_def)
  then show ?thesis using airs(5) rows_ok_aired by simp
qed (simp add: assms)

lemma rows_ok_ingest: "rows_ok db \<Longrightarrow> rows_ok (ingest_pending_items st now items db)"
proof (induction items arbitrary: db)
  case (Cons item items)
  have "rows_ok (ingest_item st now item db)"
    using Cons.prems by (cases item) (auto simp: ingest_item_def rows_ok_def request_ok_def status_defs)
  then show ?case using Cons.IH by (simp add: ingest_pending_items_def)
qed (simp add: ingest_pending_items_def)

lemma rows_ok_remove: "rows_ok db \<Longrightarrow> rows_ok (remove_item i db)"
  by (auto simp: rows_ok_def remove_item_def list_all_iff request_ok_def split: request_status.splits)

lemma rows_ok_run: "request_run cfg dbs \<Longrightarrow> rows_ok (hd dbs)"
proof (induction rule: request_run.induct)
  case (scheduled db past e caller) then show ?case by (simp add: rows_ok_schedule)
next
  case (air_started db past i deck_track t) then show ?case by (simp add: rows_ok_air_start)
next
  case (ingested db past st now items) then show ?case by (simp add: rows_ok_ingest)
next
  case (item_removed db past i) then show ?case by (simp add: rows_ok_remove)
next
  case (healed db past seen r it t)
  then show ?case by (auto simp: heal_request_def still_assigned_def requeued_def request_ok_def status_defs intro!: rows_ok_update)
next
  case (reconciled db past seen r st present state item t)
  then show ?case
    by (auto simp: reconcile_request_def still_assigned_def requeued_def request_ok_def status_defs intro!: rows_ok_update)
next
  case (estimated db past v r it t)
  then show ?case by (auto simp: refresh_estimate_def Let_def still_assigned_def request_ok_def intro!: rows_ok_update)
next
  case (aged db past st present cutoff r t)
  then show ?case
    by (auto simp: age_request_def close_request_def still_waiting_def request_ok_def status_defs intro!: rows_ok_update)
next
  case (advised db past r estimate t)
  then show ?case
    by (auto simp: advise_request_def Let_def still_waiting_def request_ok_def status_defs intro!: rows_ok_update)
next
  case (repaired db past now cutoff all_recent r t)
  then show ?case by (auto simp: requeue_orphan_def request_ok_def status_defs intro!: rows_ok_update)
next
  case (attached db past r clip)
  then show ?case by (auto simp: attach_intro_def request_ok_def intro!: rows_ok_update split: option.splits)
next
  case (spliced db past r it intro t)
  then show ?case by (auto simp: claim_intro_def Let_def request_ok_def intro!: rows_ok_update split: option.splits)
qed (simp_all add: rows_ok_def set_item_def)

section \<open>Items and their requests\<close>

definition items_distinct :: "request_db \<Rightarrow> bool" where
  "items_distinct db \<longleftrightarrow> distinct (map ri_id (rq_items db))"

definition rows_numbered :: "request_db \<Rightarrow> bool" where
  "rows_numbered db \<longleftrightarrow> map rq_id (rq_rows db) = [0..<length (rq_rows db)]"

definition refs_ok :: "request_db \<Rightarrow> bool" where
  "refs_ok db \<longleftrightarrow> (\<forall>r\<in>set (rq_rows db). \<forall>i. rq_item r = Some i \<longrightarrow> i \<in> ri_id ` set (rq_items db))"

definition credit_ok :: "request_db \<Rightarrow> bool" where
  "credit_ok db \<longleftrightarrow> (\<forall>r\<in>set (rq_rows db). \<forall>it\<in>set (rq_items db). rq_status r = Fulfilled_Request \<longrightarrow> rq_item r = Some (ri_id it)
     \<longrightarrow> ri_played it \<noteq> None \<and> ri_track it = rq_track r)"

definition capacity_ok :: "nat \<Rightarrow> request_db \<Rightarrow> bool" where
  "capacity_ok n db \<longleftrightarrow> (\<forall>l. used_slots db l \<le> n)"

text \<open>An item that was played once stays as it was, as long as it exists; no item changes its log.\<close>

definition items_follow :: "request_db \<Rightarrow> request_db \<Rightarrow> bool" where
  "items_follow old db \<longleftrightarrow> (\<forall>it\<in>set (rq_items old). \<forall>it'\<in>set (rq_items db). ri_id it = ri_id it' \<longrightarrow>
     ri_log it = ri_log it' \<and> (ri_played it \<noteq> None \<longrightarrow> ri_played it' = ri_played it \<and> ri_track it' = ri_track it))"

definition tables_ok :: "request_db \<Rightarrow> bool" where
  "tables_ok db \<longleftrightarrow> items_distinct db \<and> rows_numbered db \<and> refs_ok db \<and> credit_ok db"

definition run_ok :: "request_config \<Rightarrow> request_db list \<Rightarrow> bool" where
  "run_ok cfg dbs \<longleftrightarrow> tables_ok (hd dbs) \<and> capacity_ok (max_fulfilled_per_hour cfg) (hd dbs)
     \<and> (\<forall>old\<in>set dbs. items_follow old (hd dbs))"

lemma find_by_key: "distinct (map f xs) \<Longrightarrow> x \<in> set xs \<Longrightarrow> List.find (\<lambda>y. f y = f x) xs = Some x"
  by (induction xs) (auto simp: image_iff)

lemma find_item_iff: "items_distinct db \<Longrightarrow> find_item db i = Some it \<longleftrightarrow> it \<in> set (rq_items db) \<and> ri_id it = i"
  using find_by_key [of ri_id "rq_items db" it] find_item_Some [of db i it] by (auto simp: items_distinct_def find_item_def)

lemma find_item_None: "find_item db i = None \<longleftrightarrow> i \<notin> ri_id ` set (rq_items db)"
  by (auto simp: find_item_def find_None_iff)

lemma item_in_log_Some:
  "item_in_log db l r = Some i \<longleftrightarrow> (rq_status r = Scheduled_Request \<or> rq_status r = Fulfilled_Request) \<and> rq_item r = Some i
     \<and> (\<exists>it. find_item db i = Some it \<and> ri_log it = l)"
  by (auto simp: item_in_log_def split: option.splits if_splits)

definition used_set :: "request_db \<Rightarrow> int \<Rightarrow> int set" where
  "used_set db l = {i. \<exists>r\<in>set (rq_rows db). item_in_log db l r = Some i}"

lemma used_slots_card: "used_slots db l = card (used_set db l)"
proof -
  have "set (List.map_filter (item_in_log db l) (rq_rows db)) = used_set db l"
    by (auto simp: used_set_def List.map_filter_def image_iff) force
  then show ?thesis by (simp add: used_slots_def length_remdups_card_conv)
qed

lemma used_set_finite [simp]: "finite (used_set db l)"
proof -
  have "used_set db l \<subseteq> (the \<circ> item_in_log db l) ` set (rq_rows db)"
    by (auto simp: used_set_def image_iff) force
  then show ?thesis by (rule finite_subset) simp
qed

lemma capacity_mono:
  assumes "capacity_ok n db" and "\<And>l. used_set db' l \<subseteq> used_set db l"
  shows "capacity_ok n db'"
  unfolding capacity_ok_def
proof
  fix l
  have "used_slots db' l \<le> used_slots db l" unfolding used_slots_card by (rule card_mono) (use assms(2) in simp_all)
  also have "\<dots> \<le> n" using assms(1) by (simp add: capacity_ok_def)
  finally show "used_slots db' l \<le> n" .
qed

subsection \<open>Updates of requests\<close>

lemma update_rows: "r' \<in> set (rq_rows (update_where P f db)) \<longleftrightarrow> (\<exists>r\<in>set (rq_rows db). r' = (if P r then f r else r))"
  by (auto simp: update_where_def)

lemma find_item_update [simp]: "find_item (update_where P f db) = find_item db"
  by (simp add: find_item_def fun_eq_iff)

lemma tables_ok_update:
  assumes "tables_ok db" and "\<And>r. rq_id (f r) = rq_id r"
    and "\<And>r i. r \<in> set (rq_rows db) \<Longrightarrow> P r \<Longrightarrow> rq_item (f r) = Some i \<Longrightarrow> rq_item r = Some i \<or> i \<in> ri_id ` set (rq_items db)"
    and "\<And>r it. r \<in> set (rq_rows db) \<Longrightarrow> P r \<Longrightarrow> it \<in> set (rq_items db) \<Longrightarrow> rq_item (f r) = Some (ri_id it)
      \<Longrightarrow> rq_status (f r) = Fulfilled_Request \<Longrightarrow> ri_played it \<noteq> None \<and> ri_track it = rq_track (f r)"
  shows "tables_ok (update_where P f db)"
proof -
  have "map rq_id (rq_rows (update_where P f db)) = map rq_id (rq_rows db)" using assms(2) by (simp add: update_where_def)
  moreover have "length (rq_rows (update_where P f db)) = length (rq_rows db)" by (simp add: update_where_def)
  ultimately have "rows_numbered (update_where P f db)" using assms(1) unfolding tables_ok_def rows_numbered_def by simp
  moreover have "refs_ok (update_where P f db)"
    unfolding refs_ok_def
  proof (intro ballI allI impI)
    fix r' i assume "r' \<in> set (rq_rows (update_where P f db))" "rq_item r' = Some i"
    then obtain r where r: "r \<in> set (rq_rows db)" "r' = (if P r then f r else r)" by (auto simp: update_rows)
    then show "i \<in> ri_id ` set (rq_items (update_where P f db))"
      using assms(1) assms(3) [of r i] \<open>rq_item r' = Some i\<close> by (cases "P r") (auto simp: tables_ok_def refs_ok_def)
  qed
  moreover have "credit_ok (update_where P f db)"
    unfolding credit_ok_def
  proof (intro ballI impI)
    fix r' it assume a: "r' \<in> set (rq_rows (update_where P f db))" "it \<in> set (rq_items (update_where P f db))"
      "rq_status r' = Fulfilled_Request" "rq_item r' = Some (ri_id it)"
    then obtain r where r: "r \<in> set (rq_rows db)" "r' = (if P r then f r else r)" by (auto simp: update_rows)
    then show "ri_played it \<noteq> None \<and> ri_track it = rq_track r'"
      using assms(1,4) a by (cases "P r") (auto simp: tables_ok_def credit_ok_def)
  qed
  ultimately show ?thesis using assms(1) by (simp add: tables_ok_def items_distinct_def)
qed

lemma run_ok_update:
  assumes run: "run_ok cfg (db # past)" and "\<And>r. rq_id (f r) = rq_id r"
    and item: "\<And>r i. P r \<Longrightarrow> rq_item (f r) = Some i \<Longrightarrow> rq_item r = Some i"
    and live: "\<And>r i. P r \<Longrightarrow> rq_item (f r) = Some i \<Longrightarrow> rq_status (f r) = Scheduled_Request \<or> rq_status (f r) = Fulfilled_Request
      \<Longrightarrow> rq_status r = Scheduled_Request \<or> rq_status r = Fulfilled_Request"
    and "\<And>r it. r \<in> set (rq_rows db) \<Longrightarrow> P r \<Longrightarrow> it \<in> set (rq_items db) \<Longrightarrow> rq_item (f r) = Some (ri_id it)
      \<Longrightarrow> rq_status (f r) = Fulfilled_Request \<Longrightarrow> ri_played it \<noteq> None \<and> ri_track it = rq_track (f r)"
  shows "run_ok cfg (update_where P f db # db # past)"
proof -
  have "tables_ok (update_where P f db)" using assms by (intro tables_ok_update) (auto simp: run_ok_def)
  moreover have "used_set (update_where P f db) l \<subseteq> used_set db l" for l
  proof
    fix i assume "i \<in> used_set (update_where P f db) l"
    then obtain r' where "r' \<in> set (rq_rows (update_where P f db))" "item_in_log (update_where P f db) l r' = Some i"
      by (auto simp: used_set_def)
    then obtain r where r: "r \<in> set (rq_rows db)" "item_in_log (update_where P f db) l (if P r then f r else r) = Some i"
      by (auto simp: update_rows)
    then have "item_in_log db l r = Some i"
      using item live by (cases "P r") (auto simp: item_in_log_Some)
    then show "i \<in> used_set db l" using r(1) by (auto simp: used_set_def)
  qed
  then have "capacity_ok (max_fulfilled_per_hour cfg) (update_where P f db)"
    using run capacity_mono [of "max_fulfilled_per_hour cfg" db] by (simp add: run_ok_def)
  moreover have "items_follow old (update_where P f db) \<longleftrightarrow> items_follow old db"
    "items_follow (update_where P f db) d \<longleftrightarrow> items_follow db d" for old d
    by (simp_all add: items_follow_def)
  ultimately show ?thesis using run by (auto simp: run_ok_def)
qed

subsection \<open>Updates of items\<close>

definition gentle :: "(slot_item \<Rightarrow> slot_item) \<Rightarrow> bool" where
  "gentle f \<longleftrightarrow> (\<forall>x. ri_id (f x) = ri_id x \<and> ri_log (f x) = ri_log x
     \<and> (ri_played x \<noteq> None \<longrightarrow> ri_played (f x) = ri_played x \<and> ri_track (f x) = ri_track x))"

lemma set_items: "set (rq_items (set_item i f db)) = (\<lambda>x. if ri_id x = i then f x else x) ` set (rq_items db)"
  by (simp add: set_item_def)

lemma ids_set_item: "gentle f \<Longrightarrow> map ri_id (rq_items (set_item i f db)) = map ri_id (rq_items db)"
  by (simp add: set_item_def gentle_def)

lemma tables_ok_set_item:
  assumes "tables_ok db" and "gentle f"
  shows "tables_ok (set_item i f db)"
proof -
  have ids: "ri_id ` set (rq_items (set_item i f db)) = ri_id ` set (rq_items db)"
    using ids_set_item [OF assms(2), of i db] by (metis set_map)
  have "credit_ok (set_item i f db)"
    using assms by (auto simp: credit_ok_def tables_ok_def set_items gentle_def split: if_splits)
  then show ?thesis
    using assms ids ids_set_item [OF assms(2), of i db] by (simp add: tables_ok_def items_distinct_def rows_numbered_def refs_ok_def)
qed

lemma follow_set_item: "items_follow old db \<Longrightarrow> gentle f \<Longrightarrow> items_follow old (set_item i f db)"
  unfolding items_follow_def set_items gentle_def by (auto split: if_splits)

lemma used_set_item:
  assumes "items_distinct db" and "gentle f"
  shows "used_set (set_item i f db) l = used_set db l"
proof -
  have distinct: "items_distinct (set_item i f db)" using assms ids_set_item [OF assms(2), of i db] by (simp add: items_distinct_def)
  have "(\<exists>it. find_item (set_item i f db) j = Some it \<and> ri_log it = l) \<longleftrightarrow> (\<exists>it. find_item db j = Some it \<and> ri_log it = l)" for j
    using assms(2) by (auto simp: find_item_iff [OF assms(1)] find_item_iff [OF distinct] set_items gentle_def split: if_splits)
  then show ?thesis by (simp add: used_set_def item_in_log_Some)
qed

lemma follow_refl: "items_distinct db \<Longrightarrow> items_follow db db"
  by (auto simp: items_follow_def items_distinct_def distinct_map inj_on_def)

lemma run_ok_set_item:
  assumes "run_ok cfg (db # past)" and "gentle f"
  shows "run_ok cfg (set_item i f db # db # past)"
proof -
  have db: "tables_ok (set_item i f db)" "items_distinct db"
    using assms tables_ok_set_item by (auto simp: run_ok_def tables_ok_def)
  then have "capacity_ok (max_fulfilled_per_hour cfg) (set_item i f db)"
    using assms by (simp add: run_ok_def capacity_ok_def used_slots_card used_set_item)
  moreover have "items_follow (set_item i f db) (set_item i f db)" using db(1) follow_refl by (simp add: tables_ok_def)
  ultimately show ?thesis using assms db(1) follow_set_item by (auto simp: run_ok_def)
qed

subsection \<open>Scheduling\<close>

lemma tables_ok_assigned:
  assumes "tables_ok db" and "ri_id it \<in> ri_id ` set (rq_items db)"
  shows "tables_ok (update_where P (assigned e it) db)"
  by (rule tables_ok_update [OF assms(1)]) (use assms(2) in \<open>auto simp: assigned_def\<close>)

lemma used_assigned:
  assumes "find_item db (ri_id it) = Some x"
  shows "used_set (update_where P (assigned e it) db) k \<subseteq> used_set db k \<union> (if ri_log x = k then {ri_id it} else {})"
proof
  fix i assume "i \<in> used_set (update_where P (assigned e it) db) k"
  then obtain r where r: "r \<in> set (rq_rows db)" "item_in_log db k (if P r then assigned e it r else r) = Some i"
    by (auto simp: used_set_def update_rows item_in_log_Some)
  show "i \<in> used_set db k \<union> (if ri_log x = k then {ri_id it} else {})"
  proof (cases "P r")
    case True
    then show ?thesis using r assms by (auto simp: item_in_log_Some assigned_def)
  next
    case False
    then show ?thesis using r by (auto simp: used_set_def)
  qed
qed

lemma gentle_track: "ri_played it = None \<Longrightarrow> gentle (\<lambda>x. if ri_played x = None then x\<lparr>ri_track := t\<rparr> else x)"
  by (simp add: gentle_def)

lemma set_item_cong:
  assumes "items_distinct db" and "find_item db i = Some it" and "f it = g it"
  shows "set_item i f db = set_item i g db"
proof -
  have "f x = g x" if "x \<in> set (rq_items db)" "ri_id x = i" for x
    using that assms find_item_iff [OF assms(1), of i x] by auto
  then show ?thesis by (simp add: set_item_def)
qed

lemma fill_frame:
  assumes db: "tables_ok db" and it: "find_item db (ri_id it) = Some it" "ri_played it = None"
    and fill: "fill_slot e l it db = Some (it', db')"
  shows "tables_ok db' \<and> (\<forall>old. items_follow old db \<longrightarrow> items_follow old db')
    \<and> (\<forall>k. used_set db' k \<subseteq> used_set db k \<union> (if room e l it db \<and> ri_log it = k then {ri_id it} else {}))"
proof -
  have here: "ri_id it \<in> ri_id ` set (rq_items db)" using find_item_Some [OF it(1)] by blast
  show ?thesis
    using fill
  proof (cases rule: fill_slot_cases)
    case full
    then show ?thesis using db by auto
  next
    case organic
    have "items_follow old (collapse e it db) = items_follow old db" for old by (simp add: items_follow_def collapse_def)
    then show ?thesis
      using tables_ok_assigned [OF db here] used_assigned [OF it(1)] organic by (simp add: collapse_def)
  next
    case (swap r)
    let ?f = "\<lambda>x. if ri_played x = None then x\<lparr>ri_track := rq_track r\<rparr> else x" and ?it = "it\<lparr>ri_track := rq_track r\<rparr>"
    let ?db1 = "set_item (ri_id it) ?f db"
    let ?db2 = "update_where (\<lambda>q. rq_id q = rq_id r) (assigned e ?it) ?db1"
    have distinct: "items_distinct db" using db by (simp add: tables_ok_def)
    have same: "swapped e it r db = ?db2"
      using set_item_cong [OF distinct it(1), of "\<lambda>x. x\<lparr>ri_track := rq_track r\<rparr>" ?f] it(2) by (simp add: swapped_def)
    have gentle: "gentle ?f" using gentle_track [OF it(2)] .
    have db1: "tables_ok ?db1" using tables_ok_set_item [OF db gentle] .
    then have distinct1: "items_distinct ?db1" by (simp add: tables_ok_def)
    have found: "find_item ?db1 (ri_id it) = Some ?it"
      using it find_item_Some [OF it(1)] by (auto simp: find_item_iff [OF distinct1] set_items image_iff)
    have here1: "ri_id ?it \<in> ri_id ` set (rq_items ?db1)" by (rule imageI [OF conjunct1 [OF find_item_Some [OF found]]])
    have db2: "tables_ok ?db2" by (rule tables_ok_assigned [OF db1 here1])
    have "tables_ok db'" using tables_ok_assigned [OF db2, of ?it] here1 swap same by (simp add: collapse_def)
    moreover have "items_follow old db'" if "items_follow old db" for old
      using follow_set_item [OF that gentle] swap same by (simp add: items_follow_def collapse_def)
    moreover have "used_set db' k \<subseteq> used_set db k \<union> (if ri_log it = k then {ri_id it} else {})" for k
    proof -
      have "used_set ?db2 k \<subseteq> used_set db k \<union> (if ri_log it = k then {ri_id it} else {})"
        using used_assigned [of ?db1 ?it ?it "\<lambda>q. rq_id q = rq_id r" e k] found used_set_item [OF distinct gentle, of "ri_id it" k]
        by (auto split: if_splits)
      moreover have "used_set db' k \<subseteq> used_set ?db2 k \<union> (if ri_log it = k then {ri_id it} else {})"
        using used_assigned [of ?db2 ?it ?it "\<lambda>q. waiting_request q \<and> rq_track q = ri_track it' \<and> rq_id q \<notin> locked_collapse e" e k]
          found swap same by (auto simp: collapse_def split: if_splits)
      ultimately show ?thesis by blast
    qed
    ultimately show ?thesis using swap(3) by auto
  qed
qed

lemma capacity_fill:
  assumes "capacity_ok n db" and "n = max_fulfilled_per_hour (sch_config e)" and it: "find_item db (ri_id it) = Some it"
    and sub: "\<And>k. used_set db' k \<subseteq> used_set db k \<union> (if room e (ri_log it) it db \<and> ri_log it = k then {ri_id it} else {})"
  shows "capacity_ok n db'"
  unfolding capacity_ok_def
proof
  fix k
  show "used_slots db' k \<le> n"
  proof (cases "room e (ri_log it) it db \<and> ri_log it = k \<and> ri_id it \<notin> used_set db k")
    case True
    then have "\<not> already_reserved db (ri_id it)"
      using it by (auto simp: already_reserved_def list_ex_iff used_set_def item_in_log_Some)
    then have "used_slots db k < n" using True assms(2) by (auto simp: room_def)
    moreover have "card (used_set db' k) \<le> card (insert (ri_id it) (used_set db k))"
      using sub [of k] True by (intro card_mono) auto
    moreover have "card (insert (ri_id it) (used_set db k)) = Suc (card (used_set db k))" using True by simp
    ultimately show ?thesis by (simp add: used_slots_card)
  next
    case False
    then have "used_set db' k \<subseteq> used_set db k" using sub [of k] by (auto split: if_splits)
    then have "used_slots db' k \<le> used_slots db k" by (simp add: used_slots_card card_mono)
    then show ?thesis using assms(1) by (auto simp: capacity_ok_def intro: order_trans)
  qed
qed

lemma run_ok_stay: "run_ok cfg (db # past) \<Longrightarrow> run_ok cfg (db # db # past)"
  by (simp add: run_ok_def)

lemma run_ok_schedule:
  assumes run: "run_ok cfg (db # past)" and cfg: "sch_config e = cfg"
    and seen: "\<exists>d\<in>set (db # past). \<exists>it\<in>set (rq_items d). caller = Some it"
  shows "run_ok cfg (snd (maybe_schedule_song_request e caller db) # db # past)"
proof (cases rule: schedule_cases [of e caller db])
  case unchanged
  then show ?thesis using run_ok_stay [OF run] by simp
next
  case (locked seen)
  show ?thesis
  proof (cases rule: locked_cases [of e seen db])
    case unchanged
    then show ?thesis using run_ok_stay [OF run] locked by simp
  next
    case (filled h it it' db')
    have db: "tables_ok db" using run by (simp add: run_ok_def)
    have item: "it \<in> set (rq_items db)" "ri_id it = ri_id seen" using find_item_Some [OF filled(1)] by simp_all
    obtain d where "d \<in> set (db # past)" "seen \<in> set (rq_items d)" using assms(3) locked(1) by auto
    moreover from this have "items_follow d db" using run by (auto simp: run_ok_def)
    ultimately have "ri_log seen = ri_log it" using item unfolding items_follow_def by metis
    then have fill: "fill_slot e (ri_log it) it db = Some (it', db')" using filled by simp
    have found: "find_item db (ri_id it) = Some it" using filled item by simp
    note frame = fill_frame [OF db found filled(4) fill]
    have "capacity_ok (max_fulfilled_per_hour cfg) db'"
    proof (rule capacity_fill [OF _ _ found])
      show "capacity_ok (max_fulfilled_per_hour cfg) db" using run by (simp add: run_ok_def)
      show "max_fulfilled_per_hour cfg = max_fulfilled_per_hour (sch_config e)" using cfg by simp
      show "used_set db' k \<subseteq> used_set db k \<union> (if room e (ri_log it) it db \<and> ri_log it = k then {ri_id it} else {})" for k
        using frame by blast
    qed
    moreover have "tables_ok db'" using frame by blast
    moreover have "items_follow old db'" if "old \<in> set (db # past)" for old using frame run that by (auto simp: run_ok_def)
    moreover have "items_follow db' db'" using \<open>tables_ok db'\<close> follow_refl by (simp add: tables_ok_def)
    moreover have "snd (maybe_schedule_song_request e caller db) = db'" using filled locked by simp
    ultimately show ?thesis by (simp add: run_ok_def)
  qed
qed

subsection \<open>The other steps\<close>

lemma gentle_claim: "gentle (\<lambda>x. x\<lparr>ri_claimed := c\<rparr>)"
  by (simp add: gentle_def)

lemma gentle_edit: "gentle (\<lambda>x. if ri_played x = None then x\<lparr>ri_track := track, ri_scheduled := at_time\<rparr> else x)"
  by (simp add: gentle_def)

lemma gentle_play: "gentle (\<lambda>x. if ri_played x = None then x\<lparr>ri_played := Some t\<rparr> else x)"
  by (simp add: gentle_def)

lemma run_ok_same_rows:
  assumes "run_ok cfg (db # past)" and "rq_rows db' = rq_rows db" and "rq_items db' = rq_items db"
  shows "run_ok cfg (db' # db # past)"
proof -
  have "find_item db' = find_item db" using assms(3) by (simp add: find_item_def fun_eq_iff)
  then have "used_set db' l = used_set db l" for l using assms(2) by (simp add: used_set_def item_in_log_Some)
  then have "capacity_ok (max_fulfilled_per_hour cfg) db'" using assms(1) by (simp add: run_ok_def capacity_ok_def used_slots_card)
  moreover have "tables_ok db' \<longleftrightarrow> tables_ok db"
    by (simp add: assms(2,3) tables_ok_def items_distinct_def rows_numbered_def refs_ok_def credit_ok_def)
  moreover have "items_follow old db' \<longleftrightarrow> items_follow old db" "items_follow db' d \<longleftrightarrow> items_follow db d" for old d
    by (simp_all add: items_follow_def assms(3))
  ultimately show ?thesis using assms(1) by (auto simp: run_ok_def)
qed

lemma run_ok_air_start:
  assumes run: "run_ok cfg (db # past)"
  shows "run_ok cfg (record_air_start i d t db # db # past)"
proof (cases rule: air_start_cases [of i d t db])
  case none
  then show ?thesis using run_ok_stay [OF run] by simp
next
  case (airs it)
  let ?f = "\<lambda>x. if ri_played x = None then x\<lparr>ri_played := Some t\<rparr> else x"
  let ?db1 = "set_item i ?f db"
  have distinct: "items_distinct db" using run by (simp add: run_ok_def tables_ok_def)
  have same: "set_item i (\<lambda>x. x\<lparr>ri_played := Some t\<rparr>) db = ?db1"
    using set_item_cong [OF distinct airs(1), of "\<lambda>x. x\<lparr>ri_played := Some t\<rparr>" ?f] airs(4) by simp
  have run1: "run_ok cfg (?db1 # db # past)" by (rule run_ok_set_item [OF run gentle_play])
  have aired: "ri_played x \<noteq> None \<and> ri_track x = Some d" if "x \<in> set (rq_items ?db1)" "ri_id x = i" for x
  proof -
    note here = that
    obtain y where y: "y \<in> set (rq_items db)" "x = (if ri_id y = i then ?f y else y)"
      using here(1) unfolding set_items by blast
    then have "ri_id y = i" using here(2) by (simp split: if_splits)
    then have "y = it" using y(1) airs(1) find_item_iff [OF distinct, of i y] by simp
    then show ?thesis using y(2) airs \<open>ri_id y = i\<close> by simp
  qed
  have "run_ok cfg (mark_song_requests_aired i (Some d) t ?db1 # ?db1 # db # past)"
    unfolding mark_song_requests_aired_def by (rule run_ok_update [OF run1]) (use aired in auto)
  then show ?thesis using airs(5) same by (auto simp: run_ok_def)
qed

lemma run_ok_heal:
  assumes run: "run_ok cfg (db # past)" and old: "seen \<in> set (db # past)"
    and item: "Option.bind (rq_item r) (find_item seen) = Some it" and played: "ri_played it \<noteq> None"
  shows "run_ok cfg (heal_request r it t db # db # past)"
proof -
  have it: "it \<in> set (rq_items seen)" "rq_item r = Some (ri_id it)"
    using item find_item_Some by (auto simp: bind_eq_Some_conv)
  have same: "ri_played x \<noteq> None \<and> ri_track x = ri_track it" if "x \<in> set (rq_items db)" "ri_id x = ri_id it" for x
  proof -
    have "items_follow seen db" using run old by (auto simp: run_ok_def)
    then show ?thesis using that it(1) played by (auto simp: items_follow_def)
  qed
  show ?thesis
  proof (cases "ri_track it = rq_track r")
    case True
    then show ?thesis
      unfolding heal_request_def if_P [OF True]
      by (intro run_ok_update [OF run]) (use same it(2) in \<open>simp_all add: still_assigned_def\<close>)
  next
    case False
    then show ?thesis
      unfolding heal_request_def if_not_P [OF False]
      by (intro run_ok_update [OF run]) (simp_all add: requeued_def)
  qed
qed

lemma run_ok_reconcile:
  "run_ok cfg (db # past) \<Longrightarrow> run_ok cfg (reconcile_request st present state seen r item t db # db # past)"
  by (auto simp: reconcile_request_def still_assigned_def requeued_def intro!: run_ok_update intro: run_ok_stay)

lemma run_ok_estimate: "run_ok cfg (db # past) \<Longrightarrow> run_ok cfg (refresh_estimate v r it t db # db # past)"
  by (auto simp: refresh_estimate_def Let_def still_assigned_def intro!: run_ok_update intro: run_ok_stay)

text \<open>A waiting request points to no item.\<close>

lemma waiting_free: "rows_ok db \<Longrightarrow> q \<in> set (rq_rows db) \<Longrightarrow> waiting_request q \<Longrightarrow> rq_item q = None"
  by (auto simp: rows_ok_def list_all_iff request_ok_def status_defs split: request_status.splits)

lemma run_ok_close: "run_ok cfg (db # past) \<Longrightarrow> st = Unavailable_Request \<or> st = Expired_Request
    \<Longrightarrow> run_ok cfg (close_request st r t db # db # past)"
  by (auto simp: close_request_def still_waiting_def intro!: run_ok_update)

lemma run_ok_age: "run_ok cfg (db # past) \<Longrightarrow> run_ok cfg (age_request st present cutoff r t db # db # past)"
  by (auto simp: age_request_def run_ok_close run_ok_stay)

lemma run_ok_advise: "run_ok cfg (db # past) \<Longrightarrow> run_ok cfg (advise_request r estimate t db # db # past)"
  by (auto simp: advise_request_def Let_def still_waiting_def intro!: run_ok_update intro: run_ok_stay)

lemma run_ok_orphan: "run_ok cfg (db # past) \<Longrightarrow> run_ok cfg (requeue_orphan now cutoff all_recent r t db # db # past)"
  by (auto simp: requeue_orphan_def intro!: run_ok_update intro: run_ok_stay)

lemma run_ok_attach:
  assumes "run_ok cfg (db # past)"
  shows "run_ok cfg (attach_intro r clip db # db # past)"
  using assms by (auto simp: attach_intro_def intro!: run_ok_update intro: run_ok_stay split: option.splits)

lemma run_ok_claim:
  assumes "run_ok cfg (db # past)"
  shows "run_ok cfg (claim_intro r it intro t db # db # past)"
  using assms by (auto simp: claim_intro_def Let_def intro!: run_ok_update intro: run_ok_stay split: option.splits)

lemma run_ok_ingest_item:
  assumes "run_ok cfg (db # past)"
  shows "run_ok cfg (ingest_item st now item db # past)"
proof -
  obtain ext track at_time where item: "item = (ext, track, at_time)" by (cases item)
  have find: "find_item (ingest_item st now item db) = find_item db" for i
    by (simp add: find_item_def fun_eq_iff ingest_item_def item)
  have items: "rq_items (ingest_item st now item db) = rq_items db" by (simp add: ingest_item_def item)
  obtain new where rows: "rq_rows (ingest_item st now item db) = rq_rows db @ new"
    and new: "new = [] \<or> (\<exists>r. new = [r] \<and> rq_id r = length (rq_rows db) \<and> rq_item r = None)"
    by (cases "list_ex (\<lambda>r. external_request_id r = ext) (rq_rows db)") (simp_all add: ingest_item_def item)
  have "used_set (ingest_item st now item db) l = used_set db l" for l
    using new by (auto simp: used_set_def item_in_log_Some rows find)
  then have "capacity_ok (max_fulfilled_per_hour cfg) (ingest_item st now item db)"
    using assms by (simp add: run_ok_def capacity_ok_def used_slots_card)
  moreover have "tables_ok (ingest_item st now item db)"
    using assms new by (auto simp: run_ok_def tables_ok_def items_distinct_def rows_numbered_def refs_ok_def credit_ok_def rows items)
  moreover have "items_follow old (ingest_item st now item db) \<longleftrightarrow> items_follow old db"
    "items_follow (ingest_item st now item db) d \<longleftrightarrow> items_follow db d" for old d
    by (simp_all add: items_follow_def items)
  ultimately show ?thesis using assms by (auto simp: run_ok_def)
qed

lemma run_ok_ingest:
  "run_ok cfg (db # past) \<Longrightarrow> run_ok cfg (ingest_pending_items st now items db # past)"
proof (induction items arbitrary: db)
  case (Cons item items)
  then show ?case using run_ok_ingest_item [OF Cons.prems] by (simp add: ingest_pending_items_def)
qed (simp add: ingest_pending_items_def)

lemma run_ok_add:
  assumes run: "run_ok cfg (db # past)" and fresh: "list_all (\<lambda>d. find_item d (ri_id it) = None) (db # past)"
    and unplayed: "ri_played it = None"
  shows "run_ok cfg (db\<lparr>rq_items := rq_items db @ [it]\<rparr> # db # past)"
proof -
  let ?db' = "db\<lparr>rq_items := rq_items db @ [it]\<rparr>"
  have state: "tables_ok db" using run by (simp add: run_ok_def)
  have new: "ri_id it \<notin> ri_id ` set (rq_items d)" if "d \<in> set (db # past)" for d
    using fresh that by (auto simp: list_all_iff find_item_None)
  have free: "rq_item r \<noteq> Some (ri_id it)" if "r \<in> set (rq_rows db)" for r
    using state new [of db] that by (auto simp: tables_ok_def refs_ok_def)
  have state': "tables_ok ?db'"
    using state new [of db] free by (auto simp: tables_ok_def items_distinct_def rows_numbered_def refs_ok_def credit_ok_def)
  have "used_set ?db' l \<subseteq> used_set db l" for l
  proof
    fix i assume "i \<in> used_set ?db' l"
    then obtain r x where r: "r \<in> set (rq_rows db)" "rq_status r = Scheduled_Request \<or> rq_status r = Fulfilled_Request"
      "rq_item r = Some i" "find_item ?db' i = Some x" "ri_log x = l"
      by (auto simp: used_set_def item_in_log_Some)
    moreover have "find_item db i = Some x"
      using r(3,4) free [OF r(1)] find_item_Some [OF r(4)] state by (auto simp: find_item_iff tables_ok_def)
    ultimately show "i \<in> used_set db l" by (auto simp: used_set_def item_in_log_Some)
  qed
  then have "capacity_ok (max_fulfilled_per_hour cfg) ?db'"
    using run capacity_mono [of "max_fulfilled_per_hour cfg" db] by (simp add: run_ok_def)
  moreover have "items_follow old ?db'" if old: "old \<in> set (db # past)" for old
  proof -
    have "items_follow old db" using run old by (auto simp: run_ok_def)
    then show ?thesis using new [OF old] unfolding items_follow_def by (auto simp: image_iff)
  qed
  moreover have "items_follow ?db' ?db'" using state' follow_refl by (simp add: tables_ok_def)
  ultimately show ?thesis using state' by (simp add: run_ok_def)
qed

lemma run_ok_remove:
  assumes run: "run_ok cfg (db # past)"
  shows "run_ok cfg (remove_item i db # db # past)"
proof -
  have state: "tables_ok db" using run by (simp add: run_ok_def)
  have state': "tables_ok (remove_item i db)"
    using state by (auto simp: tables_ok_def items_distinct_def rows_numbered_def refs_ok_def credit_ok_def remove_item_def
      distinct_map inj_on_def comp_def split: if_splits) (force simp: image_iff)
  have "used_set (remove_item i db) l \<subseteq> used_set db l" for l
  proof
    fix j assume "j \<in> used_set (remove_item i db) l"
    then obtain r x where r: "r \<in> set (rq_rows db)" "rq_status r = Scheduled_Request \<or> rq_status r = Fulfilled_Request"
      "rq_item r = Some j" "find_item (remove_item i db) j = Some x" "ri_log x = l"
      by (auto simp: used_set_def item_in_log_Some remove_item_def split: if_splits)
    moreover have "find_item db j = Some x"
      using find_item_Some [OF r(4)] state by (auto simp: find_item_iff tables_ok_def remove_item_def)
    ultimately show "j \<in> used_set db l" by (auto simp: used_set_def item_in_log_Some)
  qed
  then have "capacity_ok (max_fulfilled_per_hour cfg) (remove_item i db)"
    using run capacity_mono [of "max_fulfilled_per_hour cfg" db] by (simp add: run_ok_def)
  moreover have "items_follow old (remove_item i db)" if old: "old \<in> set (db # past)" for old
  proof -
    have "items_follow old db" using run old by (auto simp: run_ok_def)
    then show ?thesis unfolding items_follow_def by (auto simp: remove_item_def)
  qed
  moreover have "items_follow (remove_item i db) (remove_item i db)" using state' follow_refl by (simp add: tables_ok_def)
  ultimately show ?thesis using state' by (simp add: run_ok_def)
qed

lemma run_ok_reached: "request_run cfg dbs \<Longrightarrow> run_ok cfg dbs"
proof (induction rule: request_run.induct)
  case opened
  then show ?case
    by (simp add: run_ok_def tables_ok_def items_distinct_def rows_numbered_def refs_ok_def credit_ok_def capacity_ok_def
      used_slots_def items_follow_def List.map_filter_def)
next
  case (ingested db past st now items)
  then have "run_ok cfg (ingest_pending_items st now items db # db # past)" using run_ok_ingest run_ok_stay by blast
  then show ?case .
qed (simp_all add: run_ok_schedule run_ok_set_item gentle_claim gentle_edit run_ok_air_start run_ok_heal run_ok_reconcile
  run_ok_estimate run_ok_age run_ok_advise run_ok_orphan run_ok_attach run_ok_claim run_ok_add run_ok_remove run_ok_same_rows)

section \<open>The refresh command is such a history\<close>

definition later :: "request_config \<Rightarrow> request_db list \<Rightarrow> request_db \<Rightarrow> bool" where
  "later cfg old d \<longleftrightarrow> (\<exists>past mid. request_run cfg (d # past) \<and> d # past = mid @ old)"

lemma later_refl: "request_run cfg (db # past) \<Longrightarrow> later cfg (db # past) db"
  unfolding later_def by (metis append_Nil)

lemma later_step:
  assumes "later cfg old d" and "\<And>past. request_run cfg (d # past) \<Longrightarrow> set old \<subseteq> set (d # past) \<Longrightarrow> request_run cfg (d' # d # past)"
  shows "later cfg old d'"
proof -
  obtain past mid where h: "request_run cfg (d # past)" "d # past = mid @ old" using assms(1) by (auto simp: later_def)
  then have "set old \<subseteq> set (d # past)" by simp
  then have "request_run cfg (d' # d # past)" using h(1) assms(2) by blast
  moreover have "d' # d # past = (d' # mid) @ old" using h(2) by simp
  ultimately show ?thesis unfolding later_def by blast
qed

lemma later_trans:
  assumes "later cfg old db" and "\<And>past. request_run cfg (db # past) \<Longrightarrow> later cfg (db # past) d"
  shows "later cfg old d"
proof -
  obtain past mid where h: "request_run cfg (db # past)" "db # past = mid @ old" using assms(1) by (auto simp: later_def)
  obtain past' mid' where "request_run cfg (d # past')" "d # past' = mid' @ db # past"
    using assms(2) [OF h(1)] unfolding later_def by blast
  moreover from this have "d # past' = (mid' @ mid) @ old" using h(2) by simp
  ultimately show ?thesis unfolding later_def by blast
qed

lemma later_fold:
  assumes "later cfg old d" and "\<And>x d. x \<in> set xs \<Longrightarrow> later cfg old d \<Longrightarrow> later cfg old (f x d)"
  shows "later cfg old (fold f xs d)"
  using assms by (induction xs arbitrary: d) simp_all

lemma pairs_read:
  "(r, item) \<in> set (scheduled_pairs db) \<Longrightarrow> r \<in> set (rq_rows db) \<and> rq_status r = Scheduled_Request \<and> item = Option.bind (rq_item r) (find_item db)"
  by (auto simp: scheduled_pairs_def)

lemma heal_pass_run:
  assumes "request_run cfg (db # past)"
  shows "later cfg (db # past) (heal_pass e db)"
  unfolding heal_pass_def
proof (rule later_fold [OF later_refl [OF assms]])
  fix x d assume x: "x \<in> set (scheduled_pairs db)" and d: "later cfg (db # past) d"
  obtain r item where rx: "x = (r, item)" by (cases x)
  have seen: "r \<in> set (rq_rows db)" "rq_status r = Scheduled_Request" "item = Option.bind (rq_item r) (find_item db)"
    using pairs_read x rx by auto
  show "later cfg (db # past) ((case x of (r, item) \<Rightarrow> case item of None \<Rightarrow> id
     | Some it \<Rightarrow> if ri_played it \<noteq> None then heal_request r it (ref_clock e 0 (rq_id r)) else id) d)"
  proof (cases "\<exists>it. item = Some it \<and> ri_played it \<noteq> None")
    case True
    then obtain it where it: "item = Some it" "ri_played it \<noteq> None" by blast
    have "later cfg (db # past) (heal_request r it (ref_clock e 0 (rq_id r)) d)"
      by (rule later_step [OF d], rule request_run.healed) (use seen it in auto)
    then show ?thesis using it rx by simp
  next
    case False
    then show ?thesis using d rx by (auto split: option.splits)
  qed
qed

lemma reconcile_pass_run:
  assumes "request_run cfg (db # past)"
  shows "later cfg (db # past) (reconcile_pass e db)"
  unfolding reconcile_pass_def
proof (rule later_fold [OF later_refl [OF assms]])
  fix x d assume x: "x \<in> set (scheduled_pairs db)" and d: "later cfg (db # past) d"
  obtain r item where rx: "x = (r, item)" by (cases x)
  have "later cfg (db # past) (reconcile_request (ref_station e) (ref_present e) (ref_state e) db r item (ref_clock e 1 (rq_id r)) d)"
    by (rule later_step [OF d], rule request_run.reconciled) (use pairs_read x rx in auto)
  then show "later cfg (db # past) ((case x of (r, item) \<Rightarrow> if (case item of None \<Rightarrow> True | Some it \<Rightarrow> ri_played it = None)
     then reconcile_request (ref_station e) (ref_present e) (ref_state e) db r item (ref_clock e 1 (rq_id r)) else id) d)"
    using d rx by simp
qed

lemma estimate_pass_run:
  assumes "request_run cfg (db # past)"
  shows "later cfg (db # past) (estimate_pass e db)"
  unfolding estimate_pass_def
proof (rule later_fold [OF later_refl [OF assms]])
  fix x d assume d: "later cfg (db # past) d"
  have "later cfg (db # past) (refresh_estimate v r it t d)" for v r it t
    by (rule later_step [OF d], rule request_run.estimated)
  then show "later cfg (db # past) ((case x of (r, item) \<Rightarrow> case item of None \<Rightarrow> id
     | Some it \<Rightarrow> if ri_played it = None then refresh_estimate (ref_view e 0 (ri_id it)) r it (ref_clock e 2 (rq_id r)) else id) d)"
    using d by (simp split: prod.split option.split)
qed

lemma age_pass_run:
  assumes "request_run cfg (db # past)"
  shows "later cfg (db # past) (age_pass e db)"
  unfolding age_pass_def
  by (rule later_fold [OF later_refl [OF assms]]) (rule later_step, assumption, rule request_run.aged)

lemma advise_pass_run:
  assumes "request_run cfg (db # past)"
  shows "later cfg (db # past) (advise_pass e ids db)"
  unfolding advise_pass_def
  by (rule later_fold [OF later_refl [OF assms]]) (simp only: split_beta, rule later_step, assumption, rule request_run.advised)

lemma candidates_subset: "it \<in> set (slot_candidates e db) \<Longrightarrow> it \<in> set (rq_items db)"
  by (auto simp: slot_candidates_def)

lemma schedule_pass_run:
  assumes "request_run cfg (db # past)" and "\<And>i. sch_config (ref_schedule e i) = cfg"
  shows "later cfg (db # past) (schedule_pass e db)"
  unfolding schedule_pass_def
proof (rule later_fold [OF later_refl [OF assms(1)]])
  fix it d assume it: "it \<in> set (slot_candidates e db)" and d: "later cfg (db # past) d"
  show "later cfg (db # past) (snd (maybe_schedule_song_request (ref_schedule e (ri_id it)) (Some it) d))"
    by (rule later_step [OF d], rule request_run.scheduled) (use assms(2) candidates_subset [OF it] in auto)
qed

lemma refresh_run:
  assumes "request_run cfg (db # past)" and "\<And>i. sch_config (ref_schedule e i) = cfg"
  shows "later cfg (db # past) (refresh_song_request_statuses e db)"
  unfolding refresh_song_request_statuses_def Let_def
  by (rule later_trans [OF _ advise_pass_run], rule later_trans [OF _ schedule_pass_run [OF _ assms(2)]],
    rule later_trans [OF _ age_pass_run], rule later_trans [OF _ estimate_pass_run], rule later_trans [OF _ reconcile_pass_run],
    rule heal_pass_run [OF assms(1)])

section \<open>Who gets a slot\<close>

lemma find_first: "List.find P xs = Some x \<Longrightarrow> \<exists>us vs. xs = us @ x # vs \<and> P x \<and> list_all (\<lambda>u. \<not> P u) us"
proof (induction xs)
  case (Cons y xs)
  show ?case
  proof (cases "P y")
    case True
    then have "y # xs = [] @ x # xs \<and> P x \<and> list_all (\<lambda>u. \<not> P u) []" using Cons.prems by simp
    then show ?thesis by blast
  next
    case False
    then obtain us vs where "xs = us @ x # vs" "P x" "list_all (\<lambda>u. \<not> P u) us" using Cons by auto
    with False have "y # xs = (y # us) @ x # vs \<and> P x \<and> list_all (\<lambda>u. \<not> P u) (y # us)" by simp
    then show ?thesis by blast
  qed
qed simp

definition may_have :: "schedule_reads \<Rightarrow> seconds \<Rightarrow> song_request \<Rightarrow> bool" where
  "may_have e target r \<longleftrightarrow> waiting_request r \<and> rq_track r \<noteq> None \<and> rq_id r \<notin> locked_candidates e
     \<and> is_track_eligible_at (sch_station e) (sch_present e) (rq_track r) target"

lemma next_request_oldest:
  assumes "next_request e target db = Some r"
  shows "r \<in> set (rq_rows db) \<and> may_have e target r" and "q \<in> set (rq_rows db) \<Longrightarrow> may_have e target q \<Longrightarrow> submitted r \<le> submitted q"
proof -
  obtain us vs where split: "sort_key submitted (rq_rows db) = us @ r # vs" "may_have e target r"
    "list_all (\<lambda>u. \<not> may_have e target u) us"
    using find_first [OF assms [unfolded next_request_def, folded may_have_def]] by auto
  have all: "set (us @ r # vs) = set (rq_rows db)" by (metis set_sort split(1))
  then show "r \<in> set (rq_rows db) \<and> may_have e target r" using split(2) by auto
  assume q: "q \<in> set (rq_rows db)" "may_have e target q"
  then have "q \<in> set (r # vs)" using all split(3) by (auto simp: list_all_iff)
  moreover have "sorted (map submitted (us @ r # vs))" by (metis sorted_sort_key split(1))
  ultimately show "submitted r \<le> submitted q" by (auto simp: sorted_append)
qed

lemma requested_Some: "requested e it db = Some r \<Longrightarrow> next_request e (max (sch_now e) (ri_scheduled it)) db = Some r \<and> \<not> already_reserved db (ri_id it)"
  by (simp add: requested_def split: if_splits)

lemma row_of_id: "rows_numbered db \<Longrightarrow> q \<in> set (rq_rows db) \<Longrightarrow> r \<in> set (rq_rows db) \<Longrightarrow> rq_id q = rq_id r \<Longrightarrow> q = r"
  by (metis distinct_map distinct_upt inj_on_def rows_numbered_def)

lemma served_rows:
  assumes "it' = it\<lparr>ri_track := rq_track r\<rparr>"
  shows "rq_rows (collapse e it' (swapped e it r db))
   = map (\<lambda>q. if rq_id q = rq_id r \<or> waiting_request q \<and> rq_track q = rq_track r \<and> rq_id q \<notin> locked_collapse e
         then assigned e it' q else q) (rq_rows db)"
  using assms by (auto simp: collapse_def swapped_def update_where_def set_item_def assigned_def waiting_request_def WAITING_STATUSES_def)

section \<open>Properties\<close>

text \<open>In every database that can be reached, each row of a request has the columns its status calls for: an
  assignment is dated, a played request carries the instant of the play in all three columns, a waiting or closed
  request has no item, and only closed ones are resolved.\<close>
theorem request_rows_well_formed:
  assumes "request_run cfg (db # past)"
  shows "rows_ok db"
  using rows_ok_run [OF assms] by simp



text \<open>C31. When the scheduling swaps a track in, the slot was an approved, open, unclaimed and unplayed one of music; the
  winner is the oldest request that may have it; its item and exactly the rows of the winner and of the waiting
  requests for the same track that nobody holds change.\<close>
theorem oldest_request_gets_the_slot:
  assumes "maybe_schedule_song_request e (Some seen) db = (result, db')" and "db' \<noteq> db"
    and "find_item db (ri_id seen) = Some it" and "requested e it db = Some r"
  shows "result = Fresh_Item (it\<lparr>ri_track := rq_track r\<rparr>)
    \<and> ri_played it = None \<and> \<not> ri_claimed it \<and> music_slot it \<and> sch_slot e (ri_scheduled it) \<in> set (open_slots (sch_config e))
    \<and> rq_items db' = map (\<lambda>x. if ri_id x = ri_id it then x\<lparr>ri_track := rq_track r\<rparr> else x) (rq_items db)
    \<and> rq_rows db' = map (\<lambda>q. if rq_id q = rq_id r \<or> waiting_request q \<and> rq_track q = rq_track r \<and> rq_id q \<notin> locked_collapse e
         then assigned e (it\<lparr>ri_track := rq_track r\<rparr>) q else q) (rq_rows db)
    \<and> r \<in> set (rq_rows db) \<and> may_have e (max (sch_now e) (ri_scheduled it)) r
    \<and> (\<forall>q\<in>set (rq_rows db). may_have e (max (sch_now e) (ri_scheduled it)) q \<longrightarrow> submitted r \<le> submitted q)"
proof (cases rule: schedule_cases [of e "Some seen" db])
  case unchanged
  then show ?thesis using assms(1,2) by simp
next
  case (locked seen')
  then have sched: "schedule_locked e seen db = (result, db')" using assms(1) by simp
  show ?thesis
  proof (cases rule: locked_cases [of e seen db])
    case unchanged
    then show ?thesis using sched assms(2) by simp
  next
    case (filled h x x' db'')
    then have x: "x = it" "db'' = db'" "result = Fresh_Item x'" using assms(3) sched by simp_all
    have fill: "fill_slot e (ri_log seen) it db = Some (x', db')" using filled(8) x by simp
    note oldest = next_request_oldest [OF conjunct1 [OF requested_Some [OF assms(4)]]]
    show ?thesis
      using fill
    proof (cases rule: fill_slot_cases)
      case full
      then show ?thesis using assms(2) by simp
    next
      case organic
      then show ?thesis using assms(4) by simp
    next
      case (swap r')
      have "r' = r" using swap assms(4) by simp
      moreover have "rq_items (collapse e x' (swapped e it r db)) = map (\<lambda>x. if ri_id x = ri_id it then x\<lparr>ri_track := rq_track r\<rparr> else x) (rq_items db)"
        by (simp add: collapse_def swapped_def set_item_def)
      ultimately show ?thesis
        using swap filled(4-7) x oldest served_rows [OF swap(1) [unfolded \<open>r' = r\<close>], of e db] by blast
    qed
  qed
qed


text \<open>The repair command, unlike the refresh command, keeps the mark of a spliced intro on a row it gives back.\<close>
lemma repair_keeps_the_mark:
  assumes "rq_status r = Fulfilled_Request" and "rq_item r = None" and "submitted r \<ge> cutoff"
  shows "rq_rows (requeue_orphan now cutoff True r t (db\<lparr>rq_rows := [r]\<rparr>)) = [(requeued t r)\<lparr>intro_item := intro_item r\<rparr>]"
  using assms by (simp add: requeue_orphan_def update_where_def requeued_def)

subsection \<open>A short history\<close>

definition demo_track :: "int \<Rightarrow> track_row" where
  "demo_track i = \<lparr>row_id = i, row_artist = [65], row_related = [], row_category = Some 1, row_additional = [], row_ready = True,
     row_blocked = [], row_holidays = [], row_next = None, row_duration = Some 200, row_cue = None, row_weight = 1, row_last_played = None\<rparr>"

definition demo_station :: station where
  "demo_station = \<lparr>casefold = id, log1p = id, library_tracks = [demo_track 1, demo_track 2],
     find_category = (\<lambda>c. Some \<lparr>cat_id = c, cat_kind = ''music'', cat_artist_separation = None, cat_title_separation = None, cat_proportional = False\<rparr>),
     all_holidays = [], aired_items = [], default_artist_separation = 1, default_title_separation = 2, now_at = 100\<rparr>"

definition demo_config :: request_config where
  "demo_config = \<lparr>requests_enabled = True, open_slots = [5], max_fulfilled_per_hour = 1, lookahead_warning_minutes = 60, expire_after_hours = 12\<rparr>"

definition demo_reads :: schedule_reads where
  "demo_reads = \<lparr>sch_station = demo_station, sch_present = (\<lambda>_. True), sch_config = demo_config, sch_now = 100, sch_slot = (\<lambda>_. 5),
     sch_view = (None, 100), sch_lock = Lock_Granted, locked_candidates = {}, locked_collapse = {}, evidence_recorded = True\<rparr>"

definition demo_item :: slot_item where
  "demo_item = \<lparr>ri_id = 7, ri_log = 3, ri_track = Some 1, ri_kind = Some ''music'', ri_scheduled = 300, ri_played = None, ri_claimed = False\<rparr>"

definition demo_requests :: request_db where
  "demo_requests = ingest_pending_items demo_station 50 [([97], 2, 10), ([98], 2, 5), ([97], 1, 1)]
     \<lparr>rq_items = [demo_item], rq_logs = [\<lparr>hr_id = 3, hr_approved = True, hr_date = 0, hr_hour = 0\<rparr>], rq_rows = []\<rparr>"

definition demo_scheduled :: request_db where
  "demo_scheduled = snd (maybe_schedule_song_request demo_reads (Some demo_item) demo_requests)"

definition demo_aired :: request_db where
  "demo_aired = record_air_start 7 2 310 (set_item 7 (\<lambda>x. x\<lparr>ri_claimed := True\<rparr>) demo_scheduled)"

lemma demo_requests_run: "\<exists>past. request_run demo_config (demo_requests # past)"
proof -
  have a: "request_run demo_config [\<lparr>rq_items = [], rq_logs = [], rq_rows = []\<rparr>]" by (rule request_run.opened)
  note b = request_run.logs_changed [OF a, of "[\<lparr>hr_id = 3, hr_approved = True, hr_date = 0, hr_hour = 0\<rparr>]"]
  note c = request_run.item_added [OF b, of demo_item]
  have "request_run demo_config (\<lparr>rq_items = [demo_item], rq_logs = [\<lparr>hr_id = 3, hr_approved = True, hr_date = 0, hr_hour = 0\<rparr>], rq_rows = []\<rparr>
    # [\<lparr>rq_items = [], rq_logs = [\<lparr>hr_id = 3, hr_approved = True, hr_date = 0, hr_hour = 0\<rparr>], rq_rows = []\<rparr>, \<lparr>rq_items = [], rq_logs = [], rq_rows = []\<rparr>])"
    using c by (simp add: find_item_def demo_item_def)
  then show ?thesis unfolding demo_requests_def using request_run.ingested by blast
qed

lemma demo_scheduled_run: "\<exists>past. request_run demo_config (demo_scheduled # past)"
proof -
  obtain past where run: "request_run demo_config (demo_requests # past)" using demo_requests_run by blast
  have "demo_item \<in> set (rq_items demo_requests)" by code_simp
  then show ?thesis
    unfolding demo_scheduled_def
    by (intro exI) (rule request_run.scheduled [OF run]; auto simp: demo_reads_def)
qed

lemma demo_aired_run: "\<exists>past. request_run demo_config (demo_aired # past)"
  unfolding demo_aired_def using demo_scheduled_run request_run.claimed request_run.air_started by meson

lemma demo_available: "track_is_available demo_station (\<lambda>_. True) (Some 2)"
  by (simp add: track_is_available_def track_row_of_def music_category_def demo_station_def demo_track_def)

lemma demo_eligible: "is_track_eligible_at demo_station (\<lambda>_. True) (Some 2) t"
  unfolding is_track_eligible_at_def
  by (rule conjI [OF demo_available])
    (simp add: get_recent_exclusions_def history_exclusions_def Let_def demo_station_def demo_track_def track_row_of_def music_category_def
      split: prod.split)

definition demo_row :: "nat \<Rightarrow> utext \<Rightarrow> seconds \<Rightarrow> song_request" where
  "demo_row i ext t = \<lparr>rq_id = i, external_request_id = ext, rq_track = Some 2, rq_status = Pending_Request, submitted = t,
     scheduled_when = None, fulfilled_when = None, resolved_when = None, estimated_play_time = None, status_updated = 50,
     rq_item = None, intro_track = None, intro_item = None\<rparr>"

lemma demo_requests_eq: "demo_requests = \<lparr>rq_items = [demo_item], rq_logs = [\<lparr>hr_id = 3, hr_approved = True, hr_date = 0, hr_hour = 0\<rparr>],
    rq_rows = [demo_row 0 [97] 10, demo_row 1 [98] 5]\<rparr>"
  by code_simp

lemma demo_requested: "requested demo_reads demo_item demo_requests = Some (demo_row 1 [98] 5)"
proof -
  have "sort_key submitted [demo_row 0 [97] 10, demo_row 1 [98] 5] = [demo_row 1 [98] 5, demo_row 0 [97] 10]" by code_simp
  then show ?thesis
    by (simp add: requested_def already_reserved_def next_request_def demo_requests_eq demo_reads_def demo_eligible demo_row_def status_defs)
qed

lemma demo_schedule_eq: "maybe_schedule_song_request demo_reads (Some demo_item) demo_requests =
    (Fresh_Item (demo_item\<lparr>ri_track := Some 2\<rparr>), collapse demo_reads (demo_item\<lparr>ri_track := Some 2\<rparr>)
      (swapped demo_reads demo_item (demo_row 1 [98] 5) demo_requests))"
proof -
  have "used_slots demo_requests 3 = 0" by code_simp
  moreover have "find_hour demo_requests 3 = Some \<lparr>hr_id = 3, hr_approved = True, hr_date = 0, hr_hour = 0\<rparr>" "find_item demo_requests 7 = Some demo_item"
    by (simp_all add: demo_requests_eq find_hour_def find_item_def demo_item_def)
  moreover have "rq_track (demo_row 1 [98] 5) = Some 2" by (simp add: demo_row_def)
  moreover have "sch_config demo_reads = demo_config" "sch_lock demo_reads = Lock_Granted" "evidence_recorded demo_reads" "sch_slot demo_reads t = 5" for t
    by (simp_all add: demo_reads_def)
  moreover have "requests_enabled demo_config" "open_slots demo_config = [5]" "max_fulfilled_per_hour demo_config = 1" by (simp_all add: demo_config_def)
  moreover have "ri_log demo_item = 3" "ri_id demo_item = 7" "ri_played demo_item = None" "\<not> ri_claimed demo_item" "music_slot demo_item"
    by (simp_all add: demo_item_def music_slot_def)
  ultimately show ?thesis
    by (simp add: maybe_schedule_song_request_def schedule_locked_def fill_slot_def demo_requested swapped_def Let_def)
qed

lemma demo_scheduled_eq: "demo_scheduled = collapse demo_reads (demo_item\<lparr>ri_track := Some 2\<rparr>)
      (swapped demo_reads demo_item (demo_row 1 [98] 5) demo_requests)"
  by (simp add: demo_scheduled_def demo_schedule_eq)

lemma demo_scheduled_rows: "map (\<lambda>r. (rq_status r, rq_item r)) (rq_rows demo_scheduled) = [(Scheduled_Request, Some 7), (Scheduled_Request, Some 7)]
    \<and> map ri_track (rq_items demo_scheduled) = [Some 2] \<and> used_slots demo_scheduled 3 = 1 \<and> demo_scheduled \<noteq> demo_requests"
  unfolding demo_scheduled_eq by code_simp

lemma demo_aired_rows: "\<exists>r\<in>set (rq_rows demo_aired). rq_status r = Fulfilled_Request \<and> rq_item r = Some 7 \<and> rq_track r = Some 2 \<and> fulfilled_when r = Some 310"
  unfolding demo_aired_def demo_scheduled_eq by code_simp

subsection \<open>The properties at work\<close>

theorem request_rows_well_formed_witness: "rows_ok demo_aired \<and> length (rq_rows demo_aired) = 2"
proof -
  obtain past where "request_run demo_config (demo_aired # past)" using demo_aired_run by blast
  then have "rows_ok demo_aired" by (rule request_rows_well_formed)
  moreover have "length (rq_rows demo_aired) = 2" unfolding demo_aired_def demo_scheduled_eq by code_simp
  ultimately show ?thesis by simp
qed



theorem oldest_request_gets_the_slot_witness: "submitted (demo_row 1 [98] 5) \<le> submitted (demo_row 0 [97] 10)
    \<and> fst (maybe_schedule_song_request demo_reads (Some demo_item) demo_requests) = Fresh_Item (demo_item\<lparr>ri_track := Some 2\<rparr>)"
proof -
  have item: "find_item demo_requests (ri_id demo_item) = Some demo_item" by code_simp
  have diff: "demo_scheduled \<noteq> demo_requests" using demo_scheduled_rows by blast
  have run: "maybe_schedule_song_request demo_reads (Some demo_item) demo_requests
      = (fst (maybe_schedule_song_request demo_reads (Some demo_item) demo_requests), demo_scheduled)"
    by (simp add: demo_scheduled_def)
  note served = oldest_request_gets_the_slot [OF run diff item demo_requested]
  have "demo_row 0 [97] 10 \<in> set (rq_rows demo_requests)" by (simp add: demo_requests_eq)
  moreover have "may_have demo_reads (max (sch_now demo_reads) (ri_scheduled demo_item)) (demo_row 0 [97] 10)"
    by (simp add: may_have_def demo_reads_def demo_eligible demo_row_def status_defs)
  ultimately have "submitted (demo_row 1 [98] 5) \<le> submitted (demo_row 0 [97] 10)" using served by blast
  moreover have "rq_track (demo_row 1 [98] 5) = Some 2" by (simp add: demo_row_def)
  ultimately show ?thesis using served by simp
qed

definition demo_refresh :: refresh_reads where
  "demo_refresh = \<lparr>ref_station = demo_station, ref_present = (\<lambda>_. True), ref_config = demo_config, ref_now = 100, ref_hour_start = 0,
     ref_wall_clock = (0, 0), ref_slot = (\<lambda>_. 5), ref_state = Some \<lparr>es_timestamp = 100, es_decks = [None], es_queue = [(Some 7, 200)], es_date = Some 0, es_hour = Some 0\<rparr>,
     ref_clock = (\<lambda>_ _. 101), ref_view = (\<lambda>_ _. (None, 101)), ref_schedule = (\<lambda>_. demo_reads)\<rparr>"


theorem repair_keeps_the_mark_witness:
  "intro_item (hd (rq_rows (requeue_orphan 100 0 True ((demo_row 0 [97] 10)\<lparr>rq_status := Fulfilled_Request, intro_item := Some 8\<rparr>) 101
     (demo_requests\<lparr>rq_rows := [(demo_row 0 [97] 10)\<lparr>rq_status := Fulfilled_Request, intro_item := Some 8\<rparr>]\<rparr>)))) = Some 8"
  by (subst repair_keeps_the_mark) (simp_all add: demo_row_def)

end
