(* ===== verification/Spec2Isabelle.thy ===== *)
theory Spec2Isabelle
  imports Rds_Air Dedication_Text Schedule_Profiles Spoken_Machine
    Authz_Evaluator Release_Outcomes Refill_Proposal Refill_Causes Refill_Runner Engine_Commands Start_Next_Volume Hour_Build Web_Requests
begin

text \<open>
  IsadoraAir automates a radio station: it plans every hour, plays it from two decks, fades, inserts spoken
  items, refills an hour that has become short, feeds the RDS encoder and updates itself. This library models
  the deciding parts of the Python code as executable definitions and proves what they promise.

  How the parts interact. The schedule says which rotation or playlist each minute belongs to; the log builder
  turns an hour of it into items; the engine plays them and an operator may cut one short with Start Next, which
  fades the pad of the outgoing deck; a cut, an eject, a skip, a media failure or a shorter request is recorded as
  a cause; the hour refill projects from a snapshot of the engine whether the hour now ends early, and proposes
  items, which an installer puts into the queue under a lock while the ordinary live fill is kept out. What is on the air is told to listeners by RDS. Updates follow a chain of signed-off releases.

  Planning.
  \<^item> \<^verbatim>\<open>Schedule_Resolution\<close> (\<^verbatim>\<open>library/services/schedule_resolution.py\<close>): weekly and dated rows, the segments of an
    hour, the editor's minute map. The segments are proved to be the minute-by-minute layering.
  \<^item> \<^verbatim>\<open>Schedule_Profiles\<close> (\<^verbatim>\<open>schedule_profiles.py\<close>): the state of profiles and blocks, create, edit, clone, activate,
    delete as transactions with their failures; the consistency invariant, clones play the same.
  \<^item> \<^verbatim>\<open>Related_Artists\<close>, \<^verbatim>\<open>Holiday_Ramp\<close>, \<^verbatim>\<open>Track_Selection\<close>, \<^verbatim>\<open>Hour_Build\<close> (\<^verbatim>\<open>related_artists.py\<close>, \<^verbatim>\<open>log_builder.py\<close>): identity
    keys of artists, holiday shares, weighted choice, exact fit and matched pairs, loosening, and the build of a
    whole hour from the segments of \<^verbatim>\<open>Schedule_Resolution\<close>. Lemmas: picks are legal and repeat only when forced, one
    clock runs through all segments, playlists are whole, windows follow each other, the errors are the documented ones.

  Playing.
  \<^item> \<^verbatim>\<open>Start_Next\<close>, \<^verbatim>\<open>Start_Next_Outcome\<close>, \<^verbatim>\<open>Start_Next_Command\<close>, \<^verbatim>\<open>Start_Next_Volume\<close>, \<^verbatim>\<open>Deck_Fade\<close> (\<^verbatim>\<open>engine.py\<close>,
    \<^verbatim>\<open>start_next_identity.py\<close>, \<^verbatim>\<open>deck_fade.py\<close>): the engine's decks and pads as one record, every handler of a Start Next
    transition as a function on it, the interleavings as a step relation; one outcome per transition, the outgoing
    volume is handed back, a command is accepted exactly under the documented conditions, a fade reaches silence.
  \<^item> \<^verbatim>\<open>Engine_Commands\<close> (\<^verbatim>\<open>isadoraair/engine_commands.py\<close>, \<^verbatim>\<open>_check_commands\<close>): the directory of queued commands, its writers
    and its one reader in any interleaving; what was accepted is delivered once and in order.
  \<^item> \<^verbatim>\<open>Web_Requests\<close> (\<^verbatim>\<open>webrequests/\<close>, \<^verbatim>\<open>_record_occurrence_air_start\<close>): song requests and the items of the logs as tables, every
    transaction on them as a function, everything that happens as a history of tables in which updates may rest on old
    reads. Lemmas: the hourly ceiling holds, a fulfilled request was heard, the oldest one wins, the refresh command is
    a sequence of such steps.
  \<^item> \<^verbatim>\<open>Spoken_Lifecycle\<close>, \<^verbatim>\<open>Spoken_Invariant\<close>, \<^verbatim>\<open>Spoken_Machine\<close> (\<^verbatim>\<open>spoken/\<close>): the transition table of spoken items, every
    operation on the rows with lease and event log, and invariants of the reachable states.

  Refilling.
  \<^item> \<^verbatim>\<open>Refill_Projection\<close>, \<^verbatim>\<open>Refill_Fit\<close>, \<^verbatim>\<open>Refill_Proposal\<close>, \<^verbatim>\<open>Refill_Causes\<close> (\<^verbatim>\<open>hour_refill_projection.py\<close>,
    \<^verbatim>\<open>hour_refill_proposal.py\<close>, \<^verbatim>\<open>hour_refill_causality.py\<close>): what remains of the hour, the shortage and its proof, the
    search for items that fit, and which events count as causes. Lemmas: an eligible shortage is real, a proposal
    fits, the search is exact for what it considers, source keys identify causes.
  \<^item> \<^verbatim>\<open>Refill_Boundary\<close>, \<^verbatim>\<open>Refill_Coordinator\<close>, \<^verbatim>\<open>Refill_Install\<close>, \<^verbatim>\<open>Refill_Gap\<close>, \<^verbatim>\<open>Refill_Guard\<close>, \<^verbatim>\<open>Refill_Ledger\<close>,
    \<^verbatim>\<open>Refill_Runner\<close> (\<^verbatim>\<open>resolve_boundary\<close> of \<^verbatim>\<open>hour_refill_proposal.py\<close>, \<^verbatim>\<open>hour_refill_install.py\<close>,
    \<^verbatim>\<open>hour_refill_runner.py\<close>): the proven takeover; the coordinator and the live-fill threads as a step relation, one step
    per section under the engine's lock; an attempt as a function of the worker's reads on a database of rows and ledger,
    an abort leaving the database as it was; the runner's checks with their backoff. Lemmas: two writers never meet, an
    installed refill is safe, opens exactly the gap it fills, and no causes are refilled twice; a cause set is not tried
    without end. \<^verbatim>\<open>Refill_Gap\<close> has the facts on shifting rows, \<^verbatim>\<open>Refill_Guard\<close> what an installed result implies.

  Telling listeners.
  \<^item> \<^verbatim>\<open>Rds_Charset\<close>, \<^verbatim>\<open>Rds_Uecp\<close>, \<^verbatim>\<open>Rds_Payload\<close>, \<^verbatim>\<open>Rds_Rotation\<close>, \<^verbatim>\<open>Rds_Dynamic_Ps\<close> (\<^verbatim>\<open>rbds/services/\<close>): character set, UECP
    frames with stuffing and CRC, message elements, payloads for both encoder protocols, PS and RT rotation.
  \<^item> \<^verbatim>\<open>Rds_Ps_Source\<close>, \<^verbatim>\<open>Rds_Manager\<close>, \<^verbatim>\<open>Rds_Air\<close> (\<^verbatim>\<open>dynamic_ps.py\<close>, \<^verbatim>\<open>rbds_manager.py\<close>): the text of the generated PS, one tick of
    the manager on its attributes with the connection and its backoff, and what reaches listeners over any sequence of
    ticks: RadioText toggles with every change and with nothing else, a connected tick leaves the encoder current,
    attempts to connect keep their distance, the clock time goes out once a minute.
  \<^item> \<^verbatim>\<open>Dedication_Text\<close> (\<^verbatim>\<open>webrequests/dedication_text.py\<close>): the script of a spoken dedication from a station's templates; what
    is typed is what is said, and the listener's words are never read as a template.

  Running the station.
  \<^item> \<^verbatim>\<open>Authz_Evaluator\<close> (\<^verbatim>\<open>authz/\<close>): the decision for an account, a capability and an instant, its cache, the activation report.
  \<^item> \<^verbatim>\<open>Release_Manifest\<close>, \<^verbatim>\<open>Release_Chain\<close>, \<^verbatim>\<open>Release_Planner\<close>, \<^verbatim>\<open>Release_Outcomes\<close> (\<^verbatim>\<open>updatecenter/\<close>): manifests, the line of
    releases and the update plan with every error it can raise.

  \<^verbatim>\<open>Air_Prelude\<close>, \<^verbatim>\<open>Air_Text\<close>, \<^verbatim>\<open>Air_Digits\<close>, \<^verbatim>\<open>Air_Format\<close> and \<^verbatim>\<open>Air_Number\<close> hold what the components share: results of
  calls that may raise, octets, Python's text and number functions, decimal numbers inside texts, format strings,
  rounding and airtime. Interfaces between components are locales
  interpreted on the model in the theory of the component that provides them.

  Conventions. A call that may raise returns a sum, the error on the left. Text is a list of code points, times
  and gains are exact rationals or reals where the code has floats, so rounding of the last bit is not modelled.
  Randomness, clocks, hashes, the calendar of a time zone, Unicode tables and query results are arguments.
  Loops are structural recursion; the two bounded ones (200 fill rounds, the pair budget of the refill search)
  carry the code's own bound, and the reference receiver of UECP messages has one
  unit of fuel per element, which is enough; the walks over a rotation, a chain of
  releases and a text have termination proofs on the length of what is left.

  Not modelled. GStreamer pipelines, threads and timers of the engine beyond the Start Next machine and the live fill's
  use of the coordinator, the journal, counters and status file of the refill runner, its evidence recorder, HTTP views,
  the admin and templates, database queries and their lock waits, migrations, the encoder process manager, weather and road
  feeds, monitoring probes, the production renderer, the exchange of requests with the public site, the privileged update executor and the deploy
  scripts: they are input and output around the decisions above, or components left for later; the manifest of
  the development lists each with its reason.
\<close>

end
